(* ===== verification/Prelude.thy ===== *)
theory Prelude
  imports Main
begin

text \<open>
  What every component of the development shares: the result type of a fallible
  operation, the driver that issues a sequence of requests against one object, the
  contract of a guarded state machine, and the theorem collections the component
  proofs simplify with.

  A Python exception is the left injection of a sum, a normal return the right one.
  An endpoint whose operation raises answers with an error and rolls its transaction
  back, so the object keeps the value it had: \<open>settle\<close> and \<open>drive\<close> say so.
\<close>

section \<open>Collections\<close>

named_theorems tables \<open>definitions of the transition tables\<close>
named_theorems ops \<open>definitions of the operations of a component\<close>

section \<open>Results\<close>

type_synonym ('e, 'a) result = "'e + 'a"

definition raises :: "('e, 'a) result \<Rightarrow> bool" where
  "raises r \<longleftrightarrow> (case r of Inl _ \<Rightarrow> True | Inr _ \<Rightarrow> False)"

lemma raises_simps [simp]:
  "raises (Inl e)"
  "\<not> raises (Inr a)"
  by (simp_all add: raises_def)

lemma not_raises_iff: "\<not> raises r \<longleftrightarrow> (\<exists>a. r = Inr a)"
  by (cases r) auto

definition settle :: "'a \<Rightarrow> ('e, 'a) result \<Rightarrow> 'a" where
  "settle x r = (case r of Inl _ \<Rightarrow> x | Inr y \<Rightarrow> y)"

lemma settle_simps [simp]:
  "settle x (Inl e) = x"
  "settle x (Inr y) = y"
  by (simp_all add: settle_def)

lemma settle_cases:
  "P x \<Longrightarrow> (\<And>y. r = Inr y \<Longrightarrow> P y) \<Longrightarrow> P (settle x r)"
  by (cases r) auto

text \<open>Sequencing: the first error ends it. The second function renames the errors.\<close>

definition bindr :: "('e, 'a) result \<Rightarrow> ('a \<Rightarrow> ('e, 'b) result) \<Rightarrow> ('e, 'b) result" where
  "bindr r f = (case r of Inl e \<Rightarrow> Inl e | Inr x \<Rightarrow> f x)"

definition with_error :: "('e \<Rightarrow> 'd) \<Rightarrow> ('e, 'a) result \<Rightarrow> ('d, 'a) result" where
  "with_error g r = (case r of Inl e \<Rightarrow> Inl (g e) | Inr x \<Rightarrow> Inr x)"

lemma bindr_simps [simp]:
  "bindr (Inl e) f = Inl e"
  "bindr (Inr x) f = f x"
  by (simp_all add: bindr_def)

lemma bindr_Inr_iff: "bindr r f = Inr y \<longleftrightarrow> (\<exists>x. r = Inr x \<and> f x = Inr y)"
  by (cases r) auto

lemma with_error_simps [simp]:
  "with_error g (Inl e) = Inl (g e)"
  "with_error g (Inr x) = Inr x"
  by (simp_all add: with_error_def)

lemma with_error_Inr_iff: "with_error g r = Inr y \<longleftrightarrow> r = Inr y"
  by (cases r) auto

lemmas result_ok = bindr_Inr_iff with_error_Inr_iff

text \<open>A sequence of requests, each settled before the next one.\<close>

fun drive :: "('c \<Rightarrow> 'x \<Rightarrow> ('e, 'x) result) \<Rightarrow> 'c list \<Rightarrow> 'x \<Rightarrow> 'x" where
  "drive f [] x = x"
| "drive f (c # cs) x = drive f cs (settle x (f c x))"

lemma drive_append: "drive f (cs @ ds) x = drive f ds (drive f cs x)"
  by (induction cs arbitrary: x) auto

lemma drive_invariant:
  assumes "\<And>c x y. I x \<Longrightarrow> f c x = Inr y \<Longrightarrow> I y" and "I x"
  shows "I (drive f cs x)"
  using assms(2)
proof (induction cs arbitrary: x)
  case Nil
  then show ?case by simp
next
  case (Cons c cs)
  have "I (settle x (f c x))"
    using Cons.prems assms(1) by (auto intro: settle_cases [of I])
  then show ?case by (simp add: Cons.IH)
qed

text \<open>The same for a relation between the first and the last state.\<close>

lemma drive_related:
  assumes refl: "\<And>x. R x x" and trans: "\<And>x y z. R x y \<Longrightarrow> R y z \<Longrightarrow> R x z"
    and step: "\<And>c x y. f c x = Inr y \<Longrightarrow> R x y"
  shows "R x (drive f cs x)"
proof (induction cs arbitrary: x)
  case Nil
  then show ?case by (simp add: refl)
next
  case (Cons c cs)
  have "R x (settle x (f c x))"
    using step by (auto intro: settle_cases [of "R x"] refl)
  then show ?case using Cons.IH trans by (metis drive.simps(2))
qed

section \<open>Guarded state machines\<close>

text \<open>
  The contract the status machines of the platform share (tasks, plans, marketplace
  listings): an object with a status, a table \<open>allowed\<close> of legal targets, which may
  depend on the request (\<open>'c\<close>), and an operation that either raises or leaves the
  object with a status the table allows, or does nothing.
\<close>

locale guarded_machine =
  fixes status :: "'x \<Rightarrow> 's"
    and allowed :: "'c \<Rightarrow> 's \<Rightarrow> 's set"
    and transition :: "'c \<Rightarrow> 'x \<Rightarrow> ('e, 'x) result"
  assumes sound: "transition c x = Inr y \<Longrightarrow> y = x \<or> status y \<in> allowed c (status x)"
begin

definition closed_under :: "'s set \<Rightarrow> bool" where
  "closed_under S \<longleftrightarrow> (\<forall>s \<in> S. \<forall>c. allowed c s \<subseteq> S)"

lemma drive_closed:
  assumes "closed_under S" and "status x \<in> S"
  shows "status (drive transition cs x) \<in> S"
proof (rule drive_invariant [where I = "\<lambda>x. status x \<in> S"])
  show "status y \<in> S" if "status x \<in> S" and "transition c x = Inr y" for c x y
    using sound [OF that(2)] that(1) assms(1) by (auto simp: closed_under_def)
qed (rule assms(2))

lemma drive_terminal:
  assumes "\<And>c. allowed c (status x) \<subseteq> {status x}"
  shows "status (drive transition cs x) = status x"
  using drive_closed [of "{status x}" x cs] assms by (auto simp: closed_under_def)

lemma drive_reachable:
  "(status x, status (drive transition cs x)) \<in> {(s, t). \<exists>c. t \<in> allowed c s}\<^sup>*"
proof (rule drive_related [where R = "\<lambda>x y. (status x, status y) \<in> {(s, t). \<exists>c. t \<in> allowed c s}\<^sup>*"])
  show "(status x, status y) \<in> {(s, t). \<exists>c. t \<in> allowed c s}\<^sup>*" if "transition c x = Inr y" for c x y
    using sound [OF that] by (auto intro: r_into_rtrancl)
qed (auto intro: rtrancl_trans)

end

end
