(* ===== verification/TaskMachine.thy ===== *)
theory TaskMachine
  imports Prelude
begin

text \<open>
  The task status machine, \<^verbatim>\<open>apps/api-server/src/api_server/task_state_machine.py\<close>.
  A status is a Python \<^verbatim>\<open>str\<close>; the members of \<^verbatim>\<open>TaskStatus\<close> are the named
  constructors and every other string is \<open>T_OTHER\<close>, for which the tables have no key.
\<close>

section \<open>Vocabulary\<close>

datatype task_status =
    T_BACKLOG | T_READY | T_ASSIGNED_TO_HUMAN | T_IN_PROGRESS | T_AWAITING_HUMAN_APPROVAL
  | T_IN_REVIEW | T_BLOCKED | T_DONE | T_CANCELLED | T_OTHER string

datatype agent_type = A_AI | A_HUMAN | A_OTHER string

record task =
  status :: task_status
  retry_count :: nat

section \<open>The tables\<close>

fun ai_transitions :: "task_status \<Rightarrow> task_status set" where
  "ai_transitions T_BACKLOG = {T_READY, T_CANCELLED}"
| "ai_transitions T_READY = {T_IN_PROGRESS, T_BACKLOG, T_BLOCKED, T_CANCELLED}"
| "ai_transitions T_IN_PROGRESS =
     {T_IN_REVIEW, T_AWAITING_HUMAN_APPROVAL, T_BLOCKED, T_DONE, T_READY, T_CANCELLED}"
| "ai_transitions T_AWAITING_HUMAN_APPROVAL = {T_BACKLOG, T_BLOCKED, T_CANCELLED}"
| "ai_transitions T_IN_REVIEW = {T_DONE, T_BACKLOG, T_IN_PROGRESS, T_BLOCKED, T_CANCELLED}"
| "ai_transitions T_BLOCKED = {T_BACKLOG, T_READY, T_IN_PROGRESS, T_CANCELLED}"
| "ai_transitions T_DONE = {}"
| "ai_transitions T_CANCELLED = {}"
| "ai_transitions T_ASSIGNED_TO_HUMAN = {}"
| "ai_transitions (T_OTHER _) = {}"

fun human_overlay :: "task_status \<Rightarrow> task_status set" where
  "human_overlay T_READY = {T_ASSIGNED_TO_HUMAN}"
| "human_overlay T_ASSIGNED_TO_HUMAN =
     {T_IN_PROGRESS, T_ASSIGNED_TO_HUMAN, T_BLOCKED, T_CANCELLED}"
| "human_overlay T_IN_PROGRESS = {T_IN_REVIEW}"
| "human_overlay _ = {}"

section \<open>Operations\<close>

datatype task_transition_error = TaskTransitionError task_status task_status "agent_type option"

definition allowed_transitions :: "agent_type option \<Rightarrow> task_status \<Rightarrow> task_status set" where
  "allowed_transitions assignee from_status =
     (if assignee = Some A_HUMAN then ai_transitions from_status \<union> human_overlay from_status
      else ai_transitions from_status)"

definition task_is_terminal :: "task_status \<Rightarrow> bool" where
  "task_is_terminal st \<longleftrightarrow> ai_transitions st \<union> human_overlay st = {}"

definition can_transition :: "agent_type option \<Rightarrow> task_status \<Rightarrow> task_status \<Rightarrow> bool" where
  "can_transition assignee from_status to_status \<longleftrightarrow>
     to_status \<in> allowed_transitions assignee from_status"

definition transition_task_status ::
  "agent_type option \<Rightarrow> task_status \<Rightarrow> task \<Rightarrow> (task_transition_error, task) result" where
  "transition_task_status assignee target t =
     (let current = status t; allowed = allowed_transitions assignee current
      in if current = target \<and> target \<notin> allowed then Inr t
         else if target \<notin> allowed then Inl (TaskTransitionError current target assignee)
         else Inr (t\<lparr>status := target\<rparr>))"

text \<open>A request names the live agent type of the assignee and the target.\<close>

type_synonym task_request = "agent_type option \<times> task_status"

definition request_task :: "task_request \<Rightarrow> task \<Rightarrow> (task_transition_error, task) result" where
  "request_task r t = transition_task_status (fst r) (snd r) t"

lemmas [ops] =
  allowed_transitions_def can_transition_def transition_task_status_def request_task_def

section \<open>Lemmas\<close>

lemma transition_task_status_ok:
  "transition_task_status a target t = Inr t' \<longleftrightarrow>
     t' = t\<lparr>status := target\<rparr> \<and> (target = status t \<or> can_transition a (status t) target)"
  by (cases t) (auto simp: transition_task_status_def can_transition_def Let_def)

interpretation task_m: guarded_machine status "\<lambda>r. allowed_transitions (fst r)" request_task
  by unfold_locales (auto simp: request_task_def transition_task_status_ok can_transition_def)

lemma ai_never_to_human: "T_ASSIGNED_TO_HUMAN \<notin> ai_transitions s"
  by (cases s) auto

lemma drive_task_frame: "retry_count (drive request_task rs t) = retry_count t"
  by (rule sym, rule drive_related [where R = "\<lambda>x y. retry_count x = retry_count y"])
    (auto simp: request_task_def transition_task_status_ok)

section \<open>Properties\<close>

text \<open>
  A task status move succeeds exactly when the table of the assignee's type lists it
  or it leaves the status as it is; it then changes nothing but the status, and otherwise
  it raises with both endpoints and the assignee's type.
\<close>

theorem transition_task_status_spec:
  "transition_task_status a target t =
     (if target = status t \<or> can_transition a (status t) target
      then Inr (t\<lparr>status := target\<rparr>)
      else Inl (TaskTransitionError (status t) target a))"
  by (cases t) (auto simp: transition_task_status_def can_transition_def Let_def)

text \<open>
  Whatever requests are made, with whatever assignee types, a task that is done or
  cancelled stays as it is.
\<close>

theorem terminal_task_absorbing:
  assumes "task_is_terminal (status t)"
  shows "drive request_task rs t = t"
proof -
  have "status (drive request_task rs t) = status t"
    using assms by (intro task_m.drive_terminal)
      (auto simp: task_is_terminal_def allowed_transitions_def)
  then show ?thesis using drive_task_frame [of rs t] by simp
qed

theorem terminal_task_absorbing_witness:
  "drive request_task [(None, T_READY), (Some A_HUMAN, T_IN_PROGRESS)]
     \<lparr>status = T_DONE, retry_count = 1\<rparr> = \<lparr>status = T_DONE, retry_count = 1\<rparr>"
  by (rule terminal_task_absorbing) (simp add: task_is_terminal_def)

text \<open>
  A task enters the human queue only while its assignee is a human agent: a run of
  requests none of which carries a human assignee never brings a task that is not yet
  assigned to a human into that state.
\<close>

theorem human_queue_needs_human_assignee:
  assumes "\<forall>r \<in> set rs. fst r \<noteq> Some A_HUMAN" and "status t \<noteq> T_ASSIGNED_TO_HUMAN"
  shows "status (drive request_task rs t) \<noteq> T_ASSIGNED_TO_HUMAN"
  using assms
proof (induction rs arbitrary: t)
  case Nil
  then show ?case by simp
next
  case (Cons r rs)
  have "status (settle t (request_task r t)) \<noteq> T_ASSIGNED_TO_HUMAN"
  proof (rule settle_cases)
    show "status t' \<noteq> T_ASSIGNED_TO_HUMAN" if "request_task r t = Inr t'" for t'
      using that Cons.prems ai_never_to_human
      by (auto simp: request_task_def transition_task_status_ok can_transition_def
          allowed_transitions_def)
  qed (rule Cons.prems(2))
  with Cons show ?case by simp
qed

theorem human_queue_needs_human_assignee_witness:
  "status (drive request_task [(Some A_AI, T_READY), (Some A_AI, T_ASSIGNED_TO_HUMAN)]
     \<lparr>status = T_BACKLOG, retry_count = 0\<rparr>) \<noteq> T_ASSIGNED_TO_HUMAN"
  by (rule human_queue_needs_human_assignee) simp_all

end
