(* ===== verification/PlanMachine.thy ===== *)
theory PlanMachine
  imports Prelude Complex_Main
begin

text \<open>
  The plan status machine, \<^verbatim>\<open>apps/api-server/src/api_server/chat/plan_state_machine.py\<close>,
  and the endpoints of \<^verbatim>\<open>routers/plans.py\<close> that move a plan through it: the
  generic PUT, the approval signature, the start of the execution, and the signature that
  starts it at once. Users are numbers, times are numbers, the clock is an argument.
\<close>

section \<open>Vocabulary and state\<close>

datatype plan_status =
    P_PENDING_APPROVAL | P_PENDING_SECOND_APPROVAL | P_DRAFT | P_APPROVED | P_IN_PROGRESS
  | P_BLOCKED | P_PENDING_HUMAN_VALIDATION | P_COMPLETED | P_CANCELLED | P_REJECTED | P_ARCHIVED
  | P_OTHER string

type_synonym uuid = nat
type_synonym time = nat

record plan =
  plan_status :: plan_status
  first_approved_at :: "time option"
  first_approved_by :: "uuid option"
  approved_at :: "time option"
  approved_by :: "uuid option"

definition draft_plan :: plan where
  "draft_plan = \<lparr>plan_status = P_DRAFT, first_approved_at = None, first_approved_by = None,
     approved_at = None, approved_by = None\<rparr>"

section \<open>The table\<close>

fun plan_transitions :: "plan_status \<Rightarrow> plan_status set" where
  "plan_transitions P_DRAFT = {P_PENDING_APPROVAL, P_CANCELLED}"
| "plan_transitions P_PENDING_APPROVAL =
     {P_APPROVED, P_PENDING_SECOND_APPROVAL, P_REJECTED, P_CANCELLED}"
| "plan_transitions P_PENDING_SECOND_APPROVAL = {P_APPROVED, P_REJECTED, P_CANCELLED}"
| "plan_transitions P_APPROVED = {P_IN_PROGRESS, P_CANCELLED}"
| "plan_transitions P_IN_PROGRESS = {P_BLOCKED, P_PENDING_HUMAN_VALIDATION, P_CANCELLED}"
| "plan_transitions P_BLOCKED = {P_IN_PROGRESS, P_CANCELLED}"
| "plan_transitions P_PENDING_HUMAN_VALIDATION =
     {P_COMPLETED, P_REJECTED, P_IN_PROGRESS, P_BLOCKED}"
| "plan_transitions P_COMPLETED = {P_ARCHIVED}"
| "plan_transitions P_REJECTED = {P_DRAFT, P_ARCHIVED, P_IN_PROGRESS}"
| "plan_transitions P_CANCELLED = {P_ARCHIVED}"
| "plan_transitions P_ARCHIVED = {}"
| "plan_transitions (P_OTHER _) = {}"

definition allowed_plan_transitions :: "plan_status \<Rightarrow> plan_status set" where
  "allowed_plan_transitions from_status = plan_transitions from_status"

definition plan_is_terminal :: "plan_status \<Rightarrow> bool" where
  "plan_is_terminal st \<longleftrightarrow> allowed_plan_transitions st = {}"

section \<open>Errors\<close>

datatype plan_error =
    PlanTransitionError plan_status plan_status
  | SameSignerError uuid

datatype plan_put_forbidden = PlanPutForbiddenError plan_status plan_status string

definition privileged_put_targets :: "plan_status set" where
  "privileged_put_targets = {P_APPROVED, P_PENDING_SECOND_APPROVAL, P_COMPLETED}"

fun privileged_target_endpoint :: "plan_status \<Rightarrow> string option" where
  "privileged_target_endpoint P_APPROVED = Some ''POST /plans/{id}/approve''"
| "privileged_target_endpoint P_PENDING_SECOND_APPROVAL = Some ''POST /plans/{id}/approve''"
| "privileged_target_endpoint P_COMPLETED =
     Some ''the human review verdict (submit_verdict)''"
| "privileged_target_endpoint _ = None"

section \<open>Operations of the machine\<close>

definition assert_generic_put_transition ::
  "plan_status \<Rightarrow> plan_status \<Rightarrow> (plan_put_forbidden, unit) result" where
  "assert_generic_put_transition current target =
     (if current = target then Inr ()
      else if target \<in> privileged_put_targets
      then Inl (PlanPutForbiddenError current target
                  (case privileged_target_endpoint target of
                     Some e \<Rightarrow> e | None \<Rightarrow> ''its dedicated endpoint''))
      else Inr ())"

text \<open>
  The stamps are written in the order of the code; the signature check sits between the
  first stamp and the last, but the two stamps belong to different targets, so a raise
  leaves the plan as it was.
\<close>

definition transition_plan_status ::
  "time \<Rightarrow> uuid option \<Rightarrow> plan_status \<Rightarrow> plan \<Rightarrow> (plan_error, plan) result" where
  "transition_plan_status now actor target p =
     (let current = plan_status p in
      if current = target then Inr p
      else if target \<notin> allowed_plan_transitions current
      then Inl (PlanTransitionError current target)
      else
        let p1 = (if current = P_PENDING_APPROVAL \<and> target = P_PENDING_SECOND_APPROVAL
                  then p\<lparr>first_approved_at := Some now,
                         first_approved_by := (case actor of Some a \<Rightarrow> Some a
                                                 | None \<Rightarrow> first_approved_by p)\<rparr>
                  else p)
        in if target = P_APPROVED
           then (if current = P_PENDING_SECOND_APPROVAL \<and> actor \<noteq> None
                    \<and> first_approved_by p1 = actor
                 then Inl (SameSignerError (the actor))
                 else Inr (p1\<lparr>approved_at := Some now,
                              approved_by := (case actor of Some a \<Rightarrow> Some a
                                                | None \<Rightarrow> approved_by p1),
                              plan_status := P_APPROVED\<rparr>))
           else Inr (p1\<lparr>plan_status := target\<rparr>))"

section \<open>The endpoints\<close>

datatype plan_api_error =
    PrivilegedTransition plan_status plan_status string
  | PlanHasOpenTasks
  | InvalidPlanTransition plan_status plan_status
  | SameSigner uuid
  | PlanHasNoTasks
  | ProjectNotActive
  | ApproveNotPending plan_status

definition plan_conflict :: "plan_error \<Rightarrow> plan_api_error" where
  "plan_conflict e = (case e of PlanTransitionError s t \<Rightarrow> InvalidPlanTransition s t
                        | SameSignerError a \<Rightarrow> SameSigner a)"

definition move_plan ::
  "time \<Rightarrow> uuid \<Rightarrow> plan_status \<Rightarrow> plan \<Rightarrow> (plan_api_error, plan) result" where
  "move_plan now actor target p =
     (case transition_plan_status now (Some actor) target p of
        Inl e \<Rightarrow> Inl (plan_conflict e) | Inr q \<Rightarrow> Inr q)"

text \<open>The status half of the generic update; \<open>open_tasks\<close> is the answer of the query
  \<^verbatim>\<open>_plan_has_open_tasks\<close>.\<close>

definition update_plan ::
  "bool \<Rightarrow> time \<Rightarrow> uuid \<Rightarrow> plan_status \<Rightarrow> plan \<Rightarrow> (plan_api_error, plan) result" where
  "update_plan open_tasks now actor target p =
     (if target = plan_status p then Inr p
      else case assert_generic_put_transition (plan_status p) target of
        Inl (PlanPutForbiddenError s t e) \<Rightarrow> Inl (PrivilegedTransition s t e)
      | Inr _ \<Rightarrow>
          (if target = P_PENDING_HUMAN_VALIDATION \<and> open_tasks then Inl PlanHasOpenTasks
           else move_plan now actor target p))"

text \<open>\<open>threshold\<close> is None where the setting does not parse as a decimal.\<close>

definition resolve_first_signature_target :: "rat option \<Rightarrow> rat \<Rightarrow> plan_status" where
  "resolve_first_signature_target threshold_raw cost_max =
     (let threshold = (case threshold_raw of Some t \<Rightarrow> t | None \<Rightarrow> 0)
      in if threshold > 0 \<and> cost_max > threshold then P_PENDING_SECOND_APPROVAL
         else P_APPROVED)"

definition approve_plan ::
  "bool \<Rightarrow> rat option \<Rightarrow> rat \<Rightarrow> time \<Rightarrow> uuid \<Rightarrow> plan \<Rightarrow> (plan_api_error, plan) result" where
  "approve_plan has_tasks threshold cost_max now actor p =
     (let current = plan_status p in
      if current \<noteq> P_PENDING_SECOND_APPROVAL \<and> current \<noteq> P_PENDING_APPROVAL
      then Inl (ApproveNotPending current)
      else if \<not> has_tasks then Inl PlanHasNoTasks
      else move_plan now actor
             (if current = P_PENDING_SECOND_APPROVAL then P_APPROVED
              else resolve_first_signature_target threshold cost_max) p)"

text \<open>A raise after the move rolls the transaction back, so the error carries no plan.\<close>

definition start_approved_plan ::
  "bool \<Rightarrow> time \<Rightarrow> uuid \<Rightarrow> plan \<Rightarrow> (plan_api_error, plan) result" where
  "start_approved_plan has_tasks now actor p =
     (case move_plan now actor P_IN_PROGRESS p of
        Inl e \<Rightarrow> Inl e
      | Inr q \<Rightarrow> (if \<not> has_tasks then Inl PlanHasNoTasks else Inr q))"

definition start_plan_execution ::
  "bool \<Rightarrow> bool \<Rightarrow> time \<Rightarrow> uuid \<Rightarrow> plan \<Rightarrow> (plan_api_error, plan) result" where
  "start_plan_execution project_active has_tasks now actor p =
     (if \<not> project_active then Inl ProjectNotActive
      else start_approved_plan has_tasks now actor p)"

text \<open>
  Approve and start in one request: the conditions of the start come before the signature,
  and the first of two signatures ends it.
\<close>

definition approve_and_start_plan ::
  "bool \<Rightarrow> bool \<Rightarrow> rat option \<Rightarrow> rat \<Rightarrow> time \<Rightarrow> uuid \<Rightarrow> plan \<Rightarrow> (plan_api_error, plan) result" where
  "approve_and_start_plan project_active has_tasks threshold cost_max now actor p =
     (if plan_status p \<noteq> P_PENDING_APPROVAL
      then Inl (InvalidPlanTransition (plan_status p) P_IN_PROGRESS)
      else if \<not> project_active then Inl ProjectNotActive
      else if \<not> has_tasks then Inl PlanHasNoTasks
      else
        let target = resolve_first_signature_target threshold cost_max
        in case move_plan now actor target p of
             Inl e \<Rightarrow> Inl e
           | Inr q \<Rightarrow> (if target = P_PENDING_SECOND_APPROVAL then Inr q
                      else start_approved_plan has_tasks now actor q))"

text \<open>One request, with what the queries of its endpoint answered.\<close>

datatype plan_call =
    PutPlan bool time uuid plan_status
  | ApprovePlan bool "rat option" rat time uuid
  | StartPlan bool bool time uuid
  | ApproveAndStart bool bool "rat option" rat time uuid

fun do_plan_call :: "plan_call \<Rightarrow> plan \<Rightarrow> (plan_api_error, plan) result" where
  "do_plan_call (PutPlan ot now actor target) p = update_plan ot now actor target p"
| "do_plan_call (ApprovePlan ht th cost now actor) p = approve_plan ht th cost now actor p"
| "do_plan_call (StartPlan act ht now actor) p = start_plan_execution act ht now actor p"
| "do_plan_call (ApproveAndStart act ht th cost now actor) p =
     approve_and_start_plan act ht th cost now actor p"

fun member_call :: "plan_call \<Rightarrow> bool" where
  "member_call (ApprovePlan _ _ _ _ _) = False"
| "member_call (ApproveAndStart _ _ _ _ _ _) = False"
| "member_call _ = True"

lemmas [ops] =
  update_plan_def approve_plan_def start_plan_execution_def start_approved_plan_def
  move_plan_def assert_generic_put_transition_def

section \<open>Lemmas on the machine\<close>

lemma transition_plan_ok:
  assumes "transition_plan_status now actor target p = Inr q"
  shows "q = p \<and> target = plan_status p
     \<or> plan_status q = target \<and> target \<in> plan_transitions (plan_status p)"
  using assms
  by (auto simp: transition_plan_status_def allowed_plan_transitions_def Let_def split: if_splits)

lemma transition_plan_approved_by:
  assumes "transition_plan_status now actor target p = Inr q" and "target \<noteq> P_APPROVED"
  shows "approved_by q = approved_by p"
  using assms by (auto simp: transition_plan_status_def Let_def split: if_splits)

lemma transition_plan_signed:
  assumes "transition_plan_status now (Some a) P_APPROVED p = Inr q"
    and "plan_status p \<noteq> P_APPROVED"
  shows "approved_by q = Some a"
  using assms by (auto simp: transition_plan_status_def Let_def split: if_splits)

lemma transition_plan_first_by:
  assumes "transition_plan_status now (Some a) target p = Inr q"
  shows "first_approved_by q =
     (if plan_status p = P_PENDING_APPROVAL \<and> target = P_PENDING_SECOND_APPROVAL
      then Some a else first_approved_by p)"
  using assms by (auto simp: transition_plan_status_def Let_def split: if_splits)

lemma move_plan_ok:
  "move_plan now a target p = Inr q \<longleftrightarrow> transition_plan_status now (Some a) target p = Inr q"
  by (auto simp: move_plan_def split: sum.splits)

text \<open>
  Every endpoint that succeeds either leaves the plan alone or moves it once, but for the
  one that signs and starts: it is the signature, or the signature and then the start.
\<close>

fun single_call :: "plan_call \<Rightarrow> bool" where
  "single_call (ApproveAndStart _ _ _ _ _ _) = False"
| "single_call _ = True"

lemma approve_and_start_split:
  assumes "do_plan_call (ApproveAndStart act ht th cost now a) p = Inr q"
  obtains q1 where "do_plan_call (ApprovePlan ht th cost now a) p = Inr q1"
    and "q = q1 \<or> do_plan_call (StartPlan act ht now a) q1 = Inr q"
    and "plan_status p = P_PENDING_APPROVAL"
proof -
  from assms have st: "plan_status p = P_PENDING_APPROVAL" "act = True" "ht = True"
    by (auto simp: approve_and_start_plan_def split: if_splits)
  let ?t = "resolve_first_signature_target th cost"
  obtain q1 where q1: "move_plan now a ?t p = Inr q1"
    and q: "(if ?t = P_PENDING_SECOND_APPROVAL then Inr q1
             else start_approved_plan ht now a q1) = Inr q"
    using assms unfolding st(2,3)
    by (cases "move_plan now a ?t p") (auto simp: approve_and_start_plan_def st(1) Let_def)
  have "do_plan_call (ApprovePlan ht th cost now a) p = Inr q1"
    using st q1 by (simp add: approve_plan_def)
  moreover have "q = q1 \<or> do_plan_call (StartPlan act ht now a) q1 = Inr q"
    using q st by (auto simp: start_plan_execution_def split: if_splits)
  ultimately show thesis using that st by blast
qed

definition call_moves :: "plan_call \<Rightarrow> plan \<Rightarrow> plan_status \<Rightarrow> bool" where
  "call_moves c p t \<longleftrightarrow>
     (case c of PutPlan ot now a target \<Rightarrow> t = target \<and> target \<notin> privileged_put_targets
      | ApprovePlan ht th cost now a \<Rightarrow>
          plan_status p = P_PENDING_SECOND_APPROVAL \<and> t = P_APPROVED
          \<or> plan_status p = P_PENDING_APPROVAL \<and> t = resolve_first_signature_target th cost
      | StartPlan act ht now a \<Rightarrow> t = P_IN_PROGRESS
      | ApproveAndStart act ht th cost now a \<Rightarrow> False)"

lemma plan_call_move:
  assumes "do_plan_call c p = Inr q" and "single_call c"
  obtains "q = p"
  | now a t where "transition_plan_status now (Some a) t p = Inr q"
      and "call_moves c p t" and "plan_status p \<noteq> t"
proof (cases c)
  case (PutPlan ot now a t)
  with assms that show ?thesis
    by (auto simp: ops move_plan_ok call_moves_def
        split: if_splits sum.splits plan_put_forbidden.splits)
next
  case (ApprovePlan ht th cost now a)
  with assms have "move_plan now a (if plan_status p = P_PENDING_SECOND_APPROVAL
      then P_APPROVED else resolve_first_signature_target th cost) p = Inr q"
    and "plan_status p = P_PENDING_SECOND_APPROVAL \<or> plan_status p = P_PENDING_APPROVAL"
    by (auto simp: approve_plan_def Let_def split: if_splits)
  then show ?thesis using that(2) ApprovePlan
    by (auto simp: move_plan_ok call_moves_def resolve_first_signature_target_def Let_def
        split: if_splits)
next
  case (StartPlan act ht now a)
  with assms have "move_plan now a P_IN_PROGRESS p = Inr q"
    by (auto simp: start_plan_execution_def start_approved_plan_def split: if_splits sum.splits)
  then have m: "transition_plan_status now (Some a) P_IN_PROGRESS p = Inr q"
    by (simp add: move_plan_ok)
  show ?thesis
  proof (cases "plan_status p = P_IN_PROGRESS")
    case True
    with m that(1) show ?thesis by (simp add: transition_plan_status_def)
  next
    case False
    with m that(2) StartPlan show ?thesis by (simp add: call_moves_def)
  qed
next
  case (ApproveAndStart act ht th cost now a)
  with assms(2) show ?thesis by simp
qed

lemma single_call_step:
  assumes "do_plan_call c p = Inr q" and "single_call c"
  shows "q = p \<or> plan_status q \<in> plan_transitions (plan_status p)"
  using assms by (rule plan_call_move) (auto dest!: transition_plan_ok)

text \<open>
  An invariant that every single call keeps is kept by every call; and the targets of a
  call are the ones of the table, but for the start that follows a signature.
\<close>

lemma plan_call_invariant:
  assumes "\<And>c p q. single_call c \<Longrightarrow> OK c \<Longrightarrow> I p \<Longrightarrow> do_plan_call c p = Inr q \<Longrightarrow> I q"
    and "\<And>act ht th cost now a. OK (ApproveAndStart act ht th cost now a) \<Longrightarrow>
           OK (ApprovePlan ht th cost now a) \<and> OK (StartPlan act ht now a)"
    and "OK c" and "I p" and "do_plan_call c p = Inr q"
  shows "I q"
proof (cases "single_call c")
  case True
  with assms show ?thesis by blast
next
  case False
  then obtain act ht th cost now a where c: "c = ApproveAndStart act ht th cost now a"
    by (cases c) auto
  obtain q1 where q1: "do_plan_call (ApprovePlan ht th cost now a) p = Inr q1"
    and q: "q = q1 \<or> do_plan_call (StartPlan act ht now a) q1 = Inr q"
    using assms(5) unfolding c by (rule approve_and_start_split)
  have ok: "OK (ApprovePlan ht th cost now a)" "OK (StartPlan act ht now a)"
    using assms(2) [of act ht th cost now a] assms(3) c by auto
  have "I q1"
    using assms(1) [OF _ ok(1) assms(4) q1] by simp
  with q assms(1) [OF _ ok(2)] show ?thesis by auto
qed

definition call_targets :: "plan_call \<Rightarrow> plan_status \<Rightarrow> plan_status set" where
  "call_targets c st =
     (if \<not> single_call c \<and> st = P_PENDING_APPROVAL
      then insert P_IN_PROGRESS (allowed_plan_transitions st) else allowed_plan_transitions st)"

lemma plan_call_targets:
  assumes "do_plan_call c p = Inr q"
  shows "q = p \<or> plan_status q \<in> call_targets c (plan_status p)"
proof (cases "single_call c")
  case True
  with single_call_step [OF assms] show ?thesis
    by (simp add: call_targets_def allowed_plan_transitions_def)
next
  case False
  then obtain act ht th cost now a where c: "c = ApproveAndStart act ht th cost now a"
    by (cases c) auto
  obtain q1 where q1: "do_plan_call (ApprovePlan ht th cost now a) p = Inr q1"
    and q: "q = q1 \<or> do_plan_call (StartPlan act ht now a) q1 = Inr q"
    and st: "plan_status p = P_PENDING_APPROVAL"
    using assms unfolding c by (rule approve_and_start_split)
  have "plan_status q = P_IN_PROGRESS" if "do_plan_call (StartPlan act ht now a) q1 = Inr q"
    using that
    by (auto simp: start_plan_execution_def start_approved_plan_def move_plan_def
        dest!: transition_plan_ok split: if_splits sum.splits)
  then show ?thesis
    using q single_call_step [OF q1] st c
    by (auto simp: call_targets_def allowed_plan_transitions_def)
qed

interpretation plan_m: guarded_machine plan_status call_targets do_plan_call
  by unfold_locales (rule plan_call_targets)

section \<open>Properties\<close>

text \<open>
  No sequence of endpoint calls brings a completed or cancelled plan back: it stays
  in the state it has or is archived, so a completed plan is never executed again.
\<close>

theorem closed_plan_never_reopened:
  assumes "plan_status p \<in> {P_COMPLETED, P_CANCELLED, P_ARCHIVED}"
  shows "plan_status (drive do_plan_call cs p) \<in> {plan_status p, P_ARCHIVED}"
  using assms
  by (intro plan_m.drive_closed)
    (auto simp: plan_m.closed_under_def call_targets_def allowed_plan_transitions_def)

theorem closed_plan_never_reopened_witness:
  "plan_status (drive do_plan_call
     [StartPlan True True 5 1, PutPlan False 6 1 P_ARCHIVED]
     (draft_plan\<lparr>plan_status := P_COMPLETED\<rparr>)) \<in> {P_COMPLETED, P_ARCHIVED}"
  using closed_plan_never_reopened
    [of "draft_plan\<lparr>plan_status := P_COMPLETED\<rparr>"
        "[StartPlan True True 5 1, PutPlan False 6 1 P_ARCHIVED]"]
  by simp

text \<open>A plan that waits for its second signature carries the first one.\<close>

definition first_signature_kept :: "plan \<Rightarrow> bool" where
  "first_signature_kept p \<longleftrightarrow>
     (plan_status p = P_PENDING_SECOND_APPROVAL \<longrightarrow> first_approved_by p \<noteq> None)"

lemma single_call_first_signature:
  assumes "single_call c" and "first_signature_kept p" and "do_plan_call c p = Inr q"
  shows "first_signature_kept q"
  using assms(3,1)
proof (rule plan_call_move)
  assume "q = p"
  then show ?thesis using assms(2) by simp
next
  fix now a t
  assume m: "transition_plan_status now (Some a) t p = Inr q" and "call_moves c p t"
    and "plan_status p \<noteq> t"
  then have "plan_status q = t" and "t = P_PENDING_SECOND_APPROVAL \<Longrightarrow>
      plan_status p = P_PENDING_APPROVAL"
    using transition_plan_ok [OF m]
    by (auto simp: call_moves_def privileged_put_targets_def split: plan_call.splits)
  then show ?thesis
    using transition_plan_first_by [OF m] by (auto simp: first_signature_kept_def)
qed

lemma do_plan_call_first_signature:
  "first_signature_kept p \<Longrightarrow> do_plan_call c p = Inr q \<Longrightarrow> first_signature_kept q"
  by (rule plan_call_invariant [where OK = "\<lambda>_. True" and I = first_signature_kept])
    (auto intro: single_call_first_signature)

text \<open>
  C2. Four eyes: after any sequence of endpoint calls on a fresh plan, a signature that
  closes a plan waiting for its second one is by a user other than the first signer, and
  both signers are on record.
\<close>

theorem double_signature_distinct:
  assumes "p = drive do_plan_call cs draft_plan"
    and "plan_status p = P_PENDING_SECOND_APPROVAL"
    and "approve_plan has_tasks threshold cost now b p = Inr q"
  shows "plan_status q = P_APPROVED \<and> approved_by q = Some b
     \<and> (\<exists>a. first_approved_by q = Some a \<and> a \<noteq> b)"
proof -
  have "first_signature_kept p"
    unfolding assms(1)
  proof (rule drive_invariant [where I = first_signature_kept])
    show "first_signature_kept draft_plan"
      by (simp add: first_signature_kept_def draft_plan_def)
  qed (rule do_plan_call_first_signature)
  then obtain a where a: "first_approved_by p = Some a"
    using assms(2) by (auto simp: first_signature_kept_def)
  have m: "transition_plan_status now (Some b) P_APPROVED p = Inr q"
    using assms(2,3) by (auto simp: approve_plan_def move_plan_ok Let_def split: if_splits)
  then have "a \<noteq> b"
    using a assms(2) by (auto simp: transition_plan_status_def Let_def split: if_splits)
  with m a assms(2) show ?thesis
    using transition_plan_signed [OF m] transition_plan_first_by [OF m] transition_plan_ok [OF m]
    by auto
qed

lemma double_signature_run:
  "drive do_plan_call [PutPlan False 1 7 P_PENDING_APPROVAL, ApprovePlan True (Some 10) 25 2 7]
     draft_plan =
   \<lparr>plan_status = P_PENDING_SECOND_APPROVAL, first_approved_at = Some 2,
    first_approved_by = Some 7, approved_at = None, approved_by = None\<rparr>"
  by (simp add: ops transition_plan_status_def draft_plan_def privileged_put_targets_def
      allowed_plan_transitions_def resolve_first_signature_target_def)

theorem double_signature_distinct_witness:
  "\<exists>q. approve_plan True (Some 10) 25 3 8
     (drive do_plan_call [PutPlan False 1 7 P_PENDING_APPROVAL, ApprovePlan True (Some 10) 25 2 7]
       draft_plan) = Inr q
   \<and> approved_by q = Some 8 \<and> (\<exists>a. first_approved_by q = Some a \<and> a \<noteq> 8)"
proof -
  define p where "p = drive do_plan_call
    [PutPlan False 1 7 P_PENDING_APPROVAL, ApprovePlan True (Some 10) 25 2 7] draft_plan"
  have "plan_status p = P_PENDING_SECOND_APPROVAL"
    unfolding p_def double_signature_run by simp
  moreover obtain q where q: "approve_plan True (Some 10) 25 3 8 p = Inr q"
    unfolding p_def double_signature_run
    by (simp add: approve_plan_def move_plan_def transition_plan_status_def
        allowed_plan_transitions_def)
  ultimately show ?thesis
    using double_signature_distinct [OF p_def] unfolding p_def [symmetric] by blast
qed

lemma member_call_frame:
  assumes "member_call c" and "do_plan_call c p = Inr q"
    and "plan_status p \<notin> privileged_put_targets"
  shows "plan_status q \<notin> privileged_put_targets \<and> approved_by q = approved_by p
     \<and> first_approved_by q = first_approved_by p"
  using assms(2)
proof (rule plan_call_move)
  show "single_call c" using assms(1) by (cases c) auto
next
  assume "q = p"
  then show ?thesis using assms(3) by simp
next
  fix now a t
  assume m: "transition_plan_status now (Some a) t p = Inr q" and "call_moves c p t"
    and "plan_status p \<noteq> t"
  moreover from this assms(1) have "t \<notin> privileged_put_targets"
    by (cases c) (auto simp: call_moves_def privileged_put_targets_def)
  ultimately show ?thesis
    using transition_plan_ok [OF m] transition_plan_approved_by [OF m]
      transition_plan_first_by [OF m]
    by (auto simp: privileged_put_targets_def)
qed

text \<open>
  The calls any member may make never sign or complete a plan: from a plan in no
  privileged state they reach no privileged state, and the signatures stay as they were.
\<close>

theorem member_calls_never_sign:
  assumes "\<forall>c \<in> set cs. member_call c" and "plan_status p \<notin> privileged_put_targets"
  shows "plan_status (drive do_plan_call cs p) \<notin> privileged_put_targets
     \<and> approved_by (drive do_plan_call cs p) = approved_by p
     \<and> first_approved_by (drive do_plan_call cs p) = first_approved_by p"
  using assms
proof (induction cs arbitrary: p)
  case Nil
  then show ?case by simp
next
  case (Cons c cs)
  let ?I = "\<lambda>q. plan_status q \<notin> privileged_put_targets \<and> approved_by q = approved_by p
     \<and> first_approved_by q = first_approved_by p"
  have "?I (settle p (do_plan_call c p))"
    using Cons.prems member_call_frame [of c p] by (intro settle_cases [of ?I]) auto
  then show ?case
    using Cons.IH [of "settle p (do_plan_call c p)"] Cons.prems(1) by auto
qed

theorem member_calls_never_sign_witness:
  "plan_status (drive do_plan_call [PutPlan False 1 7 P_PENDING_APPROVAL, PutPlan False 2 7 P_APPROVED]
     draft_plan) \<notin> privileged_put_targets"
  using member_calls_never_sign
    [of "[PutPlan False 1 7 P_PENDING_APPROVAL, PutPlan False 2 7 P_APPROVED]" draft_plan]
  by (simp add: draft_plan_def privileged_put_targets_def)

text \<open>
  The gate has a hole: three generic updates by one member take a fresh plan through
  pending approval and rejected into execution, with no signature on record.
\<close>

theorem put_reaches_execution_unsigned:
  "plan_status (drive do_plan_call
      [PutPlan False 1 7 P_PENDING_APPROVAL, PutPlan False 2 7 P_REJECTED,
       PutPlan False 3 7 P_IN_PROGRESS] draft_plan) = P_IN_PROGRESS
   \<and> approved_by (drive do_plan_call
      [PutPlan False 1 7 P_PENDING_APPROVAL, PutPlan False 2 7 P_REJECTED,
       PutPlan False 3 7 P_IN_PROGRESS] draft_plan) = None"
  by (simp add: ops transition_plan_status_def draft_plan_def privileged_put_targets_def
      allowed_plan_transitions_def)

fun rejecting_call :: "plan_call \<Rightarrow> bool" where
  "rejecting_call (PutPlan _ _ _ target) = (target = P_REJECTED)"
| "rejecting_call _ = False"

definition signed_states :: "plan_status set" where
  "signed_states = {P_APPROVED, P_IN_PROGRESS, P_BLOCKED, P_PENDING_HUMAN_VALIDATION, P_COMPLETED}"

definition signed_inv :: "plan \<Rightarrow> bool" where
  "signed_inv p \<longleftrightarrow> plan_status p \<noteq> P_REJECTED
     \<and> (plan_status p \<in> signed_states \<longrightarrow> approved_by p \<noteq> None)"

lemma signed_inv_single:
  assumes "single_call c" and "\<not> rejecting_call c" and "signed_inv p"
    and "do_plan_call c p = Inr q"
  shows "signed_inv q"
  using assms(4,1)
proof (rule plan_call_move)
  assume "q = p"
  then show ?thesis using assms(3) by simp
next
  fix now a t
  assume m: "transition_plan_status now (Some a) t p = Inr q" and "call_moves c p t"
    and "plan_status p \<noteq> t"
  moreover from this assms(2) have "t \<noteq> P_REJECTED"
    by (cases c) (auto simp: call_moves_def resolve_first_signature_target_def Let_def
        split: if_splits)
  ultimately have q: "plan_status q = t" "t \<in> plan_transitions (plan_status p)"
    and t: "t \<noteq> P_REJECTED"
    using transition_plan_ok [OF m] by auto
  show ?thesis
  proof (cases "t = P_APPROVED")
    case True
    with transition_plan_signed [of now a p q] m \<open>plan_status p \<noteq> t\<close> q
    show ?thesis by (simp add: signed_inv_def)
  next
    case False
    with q t assms(3) transition_plan_approved_by [OF m] show ?thesis
      by (cases "plan_status p") (auto simp: signed_inv_def signed_states_def)
  qed
qed

lemma signed_inv_step:
  "\<not> rejecting_call c \<Longrightarrow> signed_inv p \<Longrightarrow> do_plan_call c p = Inr q \<Longrightarrow> signed_inv q"
  by (rule plan_call_invariant [where OK = "\<lambda>c. \<not> rejecting_call c" and I = signed_inv])
    (auto intro: signed_inv_single)

text \<open>
  C33. Apart from that detour the approval gate holds: if no call puts the plan into
  rejected, a plan that runs, is blocked, awaits validation or is completed has been
  signed.
\<close>

theorem executing_plan_is_signed:
  assumes "\<forall>c \<in> set cs. \<not> rejecting_call c"
    and "plan_status (drive do_plan_call cs draft_plan) \<in> signed_states"
  shows "approved_by (drive do_plan_call cs draft_plan) \<noteq> None"
proof -
  have "signed_inv (drive do_plan_call cs p)" if "signed_inv p" for p
    using assms(1) that
  proof (induction cs arbitrary: p)
    case (Cons c cs)
    then show ?case by (auto intro!: settle_cases [of signed_inv] intro: signed_inv_step)
  qed simp
  moreover have "signed_inv draft_plan"
    by (simp add: signed_inv_def draft_plan_def signed_states_def)
  ultimately show ?thesis using assms(2) by (auto simp: signed_inv_def)
qed

theorem executing_plan_is_signed_witness:
  "approved_by (drive do_plan_call [PutPlan False 1 7 P_PENDING_APPROVAL,
     ApprovePlan True None 25 2 9, StartPlan True True 3 7] draft_plan) \<noteq> None"
  by (rule executing_plan_is_signed)
    (simp_all add: ops transition_plan_status_def draft_plan_def privileged_put_targets_def
      allowed_plan_transitions_def resolve_first_signature_target_def signed_states_def)

end
