(* ===== verification/PyValue.thy ===== *)
theory PyValue
  imports Prelude Complex_Main
begin

text \<open>
  The Python values a JSON or YAML document can hold, and the operations of the language
  the components apply to them: truth, \<^verbatim>\<open>dict.get\<close>, \<^verbatim>\<open>str\<close>, \<^verbatim>\<open>str.lower\<close>,
  \<^verbatim>\<open>str.strip\<close>. A float carries the text Python prints for it and the number it
  denotes; characters are bytes, and the case mapping is the one of ASCII.
\<close>

section \<open>Values\<close>

datatype pyfloat = Finite rat | PosInf | NegInf | NotANumber

datatype pyval =
    PNone
  | PBool bool
  | PInt int
  | PFloat string pyfloat
  | PStr string
  | PList "pyval list"
  | PDict "(string \<times> pyval) list"

type_synonym pydict = "(string \<times> pyval) list"

text \<open>The order on floats: every comparison with a NaN is false.\<close>

fun float_less :: "pyfloat \<Rightarrow> pyfloat \<Rightarrow> bool" where
  "float_less (Finite a) (Finite b) = (a < b)"
| "float_less (Finite a) PosInf = True"
| "float_less NegInf (Finite a) = True"
| "float_less NegInf PosInf = True"
| "float_less _ _ = False"

definition float_le :: "pyfloat \<Rightarrow> pyfloat \<Rightarrow> bool" where
  "float_le a b \<longleftrightarrow> float_less a b \<or> (a = b \<and> a \<noteq> NotANumber)"

fun truthy :: "pyval \<Rightarrow> bool" where
  "truthy PNone = False"
| "truthy (PBool b) = b"
| "truthy (PInt i) = (i \<noteq> 0)"
| "truthy (PFloat _ f) = (f \<noteq> Finite 0)"
| "truthy (PStr s) = (s \<noteq> [])"
| "truthy (PList xs) = (xs \<noteq> [])"
| "truthy (PDict d) = (d \<noteq> [])"

text \<open>\<^verbatim>\<open>d.get(k)\<close> and \<^verbatim>\<open>d.get(k, default)\<close>.\<close>

definition dget :: "pydict \<Rightarrow> string \<Rightarrow> pyval" where
  "dget d k = (case map_of d k of Some v \<Rightarrow> v | None \<Rightarrow> PNone)"

definition dget_default :: "pydict \<Rightarrow> string \<Rightarrow> pyval \<Rightarrow> pyval" where
  "dget_default d k x = (case map_of d k of Some v \<Rightarrow> v | None \<Rightarrow> x)"

section \<open>Text\<close>

definition lower_char :: "char \<Rightarrow> char" where
  "lower_char c =
     (let n = of_char c :: nat
      in if 65 \<le> n \<and> n \<le> 90 then char_of (n + 32) else c)"

definition lower :: "string \<Rightarrow> string" where
  "lower s = map lower_char s"

definition is_space :: "char \<Rightarrow> bool" where
  "is_space c \<longleftrightarrow> (let n = of_char c :: nat in n = 32 \<or> (9 \<le> n \<and> n \<le> 13) \<or> (28 \<le> n \<and> n \<le> 31))"

definition strip :: "string \<Rightarrow> string" where
  "strip s = rev (dropWhile is_space (rev (dropWhile is_space s)))"

fun nat_str_rev :: "nat \<Rightarrow> string" where
  "nat_str_rev n =
     (if n < 10 then [char_of (48 + n)] else char_of (48 + n mod 10) # nat_str_rev (n div 10))"

declare nat_str_rev.simps [simp del]

definition nat_str :: "nat \<Rightarrow> string" where
  "nat_str n = rev (nat_str_rev n)"

definition int_str :: "int \<Rightarrow> string" where
  "int_str i = (if i < 0 then CHR ''-'' # nat_str (nat (- i)) else nat_str (nat i))"

text \<open>\<^verbatim>\<open>s[-n:]\<close> for a positive \<^verbatim>\<open>n\<close>.\<close>

definition last_chars :: "nat \<Rightarrow> string \<Rightarrow> string" where
  "last_chars n s = drop (length s - n) s"

definition escape_char :: "char \<Rightarrow> char \<Rightarrow> string" where
  "escape_char q c =
     (if c = q \<or> c = CHR 0x5C then [CHR 0x5C, c]
      else if c = CHR 0x0A then [CHR 0x5C, CHR ''n'']
      else if c = CHR 0x0D then [CHR 0x5C, CHR ''r'']
      else if c = CHR 0x09 then [CHR 0x5C, CHR ''t'']
      else [c])"

definition repr_str :: "string \<Rightarrow> string" where
  "repr_str s =
     (let q = (if CHR 0x27 \<in> set s \<and> CHR 0x22 \<notin> set s then CHR 0x22 else CHR 0x27)
      in q # concat (map (escape_char q) s) @ [q])"

fun join :: "string \<Rightarrow> string list \<Rightarrow> string" where
  "join sep [] = []"
| "join sep [x] = x"
| "join sep (x # y # xs) = x @ sep @ join sep (y # xs)"

fun repr :: "pyval \<Rightarrow> string" where
  "repr PNone = ''None''"
| "repr (PBool b) = (if b then ''True'' else ''False'')"
| "repr (PInt i) = int_str i"
| "repr (PFloat t _) = t"
| "repr (PStr s) = repr_str s"
| "repr (PList xs) = ''['' @ join '', '' (map repr xs) @ '']''"
| "repr (PDict d) =
     ''{'' @ join '', '' (map (\<lambda>(k, v). repr_str k @ '': '' @ repr v) d) @ ''}''"

definition py_str :: "pyval \<Rightarrow> string" where
  "py_str v = (case v of PStr s \<Rightarrow> s | _ \<Rightarrow> repr v)"

section \<open>Lemmas\<close>

lemma float_less_irrefl [simp]: "\<not> float_less a a"
  by (cases a) auto

lemma float_less_trans: "float_less a b \<Longrightarrow> float_less b c \<Longrightarrow> float_less a c"
  by (cases a; cases b; cases c) auto

lemma float_less_nan [simp]:
  "\<not> float_less NotANumber a"
  "\<not> float_less a NotANumber"
  by (cases a; simp)+

lemma dget_Cons [simp]:
  "dget ((k, v) # d) j = (if j = k then v else dget d j)"
  by (simp add: dget_def)

lemma dget_Nil [simp]: "dget [] j = PNone"
  by (simp add: dget_def)

lemma dget_default_Cons [simp]:
  "dget_default ((k, v) # d) j x = (if j = k then v else dget_default d j x)"
  by (simp add: dget_default_def)

lemma dget_default_Nil [simp]: "dget_default [] j x = x"
  by (simp add: dget_default_def)

lemma lower_Nil [simp]: "lower [] = []"
  by (simp add: lower_def)

lemma lower_Cons [simp]: "lower (c # s) = lower_char c # lower s"
  by (simp add: lower_def)

lemma lower_append [simp]: "lower (s @ t) = lower s @ lower t"
  by (simp add: lower_def)

lemma lower_char_idem [simp]: "lower_char (lower_char c) = lower_char c"
proof -
  have "of_char (char_of (n + 32) :: char) = n + 32" if "n \<le> 90" for n :: nat
    using that by (simp add: of_char_of)
  then show ?thesis by (auto simp: lower_char_def Let_def)
qed

lemma lower_idem [simp]: "lower (lower s) = lower s"
  by (simp add: lower_def)

lemma length_lower [simp]: "length (lower s) = length s"
  by (simp add: lower_def)

section \<open>Equality\<close>

text \<open>Equality of values: numbers by value, dictionaries whatever their order.\<close>

fun num_of :: "pyval \<Rightarrow> rat option" where
  "num_of (PBool b) = Some (if b then 1 else 0)"
| "num_of (PInt i) = Some (of_int i)"
| "num_of (PFloat _ (Finite q)) = Some q"
| "num_of _ = None"

fun py_eq :: "pyval \<Rightarrow> pyval \<Rightarrow> bool"
  and py_eq_list :: "pyval list \<Rightarrow> pyval list \<Rightarrow> bool"
  and py_eq_dict :: "pydict \<Rightarrow> pydict \<Rightarrow> bool" where
  "py_eq (PStr s) v = (v = PStr s)"
| "py_eq PNone v = (v = PNone)"
| "py_eq (PList xs) v = (case v of PList ys \<Rightarrow> py_eq_list xs ys | _ \<Rightarrow> False)"
| "py_eq (PDict d) v = (case v of PDict e \<Rightarrow> length d = length e \<and> py_eq_dict d e | _ \<Rightarrow> False)"
| "py_eq (PFloat t PosInf) v = (case v of PFloat _ PosInf \<Rightarrow> True | _ \<Rightarrow> False)"
| "py_eq (PFloat t NegInf) v = (case v of PFloat _ NegInf \<Rightarrow> True | _ \<Rightarrow> False)"
| "py_eq (PFloat t NotANumber) v = False"
| "py_eq (PFloat t (Finite q)) v = (num_of v = Some q)"
| "py_eq (PBool b) v = (num_of v = Some (if b then 1 else 0))"
| "py_eq (PInt i) v = (num_of v = Some (of_int i))"
| "py_eq_list [] ys = (ys = [])"
| "py_eq_list (x # xs) ys = (case ys of [] \<Rightarrow> False | y # ys' \<Rightarrow> py_eq x y \<and> py_eq_list xs ys')"
| "py_eq_dict [] e = True"
| "py_eq_dict ((k, v) # d) e =
     ((case map_of e k of Some w \<Rightarrow> py_eq v w | None \<Rightarrow> False) \<and> py_eq_dict d e)"

text \<open>The one-character ellipsis, which is not among the characters of a byte, as a character of its own.\<close>

definition ellipsis :: char where "ellipsis = CHR 0x85"

end
