(* ===== verification/PlanDag.thy ===== *)
theory PlanDag
  imports PyValue "HOL-Library.AList"
begin

text \<open>
  The dependency check of a plan, \<^verbatim>\<open>apps/api-server/src/api_server/chat/dag.py\<close>: the
  tasks of a plan as a graph, the iterative three-colour depth-first search over it, and
  the check an edit of one task's dependencies goes through. The dictionary of nodes is
  an association list in insertion order; the stack of the search has its top first.
\<close>

section \<open>Data\<close>

record task_ref =
  ref_id :: string
  depends_on :: "string list"

datatype raw_task = RawRef task_ref | RawDict pydict

datatype dag_error =
    DAGCycleError "string list"
  | DuplicateTaskId string
  | MissingTaskId
  | DependsOnNotAList string

datatype colour = White | Gray | Black

type_synonym nodes = "(string \<times> string list) list"
type_synonym frame = "string \<times> string list"
type_synonym colouring = "string \<Rightarrow> colour"

section \<open>Reading the tasks\<close>

definition coerce_task :: "raw_task \<Rightarrow> (dag_error, task_ref) result" where
  "coerce_task raw =
     (case raw of
        RawRef r \<Rightarrow> Inr r
      | RawDict d \<Rightarrow>
          (case dget d ''id'' of
             PStr tid \<Rightarrow>
               (if tid = [] then Inl MissingTaskId
                else case (if truthy (dget d ''depends_on'') then dget d ''depends_on''
                           else PList []) of
                  PList xs \<Rightarrow> Inr \<lparr>ref_id = tid, depends_on = map py_str xs\<rparr>
                | _ \<Rightarrow> Inl (DependsOnNotAList tid))
           | _ \<Rightarrow> Inl MissingTaskId))"

fun build_nodes :: "nodes \<Rightarrow> raw_task list \<Rightarrow> (dag_error, nodes) result" where
  "build_nodes nodes [] = Inr nodes"
| "build_nodes nodes (raw # rest) =
     (case coerce_task raw of
        Inl e \<Rightarrow> Inl e
      | Inr r \<Rightarrow>
          (if ref_id r \<in> fst ` set nodes then Inl (DuplicateTaskId (ref_id r))
           else build_nodes (nodes @ [(ref_id r, depends_on r)]) rest))"

section \<open>The search\<close>

definition deps_of :: "nodes \<Rightarrow> string \<Rightarrow> string list" where
  "deps_of nodes n = (case map_of nodes n of Some ds \<Rightarrow> ds | None \<Rightarrow> [])"

definition cycle_path :: "frame list \<Rightarrow> string \<Rightarrow> string list" where
  "cycle_path stack nxt =
     (let path = rev (map fst stack)
      in (if nxt \<in> set path then dropWhile (\<lambda>n. n \<noteq> nxt) path else path) @ [nxt])"

text \<open>What is left to do: the white nodes with their edges, and the frames.\<close>

definition white_work :: "nodes \<Rightarrow> colouring \<Rightarrow> nat" where
  "white_work nodes c =
     (\<Sum>(n, ds)\<leftarrow>nodes. if c n = White then Suc (length ds) else 0)"

definition stack_work :: "frame list \<Rightarrow> nat" where
  "stack_work stack = (\<Sum>(n, ds)\<leftarrow>stack. Suc (length ds))"

lemma white_work_mono: "k \<noteq> White \<Longrightarrow> white_work nodes (c(m := k)) \<le> white_work nodes c"
  by (induction nodes) (auto simp: white_work_def)

lemma white_work_push:
  "c m = White \<Longrightarrow> map_of nodes m = Some ds \<Longrightarrow>
     white_work nodes (c(m := Gray)) + Suc (length ds) \<le> white_work nodes c"
proof (induction nodes)
  case Nil
  then show ?case by simp
next
  case (Cons p nodes)
  obtain n es where p: "p = (n, es)" by fastforce
  show ?case
  proof (cases "n = m")
    case True
    with Cons.prems p white_work_mono [of Gray nodes c m] show ?thesis
      by (simp add: white_work_def)
  next
    case False
    with Cons p show ?thesis by (simp add: white_work_def)
  qed
qed

function dfs_iterative ::
  "nodes \<Rightarrow> colouring \<Rightarrow> frame list \<Rightarrow> (dag_error, colouring) result" where
  "dfs_iterative nodes c [] = Inr c"
| "dfs_iterative nodes c ((node, []) # st) = dfs_iterative nodes (c(node := Black)) st"
| "dfs_iterative nodes c ((node, nxt # remaining) # st) =
     (case map_of nodes nxt of
        None \<Rightarrow> dfs_iterative nodes c ((node, remaining) # st)
      | Some ds \<Rightarrow>
          (case c nxt of
             Black \<Rightarrow> dfs_iterative nodes c ((node, remaining) # st)
           | Gray \<Rightarrow> Inl (DAGCycleError (cycle_path ((node, remaining) # st) nxt))
           | White \<Rightarrow> dfs_iterative nodes (c(nxt := Gray)) ((nxt, ds) # (node, remaining) # st)))"
  by pat_completeness auto
termination
proof (relation "measure (\<lambda>(nodes, c, st). white_work nodes c + stack_work st)", goal_cases)
  case (2 nodes c node st)
  then show ?case using white_work_mono [of Black nodes c node] by (simp add: stack_work_def)
next
  case (4 nodes c node nxt remaining st ds)
  then show ?case using white_work_push [of c nxt nodes ds] by (simp add: stack_work_def)
qed (simp_all add: stack_work_def)

fun search_from ::
  "nodes \<Rightarrow> string list \<Rightarrow> colouring \<Rightarrow> (dag_error, colouring) result" where
  "search_from nodes [] c = Inr c"
| "search_from nodes (start # starts) c =
     (if c start \<noteq> White then search_from nodes starts c
      else case dfs_iterative nodes (c(start := Gray)) [(start, deps_of nodes start)] of
        Inl e \<Rightarrow> Inl e
      | Inr c' \<Rightarrow> search_from nodes starts c')"

definition check_nodes :: "nodes \<Rightarrow> (dag_error, unit) result" where
  "check_nodes nodes =
     (case search_from nodes (map fst nodes) (\<lambda>_. White) of Inl e \<Rightarrow> Inl e | Inr _ \<Rightarrow> Inr ())"

definition validate_dag :: "raw_task list \<Rightarrow> (dag_error, unit) result" where
  "validate_dag tasks =
     (case build_nodes [] tasks of Inl e \<Rightarrow> Inl e | Inr nodes \<Rightarrow> check_nodes nodes)"

definition assert_acyclic_with_override ::
  "nodes \<Rightarrow> string \<Rightarrow> string list \<Rightarrow> (dag_error, unit) result" where
  "assert_acyclic_with_override edges node new_deps =
     validate_dag (map (\<lambda>(k, v). RawRef \<lparr>ref_id = k, depends_on = v\<rparr>)
       (AList.update node new_deps edges))"

section \<open>The graph and its invariant\<close>

text \<open>
  An edge leads from a node to a dependency that is itself a node: the search skips a
  dependency it does not know.
\<close>

definition keys :: "nodes \<Rightarrow> string set" where
  "keys nodes = fst ` set nodes"

lemma map_of_None_keys: "map_of nodes n = None \<longleftrightarrow> n \<notin> keys nodes"
  by (simp add: keys_def map_of_eq_None_iff)

definition edges :: "nodes \<Rightarrow> (string \<times> string) set" where
  "edges nodes = {(a, b). b \<in> set (deps_of nodes a) \<and> b \<in> keys nodes}"

text \<open>
  The frames from the top down, \<open>over\<close> being the node of the frame on top of the one
  at hand: what a frame has consumed is explored, but for the node above it.
\<close>

fun frames_ok :: "nodes \<Rightarrow> colouring \<Rightarrow> string option \<Rightarrow> frame list \<Rightarrow> bool" where
  "frames_ok nodes c over [] = True"
| "frames_ok nodes c over ((n, remaining) # st) =
     (n \<in> keys nodes
      \<and> (\<exists>consumed. deps_of nodes n = consumed @ remaining
           \<and> (\<forall>b \<in> set consumed. b \<in> keys nodes \<longrightarrow> c b = Black \<or> over = Some b)
           \<and> (\<forall>b. over = Some b \<longrightarrow> b \<in> set consumed))
      \<and> frames_ok nodes c (Some n) st)"

definition dfs_inv :: "nodes \<Rightarrow> colouring \<Rightarrow> frame list \<Rightarrow> bool" where
  "dfs_inv nodes c st \<longleftrightarrow>
     distinct (map fst st) \<and> {n. c n = Gray} = set (map fst st)
     \<and> frames_ok nodes c None st
     \<and> (\<forall>a b. c a = Black \<longrightarrow> (a, b) \<in> edges nodes \<longrightarrow> c b = Black)
     \<and> (\<forall>a. c a = Black \<longrightarrow> (a, a) \<notin> (edges nodes)\<^sup>+)"

lemma frames_ok_recolour:
  assumes "frames_ok nodes c over st" and "\<And>b. c b = Black \<Longrightarrow> c' b = Black"
  shows "frames_ok nodes c' over st"
  using assms(1)
proof (induction st arbitrary: over)
  case Nil
  then show ?case by simp
next
  case (Cons fr st)
  obtain n r where fr: "fr = (n, r)" by fastforce
  with Cons.prems obtain consumed where "deps_of nodes n = consumed @ r"
    and "\<forall>b \<in> set consumed. b \<in> keys nodes \<longrightarrow> c b = Black \<or> over = Some b"
    and "\<forall>b. over = Some b \<longrightarrow> b \<in> set consumed"
    by auto
  then have "\<exists>consumed. deps_of nodes n = consumed @ r
      \<and> (\<forall>b \<in> set consumed. b \<in> keys nodes \<longrightarrow> c' b = Black \<or> over = Some b)
      \<and> (\<forall>b. over = Some b \<longrightarrow> b \<in> set consumed)"
    using assms(2) by blast
  with Cons fr show ?case by simp
qed

lemma frames_ok_close:
  assumes "frames_ok nodes c (Some n) st" and "c n = Black"
  shows "frames_ok nodes c None st"
proof (cases st)
  case (Cons fr st')
  obtain m r where fr: "fr = (m, r)" by fastforce
  with Cons assms(1) obtain consumed where "deps_of nodes m = consumed @ r"
    and "\<forall>b \<in> set consumed. b \<in> keys nodes \<longrightarrow> c b = Black \<or> n = b"
    by auto
  with assms(2) have "\<exists>consumed. deps_of nodes m = consumed @ r
      \<and> (\<forall>b \<in> set consumed. b \<in> keys nodes \<longrightarrow> c b = Black)"
    by blast
  with Cons fr assms(1) show ?thesis by simp
qed simp

lemma edges_closed_trancl:
  assumes "\<forall>a b. P a \<longrightarrow> (a, b) \<in> E \<longrightarrow> P b" and "(a, b) \<in> E\<^sup>+" and "P a"
  shows "P b"
  using assms(2,3,1) by (induction rule: trancl.induct) auto

text \<open>A frame that is exhausted turns black.\<close>

lemma dfs_inv_pop:
  assumes "dfs_inv nodes c ((n, []) # st)"
  shows "dfs_inv nodes (c(n := Black)) st"
proof -
  let ?E = "edges nodes"
  from assms have gray: "c n = Gray" and n: "n \<notin> set (map fst st)"
    and grays: "{m. c m = Gray} = insert n (set (map fst st))"
    and black: "\<forall>a b. c a = Black \<longrightarrow> (a, b) \<in> ?E \<longrightarrow> c b = Black"
    and acyc: "\<forall>a. c a = Black \<longrightarrow> (a, a) \<notin> ?E\<^sup>+"
    by (auto simp: dfs_inv_def)
  from assms have succ: "(n, b) \<in> ?E \<Longrightarrow> c b = Black" for b
    by (auto simp: dfs_inv_def edges_def)
  have "frames_ok nodes c (Some n) st"
    using assms by (simp add: dfs_inv_def)
  then have "frames_ok nodes (c(n := Black)) (Some n) st"
    by (rule frames_ok_recolour) simp
  then have frames: "frames_ok nodes (c(n := Black)) None st"
    by (rule frames_ok_close) simp
  have "(n, n) \<notin> ?E\<^sup>+"
  proof
    assume "(n, n) \<in> ?E\<^sup>+"
    then obtain b where "(n, b) \<in> ?E" and "b = n \<or> (b, n) \<in> ?E\<^sup>+"
      by (metis tranclD rtranclD)
    then have "c n = Black"
      using succ edges_closed_trancl [of "\<lambda>m. c m = Black" ?E b n] black by auto
    with gray show False by simp
  qed
  then show ?thesis
    using assms frames n grays black acyc succ by (auto simp: dfs_inv_def)
qed

text \<open>A dependency that is unknown or explored is consumed.\<close>

lemma dfs_inv_consume:
  assumes "dfs_inv nodes c ((n, d # r) # st)" and "d \<notin> keys nodes \<or> c d = Black"
  shows "dfs_inv nodes c ((n, r) # st)"
proof -
  from assms obtain consumed where "deps_of nodes n = consumed @ d # r"
    and "\<forall>b \<in> set consumed. b \<in> keys nodes \<longrightarrow> c b = Black"
    by (auto simp: dfs_inv_def)
  then have "\<exists>consumed. deps_of nodes n = consumed @ r
      \<and> (\<forall>b \<in> set consumed. b \<in> keys nodes \<longrightarrow> c b = Black)"
    using assms(2) by (intro exI [of _ "consumed @ [d]"]) auto
  with assms(1) show ?thesis by (simp add: dfs_inv_def)
qed

text \<open>A white dependency is opened.\<close>

lemma dfs_inv_push:
  assumes "dfs_inv nodes c ((n, d # r) # st)" and "d \<in> keys nodes" and "c d = White"
  shows "dfs_inv nodes (c(d := Gray)) ((d, deps_of nodes d) # (n, r) # st)"
proof -
  let ?c = "c(d := Gray)"
  from assms obtain consumed where con: "deps_of nodes n = consumed @ d # r"
    "\<forall>b \<in> set consumed. b \<in> keys nodes \<longrightarrow> c b = Black"
    by (auto simp: dfs_inv_def)
  have "frames_ok nodes ?c (Some n) st"
    using assms by (rule_tac frames_ok_recolour [of _ c]) (auto simp: dfs_inv_def)
  moreover have "\<exists>consumed. deps_of nodes n = consumed @ r
      \<and> (\<forall>b \<in> set consumed. b \<in> keys nodes \<longrightarrow> ?c b = Black \<or> Some d = Some b)
      \<and> (\<forall>b. Some d = Some b \<longrightarrow> b \<in> set consumed)"
    using con assms(3) by (intro exI [of _ "consumed @ [d]"]) auto
  ultimately have "frames_ok nodes ?c None ((d, deps_of nodes d) # (n, r) # st)"
    using assms by (simp add: dfs_inv_def)
  moreover have "c m = Gray" if "m \<in> set (map fst ((n, r) # st))" for m
    using that assms(1) by (simp add: dfs_inv_def set_eq_iff)
  then have "d \<notin> set (map fst ((n, r) # st))"
    using assms(3) by (metis colour.distinct(1))
  moreover have "{m. ?c m = Gray} = insert d {m. c m = Gray}"
    by auto
  ultimately show ?thesis
    using assms(1,3) by (auto simp: dfs_inv_def)
qed

section \<open>The search decides acyclicity\<close>

text \<open>The path the search reports: the stack, from its bottom to its top, is a path.\<close>

fun is_path :: "(string \<times> string) set \<Rightarrow> string list \<Rightarrow> bool" where
  "is_path E [] = True"
| "is_path E [a] = True"
| "is_path E (a # b # p) = ((a, b) \<in> E \<and> is_path E (b # p))"

definition is_cycle :: "(string \<times> string) set \<Rightarrow> string list \<Rightarrow> bool" where
  "is_cycle E p \<longleftrightarrow> 2 \<le> length p \<and> hd p = last p \<and> is_path E p"

lemma is_path_snoc: "is_path E (p @ [a, b]) \<longleftrightarrow> is_path E (p @ [a]) \<and> (a, b) \<in> E"
  by (induction E p rule: is_path.induct) (auto simp: Cons_eq_append_conv)

lemma is_path_suffix: "is_path E (p @ q) \<Longrightarrow> is_path E q"
proof (induction p)
  case (Cons a p)
  then show ?case by (cases "p @ q") auto
qed simp

lemma is_path_trancl: "is_path E (a # p) \<Longrightarrow> p \<noteq> [] \<Longrightarrow> (a, last p) \<in> E\<^sup>+"
proof (induction p arbitrary: a)
  case (Cons b p)
  then show ?case
    by (cases "p = []") (auto intro: trancl_into_trancl2)
qed simp

lemma is_cycle_not_acyclic: "is_cycle E p \<Longrightarrow> \<not> acyclic E"
proof -
  assume c: "is_cycle E p"
  then obtain a q where "p = a # q" "q \<noteq> []"
    by (cases p; cases "tl p") (auto simp: is_cycle_def)
  with c have "(a, a) \<in> E\<^sup>+"
    using is_path_trancl [of E a q] by (auto simp: is_cycle_def)
  then show ?thesis by (auto simp: acyclic_def)
qed

lemma frames_path:
  assumes "frames_ok nodes c over st" and "\<And>b. over = Some b \<Longrightarrow> b \<in> keys nodes"
  shows "is_path (edges nodes) (rev (map fst st) @ (case over of Some b \<Rightarrow> [b] | None \<Rightarrow> []))
     \<and> fst ` set st \<subseteq> keys nodes"
  using assms
proof (induction st arbitrary: over)
  case Nil
  then show ?case by (cases over) auto
next
  case (Cons fr st)
  obtain n r where fr: "fr = (n, r)" by fastforce
  with Cons.prems have n: "n \<in> keys nodes" and rest: "frames_ok nodes c (Some n) st"
    by auto
  have "(n, b) \<in> edges nodes" if "over = Some b" for b
    using Cons.prems fr that by (auto simp: edges_def)
  with Cons.IH [OF rest] n fr show ?case
    by (cases over) (auto simp: is_path_snoc [of _ "rev (map fst st)" n, simplified])
qed

lemma dropWhile_suffix: "\<exists>p. xs = p @ dropWhile P xs"
  by (metis takeWhile_dropWhile_id)

lemma hd_dropWhile_neq: "x \<in> set xs \<Longrightarrow> dropWhile (\<lambda>y. y \<noteq> x) xs \<noteq> [] \<and> hd (dropWhile (\<lambda>y. y \<noteq> x) xs) = x"
  by (induction xs) auto

lemma cycle_path_is_cycle:
  assumes "dfs_inv nodes c ((n, d # r) # st)" and "d \<in> keys nodes" and "c d = Gray"
  shows "is_cycle (edges nodes) (cycle_path ((n, r) # st) d)"
proof -
  let ?path = "rev (map fst ((n, r) # st))"
  have "(n, d) \<in> edges nodes"
    using assms(1,2) by (auto simp: dfs_inv_def edges_def)
  moreover have "is_path (edges nodes) (rev (map fst ((n, d # r) # st)))"
    using frames_path [of nodes c None "(n, d # r) # st"] assms(1) by (simp add: dfs_inv_def)
  ultimately have path: "is_path (edges nodes) (?path @ [d])"
    by (simp add: is_path_snoc [of _ "rev (map fst st)" n, simplified])
  have d: "d \<in> set ?path"
    using assms(1,3) by (auto simp: dfs_inv_def set_eq_iff)
  let ?cyc = "dropWhile (\<lambda>m. m \<noteq> d) ?path"
  obtain p where p: "?path = p @ ?cyc"
    using dropWhile_suffix by blast
  have "is_path (edges nodes) (?cyc @ [d])"
    using path is_path_suffix [of _ p "?cyc @ [d]"] p by (metis append.assoc)
  moreover have "?cyc \<noteq> [] \<and> hd ?cyc = d"
    by (rule hd_dropWhile_neq [OF d])
  moreover have "cycle_path ((n, r) # st) d = ?cyc @ [d]"
    using d by (simp add: cycle_path_def)
  ultimately show ?thesis
    by (cases ?cyc) (auto simp: is_cycle_def)
qed

definition dfs_post :: "nodes \<Rightarrow> colouring \<Rightarrow> (dag_error, colouring) result \<Rightarrow> bool" where
  "dfs_post nodes c r \<longleftrightarrow>
     (case r of
        Inl e \<Rightarrow> \<exists>p. e = DAGCycleError p \<and> is_cycle (edges nodes) p
      | Inr c' \<Rightarrow> dfs_inv nodes c' [] \<and> (\<forall>n. c n \<noteq> White \<longrightarrow> c' n \<noteq> White))"

lemma dfs_post_weaken:
  "dfs_post nodes (c(n := k)) r \<Longrightarrow> k \<noteq> White \<Longrightarrow> dfs_post nodes c r"
  by (auto simp: dfs_post_def split: sum.splits if_splits)

lemma dfs_iterative_correct:
  assumes "dfs_inv nodes c st"
  shows "dfs_post nodes c (dfs_iterative nodes c st)"
  using assms
proof (induction nodes c st rule: dfs_iterative.induct)
  case (1 nodes c)
  then show ?case by (simp add: dfs_post_def)
next
  case (2 nodes c node st)
  have "dfs_post nodes c (dfs_iterative nodes (c(node := Black)) st)"
    by (rule dfs_post_weaken [OF "2.IH" [OF dfs_inv_pop [OF "2.prems"]]]) simp
  then show ?case by (simp del: fun_upd_apply)
next
  case (3 nodes c node nxt remaining st)
  show ?case
  proof (cases "map_of nodes nxt")
    case None
    then have "nxt \<notin> keys nodes" using map_of_None_keys [of nodes nxt] by blast
    then have "dfs_inv nodes c ((node, remaining) # st)"
      using dfs_inv_consume [OF "3.prems"] by simp
    then have "dfs_post nodes c (dfs_iterative nodes c ((node, remaining) # st))"
      by (rule "3.IH"(1) [OF None])
    then show ?thesis by (simp only: dfs_iterative.simps None option.case)
  next
    case (Some ds)
    then have nxt: "nxt \<in> keys nodes" and ds: "deps_of nodes nxt = ds"
      using map_of_None_keys [of nodes nxt] by (auto simp: deps_of_def)
    show ?thesis
    proof (cases "c nxt")
      case White
      have "dfs_inv nodes (c(nxt := Gray)) ((nxt, ds) # (node, remaining) # st)"
        using dfs_inv_push [OF "3.prems" nxt White] ds by simp
      then have "dfs_post nodes (c(nxt := Gray))
          (dfs_iterative nodes (c(nxt := Gray)) ((nxt, ds) # (node, remaining) # st))"
        by (rule "3.IH"(2) [OF Some White])
      then have "dfs_post nodes c
          (dfs_iterative nodes (c(nxt := Gray)) ((nxt, ds) # (node, remaining) # st))"
        by (rule dfs_post_weaken) simp
      with Some White show ?thesis by (simp del: fun_upd_apply)
    next
      case Gray
      with Some cycle_path_is_cycle [OF "3.prems" nxt] show ?thesis by (simp add: dfs_post_def)
    next
      case Black
      with 3 Some show ?thesis by (simp add: dfs_inv_consume)
    qed
  qed
qed

lemma dfs_inv_start:
  assumes "dfs_inv nodes c []" and "c n = White" and "n \<in> keys nodes"
  shows "dfs_inv nodes (c(n := Gray)) [(n, deps_of nodes n)]"
proof -
  have "{m. (c(n := Gray)) m = Gray} = insert n {m. c m = Gray}"
    by auto
  with assms show ?thesis by (auto simp: dfs_inv_def)
qed

definition search_post ::
  "nodes \<Rightarrow> string list \<Rightarrow> colouring \<Rightarrow> (dag_error, colouring) result \<Rightarrow> bool" where
  "search_post nodes starts c r \<longleftrightarrow> dfs_post nodes c r
     \<and> (\<forall>c'. r = Inr c' \<longrightarrow> (\<forall>n \<in> set starts. c' n = Black))"

lemma search_from_correct:
  assumes "dfs_inv nodes c []" and "set starts \<subseteq> keys nodes"
  shows "search_post nodes starts c (search_from nodes starts c)"
  using assms
proof (induction starts arbitrary: c)
  case Nil
  then show ?case by (simp add: search_post_def dfs_post_def)
next
  case (Cons n starts)
  have black: "c' n = Black" if "c' n \<noteq> White" "dfs_inv nodes c' []" for c'
    using that by (cases "c' n") (auto simp: dfs_inv_def)
  show ?case
  proof (cases "c n = White")
    case False
    with Cons have "search_post nodes starts c (search_from nodes starts c)" by simp
    with False show ?thesis
      by (auto simp: search_post_def dfs_post_def intro!: black)
  next
    case True
    let ?r = "dfs_iterative nodes (c(n := Gray)) [(n, deps_of nodes n)]"
    have r: "dfs_post nodes (c(n := Gray)) ?r"
      using Cons.prems True by (intro dfs_iterative_correct dfs_inv_start) auto
    show ?thesis
    proof (cases ?r)
      case (Inl e)
      with r True show ?thesis by (simp add: search_post_def dfs_post_def del: fun_upd_apply)
    next
      case (Inr c1)
      with r have c1: "dfs_inv nodes c1 []" and old: "\<And>m. c m \<noteq> White \<Longrightarrow> c1 m \<noteq> White"
        and n: "c1 n \<noteq> White"
        by (auto simp: dfs_post_def)
      have "search_post nodes starts c1 (search_from nodes starts c1)"
        using Cons c1 by simp
      then have "search_post nodes (n # starts) c (search_from nodes starts c1)"
        using old n black by (auto simp: search_post_def dfs_post_def split: sum.splits)
      with Inr True show ?thesis by (simp del: fun_upd_apply)
    qed
  qed
qed

lemma check_nodes_ok:
  "check_nodes nodes = Inr () \<Longrightarrow> acyclic (edges nodes)"
  "check_nodes nodes = Inl e \<Longrightarrow> \<exists>p. e = DAGCycleError p \<and> is_cycle (edges nodes) p"
proof -
  let ?r = "search_from nodes (map fst nodes) (\<lambda>_. White)"
  have "dfs_inv nodes (\<lambda>_. White) []" by (simp add: dfs_inv_def)
  then have post: "search_post nodes (map fst nodes) (\<lambda>_. White) ?r"
    by (rule search_from_correct) (simp add: keys_def)
  show "acyclic (edges nodes)" if ok: "check_nodes nodes = Inr ()"
  proof (rule acyclicI, rule allI, rule notI)
    fix a assume a: "(a, a) \<in> (edges nodes)\<^sup>+"
    from ok obtain c' where c': "?r = Inr c'" by (auto simp: check_nodes_def split: sum.splits)
    from a have "a \<in> keys nodes" by (induction rule: trancl.induct) (auto simp: edges_def)
    with post c' have "c' a = Black" "dfs_inv nodes c' []"
      by (auto simp: search_post_def dfs_post_def keys_def)
    with a show False by (auto simp: dfs_inv_def)
  qed
  show "\<exists>p. e = DAGCycleError p \<and> is_cycle (edges nodes) p" if "check_nodes nodes = Inl e"
    using that post by (auto simp: check_nodes_def search_post_def dfs_post_def split: sum.splits)
qed


text \<open>
  C22. The plan check decides acyclicity and explains a refusal: once the tasks have been
  read into nodes, validate_dag accepts exactly when the dependency graph has no cycle,
  and the only error it raises then is a cycle error whose list of ids is a closed walk
  of that graph (it starts and ends with the same task and every step is a declared
  dependency).
\<close>

theorem validate_dag_decides:
  assumes "build_nodes [] tasks = Inr nodes"
  shows "(validate_dag tasks = Inr () \<longleftrightarrow> acyclic (edges nodes))
     \<and> (\<forall>e. validate_dag tasks = Inl e \<longrightarrow>
          (\<exists>p. e = DAGCycleError p \<and> is_cycle (edges nodes) p))"
proof -
  have v: "validate_dag tasks = check_nodes nodes"
    using assms by (simp add: validate_dag_def)
  show ?thesis
  proof (cases "check_nodes nodes")
    case (Inl e)
    then obtain p where "e = DAGCycleError p" "is_cycle (edges nodes) p"
      using check_nodes_ok(2) by blast
    with v Inl is_cycle_not_acyclic show ?thesis by auto
  next
    case (Inr u)
    with v check_nodes_ok(1) show ?thesis by auto
  qed
qed

lemma validate_dag_decides_witness:
  "\<exists>nodes. build_nodes [] [RawRef \<lparr>ref_id = ''a'', depends_on = [''b'']\<rparr>,
       RawRef \<lparr>ref_id = ''b'', depends_on = [''a'']\<rparr>] = Inr nodes
     \<and> \<not> acyclic (edges nodes)"
proof -
  let ?ts = "[RawRef \<lparr>ref_id = ''a'', depends_on = [''b'']\<rparr>,
       RawRef \<lparr>ref_id = ''b'', depends_on = [''a'']\<rparr>]"
  have b: "build_nodes [] ?ts = Inr [(''a'', [''b'']), (''b'', [''a''])]"
    by (simp add: coerce_task_def)
  have "validate_dag ?ts \<noteq> Inr ()"
    unfolding validate_dag_def b by (simp add: check_nodes_def deps_of_def)
  then show ?thesis
    using b validate_dag_decides [OF b] by blast
qed

end
