(* ===== verification/PlanProgress.thy ===== *)
theory PlanProgress
  imports TaskMachine PlanMachine PyValue
begin

text \<open>
  The progress of a plan and the moves of its status that its tasks cause,
  \<^verbatim>\<open>apps/api-server/src/api_server/plan_progress.py\<close>: functions of a snapshot of the
  tasks. The addition and the rounding of costs are the floating point operations of the
  language and are arguments; nothing below depends on them.
\<close>

section \<open>Vocabulary\<close>

record task_snapshot =
  snap_id :: string
  snap_status :: task_status
  cost_eur :: pyfloat
  snap_deps :: "string list"

record plan_progress =
  pp_plan_id :: string
  total :: nat
  done_count :: nat
  open_count :: nat
  cost_eur_accumulated :: pyfloat

record transition_result =
  new_status :: plan_status
  transitioned :: bool
  reason :: "string option"

fun plan_status_value :: "plan_status \<Rightarrow> string" where
  "plan_status_value P_DRAFT = ''draft''"
| "plan_status_value P_PENDING_APPROVAL = ''pending_approval''"
| "plan_status_value P_PENDING_SECOND_APPROVAL = ''pending_second_approval''"
| "plan_status_value P_APPROVED = ''approved''"
| "plan_status_value P_IN_PROGRESS = ''in_progress''"
| "plan_status_value P_BLOCKED = ''blocked''"
| "plan_status_value P_PENDING_HUMAN_VALIDATION = ''pending_human_validation''"
| "plan_status_value P_COMPLETED = ''completed''"
| "plan_status_value P_CANCELLED = ''cancelled''"
| "plan_status_value P_REJECTED = ''rejected''"
| "plan_status_value P_ARCHIVED = ''archived''"
| "plan_status_value (P_OTHER s) = s"

definition open_task_statuses :: "task_status set" where
  "open_task_statuses =
     {T_BACKLOG, T_READY, T_ASSIGNED_TO_HUMAN, T_IN_PROGRESS, T_AWAITING_HUMAN_APPROVAL,
      T_IN_REVIEW, T_BLOCKED}"

definition advancing_task_statuses :: "task_status set" where
  "advancing_task_statuses =
     {T_READY, T_ASSIGNED_TO_HUMAN, T_IN_PROGRESS, T_AWAITING_HUMAN_APPROVAL, T_IN_REVIEW}"

declare open_task_statuses_def [tables] advancing_task_statuses_def [tables]

section \<open>Progress\<close>

fun progress_loop ::
  "(pyfloat \<Rightarrow> pyfloat \<Rightarrow> pyfloat) \<Rightarrow> task_snapshot list \<Rightarrow> nat \<Rightarrow> nat \<Rightarrow> nat \<Rightarrow> pyfloat
     \<Rightarrow> nat \<times> nat \<times> nat \<times> pyfloat" where
  "progress_loop add [] n d k c = (n, d, k, c)"
| "progress_loop add (t # ts) n d k c =
     (if snap_status t = T_CANCELLED then progress_loop add ts n d k c
      else if snap_status t = T_DONE
      then progress_loop add ts (n + 1) (d + 1) k (add c (cost_eur t))
      else if snap_status t \<in> open_task_statuses
      then progress_loop add ts (n + 1) d (k + 1) (add c (cost_eur t))
      else progress_loop add ts (n + 1) d k (add c (cost_eur t)))"

definition compute_plan_progress ::
  "(pyfloat \<Rightarrow> pyfloat \<Rightarrow> pyfloat) \<Rightarrow> (pyfloat \<Rightarrow> nat \<Rightarrow> pyfloat) \<Rightarrow> string \<Rightarrow> task_snapshot list
     \<Rightarrow> plan_progress" where
  "compute_plan_progress add round_to plan_id ts =
     (let (n, d, k, c) = progress_loop add ts 0 0 0 (Finite 0)
      in \<lparr>pp_plan_id = plan_id, total = n, done_count = d, open_count = k,
          cost_eur_accumulated = round_to c 2\<rparr>)"

definition progress_label :: "plan_progress \<Rightarrow> string" where
  "progress_label p = nat_str (done_count p) @ ''/'' @ nat_str (total p)"

section \<open>What can still complete\<close>

text \<open>One pass of the loop over the tasks, then the loop until a pass adds nothing.\<close>

fun completable_pass ::
  "string set \<Rightarrow> task_snapshot list \<Rightarrow> string set \<Rightarrow> bool \<Rightarrow> string set \<times> bool" where
  "completable_pass ids [] completable changed = (completable, changed)"
| "completable_pass ids (t # ts) completable changed =
     (if snap_id t \<in> completable \<or> snap_status t \<noteq> T_BACKLOG
      then completable_pass ids ts completable changed
      else if \<forall>dep \<in> set (snap_deps t). dep \<notin> ids \<or> dep \<in> completable
      then completable_pass ids ts (insert (snap_id t) completable) True
      else completable_pass ids ts completable changed)"

lemma completable_pass_mono:
  "completable_pass ids ts cs ch = (cs', ch') \<Longrightarrow> cs \<subseteq> cs'"
proof (induction ts arbitrary: cs ch)
  case (Cons t ts)
  from Cons.prems Cons.IH [of cs ch] Cons.IH [of "insert (snap_id t) cs" True]
  show ?case by (simp only: completable_pass.simps split: if_splits) auto
qed simp

lemma completable_pass_upper:
  "completable_pass ids ts cs ch = (cs', ch') \<Longrightarrow> cs' \<subseteq> cs \<union> snap_id ` set ts"
proof (induction ts arbitrary: cs ch)
  case (Cons t ts)
  from Cons.prems Cons.IH [of cs ch] Cons.IH [of "insert (snap_id t) cs" True]
  show ?case by (simp only: completable_pass.simps split: if_splits) auto
qed simp

lemma completable_pass_changed:
  "completable_pass ids ts cs ch = (cs', ch') \<Longrightarrow> ch' \<longleftrightarrow> ch \<or> cs \<noteq> cs'"
proof (induction ts arbitrary: cs ch)
  case (Cons t ts)
  from Cons.prems Cons.IH [of cs ch] Cons.IH [of "insert (snap_id t) cs" True]
    completable_pass_mono [of ids ts "insert (snap_id t) cs" True cs' ch']
  show ?case by (simp only: completable_pass.simps split: if_splits) auto
qed simp

lemmas completable_pass_bounds =
  completable_pass_mono completable_pass_upper completable_pass_changed

function completable_loop :: "task_snapshot list \<Rightarrow> string set \<Rightarrow> string set" where
  "completable_loop tasks completable =
     (let (completable', changed) =
            completable_pass (snap_id ` set tasks) tasks completable False
      in if changed then completable_loop tasks completable' else completable')"
  by pat_completeness auto
termination
proof (relation "measure (\<lambda>(tasks, cs). card (snap_id ` set tasks - cs))", goal_cases)
  case (2 tasks cs x cs' ch)
  then have p: "completable_pass (snap_id ` set tasks) tasks cs False = (cs', True)" by auto
  have "snap_id ` set tasks - cs' \<subset> snap_id ` set tasks - cs"
    using completable_pass_bounds [OF p] by blast
  then show ?case by (auto intro: psubset_card_mono)
qed simp

declare completable_loop.simps [simp del]

definition completable_task_ids :: "task_snapshot list \<Rightarrow> string set" where
  "completable_task_ids tasks =
     completable_loop tasks
       (snap_id ` {t \<in> set tasks. snap_status t = T_DONE
                                   \<or> snap_status t \<in> advancing_task_statuses})"

section \<open>The transitions\<close>

definition is_open :: "task_snapshot \<Rightarrow> bool" where
  "is_open t \<longleftrightarrow> snap_status t \<in> open_task_statuses"

definition only_can :: "string \<Rightarrow> plan_status \<Rightarrow> string" where
  "only_can what s = ''plan is '' @ repr_str (plan_status_value s) @ '', only '' @ what"

definition transition_to_pending_human_validation ::
  "plan_status \<Rightarrow> task_snapshot list \<Rightarrow> transition_result" where
  "transition_to_pending_human_validation current tasks =
     (if current \<noteq> P_IN_PROGRESS
      then \<lparr>new_status = current, transitioned = False,
            reason = Some (only_can ''in_progress can transition'' current)\<rparr>
      else
        let open_tasks = filter is_open tasks
        in if open_tasks \<noteq> []
           then \<lparr>new_status = P_IN_PROGRESS, transitioned = False,
                 reason = Some (nat_str (length open_tasks) @ '' task(s) still open'')\<rparr>
           else \<lparr>new_status = P_PENDING_HUMAN_VALIDATION, transitioned = True, reason = None\<rparr>)"

definition transition_to_blocked ::
  "plan_status \<Rightarrow> task_snapshot list \<Rightarrow> transition_result" where
  "transition_to_blocked current tasks =
     (if current \<noteq> P_IN_PROGRESS
      then \<lparr>new_status = current, transitioned = False,
            reason = Some (only_can ''in_progress can transition'' current)\<rparr>
      else
        let open_tasks = filter is_open tasks;
            blocked = filter (\<lambda>t. snap_status t = T_BLOCKED) open_tasks
        in if blocked = []
           then \<lparr>new_status = P_IN_PROGRESS, transitioned = False,
                 reason = Some ''no blocked tasks''\<rparr>
           else
             let completable = completable_task_ids tasks;
                 advanceable = filter (\<lambda>t. snap_status t \<noteq> T_BLOCKED \<and> snap_id t \<in> completable)
                                 open_tasks
             in if advanceable \<noteq> []
                then \<lparr>new_status = P_IN_PROGRESS, transitioned = False,
                      reason = Some (nat_str (length advanceable) @ '' task(s) can still advance'')\<rparr>
                else \<lparr>new_status = P_BLOCKED, transitioned = True, reason = None\<rparr>)"

definition decide_plan_closure :: "plan_status \<Rightarrow> task_snapshot list \<Rightarrow> transition_result" where
  "decide_plan_closure current tasks =
     (if tasks = []
      then \<lparr>new_status = current, transitioned = False,
            reason = Some ''the plan has no materialised tasks''\<rparr>
      else
        let result = transition_to_pending_human_validation current tasks
        in if transitioned result then result else transition_to_blocked current tasks)"

definition has_open_tasks :: "task_snapshot list \<Rightarrow> bool" where
  "has_open_tasks tasks \<longleftrightarrow> (\<exists>t \<in> set tasks. is_open t)"

definition transition_from_blocked ::
  "plan_status \<Rightarrow> task_snapshot list \<Rightarrow> transition_result" where
  "transition_from_blocked current tasks =
     (if current \<noteq> P_BLOCKED
      then \<lparr>new_status = current, transitioned = False,
            reason = Some (only_can ''blocked can revert'' current)\<rparr>
      else if transitioned (transition_to_blocked P_IN_PROGRESS tasks)
      then \<lparr>new_status = P_BLOCKED, transitioned = False,
            reason = Some ''snapshot still justifies the block''\<rparr>
      else \<lparr>new_status = P_IN_PROGRESS, transitioned = True, reason = None\<rparr>)"

datatype human_verdict = V_APPROVED | V_REJECTED

definition verdict_repr :: "human_verdict option \<Rightarrow> string" where
  "verdict_repr v =
     (case v of None \<Rightarrow> ''None'' | Some V_APPROVED \<Rightarrow> repr_str ''approved''
      | Some V_REJECTED \<Rightarrow> repr_str ''rejected'')"

definition transition_to_completed ::
  "plan_status \<Rightarrow> human_verdict option \<Rightarrow> transition_result" where
  "transition_to_completed current human_verdict =
     (if current \<noteq> P_PENDING_HUMAN_VALIDATION
      then \<lparr>new_status = current, transitioned = False,
            reason = Some (only_can ''pending_human_validation can complete'' current)\<rparr>
      else if human_verdict \<noteq> Some V_APPROVED
      then \<lparr>new_status = current, transitioned = False,
            reason = Some (''human verdict is '' @ verdict_repr human_verdict
                           @ '', not '' @ repr_str ''approved'')\<rparr>
      else \<lparr>new_status = P_COMPLETED, transitioned = True, reason = None\<rparr>)"

section \<open>The tasks that can complete are a least fixpoint\<close>

text \<open>
  What the loop computes, stated without a loop: a task can complete when it is done or
  being worked on, or when it waits in the backlog and every task of the plan it depends
  on can complete.
\<close>

inductive can_complete :: "task_snapshot list \<Rightarrow> string \<Rightarrow> bool" for tasks where
  working: "t \<in> set tasks \<Longrightarrow> snap_status t = T_DONE \<or> snap_status t \<in> advancing_task_statuses
    \<Longrightarrow> can_complete tasks (snap_id t)"
| waiting: "t \<in> set tasks \<Longrightarrow> snap_status t = T_BACKLOG
    \<Longrightarrow> (\<And>dep. dep \<in> set (snap_deps t) \<Longrightarrow> dep \<in> snap_id ` set tasks \<Longrightarrow> can_complete tasks dep)
    \<Longrightarrow> can_complete tasks (snap_id t)"

lemma completable_pass_sound:
  assumes "completable_pass (snap_id ` set tasks) ts cs ch = (cs', ch')"
    and "set ts \<subseteq> set tasks" and "\<forall>i \<in> cs. can_complete tasks i"
  shows "\<forall>i \<in> cs'. can_complete tasks i"
  using assms
proof (induction ts arbitrary: cs ch)
  case Nil
  then show ?case by simp
next
  case (Cons t ts)
  show ?case
  proof (cases "snap_id t \<in> cs \<or> snap_status t \<noteq> T_BACKLOG")
    case True
    with Cons.prems show ?thesis by (intro Cons.IH [of cs ch]) auto
  next
    case False
    show ?thesis
    proof (cases "\<forall>dep \<in> set (snap_deps t). dep \<notin> snap_id ` set tasks \<or> dep \<in> cs")
      case True
      have "can_complete tasks (snap_id t)"
        using Cons.prems False True by (intro waiting) auto
      with Cons.prems False True show ?thesis
        by (intro Cons.IH [of "insert (snap_id t) cs" True]) auto
    next
      case stuck: False
      then have "completable_pass (snap_id ` set tasks) (t # ts) cs ch
          = completable_pass (snap_id ` set tasks) ts cs ch"
        using False by auto
      with Cons.prems show ?thesis by (intro Cons.IH [of cs ch]) simp_all
    qed
  qed
qed

lemma completable_pass_fixed:
  assumes "completable_pass ids ts cs False = (cs, False)"
  shows "\<forall>t \<in> set ts. snap_status t = T_BACKLOG \<longrightarrow>
    (\<forall>dep \<in> set (snap_deps t). dep \<notin> ids \<or> dep \<in> cs) \<longrightarrow> snap_id t \<in> cs"
  using assms
proof (induction ts)
  case (Cons t ts)
  then show ?case
    using completable_pass_changed [of ids ts "insert (snap_id t) cs" True cs False]
    by (auto split: if_splits)
qed simp

lemma completable_loop_spec:
  assumes "\<forall>i \<in> cs. can_complete tasks i"
  shows "(\<forall>i \<in> completable_loop tasks cs. can_complete tasks i)
     \<and> cs \<subseteq> completable_loop tasks cs
     \<and> completable_pass (snap_id ` set tasks) tasks (completable_loop tasks cs) False
         = (completable_loop tasks cs, False)"
  using assms
proof (induction tasks cs rule: completable_loop.induct)
  case (1 tasks cs)
  obtain cs' ch where p: "completable_pass (snap_id ` set tasks) tasks cs False = (cs', ch)"
    by fastforce
  have sound: "\<forall>i \<in> cs'. can_complete tasks i"
    using completable_pass_sound [OF p] 1 by simp
  show ?case
  proof (cases ch)
    case True
    with 1(1) [OF p [symmetric] refl] sound
    have "(\<forall>i \<in> completable_loop tasks cs'. can_complete tasks i)
     \<and> cs' \<subseteq> completable_loop tasks cs'
     \<and> completable_pass (snap_id ` set tasks) tasks (completable_loop tasks cs') False
         = (completable_loop tasks cs', False)" by blast
    moreover have "completable_loop tasks cs = completable_loop tasks cs'"
      using p True by (simp add: completable_loop.simps [of tasks cs])
    ultimately show ?thesis using completable_pass_mono [OF p] by auto
  next
    case False
    then have "cs' = cs" using completable_pass_bounds [OF p] by blast
    with p False 1 show ?thesis by (simp add: completable_loop.simps [of tasks cs])
  qed
qed

lemma completable_task_ids_spec:
  "completable_task_ids tasks = {i. can_complete tasks i}"
proof -
  let ?base = "snap_id ` {t \<in> set tasks. snap_status t = T_DONE
                                   \<or> snap_status t \<in> advancing_task_statuses}"
  let ?C = "completable_task_ids tasks"
  have "\<forall>i \<in> ?base. can_complete tasks i" by (auto intro: working)
  from completable_loop_spec [OF this]
  have sound: "\<forall>i \<in> ?C. can_complete tasks i" and base: "?base \<subseteq> ?C"
    and fixed: "completable_pass (snap_id ` set tasks) tasks ?C False = (?C, False)"
    by (simp_all add: completable_task_ids_def)
  have "i \<in> ?C" if "can_complete tasks i" for i
    using that
  proof induction
    case (working t)
    with base show ?case by auto
  next
    case (waiting t)
    with completable_pass_fixed [OF fixed] show ?case by blast
  qed
  with sound show ?thesis by blast
qed


text \<open>
  C31. The fixpoint loop of a plan computes exactly the tasks that can still complete: the
  ids it returns are those derivable from "a done or active task can complete" and "a
  backlog task can complete if every dependency it has inside the plan can". In
  particular a backlog chain behind a blocked or cancelled task, and a backlog cycle, are
  left out, and the loop ends.
\<close>

theorem completable_task_ids_least:
  "completable_task_ids tasks = {i. can_complete tasks i}"
  by (rule completable_task_ids_spec)

section \<open>When the tasks move the plan\<close>

definition advances :: "task_snapshot list \<Rightarrow> task_snapshot \<Rightarrow> bool" where
  "advances ts t \<longleftrightarrow> is_open t \<and> snap_status t \<noteq> T_BLOCKED \<and> can_complete ts (snap_id t)"

lemma blocked_is_open: "snap_status t = T_BLOCKED \<Longrightarrow> is_open t"
  by (simp add: is_open_def tables)

lemma transition_to_blocked_iff:
  "transitioned (transition_to_blocked P_IN_PROGRESS ts) \<longleftrightarrow>
     (\<exists>t \<in> set ts. snap_status t = T_BLOCKED) \<and> \<not> (\<exists>t \<in> set ts. advances ts t)"
  by (auto simp: transition_to_blocked_def Let_def completable_task_ids_spec advances_def
      filter_empty_conv intro: blocked_is_open)

lemma to_validation_iff:
  "transitioned (transition_to_pending_human_validation P_IN_PROGRESS ts) \<longleftrightarrow> \<not> has_open_tasks ts"
  by (auto simp: transition_to_pending_human_validation_def Let_def has_open_tasks_def
      filter_empty_conv)

text \<open>
  An executing plan is escalated to blocked exactly when it is stuck: some task is
  blocked, and no open task that is not itself blocked can still complete. A blocked plan
  goes back to execution exactly when the same snapshot would not block it, so the two
  moves are inverse and a plan can not bounce between them without a change of its tasks.
\<close>

theorem plan_blocked_iff_stuck:
  "(transitioned (transition_to_blocked P_IN_PROGRESS ts) \<longleftrightarrow>
     (\<exists>t \<in> set ts. snap_status t = T_BLOCKED) \<and> \<not> (\<exists>t \<in> set ts. advances ts t))
   \<and> (transitioned (transition_from_blocked P_BLOCKED ts) \<longleftrightarrow>
     \<not> transitioned (transition_to_blocked P_IN_PROGRESS ts))"
  using transition_to_blocked_iff [of ts] by (simp add: transition_from_blocked_def)

lemma decide_cases:
  assumes "transitioned (decide_plan_closure s ts)"
  shows "s = P_IN_PROGRESS" and "ts \<noteq> []"
    and "new_status (decide_plan_closure s ts) = P_PENDING_HUMAN_VALIDATION \<and> \<not> has_open_tasks ts
       \<or> new_status (decide_plan_closure s ts) = P_BLOCKED
         \<and> (\<exists>t \<in> set ts. snap_status t = T_BLOCKED) \<and> \<not> (\<exists>t \<in> set ts. advances ts t)"
proof -
  show s: "s = P_IN_PROGRESS"
    using assms
    by (auto simp: decide_plan_closure_def Let_def transition_to_pending_human_validation_def
        transition_to_blocked_def split: if_splits)
  show ts: "ts \<noteq> []"
    using assms by (auto simp: decide_plan_closure_def)
  show "new_status (decide_plan_closure s ts) = P_PENDING_HUMAN_VALIDATION \<and> \<not> has_open_tasks ts
       \<or> new_status (decide_plan_closure s ts) = P_BLOCKED
         \<and> (\<exists>t \<in> set ts. snap_status t = T_BLOCKED) \<and> \<not> (\<exists>t \<in> set ts. advances ts t)"
  proof (cases "has_open_tasks ts")
    case True
    then have "\<not> transitioned (transition_to_pending_human_validation P_IN_PROGRESS ts)"
      by (simp add: to_validation_iff)
    then have d: "decide_plan_closure s ts = transition_to_blocked P_IN_PROGRESS ts"
      using ts s by (simp add: decide_plan_closure_def)
    then have "new_status (transition_to_blocked P_IN_PROGRESS ts) = P_BLOCKED"
      using assms by (auto simp: transition_to_blocked_def Let_def split: if_splits)
    with d assms show ?thesis using transition_to_blocked_iff [of ts] by auto
  next
    case False
    then have "decide_plan_closure s ts = transition_to_pending_human_validation P_IN_PROGRESS ts"
      using ts s to_validation_iff [of ts] by (simp add: decide_plan_closure_def)
    with False show ?thesis
      by (auto simp: transition_to_pending_human_validation_def Let_def has_open_tasks_def
          filter_empty_conv)
  qed
qed

text \<open>
  The closure decision is sound: it moves only an executing plan that has tasks, and
  it moves it either to human validation, when no task is open, or to blocked, when some
  task is blocked and none can advance.
\<close>

theorem plan_closure_sound:
  assumes "transitioned (decide_plan_closure s ts)"
  shows "s = P_IN_PROGRESS \<and> ts \<noteq> []
     \<and> (new_status (decide_plan_closure s ts) = P_PENDING_HUMAN_VALIDATION \<and> \<not> has_open_tasks ts
       \<or> new_status (decide_plan_closure s ts) = P_BLOCKED
         \<and> (\<exists>t \<in> set ts. snap_status t = T_BLOCKED) \<and> \<not> (\<exists>t \<in> set ts. advances ts t))"
  using decide_cases [OF assms] by simp

definition snap :: "string \<Rightarrow> task_status \<Rightarrow> string list \<Rightarrow> task_snapshot" where
  "snap i s ds = \<lparr>snap_id = i, snap_status = s, cost_eur = Finite 0, snap_deps = ds\<rparr>"

lemma snap_simps [simp]:
  "snap_id (snap i s ds) = i" "snap_status (snap i s ds) = s" "snap_deps (snap i s ds) = ds"
  by (simp_all add: snap_def)

lemma plan_closure_sound_witness:
  "\<not> has_open_tasks [snap ''a'' T_DONE [], snap ''b'' T_CANCELLED [''a'']]"
proof -
  have "transitioned (decide_plan_closure P_IN_PROGRESS
      [snap ''a'' T_DONE [], snap ''b'' T_CANCELLED [''a'']])"
    by (simp add: decide_plan_closure_def transition_to_pending_human_validation_def is_open_def
        snap_def tables)
  from plan_closure_sound [OF this] show ?thesis
    by (auto simp: snap_def)
qed

text \<open>
  Every move of a plan that its tasks or the human verdict cause is a move of the plan
  status machine: whenever one of the three decisions of the progress module transitions,
  the new status is one the machine allows from the old one, and otherwise the status is
  unchanged.
\<close>

theorem plan_moves_follow_machine:
  assumes "r \<in> {decide_plan_closure s ts, transition_from_blocked s ts, transition_to_completed s v}"
  shows "(if transitioned r then new_status r \<in> allowed_plan_transitions s else new_status r = s)"
proof -
  have "if transitioned (decide_plan_closure s ts)
      then new_status (decide_plan_closure s ts) \<in> allowed_plan_transitions s
      else new_status (decide_plan_closure s ts) = s"
    by (auto simp: decide_plan_closure_def transition_to_pending_human_validation_def
        transition_to_blocked_def Let_def allowed_plan_transitions_def)
  moreover have "if transitioned (transition_from_blocked s ts)
      then new_status (transition_from_blocked s ts) \<in> allowed_plan_transitions s
      else new_status (transition_from_blocked s ts) = s"
    by (auto simp: transition_from_blocked_def allowed_plan_transitions_def)
  moreover have "if transitioned (transition_to_completed s v)
      then new_status (transition_to_completed s v) \<in> allowed_plan_transitions s
      else new_status (transition_to_completed s v) = s"
    by (auto simp: transition_to_completed_def allowed_plan_transitions_def)
  ultimately show ?thesis using assms by blast
qed

lemma plan_moves_follow_machine_witness:
  "P_COMPLETED \<in> allowed_plan_transitions P_PENDING_HUMAN_VALIDATION"
  using plan_moves_follow_machine
    [of "transition_to_completed P_PENDING_HUMAN_VALIDATION (Some V_APPROVED)"
        P_PENDING_HUMAN_VALIDATION "[]" "Some V_APPROVED"]
  by (simp add: transition_to_completed_def)

lemma progress_loop_counts:
  "fst (progress_loop add ts n d k c) = n + length (filter (\<lambda>t. snap_status t \<noteq> T_CANCELLED) ts)
   \<and> fst (snd (progress_loop add ts n d k c)) = d + length (filter (\<lambda>t. snap_status t = T_DONE) ts)
   \<and> fst (snd (snd (progress_loop add ts n d k c))) = k + length (filter is_open ts)"
proof (induction ts arbitrary: n d k c)
  case (Cons t ts)
  have "T_DONE \<notin> open_task_statuses" "T_CANCELLED \<notin> open_task_statuses"
    by (simp_all add: tables)
  moreover have "is_open t \<longleftrightarrow> snap_status t \<in> open_task_statuses" by (simp add: is_open_def)
  ultimately show ?case using Cons.IH by simp
qed simp

lemma partition_length:
  "(\<And>t. t \<in> set ts \<Longrightarrow> P t \<Longrightarrow> \<not> Q t \<and> R t) \<Longrightarrow> (\<And>t. t \<in> set ts \<Longrightarrow> Q t \<Longrightarrow> R t) \<Longrightarrow>
     length (filter P ts) + length (filter Q ts) \<le> length (filter R ts)"
  by (induction ts) (auto simp: le_SucI)

text \<open>
  The progress shown on a plan card agrees with the decision that closes the plan:
  the done and the open tasks are disjoint parts of the total, and an executing plan with
  tasks goes to human validation exactly when its card counts no open task.
\<close>

theorem progress_agrees_with_closure:
  assumes "ts \<noteq> []"
  shows "done_count (compute_plan_progress add round_to i ts)
       + open_count (compute_plan_progress add round_to i ts)
         \<le> total (compute_plan_progress add round_to i ts)
     \<and> (open_count (compute_plan_progress add round_to i ts) = 0 \<longleftrightarrow>
         new_status (decide_plan_closure P_IN_PROGRESS ts) = P_PENDING_HUMAN_VALIDATION)"
proof -
  obtain n d k c where l: "progress_loop add ts 0 0 0 (Finite 0) = (n, d, k, c)"
    by (metis prod_cases4)
  have counts: "n = length (filter (\<lambda>t. snap_status t \<noteq> T_CANCELLED) ts)"
    "d = length (filter (\<lambda>t. snap_status t = T_DONE) ts)" "k = length (filter is_open ts)"
    using progress_loop_counts [of add ts 0 0 0 "Finite 0"] by (simp_all add: l)
  have "d + k \<le> n"
    unfolding counts by (rule partition_length) (auto simp: is_open_def tables)
  moreover have "k = 0 \<longleftrightarrow> \<not> has_open_tasks ts"
    by (auto simp: counts has_open_tasks_def filter_empty_conv)
  moreover have "\<not> has_open_tasks ts \<longleftrightarrow>
      new_status (decide_plan_closure P_IN_PROGRESS ts) = P_PENDING_HUMAN_VALIDATION"
    using assms
    by (auto simp: decide_plan_closure_def transition_to_pending_human_validation_def
        transition_to_blocked_def Let_def has_open_tasks_def filter_empty_conv)
  ultimately show ?thesis by (simp add: compute_plan_progress_def l)
qed

lemma progress_agrees_with_closure_witness:
  "open_count (compute_plan_progress (\<lambda>a b. b) (\<lambda>a n. a) ''p'' [snap ''a'' T_DONE []]) = 0"
  using progress_agrees_with_closure [of "[snap ''a'' T_DONE []]" "\<lambda>a b. b" "\<lambda>a n. a" "''p''"]
  by (simp add: decide_plan_closure_def transition_to_pending_human_validation_def is_open_def
      snap_def tables)

text \<open>
  A stall the escalation does not see: there is a snapshot of an executing plan whose
  only open task waits in the backlog behind a cancelled one, so that no open task can
  ever complete, and still the closure decision leaves the plan in execution, because
  without a blocked task the escalation returns early.
\<close>

theorem cancelled_dependency_stall_unseen:
  "\<exists>ts. has_open_tasks ts \<and> \<not> (\<exists>t \<in> set ts. advances ts t)
     \<and> decide_plan_closure P_IN_PROGRESS ts
         = \<lparr>new_status = P_IN_PROGRESS, transitioned = False, reason = Some ''no blocked tasks''\<rparr>"
proof (intro exI conjI)
  let ?ts = "[snap ''a'' T_CANCELLED [], snap ''b'' T_BACKLOG [''a'']]"
  show "has_open_tasks ?ts"
    by (simp add: has_open_tasks_def is_open_def snap_def tables)
  have "completable_task_ids ?ts = {}"
  proof -
    have base: "snap_id ` {t \<in> set ?ts. snap_status t = T_DONE
        \<or> snap_status t \<in> advancing_task_statuses} = {}"
      by (auto simp: tables)
    have "completable_loop ?ts {} = {}"
      by (simp add: completable_loop.simps)
    then show ?thesis unfolding completable_task_ids_def base .
  qed
  then have "\<not> can_complete ?ts ''b''"
    by (simp add: completable_task_ids_spec)
  then show "\<not> (\<exists>t \<in> set ?ts. advances ?ts t)"
    by (simp add: advances_def is_open_def tables)
  show "decide_plan_closure P_IN_PROGRESS ?ts
         = \<lparr>new_status = P_IN_PROGRESS, transitioned = False, reason = Some ''no blocked tasks''\<rparr>"
    by (simp add: decide_plan_closure_def transition_to_pending_human_validation_def
        transition_to_blocked_def is_open_def snap_def tables)
qed

end
