(* ===== verification/PriceFeed.thy ===== *)
theory PriceFeed
  imports PyValue
begin

text \<open>
  Reading the community price feed,
  \<^verbatim>\<open>apps/api-server/src/api_server/pricing/litellm_sync/feed.py\<close>: a JSON object of
  entries becomes a list of catalog candidates and a list of skipped keys. A
  \<^verbatim>\<open>Decimal\<close> is a \<open>pyfloat\<close> here, since the text of a number may denote an
  infinity or a NaN, and comparing a NaN raises \<^verbatim>\<open>InvalidOperation\<close>.
\<close>

section \<open>Decimals from text\<close>

definition is_digit :: "char \<Rightarrow> bool" where
  "is_digit c \<longleftrightarrow> (let n = of_char c :: nat in 48 \<le> n \<and> n \<le> 57)"

definition digits_value :: "string \<Rightarrow> nat" where
  "digits_value ds = foldl (\<lambda>a c. 10 * a + (of_char c - 48)) 0 ds"

definition split_sign :: "string \<Rightarrow> bool \<times> string" where
  "split_sign s =
     (case s of c # r \<Rightarrow> if c = CHR ''-'' then (True, r) else if c = CHR ''+'' then (False, r)
                        else (False, s)
      | [] \<Rightarrow> (False, s))"

definition exponent_of :: "string \<Rightarrow> int option" where
  "exponent_of s =
     (case s of
        [] \<Rightarrow> Some 0
      | c # r \<Rightarrow>
          let (neg, ds) = split_sign r
          in if lower_char c = CHR ''e'' \<and> ds \<noteq> [] \<and> list_all is_digit ds
             then Some (if neg then - int (digits_value ds) else int (digits_value ds)) else None)"

definition ten_to :: "int \<Rightarrow> rat" where
  "ten_to e = (if e < 0 then 1 / 10 ^ nat (- e) else 10 ^ nat e)"

definition parse_decimal :: "string \<Rightarrow> pyfloat option" where
  "parse_decimal s =
     (let (neg, r) = split_sign (filter (\<lambda>c. c \<noteq> CHR ''_'') (strip s)); l = lower r;
          ip = takeWhile is_digit r; rest = dropWhile is_digit r;
          fp = (if take 1 rest = ''.'' then takeWhile is_digit (drop 1 rest) else []);
          rest2 = (if take 1 rest = ''.'' then dropWhile is_digit (drop 1 rest) else rest)
      in if l = ''inf'' \<or> l = ''infinity'' then Some (if neg then NegInf else PosInf)
         else if (take 3 l = ''nan'' \<and> list_all is_digit (drop 3 l))
              \<or> (take 4 l = ''snan'' \<and> list_all is_digit (drop 4 l)) then Some NotANumber
         else if ip = [] \<and> fp = [] then None
         else case exponent_of rest2 of
                None \<Rightarrow> None
              | Some e \<Rightarrow>
                  let v = of_nat (digits_value (ip @ fp)) * ten_to (e - int (length fp))
                  in Some (Finite (if neg then - v else v)))"

section \<open>Entries\<close>

record feed_price =
  f_provider :: string
  f_model_id :: string
  f_modality :: string
  f_input_price :: pyfloat
  f_output_price :: pyfloat
  f_cached_input_price :: "pyfloat option"
  f_context_window :: "int option"

record skipped_entry =
  skipped_key :: string
  skip_reason :: string

text \<open>Of the exceptions an entry may raise, only \<^verbatim>\<open>ValueError\<close> is caught.\<close>

datatype entry_error = ValueError string | InvalidOperation | OverflowError

definition mode_to_modality :: "(string \<times> string) list" where
  "mode_to_modality =
     [(''chat'', ''text''), (''completion'', ''text''), (''responses'', ''text''),
      (''embedding'', ''embedding''), (''image_generation'', ''image''),
      (''audio_transcription'', ''audio''), (''audio_speech'', ''audio''),
      (''rerank'', ''rerank''), (''moderation'', ''text'')]"

definition skip_keys :: "string set" where
  "skip_keys = {''sample_spec''}"

definition to_decimal :: "pyval \<Rightarrow> (entry_error, pyfloat option) result" where
  "to_decimal v =
     (case v of
        PNone \<Rightarrow> Inr None
      | PBool _ \<Rightarrow> Inr None
      | _ \<Rightarrow>
          (case parse_decimal (py_str v) of
             None \<Rightarrow> Inr None
           | Some d \<Rightarrow>
               if d = NotANumber then Inl InvalidOperation
               else if float_less d (Finite 0) then Inr None else Inr (Some d)))"

definition trunc_int :: "rat \<Rightarrow> int" where
  "trunc_int r = (if r < 0 then - \<lfloor>- r\<rfloor> else \<lfloor>r\<rfloor>)"

fun context_window_from :: "pydict \<Rightarrow> string list \<Rightarrow> (entry_error, int option) result" where
  "context_window_from raw [] = Inr None"
| "context_window_from raw (k # ks) =
     (case dget raw k of
        PInt i \<Rightarrow> if 0 < i then Inr (Some i) else context_window_from raw ks
      | PFloat _ f \<Rightarrow>
          (case f of
             Finite r \<Rightarrow> if 0 < r then Inr (Some (trunc_int r)) else context_window_from raw ks
           | PosInf \<Rightarrow> Inl OverflowError
           | _ \<Rightarrow> context_window_from raw ks)
      | _ \<Rightarrow> context_window_from raw ks)"

definition coerce_context_window :: "pydict \<Rightarrow> (entry_error, int option) result" where
  "coerce_context_window raw = context_window_from raw [''max_input_tokens'', ''max_tokens'']"

definition per_1m :: "pyfloat \<Rightarrow> pyfloat" where
  "per_1m f = (case f of Finite r \<Rightarrow> Finite (r * 1000000) | _ \<Rightarrow> f)"

definition price_or_zero :: "pyfloat option \<Rightarrow> pyfloat" where
  "price_or_zero p = per_1m (case p of Some d \<Rightarrow> d | None \<Rightarrow> Finite 0)"

definition map_entry :: "string \<Rightarrow> pyval \<Rightarrow> (entry_error, feed_price) result" where
  "map_entry model_key raw =
     (case raw of
        PDict d \<Rightarrow>
          (case dget d ''litellm_provider'' of
             PStr prov \<Rightarrow>
               if strip prov = [] then Inl (ValueError ''missing litellm_provider'')
               else if strip model_key = [] then Inl (ValueError ''empty model key'')
               else
                 let modality = (case dget d ''mode'' of
                       PStr m \<Rightarrow> (case map_of mode_to_modality m of Some x \<Rightarrow> x | None \<Rightarrow> ''text'')
                     | _ \<Rightarrow> ''text'')
                 in (case to_decimal (dget d ''input_cost_per_token'') of
                       Inl e \<Rightarrow> Inl e
                     | Inr i \<Rightarrow>
                         (case to_decimal (dget d ''output_cost_per_token'') of
                            Inl e \<Rightarrow> Inl e
                          | Inr out \<Rightarrow>
                              if i = None \<and> out = None
                              then Inl (ValueError ''no usable input/output price'')
                              else (case to_decimal (dget d ''cache_read_input_token_cost'') of
                                      Inl e \<Rightarrow> Inl e
                                    | Inr cached \<Rightarrow>
                                        (case coerce_context_window d of
                                           Inl e \<Rightarrow> Inl e
                                         | Inr w \<Rightarrow>
                                             Inr \<lparr>f_provider = strip prov,
                                                  f_model_id = strip model_key,
                                                  f_modality = modality,
                                                  f_input_price = price_or_zero i,
                                                  f_output_price = price_or_zero out,
                                                  f_cached_input_price = map_option per_1m cached,
                                                  f_context_window = w\<rparr>))))
           | _ \<Rightarrow> Inl (ValueError ''missing litellm_provider''))
      | _ \<Rightarrow> Inl (ValueError ''entry is not an object''))"

fun parse_feed ::
  "string set option \<Rightarrow> pydict \<Rightarrow> (entry_error, feed_price list \<times> skipped_entry list) result" where
  "parse_feed fams [] = Inr ([], [])"
| "parse_feed fams ((k, raw) # rest) =
     (if k \<in> skip_keys then parse_feed fams rest
      else
        let keep = (\<lambda>m s. case parse_feed fams rest of
                 Inl e \<Rightarrow> Inl e | Inr (ms, ss) \<Rightarrow> Inr (m @ ms, s @ ss))
        in case map_entry k raw of
             Inl (ValueError msg) \<Rightarrow> keep [] [\<lparr>skipped_key = k, skip_reason = msg\<rparr>]
           | Inl e \<Rightarrow> Inl e
           | Inr m \<Rightarrow>
               if fams \<noteq> None \<and> f_provider m \<notin> the fams
               then keep [] [\<lparr>skipped_key = k, skip_reason = ''family_not_active''\<rparr>]
               else keep [m] [])"

definition kind_to_litellm_families :: "(string \<times> string list) list" where
  "kind_to_litellm_families =
     [(''claude_sdk'', [''anthropic'']),
      (''azure_foundry'', [''azure'', ''azure_ai'', ''openai'']),
      (''copilot'', [''openai'', ''anthropic'']),
      (''ollama'', [''ollama''])]"

definition families_of_kind :: "string \<Rightarrow> string list" where
  "families_of_kind k = (case map_of kind_to_litellm_families k of Some fs \<Rightarrow> fs | None \<Rightarrow> [])"

definition families_for_kinds :: "string list \<Rightarrow> string set" where
  "families_for_kinds kinds = (\<Union>k \<in> set kinds. set (families_of_kind k))"

section \<open>Properties\<close>

definition non_negative :: "pyfloat \<Rightarrow> bool" where
  "non_negative f \<longleftrightarrow> float_le (Finite 0) f"

lemma to_decimal_non_negative: "to_decimal v = Inr (Some d) \<Longrightarrow> non_negative d"
  by (cases d) (auto simp: to_decimal_def non_negative_def float_le_def
      split: pyval.splits option.splits if_splits)

lemma price_or_zero_non_negative:
  "(\<And>d. p = Some d \<Longrightarrow> non_negative d) \<Longrightarrow> non_negative (price_or_zero p)"
  by (cases p; cases "the p")
    (auto simp: price_or_zero_def per_1m_def non_negative_def float_le_def)

definition entry_ok :: "feed_price \<Rightarrow> bool" where
  "entry_ok m \<longleftrightarrow> f_provider m \<noteq> [] \<and> f_model_id m \<noteq> []
     \<and> non_negative (f_input_price m) \<and> non_negative (f_output_price m)"

lemma map_entry_ok:
  assumes "map_entry k raw = Inr m"
  shows "entry_ok m"
proof -
  obtain d prov i out where "raw = PDict d" and "dget d ''litellm_provider'' = PStr prov"
    and i: "to_decimal (dget d ''input_cost_per_token'') = Inr i"
    and out: "to_decimal (dget d ''output_cost_per_token'') = Inr out"
    and "strip prov \<noteq> []" "strip k \<noteq> []"
    and "f_input_price m = price_or_zero i" "f_output_price m = price_or_zero out"
    and "f_provider m = strip prov" "f_model_id m = strip k"
    using assms
    by (auto simp: map_entry_def Let_def split: pyval.splits sum.splits if_splits)
  moreover have "non_negative (price_or_zero i)" "non_negative (price_or_zero out)"
    using i out to_decimal_non_negative by (auto intro!: price_or_zero_non_negative)
  ultimately show ?thesis by (simp add: entry_ok_def)
qed

text \<open>
  What a successful parse of the feed guarantees: every entry that is not a
  documentation key is accounted for, either mapped or skipped with a reason; every mapped
  entry has a provider, a model and non-negative prices; and with an allowlist nothing of
  another family is mapped.
\<close>

theorem parse_feed_accounts_for_all:
  assumes "parse_feed fams payload = Inr (ms, ss)"
  shows "length ms + length ss = length (filter (\<lambda>(k, raw). k \<notin> skip_keys) payload)
     \<and> (\<forall>m \<in> set ms. entry_ok m \<and> (fams = None \<or> f_provider m \<in> the fams))"
  using assms
proof (induction fams payload arbitrary: ms ss rule: parse_feed.induct)
  case (1 fams)
  then show ?case by simp
next
  case (2 fams k raw rest)
  show ?case
  proof (cases "k \<in> skip_keys")
    case True
    with 2 show ?thesis by simp
  next
    case False
    then obtain ms' ss' where rest: "parse_feed fams rest = Inr (ms', ss')"
      using "2.prems" by (auto simp: Let_def split: sum.splits entry_error.splits if_splits)
    have IH: "length ms' + length ss' = length (filter (\<lambda>(k, raw). k \<notin> skip_keys) rest)
       \<and> (\<forall>m \<in> set ms'. entry_ok m \<and> (fams = None \<or> f_provider m \<in> the fams))"
      using "2.IH" False rest by blast
    with "2.prems" False rest show ?thesis
      by (auto simp: Let_def split: sum.splits entry_error.splits if_splits dest: map_entry_ok)
  qed
qed

lemma parse_feed_accounts_for_all_witness:
  "\<exists>ms ss. parse_feed None [(''sample_spec'', PNone), (''gpt'', PNone)] = Inr (ms, ss)
     \<and> length ms + length ss = 1"
proof -
  have "parse_feed None [(''sample_spec'', PNone), (''gpt'', PNone)]
      = Inr ([], [\<lparr>skipped_key = ''gpt'', skip_reason = ''entry is not an object''\<rparr>])"
    by (simp add: skip_keys_def map_entry_def)
  with parse_feed_accounts_for_all [OF this] show ?thesis
    by (simp add: skip_keys_def)
qed

text \<open>
  A malformed entry can abort the whole parse: a feed of one entry whose input cost is
  a NaN raises InvalidOperation, and one whose token limit is infinite raises
  OverflowError; neither is a ValueError, so neither is captured as a skipped entry.
\<close>

theorem parse_feed_nan_aborts:
  "parse_feed fams [(''m'', PDict [(''litellm_provider'', PStr ''openai''),
       (''input_cost_per_token'', PFloat ''nan'' NotANumber)])] = Inl InvalidOperation
   \<and> parse_feed fams [(''m'', PDict [(''litellm_provider'', PStr ''openai''),
       (''input_cost_per_token'', PInt 1), (''max_tokens'', PFloat ''inf'' PosInf)])]
       = Inl OverflowError"
proof -
  have "map_entry ''m'' (PDict [(''litellm_provider'', PStr ''openai''),
       (''input_cost_per_token'', PFloat ''nan'' NotANumber)]) = Inl InvalidOperation"
    by code_simp
  moreover have "map_entry ''m'' (PDict [(''litellm_provider'', PStr ''openai''),
       (''input_cost_per_token'', PInt 1), (''max_tokens'', PFloat ''inf'' PosInf)])
       = Inl OverflowError"
    by code_simp
  ultimately show ?thesis by (simp only: parse_feed.simps) (simp add: skip_keys_def)
qed

end
