(* ===== verification/PriceCatalog.thy ===== *)
theory PriceCatalog
  imports PyValue "HOL-Library.List_Lexorder" "HOL-Library.Char_ord" "HOL-Library.Product_Lexorder"
begin

text \<open>
  The catalog of model prices: its effective-dated rows
  (\<^verbatim>\<open>apps/api-server/src/api_server/db/model_prices.py\<close>), the synchronisation that
  writes it (\<^verbatim>\<open>pricing/litellm_sync/\<close>: \<^verbatim>\<open>diff.py\<close>, \<^verbatim>\<open>apply.py\<close>,
  \<^verbatim>\<open>retire.py\<close>) and the price snapshot a model call freezes
  (\<^verbatim>\<open>db/price_snapshot.py\<close>). The table is a list of rows in insertion order; the
  id of a row is its position at insertion, since no operation deletes a row. A
  \<^verbatim>\<open>Decimal\<close> is the rational it denotes: sums and products of catalog prices with token
  counts stay below the 28 digits of the decimal context.
\<close>

section \<open>Rows\<close>

type_synonym instant = nat

record model_price =
  mp_id :: nat
  mp_provider :: string
  mp_model_id :: string
  mp_modality :: string
  mp_input_price :: rat
  mp_output_price :: rat
  mp_cached_input_price :: "rat option"
  mp_unit :: string
  mp_context_window :: "int option"
  mp_source :: string
  effective_from :: instant
  effective_to :: "instant option"
  updated_by :: "nat option"

type_synonym catalog = "model_price list"
type_synonym price_key = "string \<times> string \<times> string"

definition price_key :: "model_price \<Rightarrow> price_key" where
  "price_key p = (mp_provider p, mp_model_id p, mp_modality p)"

definition is_current :: "model_price \<Rightarrow> bool" where
  "is_current p \<longleftrightarrow> effective_to p = None"

definition is_manual :: "model_price \<Rightarrow> bool" where
  "is_manual p \<longleftrightarrow> mp_source p = ''manual''"

definition cached_input_price_or_default :: "model_price \<Rightarrow> rat" where
  "cached_input_price_or_default p =
     (case mp_cached_input_price p of Some c \<Rightarrow> c | None \<Rightarrow> mp_input_price p * (1/10))"

record mapped_price =
  cand_provider :: string
  cand_model_id :: string
  cand_modality :: string
  cand_input_price :: rat
  cand_output_price :: rat
  cand_cached_input_price :: "rat option"
  cand_context_window :: "int option"

definition cand_key :: "mapped_price \<Rightarrow> price_key" where
  "cand_key c = (cand_provider c, cand_model_id c, cand_modality c)"

section \<open>What changed\<close>

record large_increase =
  li_key :: price_key
  li_field :: string
  li_old :: rat
  li_new :: rat

datatype sync_error =
    MultipleResultsFound price_key
  | LargeIncreaseNotConfirmedError "large_increase list"

definition prices_equal :: "model_price \<Rightarrow> mapped_price \<Rightarrow> bool" where
  "prices_equal cur c \<longleftrightarrow>
     mp_input_price cur = cand_input_price c \<and> mp_output_price cur = cand_output_price c
     \<and> mp_cached_input_price cur = cand_cached_input_price c
     \<and> mp_context_window cur = cand_context_window c"

definition large_increase_threshold :: rat where
  "large_increase_threshold = 1/10"

text \<open>The loop over the two price fields: the first one that rises too much.\<close>

fun first_increase :: "price_key \<Rightarrow> (string \<times> rat \<times> rat) list \<Rightarrow> large_increase option" where
  "first_increase k [] = None"
| "first_increase k ((f, old, new) # rest) =
     (if new \<le> old then first_increase k rest
      else if old = 0 \<or> (new - old) / old > large_increase_threshold
      then Some \<lparr>li_key = k, li_field = f, li_old = old, li_new = new\<rparr>
      else first_increase k rest)"

definition large_increase_of :: "model_price \<Rightarrow> mapped_price \<Rightarrow> large_increase option" where
  "large_increase_of cur c =
     first_increase (price_key cur)
       [(''input_price'', mp_input_price cur, cand_input_price c),
        (''output_price'', mp_output_price cur, cand_output_price c)]"

section \<open>Reading the catalog\<close>

definition open_rows_for :: "catalog \<Rightarrow> price_key \<Rightarrow> model_price list" where
  "open_rows_for cat k = filter (\<lambda>p. price_key p = k \<and> is_current p) cat"

definition scalar_one_or_none ::
  "price_key \<Rightarrow> model_price list \<Rightarrow> (sync_error, model_price option) result" where
  "scalar_one_or_none k rows =
     (case rows of [] \<Rightarrow> Inr None | [p] \<Rightarrow> Inr (Some p) | _ \<Rightarrow> Inl (MultipleResultsFound k))"

definition lookup_current_price ::
  "catalog \<Rightarrow> price_key \<Rightarrow> (sync_error, model_price option) result" where
  "lookup_current_price cat k = scalar_one_or_none k (open_rows_for cat k)"

definition current_price ::
  "catalog \<Rightarrow> mapped_price \<Rightarrow> (sync_error, model_price option) result" where
  "current_price cat c = scalar_one_or_none (cand_key c) (open_rows_for cat (cand_key c))"

section \<open>Writing the catalog\<close>

record sync_summary =
  created :: nat
  updated :: nat
  unchanged :: nat
  large_increases :: "large_increase list"
  discontinued_models :: "price_key list"

definition empty_summary :: sync_summary where
  "empty_summary = \<lparr>created = 0, updated = 0, unchanged = 0, large_increases = [],
     discontinued_models = []\<rparr>"

definition new_row :: "instant \<Rightarrow> nat option \<Rightarrow> nat \<Rightarrow> mapped_price \<Rightarrow> model_price" where
  "new_row now actor i c =
     \<lparr>mp_id = i, mp_provider = cand_provider c, mp_model_id = cand_model_id c,
      mp_modality = cand_modality c, mp_input_price = cand_input_price c,
      mp_output_price = cand_output_price c, mp_cached_input_price = cand_cached_input_price c,
      mp_unit = ''per_1m_tokens'', mp_context_window = cand_context_window c,
      mp_source = ''litellm'', effective_from = now, effective_to = None, updated_by = actor\<rparr>"

definition close_row :: "instant \<Rightarrow> nat option \<Rightarrow> model_price \<Rightarrow> model_price" where
  "close_row now actor p = p\<lparr>effective_to := Some now, updated_by := actor\<rparr>"

definition insert_row :: "instant \<Rightarrow> nat option \<Rightarrow> mapped_price \<Rightarrow> catalog \<Rightarrow> catalog" where
  "insert_row now actor c cat = cat @ [new_row now actor (length cat) c]"

definition close_where ::
  "instant \<Rightarrow> nat option \<Rightarrow> (model_price \<Rightarrow> bool) \<Rightarrow> catalog \<Rightarrow> catalog" where
  "close_where now actor P cat = map (\<lambda>p. if P p then close_row now actor p else p) cat"

fun sync_entries ::
  "instant \<Rightarrow> nat option \<Rightarrow> bool \<Rightarrow> bool \<Rightarrow> mapped_price list \<Rightarrow> catalog \<Rightarrow> sync_summary
     \<Rightarrow> (sync_error, catalog \<times> sync_summary) result" where
  "sync_entries now actor confirm ow [] cat s = Inr (cat, s)"
| "sync_entries now actor confirm ow (c # cs) cat s =
     (case current_price cat c of
        Inl e \<Rightarrow> Inl e
      | Inr None \<Rightarrow>
          sync_entries now actor confirm ow cs (insert_row now actor c cat)
            (s\<lparr>created := created s + 1\<rparr>)
      | Inr (Some cur) \<Rightarrow>
          if prices_equal cur c \<or> is_manual cur \<and> \<not> ow
          then sync_entries now actor confirm ow cs cat (s\<lparr>unchanged := unchanged s + 1\<rparr>)
          else case (if confirm then None else large_increase_of cur c) of
            Some big \<Rightarrow>
              sync_entries now actor confirm ow cs cat
                (s\<lparr>large_increases := large_increases s @ [big]\<rparr>)
          | None \<Rightarrow>
              sync_entries now actor confirm ow cs
                (insert_row now actor c (close_where now actor (\<lambda>p. p = cur) cat))
                (s\<lparr>updated := updated s + 1\<rparr>))"

text \<open>\<open>retire\<close> closes the open rows a predicate selects, manual rows apart.\<close>

definition retired :: "bool \<Rightarrow> (model_price \<Rightarrow> bool) \<Rightarrow> model_price \<Rightarrow> bool" where
  "retired ow keep p \<longleftrightarrow> is_current p \<and> \<not> keep p \<and> (is_manual p \<longrightarrow> ow)"

definition retire ::
  "instant \<Rightarrow> nat option \<Rightarrow> bool \<Rightarrow> (model_price \<Rightarrow> bool) \<Rightarrow> catalog \<Rightarrow> catalog \<times> price_key list" where
  "retire now actor ow keep cat =
     (close_where now actor (retired ow keep) cat,
      sort (map price_key (filter (retired ow keep) cat)))"

definition discontinue_dropped_models ::
  "instant \<Rightarrow> nat option \<Rightarrow> bool \<Rightarrow> mapped_price list \<Rightarrow> catalog \<Rightarrow> catalog \<times> price_key list" where
  "discontinue_dropped_models now actor ow cs =
     retire now actor ow (\<lambda>p. price_key p \<in> cand_key ` set cs)"

definition close_out_of_scope_families ::
  "instant \<Rightarrow> nat option \<Rightarrow> bool \<Rightarrow> string set \<Rightarrow> catalog \<Rightarrow> catalog \<times> price_key list" where
  "close_out_of_scope_families now actor ow fams =
     retire now actor ow (\<lambda>p. mp_provider p \<in> fams)"

text \<open>The sync that defers a large increase and applies the rest.\<close>

definition sync_prices ::
  "instant \<Rightarrow> nat option \<Rightarrow> bool \<Rightarrow> bool \<Rightarrow> string set option \<Rightarrow> mapped_price list \<Rightarrow> catalog
     \<Rightarrow> (sync_error, catalog \<times> sync_summary) result" where
  "sync_prices now actor confirm ow fams cs cat =
     (case sync_entries now actor confirm ow cs cat empty_summary of
        Inl e \<Rightarrow> Inl e
      | Inr (cat1, s) \<Rightarrow>
          (case fams of
             None \<Rightarrow> Inr (cat1, s)
           | Some fs \<Rightarrow>
               let (cat2, closed) = close_out_of_scope_families now actor ow fs cat1
               in Inr (cat2, s\<lparr>discontinued_models := closed\<rparr>)))"

fun pending_large_increases ::
  "catalog \<Rightarrow> mapped_price list \<Rightarrow> (sync_error, large_increase list) result" where
  "pending_large_increases cat [] = Inr []"
| "pending_large_increases cat (c # cs) =
     (case current_price cat c of
        Inl e \<Rightarrow> Inl e
      | Inr cur \<Rightarrow>
          (case pending_large_increases cat cs of
             Inl e \<Rightarrow> Inl e
           | Inr rest \<Rightarrow>
               Inr ((case cur of
                       None \<Rightarrow> []
                     | Some p \<Rightarrow> (case large_increase_of p c of None \<Rightarrow> [] | Some b \<Rightarrow> [b])) @ rest)))"

text \<open>The confirmed write never defers, so it is the loop above with the flag set.\<close>

definition write_feed ::
  "instant \<Rightarrow> nat option \<Rightarrow> bool \<Rightarrow> bool \<Rightarrow> string set option \<Rightarrow> mapped_price list \<Rightarrow> catalog
     \<Rightarrow> (sync_error, catalog \<times> sync_summary) result" where
  "write_feed now actor ow missing fams cs cat =
     (case sync_entries now actor True ow cs cat empty_summary of
        Inl e \<Rightarrow> Inl e
      | Inr (cat1, s) \<Rightarrow>
          let (cat2, d1) = (case fams of None \<Rightarrow> (cat1, [])
                            | Some fs \<Rightarrow> close_out_of_scope_families now actor ow fs cat1);
              (cat3, d2) = (if missing then discontinue_dropped_models now actor ow cs cat2
                            else (cat2, []))
          in Inr (cat3, (if fams \<noteq> None \<or> missing
                         then s\<lparr>discontinued_models := sort (remdups (d1 @ d2))\<rparr> else s)))"

definition apply_sync ::
  "instant \<Rightarrow> nat option \<Rightarrow> bool \<Rightarrow> bool \<Rightarrow> bool \<Rightarrow> string set option \<Rightarrow> mapped_price list \<Rightarrow> catalog
     \<Rightarrow> (sync_error, catalog \<times> sync_summary) result" where
  "apply_sync now actor confirm ow missing fams cs cat =
     (if confirm then write_feed now actor ow missing fams cs cat
      else case pending_large_increases cat cs of
        Inl e \<Rightarrow> Inl e
      | Inr [] \<Rightarrow> write_feed now actor ow missing fams cs cat
      | Inr (b # bs) \<Rightarrow> Inl (LargeIncreaseNotConfirmedError (b # bs)))"

section \<open>Invariants\<close>

definition one_open :: "catalog \<Rightarrow> bool" where
  "one_open cat \<longleftrightarrow> distinct (map price_key (filter is_current cat))"

text \<open>
  What a write may do to a row: nothing, or close it, and that only if it is open and,
  when it was entered by hand, only if the caller asked for it.
\<close>

definition row_kept :: "instant \<Rightarrow> nat option \<Rightarrow> bool \<Rightarrow> catalog \<Rightarrow> model_price \<Rightarrow> bool" where
  "row_kept now actor ow cat p \<longleftrightarrow>
     p \<in> set cat
     \<or> is_current p \<and> (is_manual p \<longrightarrow> ow) \<and> close_row now actor p \<in> set cat"

definition history_kept :: "instant \<Rightarrow> nat option \<Rightarrow> bool \<Rightarrow> catalog \<Rightarrow> catalog \<Rightarrow> bool" where
  "history_kept now actor ow cat cat' \<longleftrightarrow> (\<forall>p \<in> set cat. row_kept now actor ow cat' p)"

text \<open>Where the open rows of a written catalog come from.\<close>

definition from_feed :: "mapped_price list \<Rightarrow> model_price \<Rightarrow> bool" where
  "from_feed cs p \<longleftrightarrow>
     (\<exists>c \<in> set cs. price_key p = cand_key c \<and> mp_input_price p = cand_input_price c
        \<and> mp_output_price p = cand_output_price c)"

definition opened_by :: "mapped_price list \<Rightarrow> catalog \<Rightarrow> catalog \<Rightarrow> bool" where
  "opened_by cs cat cat' \<longleftrightarrow>
     (\<forall>p \<in> set cat'. is_current p \<longrightarrow> p \<in> set cat \<or> from_feed cs p)"

lemma close_row_simps [simp]:
  "\<not> is_current (close_row now actor p)"
  "price_key (close_row now actor p) = price_key p"
  "is_manual (close_row now actor p) = is_manual p"
  by (simp_all add: close_row_def is_current_def price_key_def is_manual_def)

lemma new_row_simps [simp]:
  "is_current (new_row now actor i c)"
  "price_key (new_row now actor i c) = cand_key c"
  by (simp_all add: new_row_def is_current_def price_key_def cand_key_def)

lemma filter_close_where:
  "filter is_current (close_where now actor P cat) = filter (\<lambda>p. is_current p \<and> \<not> P p) cat"
  by (induction cat) (simp_all add: close_where_def)

lemma one_open_close:
  "one_open cat \<Longrightarrow> one_open (close_where now actor P cat)"
proof -
  assume "one_open cat"
  then have "distinct (map price_key (filter (\<lambda>p. \<not> P p) (filter is_current cat)))"
    unfolding one_open_def by (rule distinct_map_filter)
  then show ?thesis
    by (simp add: one_open_def filter_close_where conj_commute)
qed

lemma one_open_insert:
  "one_open cat \<Longrightarrow> open_rows_for cat (cand_key c) = [] \<Longrightarrow> one_open (insert_row now actor c cat)"
  by (auto simp: one_open_def insert_row_def open_rows_for_def filter_empty_conv)

lemma open_rows_le_1:
  assumes "one_open cat" and "p \<in> set cat" and "is_current p"
  shows "open_rows_for cat (price_key p) = [p]"
  using assms
proof (induction cat)
  case (Cons r cat)
  have "filter (\<lambda>q. price_key q = price_key r \<and> is_current q) cat = []" if "is_current r"
  proof -
    have "price_key r \<notin> price_key ` {q \<in> set cat. is_current q}"
      using Cons.prems(1) that by (simp add: one_open_def)
    then show ?thesis
      unfolding filter_empty_conv by (metis (mono_tags, lifting) imageI mem_Collect_eq)
  qed
  with Cons show ?case
    by (cases "r = p") (auto simp: one_open_def open_rows_for_def split: if_splits)
qed (simp add: open_rows_for_def)

lemma current_price_cases:
  assumes "one_open cat"
  obtains "current_price cat c = Inr None" and "open_rows_for cat (cand_key c) = []"
  | cur where "current_price cat c = Inr (Some cur)" and "cur \<in> set cat" and "is_current cur"
      and "price_key cur = cand_key c"
proof (cases "open_rows_for cat (cand_key c)")
  case Nil
  then show ?thesis using that(1) by (simp add: current_price_def scalar_one_or_none_def)
next
  case (Cons p rest)
  then have "p \<in> set (open_rows_for cat (cand_key c))" by simp
  then have p: "p \<in> set cat" "is_current p" "price_key p = cand_key c"
    by (simp_all add: open_rows_for_def)
  with open_rows_le_1 [OF assms p(1,2)] show ?thesis
    using that(2) [of p] by (simp add: current_price_def scalar_one_or_none_def)
qed

lemma one_open_reopen:
  assumes "one_open cat" and "cur \<in> set cat" and "is_current cur" and "price_key cur = cand_key c"
  shows "one_open (insert_row now actor c (close_where now actor (\<lambda>p. p = cur) cat))"
proof (rule one_open_insert [OF one_open_close [OF assms(1)]])
  have "open_rows_for (close_where now actor (\<lambda>p. p = cur) cat) k
      = filter (\<lambda>p. p \<noteq> cur) (open_rows_for cat k)" for k
    by (induction cat) (auto simp: open_rows_for_def close_where_def)
  then show "open_rows_for (close_where now actor (\<lambda>p. p = cur) cat) (cand_key c) = []"
    using open_rows_le_1 [OF assms(1-3)] assms(4) by simp
qed

lemma row_kept_trans:
  "row_kept now actor ow cat p \<Longrightarrow> history_kept now actor ow cat cat' \<Longrightarrow> row_kept now actor ow cat' p"
  by (auto simp: row_kept_def history_kept_def)

lemma history_kept_trans:
  "history_kept now actor ow a b \<Longrightarrow> history_kept now actor ow b c \<Longrightarrow> history_kept now actor ow a c"
  using row_kept_trans by (auto simp: history_kept_def)

lemma history_kept_close:
  "(\<And>p. P p \<Longrightarrow> p \<in> set cat \<Longrightarrow> is_current p \<and> (is_manual p \<longrightarrow> ow)) \<Longrightarrow>
     history_kept now actor ow cat (close_where now actor P cat)"
  by (auto simp: history_kept_def row_kept_def close_where_def)

lemma history_kept_insert: "history_kept now actor ow cat (insert_row now actor c cat)"
  by (simp add: history_kept_def row_kept_def insert_row_def)

lemma opened_by_close: "opened_by cs cat (close_where now actor P cat)"
  by (auto simp: opened_by_def close_where_def)

lemma opened_by_trans:
  "opened_by cs a b \<Longrightarrow> opened_by cs b c \<Longrightarrow> opened_by cs a c"
  by (auto simp: opened_by_def)

lemma opened_by_insert: "c \<in> set cs \<Longrightarrow> opened_by cs cat (insert_row now actor c cat)"
  by (auto simp: opened_by_def insert_row_def from_feed_def)
     (auto simp: new_row_def intro!: bexI [of _ c])

text \<open>What every write of the catalog guarantees, as one predicate.\<close>

definition safe_write ::
  "instant \<Rightarrow> nat option \<Rightarrow> bool \<Rightarrow> mapped_price list \<Rightarrow> catalog \<Rightarrow> catalog \<Rightarrow> bool" where
  "safe_write now actor ow cs cat cat' \<longleftrightarrow>
     one_open cat' \<and> history_kept now actor ow cat cat' \<and> opened_by cs cat cat'"

lemma safe_write_refl: "one_open cat \<Longrightarrow> safe_write now actor ow cs cat cat"
  by (simp add: safe_write_def history_kept_def row_kept_def opened_by_def)

lemma safe_write_trans:
  "safe_write now actor ow cs a b \<Longrightarrow> safe_write now actor ow cs b c \<Longrightarrow> safe_write now actor ow cs a c"
  unfolding safe_write_def using history_kept_trans opened_by_trans by blast

lemma safe_write_retire:
  assumes "one_open cat"
  shows "safe_write now actor ow cs cat (fst (retire now actor ow keep cat))"
  unfolding safe_write_def retire_def fst_conv
  by (intro conjI one_open_close history_kept_close opened_by_close assms) (auto simp: retired_def)

lemma safe_write_replace:
  assumes "one_open cat" and "cur \<in> set cat" and "is_current cur" and "price_key cur = cand_key c"
    and "is_manual cur \<longrightarrow> ow" and "c \<in> set cs"
  shows "safe_write now actor ow cs cat
      (insert_row now actor c (close_where now actor (\<lambda>p. p = cur) cat))"
  unfolding safe_write_def
proof (intro conjI)
  show "one_open (insert_row now actor c (close_where now actor (\<lambda>p. p = cur) cat))"
    by (rule one_open_reopen [OF assms(1-4)])
  show "history_kept now actor ow cat
      (insert_row now actor c (close_where now actor (\<lambda>p. p = cur) cat))"
    using assms by (intro history_kept_trans [OF history_kept_close history_kept_insert]) auto
  show "opened_by cs cat (insert_row now actor c (close_where now actor (\<lambda>p. p = cur) cat))"
    by (rule opened_by_trans [OF opened_by_close opened_by_insert [OF assms(6)]])
qed

lemma sync_entries_safe:
  assumes "one_open cat" and "set cs \<subseteq> set all"
  shows "\<exists>cat' s'. sync_entries now actor confirm ow cs cat s = Inr (cat', s')
     \<and> safe_write now actor ow all cat cat'"
  using assms
proof (induction cs arbitrary: cat s)
  case Nil
  then show ?case by (simp add: safe_write_refl)
next
  case (Cons c cs)
  have step: ?case
    if "sync_entries now actor confirm ow (c # cs) cat s = sync_entries now actor confirm ow cs cat1 s1"
      and "safe_write now actor ow all cat cat1" for cat1 s1
  proof -
    have "one_open cat1" using that(2) by (simp add: safe_write_def)
    then obtain cat' s' where "sync_entries now actor confirm ow cs cat1 s1 = Inr (cat', s')"
      and "safe_write now actor ow all cat1 cat'"
      using Cons.IH [of cat1 s1] Cons.prems by auto
    with that safe_write_trans show ?thesis by metis
  qed
  have c: "c \<in> set all" using Cons.prems by simp
  from Cons.prems(1) show ?case
  proof (cases rule: current_price_cases [of cat c])
    case 1
    have "safe_write now actor ow all cat (insert_row now actor c cat)"
      unfolding safe_write_def
      using Cons.prems(1) 1(2) c
      by (intro conjI one_open_insert history_kept_insert opened_by_insert)
    then show ?thesis using 1 by (intro step) auto
  next
    case (2 cur)
    consider "prices_equal cur c \<or> is_manual cur \<and> \<not> ow"
      | b where "\<not> (prices_equal cur c \<or> is_manual cur \<and> \<not> ow)"
          and "(if confirm then None else large_increase_of cur c) = Some b"
      | "\<not> (prices_equal cur c \<or> is_manual cur \<and> \<not> ow)"
          and "(if confirm then None else large_increase_of cur c) = None"
      by (cases "if confirm then None else large_increase_of cur c") auto
    then show ?thesis
    proof cases
      case 1
      with 2 safe_write_refl [OF Cons.prems(1)] show ?thesis by (intro step [of cat]) auto
    next
      case (2 b)
      with \<open>current_price cat c = Inr (Some cur)\<close> safe_write_refl [OF Cons.prems(1)]
      show ?thesis by (intro step [of cat]) auto
    next
      case 3
      have "safe_write now actor ow all cat
          (insert_row now actor c (close_where now actor (\<lambda>p. p = cur) cat))"
        using 2 3 c Cons.prems(1) by (intro safe_write_replace) auto
      with 2 3 show ?thesis by (intro step) auto
    qed
  qed
qed


lemma retire_safe:
  "one_open cat \<Longrightarrow> safe_write now actor ow cs cat (fst (close_out_of_scope_families now actor ow fs cat))"
  "one_open cat \<Longrightarrow> safe_write now actor ow cs cat (fst (discontinue_dropped_models now actor ow ds cat))"
  by (simp_all add: close_out_of_scope_families_def discontinue_dropped_models_def safe_write_retire)

lemma safe_write_open: "safe_write now actor ow cs cat cat' \<Longrightarrow> one_open cat'"
  by (simp add: safe_write_def)

lemma sync_prices_safe:
  assumes "one_open cat"
  shows "\<exists>cat' s. sync_prices now actor confirm ow fams cs cat = Inr (cat', s)
     \<and> safe_write now actor ow cs cat cat'"
proof -
  obtain cat1 s where e: "sync_entries now actor confirm ow cs cat empty_summary = Inr (cat1, s)"
    and w: "safe_write now actor ow cs cat cat1"
    using sync_entries_safe [OF assms order_refl] by metis
  show ?thesis
  proof (cases fams)
    case None
    with e w show ?thesis by (simp add: sync_prices_def)
  next
    case (Some fs)
    with e safe_write_trans [OF w retire_safe(1) [OF safe_write_open [OF w]]] show ?thesis
      by (simp add: sync_prices_def case_prod_beta)
  qed
qed

lemma write_feed_safe:
  assumes "one_open cat"
  shows "\<exists>cat' s. write_feed now actor ow missing fams cs cat = Inr (cat', s)
     \<and> safe_write now actor ow cs cat cat'"
proof -
  obtain cat1 s where e: "sync_entries now actor True ow cs cat empty_summary = Inr (cat1, s)"
    and w1: "safe_write now actor ow cs cat cat1"
    using sync_entries_safe [OF assms order_refl] by metis
  define cat2 where "cat2 = fst (case fams of None \<Rightarrow> (cat1, [])
                            | Some fs \<Rightarrow> close_out_of_scope_families now actor ow fs cat1)"
  have w2: "safe_write now actor ow cs cat cat2"
    using safe_write_trans [OF w1 retire_safe(1) [OF safe_write_open [OF w1]]] w1
    by (cases fams) (simp_all add: cat2_def)
  have w3: "safe_write now actor ow cs cat
      (fst (if missing then discontinue_dropped_models now actor ow cs cat2 else (cat2, [])))"
    using safe_write_trans [OF w2 retire_safe(2) [OF safe_write_open [OF w2]]] w2 by simp
  with e show ?thesis
    by (cases fams; cases missing) (simp_all add: write_feed_def cat2_def case_prod_beta Let_def)
qed

lemma pending_ok:
  assumes "one_open cat" and "c \<in> set cs" and "pending_large_increases cat cs = Inr []"
    and "p \<in> set cat" and "is_current p" and "price_key p = cand_key c"
  shows "large_increase_of p c = None"
  using assms(2,3)
proof (induction cs)
  case (Cons d cs)
  show ?case
  proof (cases "c = d")
    case True
    have "current_price cat c = Inr (Some p)"
      using open_rows_le_1 [OF assms(1,4,5)] assms(6)
      by (simp add: current_price_def scalar_one_or_none_def)
    with Cons.prems(2) True show ?thesis
      by (auto split: sum.splits option.splits)
  next
    case False
    with Cons show ?thesis by (auto split: sum.splits option.splits)
  qed
qed simp

lemma pending_no_lookup_error:
  assumes "one_open cat"
  shows "\<exists>bs. pending_large_increases cat cs = Inr bs"
proof (induction cs)
  case (Cons c cs)
  then show ?case by (cases rule: current_price_cases [OF assms, of c]) auto
qed simp

lemma no_large_increase_bound:
  assumes "large_increase_of p c = None" and "0 \<le> mp_input_price p" and "0 \<le> mp_output_price p"
  shows "cand_input_price c \<le> 11/10 * mp_input_price p
     \<and> cand_output_price c \<le> 11/10 * mp_output_price p"
proof -
  have bound: "new \<le> 11/10 * old"
    if "new \<le> old \<or> \<not> (old = 0 \<or> (new - old) / old > 1/10)" and "0 \<le> old" for old new :: rat
    using that by (auto simp: divide_le_eq less_le not_less)
  show ?thesis
    using assms
    by (auto simp: large_increase_of_def large_increase_threshold_def intro!: bound
        split: if_splits)
qed

section \<open>The catalog under any sequence of synchronisations\<close>

datatype catalog_call =
    Sync instant "nat option" bool bool "string set option" "mapped_price list"
  | Apply instant "nat option" bool bool bool "string set option" "mapped_price list"

fun do_catalog_call :: "catalog_call \<Rightarrow> catalog \<Rightarrow> (sync_error, catalog) result" where
  "do_catalog_call (Sync now actor confirm ow fams cs) cat =
     (case sync_prices now actor confirm ow fams cs cat of Inl e \<Rightarrow> Inl e | Inr r \<Rightarrow> Inr (fst r))"
| "do_catalog_call (Apply now actor confirm ow missing fams cs) cat =
     (case apply_sync now actor confirm ow missing fams cs cat of
        Inl e \<Rightarrow> Inl e | Inr r \<Rightarrow> Inr (fst r))"

definition same_price :: "model_price \<Rightarrow> model_price \<Rightarrow> bool" where
  "same_price p q \<longleftrightarrow> q = p \<or> is_current p \<and> (\<exists>now actor. q = close_row now actor p)"

lemma apply_sync_safe:
  assumes "one_open cat" and "apply_sync now actor confirm ow missing fams cs cat = Inr (cat', s)"
  shows "safe_write now actor ow cs cat cat'"
proof -
  have "write_feed now actor ow missing fams cs cat = Inr (cat', s)"
    using assms(2) by (auto simp: apply_sync_def split: if_splits sum.splits list.splits)
  with write_feed_safe [OF assms(1)] show ?thesis by (metis Inr_inject Pair_inject)
qed

lemma do_catalog_call_safe:
  assumes "one_open cat" and "do_catalog_call c cat = Inr cat'"
  shows "one_open cat' \<and> (\<forall>p \<in> set cat. \<exists>q \<in> set cat'. same_price p q)"
proof -
  have "\<exists>now actor ow cs. safe_write now actor ow cs cat cat'"
  proof (cases c)
    case (Sync now actor confirm ow fams cs)
    obtain cat1 s where "sync_prices now actor confirm ow fams cs cat = Inr (cat1, s)"
      and "safe_write now actor ow cs cat cat1"
      using sync_prices_safe [OF assms(1)] by metis
    with Sync assms(2) show ?thesis by auto
  next
    case (Apply now actor confirm ow missing fams cs)
    then obtain s where "apply_sync now actor confirm ow missing fams cs cat = Inr (cat', s)"
      using assms(2) by (auto split: sum.splits)
    with apply_sync_safe [OF assms(1)] show ?thesis by blast
  qed
  then show ?thesis
    by (auto simp: safe_write_def history_kept_def row_kept_def same_price_def Ball_def)
qed

lemma same_price_trans: "same_price p q \<Longrightarrow> same_price q r \<Longrightarrow> same_price p r"
  by (auto simp: same_price_def)

text \<open>
  Effective dating is sound: under every sequence of synchronisations, confirmed or
  not, the catalog keeps at most one open row per provider, model and modality, so "the
  current price" is well defined; and no row is ever lost or rewritten, a row that was
  there is still there with the same prices, at most closed, so a price snapshot of an old
  execution keeps pointing at what was charged.
\<close>

theorem catalog_effective_dating:
  assumes "one_open cat"
  shows "one_open (drive do_catalog_call calls cat)
     \<and> (\<forall>p \<in> set cat. \<exists>q \<in> set (drive do_catalog_call calls cat). same_price p q)"
  using assms
proof (induction calls arbitrary: cat)
  case Nil
  then show ?case by (auto simp: same_price_def)
next
  case (Cons c calls)
  have "one_open (settle cat (do_catalog_call c cat))
     \<and> (\<forall>p \<in> set cat. \<exists>q \<in> set (settle cat (do_catalog_call c cat)). same_price p q)"
    using Cons.prems do_catalog_call_safe [of cat c]
    by (cases "do_catalog_call c cat") (auto simp: same_price_def)
  with Cons.IH [of "settle cat (do_catalog_call c cat)"] show ?case
    by simp (meson same_price_trans)
qed

definition demo_candidate :: "rat \<Rightarrow> mapped_price" where
  "demo_candidate r = \<lparr>cand_provider = ''ollama'', cand_model_id = ''m'', cand_modality = ''text'',
     cand_input_price = r, cand_output_price = 0, cand_cached_input_price = None,
     cand_context_window = None\<rparr>"

lemma catalog_effective_dating_witness:
  "one_open (drive do_catalog_call
     [Sync 1 None False False None [demo_candidate 10],
      Apply 2 None False False True (Some {''ollama''}) [demo_candidate 11]] [])"
  using catalog_effective_dating
    [of "[]" "[Sync 1 None False False None [demo_candidate 10],
      Apply 2 None False False True (Some {''ollama''}) [demo_candidate 11]]"]
  by (simp add: one_open_def)

text \<open>
  The confirmation gate holds: an apply that was not confirmed either refuses, naming
  at least one rise, or writes a catalog in which no current input or output price is more
  than ten per cent above the price that was current for the same key before, whatever the
  feed contains; and a row entered by hand is untouched unless overwriting was requested.
\<close>

theorem unconfirmed_apply_bounds_prices:
  assumes "one_open cat" and "\<forall>p \<in> set cat. 0 \<le> mp_input_price p \<and> 0 \<le> mp_output_price p"
  shows "case apply_sync now actor False ow missing fams cs cat of
      Inl e \<Rightarrow> \<exists>b bs. e = LargeIncreaseNotConfirmedError (b # bs)
    | Inr (cat', s) \<Rightarrow>
        (\<forall>p \<in> set cat. \<forall>q \<in> set cat'.
           is_current p \<and> is_current q \<and> price_key p = price_key q \<longrightarrow>
             mp_input_price q \<le> 11/10 * mp_input_price p
             \<and> mp_output_price q \<le> 11/10 * mp_output_price p)
        \<and> (\<forall>p \<in> set cat. is_manual p \<and> \<not> ow \<longrightarrow> p \<in> set cat')"
proof -
  obtain bs where bs: "pending_large_increases cat cs = Inr bs"
    using pending_no_lookup_error [OF assms(1)] by blast
  show ?thesis
  proof (cases bs)
    case (Cons b rest)
    with bs show ?thesis by (simp add: apply_sync_def)
  next
    case Nil
    obtain cat' s where r: "apply_sync now actor False ow missing fams cs cat = Inr (cat', s)"
      and w: "safe_write now actor ow cs cat cat'"
      using write_feed_safe [OF assms(1), of now actor ow missing fams cs] bs Nil
      by (auto simp: apply_sync_def)
    have "mp_input_price q \<le> 11/10 * mp_input_price p
        \<and> mp_output_price q \<le> 11/10 * mp_output_price p"
      if p: "p \<in> set cat" "is_current p" and q: "q \<in> set cat'" "is_current q"
        and k: "price_key p = price_key q" for p q
    proof (cases "q \<in> set cat")
      case True
      then have "q = p"
        using open_rows_le_1 [OF assms(1) p] open_rows_le_1 [OF assms(1) True q(2)] k
        by (metis list.inject)
      with assms(2) p(1) show ?thesis by auto
    next
      case False
      then obtain c where c: "c \<in> set cs" "price_key q = cand_key c"
        "mp_input_price q = cand_input_price c" "mp_output_price q = cand_output_price c"
        using w q by (auto simp: safe_write_def opened_by_def from_feed_def)
      have "large_increase_of p c = None"
        using pending_ok [OF assms(1) c(1) _ p] bs Nil k c(2) by simp
      with no_large_increase_bound [OF this] assms(2) p(1) c(3,4) show ?thesis by simp
    qed
    moreover have "p \<in> set cat'" if "p \<in> set cat" "is_manual p" "\<not> ow" for p
      using w that by (auto simp: safe_write_def history_kept_def row_kept_def)
    ultimately show ?thesis by (auto simp: r)
  qed
qed

definition demo_row :: "rat \<Rightarrow> model_price" where
  "demo_row r = new_row 0 None 0 (demo_candidate r)"

lemma unconfirmed_apply_bounds_prices_witness:
  "\<exists>e. apply_sync 1 None False False False None [demo_candidate 12] [demo_row 10] = Inl e"
proof -
  have hyps: "one_open [demo_row 10]"
    "\<forall>p \<in> set [demo_row 10]. 0 \<le> mp_input_price p \<and> 0 \<le> mp_output_price p"
    by (simp_all add: one_open_def demo_row_def new_row_def demo_candidate_def)
  have "pending_large_increases [demo_row 10] [demo_candidate 12]
      = Inr [\<lparr>li_key = (''ollama'', ''m'', ''text''), li_field = ''input_price'', li_old = 10,
              li_new = 12\<rparr>]"
    by (simp add: demo_row_def new_row_def demo_candidate_def current_price_def
        open_rows_for_def scalar_one_or_none_def price_key_def cand_key_def is_current_def
        large_increase_of_def large_increase_threshold_def)
  then have "apply_sync 1 None False False False None [demo_candidate 12] [demo_row 10]
      = Inl (LargeIncreaseNotConfirmedError [\<lparr>li_key = (''ollama'', ''m'', ''text''),
              li_field = ''input_price'', li_old = 10, li_new = 12\<rparr>])"
    by (simp add: apply_sync_def)
  with unconfirmed_apply_bounds_prices 
      [OF hyps, of False 1 None False None "[demo_candidate 12]"]
  show ?thesis by blast
qed

end
