(* ===== verification/PriceSnapshot.thy ===== *)
theory PriceSnapshot
  imports PriceCatalog PriceFeed
begin

text \<open>
  The price a model call freezes, \<^verbatim>\<open>apps/api-server/src/api_server/db/price_snapshot.py\<close>:
  the resolution of the catalog row for the provider kind and model of the call, and the
  cost computed from its tokens.
\<close>

section \<open>The snapshot\<close>

record price_snapshot =
  available :: bool
  snapshot_at :: instant
  snap_input :: "rat option"
  snap_output :: "rat option"
  snap_cached :: "rat option"
  snap_unit :: "string option"
  cost_usd :: "rat option"
  snap_price_id :: "nat option"
  snap_source :: "string option"
  snap_reason :: "string option"

definition unit_divisor :: "string \<Rightarrow> rat" where
  "unit_divisor u = (if u = ''per_1k_tokens'' then 1000 else 1000000)"

definition per_token :: "rat \<Rightarrow> string \<Rightarrow> rat" where
  "per_token price u = price / unit_divisor u"

text \<open>\<^verbatim>\<open>quantize(Decimal("0.000001"), ROUND_HALF_UP)\<close>: ties move away from zero.\<close>

definition quantize_cost :: "rat \<Rightarrow> rat" where
  "quantize_cost r =
     (if 0 \<le> r then of_int \<lfloor>r * 1000000 + 1/2\<rfloor> else - of_int \<lfloor>- r * 1000000 + 1/2\<rfloor>) / 1000000"

definition exact_cost :: "model_price \<Rightarrow> int \<Rightarrow> int \<Rightarrow> int \<Rightarrow> rat" where
  "exact_cost p tokens_in tokens_out cached_input_tokens =
     (let cached = max 0 cached_input_tokens; full_input = max 0 (tokens_in - cached);
          input_per_token = per_token (mp_input_price p) (mp_unit p);
          output_per_token = per_token (mp_output_price p) (mp_unit p);
          cached_per_token = per_token (cached_input_price_or_default p) (mp_unit p)
      in of_int full_input * input_per_token + of_int cached * cached_per_token
         + of_int (max 0 tokens_out) * output_per_token)"

definition compute_price_snapshot ::
  "instant \<Rightarrow> model_price option \<Rightarrow> int \<Rightarrow> int \<Rightarrow> int \<Rightarrow> price_snapshot" where
  "compute_price_snapshot now price tokens_in tokens_out cached_input_tokens =
     (case price of
        None \<Rightarrow>
          \<lparr>available = False, snapshot_at = now, snap_input = None, snap_output = None,
           snap_cached = None, snap_unit = None, cost_usd = None, snap_price_id = None,
           snap_source = None,
           snap_reason = Some ''no current price in catalog for (provider, model_id, modality)''\<rparr>
      | Some p \<Rightarrow>
          \<lparr>available = True, snapshot_at = now, snap_input = Some (mp_input_price p),
           snap_output = Some (mp_output_price p), snap_cached = mp_cached_input_price p,
           snap_unit = Some (mp_unit p),
           cost_usd = Some (quantize_cost (exact_cost p tokens_in tokens_out cached_input_tokens)),
           snap_price_id = Some (mp_id p), snap_source = Some (mp_source p), snap_reason = None\<rparr>)"

section \<open>Resolving the row of a call\<close>

definition extra_catalog_aliases :: "(string \<times> string list) list" where
  "extra_catalog_aliases = [(''claude'', [''anthropic'']), (''copilot'', [''github_copilot''])]"

definition extra_aliases :: "string \<Rightarrow> string list" where
  "extra_aliases k = (case map_of extra_catalog_aliases k of Some xs \<Rightarrow> xs | None \<Rightarrow> [])"

text \<open>The families of a kind are sorted, and follow the aliases the feed does not know.\<close>

definition catalog_provider_aliases :: "string \<Rightarrow> string list" where
  "catalog_provider_aliases kind =
     (if kind \<in> fst ` set kind_to_litellm_families
      then extra_aliases kind
           @ filter (\<lambda>f. f \<notin> set (extra_aliases kind)) (sort (families_of_kind kind))
      else extra_aliases kind)"

definition call_candidates :: "string \<Rightarrow> string \<Rightarrow> (string \<times> string) list" where
  "call_candidates provider model_id =
     (let kind = strip provider
      in if kind = [] then []
         else (kind, model_id)
              # concat (map (\<lambda>a. [(a, model_id), (a, a @ ''/'' @ model_id)])
                          (catalog_provider_aliases kind)))"

fun first_price ::
  "catalog \<Rightarrow> string \<Rightarrow> (string \<times> string) list \<Rightarrow> (sync_error, model_price option) result" where
  "first_price cat modality [] = Inr None"
| "first_price cat modality ((prov, mid) # rest) =
     (case lookup_current_price cat (prov, mid, modality) of
        Inl e \<Rightarrow> Inl e
      | Inr (Some p) \<Rightarrow> Inr (Some p)
      | Inr None \<Rightarrow> first_price cat modality rest)"

definition lookup_current_price_for_call ::
  "catalog \<Rightarrow> string \<Rightarrow> string \<Rightarrow> string \<Rightarrow> (sync_error, model_price option) result" where
  "lookup_current_price_for_call cat provider model_id modality =
     (case first_price cat modality (call_candidates provider model_id) of
        Inl e \<Rightarrow> Inl e
      | Inr (Some p) \<Rightarrow> Inr (Some p)
      | Inr None \<Rightarrow>
          let rows = filter (\<lambda>p. mp_model_id p = model_id \<and> mp_modality p = modality \<and> is_current p) cat
          in Inr (case rows of [p] \<Rightarrow> Some p | _ \<Rightarrow> None))"

definition snapshot_model_call ::
  "instant \<Rightarrow> catalog \<Rightarrow> string \<Rightarrow> string \<Rightarrow> string \<Rightarrow> int \<Rightarrow> int \<Rightarrow> int
     \<Rightarrow> (sync_error, price_snapshot) result" where
  "snapshot_model_call now cat provider model_id modality tokens_in tokens_out cached =
     (case lookup_current_price_for_call cat provider model_id modality of
        Inl e \<Rightarrow> Inl e
      | Inr p \<Rightarrow> Inr (compute_price_snapshot now p tokens_in tokens_out cached))"

section \<open>Properties\<close>

lemma unit_divisor_pos [simp]: "0 < unit_divisor u" "0 \<le> unit_divisor u"
  by (simp_all add: unit_divisor_def)

lemma per_token_mono: "a \<le> b \<Longrightarrow> per_token a u \<le> per_token b u"
  by (simp add: per_token_def divide_right_mono)

lemma per_token_nonneg: "0 \<le> a \<Longrightarrow> 0 \<le> per_token a u"
  by (simp add: per_token_def)

lemma quantize_cost_mono: "0 \<le> a \<Longrightarrow> a \<le> b \<Longrightarrow> quantize_cost a \<le> quantize_cost b"
  by (simp add: quantize_cost_def divide_right_mono floor_mono)

lemma quantize_cost_nonneg: "0 \<le> a \<Longrightarrow> 0 \<le> quantize_cost a"
  by (simp add: quantize_cost_def)

definition prices_ok :: "model_price \<Rightarrow> bool" where
  "prices_ok p \<longleftrightarrow> 0 \<le> mp_input_price p \<and> 0 \<le> mp_output_price p
     \<and> (case mp_cached_input_price p of None \<Rightarrow> True
         | Some c \<Rightarrow> 0 \<le> c \<and> c \<le> mp_input_price p)"

lemma cached_price_bounds:
  "prices_ok p \<Longrightarrow> 0 \<le> cached_input_price_or_default p
     \<and> cached_input_price_or_default p \<le> mp_input_price p"
  by (auto simp: prices_ok_def cached_input_price_or_default_def split: option.splits)

lemma exact_cost_nonneg: "prices_ok p \<Longrightarrow> 0 \<le> exact_cost p i out c"
  using cached_price_bounds [of p]
  by (auto simp: exact_cost_def Let_def prices_ok_def
      intro!: add_nonneg_nonneg mult_nonneg_nonneg per_token_nonneg)

lemma exact_cost_discount:
  assumes "prices_ok p" and "0 \<le> c" and "c \<le> i"
  shows "exact_cost p i out c \<le> exact_cost p i out 0"
proof -
  let ?ip = "per_token (mp_input_price p) (mp_unit p)"
  let ?cp = "per_token (cached_input_price_or_default p) (mp_unit p)"
  have "?cp \<le> ?ip" using cached_price_bounds [OF assms(1)] by (simp add: per_token_mono)
  then have "of_int c * ?cp \<le> of_int c * ?ip"
    using assms(2) by (simp add: mult_left_mono)
  then have "of_int (i - c) * ?ip + of_int c * ?cp \<le> of_int i * ?ip"
    by (simp add: algebra_simps)
  then show ?thesis using assms(2,3) by (simp add: exact_cost_def Let_def max_def)
qed

text \<open>
  A snapshot is honest about cost: it carries a cost exactly when the catalog had a
  price (an unknown price never becomes a zero), a cost is never negative, and with a
  cache-read rate no higher than the input rate, billing part of the input tokens as
  cached never costs more than billing all of them at the full rate.
\<close>

theorem snapshot_cost_honest:
  assumes "price = Some p \<Longrightarrow> prices_ok p" and "0 \<le> cached" and "cached \<le> tokens_in"
  shows "(cost_usd (compute_price_snapshot now price tokens_in tokens_out cached) \<noteq> None
            \<longleftrightarrow> price \<noteq> None)
     \<and> (price = Some p \<longrightarrow>
         (\<exists>c c0. cost_usd (compute_price_snapshot now price tokens_in tokens_out cached) = Some c
            \<and> cost_usd (compute_price_snapshot now price tokens_in tokens_out 0) = Some c0
            \<and> 0 \<le> c \<and> c \<le> c0))"
proof (cases price)
  case None
  then show ?thesis by (simp add: compute_price_snapshot_def)
next
  case (Some q)
  have "0 \<le> quantize_cost (exact_cost q tokens_in tokens_out cached)
      \<and> quantize_cost (exact_cost q tokens_in tokens_out cached)
        \<le> quantize_cost (exact_cost q tokens_in tokens_out 0)" if "q = p"
    using assms Some that exact_cost_nonneg [of q tokens_in tokens_out cached]
      exact_cost_discount [of q cached tokens_in tokens_out]
    by (simp add: quantize_cost_nonneg quantize_cost_mono)
  with Some show ?thesis by (auto simp: compute_price_snapshot_def)
qed

lemma snapshot_cost_honest_witness:
  "\<exists>c. cost_usd (compute_price_snapshot 7 (Some (demo_row 10)) 100 5 40) = Some c \<and> 0 \<le> c"
proof -
  have "prices_ok (demo_row 10)"
    by (simp add: prices_ok_def demo_row_def new_row_def demo_candidate_def)
  then show ?thesis
    using snapshot_cost_honest [of "Some (demo_row 10)" "demo_row 10" 40 100 7 5] by auto
qed

lemma lookup_current_price_key:
  "lookup_current_price cat k = Inr (Some p) \<Longrightarrow> p \<in> set cat \<and> is_current p \<and> price_key p = k"
proof -
  assume "lookup_current_price cat k = Inr (Some p)"
  then have "open_rows_for cat k = [p]"
    by (auto simp: lookup_current_price_def scalar_one_or_none_def split: list.splits)
  then have "p \<in> set (open_rows_for cat k)" by simp
  then show ?thesis by (simp add: open_rows_for_def)
qed

lemma first_price_key:
  "first_price cat modality cands = Inr (Some p) \<Longrightarrow>
     p \<in> set cat \<and> is_current p \<and> mp_modality p = modality \<and> (mp_provider p, mp_model_id p) \<in> set cands"
proof (induction cat modality cands rule: first_price.induct)
  case (2 cat modality prov mid rest)
  then show ?case
    by (auto split: sum.splits option.splits dest!: lookup_current_price_key simp: price_key_def)
qed simp

text \<open>
  The resolution of a call never guesses: the row it returns is open and of the
  call's modality, and it either belongs to the provider kind of the call or one of its
  catalog aliases, with the model id of the call or that id prefixed by the alias, or it is
  the only open row of the whole catalog with that model id and modality.
\<close>

theorem price_resolution_never_guesses:
  assumes "lookup_current_price_for_call cat provider mid modality = Inr (Some p)"
  shows "p \<in> set cat \<and> is_current p \<and> mp_modality p = modality
     \<and> ((mp_provider p, mp_model_id p) \<in> set (call_candidates provider mid)
        \<or> filter (\<lambda>q. mp_model_id q = mid \<and> mp_modality q = modality \<and> is_current q) cat = [p])"
proof (cases "first_price cat modality (call_candidates provider mid)")
  case (Inl e)
  with assms show ?thesis by (simp add: lookup_current_price_for_call_def)
next
  case (Inr r)
  show ?thesis
  proof (cases r)
    case None
    let ?rows = "filter (\<lambda>q. mp_model_id q = mid \<and> mp_modality q = modality \<and> is_current q) cat"
    have rows: "?rows = [p]"
      using assms Inr None
      by (auto simp: lookup_current_price_for_call_def split: list.splits)
    have "p \<in> set ?rows" unfolding rows by simp
    then have "p \<in> set cat \<and> is_current p \<and> mp_modality p = modality"
      unfolding set_filter mem_Collect_eq by blast
    with rows show ?thesis by blast
  next
    case (Some q)
    with assms Inr have "q = p" by (simp add: lookup_current_price_for_call_def)
    with Some Inr first_price_key show ?thesis by blast
  qed
qed

lemma price_resolution_never_guesses_witness:
  "\<exists>p. lookup_current_price_for_call [demo_row 10] '''' ''m'' ''text'' = Inr (Some p) \<and> is_current p"
proof -
  have "lookup_current_price_for_call [demo_row 10] '''' ''m'' ''text'' = Inr (Some (demo_row 10))"
    by (simp add: lookup_current_price_for_call_def call_candidates_def strip_def demo_row_def
        new_row_def demo_candidate_def is_current_def)
  with price_resolution_never_guesses [OF this] show ?thesis by blast
qed

end
