(* ===== verification/Executions.thy ===== *)
theory Executions
  imports PriceSnapshot
begin

text \<open>
  The executions of a task, \<^verbatim>\<open>apps/api-server/src/api_server/db/execution_repo.py\<close>:
  their rows, the prices and the roll-up frozen on them when a run ends, and the
  operations that open, cancel, supersede, seal and finalise them. The table is a list in
  insertion order and the id of a row is its position at insertion. A step of the log is a
  JSON object with the price snapshot embedded in it.
\<close>

section \<open>Integers from JSON values\<close>

datatype int_error = IntTypeError | IntValueError | IntOverflowError

text \<open>Decimal digits, single underscores between them.\<close>

fun int_digits :: "bool \<Rightarrow> nat \<Rightarrow> string \<Rightarrow> nat option" where
  "int_digits after acc [] = (if after then Some acc else None)"
| "int_digits after acc (c # cs) =
     (if is_digit c then int_digits True (10 * acc + (of_char c - 48)) cs
      else if c = CHR ''_'' \<and> after then int_digits False acc cs else None)"

definition parse_int :: "string \<Rightarrow> int option" where
  "parse_int s =
     (let (neg, ds) = split_sign (strip s)
      in map_option (\<lambda>n. if neg then - int n else int n) (int_digits False 0 ds))"

definition py_int :: "pyval \<Rightarrow> (int_error, int) result" where
  "py_int v =
     (case v of
        PInt i \<Rightarrow> Inr i
      | PBool b \<Rightarrow> Inr (if b then 1 else 0)
      | PFloat _ f \<Rightarrow>
          (case f of Finite r \<Rightarrow> Inr (trunc_int r) | NotANumber \<Rightarrow> Inl IntValueError
           | _ \<Rightarrow> Inl IntOverflowError)
      | PStr s \<Rightarrow> (case parse_int s of Some i \<Rightarrow> Inr i | None \<Rightarrow> Inl IntValueError)
      | _ \<Rightarrow> Inl IntTypeError)"

fun int_field :: "pydict \<Rightarrow> string list \<Rightarrow> (int_error, int) result" where
  "int_field step [] = Inr 0"
| "int_field step (n # ns) =
     (if dget step n = PNone then int_field step ns
      else case py_int (dget step n) of
        Inr i \<Rightarrow> Inr i
      | Inl IntOverflowError \<Rightarrow> Inl IntOverflowError
      | Inl _ \<Rightarrow> int_field step ns)"

definition as_int :: "pyval \<Rightarrow> (int_error, int) result" where
  "as_int v =
     (case v of
        PBool _ \<Rightarrow> Inr 0 | PNone \<Rightarrow> Inr 0 | PList _ \<Rightarrow> Inr 0 | PDict _ \<Rightarrow> Inr 0
      | _ \<Rightarrow> (case py_int v of
                Inr i \<Rightarrow> Inr i
              | Inl IntOverflowError \<Rightarrow> Inl IntOverflowError
              | Inl _ \<Rightarrow> Inr 0))"

section \<open>Rows\<close>

datatype exec_status =
    X_RUNNING | X_DONE | X_ABORTED | X_FAILED | X_AWAITING_HUMAN_APPROVAL | X_CANCELLED
  | X_NEEDS_HUMAN_REVIEW | X_OTHER string

definition is_terminal_execution_status :: "exec_status \<Rightarrow> bool" where
  "is_terminal_execution_status s \<longleftrightarrow>
     s \<in> {X_DONE, X_ABORTED, X_FAILED, X_CANCELLED, X_NEEDS_HUMAN_REVIEW}"

record exec_step =
  step_fields :: pydict
  step_price :: "price_snapshot option"

record execution =
  ex_id :: nat
  ex_task :: string
  ex_status :: exec_status
  abort_code :: "string option"
  ex_output :: "string option"
  finish_status :: "string option"
  steps_log :: "exec_step list"
  iterations :: int
  total_tokens :: int
  total_cost_usd :: rat
  tool_call_count :: int
  model_call_count :: int
  last_model :: "string option"
  tokens_in :: int
  tokens_out :: int
  price_columns :: "price_snapshot option"
  cancel_requested_at :: "instant option"
  completed_at :: "instant option"
  memorize_skip_reason :: "string option"

record exec_result =
  r_status :: exec_status
  r_abort_code :: "string option"
  r_output :: "string option"
  r_finish_status :: "string option"
  r_iterations :: int
  r_steps :: "exec_step list"
  r_usage :: pydict

type_synonym executions = "execution list"

datatype exec_error =
    IntError int_error
  | DecimalError
  | PriceError sync_error
  | ExecutionNotCancellableError exec_status

section \<open>Prices\<close>

definition por :: "pyval \<Rightarrow> pyval \<Rightarrow> pyval" where
  "por a b = (if truthy a then a else b)"

definition is_model_call :: "exec_step \<Rightarrow> bool" where
  "is_model_call s \<longleftrightarrow> dget (step_fields s) ''kind'' = PStr ''model_call''"

definition price_step :: "instant \<Rightarrow> catalog \<Rightarrow> exec_step \<Rightarrow> (exec_error, exec_step) result" where
  "price_step now cat s =
     (let d = step_fields s;
          model_id = py_str (por (dget d ''model_id'') (por (dget d ''model'') (PStr '''')));
          provider = py_str (por (dget d ''provider'') (PStr ''''));
          modality = py_str (por (dget d ''modality'') (PStr ''text''))
      in bindr (with_error IntError (int_field d [''tokens_in'']))
           (\<lambda>tin. bindr (with_error IntError (int_field d [''tokens_out'']))
           (\<lambda>tout. bindr (with_error IntError
                (int_field d [''cached_input_tokens'', ''tokens_cached_input'', ''tokens_cached'']))
           (\<lambda>cached. bindr (with_error PriceError
                (snapshot_model_call now cat provider model_id modality tin tout cached))
           (\<lambda>snap. Inr (s\<lparr>step_price := Some snap\<rparr>))))))"

text \<open>The loop carries the enriched steps, the last priced snapshot and the last one.\<close>

fun price_steps ::
  "instant \<Rightarrow> catalog \<Rightarrow> exec_step list \<Rightarrow> exec_step list
     \<Rightarrow> price_snapshot option \<Rightarrow> price_snapshot option
     \<Rightarrow> (exec_error, exec_step list \<times> price_snapshot option) result" where
  "price_steps now cat [] acc last_priced last_any =
     Inr (acc, if last_priced \<noteq> None then last_priced else last_any)"
| "price_steps now cat (s # ss) acc last_priced last_any =
     (if \<not> is_model_call s then price_steps now cat ss (acc @ [s]) last_priced last_any
      else case price_step now cat s of
        Inl e \<Rightarrow> Inl e
      | Inr s' \<Rightarrow>
          price_steps now cat ss (acc @ [s'])
            (if available (the (step_price s')) then step_price s' else last_priced)
            (step_price s'))"

definition snapshot_execution_prices ::
  "instant \<Rightarrow> catalog \<Rightarrow> exec_step list
     \<Rightarrow> (exec_error, exec_step list \<times> price_snapshot option) result" where
  "snapshot_execution_prices now cat steps = price_steps now cat steps [] None None"

fun cost_loop :: "exec_step list \<Rightarrow> rat \<Rightarrow> bool \<Rightarrow> rat option" where
  "cost_loop [] acc priced = (if priced then Some acc else None)"
| "cost_loop (s # ss) acc priced =
     (case step_price s of
        Some snap \<Rightarrow>
          (case (if available snap then cost_usd snap else None) of
             Some c \<Rightarrow> cost_loop ss (acc + c) True
           | None \<Rightarrow> cost_loop ss acc priced)
      | None \<Rightarrow> cost_loop ss acc priced)"

definition catalog_cost_total :: "exec_step list \<Rightarrow> rat option" where
  "catalog_cost_total steps = cost_loop steps 0 False"

text \<open>
  The reported cost goes through text into a decimal; an infinite cost can not be stored,
  and comparing a NaN raises.
\<close>

definition billable_cost_usd :: "pydict \<Rightarrow> exec_step list \<Rightarrow> (exec_error, rat) result" where
  "billable_cost_usd usage steps =
     (case parse_decimal (py_str (por (dget_default usage ''cost_usd'' (PInt 0)) (PInt 0))) of
        Some (Finite reported) \<Rightarrow>
          (if 0 < reported then Inr reported
           else case catalog_cost_total steps of
             None \<Rightarrow> Inr reported
           | Some estimated \<Rightarrow> Inr (if estimated \<le> 0 then reported else estimated))
      | _ \<Rightarrow> Inl DecimalError)"

section \<open>The roll-up\<close>

text \<open>Model, the order of its step, and the two sums.\<close>

type_synonym rollup = "string option \<times> int \<times> int"

definition step_order :: "int \<Rightarrow> pydict \<Rightarrow> int" where
  "step_order position d = (case dget d ''index'' of PInt i \<Rightarrow> i | _ \<Rightarrow> position)"

definition step_model :: "pydict \<Rightarrow> string option" where
  "step_model d = (case dget d ''model'' of PStr m \<Rightarrow> if m = [] then None else Some m | _ \<Rightarrow> None)"

fun rollup_loop ::
  "int \<Rightarrow> exec_step list \<Rightarrow> (int \<times> string) option \<Rightarrow> int \<Rightarrow> int \<Rightarrow> (int_error, rollup) result" where
  "rollup_loop pos [] best tin tout = Inr (map_option snd best, tin, tout)"
| "rollup_loop pos (s # ss) best tin tout =
     (if \<not> is_model_call s then rollup_loop (pos + 1) ss best tin tout
      else case as_int (dget (step_fields s) ''tokens_in'') of
        Inl e \<Rightarrow> Inl e
      | Inr i \<Rightarrow>
          (case as_int (dget (step_fields s) ''tokens_out'') of
             Inl e \<Rightarrow> Inl e
           | Inr out \<Rightarrow>
               let order = step_order pos (step_fields s);
                   best' = (case step_model (step_fields s) of
                              None \<Rightarrow> best
                            | Some m \<Rightarrow>
                                (case best of
                                   None \<Rightarrow> Some (order, m)
                                 | Some (b, _) \<Rightarrow> if b \<le> order then Some (order, m) else best))
               in rollup_loop (pos + 1) ss best' (tin + i) (tout + out)))"

definition steps_rollup :: "exec_step list \<Rightarrow> (int_error, rollup) result" where
  "steps_rollup steps = rollup_loop 0 steps None 0 0"

definition apply_steps_rollup ::
  "exec_step list \<Rightarrow> execution \<Rightarrow> (exec_error, execution) result" where
  "apply_steps_rollup steps e =
     (case steps_rollup steps of
        Inl err \<Rightarrow> Inl (IntError err)
      | Inr (m, i, out) \<Rightarrow>
          Inr (e\<lparr>steps_log := steps, last_model := m, tokens_in := i, tokens_out := out\<rparr>))"

section \<open>Operations on a row\<close>

definition apply_price_snapshot :: "price_snapshot option \<Rightarrow> execution \<Rightarrow> execution" where
  "apply_price_snapshot rollup e =
     (case rollup of None \<Rightarrow> e | Some snap \<Rightarrow> e\<lparr>price_columns := Some snap\<rparr>)"

definition is_sealed :: "execution \<Rightarrow> bool" where
  "is_sealed e \<longleftrightarrow> is_terminal_execution_status (ex_status e) \<and> completed_at e \<noteq> None"

definition seal_terminal_execution ::
  "instant \<Rightarrow> exec_status \<Rightarrow> string option \<Rightarrow> string option \<Rightarrow> execution \<Rightarrow> execution \<times> bool" where
  "seal_terminal_execution now st code out e =
     (if is_sealed e then (e, False)
      else (e\<lparr>ex_status := st, abort_code := code,
              ex_output := (case out of None \<Rightarrow> ex_output e | Some x \<Rightarrow> Some x),
              completed_at := Some now,
              memorize_skip_reason :=
                (case memorize_skip_reason e of None \<Rightarrow> Some ''administrative_finalize''
                 | Some r \<Rightarrow> Some r)\<rparr>, True))"

definition usage_int :: "pydict \<Rightarrow> string \<Rightarrow> (exec_error, int) result" where
  "usage_int usage k = with_error IntError (py_int (dget_default usage k (PInt 0)))"

text \<open>The figures of a finished run, shared by a new row and by the end of a running one.\<close>

definition write_usage ::
  "instant \<Rightarrow> catalog \<Rightarrow> exec_result \<Rightarrow> execution \<Rightarrow> (exec_error, execution) result" where
  "write_usage now cat res e =
     bindr (snapshot_execution_prices now cat (r_steps res)) (\<lambda>(steps, rollup).
     bindr (apply_steps_rollup steps (apply_price_snapshot rollup
              (e\<lparr>ex_status := r_status res, abort_code := r_abort_code res,
                 ex_output := r_output res\<rparr>))) (\<lambda>e1.
     bindr (usage_int (r_usage res) ''total_tokens'') (\<lambda>tokens.
     bindr (billable_cost_usd (r_usage res) steps) (\<lambda>cost.
     bindr (usage_int (r_usage res) ''tool_calls'') (\<lambda>tools.
     bindr (usage_int (r_usage res) ''model_calls'') (\<lambda>models.
     Inr (e1\<lparr>iterations := r_iterations res, total_tokens := tokens, total_cost_usd := cost,
             tool_call_count := tools, model_call_count := models,
             completed_at := (if is_terminal_execution_status (r_status res)
                              then Some now else None)\<rparr>)))))))"

definition finalize_row ::
  "instant \<Rightarrow> catalog \<Rightarrow> exec_result \<Rightarrow> execution \<Rightarrow> (exec_error, execution) result" where
  "finalize_row now cat res e =
     (if is_sealed e
      then if length (r_steps res) > length (steps_log e)
           then bindr (snapshot_execution_prices now cat (r_steps res))
                  (\<lambda>(steps, _). apply_steps_rollup steps e)
           else Inr e
      else write_usage now cat res (e\<lparr>finish_status := r_finish_status res\<rparr>))"

definition blank_execution :: "nat \<Rightarrow> string \<Rightarrow> execution" where
  "blank_execution i task =
     \<lparr>ex_id = i, ex_task = task, ex_status = X_RUNNING, abort_code = None, ex_output = None,
      finish_status = None, steps_log = [], iterations = 0, total_tokens = 0,
      total_cost_usd = 0, tool_call_count = 0, model_call_count = 0, last_model = None,
      tokens_in = 0, tokens_out = 0, price_columns = None, cancel_requested_at = None,
      completed_at = None, memorize_skip_reason = None\<rparr>"

section \<open>Operations on the table\<close>

definition record_execution ::
  "instant \<Rightarrow> catalog \<Rightarrow> string \<Rightarrow> exec_result \<Rightarrow> executions \<Rightarrow> (exec_error, executions) result" where
  "record_execution now cat task res db =
     bindr (write_usage now cat res (blank_execution (length db) task)) (\<lambda>e. Inr (db @ [e]))"

definition create_running_execution :: "string \<Rightarrow> executions \<Rightarrow> executions" where
  "create_running_execution task db = db @ [blank_execution (length db) task]"

definition update_row :: "nat \<Rightarrow> (execution \<Rightarrow> execution) \<Rightarrow> executions \<Rightarrow> executions" where
  "update_row i f db = map (\<lambda>e. if ex_id e = i then f e else e) db"

definition request_execution_cancel ::
  "instant \<Rightarrow> nat \<Rightarrow> executions \<Rightarrow> (exec_error, executions) result" where
  "request_execution_cancel now i db =
     (case find (\<lambda>e. ex_id e = i) db of
        None \<Rightarrow> Inr db
      | Some e \<Rightarrow>
          if ex_status e \<noteq> X_RUNNING then Inl (ExecutionNotCancellableError (ex_status e))
          else if cancel_requested_at e = None
               then Inr (update_row i (\<lambda>e. e\<lparr>cancel_requested_at := Some now\<rparr>) db)
               else Inr db)"

definition supersede_row :: "instant \<Rightarrow> string \<Rightarrow> execution \<Rightarrow> execution" where
  "supersede_row now task e =
     (if ex_task e = task \<and> ex_status e = X_RUNNING
      then fst (if cancel_requested_at e \<noteq> None
                then seal_terminal_execution now X_CANCELLED (Some ''cancelled'')
                       (Some ''cancelled by operator'') e
                else seal_terminal_execution now X_FAILED (Some ''superseded'')
                       (Some ''superseded by a re-delivered execution (worker retry)'') e)
      else e)"

definition supersede_running_executions :: "instant \<Rightarrow> string \<Rightarrow> executions \<Rightarrow> executions" where
  "supersede_running_executions now task db = map (supersede_row now task) db"

definition finalize_execution ::
  "instant \<Rightarrow> catalog \<Rightarrow> nat \<Rightarrow> exec_result \<Rightarrow> executions \<Rightarrow> (exec_error, executions) result" where
  "finalize_execution now cat i res db =
     (case find (\<lambda>e. ex_id e = i) db of
        None \<Rightarrow> Inr db
      | Some e \<Rightarrow> bindr (finalize_row now cat res e) (\<lambda>e'. Inr (update_row i (\<lambda>_. e') db)))"

text \<open>The cancellation of the runs of a task; the approval requests follow the parked ones.\<close>

definition cancel_row :: "instant \<Rightarrow> string \<Rightarrow> execution \<Rightarrow> execution" where
  "cancel_row now task e =
     (if ex_task e = task \<and> ex_status e \<in> {X_RUNNING, X_AWAITING_HUMAN_APPROVAL}
      then let e1 = e\<lparr>cancel_requested_at :=
                        (case cancel_requested_at e of None \<Rightarrow> Some now | Some t \<Rightarrow> Some t)\<rparr>
           in if ex_status e = X_AWAITING_HUMAN_APPROVAL
              then e1\<lparr>ex_status := X_CANCELLED, abort_code := Some ''cancelled'',
                      completed_at := Some now\<rparr>
              else e1
      else e)"

datatype request_status =
    Q_PENDING | Q_APPROVED | Q_REJECTED | Q_TIMED_OUT | Q_CANCELLED

record approval_request =
  q_execution :: nat
  q_status :: request_status
  q_resolved_at :: "instant option"
  q_reason :: "string option"

definition parked_ids :: "string \<Rightarrow> executions \<Rightarrow> nat set" where
  "parked_ids task db =
     ex_id ` {e \<in> set db. ex_task e = task \<and> ex_status e = X_AWAITING_HUMAN_APPROVAL}"

definition close_request :: "instant \<Rightarrow> nat set \<Rightarrow> approval_request \<Rightarrow> approval_request" where
  "close_request now ids q =
     (if q_execution q \<in> ids \<and> q_status q = Q_PENDING
      then q\<lparr>q_status := Q_CANCELLED, q_resolved_at := Some now,
             q_reason := Some ''task cancelled''\<rparr>
      else q)"

definition cancel_running_executions_for_task ::
  "instant \<Rightarrow> string \<Rightarrow> executions \<Rightarrow> approval_request list \<Rightarrow> executions \<times> approval_request list" where
  "cancel_running_executions_for_task now task db qs =
     (map (cancel_row now task) db, map (close_request now (parked_ids task db)) qs)"

section \<open>One request\<close>

datatype exec_call =
    ExecCreate string
  | ExecRecord instant catalog string exec_result
  | ExecCancel instant nat
  | ExecFinalize instant catalog nat exec_result
  | ExecSupersede instant string
  | ExecCancelTask instant string
  | ExecSeal instant nat exec_status "string option" "string option"

fun do_exec_call :: "exec_call \<Rightarrow> executions \<Rightarrow> (exec_error, executions) result" where
  "do_exec_call (ExecCreate task) db = Inr (create_running_execution task db)"
| "do_exec_call (ExecRecord now cat task res) db = record_execution now cat task res db"
| "do_exec_call (ExecCancel now i) db = request_execution_cancel now i db"
| "do_exec_call (ExecFinalize now cat i res) db = finalize_execution now cat i res db"
| "do_exec_call (ExecSupersede now task) db = Inr (supersede_running_executions now task db)"
| "do_exec_call (ExecCancelTask now task) db =
     Inr (fst (cancel_running_executions_for_task now task db []))"
| "do_exec_call (ExecSeal now i st code out) db =
     Inr (update_row i (\<lambda>e. fst (seal_terminal_execution now st code out e)) db)"

text \<open>The callers that seal a row name a terminal status.\<close>

fun seals_terminal :: "exec_call \<Rightarrow> bool" where
  "seals_terminal (ExecSeal now i st code out) = is_terminal_execution_status st"
| "seals_terminal _ = True"

section \<open>The roll-up\<close>

definition infinite_float :: "pyval \<Rightarrow> bool" where
  "infinite_float v \<longleftrightarrow> (case v of PFloat _ f \<Rightarrow> f = PosInf \<or> f = NegInf | _ \<Rightarrow> False)"

definition int_value :: "pyval \<Rightarrow> int" where
  "int_value v = (case as_int v of Inr i \<Rightarrow> i | Inl _ \<Rightarrow> 0)"

lemma py_int_overflow: "py_int v = Inl IntOverflowError \<longleftrightarrow> infinite_float v"
  by (auto simp: py_int_def infinite_float_def split: pyval.splits pyfloat.splits option.splits)

lemma as_int_total: "as_int v = (if infinite_float v then Inl IntOverflowError else Inr (int_value v))"
proof -
  have "as_int v = Inl IntOverflowError \<longleftrightarrow> infinite_float v"
    using py_int_overflow [of v]
    by (auto simp: as_int_def infinite_float_def split: pyval.splits sum.splits int_error.splits)
  moreover have "as_int v = Inl e \<Longrightarrow> e = IntOverflowError" for e
    by (auto simp: as_int_def split: pyval.splits sum.splits int_error.splits)
  ultimately show ?thesis
    by (cases "as_int v") (auto simp: int_value_def)
qed

definition infinite_tokens :: "exec_step \<Rightarrow> bool" where
  "infinite_tokens s \<longleftrightarrow> is_model_call s
     \<and> (infinite_float (dget (step_fields s) ''tokens_in'') \<or> infinite_float (dget (step_fields s) ''tokens_out''))"

lemma rollup_loop_raises:
  "raises (rollup_loop pos ss best tin tout) \<longleftrightarrow> (\<exists>s \<in> set ss. infinite_tokens s)"
  by (induction pos ss best tin tout rule: rollup_loop.induct)
    (auto simp: as_int_total infinite_tokens_def Let_def)

text \<open>
  The roll-up of a step log is documented never to raise; it raises exactly when some
  model call of the log reports an infinite number of tokens, and on every other log,
  however malformed its other values are, it returns.
\<close>

theorem steps_rollup_raises_iff:
  "raises (steps_rollup steps) \<longleftrightarrow> (\<exists>s \<in> set steps. infinite_tokens s)"
  by (simp add: steps_rollup_def rollup_loop_raises)

definition call_tokens :: "string \<Rightarrow> exec_step list \<Rightarrow> int" where
  "call_tokens k ss = (\<Sum>s\<leftarrow>filter is_model_call ss. int_value (dget (step_fields s) k))"

text \<open>The steps that name a model, with their order; \<open>pos\<close> numbers the first step.\<close>

fun named_calls :: "int \<Rightarrow> exec_step list \<Rightarrow> (int \<times> string) list" where
  "named_calls pos [] = []"
| "named_calls pos (s # ss) =
     (case (if is_model_call s then step_model (step_fields s) else None) of
        Some m \<Rightarrow> (step_order pos (step_fields s), m) # named_calls (pos + 1) ss
      | None \<Rightarrow> named_calls (pos + 1) ss)"

text \<open>The last of the entries of the highest order.\<close>

definition best_of :: "(int \<times> string) list \<Rightarrow> (int \<times> string) option \<Rightarrow> bool" where
  "best_of xs b \<longleftrightarrow>
     (case b of
        None \<Rightarrow> xs = []
      | Some (k, m) \<Rightarrow> \<exists>ys zs. xs = ys @ (k, m) # zs \<and> (\<forall>(j, n) \<in> set ys. j \<le> k)
                                  \<and> (\<forall>(j, n) \<in> set zs. j < k))"

lemma best_of_snoc:
  assumes "best_of xs best"
  shows "best_of (xs @ [(k, m)])
    (case best of None \<Rightarrow> Some (k, m) | Some (b, n) \<Rightarrow> if b \<le> k then Some (k, m) else best)"
proof (cases best)
  case None
  with assms show ?thesis
    by (auto simp: best_of_def intro!: exI [of _ "[]"])
next
  case (Some bn)
  obtain b n where bn: "bn = (b, n)" by fastforce
  from assms Some bn obtain ys zs where xs: "xs = ys @ (b, n) # zs"
    and ys: "\<forall>(j, n) \<in> set ys. j \<le> b" and zs: "\<forall>(j, n) \<in> set zs. j < b"
    by (auto simp: best_of_def)
  show ?thesis
  proof (cases "b \<le> k")
    case True
    have "\<forall>(j, n) \<in> set xs. j \<le> k" using xs ys zs True by fastforce
    moreover have "xs @ [(k, m)] = xs @ (k, m) # []" by simp
    ultimately have "best_of (xs @ [(k, m)]) (Some (k, m))"
      unfolding best_of_def option.case prod.case by fastforce
    with Some bn True show ?thesis by simp
  next
    case False
    have "xs @ [(k, m)] = ys @ (b, n) # (zs @ [(k, m)])" by (simp add: xs)
    moreover have "\<forall>(j, n) \<in> set (zs @ [(k, m)]). j < b" using zs False by auto
    ultimately have "best_of (xs @ [(k, m)]) (Some (b, n))"
      using ys unfolding best_of_def option.case prod.case by blast
    with Some bn False show ?thesis by simp
  qed
qed

lemma rollup_loop_value:
  assumes "rollup_loop pos ss best tin tout = Inr (m, i, out)" and "best_of xs best"
  shows "i = tin + call_tokens ''tokens_in'' ss \<and> out = tout + call_tokens ''tokens_out'' ss
     \<and> (\<exists>b. best_of (xs @ named_calls pos ss) b \<and> m = map_option snd b)"
  using assms
proof (induction pos ss best tin tout arbitrary: xs rule: rollup_loop.induct)
  case (1 pos best tin tout)
  then show ?case by (auto simp: call_tokens_def)
next
  case (2 pos s ss best tin tout)
  show ?case
  proof (cases "is_model_call s")
    case False
    with 2 show ?thesis by (simp add: call_tokens_def)
  next
    case True
    let ?i = "int_value (dget (step_fields s) ''tokens_in'')"
    let ?o = "int_value (dget (step_fields s) ''tokens_out'')"
    let ?k = "step_order pos (step_fields s)"
    have fin: "as_int (dget (step_fields s) ''tokens_in'') = Inr ?i"
      "as_int (dget (step_fields s) ''tokens_out'') = Inr ?o"
      using "2.prems"(1) True by (auto simp: as_int_total split: if_splits)
    define best' where "best' = (case step_model (step_fields s) of
                              None \<Rightarrow> best
                            | Some m \<Rightarrow>
                                (case best of
                                   None \<Rightarrow> Some (?k, m)
                                 | Some (b, _) \<Rightarrow> if b \<le> ?k then Some (?k, m) else best))"
    define xs' where "xs' = xs @ (case step_model (step_fields s) of None \<Rightarrow> [] | Some m \<Rightarrow> [(?k, m)])"
    have "rollup_loop (pos + 1) ss best' (tin + ?i) (tout + ?o) = Inr (m, i, out)"
      using "2.prems"(1) True fin by (simp add: best'_def Let_def)
    moreover have "best_of xs' best'"
      using best_of_snoc [OF "2.prems"(2)] "2.prems"(2)
      by (auto simp: xs'_def best'_def split: option.splits)
    ultimately have "i = tin + ?i + call_tokens ''tokens_in'' ss
       \<and> out = tout + ?o + call_tokens ''tokens_out'' ss
       \<and> (\<exists>b. best_of (xs' @ named_calls (pos + 1) ss) b \<and> m = map_option snd b)"
      using "2.IH"(2) [OF _ fin(1) fin(2) refl best'_def] True by simp
    moreover have "xs' @ named_calls (pos + 1) ss = xs @ named_calls pos (s # ss)"
      using True by (simp add: xs'_def split: option.splits)
    ultimately show ?thesis using True by (simp add: call_tokens_def)
  qed
qed

text \<open>
  What the roll-up of a log is when it returns: the two token counts are the sums over
  its model calls, and the model is the one of the last call of highest index among those
  that name one, none if no call does.
\<close>

theorem steps_rollup_value:
  assumes "steps_rollup steps = Inr (m, i, out)"
  shows "i = call_tokens ''tokens_in'' steps \<and> out = call_tokens ''tokens_out'' steps
     \<and> (\<exists>b. best_of (named_calls 0 steps) b \<and> m = map_option snd b)"
  using rollup_loop_value [of 0 steps None 0 0 m i out "[]"] assms
  by (simp add: steps_rollup_def best_of_def)

definition call_step :: "string \<Rightarrow> int \<Rightarrow> exec_step" where
  "call_step m n = \<lparr>step_fields = [(''kind'', PStr ''model_call''), (''model'', PStr m),
     (''tokens_in'', PInt n)], step_price = None\<rparr>"

lemma steps_rollup_value_witness:
  "\<exists>m i out. steps_rollup [call_step ''a'' 3, call_step ''b'' 4] = Inr (m, i, out)
     \<and> i = call_tokens ''tokens_in'' [call_step ''a'' 3, call_step ''b'' 4]"
proof -
  have "steps_rollup [call_step ''a'' 3, call_step ''b'' 4] = Inr (Some ''b'', 7, 0)"
    by (simp add: steps_rollup_def call_step_def is_model_call_def as_int_def py_int_def
        step_model_def step_order_def)
  with steps_rollup_value [OF this] show ?thesis by blast
qed

section \<open>What holds of every row\<close>

text \<open>
  The roll-up columns are the roll-up of the log, and the completion stamp is there exactly
  when the status is terminal.
\<close>

definition row_ok :: "execution \<Rightarrow> bool" where
  "row_ok e \<longleftrightarrow> steps_rollup (steps_log e) = Inr (last_model e, tokens_in e, tokens_out e)
     \<and> (completed_at e \<noteq> None \<longleftrightarrow> is_terminal_execution_status (ex_status e))"

definition table_ok :: "executions \<Rightarrow> bool" where
  "table_ok db \<longleftrightarrow> map ex_id db = [0..<length db] \<and> (\<forall>e \<in> set db. row_ok e)"

text \<open>What no later call changes of a sealed row; its log may only be replaced by a longer one.\<close>

definition same_outcome :: "execution \<Rightarrow> execution \<Rightarrow> bool" where
  "same_outcome e e' \<longleftrightarrow>
     ex_id e' = ex_id e \<and> ex_task e' = ex_task e \<and> ex_status e' = ex_status e
     \<and> abort_code e' = abort_code e \<and> ex_output e' = ex_output e
     \<and> completed_at e' = completed_at e \<and> total_cost_usd e' = total_cost_usd e
     \<and> total_tokens e' = total_tokens e \<and> price_columns e' = price_columns e
     \<and> length (steps_log e) \<le> length (steps_log e')"

lemma same_outcome_refl [simp]: "same_outcome e e"
  by (simp add: same_outcome_def)

lemma same_outcome_trans: "same_outcome a b \<Longrightarrow> same_outcome b c \<Longrightarrow> same_outcome a c"
  by (simp add: same_outcome_def)

lemma same_outcome_sealed: "same_outcome e e' \<Longrightarrow> is_sealed e \<Longrightarrow> is_sealed e'"
  by (simp add: same_outcome_def is_sealed_def)

lemma status_terminal [simp]:
  "\<not> is_terminal_execution_status X_RUNNING"
  "\<not> is_terminal_execution_status X_AWAITING_HUMAN_APPROVAL"
  "is_terminal_execution_status X_CANCELLED"
  "is_terminal_execution_status X_FAILED"
  by (simp_all add: is_terminal_execution_status_def)

lemma blank_row_ok [simp]: "row_ok (blank_execution i task)"
  by (simp add: row_ok_def blank_execution_def steps_rollup_def)

lemma seal_row:
  assumes "row_ok e" and "is_terminal_execution_status st"
  shows "row_ok (fst (seal_terminal_execution now st code out e))"
  using assms by (auto simp: seal_terminal_execution_def row_ok_def)

lemma seal_sealed [simp]: "is_sealed e \<Longrightarrow> fst (seal_terminal_execution now st code out e) = e"
  by (simp add: seal_terminal_execution_def)

lemma seal_id [simp]: "ex_id (fst (seal_terminal_execution now st code out e)) = ex_id e"
  by (simp add: seal_terminal_execution_def)

lemma supersede_row_facts:
  "ex_id (supersede_row now task e) = ex_id e"
  "row_ok e \<Longrightarrow> row_ok (supersede_row now task e)"
  "is_sealed e \<Longrightarrow> supersede_row now task e = e"
  by (auto simp: supersede_row_def intro: seal_row)

lemma cancel_row_ok: "row_ok e \<Longrightarrow> row_ok (cancel_row now task e)"
  by (cases "ex_status e") (simp_all add: cancel_row_def row_ok_def Let_def)

lemma cancel_row_sealed: "is_sealed e \<Longrightarrow> cancel_row now task e = e"
  by (cases "ex_status e") (simp_all add: cancel_row_def is_sealed_def)

lemma cancel_row_id: "ex_id (cancel_row now task e) = ex_id e"
  by (simp add: cancel_row_def Let_def)

lemmas cancel_row_facts = cancel_row_id cancel_row_ok cancel_row_sealed

lemma apply_steps_rollup_ok:
  "apply_steps_rollup steps e = Inr e' \<longleftrightarrow>
     (\<exists>m i out. steps_rollup steps = Inr (m, i, out)
        \<and> e' = e\<lparr>steps_log := steps, last_model := m, tokens_in := i, tokens_out := out\<rparr>)"
  by (auto simp: apply_steps_rollup_def split: sum.splits)

lemma price_steps_length:
  "price_steps now cat ss acc lp la = Inr (steps, r) \<Longrightarrow> length steps = length acc + length ss"
proof (induction ss arbitrary: acc lp la)
  case (Cons s ss)
  from Cons.prems show ?case
    by (cases "is_model_call s"; cases "price_step now cat s") (auto dest: Cons.IH)
qed simp

lemma write_usage_ok:
  assumes "write_usage now cat res e = Inr e'"
  shows "row_ok e' \<and> ex_id e' = ex_id e"
proof -
  from assms obtain steps rollup e1 tokens cost tools models
    where "apply_steps_rollup steps (apply_price_snapshot rollup
              (e\<lparr>ex_status := r_status res, abort_code := r_abort_code res,
                 ex_output := r_output res\<rparr>)) = Inr e1"
      and e': "e' = e1\<lparr>iterations := r_iterations res, total_tokens := tokens,
             total_cost_usd := cost, tool_call_count := tools, model_call_count := models,
             completed_at := (if is_terminal_execution_status (r_status res)
                              then Some now else None)\<rparr>"
    unfolding write_usage_def bindr_Inr_iff by (auto simp: bindr_Inr_iff)
  then obtain m i out where "steps_rollup steps = Inr (m, i, out)"
    and "e1 = (apply_price_snapshot rollup
              (e\<lparr>ex_status := r_status res, abort_code := r_abort_code res,
                 ex_output := r_output res\<rparr>))
            \<lparr>steps_log := steps, last_model := m, tokens_in := i, tokens_out := out\<rparr>"
    by (auto simp: apply_steps_rollup_ok)
  with e' show ?thesis
    by (cases rollup) (simp_all add: row_ok_def apply_price_snapshot_def)
qed

lemma finalize_row_ok:
  assumes "finalize_row now cat res e = Inr e'" and "row_ok e"
  shows "row_ok e' \<and> ex_id e' = ex_id e \<and> (is_sealed e \<longrightarrow> same_outcome e e')"
proof (cases "is_sealed e")
  case True
  show ?thesis
  proof (cases "length (r_steps res) > length (steps_log e)")
    case long: True
    then obtain steps r where p: "snapshot_execution_prices now cat (r_steps res) = Inr (steps, r)"
      and a: "apply_steps_rollup steps e = Inr e'"
      using assms(1) True by (auto simp: finalize_row_def result_ok)
    have "length steps = length (r_steps res)"
      using price_steps_length p by (fastforce simp: snapshot_execution_prices_def)
    with a long assms(2) show ?thesis
      by (auto simp: apply_steps_rollup_ok row_ok_def same_outcome_def)
  next
    case False
    with assms True show ?thesis by (simp add: finalize_row_def)
  qed
next
  case False
  then have "write_usage now cat res (e\<lparr>finish_status := r_finish_status res\<rparr>) = Inr e'"
    using assms(1) by (simp add: finalize_row_def)
  from write_usage_ok [OF this] False show ?thesis by simp
qed

text \<open>A call that rewrites rows in place keeps the table in order.\<close>

definition keeps :: "executions \<Rightarrow> executions \<Rightarrow> bool" where
  "keeps db db' \<longleftrightarrow> table_ok db'
     \<and> (\<forall>e \<in> set db. is_sealed e \<longrightarrow> (\<exists>e' \<in> set db'. same_outcome e e'))"

lemma keeps_map:
  assumes "table_ok db"
    and "\<And>e. e \<in> set db \<Longrightarrow> ex_id (f e) = ex_id e \<and> row_ok (f e)
            \<and> (is_sealed e \<longrightarrow> same_outcome e (f e))"
  shows "keeps db (map f db)"
proof -
  have "map ex_id (map f db) = map ex_id db"
    using assms(2) by simp
  with assms show ?thesis
    unfolding keeps_def table_ok_def by auto
qed

lemma keeps_refl: "table_ok db \<Longrightarrow> keeps db db"
  unfolding keeps_def using same_outcome_refl by blast

lemma keeps_snoc:
  assumes "table_ok db" and "row_ok e" and "ex_id e = length db"
  shows "keeps db (db @ [e])"
proof -
  have "table_ok (db @ [e])" using assms by (auto simp: table_ok_def)
  moreover have "\<exists>a' \<in> set (db @ [e]). same_outcome a a'" if "a \<in> set db" for a
    using that same_outcome_refl [of a] by (intro bexI [of _ a]) auto
  ultimately show ?thesis by (simp add: keeps_def)
qed

lemma find_row:
  assumes "find (\<lambda>e. ex_id e = i) db = Some e"
  shows "e \<in> set db \<and> ex_id e = i"
  using assms by (auto simp: find_Some_iff)

lemma unique_row:
  assumes "table_ok db" and "a \<in> set db" and "b \<in> set db" and "ex_id a = ex_id b"
  shows "a = b"
proof -
  have "distinct (map ex_id db)"
    using assms(1) by (simp add: table_ok_def)
  with assms(2-4) show ?thesis by (auto simp: distinct_map inj_on_def)
qed

lemma do_exec_call_keeps:
  assumes "table_ok db" and "seals_terminal c" and "do_exec_call c db = Inr db'"
  shows "keeps db db'"
proof -
  have rows: "\<And>e. e \<in> set db \<Longrightarrow> row_ok e" using assms(1) by (simp add: table_ok_def)
  have same: "keeps db db" by (rule keeps_refl [OF assms(1)])
  show ?thesis
  proof (cases c)
    case (ExecCreate task)
    with assms(1,3) show ?thesis
      by (auto simp: create_running_execution_def blank_execution_def intro!: keeps_snoc)
         (simp flip: blank_execution_def)
  next
    case (ExecRecord now cat task res)
    then obtain e where "write_usage now cat res (blank_execution (length db) task) = Inr e"
      and "db' = db @ [e]"
      using assms(3) by (auto simp: record_execution_def result_ok)
    with write_usage_ok assms(1) show ?thesis
      by (auto simp: blank_execution_def intro!: keeps_snoc)
  next
    case (ExecCancel now i)
    then consider "db' = db"
      | e where "find (\<lambda>e. ex_id e = i) db = Some e" "ex_status e = X_RUNNING"
          "db' = update_row i (\<lambda>e. e\<lparr>cancel_requested_at := Some now\<rparr>) db"
      using assms(3)
      by (auto simp: request_execution_cancel_def split: option.splits if_splits)
    then show ?thesis
    proof cases
      case 2
      have "\<not> is_sealed a" if "a \<in> set db" "ex_id a = i" for a
        using unique_row [OF assms(1) that(1), of e] find_row [OF 2(1)] 2(2) that(2)
        by (auto simp: is_sealed_def)
      then show ?thesis
        unfolding 2(3) update_row_def using rows assms(1)
        by (intro keeps_map) (auto simp: row_ok_def)
    qed (simp add: same)
  next
    case (ExecFinalize now cat i res)
    then consider "db' = db"
      | e e' where "find (\<lambda>e. ex_id e = i) db = Some e" "finalize_row now cat res e = Inr e'"
          "db' = update_row i (\<lambda>_. e') db"
      using assms(3)
      by (auto simp: finalize_execution_def result_ok split: option.splits)
    then show ?thesis
    proof cases
      case 2
      note e = find_row [OF 2(1)]
      have "ex_id e' = i \<and> row_ok e' \<and> (is_sealed a \<longrightarrow> same_outcome a e')"
        if "a \<in> set db" "ex_id a = i" for a
        using unique_row [OF assms(1) that(1), of e] e that(2) finalize_row_ok [OF 2(2)] rows
        by auto
      then show ?thesis
        unfolding 2(3) update_row_def using rows assms(1) by (intro keeps_map) auto
    qed (simp add: same)
  next
    case (ExecSupersede now task)
    with assms(1,3) rows supersede_row_facts show ?thesis
      by (auto simp: supersede_running_executions_def intro!: keeps_map)
  next
    case (ExecCancelTask now task)
    with assms(1,3) rows cancel_row_facts show ?thesis
      by (auto simp: cancel_running_executions_for_task_def intro!: keeps_map)
  next
    case (ExecSeal now i st code out)
    with assms rows seal_row [of _ st] show ?thesis
      by (auto simp: update_row_def intro!: keeps_map)
  qed
qed

lemma drive_exec_keeps:
  assumes "table_ok db" and "\<forall>c \<in> set cs. seals_terminal c"
  shows "keeps db (drive do_exec_call cs db)"
  using assms
proof (induction cs arbitrary: db)
  case Nil
  then show ?case by (simp add: keeps_refl)
next
  case (Cons c cs)
  have k: "keeps db (settle db (do_exec_call c db))"
    using Cons.prems do_exec_call_keeps [of db c] keeps_refl
    by (cases "do_exec_call c db") auto
  with Cons have "keeps (settle db (do_exec_call c db)) (drive do_exec_call (c # cs) db)"
    by (simp add: keeps_def)
  with k show ?case
    unfolding keeps_def by (meson same_outcome_sealed same_outcome_trans)
qed

lemma table_ok_Nil: "table_ok []"
  by (simp add: table_ok_def)



text \<open>
  C28. A finished run is final: once a row is sealed, no later call, in particular no late
  or duplicate finalisation, no supersede and no cancellation, changes its status, abort
  code, output, completion time, tokens or cost; only a longer step log may be folded in.
\<close>

theorem sealed_execution_final:
  assumes "\<forall>c \<in> set (cs @ ds). seals_terminal c"
    and "e \<in> set (drive do_exec_call cs [])" and "is_sealed e"
  shows "\<exists>e' \<in> set (drive do_exec_call (cs @ ds) []). same_outcome e e'"
proof -
  have "table_ok (drive do_exec_call cs [])"
    using drive_exec_keeps [OF table_ok_Nil, of cs] assms(1) by (simp add: keeps_def)
  then have "keeps (drive do_exec_call cs []) (drive do_exec_call ds (drive do_exec_call cs []))"
    using assms(1) by (intro drive_exec_keeps) auto
  then show ?thesis
    using assms(2,3) by (simp add: keeps_def drive_append)
qed

lemma sealed_execution_final_witness:
  "\<exists>e' \<in> set (drive do_exec_call
       ([ExecCreate ''t'', ExecSupersede 5 ''t''] @ [ExecCancelTask 6 ''t'', ExecCreate ''t'']) []).
     ex_status e' = X_FAILED \<and> completed_at e' = Some 5"
proof -
  let ?e = "fst (seal_terminal_execution 5 X_FAILED (Some ''superseded'')
      (Some ''superseded by a re-delivered execution (worker retry)'') (blank_execution 0 ''t''))"
  have e: "?e \<in> set (drive do_exec_call [ExecCreate ''t'', ExecSupersede 5 ''t''] [])"
    by (simp add: create_running_execution_def supersede_running_executions_def supersede_row_def
        blank_execution_def)
  have "is_sealed ?e" "ex_status ?e = X_FAILED" "completed_at ?e = Some 5"
    by (simp_all add: seal_terminal_execution_def is_sealed_def blank_execution_def)
  with sealed_execution_final [OF _ e, of "[ExecCancelTask 6 ''t'', ExecCreate ''t'']"]
  show ?thesis by (auto simp: same_outcome_def)
qed

text \<open>
  Redelivery is idempotent: superseding the running rows of a task and opening a new
  one leaves exactly one running row of that task, and a row the operator had asked to
  cancel is closed as cancelled, not as failed.
\<close>

theorem supersede_leaves_one_live:
  "filter (\<lambda>e. ex_task e = task \<and> ex_status e = X_RUNNING)
      (create_running_execution task (supersede_running_executions now task db))
     = [blank_execution (length db) task]
   \<and> (\<forall>e \<in> set db. ex_task e = task \<and> ex_status e = X_RUNNING \<and> cancel_requested_at e \<noteq> None
        \<longrightarrow> ex_status (supersede_row now task e) = X_CANCELLED)"
proof -
  have "\<not> (ex_task (supersede_row now task e) = task
          \<and> ex_status (supersede_row now task e) = X_RUNNING)" for e
    by (auto simp: supersede_row_def seal_terminal_execution_def is_sealed_def)
  then have "filter (\<lambda>e. ex_task e = task \<and> ex_status e = X_RUNNING)
      (supersede_running_executions now task db) = []"
    by (simp add: supersede_running_executions_def filter_empty_conv)
  moreover have "length (supersede_running_executions now task db) = length db"
    by (simp add: supersede_running_executions_def)
  moreover have "ex_status (supersede_row now task e) = X_CANCELLED"
    if "ex_task e = task" "ex_status e = X_RUNNING" "cancel_requested_at e \<noteq> None" for e
    using that by (auto simp: supersede_row_def seal_terminal_execution_def is_sealed_def)
  ultimately show ?thesis
    by (simp add: create_running_execution_def blank_execution_def)
qed

lemma supersede_leaves_one_live_witness:
  "filter (\<lambda>e. ex_task e = ''t'' \<and> ex_status e = X_RUNNING)
      (create_running_execution ''t'' (supersede_running_executions 5 ''t''
         [(blank_execution 0 ''t'')\<lparr>cancel_requested_at := Some 3\<rparr>, blank_execution 1 ''t'']))
     = [blank_execution 2 ''t'']
   \<and> ex_status (supersede_row 5 ''t'' ((blank_execution 0 ''t'')\<lparr>cancel_requested_at := Some 3\<rparr>))
       = X_CANCELLED"
  using supersede_leaves_one_live [where task = "''t''" and now = 5
      and db = "[(blank_execution 0 ''t'')\<lparr>cancel_requested_at := Some 3\<rparr>, blank_execution 1 ''t'']"]
  by (simp add: blank_execution_def numeral_2_eq_2)

end
