(* ===== verification/TaskBoard.thy ===== *)
theory TaskBoard
  imports PlanDag PlanProgress Executions
begin

text \<open>
  The board of a project: its tasks, the dependency rows between them, their executions
  and approval requests, and the plans they belong to. The operations are the endpoints of
  \<^verbatim>\<open>apps/api-server/src/api_server/routers/tasks.py\<close> and
  \<^verbatim>\<open>routers/task_lifecycle.py\<close>, the dependency gate of
  \<^verbatim>\<open>chat/dag_enforcement.py\<close>, the promotion of \<^verbatim>\<open>dag_promotion.py\<close> and the
  database trigger that promotes the dependents of a finished task. Reads of the tenant
  and of the principal are arguments; publication of events after the commit and the
  descriptive columns of a task are left out.
\<close>

section \<open>State\<close>

record board_task =
  bt_id :: string
  bt_status :: task_status
  bt_plan :: "string option"
  bt_retry_count :: int

datatype human_action =
    ApproveManual | ReassignWithGuidance | BlockWithReason | CancelTask | RetryTask

record audit_event =
  au_task :: string
  au_actor :: nat
  au_action :: human_action
  au_reason :: "string option"
  au_guidance :: "string option"

record board =
  tasks :: "board_task list"
  deps :: "(string \<times> string) list"
  execs :: executions
  requests :: "approval_request list"
  plans :: "(string \<times> plan) list"
  audit :: "audit_event list"

record pending_dependency =
  pd_task :: string
  pd_status :: task_status

datatype board_error =
    TaskNotFound
  | DependenciesNotDone task_status "pending_dependency list"
  | IllegalTransition task_status task_status
  | DependencyNotFound "string list"
  | CrossPlanDependency "string list"
  | DagCycle "string list"
  | GraphError dag_error
  | IntegrityConflict
  | TaskHasDependents nat
  | BoardProjectNotActive
  | InvalidInitialTaskStatus
  | PlanNotInProject string
  | HumanActionConflict task_status

definition task_ids :: "board \<Rightarrow> string set" where
  "task_ids b = bt_id ` set (tasks b)"

definition find_task :: "board \<Rightarrow> string \<Rightarrow> board_task option" where
  "find_task b i = find (\<lambda>t. bt_id t = i) (tasks b)"

section \<open>The dependency gate\<close>

definition gated_target_statuses :: "task_status set" where
  "gated_target_statuses = {T_READY, T_IN_PROGRESS, T_AWAITING_HUMAN_APPROVAL, T_IN_REVIEW}"

text \<open>The join of the dependency rows of a task with the tasks they point at.\<close>

definition dependency_tasks :: "board \<Rightarrow> string \<Rightarrow> board_task list" where
  "dependency_tasks b i =
     concat (map (\<lambda>(t, d). if t = i then filter (\<lambda>x. bt_id x = d) (tasks b) else []) (deps b))"

definition assert_dependencies_done ::
  "board \<Rightarrow> string \<Rightarrow> task_status \<Rightarrow> (board_error, unit) result" where
  "assert_dependencies_done b i target =
     (if target \<notin> gated_target_statuses then Inr ()
      else
        let pending = map (\<lambda>x. \<lparr>pd_task = bt_id x, pd_status = bt_status x\<rparr>)
                        (filter (\<lambda>x. bt_status x \<noteq> T_DONE) (dependency_tasks b i))
        in if pending \<noteq> [] then Inl (DependenciesNotDone target pending) else Inr ())"

section \<open>Promotion\<close>

definition unmet_dependency :: "board \<Rightarrow> string \<Rightarrow> bool" where
  "unmet_dependency b i \<longleftrightarrow>
     (\<exists>(t, d) \<in> set (deps b). t = i \<and> (\<exists>x \<in> set (tasks b). bt_id x = d \<and> bt_status x \<noteq> T_DONE))"

text \<open>The body of the trigger: the task \<open>i\<close> has just become done.\<close>

definition fn_compute_task_ready :: "string \<Rightarrow> board \<Rightarrow> board" where
  "fn_compute_task_ready i b =
     b\<lparr>tasks := map (\<lambda>t. if bt_status t = T_BACKLOG \<and> (bt_id t, i) \<in> set (deps b)
                            \<and> \<not> unmet_dependency b (bt_id t)
                        then t\<lparr>bt_status := T_READY\<rparr> else t) (tasks b)\<rparr>"

text \<open>An UPDATE of the row of one task, with the trigger behind it.\<close>

definition write_task :: "string \<Rightarrow> (board_task \<Rightarrow> board_task) \<Rightarrow> board \<Rightarrow> board" where
  "write_task i f b =
     (let b1 = b\<lparr>tasks := map (\<lambda>t. if bt_id t = i then f t else t) (tasks b)\<rparr>
      in case find_task b i of
           Some t \<Rightarrow> if bt_status (f t) = T_DONE \<and> bt_status t \<noteq> T_DONE
                     then fn_compute_task_ready i b1 else b1
         | None \<Rightarrow> b1)"

definition active_execution_statuses :: "exec_status set" where
  "active_execution_statuses = {X_RUNNING, X_AWAITING_HUMAN_APPROVAL}"

definition has_live_execution :: "board \<Rightarrow> string \<Rightarrow> bool" where
  "has_live_execution b i \<longleftrightarrow>
     (\<exists>e \<in> set (execs b). ex_task e = i \<and> ex_status e \<in> active_execution_statuses)"

definition eligible_ids :: "board \<Rightarrow> string \<Rightarrow> string list" where
  "eligible_ids b plan =
     map bt_id (filter (\<lambda>t. bt_plan t = Some plan \<and> bt_status t = T_BACKLOG
                           \<and> \<not> unmet_dependency b (bt_id t)) (tasks b))"

definition promote_ready_tasks :: "string \<Rightarrow> board \<Rightarrow> board \<times> board_task list" where
  "promote_ready_tasks plan b =
     (let eligible = eligible_ids b plan;
          b1 = b\<lparr>tasks := map (\<lambda>t. if bt_id t \<in> set eligible then t\<lparr>bt_status := T_READY\<rparr> else t)
                           (tasks b)\<rparr>
      in (b1, filter (\<lambda>t. bt_plan t = Some plan \<and> bt_status t = T_READY
                          \<and> \<not> has_live_execution b1 (bt_id t)) (tasks b1)))"

section \<open>Dependencies\<close>

definition append_edge :: "string \<times> string \<Rightarrow> nodes \<Rightarrow> nodes" where
  "append_edge e es = AList.update (fst e) (deps_of es (fst e) @ [snd e]) es"

definition project_edges :: "board \<Rightarrow> nodes" where
  "project_edges b =
     foldl (\<lambda>es e. append_edge e es) (map (\<lambda>t. (bt_id t, [])) (tasks b))
       (filter (\<lambda>e. fst e \<in> task_ids b) (deps b))"

definition assert_no_dependency_cycle ::
  "string \<Rightarrow> string list \<Rightarrow> board \<Rightarrow> (board_error, unit) result" where
  "assert_no_dependency_cycle i ds b =
     (case assert_acyclic_with_override (project_edges b) i ds of
        Inr u \<Rightarrow> Inr ()
      | Inl (DAGCycleError c) \<Rightarrow> Inl (DagCycle c)
      | Inl e \<Rightarrow> Inl (GraphError e))"

text \<open>Delete the rows of the task, insert the new ones; the flush checks the constraints.\<close>

definition write_dependencies ::
  "string \<Rightarrow> string list \<Rightarrow> board \<Rightarrow> (board_error, board) result" where
  "write_dependencies i ds b =
     (if \<not> distinct ds \<or> i \<in> set ds then Inl IntegrityConflict
      else Inr (b\<lparr>deps := filter (\<lambda>e. fst e \<noteq> i) (deps b) @ map (Pair i) ds\<rparr>))"

definition set_dependencies ::
  "string \<Rightarrow> string list \<Rightarrow> board \<Rightarrow> (board_error, board) result" where
  "set_dependencies i ds b =
     (if ds = [] then write_dependencies i ds b
      else
        let rows = filter (\<lambda>t. bt_id t \<in> set ds) (tasks b);
            missing = filter (\<lambda>d. d \<notin> bt_id ` set rows) ds;
            this_plan = (case find_task b i of Some t \<Rightarrow> bt_plan t | None \<Rightarrow> None);
            cross = map bt_id (filter (\<lambda>t. bt_plan t \<noteq> this_plan) rows)
        in if missing \<noteq> [] then Inl (DependencyNotFound (sort (remdups missing)))
           else if cross \<noteq> [] then Inl (CrossPlanDependency (sort cross))
           else bindr (assert_no_dependency_cycle i ds b) (\<lambda>_. write_dependencies i ds b))"

section \<open>Plans that are no longer stuck\<close>

definition plan_snapshots :: "board \<Rightarrow> string \<Rightarrow> task_snapshot list" where
  "plan_snapshots b plan =
     map (\<lambda>t. \<lparr>snap_id = bt_id t, snap_status = bt_status t, cost_eur = Finite 0,
               snap_deps = map snd (filter (\<lambda>e. fst e = bt_id t) (deps b))\<rparr>)
       (filter (\<lambda>t. bt_plan t = Some plan) (tasks b))"

definition reactivate_plan_if_unstuck :: "instant \<Rightarrow> string \<Rightarrow> board \<Rightarrow> board" where
  "reactivate_plan_if_unstuck now plan b =
     (case map_of (plans b) plan of
        None \<Rightarrow> b
      | Some p \<Rightarrow>
          if plan_status p \<noteq> P_BLOCKED then b
          else if transitioned (transition_from_blocked (plan_status p) (plan_snapshots b plan))
          then b\<lparr>plans := AList.update plan
                   (settle p (transition_plan_status now None P_IN_PROGRESS p)) (plans b)\<rparr>
          else b)"

definition reactivate_opt :: "instant \<Rightarrow> string option \<Rightarrow> board \<Rightarrow> board" where
  "reactivate_opt now plan b =
     (case plan of None \<Rightarrow> b | Some p \<Rightarrow> reactivate_plan_if_unstuck now p b)"

section \<open>The endpoints\<close>

record task_create =
  tc_status :: task_status
  tc_plan :: "string option"
  tc_deps :: "string list"

definition create_task ::
  "instant \<Rightarrow> bool \<Rightarrow> string \<Rightarrow> task_create \<Rightarrow> board \<Rightarrow> (board_error, board) result" where
  "create_task now project_active new_id payload b =
     (if \<not> project_active then Inl BoardProjectNotActive
      else if tc_status payload \<notin> {T_BACKLOG, T_READY} then Inl InvalidInitialTaskStatus
      else if (case tc_plan payload of None \<Rightarrow> False | Some p \<Rightarrow> map_of (plans b) p = None)
      then Inl (PlanNotInProject (the (tc_plan payload)))
      else if new_id \<in> task_ids b then Inl IntegrityConflict
      else
        let b1 = b\<lparr>tasks := tasks b @ [\<lparr>bt_id = new_id, bt_status = tc_status payload,
                     bt_plan = tc_plan payload, bt_retry_count = 0\<rparr>]\<rparr>
        in bindr (if tc_deps payload = [] then Inr b1
                  else set_dependencies new_id (tc_deps payload) b1)
             (\<lambda>b2. Inr (reactivate_opt now (tc_plan payload) b2)))"

text \<open>
  In an update a field that was not sent is None; a plan that was sent as null is
  \<open>Some None\<close>, and so are the dependencies, which \<^verbatim>\<open>payload.depends_on or []\<close> makes
  the empty list.
\<close>

record task_update =
  tu_status :: "task_status option"
  tu_plan :: "string option option"
  tu_deps :: "string list option option"

definition check_status_move ::
  "bool \<Rightarrow> bool \<Rightarrow> board \<Rightarrow> board_task \<Rightarrow> task_status \<Rightarrow> (board_error, unit) result" where
  "check_status_move admin force b t target =
     (if target = bt_status t then Inr ()
      else bindr (assert_dependencies_done b (bt_id t) target) (\<lambda>_.
             if target \<notin> allowed_transitions None (bt_status t)
                \<and> \<not> (force \<and> target \<noteq> T_DONE \<and> admin)
             then Inl (IllegalTransition (bt_status t) target) else Inr ()))"

definition changed_task :: "task_update \<Rightarrow> board_task \<Rightarrow> board_task" where
  "changed_task payload t =
     t\<lparr>bt_status := (case tu_status payload of Some s \<Rightarrow> s | None \<Rightarrow> bt_status t),
       bt_plan := (case tu_plan payload of Some p \<Rightarrow> p | None \<Rightarrow> bt_plan t)\<rparr>"

definition cancel_board_executions :: "instant \<Rightarrow> string \<Rightarrow> board \<Rightarrow> board" where
  "cancel_board_executions now i b =
     (let (es, qs) = cancel_running_executions_for_task now i (execs b) (requests b)
      in b\<lparr>execs := es, requests := qs\<rparr>)"

definition after_update :: "instant \<Rightarrow> board_task \<Rightarrow> board_task \<Rightarrow> bool \<Rightarrow> board \<Rightarrow> board" where
  "after_update now old new deps_change b =
     (if bt_status new \<noteq> bt_status old
      then let b1 = (if bt_status old = T_BLOCKED then reactivate_opt now (bt_plan new) b else b)
           in if bt_status new = T_CANCELLED then cancel_board_executions now (bt_id new) b1 else b1
      else if deps_change then reactivate_opt now (bt_plan new) b else b)"

definition update_task ::
  "instant \<Rightarrow> bool \<Rightarrow> bool \<Rightarrow> string \<Rightarrow> task_update \<Rightarrow> board \<Rightarrow> (board_error, board) result" where
  "update_task now admin force i payload b =
     (case find_task b i of
        None \<Rightarrow> Inl TaskNotFound
      | Some old \<Rightarrow>
          bindr (case tu_status payload of None \<Rightarrow> Inr ()
                 | Some s \<Rightarrow> check_status_move admin force b old s) (\<lambda>_.
          let new = changed_task payload old;
              b1 = write_task i (changed_task payload) b;
              b2 = (if bt_plan new \<noteq> bt_plan old
                    then reactivate_opt now (bt_plan new) (reactivate_opt now (bt_plan old) b1)
                    else b1)
          in bindr (case tu_deps payload of None \<Rightarrow> Inr b2
                    | Some ds \<Rightarrow> set_dependencies i (case ds of Some xs \<Rightarrow> xs | None \<Rightarrow> []) b2)
               (\<lambda>b3. Inr (after_update now old new (tu_deps payload \<noteq> None) b3))))"

definition delete_task :: "instant \<Rightarrow> string \<Rightarrow> board \<Rightarrow> (board_error, board) result" where
  "delete_task now i b =
     (case find_task b i of
        None \<Rightarrow> Inl TaskNotFound
      | Some t \<Rightarrow>
          let dependents = filter (\<lambda>e. snd e = i) (deps b)
          in if dependents \<noteq> [] then Inl (TaskHasDependents (length dependents))
             else Inr (reactivate_opt now (bt_plan t)
                    (b\<lparr>tasks := filter (\<lambda>x. bt_id x \<noteq> i) (tasks b),
                       deps := filter (\<lambda>e. fst e \<noteq> i \<and> snd e \<noteq> i) (deps b)\<rparr>)))"

definition apply_task_retry :: "string \<Rightarrow> board \<Rightarrow> board" where
  "apply_task_retry i b =
     write_task i (\<lambda>t. t\<lparr>bt_status :=
         (case assert_dependencies_done b i T_READY of Inr _ \<Rightarrow> T_READY | Inl _ \<Rightarrow> T_BACKLOG),
         bt_retry_count := 0\<rparr>) b"

fun action_target :: "human_action \<Rightarrow> task_status" where
  "action_target ApproveManual = T_DONE"
| "action_target ReassignWithGuidance = T_BACKLOG"
| "action_target BlockWithReason = T_BLOCKED"
| "action_target CancelTask = T_CANCELLED"
| "action_target RetryTask = T_READY"

definition apply_human_action ::
  "instant \<Rightarrow> nat \<Rightarrow> human_action \<Rightarrow> string option \<Rightarrow> string option \<Rightarrow> string \<Rightarrow> board
     \<Rightarrow> (board_error, board) result" where
  "apply_human_action now user action rsn guidance i b =
     (case find_task b i of
        None \<Rightarrow> Inl TaskNotFound
      | Some t \<Rightarrow>
          if bt_status t \<notin> {T_AWAITING_HUMAN_APPROVAL, T_BLOCKED}
          then Inl (HumanActionConflict (bt_status t))
          else
            let b1 = (if action = RetryTask then apply_task_retry i b
                      else write_task i (\<lambda>t. t\<lparr>bt_status := action_target action,
                             bt_retry_count := bt_retry_count t
                               + (if action = ReassignWithGuidance then 1 else 0)\<rparr>) b);
                b2 = (if bt_status t = T_BLOCKED then reactivate_opt now (bt_plan t) b1 else b1)
            in Inr (b2\<lparr>audit := audit b2 @ [\<lparr>au_task = i, au_actor = user, au_action = action,
                         au_reason = (if rsn = Some [] then None else rsn),
                         au_guidance = (if guidance = Some [] then None else guidance)\<rparr>]\<rparr>))"

section \<open>One request\<close>

datatype board_call =
    CreateTask instant bool string task_create
  | UpdateTask instant bool bool string task_update
  | DeleteTask instant string
  | HumanAction instant nat human_action "string option" "string option" string
  | Promote string

fun do_board_call :: "board_call \<Rightarrow> board \<Rightarrow> (board_error, board) result" where
  "do_board_call (CreateTask now active i p) b = create_task now active i p b"
| "do_board_call (UpdateTask now admin force i p) b = update_task now admin force i p b"
| "do_board_call (DeleteTask now i) b = delete_task now i b"
| "do_board_call (HumanAction now u a r g i) b = apply_human_action now u a r g i b"
| "do_board_call (Promote plan) b = Inr (fst (promote_ready_tasks plan b))"

end
