(* ===== verification/BoardProperties.thy ===== *)
theory BoardProperties
  imports TaskBoard
begin

text \<open>
  What the board guarantees: the dependency graph of a project stays acyclic and within
  the project under every sequence of requests, promotion moves exactly the tasks whose
  dependencies are done, a status move can not fake a finished task, and a cancelled task
  leaves nothing behind that would resume it. The last theorems show where the dependency
  gate can be passed by.
\<close>

section \<open>The dependency graph\<close>

definition board_ok :: "board \<Rightarrow> bool" where
  "board_ok b \<longleftrightarrow> distinct (map bt_id (tasks b)) \<and> distinct (deps b)
     \<and> set (deps b) \<subseteq> task_ids b \<times> task_ids b
     \<and> acyclic (set (deps b))"

definition same_graph :: "board \<Rightarrow> board \<Rightarrow> bool" where
  "same_graph b b' \<longleftrightarrow> map bt_id (tasks b') = map bt_id (tasks b) \<and> deps b' = deps b"

lemma same_graph_refl [simp]: "same_graph b b"
  by (simp add: same_graph_def)

lemma same_graph_trans: "same_graph a b \<Longrightarrow> same_graph b c \<Longrightarrow> same_graph a c"
  by (simp add: same_graph_def)

lemma same_graph_ids: "same_graph b b' \<Longrightarrow> task_ids b' = task_ids b"
  unfolding task_ids_def same_graph_def by (metis list.set_map)

lemma board_ok_same_graph: "same_graph b b' \<Longrightarrow> board_ok b \<Longrightarrow> board_ok b'"
  using same_graph_ids [of b b'] by (simp add: board_ok_def same_graph_def)

lemma same_graph_map:
  "(\<And>t. bt_id (f t) = bt_id t) \<Longrightarrow> same_graph b (b\<lparr>tasks := map f (tasks b)\<rparr>)"
  by (simp add: same_graph_def)

lemma same_graph_trigger: "same_graph b (fn_compute_task_ready i b)"
  unfolding fn_compute_task_ready_def by (rule same_graph_map) simp

lemma same_graph_write:
  assumes "\<And>t. bt_id (f t) = bt_id t"
  shows "same_graph b (write_task i f b)"
proof -
  let ?b1 = "b\<lparr>tasks := map (\<lambda>t. if bt_id t = i then f t else t) (tasks b)\<rparr>"
  have "same_graph b ?b1" by (rule same_graph_map) (simp add: assms)
  with same_graph_trans [OF this same_graph_trigger] show ?thesis
    by (simp add: write_task_def Let_def split: option.splits)
qed

lemma same_graph_promote: "same_graph b (fst (promote_ready_tasks plan b))"
  unfolding promote_ready_tasks_def Let_def fst_conv by (rule same_graph_map) simp

lemma same_graph_reactivate: "same_graph b (reactivate_opt now plan b)"
  by (simp add: reactivate_opt_def reactivate_plan_if_unstuck_def same_graph_def
      split: option.splits)

lemma same_graph_cancel: "same_graph b (cancel_board_executions now i b)"
  by (simp add: cancel_board_executions_def same_graph_def split: prod.splits)

lemma same_graph_after: "same_graph b (after_update now old new dc b)"
  using same_graph_trans [OF same_graph_reactivate same_graph_cancel]
  by (simp add: after_update_def Let_def same_graph_reactivate same_graph_cancel)

lemma deps_of_append_edge:
  "deps_of (append_edge e es) a = (if a = fst e then deps_of es a @ [snd e] else deps_of es a)"
  by (simp add: append_edge_def deps_of_def update_conv')

lemma deps_of_foldl_edges:
  "set (deps_of (foldl (\<lambda>es e. append_edge e es) es xs) a)
     = set (deps_of es a) \<union> {d. (a, d) \<in> set xs}"
proof (induction xs arbitrary: es)
  case (Cons x xs)
  then show ?case by (cases x) (auto simp: deps_of_append_edge)
qed simp

lemma deps_of_no_edges: "deps_of (map (\<lambda>t. (f t, [])) ts) a = []"
  by (induction ts) (simp_all add: deps_of_def)

lemma keys_foldl_edges:
  "fst ` set es \<subseteq> fst ` set (foldl (\<lambda>es e. append_edge e es) es xs)"
proof (induction xs arbitrary: es)
  case (Cons x xs)
  have "fst ` set es \<subseteq> fst ` set (append_edge x es)"
    by (auto simp: append_edge_def dom_map_of_conv_image_fst [symmetric] update_conv')
  with Cons show ?case by force
qed simp

lemma distinct_foldl_edges:
  "distinct (map fst es) \<Longrightarrow> distinct (map fst (foldl (\<lambda>es e. append_edge e es) es xs))"
  by (induction xs arbitrary: es) (simp_all add: append_edge_def distinct_update)

lemma build_nodes_refs:
  "distinct (map fst (acc @ es)) \<Longrightarrow>
     build_nodes acc (map (\<lambda>(k, v). RawRef \<lparr>ref_id = k, depends_on = v\<rparr>) es) = Inr (acc @ es)"
proof (induction es arbitrary: acc)
  case (Cons e es)
  then show ?case by (cases e) (auto simp: coerce_task_def)
qed simp

text \<open>The check an edit goes through covers the rows the edit leads to.\<close>

lemma no_cycle_after_edit:
  assumes "distinct (map bt_id (tasks b))" and "assert_no_dependency_cycle i ds b = Inr ()"
    and "set (deps b) \<subseteq> task_ids b \<times> task_ids b" and "set ds \<subseteq> task_ids b"
  shows "acyclic ({(t, d). (t, d) \<in> set (deps b) \<and> t \<noteq> i} \<union> {i} \<times> set ds)"
proof -
  let ?es = "project_edges b"
  let ?merged = "AList.update i ds ?es"
  have dist: "distinct (map fst ?es)"
    unfolding project_edges_def using assms(1)
    by (intro distinct_foldl_edges) (simp add: comp_def)
  have ids: "task_ids b \<subseteq> fst ` set ?es"
    using keys_foldl_edges [of "map (\<lambda>t. (bt_id t, [])) (tasks b)"]
    by (force simp: project_edges_def task_ids_def)
  have upd: "fst ` set ?merged = insert i (fst ` set ?es)"
    by (simp add: dom_map_of_conv_image_fst [symmetric] update_conv' dom_fun_upd)
  have "validate_dag (map (\<lambda>(k, v). RawRef \<lparr>ref_id = k, depends_on = v\<rparr>) ?merged) = Inr ()"
    using assms(2)
    by (auto simp: assert_no_dependency_cycle_def assert_acyclic_with_override_def
        split: sum.splits dag_error.splits)
  moreover have "build_nodes [] (map (\<lambda>(k, v). RawRef \<lparr>ref_id = k, depends_on = v\<rparr>) ?merged)
      = Inr ?merged"
    using build_nodes_refs [of "[]" ?merged] distinct_update [OF dist] by simp
  ultimately have "acyclic (edges ?merged)"
    using check_nodes_ok(1) by (simp add: validate_dag_def)
  moreover have "{(t, d). (t, d) \<in> set (deps b) \<and> t \<noteq> i} \<union> {i} \<times> set ds \<subseteq> edges ?merged"
  proof -
    have deps_es: "set (deps_of ?es t) = {d. (t, d) \<in> set (deps b) \<and> t \<in> task_ids b}" for t
      by (simp add: project_edges_def deps_of_foldl_edges deps_of_no_edges)
    have deps_merged: "deps_of ?merged t = (if t = i then ds else deps_of ?es t)" for t
      by (simp add: deps_of_def update_conv')
    have "x \<in> edges ?merged"
      if "x \<in> {(t, d). (t, d) \<in> set (deps b) \<and> t \<noteq> i} \<union> {i} \<times> set ds" for x
    proof -
      obtain t d where x: "x = (t, d)" by fastforce
      have "d \<in> task_ids b" using that x assms(3,4) by auto
      then have "d \<in> keys ?merged" using ids upd by (auto simp: keys_def)
      moreover have "d \<in> set (deps_of ?merged t)"
        using that x assms(3) deps_merged deps_es by auto
      ultimately show ?thesis by (simp add: x edges_def)
    qed
    then show ?thesis by blast
  qed
  ultimately show ?thesis by (rule acyclic_subset)
qed

lemma find_task_Some: "find_task b i = Some t \<Longrightarrow> t \<in> set (tasks b) \<and> bt_id t = i"
  by (auto simp: find_task_def find_Some_iff)

lemma write_dependencies_ok:
  assumes "write_dependencies i ds b = Inr b'" and "board_ok b" and "i \<in> task_ids b"
    and "set ds \<subseteq> task_ids b"
    and "acyclic ({(t, d). (t, d) \<in> set (deps b) \<and> t \<noteq> i} \<union> {i} \<times> set ds)"
  shows "board_ok b'"
proof -
  have b': "b' = b\<lparr>deps := filter (\<lambda>e. fst e \<noteq> i) (deps b) @ map (Pair i) ds\<rparr>"
    and ds: "distinct ds"
    using assms(1) by (auto simp: write_dependencies_def split: if_splits)
  have "distinct (filter (\<lambda>e. fst e \<noteq> i) (deps b) @ map (Pair i) ds)"
    using assms(2) ds by (auto simp: board_ok_def distinct_map inj_on_def)
  moreover have "set (filter (\<lambda>e. fst e \<noteq> i) (deps b) @ map (Pair i) ds)
      = {(t, d). (t, d) \<in> set (deps b) \<and> t \<noteq> i} \<union> {i} \<times> set ds"
    by auto
  ultimately show ?thesis
    using assms(2-5) unfolding b' board_ok_def task_ids_def by auto
qed

lemma set_dependencies_ok:
  assumes "set_dependencies i ds b = Inr b'" and "board_ok b" and "i \<in> task_ids b"
  shows "board_ok b'"
proof (cases "ds = []")
  case True
  have "acyclic (set (deps b))" using assms(2) by (simp add: board_ok_def)
  then have "acyclic ({(t, d). (t, d) \<in> set (deps b) \<and> t \<noteq> i} \<union> {i} \<times> set [])"
    by (rule acyclic_subset) auto
  moreover have "write_dependencies i [] b = Inr b'"
    using True assms(1) by (simp add: set_dependencies_def)
  ultimately show ?thesis
    using write_dependencies_ok [of i "[]" b b'] assms(2,3) by simp
next
  case False
  then have found: "filter (\<lambda>d. d \<notin> bt_id ` {t \<in> set (tasks b). bt_id t \<in> set ds}) ds = []"
    and c: "assert_no_dependency_cycle i ds b = Inr ()"
    and w: "write_dependencies i ds b = Inr b'"
    using assms(1) by (auto simp: set_dependencies_def Let_def bindr_Inr_iff split: if_splits)
  have ids: "set ds \<subseteq> task_ids b"
    using found by (auto simp: filter_empty_conv task_ids_def)
  have "acyclic ({(t, d). (t, d) \<in> set (deps b) \<and> t \<noteq> i} \<union> {i} \<times> set ds)"
    using assms(2) c ids by (intro no_cycle_after_edit) (auto simp: board_ok_def)
  then show ?thesis by (rule write_dependencies_ok [OF w assms(2,3) ids])
qed

lemma board_ok_add:
  assumes "board_ok b" and "bt_id t \<notin> task_ids b"
  shows "board_ok (b\<lparr>tasks := tasks b @ [t]\<rparr>)"
  using assms by (auto simp: board_ok_def task_ids_def)

lemma board_ok_delete:
  assumes "board_ok b" and "\<forall>e \<in> set (deps b). snd e \<noteq> i"
  shows "board_ok (b\<lparr>tasks := filter (\<lambda>x. bt_id x \<noteq> i) (tasks b),
      deps := filter (\<lambda>e. fst e \<noteq> i \<and> snd e \<noteq> i) (deps b)\<rparr>)"
proof -
  have "acyclic (set (deps b))" using assms(1) by (simp add: board_ok_def)
  then have "acyclic {e \<in> set (deps b). fst e \<noteq> i \<and> snd e \<noteq> i}"
    by (rule acyclic_subset) auto
  with assms show ?thesis
    by (auto simp: board_ok_def task_ids_def distinct_map_filter)
qed

lemma do_board_call_ok:
  assumes "board_ok b" and "do_board_call c b = Inr b'"
  shows "board_ok b'"
proof (cases c)
  case (CreateTask now active i p)
  let ?b1 = "b\<lparr>tasks := tasks b @ [\<lparr>bt_id = i, bt_status = tc_status p,
                     bt_plan = tc_plan p, bt_retry_count = 0\<rparr>]\<rparr>"
  from CreateTask assms(2) obtain b2
    where fresh: "i \<notin> task_ids b"
      and b2: "(if tc_deps p = [] then Inr ?b1 else set_dependencies i (tc_deps p) ?b1) = Inr b2"
      and b': "b' = reactivate_opt now (tc_plan p) b2"
    by (auto simp: create_task_def Let_def bindr_Inr_iff split: if_splits)
  have "board_ok ?b1" using assms(1) fresh by (intro board_ok_add) auto
  then have "board_ok b2"
    using b2 set_dependencies_ok [of i "tc_deps p" ?b1 b2]
    by (auto simp: task_ids_def split: if_splits)
  then show ?thesis
    unfolding b' by (rule board_ok_same_graph [OF same_graph_reactivate])
next
  case (UpdateTask now admin force i p)
  then obtain old b3 where old: "find_task b i = Some old"
    and b': "b' = after_update now old (changed_task p old) (tu_deps p \<noteq> None) b3"
    and b3: "(case tu_deps p of
          None \<Rightarrow> Inr (if bt_plan (changed_task p old) \<noteq> bt_plan old
             then reactivate_opt now (bt_plan (changed_task p old))
                    (reactivate_opt now (bt_plan old) (write_task i (changed_task p) b))
             else write_task i (changed_task p) b)
        | Some ds \<Rightarrow> set_dependencies i (case ds of Some xs \<Rightarrow> xs | None \<Rightarrow> [])
            (if bt_plan (changed_task p old) \<noteq> bt_plan old
             then reactivate_opt now (bt_plan (changed_task p old))
                    (reactivate_opt now (bt_plan old) (write_task i (changed_task p) b))
             else write_task i (changed_task p) b)) = Inr b3"
    using assms(2) by (auto simp: update_task_def Let_def bindr_Inr_iff split: option.splits)
  define b2 where "b2 = (if bt_plan (changed_task p old) \<noteq> bt_plan old
             then reactivate_opt now (bt_plan (changed_task p old))
                    (reactivate_opt now (bt_plan old) (write_task i (changed_task p) b))
             else write_task i (changed_task p) b)"
  have "same_graph b (write_task i (changed_task p) b)"
    by (rule same_graph_write) (simp add: changed_task_def)
  then have g: "same_graph b b2"
    unfolding b2_def
    by (simp add: same_graph_trans [OF _ same_graph_reactivate])
  then have "board_ok b2" by (rule board_ok_same_graph) (rule assms(1))
  moreover have "i \<in> task_ids b2"
    using find_task_Some [OF old] same_graph_ids [OF g] by (auto simp: task_ids_def)
  ultimately have "board_ok b3"
    using b3 set_dependencies_ok unfolding b2_def [symmetric] by (auto split: option.splits)
  then show ?thesis
    unfolding b' by (rule board_ok_same_graph [OF same_graph_after])
next
  case (DeleteTask now i)
  then obtain t where t: "find_task b i = Some t"
    using assms(2) by (cases "find_task b i") (auto simp: delete_task_def)
  then have b': "b' = reactivate_opt now (bt_plan t)
        (b\<lparr>tasks := filter (\<lambda>x. bt_id x \<noteq> i) (tasks b),
           deps := filter (\<lambda>e. fst e \<noteq> i \<and> snd e \<noteq> i) (deps b)\<rparr>)"
    and "\<forall>e \<in> set (deps b). snd e \<noteq> i"
    using assms(2) DeleteTask
    by (auto simp: delete_task_def Let_def filter_empty_conv split: if_splits)
  with board_ok_delete [OF assms(1)] show ?thesis
    using board_ok_same_graph [OF same_graph_reactivate] by blast
next
  case (HumanAction now u a r g i)
  define b1 where "b1 = (if a = RetryTask then apply_task_retry i b
                      else write_task i (\<lambda>t. t\<lparr>bt_status := action_target a,
                             bt_retry_count := bt_retry_count t
                               + (if a = ReassignWithGuidance then 1 else 0)\<rparr>) b)"
  have "same_graph b b1"
    unfolding b1_def apply_task_retry_def by (simp add: same_graph_write)
  then have g2: "same_graph b (if x then reactivate_opt now pl b1 else b1)" for x pl
    by (simp add: same_graph_trans [OF _ same_graph_reactivate])
  obtain t where t: "find_task b i = Some t"
    using HumanAction assms(2) by (cases "find_task b i") (auto simp: apply_human_action_def)
  let ?b2 = "if bt_status t = T_BLOCKED then reactivate_opt now (bt_plan t) b1 else b1"
  have r: "apply_human_action now u a r g i b = Inr b'"
    using HumanAction assms(2) by simp
  then have guard: "\<not> (bt_status t \<notin> {T_AWAITING_HUMAN_APPROVAL, T_BLOCKED})"
    by (auto simp: apply_human_action_def t split: if_splits)
  have "b' = ?b2\<lparr>audit := audit ?b2 @ [\<lparr>au_task = i, au_actor = u, au_action = a,
      au_reason = (if r = Some [] then None else r),
      au_guidance = (if g = Some [] then None else g)\<rparr>]\<rparr>"
    using r unfolding apply_human_action_def t option.case if_not_P [OF guard] Let_def b1_def
    by (simp only: sum.inject)
  then have "same_graph b b'"
    using g2 [of "bt_status t = T_BLOCKED" "bt_plan t"] by (simp add: same_graph_def)
  then show ?thesis using assms(1) by (rule board_ok_same_graph)
next
  case (Promote plan)
  with assms board_ok_same_graph [OF same_graph_promote] show ?thesis by auto
qed

text \<open>
  C6. The dependency graph of a project stays sound under every sequence of requests,
  whatever their order: starting from a sound board, creations, updates, deletions, human
  actions and promotions never close a dependency cycle, never duplicate a row and never
  leave a row that points at a task that is gone.
\<close>

theorem dependency_graph_stays_acyclic:
  assumes "board_ok b"
  shows "acyclic (set (deps (drive do_board_call cs b)))
     \<and> distinct (deps (drive do_board_call cs b))
     \<and> set (deps (drive do_board_call cs b))
          \<subseteq> task_ids (drive do_board_call cs b) \<times> task_ids (drive do_board_call cs b)"
proof -
  have "board_ok (drive do_board_call cs b)"
    by (rule drive_invariant [where I = board_ok]) (rule do_board_call_ok, auto intro: assms)
  then show ?thesis by (simp add: board_ok_def)
qed

definition empty_board :: board where
  "empty_board = \<lparr>tasks = [], deps = [], execs = [], requests = [], plans = [], audit = []\<rparr>"

definition free_task :: "string list \<Rightarrow> task_create" where
  "free_task ds = \<lparr>tc_status = T_BACKLOG, tc_plan = None, tc_deps = ds\<rparr>"

definition put_deps :: "string list \<Rightarrow> task_update" where
  "put_deps ds = \<lparr>tu_status = None, tu_plan = None, tu_deps = Some (Some ds)\<rparr>"

lemma dependency_graph_stays_acyclic_witness:
  "acyclic (set (deps (drive do_board_call
     [CreateTask 1 True ''a'' (free_task []), CreateTask 2 True ''b'' (free_task [''a'']),
      UpdateTask 3 True True ''a'' (put_deps [''b''])] empty_board)))"
proof -
  have "board_ok empty_board"
    by (simp add: board_ok_def empty_board_def acyclic_def)
  from dependency_graph_stays_acyclic [OF this] show ?thesis by blast
qed

section \<open>Promotion\<close>



definition promote_row :: "board \<Rightarrow> string \<Rightarrow> board_task \<Rightarrow> board_task" where
  "promote_row b plan t =
     (if bt_id t \<in> set (eligible_ids b plan) then t\<lparr>bt_status := T_READY\<rparr> else t)"


lemma promote_snd:
  "snd (promote_ready_tasks plan b)
     = filter (\<lambda>t. bt_plan t = Some plan \<and> bt_status t = T_READY
                   \<and> \<not> has_live_execution b (bt_id t)) (map (promote_row b plan) (tasks b))"
  by (simp add: promote_ready_tasks_def Let_def promote_row_def [abs_def] has_live_execution_def)

lemma eligible_row:
  assumes "distinct (map bt_id (tasks b))" and "t \<in> set (tasks b)"
  shows "bt_id t \<in> set (eligible_ids b plan) \<longleftrightarrow>
     bt_plan t = Some plan \<and> bt_status t = T_BACKLOG \<and> \<not> unmet_dependency b (bt_id t)"
proof -
  have "t' = t" if "t' \<in> set (tasks b)" "bt_id t' = bt_id t" for t'
    using assms that by (auto simp: distinct_map inj_on_def)
  then show ?thesis using assms(2) by (auto simp: eligible_ids_def)
qed




definition demo_task :: "string \<Rightarrow> task_status \<Rightarrow> board_task" where
  "demo_task i s = \<lparr>bt_id = i, bt_status = s, bt_plan = Some ''p'', bt_retry_count = 0\<rparr>"

lemma demo_task_simps [simp]:
  "bt_id (demo_task i s) = i" "bt_status (demo_task i s) = s" "bt_plan (demo_task i s) = Some ''p''"
  by (simp_all add: demo_task_def)

definition demo_board :: "task_status \<Rightarrow> board" where
  "demo_board s = empty_board\<lparr>tasks := [demo_task ''a'' s, demo_task ''b'' T_BACKLOG],
     deps := [(''b'', ''a'')]\<rparr>"

lemma demo_board_ok [simp]: "board_ok (demo_board s)"
  by (simp add: board_ok_def demo_board_def empty_board_def task_ids_def acyclic_def
      trancl_insert [of "''b''" "''a''" "{}"])


text \<open>
  A plan never starves: on a sound board, if the tasks of a plan are all waiting,
  ready or done, depend only on tasks of the plan, are not all done and none is running,
  then the promotion of the plan announces at least one task to dispatch.
\<close>

theorem promotion_makes_progress:
  assumes "board_ok b"
    and "\<forall>t \<in> set (tasks b). bt_plan t = Some plan \<longrightarrow> bt_status t \<in> {T_BACKLOG, T_READY, T_DONE}"
    and "\<forall>t \<in> set (tasks b). \<forall>d \<in> set (tasks b). bt_plan t = Some plan \<longrightarrow>
           (bt_id t, bt_id d) \<in> set (deps b) \<longrightarrow> bt_plan d = Some plan"
    and "\<exists>t \<in> set (tasks b). bt_plan t = Some plan \<and> bt_status t \<noteq> T_DONE"
    and "\<forall>t \<in> set (tasks b). bt_plan t = Some plan \<longrightarrow> \<not> has_live_execution b (bt_id t)"
  shows "snd (promote_ready_tasks plan b) \<noteq> []"
proof -
  have dist: "distinct (map bt_id (tasks b))" and acyc: "acyclic (set (deps b))"
    using assms(1) by (auto simp: board_ok_def)
  define Q where "Q = bt_id ` {t \<in> set (tasks b). bt_plan t = Some plan \<and> bt_status t \<noteq> T_DONE}"
  have "wf ((set (deps b))\<inverse>)"
    using acyc by (simp add: finite_acyclic_wf_converse)
  moreover obtain q where "q \<in> Q" using assms(4) by (auto simp: Q_def)
  ultimately obtain z where z: "z \<in> Q" and min: "\<And>y. (z, y) \<in> set (deps b) \<Longrightarrow> y \<notin> Q"
    by (metis converse_iff wf_eq_minimal)
  from z obtain t where t: "t \<in> set (tasks b)" "bt_plan t = Some plan" "bt_status t \<noteq> T_DONE"
    "bt_id t = z"
    by (auto simp: Q_def)
  have "bt_status x = T_DONE" if "(z, bt_id x) \<in> set (deps b)" "x \<in> set (tasks b)" for x
  proof -
    have "bt_plan x = Some plan" using assms(3) t that by blast
    moreover have "bt_id x \<notin> Q" by (rule min [OF that(1)])
    ultimately show ?thesis using that(2) by (auto simp: Q_def)
  qed
  then have "\<not> unmet_dependency b z"
    by (auto simp: unmet_dependency_def)
  then have ready: "bt_status (promote_row b plan t) = T_READY"
    using assms(2) t eligible_row [OF dist t(1)] by (auto simp: promote_row_def)
  have "bt_id (promote_row b plan t) = bt_id t" "bt_plan (promote_row b plan t) = bt_plan t"
    by (simp_all add: promote_row_def)
  then have "promote_row b plan t \<in> set (snd (promote_ready_tasks plan b))"
    using t ready bspec [OF assms(5) t(1)] by (simp add: promote_snd)
  then show ?thesis by auto
qed

lemma promotion_makes_progress_witness:
  "snd (promote_ready_tasks ''p'' (demo_board T_BACKLOG)) \<noteq> []"
proof (rule promotion_makes_progress [OF demo_board_ok])
qed (auto simp: demo_board_def empty_board_def has_live_execution_def)

section \<open>Status moves\<close>

lemma find_task_map:
  assumes "\<And>t. bt_id (f t) = bt_id t"
  shows "find_task (b\<lparr>tasks := map f (tasks b)\<rparr>) j = map_option f (find_task b j)"
proof -
  have "find (\<lambda>t. bt_id t = j) (map f ts) = map_option f (find (\<lambda>t. bt_id t = j) ts)" for ts
    using assms by (induction ts) auto
  then show ?thesis by (simp add: find_task_def)
qed

lemma find_task_write:
  assumes "\<And>t. bt_id (f t) = bt_id t" and "find_task b i = Some old" and "find_task b j = Some t"
  shows "\<exists>t'. find_task (write_task i f b) j = Some t'
     \<and> (bt_status t' = bt_status (if j = i then f t else t)
        \<or> bt_status (if j = i then f t else t) = T_BACKLOG \<and> bt_status t' = T_READY)"
proof -
  let ?g = "\<lambda>t. if bt_id t = i then f t else t"
  let ?b1 = "b\<lparr>tasks := map ?g (tasks b)\<rparr>"
  have j: "bt_id t = j" using assms(3) by (auto simp: find_task_def find_Some_iff)
  have b1: "find_task ?b1 j = Some (if j = i then f t else t)"
    using find_task_map [of ?g b j] assms(1,3) j by simp
  have "\<exists>t'. find_task (fn_compute_task_ready i ?b1) j = Some t'
     \<and> (bt_status t' = bt_status (if j = i then f t else t)
        \<or> bt_status (if j = i then f t else t) = T_BACKLOG \<and> bt_status t' = T_READY)"
    unfolding fn_compute_task_ready_def using b1
    by (subst find_task_map) auto
  with b1 show ?thesis
    using assms(2) by (auto simp: write_task_def Let_def)
qed

lemma find_task_set_dependencies:
  "set_dependencies i ds b = Inr b' \<Longrightarrow> find_task b' j = find_task b j"
  by (auto simp: set_dependencies_def write_dependencies_def Let_def bindr_Inr_iff find_task_def
      split: if_splits)

lemma find_task_reactivate [simp]: "find_task (reactivate_opt now plan b) j = find_task b j"
  by (simp add: reactivate_opt_def reactivate_plan_if_unstuck_def find_task_def
      split: option.splits)

lemma find_task_after [simp]: "find_task (after_update now old new dc b) j = find_task b j"
proof -
  have c: "find_task (cancel_board_executions now i b) j = find_task b j" for now i b
    by (simp add: cancel_board_executions_def find_task_def split: prod.splits)
  show ?thesis by (simp add: after_update_def Let_def c)
qed

text \<open>What a successful update went through.\<close>

lemma update_task_cases:
  assumes "update_task now admin force i p b = Inr b'"
  obtains old b3 where "find_task b i = Some old"
    and "case tu_status p of None \<Rightarrow> True | Some s \<Rightarrow> check_status_move admin force b old s = Inr ()"
    and "\<forall>j. find_task b3 j = find_task (write_task i (changed_task p) b) j"
    and "b' = after_update now old (changed_task p old) (tu_deps p \<noteq> None) b3"
proof -
  obtain old where old: "find_task b i = Some old"
    using assms by (cases "find_task b i") (auto simp: update_task_def)
  define b2 where "b2 = (if bt_plan (changed_task p old) \<noteq> bt_plan old
             then reactivate_opt now (bt_plan (changed_task p old))
                    (reactivate_opt now (bt_plan old) (write_task i (changed_task p) b))
             else write_task i (changed_task p) b)"
  have b2: "find_task b2 j = find_task (write_task i (changed_task p) b) j" for j
    by (simp add: b2_def)
  have r: "bindr (case tu_status p of None \<Rightarrow> Inr ()
                 | Some s \<Rightarrow> check_status_move admin force b old s) (\<lambda>_.
          bindr (case tu_deps p of None \<Rightarrow> Inr b2
                    | Some ds \<Rightarrow> set_dependencies i (case ds of Some xs \<Rightarrow> xs | None \<Rightarrow> []) b2)
               (\<lambda>b3. Inr (after_update now old (changed_task p old) (tu_deps p \<noteq> None) b3)))
      = Inr b'"
    using assms unfolding update_task_def old option.case Let_def b2_def .
  then obtain b3 where
    b3: "(case tu_deps p of None \<Rightarrow> Inr b2
          | Some ds \<Rightarrow> set_dependencies i (case ds of Some xs \<Rightarrow> xs | None \<Rightarrow> []) b2) = Inr b3"
    and b': "b' = after_update now old (changed_task p old) (tu_deps p \<noteq> None) b3"
    and g: "(case tu_status p of None \<Rightarrow> Inr ()
                 | Some s \<Rightarrow> check_status_move admin force b old s) = Inr ()"
    unfolding bindr_Inr_iff by auto
  have "find_task b3 j = find_task (write_task i (changed_task p) b) j" for j
    using b3 b2 find_task_set_dependencies by (cases "tu_deps p") auto
  moreover have "case tu_status p of None \<Rightarrow> True
      | Some s \<Rightarrow> check_status_move admin force b old s = Inr ()"
    using g by (auto split: option.splits)
  ultimately show thesis using that old b' by blast
qed

text \<open>
  No update fakes a finished task: if a request on one task, forced by an administrator
  or not, leaves any task of the board done that was not done before, then it is the task
  of the request, the status machine allows the move from its old status, and the audit of
  the move to done was neither forced nor caused by the promotion of other tasks.
\<close>

theorem update_never_fakes_done:
  assumes "update_task now admin force i p b = Inr b'"
    and "find_task b j = Some t" and "bt_status t \<noteq> T_DONE"
    and "find_task b' j = Some t'" and "bt_status t' = T_DONE"
  shows "j = i \<and> T_DONE \<in> ai_transitions (bt_status t)"
proof -
  obtain old b3 where old: "find_task b i = Some old"
    and g: "case tu_status p of None \<Rightarrow> True
        | Some s \<Rightarrow> check_status_move admin force b old s = Inr ()"
    and b3: "\<forall>j. find_task b3 j = find_task (write_task i (changed_task p) b) j"
    and b': "b' = after_update now old (changed_task p old) (tu_deps p \<noteq> None) b3"
    by (rule update_task_cases [OF assms(1)])
  have "find_task (write_task i (changed_task p) b) j = Some t'"
    using assms(4) b3 by (simp add: b')
  then have finished: "bt_status (if j = i then changed_task p t else t) = T_DONE"
    using find_task_write [of "changed_task p" b i old j t] old assms(2,5)
    by (auto simp: changed_task_def)
  then have j: "j = i" using assms(3) by (auto split: if_splits)
  with old assms(2) have t: "t = old" by simp
  from finished j assms(3) have "tu_status p = Some T_DONE"
    by (auto simp: changed_task_def split: option.splits)
  with g t assms(3) have "check_status_move admin force b t T_DONE = Inr ()" by simp
  then have "T_DONE \<in> allowed_transitions None (bt_status t)"
    using assms(3) by (auto simp: check_status_move_def bindr_Inr_iff split: if_splits)
  with j show ?thesis by (simp add: allowed_transitions_def)
qed

definition status_update :: "task_status \<Rightarrow> task_update" where
  "status_update s = \<lparr>tu_status = Some s, tu_plan = None, tu_deps = None\<rparr>"

lemma update_never_fakes_done_witness:
  "\<exists>b' t'. update_task 1 False False ''a'' (status_update T_DONE) (demo_board T_IN_PROGRESS) = Inr b'
     \<and> find_task b' ''a'' = Some t' \<and> bt_status t' = T_DONE
     \<and> T_DONE \<in> ai_transitions T_IN_PROGRESS"
proof -
  have "\<exists>b' t'. update_task 1 False False ''a'' (status_update T_DONE) (demo_board T_IN_PROGRESS) = Inr b'
     \<and> find_task b' ''a'' = Some t' \<and> bt_status t' = T_DONE"
    by (simp add: update_task_def find_task_def demo_board_def empty_board_def status_update_def
        check_status_move_def assert_dependencies_done_def gated_target_statuses_def
        allowed_transitions_def changed_task_def write_task_def fn_compute_task_ready_def
        after_update_def Let_def)
  moreover have "find_task (demo_board T_IN_PROGRESS) ''a'' = Some (demo_task ''a'' T_IN_PROGRESS)"
    by (simp add: demo_board_def find_task_def)
  ultimately show ?thesis
    using update_never_fakes_done [of 1 False False "''a''" "status_update T_DONE"
        "demo_board T_IN_PROGRESS" _ "''a''" "demo_task ''a'' T_IN_PROGRESS"]
    by fastforce
qed

lemma dependency_tasks_done:
  "assert_dependencies_done b i s = Inr () \<Longrightarrow> s \<in> gated_target_statuses \<Longrightarrow> \<not> unmet_dependency b i"
  by (fastforce simp: assert_dependencies_done_def Let_def dependency_tasks_def
      unmet_dependency_def filter_empty_conv split: if_splits)

text \<open>
  The manual gate holds for a status move: an update that changes the status of a task
  to ready, in progress, in review or awaiting approval succeeds only when every dependency
  the task had is done.
\<close>

theorem manual_move_waits_for_dependencies:
  assumes "update_task now admin force i p b = Inr b'"
    and "find_task b i = Some t" and "tu_status p = Some s" and "s \<noteq> bt_status t"
    and "s \<in> {T_READY, T_IN_PROGRESS, T_IN_REVIEW, T_AWAITING_HUMAN_APPROVAL}"
  shows "\<not> unmet_dependency b i"
proof -
  obtain old b3 where "find_task b i = Some old"
    and "case tu_status p of None \<Rightarrow> True
        | Some s \<Rightarrow> check_status_move admin force b old s = Inr ()"
    by (rule update_task_cases [OF assms(1)])
  with assms(2,3) have "check_status_move admin force b t s = Inr ()" by simp
  then have "assert_dependencies_done b (bt_id t) s = Inr ()"
    using assms(4) by (auto simp: check_status_move_def bindr_Inr_iff split: if_splits)
  moreover have "bt_id t = i" using find_task_Some [OF assms(2)] by simp
  ultimately show ?thesis
    using assms(5) by (intro dependency_tasks_done [of b i s]) (auto simp: gated_target_statuses_def)
qed

lemma manual_move_waits_for_dependencies_witness:
  "\<not> unmet_dependency (demo_board T_DONE) ''b''"
proof -
  have "\<exists>b'. update_task 1 False False ''b'' (status_update T_READY) (demo_board T_DONE) = Inr b'"
    by (simp add: update_task_def find_task_def demo_board_def empty_board_def status_update_def
        check_status_move_def assert_dependencies_done_def gated_target_statuses_def
        dependency_tasks_def allowed_transitions_def changed_task_def Let_def)
  then obtain b' where "update_task 1 False False ''b'' (status_update T_READY) (demo_board T_DONE) = Inr b'"
    by blast
  from manual_move_waits_for_dependencies [OF this] show ?thesis
    by (auto simp: find_task_def demo_board_def status_update_def)
qed

text \<open>
  The gate reads the dependencies a request is about to replace: one update of a
  member moves a waiting task to ready and in the same request gives it a dependency that
  is not done, and a creation may do the same; in both cases the board then holds a ready
  task with an unfinished dependency, which the dispatcher takes as released.
\<close>

theorem dependency_gate_bypassed:
  "(case update_task 1 False False ''b''
       \<lparr>tu_status = Some T_READY, tu_plan = None, tu_deps = Some (Some [''a''])\<rparr>
       ((demo_board T_BACKLOG)\<lparr>deps := []\<rparr>) of
      Inl e \<Rightarrow> False
    | Inr b \<Rightarrow> map_option bt_status (find_task b ''b'') = Some T_READY \<and> unmet_dependency b ''b'')
   \<and> (case create_task 1 True ''c'' \<lparr>tc_status = T_READY, tc_plan = None, tc_deps = [''a'']\<rparr>
         (empty_board\<lparr>tasks := [\<lparr>bt_id = ''a'', bt_status = T_BACKLOG, bt_plan = None,
            bt_retry_count = 0\<rparr>]\<rparr>) of
        Inl e \<Rightarrow> False
      | Inr b \<Rightarrow> map_option bt_status (find_task b ''c'') = Some T_READY \<and> unmet_dependency b ''c'')"
  by code_simp

text \<open>
  Moving a task to another plan keeps its dependencies: after an update that only
  changes the plan of a task, the board holds a dependency between tasks of two plans,
  which the dependency endpoint itself refuses to write.
\<close>

theorem plan_move_crosses_plans:
  "(case update_task 1 False False ''b''
       \<lparr>tu_status = None, tu_plan = Some (Some ''q''), tu_deps = None\<rparr> (demo_board T_DONE) of
      Inl e \<Rightarrow> False
    | Inr b \<Rightarrow> deps b = [(''b'', ''a'')]
        \<and> map_option bt_plan (find_task b ''a'') = Some (Some ''p'')
        \<and> map_option bt_plan (find_task b ''b'') = Some (Some ''q'')
        \<and> set_dependencies ''b'' [''a''] b = Inl (CrossPlanDependency [''a'']))"
  by code_simp

section \<open>Cancellation\<close>

lemma cancel_row_result:
  "ex_task e = i \<Longrightarrow> ex_status (cancel_row now i e) \<noteq> X_AWAITING_HUMAN_APPROVAL"
  "ex_task e = i \<Longrightarrow> ex_status (cancel_row now i e) = X_RUNNING \<Longrightarrow>
     cancel_requested_at (cancel_row now i e) \<noteq> None"
  "ex_task (cancel_row now i e) = ex_task e"
  by (cases "ex_status e"; auto simp: cancel_row_def Let_def split: option.splits)+

lemma cancelled_rows:
  "(\<forall>e \<in> set (map (cancel_row now i) db). ex_task e = i \<longrightarrow>
      ex_status e \<noteq> X_AWAITING_HUMAN_APPROVAL
      \<and> (ex_status e = X_RUNNING \<longrightarrow> cancel_requested_at e \<noteq> None))
   \<and> (\<forall>q \<in> set (map (close_request now ids) qs). q_execution q \<in> ids \<longrightarrow> q_status q \<noteq> Q_PENDING)"
  using cancel_row_result by (auto simp: close_request_def)

text \<open>
  A cancelled task leaves nothing that would resume it: after an update that moves a
  task to cancelled, none of its runs is parked for an approval, each one still running
  has its cancellation requested, and no approval request of a run that was parked is
  still pending.
\<close>

theorem cancelled_task_is_closed:
  assumes "update_task now admin force i p b = Inr b'"
    and "find_task b i = Some t" and "tu_status p = Some T_CANCELLED" and "bt_status t \<noteq> T_CANCELLED"
  shows "(\<forall>e \<in> set (execs b'). ex_task e = i \<longrightarrow> ex_status e \<noteq> X_AWAITING_HUMAN_APPROVAL
            \<and> (ex_status e = X_RUNNING \<longrightarrow> cancel_requested_at e \<noteq> None))
     \<and> (\<forall>q \<in> set (requests b'). q_execution q \<in> parked_ids i (execs b) \<longrightarrow> q_status q \<noteq> Q_PENDING)"
proof -
  have frame: "execs (reactivate_opt now pl x) = execs x" "requests (reactivate_opt now pl x) = requests x"
    for now pl x
    by (simp_all add: reactivate_opt_def reactivate_plan_if_unstuck_def split: option.splits)
  have frame_w: "execs (write_task i f b) = execs b" "requests (write_task i f b) = requests b" for f
    by (simp_all add: write_task_def fn_compute_task_ready_def Let_def split: option.splits)
  have frame_d: "execs b3 = execs b2 \<and> requests b3 = requests b2"
    if "set_dependencies i ds b2 = Inr b3" for ds b2 b3
    using that by (auto simp: set_dependencies_def write_dependencies_def Let_def bindr_Inr_iff
        split: if_splits)
  define b2 where "b2 = (if bt_plan (changed_task p t) \<noteq> bt_plan t
             then reactivate_opt now (bt_plan (changed_task p t))
                    (reactivate_opt now (bt_plan t) (write_task i (changed_task p) b))
             else write_task i (changed_task p) b)"
  have b2: "execs b2 = execs b" "requests b2 = requests b"
    by (simp_all add: b2_def frame frame_w)
  have "bindr (case tu_status p of None \<Rightarrow> Inr ()
                 | Some s \<Rightarrow> check_status_move admin force b t s) (\<lambda>_.
          bindr (case tu_deps p of None \<Rightarrow> Inr b2
                    | Some ds \<Rightarrow> set_dependencies i (case ds of Some xs \<Rightarrow> xs | None \<Rightarrow> []) b2)
               (\<lambda>b3. Inr (after_update now t (changed_task p t) (tu_deps p \<noteq> None) b3)))
      = Inr b'"
    using assms(1) unfolding update_task_def assms(2) option.case Let_def b2_def .
  then obtain b3 where
    "(case tu_deps p of None \<Rightarrow> Inr b2
          | Some ds \<Rightarrow> set_dependencies i (case ds of Some xs \<Rightarrow> xs | None \<Rightarrow> []) b2) = Inr b3"
    and b': "b' = after_update now t (changed_task p t) (tu_deps p \<noteq> None) b3"
    unfolding bindr_Inr_iff by auto
  then have b3: "execs b3 = execs b" "requests b3 = requests b"
    using frame_d b2 by (cases "tu_deps p"; force)+
  have "bt_status (changed_task p t) = T_CANCELLED" "bt_id (changed_task p t) = i"
    using assms(3) find_task_Some [OF assms(2)] by (simp_all add: changed_task_def)
  then have "\<exists>x. execs x = execs b \<and> requests x = requests b \<and> b' = cancel_board_executions now i x"
    using assms(4) b3
    by (auto simp: b' after_update_def Let_def frame intro!: exI [of _ "if bt_status t = T_BLOCKED
        then reactivate_opt now (bt_plan (changed_task p t)) b3 else b3"])
  then have "execs b' = map (cancel_row now i) (execs b)"
    "requests b' = map (close_request now (parked_ids i (execs b))) (requests b)"
    by (auto simp: cancel_board_executions_def cancel_running_executions_for_task_def)
  then show ?thesis
    using cancelled_rows [of now i "execs b" "parked_ids i (execs b)" "requests b"] by simp
qed

definition parked_board :: board where
  "parked_board = (demo_board T_BLOCKED)\<lparr>
     execs := [(blank_execution 0 ''a'')\<lparr>ex_status := X_AWAITING_HUMAN_APPROVAL\<rparr>, blank_execution 1 ''a''],
     requests := [\<lparr>q_execution = 0, q_status = Q_PENDING, q_resolved_at = None, q_reason = None\<rparr>]\<rparr>"

lemma cancelled_task_is_closed_witness:
  "\<exists>b'. update_task 1 False False ''a'' (status_update T_CANCELLED) parked_board = Inr b'
     \<and> (\<forall>e \<in> set (execs b'). ex_task e = ''a'' \<longrightarrow> ex_status e \<noteq> X_AWAITING_HUMAN_APPROVAL)
     \<and> (\<forall>q \<in> set (requests b'). q_execution q \<in> parked_ids ''a'' (execs parked_board)
          \<longrightarrow> q_status q \<noteq> Q_PENDING)"
proof -
  have "\<exists>b'. update_task 1 False False ''a'' (status_update T_CANCELLED) parked_board = Inr b'"
    by (simp add: update_task_def find_task_def parked_board_def demo_board_def empty_board_def
        status_update_def check_status_move_def assert_dependencies_done_def
        gated_target_statuses_def allowed_transitions_def changed_task_def Let_def)
  moreover have "find_task parked_board ''a'' = Some (demo_task ''a'' T_BLOCKED)"
    by (simp add: parked_board_def demo_board_def find_task_def)
  ultimately show ?thesis
    using cancelled_task_is_closed [of 1 False False "''a''" "status_update T_CANCELLED" parked_board
        _ "demo_task ''a'' T_BLOCKED"]
    by (fastforce simp: status_update_def)
qed

end
