(* ===== verification/TaskLifecycle.thy ===== *)
theory TaskLifecycle
  imports TaskMachine PyValue "HOL-Library.AList"
begin

text \<open>
  The review lifecycle of a task and its audit trail,
  \<^verbatim>\<open>apps/api-server/src/api_server/task_lifecycle.py\<close>: rejection, escalation, the
  human actions and the creation of corrective tasks, over the protocol
  \<^verbatim>\<open>TaskStore\<close>. The store is an interface (the record \<open>store_ops\<close> and the
  locale \<open>task_store\<close> with its laws); \<open>memory_ops\<close> is the in-memory reference
  implementation. The clock and fresh ids are arguments; every save in the module follows
  a read of the same record, so records are values here.
\<close>

section \<open>Records\<close>

record task_record =
  tr_id :: string
  tr_plan_id :: string
  tr_title :: string
  tr_description :: string
  tr_status :: task_status
  tr_retry_count :: nat
  tr_max_retries :: nat
  tr_manual_approval :: bool
  tr_parent_checkbox :: "string option"
  tr_is_free :: bool

definition default_max_review_retries :: nat where
  "default_max_review_retries = 3"

record review_comment =
  failed_criterion :: string
  testreport_evidence :: string
  what_to_fix :: string

datatype lc_action = LC_APPROVE_MANUAL | LC_REASSIGN | LC_BLOCK | LC_CANCEL

datatype lc_payload =
    Rejected review_comment
  | MovedBack task_status task_status nat
  | Escalated task_status task_status string
  | Acted lc_action "string option" "string option" task_status
  | Created string "string option" bool

record lc_event =
  ev_task :: string
  ev_at :: nat
  ev_kind :: string
  ev_actor :: string
  ev_payload :: lc_payload

datatype lc_error = TaskClosedError string | LcKeyError string | StoreValueError string

definition is_closed_status :: "task_status \<Rightarrow> bool" where
  "is_closed_status s \<longleftrightarrow> s = T_DONE \<or> s = T_CANCELLED"

section \<open>The store\<close>

record 's store_ops =
  get_op :: "'s \<Rightarrow> string \<Rightarrow> task_record option"
  save_op :: "'s \<Rightarrow> task_record \<Rightarrow> (lc_error, 's) result"
  append_event_op :: "'s \<Rightarrow> lc_event \<Rightarrow> 's"
  list_events_op :: "'s \<Rightarrow> string \<Rightarrow> lc_event list"
  list_by_status_op :: "'s \<Rightarrow> string \<Rightarrow> task_status \<Rightarrow> task_record list"

record memory_store =
  ms_tasks :: "(string \<times> task_record) list"
  ms_events :: "lc_event list"
  ms_closed :: "string list"

definition memory_get :: "memory_store \<Rightarrow> string \<Rightarrow> task_record option" where
  "memory_get s i = map_of (ms_tasks s) i"

definition memory_save :: "memory_store \<Rightarrow> task_record \<Rightarrow> (lc_error, memory_store) result" where
  "memory_save s t =
     (if tr_id t \<in> set (ms_closed s) \<and> \<not> is_closed_status (tr_status t)
      then Inl (StoreValueError (tr_id t))
      else Inr (s\<lparr>ms_closed := (if is_closed_status (tr_status t) then List.insert (tr_id t) (ms_closed s)
                              else ms_closed s),
                  ms_tasks := AList.update (tr_id t) t (ms_tasks s)\<rparr>))"

definition memory_append :: "memory_store \<Rightarrow> lc_event \<Rightarrow> memory_store" where
  "memory_append s e = s\<lparr>ms_events := ms_events s @ [e]\<rparr>"

definition memory_ops :: "memory_store store_ops" where
  "memory_ops =
     \<lparr>get_op = memory_get, save_op = memory_save, append_event_op = memory_append,
      list_events_op = (\<lambda>s i. filter (\<lambda>e. ev_task e = i) (ms_events s)),
      list_by_status_op = (\<lambda>s p st. filter (\<lambda>t. tr_plan_id t = p \<and> tr_status t = st)
                                         (map snd (ms_tasks s)))\<rparr>"

section \<open>The lifecycle\<close>

text \<open>The state: the store and the escalations the notifier was told of.\<close>

type_synonym 's lifecycle = "'s \<times> (task_record \<times> lc_event list) list"

definition must_get :: "'s store_ops \<Rightarrow> string \<Rightarrow> 's lifecycle \<Rightarrow> (lc_error, task_record) result" where
  "must_get ops i l =
     (case get_op ops (fst l) i of None \<Rightarrow> Inl (LcKeyError i) | Some t \<Rightarrow> Inr t)"

definition emit ::
  "'s store_ops \<Rightarrow> nat \<Rightarrow> string \<Rightarrow> string \<Rightarrow> string \<Rightarrow> lc_payload \<Rightarrow> 's lifecycle \<Rightarrow> 's lifecycle" where
  "emit ops now i kind actor payload l =
     (append_event_op ops (fst l)
        \<lparr>ev_task = i, ev_at = now, ev_kind = kind, ev_actor = actor, ev_payload = payload\<rparr>, snd l)"

definition save_task ::
  "'s store_ops \<Rightarrow> task_record \<Rightarrow> 's lifecycle \<Rightarrow> (lc_error, 's lifecycle) result" where
  "save_task ops t l = bindr (save_op ops (fst l) t) (\<lambda>s. Inr (s, snd l))"

definition escalate_if_exhausted ::
  "'s store_ops \<Rightarrow> nat \<Rightarrow> task_record \<Rightarrow> 's lifecycle
     \<Rightarrow> (lc_error, 's lifecycle \<times> task_record) result" where
  "escalate_if_exhausted ops now t l =
     (if tr_status t \<noteq> T_BACKLOG \<or> tr_retry_count t < tr_max_retries t then Inr (l, t)
      else
        let t' = t\<lparr>tr_status := T_BLOCKED\<rparr>
        in bindr (save_task ops t' l) (\<lambda>l1.
             let l2 = emit ops now (tr_id t) ''transition'' ''system''
                        (Escalated T_BACKLOG T_BLOCKED ''max_retries'') l1;
                 history = list_events_op ops (fst l2) (tr_id t)
             in Inr ((fst l2, snd l2 @ [(t', history)]), t')))"

definition reject_review ::
  "'s store_ops \<Rightarrow> nat \<Rightarrow> string \<Rightarrow> review_comment \<Rightarrow> string \<Rightarrow> 's lifecycle
     \<Rightarrow> (lc_error, 's lifecycle \<times> task_record) result" where
  "reject_review ops now i comment actor l =
     bindr (must_get ops i l) (\<lambda>t.
       if is_closed_status (tr_status t) then Inl (TaskClosedError i)
       else
         let t' = t\<lparr>tr_retry_count := tr_retry_count t + 1, tr_status := T_BACKLOG\<rparr>
         in bindr (save_task ops t' l) (\<lambda>l1.
              escalate_if_exhausted ops now t'
                (emit ops now i ''transition'' actor
                   (MovedBack T_IN_REVIEW T_BACKLOG (tr_retry_count t'))
                   (emit ops now i ''review_comment'' actor (Rejected comment) l1))))"

definition list_escalated :: "'s store_ops \<Rightarrow> string \<Rightarrow> 's lifecycle \<Rightarrow> task_record list" where
  "list_escalated ops plan l = list_by_status_op ops (fst l) plan T_BLOCKED"

fun act_on :: "lc_action \<Rightarrow> task_record \<Rightarrow> task_record" where
  "act_on LC_APPROVE_MANUAL t = t\<lparr>tr_manual_approval := True, tr_status := T_DONE\<rparr>"
| "act_on LC_REASSIGN t = t\<lparr>tr_retry_count := 0, tr_status := T_BACKLOG\<rparr>"
| "act_on LC_BLOCK t = t\<lparr>tr_status := T_BLOCKED\<rparr>"
| "act_on LC_CANCEL t = t\<lparr>tr_status := T_CANCELLED\<rparr>"

definition lc_human_action ::
  "'s store_ops \<Rightarrow> nat \<Rightarrow> string \<Rightarrow> lc_action \<Rightarrow> string \<Rightarrow> string option \<Rightarrow> string option
     \<Rightarrow> 's lifecycle \<Rightarrow> (lc_error, 's lifecycle \<times> task_record) result" where
  "lc_human_action ops now i action actor rsn guidance l =
     bindr (must_get ops i l) (\<lambda>t.
       if tr_status t \<noteq> T_BLOCKED then Inl (TaskClosedError i)
       else
         let t' = act_on action t
         in bindr (save_task ops t' l) (\<lambda>l1.
              Inr (emit ops now i ''human_action'' actor
                     (Acted action rsn guidance (tr_status t')) l1, t')))"

definition create_plan_task ::
  "'s store_ops \<Rightarrow> nat \<Rightarrow> string \<Rightarrow> string \<Rightarrow> string \<Rightarrow> string \<Rightarrow> string option \<Rightarrow> bool \<Rightarrow> string
     \<Rightarrow> 's lifecycle \<Rightarrow> (lc_error, 's lifecycle \<times> task_record) result" where
  "create_plan_task ops now new_id plan title description checkbox is_free actor l =
     (let t = \<lparr>tr_id = new_id, tr_plan_id = plan, tr_title = title, tr_description = description,
               tr_status = T_BACKLOG, tr_retry_count = 0,
               tr_max_retries = default_max_review_retries, tr_manual_approval = False,
               tr_parent_checkbox = checkbox, tr_is_free = is_free\<rparr>
      in bindr (save_task ops t l) (\<lambda>l1.
           Inr (emit ops now new_id ''creation'' actor (Created plan checkbox is_free) l1, t)))"

definition create_task_from_checkbox ::
  "'s store_ops \<Rightarrow> nat \<Rightarrow> string \<Rightarrow> string \<Rightarrow> string \<Rightarrow> string \<Rightarrow> string \<Rightarrow> string \<Rightarrow> 's lifecycle
     \<Rightarrow> (lc_error, 's lifecycle \<times> task_record) result" where
  "create_task_from_checkbox ops now new_id plan checkbox_id checkbox_text comment actor =
     create_plan_task ops now new_id plan checkbox_text comment (Some checkbox_id) False actor"

definition create_free_task ::
  "'s store_ops \<Rightarrow> nat \<Rightarrow> string \<Rightarrow> string \<Rightarrow> string \<Rightarrow> string \<Rightarrow> string \<Rightarrow> 's lifecycle
     \<Rightarrow> (lc_error, 's lifecycle \<times> task_record) result" where
  "create_free_task ops now new_id plan title description actor =
     create_plan_task ops now new_id plan title description None True actor"

definition lc_history :: "'s store_ops \<Rightarrow> string \<Rightarrow> 's lifecycle \<Rightarrow> lc_event list" where
  "lc_history ops i l = sort_key ev_at (list_events_op ops (fst l) i)"

datatype lc_call =
    Reject nat string review_comment string
  | Act nat string lc_action string "string option" "string option"
  | FromCheckbox nat string string string string string string
  | FreeTask nat string string string string string

fun do_lc_call :: "'s store_ops \<Rightarrow> lc_call \<Rightarrow> 's lifecycle \<Rightarrow> (lc_error, 's lifecycle) result" where
  "do_lc_call ops (Reject now i c a) l = bindr (reject_review ops now i c a l) (\<lambda>r. Inr (fst r))"
| "do_lc_call ops (Act now i x a r g) l =
     bindr (lc_human_action ops now i x a r g l) (\<lambda>r. Inr (fst r))"
| "do_lc_call ops (FromCheckbox now n p c t d a) l =
     bindr (create_task_from_checkbox ops now n p c t d a l) (\<lambda>r. Inr (fst r))"
| "do_lc_call ops (FreeTask now n p t d a) l =
     bindr (create_free_task ops now n p t d a l) (\<lambda>r. Inr (fst r))"

section \<open>The contract of the store\<close>

text \<open>
  A read returns the last write; events are appended at the end and no write touches them;
  a task saved as done or cancelled is closed for good, and saving it with another status
  is refused.
\<close>

locale task_store =
  fixes ops :: "'s store_ops" and all_events :: "'s \<Rightarrow> lc_event list" and closed :: "'s \<Rightarrow> string \<Rightarrow> bool"
  assumes get_save: "save_op ops s t = Inr s' \<Longrightarrow>
      get_op ops s' i = (if i = tr_id t then Some t else get_op ops s i)"
    and get_append: "get_op ops (append_event_op ops s e) i = get_op ops s i"
    and events_save: "save_op ops s t = Inr s' \<Longrightarrow> all_events s' = all_events s"
    and events_append: "all_events (append_event_op ops s e) = all_events s @ [e]"
    and list_events: "list_events_op ops s i = filter (\<lambda>e. ev_task e = i) (all_events s)"
    and save_closed: "save_op ops s t = Inr s' \<Longrightarrow>
      closed s' i \<longleftrightarrow> closed s i \<or> i = tr_id t \<and> is_closed_status (tr_status t)"
    and closed_append: "closed (append_event_op ops s e) i \<longleftrightarrow> closed s i"
    and save_refused: "closed s (tr_id t) \<Longrightarrow> \<not> is_closed_status (tr_status t) \<Longrightarrow> raises (save_op ops s t)"
begin

text \<open>The invariant: keys and ids agree, closed tasks have a closed status, and a task in
  the backlog has retries left.\<close>

definition store_ok :: "'s \<Rightarrow> bool" where
  "store_ok s \<longleftrightarrow> (\<forall>i t. get_op ops s i = Some t \<longrightarrow>
     tr_id t = i \<and> (is_closed_status (tr_status t) \<longrightarrow> closed s i)
     \<and> 0 < tr_max_retries t \<and> (tr_status t = T_BACKLOG \<longrightarrow> tr_retry_count t < tr_max_retries t))"

definition record_ok :: "task_record \<Rightarrow> bool" where
  "record_ok t \<longleftrightarrow> 0 < tr_max_retries t
     \<and> (tr_status t = T_BACKLOG \<longrightarrow> tr_retry_count t < tr_max_retries t)"

definition final :: "'s \<Rightarrow> 's \<Rightarrow> bool" where
  "final s s' \<longleftrightarrow> (\<forall>i t. get_op ops s i = Some t \<longrightarrow> is_closed_status (tr_status t) \<longrightarrow>
     get_op ops s' i = Some t)"

definition extends :: "'s \<Rightarrow> 's \<Rightarrow> bool" where
  "extends s s' \<longleftrightarrow> (\<exists>es. all_events s' = all_events s @ es)"

lemma emit_simps [simp]:
  "get_op ops (fst (emit ops now j k a p l)) i = get_op ops (fst l) i"
  "closed (fst (emit ops now j k a p l)) i \<longleftrightarrow> closed (fst l) i"
  "snd (emit ops now j k a p l) = snd l"
  by (simp_all add: emit_def get_append closed_append)

lemma extends_emit: "extends s (fst l) \<Longrightarrow> extends s (fst (emit ops now j k a p l))"
  by (auto simp: extends_def emit_def events_append)

lemma extends_save: "extends s (fst l) \<Longrightarrow> save_task ops t l = Inr l' \<Longrightarrow> extends s (fst l')"
  by (auto simp: extends_def save_task_def result_ok events_save)

lemma extends_refl: "extends s s"
  by (simp add: extends_def)

lemma save_ok:
  assumes "save_task ops t l = Inr l'" and "store_ok (fst l)" and "record_ok t"
  shows "store_ok (fst l')"
proof -
  obtain s where s: "save_op ops (fst l) t = Inr s" and l': "l' = (s, snd l)"
    using assms(1) by (auto simp: save_task_def result_ok)
  show ?thesis
    using assms(2,3)
    by (auto simp: l' store_ok_def record_ok_def get_save [OF s] save_closed [OF s])
qed

lemma store_ok_emit: "store_ok (fst (emit ops now j k a p l)) \<longleftrightarrow> store_ok (fst l)"
  by (simp add: store_ok_def)

text \<open>A record whose own status was not closed can be replaced; closed ones stay.\<close>

lemma save_final:
  assumes "save_task ops t l = Inr l'"
    and "\<And>r. get_op ops (fst l) (tr_id t) = Some r \<Longrightarrow> \<not> is_closed_status (tr_status r)"
  shows "final (fst l) (fst l')"
proof -
  obtain s where s: "save_op ops (fst l) t = Inr s" and l': "l' = (s, snd l)"
    using assms(1) by (auto simp: save_task_def result_ok)
  show ?thesis
    using assms(2) by (auto simp: final_def l' get_save [OF s])
qed

lemma final_trans: "final a b \<Longrightarrow> final b c \<Longrightarrow> final a c"
  by (simp add: final_def)

lemma final_emit: "final s (fst (emit ops now j k a p l)) \<longleftrightarrow> final s (fst l)"
  by (simp add: final_def)

text \<open>The same with one task left out, for a rejection that saves twice.\<close>

definition store_ok_except :: "string \<Rightarrow> 's \<Rightarrow> bool" where
  "store_ok_except j s \<longleftrightarrow> (\<forall>i t. get_op ops s i = Some t \<longrightarrow>
     tr_id t = i \<and> (is_closed_status (tr_status t) \<longrightarrow> closed s i)
     \<and> (i \<noteq> j \<longrightarrow> record_ok t))"

lemma store_ok_weaken: "store_ok s \<Longrightarrow> store_ok_except j s"
  by (simp add: store_ok_def store_ok_except_def record_ok_def)

lemma save_except:
  assumes "save_task ops t l = Inr l'" and "store_ok_except (tr_id t) (fst l)"
  shows "store_ok_except (tr_id t) (fst l')" and "record_ok t \<Longrightarrow> store_ok (fst l')"
    and "get_op ops (fst l') (tr_id t) = Some t"
proof -
  obtain s where s: "save_op ops (fst l) t = Inr s" and l': "l' = (s, snd l)"
    using assms(1) by (auto simp: save_task_def result_ok)
  show "store_ok_except (tr_id t) (fst l')"
    using assms(2) by (auto simp: l' store_ok_except_def get_save [OF s] save_closed [OF s])
  show "store_ok (fst l')" if "record_ok t"
    using assms(2) that
    by (auto simp: l' store_ok_except_def store_ok_def record_ok_def get_save [OF s]
        save_closed [OF s])
  show "get_op ops (fst l') (tr_id t) = Some t"
    by (simp add: l' get_save [OF s])
qed

lemma store_ok_except_emit:
  "store_ok_except i (fst (emit ops now j k a p l)) \<longleftrightarrow> store_ok_except i (fst l)"
  by (simp add: store_ok_except_def)

definition good_step :: "'s lifecycle \<Rightarrow> 's lifecycle \<Rightarrow> bool" where
  "good_step l l' \<longleftrightarrow> store_ok (fst l') \<and> final (fst l) (fst l') \<and> extends (fst l) (fst l')"

lemma escalate_step:
  assumes "escalate_if_exhausted ops now t l1 = Inr (l', t')"
    and "store_ok_except (tr_id t) (fst l1)" and "get_op ops (fst l1) (tr_id t) = Some t"
    and "\<not> is_closed_status (tr_status t)" and "0 < tr_max_retries t"
    and "final s (fst l1)" and "extends s (fst l1)"
  shows "store_ok (fst l') \<and> final s (fst l') \<and> extends s (fst l')"
proof (cases "tr_status t \<noteq> T_BACKLOG \<or> tr_retry_count t < tr_max_retries t")
  case True
  then have "l' = l1" and "record_ok t"
    using assms(1,5) by (auto simp: escalate_if_exhausted_def record_ok_def)
  moreover have "store_ok (fst l1)" if "record_ok t"
    unfolding store_ok_def
  proof (intro allI impI)
    fix i r assume r: "get_op ops (fst l1) i = Some r"
    then have base: "tr_id r = i" "is_closed_status (tr_status r) \<longrightarrow> closed (fst l1) i"
      "i \<noteq> tr_id t \<longrightarrow> record_ok r"
      using assms(2) unfolding store_ok_except_def by blast+
    have "record_ok r"
    proof (cases "i = tr_id t")
      case True
      with r assms(3) have "r = t" by (metis option.inject)
      with that show ?thesis by simp
    qed (use base in blast)
    with base show "tr_id r = i \<and> (is_closed_status (tr_status r) \<longrightarrow> closed (fst l1) i)
        \<and> 0 < tr_max_retries r \<and> (tr_status r = T_BACKLOG \<longrightarrow> tr_retry_count r < tr_max_retries r)"
      unfolding record_ok_def by blast
  qed
  ultimately show ?thesis using assms(6,7) by blast
next
  case False
  let ?t = "t\<lparr>tr_status := T_BLOCKED\<rparr>"
  obtain l2 where l2: "save_task ops ?t l1 = Inr l2"
    and l': "fst l' = fst (emit ops now (tr_id t) ''transition'' ''system''
                        (Escalated T_BACKLOG T_BLOCKED ''max_retries'') l2)"
    using assms(1) False by (auto simp: escalate_if_exhausted_def Let_def bindr_Inr_iff)
  have "store_ok (fst l2)"
    using save_except(2) [OF l2] assms(2,5) by (simp add: record_ok_def)
  moreover have "final s (fst l2)"
    using final_trans [OF assms(6) save_final [OF l2]] assms(3,4) by simp
  moreover have "extends s (fst l2)"
    by (rule extends_save [OF assms(7) l2])
  ultimately show ?thesis
    unfolding l' by (simp add: store_ok_emit final_emit extends_emit)
qed

lemma reject_step:
  assumes "reject_review ops now i c a l = Inr (l', t')" and "store_ok (fst l)"
  shows "good_step l l'"
proof -
  obtain t where t: "get_op ops (fst l) i = Some t" and open_t: "\<not> is_closed_status (tr_status t)"
    using assms(1)
    by (auto simp: reject_review_def must_get_def bindr_Inr_iff Let_def split: option.splits if_splits)
  define u where "u = t\<lparr>tr_retry_count := tr_retry_count t + 1, tr_status := T_BACKLOG\<rparr>"
  have eq: "reject_review ops now i c a l =
      bindr (save_task ops u l) (\<lambda>l1. escalate_if_exhausted ops now u
         (emit ops now i ''transition'' a (MovedBack T_IN_REVIEW T_BACKLOG (tr_retry_count u))
           (emit ops now i ''review_comment'' a (Rejected c) l1)))"
    by (simp add: reject_review_def must_get_def t open_t u_def Let_def)
  then obtain l1 where l1: "save_task ops u l = Inr l1"
    and e: "escalate_if_exhausted ops now u
         (emit ops now i ''transition'' a (MovedBack T_IN_REVIEW T_BACKLOG (tr_retry_count u))
           (emit ops now i ''review_comment'' a (Rejected c) l1)) = Inr (l', t')"
    using assms(1) unfolding eq bindr_Inr_iff by blast
  have id: "tr_id u = i" and mx: "0 < tr_max_retries u"
    using assms(2) t by (auto simp: store_ok_def u_def)
  have ex: "store_ok_except (tr_id u) (fst l)" by (rule store_ok_weaken [OF assms(2)])
  show ?thesis
    unfolding good_step_def
  proof (rule escalate_step [OF e])
    show "final (fst l) (fst (emit ops now i ''transition'' a
        (MovedBack T_IN_REVIEW T_BACKLOG (tr_retry_count u))
        (emit ops now i ''review_comment'' a (Rejected c) l1)))"
      using save_final [OF l1] t open_t id by (simp add: final_emit)
    show "extends (fst l) (fst (emit ops now i ''transition'' a
        (MovedBack T_IN_REVIEW T_BACKLOG (tr_retry_count u))
        (emit ops now i ''review_comment'' a (Rejected c) l1)))"
      by (intro extends_emit extends_save [OF extends_refl l1])
  qed (use save_except [OF l1 ex] mx in
      \<open>simp_all add: store_ok_except_emit u_def is_closed_status_def\<close>)
qed

lemma human_step:
  assumes "lc_human_action ops now i x a r g l = Inr (l', t')" and "store_ok (fst l)"
  shows "good_step l l'"
proof -
  obtain t where t: "get_op ops (fst l) i = Some t" and b: "tr_status t = T_BLOCKED"
    using assms(1)
    by (auto simp: lc_human_action_def must_get_def bindr_Inr_iff Let_def split: option.splits if_splits)
  obtain l1 where l1: "save_task ops (act_on x t) l = Inr l1"
    and l': "fst l' = fst (emit ops now i ''human_action'' a
               (Acted x r g (tr_status (act_on x t))) l1)"
    using assms(1) by (auto simp: lc_human_action_def must_get_def t b bindr_Inr_iff Let_def)
  have t_ok: "tr_id t = i" "0 < tr_max_retries t"
    using assms(2) t by (auto simp: store_ok_def)
  have id: "tr_id (act_on x t) = i" and ok: "record_ok (act_on x t)"
    using t_ok by (cases x; simp add: record_ok_def)+
  have "final (fst l) (fst l1)"
    using save_final [OF l1] t b id by (simp add: is_closed_status_def)
  then show ?thesis
    using save_ok [OF l1 assms(2) ok] extends_save [OF extends_refl l1]
    by (simp add: good_step_def l' store_ok_emit final_emit extends_emit)
qed

lemma create_step:
  assumes "create_plan_task ops now n p t d cb fr a l = Inr (l', t')" and "store_ok (fst l)"
  shows "good_step l l'"
proof -
  define u where "u = \<lparr>tr_id = n, tr_plan_id = p, tr_title = t, tr_description = d,
               tr_status = T_BACKLOG, tr_retry_count = 0,
               tr_max_retries = default_max_review_retries, tr_manual_approval = False,
               tr_parent_checkbox = cb, tr_is_free = fr\<rparr>"
  obtain l1 where l1: "save_task ops u l = Inr l1"
    and l': "fst l' = fst (emit ops now n ''creation'' a (Created p cb fr) l1)"
    using assms(1) by (auto simp: create_plan_task_def u_def Let_def bindr_Inr_iff)
  have "record_ok u" by (simp add: u_def record_ok_def default_max_review_retries_def)
  moreover have "final (fst l) (fst l1)"
  proof (rule save_final [OF l1])
    fix r assume r: "get_op ops (fst l) (tr_id u) = Some r"
    show "\<not> is_closed_status (tr_status r)"
    proof
      assume "is_closed_status (tr_status r)"
      then have "closed (fst l) (tr_id u)" using assms(2) r by (auto simp: store_ok_def)
      then have "raises (save_op ops (fst l) u)"
        by (rule save_refused) (simp add: u_def is_closed_status_def)
      with l1 show False by (auto simp: save_task_def result_ok)
    qed
  qed
  ultimately show ?thesis
    using save_ok [OF l1 assms(2)] extends_save [OF extends_refl l1]
    by (simp add: good_step_def l' store_ok_emit final_emit extends_emit)
qed

lemma lc_call_step:
  assumes "do_lc_call ops c l = Inr l'" and "store_ok (fst l)"
  shows "good_step l l'"
proof (cases c)
  case (Reject now i x a)
  with assms reject_step show ?thesis by (fastforce simp: bindr_Inr_iff)
next
  case (Act now i x a r g)
  with assms human_step show ?thesis by (fastforce simp: bindr_Inr_iff)
next
  case (FromCheckbox now n p c t d a)
  with assms create_step show ?thesis
    by (fastforce simp: bindr_Inr_iff create_task_from_checkbox_def)
next
  case (FreeTask now n p t d a)
  with assms create_step show ?thesis
    by (fastforce simp: bindr_Inr_iff create_free_task_def)
qed

lemma lc_calls_good:
  assumes "store_ok (fst l)"
  shows "good_step l (drive (do_lc_call ops) cs l)"
  using assms
proof (induction cs arbitrary: l)
  case Nil
  then show ?case by (simp add: good_step_def final_def extends_refl)
next
  case (Cons c cs)
  have step: "good_step l (settle l (do_lc_call ops c l))"
    using lc_call_step [of c l] Cons.prems
    by (cases "do_lc_call ops c l") (auto simp: good_step_def final_def extends_refl)
  then have "good_step (settle l (do_lc_call ops c l)) (drive (do_lc_call ops) (c # cs) l)"
    using Cons.IH by (simp add: good_step_def)
  with step show ?case
    using final_trans by (fastforce simp: good_step_def extends_def)
qed

end

section \<open>The in-memory store\<close>

interpretation mem: task_store memory_ops ms_events "\<lambda>s i. i \<in> set (ms_closed s)"
  by unfold_locales
    (auto simp: memory_ops_def memory_get_def memory_save_def memory_append_def update_conv'
      split: if_splits)

definition empty_store :: memory_store where
  "empty_store = \<lparr>ms_tasks = [], ms_events = [], ms_closed = []\<rparr>"

lemma empty_store_ok [simp]: "mem.store_ok empty_store"
  unfolding mem.store_ok_def by (simp add: empty_store_def memory_ops_def memory_get_def)

text \<open>
  The review loop is bounded: whatever sequence of rejections, human actions and
  creations is applied to the reference store, a task that is back in the backlog always
  has a retry left; a rejection that exhausts them leaves the task blocked for a human.
\<close>

theorem review_retries_bounded:
  assumes "get_op memory_ops (fst (drive (do_lc_call memory_ops) cs (empty_store, []))) i = Some t"
    and "tr_status t = T_BACKLOG"
  shows "tr_retry_count t < tr_max_retries t"
proof -
  have "mem.store_ok (fst (drive (do_lc_call memory_ops) cs (empty_store, [])))"
    using mem.lc_calls_good [of "(empty_store, [])" cs] by (simp add: mem.good_step_def)
  with assms show ?thesis unfolding mem.store_ok_def by blast
qed

lemma review_retries_bounded_witness:
  "\<exists>t. get_op memory_ops (fst (drive (do_lc_call memory_ops)
      [FreeTask 1 ''n'' ''p'' ''title'' ''text'' ''human'',
       Reject 2 ''n'' \<lparr>failed_criterion = [], testreport_evidence = [], what_to_fix = []\<rparr> ''bot'']
      (empty_store, []))) ''n'' = Some t
   \<and> tr_retry_count t = 1 \<and> tr_retry_count t < tr_max_retries t"
proof -
  let ?cs = "[FreeTask 1 ''n'' ''p'' ''title'' ''text'' ''human'',
       Reject 2 ''n'' \<lparr>failed_criterion = [], testreport_evidence = [], what_to_fix = []\<rparr> ''bot'']"
  have "\<exists>t. get_op memory_ops (fst (drive (do_lc_call memory_ops) ?cs (empty_store, []))) ''n'' = Some t
      \<and> tr_retry_count t = 1 \<and> tr_status t = T_BACKLOG"
    by (simp add: create_free_task_def create_plan_task_def reject_review_def must_get_def
        save_task_def emit_def escalate_if_exhausted_def memory_ops_def memory_get_def
        memory_save_def memory_append_def empty_store_def default_max_review_retries_def
        is_closed_status_def Let_def)
  with review_retries_bounded [of ?cs "''n''"] show ?thesis by blast
qed

text \<open>
  The history is append-only and a closed task is final: for every sequence of
  lifecycle calls after another, the events recorded before are a prefix of the events
  recorded after, and a task that was done or cancelled is still there, unchanged in
  every field.
\<close>

theorem lifecycle_append_only:
  assumes "l = drive (do_lc_call memory_ops) cs (empty_store, [])"
    and "l' = drive (do_lc_call memory_ops) ds l"
  shows "(\<exists>es. ms_events (fst l') = ms_events (fst l) @ es)
     \<and> (\<forall>i t. get_op memory_ops (fst l) i = Some t \<and> tr_status t \<in> {T_DONE, T_CANCELLED}
          \<longrightarrow> get_op memory_ops (fst l') i = Some t)"
proof -
  have "mem.store_ok (fst l)"
    using mem.lc_calls_good [of "(empty_store, [])" cs] assms(1) by (simp add: mem.good_step_def)
  from mem.lc_calls_good [OF this, of ds] show ?thesis
    using assms(2)
    by (auto simp: mem.good_step_def mem.final_def mem.extends_def is_closed_status_def)
qed

lemma lifecycle_append_only_witness:
  "\<exists>es. ms_events (fst (drive (do_lc_call memory_ops)
       [FreeTask 5 ''m'' ''p'' ''b'' ''d'' ''human'']
       (drive (do_lc_call memory_ops) [FreeTask 1 ''n'' ''p'' ''a'' ''d'' ''human''] (empty_store, []))))
     = ms_events (fst (drive (do_lc_call memory_ops)
       [FreeTask 1 ''n'' ''p'' ''a'' ''d'' ''human''] (empty_store, []))) @ es"
  using lifecycle_append_only [OF refl refl, of "[FreeTask 5 ''m'' ''p'' ''b'' ''d'' ''human'']"
      "[FreeTask 1 ''n'' ''p'' ''a'' ''d'' ''human'']"] by blast

end
