(* ===== verification/GuardTypes.thy ===== *)
theory GuardTypes
  imports PyValue
begin

text \<open>
  The vocabulary of the guardrails engine,
  \<^verbatim>\<open>packages/shared-guardrails/src/shared_guardrails/types.py\<close>: hook points, severities
  (ordered as the engine ranks them), the six actions with their precedence, the context a
  check inspects and what a check, a guardrail and a pipeline report.
\<close>

section \<open>Hooks, severities, actions\<close>

datatype hook_point = PreLlm | PostLlm | PreTool | PostTool

definition hook_points :: "hook_point list" where
  "hook_points = [PreLlm, PostLlm, PreTool, PostTool]"

fun hook_name :: "hook_point \<Rightarrow> string" where
  "hook_name PreLlm = ''pre_llm''"
| "hook_name PostLlm = ''post_llm''"
| "hook_name PreTool = ''pre_tool''"
| "hook_name PostTool = ''post_tool''"

datatype severity = SevInfo | SevLow | SevMedium | SevHigh | SevCritical

fun severity_rank :: "severity \<Rightarrow> nat" where
  "severity_rank SevInfo = 0"
| "severity_rank SevLow = 1"
| "severity_rank SevMedium = 2"
| "severity_rank SevHigh = 3"
| "severity_rank SevCritical = 4"

lemma severity_rank_inj: "severity_rank a = severity_rank b \<Longrightarrow> a = b"
  by (cases a; cases b) simp_all

instantiation severity :: linorder
begin

definition less_eq_severity :: "severity \<Rightarrow> severity \<Rightarrow> bool" where
  "a \<le> b \<longleftrightarrow> severity_rank a \<le> severity_rank b"

definition less_severity :: "severity \<Rightarrow> severity \<Rightarrow> bool" where
  "a < b \<longleftrightarrow> severity_rank a < severity_rank b"

instance
  by standard (auto simp: less_eq_severity_def less_severity_def severity_rank_inj)

end

lemma severity_bottom [simp]: "SevInfo \<le> s"
  by (simp add: less_eq_severity_def)

datatype guard_action = BLOCK | REDACT | WARN | RETRY_WITH_FEEDBACK | ESCALATE_TO_HUMAN | TRANSFORM

fun action_value :: "guard_action \<Rightarrow> string" where
  "action_value BLOCK = ''block''"
| "action_value REDACT = ''redact''"
| "action_value WARN = ''warn''"
| "action_value RETRY_WITH_FEEDBACK = ''retry_with_feedback''"
| "action_value ESCALATE_TO_HUMAN = ''escalate_to_human''"
| "action_value TRANSFORM = ''transform''"

section \<open>What a check sees and says\<close>

record guard_context =
  gc_hook :: hook_point
  gc_prompt :: "string option"
  gc_response :: "string option"
  gc_tool_name :: "string option"
  gc_tool_args :: pydict
  gc_tool_result :: pyval
  gc_metadata :: pydict

text \<open>\<^verbatim>\<open>x or ""\<close> on an optional string.\<close>

definition or_empty :: "string option \<Rightarrow> string" where
  "or_empty x = (case x of Some s \<Rightarrow> s | None \<Rightarrow> [])"

definition primary_text :: "guard_context \<Rightarrow> string" where
  "primary_text c =
     (case gc_hook c of
        PreLlm \<Rightarrow> or_empty (gc_prompt c)
      | PostLlm \<Rightarrow> or_empty (gc_response c)
      | PreTool \<Rightarrow> or_empty (gc_tool_name c)
      | PostTool \<Rightarrow> (case gc_tool_result c of PNone \<Rightarrow> [] | v \<Rightarrow> py_str v))"

record guard_result =
  gr_triggered :: bool
  gr_severity :: severity
  gr_detail :: string
  gr_action :: "guard_action option"
  gr_payload :: pydict

definition guard_ok :: guard_result where
  "guard_ok = \<lparr>gr_triggered = False, gr_severity = SevInfo, gr_detail = [], gr_action = None,
               gr_payload = []\<rparr>"

record guard_outcome =
  go_type :: string
  go_triggered :: bool
  go_severity :: severity
  go_detail :: string
  go_action :: "guard_action option"
  go_payload :: pydict

record pipeline_decision =
  dc_hook :: hook_point
  dc_triggered :: bool
  dc_action :: "guard_action option"
  dc_outcomes :: "guard_outcome list"

definition decision_allowed :: "pipeline_decision \<Rightarrow> bool" where
  "decision_allowed d \<longleftrightarrow> dc_action d \<notin> {Some BLOCK, Some ESCALATE_TO_HUMAN}"

definition triggered_outcomes :: "pipeline_decision \<Rightarrow> guard_outcome list" where
  "triggered_outcomes d = filter go_triggered (dc_outcomes d)"

section \<open>Precedence\<close>

definition action_precedence :: "guard_action list" where
  "action_precedence =
     [BLOCK, ESCALATE_TO_HUMAN, RETRY_WITH_FEEDBACK, TRANSFORM, REDACT, WARN]"

text \<open>The position in the table, its length for an action that is not in it.\<close>

definition action_rank :: "guard_action \<Rightarrow> nat" where
  "action_rank a = length (takeWhile (\<lambda>b. b \<noteq> a) action_precedence)"

fun severe_loop :: "guard_action list \<Rightarrow> nat \<Rightarrow> guard_action option \<Rightarrow> guard_action option" where
  "severe_loop [] best decisive = decisive"
| "severe_loop (a # as) best decisive =
     (if action_rank a < best then severe_loop as (action_rank a) (Some a)
      else severe_loop as best decisive)"

definition most_severe_action :: "guard_action list \<Rightarrow> guard_action option" where
  "most_severe_action as = severe_loop as (length action_precedence) None"

text \<open>The maximum of \<^verbatim>\<open>_max_severity\<close> in \<^verbatim>\<open>actions.py\<close>.\<close>

definition max_severity :: "guard_outcome list \<Rightarrow> severity" where
  "max_severity os =
     fold (\<lambda>x best. if best < go_severity x then go_severity x else best) os SevInfo"

lemma action_rank_simps [simp]:
  "action_rank BLOCK = 0"
  "action_rank ESCALATE_TO_HUMAN = 1"
  "action_rank RETRY_WITH_FEEDBACK = 2"
  "action_rank TRANSFORM = 3"
  "action_rank REDACT = 4"
  "action_rank WARN = 5"
  by (simp_all add: action_rank_def action_precedence_def)

lemma action_rank_bound: "action_rank a < length action_precedence"
  by (cases a) (simp_all add: action_precedence_def)

lemma action_rank_inj: "action_rank a = action_rank b \<Longrightarrow> a = b"
  by (cases a; cases b) simp_all

lemma severe_loop_cases:
  "(severe_loop as best d = d \<and> (\<forall>b \<in> set as. best \<le> action_rank b))
   \<or> (\<exists>a \<in> set as. severe_loop as best d = Some a \<and> action_rank a < best
        \<and> (\<forall>b \<in> set as. action_rank a \<le> action_rank b))"
proof (induction as arbitrary: best d)
  case (Cons a as)
  show ?case
  proof (cases "action_rank a < best")
    case True
    then show ?thesis
      using Cons.IH [of "action_rank a" "Some a"] by (auto intro: less_imp_le less_trans)
  next
    case False
    then show ?thesis using Cons.IH [of best d] by (auto simp: not_less)
  qed
qed simp

lemma most_severe_None [simp]: "most_severe_action as = None \<longleftrightarrow> as = []"
proof (cases as)
  case (Cons a l)
  have "\<not> length action_precedence \<le> action_rank a"
    using action_rank_bound [of a] by simp
  then show ?thesis
    using severe_loop_cases [of as "length action_precedence" None] Cons
    by (auto simp: most_severe_action_def)
qed (simp add: most_severe_action_def)

lemma most_severe_Some:
  "most_severe_action as = Some a
     \<Longrightarrow> a \<in> set as \<and> (\<forall>b \<in> set as. action_rank a \<le> action_rank b)"
  using severe_loop_cases [of as "length action_precedence" None]
  by (auto simp: most_severe_action_def)

text \<open>The decisive action stops the call exactly when one of the actions does.\<close>

lemma most_severe_stops:
  "most_severe_action as \<in> {Some BLOCK, Some ESCALATE_TO_HUMAN}
     \<longleftrightarrow> BLOCK \<in> set as \<or> ESCALATE_TO_HUMAN \<in> set as"
proof (cases "most_severe_action as")
  case (Some a)
  from most_severe_Some [OF Some] have a: "a \<in> set as" "\<forall>b \<in> set as. action_rank a \<le> action_rank b"
    by simp_all
  have "action_rank a \<le> 1 \<longleftrightarrow> a \<in> {BLOCK, ESCALATE_TO_HUMAN}"
    by (cases a) simp_all
  then show ?thesis using a Some by (force dest: bspec)
next
  case None
  then have "as = []" by simp
  then show ?thesis by (simp add: most_severe_action_def)
qed

lemma max_severity_ge:
  assumes "o1 \<in> set os"
  shows "go_severity o1 \<le> max_severity os"
proof -
  have acc: "s \<le> fold (\<lambda>x best. if best < go_severity x then go_severity x else best) os s" for os s
    by (induction os arbitrary: s) (auto intro: order_trans less_imp_le)
  have "go_severity o1 \<le> fold (\<lambda>x best. if best < go_severity x then go_severity x else best) os s"
    if "o1 \<in> set os" for s
    using that
  proof (induction os arbitrary: s)
    case (Cons x os)
    show ?case
    proof (cases "x = o1")
      case True
      then show ?thesis
        using acc [of "if s < go_severity x then go_severity x else s" os]
        by (auto intro: order_trans simp: not_less split: if_splits)
    qed (use Cons in auto)
  qed simp
  then show ?thesis using assms by (simp add: max_severity_def)
qed

end
