(* ===== verification/GuardConfig.thy ===== *)
theory GuardConfig
  imports GuardTypes
begin

text \<open>
  The declarative configuration of the guardrails,
  \<^verbatim>\<open>packages/shared-guardrails/src/shared_guardrails/config.py\<close>: one entry, the parser of
  a document of entries per hook, and its inverse, which carries a resolved configuration
  to the runtime. A \<^verbatim>\<open>PipelineConfig\<close> has a list for every hook, so it is a function.
\<close>

section \<open>Entries\<close>

datatype config_error =
    EntryNotMapping hook_point nat
  | MissingType hook_point nat
  | ConfigNotMapping string hook_point
  | IdNotString string hook_point
  | BadOnError string hook_point
  | InvalidAction pyval
  | InvalidSeverity pyval
  | RootNotMapping
  | GuardrailsNotMapping
  | UnknownHook string
  | HookNotList hook_point
  | LayerMismatch
  | LockedFieldOverride hook_point string
  | UnknownGuardrailType string
  | BadCheckConfig string
  | CheckRaised string

record guard_spec =
  sp_type :: string
  sp_config :: pydict
  sp_action :: "guard_action option"
  sp_locked :: bool
  sp_id :: "string option"
  sp_on_error :: "string option"

definition spec_key :: "guard_spec \<Rightarrow> string" where
  "spec_key s = (if or_empty (sp_id s) = [] then sp_type s else or_empty (sp_id s))"

definition effective_on_error :: "guard_spec \<Rightarrow> string" where
  "effective_on_error s =
     (case sp_on_error s of Some e \<Rightarrow> e | None \<Rightarrow> if sp_locked s then ''block'' else ''warn'')"

text \<open>A string names an action when its lower-case form is one of the six values.\<close>

definition coerce_action :: "pyval \<Rightarrow> (config_error, guard_action option) result" where
  "coerce_action v =
     (if v = PNone then Inr None
      else case List.find (\<lambda>a. action_value a = lower (py_str v)) action_precedence of
             Some a \<Rightarrow> Inr (Some a) | None \<Rightarrow> Inl (InvalidAction v))"

definition spec_to_dict :: "guard_spec \<Rightarrow> pydict" where
  "spec_to_dict s =
     [(''type'', PStr (sp_type s))]
     @ (if sp_config s \<noteq> [] then [(''config'', PDict (sp_config s))] else [])
     @ (case sp_action s of Some a \<Rightarrow> [(''action'', PStr (action_value a))] | None \<Rightarrow> [])
     @ (if sp_locked s then [(''locked'', PBool True)] else [])
     @ (case sp_id s of Some i \<Rightarrow> [(''id'', PStr i)] | None \<Rightarrow> [])
     @ (case sp_on_error s of Some e \<Rightarrow> [(''on_error'', PStr e)] | None \<Rightarrow> [])"

definition config_of :: "hook_point \<Rightarrow> string \<Rightarrow> pyval \<Rightarrow> (config_error, pydict) result" where
  "config_of h ty v =
     (case v of PNone \<Rightarrow> Inr [] | PDict d \<Rightarrow> Inr d | _ \<Rightarrow> Inl (ConfigNotMapping ty h))"

definition id_of :: "hook_point \<Rightarrow> string \<Rightarrow> pyval \<Rightarrow> (config_error, string option) result" where
  "id_of h ty v =
     (case v of PNone \<Rightarrow> Inr None | PStr i \<Rightarrow> Inr (Some i) | _ \<Rightarrow> Inl (IdNotString ty h))"

definition on_error_of :: "hook_point \<Rightarrow> string \<Rightarrow> pyval \<Rightarrow> (config_error, string option) result" where
  "on_error_of h ty v =
     (if v = PNone then Inr None
      else if lower (py_str v) \<in> {''warn'', ''block''} then Inr (Some (lower (py_str v)))
      else Inl (BadOnError ty h))"

definition parse_spec :: "hook_point \<Rightarrow> nat \<Rightarrow> pyval \<Rightarrow> (config_error, guard_spec) result" where
  "parse_spec h index raw =
     (case raw of
        PDict d \<Rightarrow>
          (case dget d ''type'' of
             PStr ty \<Rightarrow>
               if ty = [] then Inl (MissingType h index)
               else bindr (config_of h ty (dget_default d ''config'' (PDict []))) (\<lambda>cfg.
                    bindr (id_of h ty (dget d ''id'')) (\<lambda>i.
                    bindr (on_error_of h ty (dget d ''on_error'')) (\<lambda>oe.
                    bindr (coerce_action (dget d ''action'')) (\<lambda>a.
                    Inr \<lparr>sp_type = ty, sp_config = cfg, sp_action = a,
                         sp_locked = truthy (dget_default d ''locked'' (PBool False)),
                         sp_id = i, sp_on_error = oe\<rparr>))))
           | _ \<Rightarrow> Inl (MissingType h index))
      | _ \<Rightarrow> Inl (EntryNotMapping h index))"

section \<open>Documents\<close>

type_synonym pipeline_config = "hook_point \<Rightarrow> guard_spec list"

definition empty_config :: pipeline_config where
  "empty_config = (\<lambda>h. [])"

definition config_is_empty :: "pipeline_config \<Rightarrow> bool" where
  "config_is_empty cfg \<longleftrightarrow> list_all (\<lambda>h. cfg h = []) hook_points"

definition config_to_dict :: "pipeline_config \<Rightarrow> pydict" where
  "config_to_dict cfg =
     [(''guardrails'', PDict (map (\<lambda>h. (hook_name h, PList (map (PDict \<circ> spec_to_dict) (cfg h))))
        (filter (\<lambda>h. cfg h \<noteq> []) hook_points)))]"

fun parse_entries :: "hook_point \<Rightarrow> nat \<Rightarrow> pyval list \<Rightarrow> (config_error, guard_spec list) result" where
  "parse_entries h i [] = Inr []"
| "parse_entries h i (r # rs) =
     bindr (parse_spec h i r) (\<lambda>s. bindr (parse_entries h (Suc i) rs) (\<lambda>ss. Inr (s # ss)))"

definition find_hook :: "string \<Rightarrow> hook_point option" where
  "find_hook k = List.find (\<lambda>h. hook_name h = k) hook_points"

fun parse_hooks :: "pydict \<Rightarrow> pipeline_config \<Rightarrow> (config_error, pipeline_config) result" where
  "parse_hooks [] cfg = Inr cfg"
| "parse_hooks ((k, entries) # rest) cfg =
     (case find_hook k of
        None \<Rightarrow> Inl (UnknownHook k)
      | Some h \<Rightarrow>
          (case entries of
             PNone \<Rightarrow> parse_hooks rest (cfg(h := []))
           | PList xs \<Rightarrow> bindr (parse_entries h 0 xs) (\<lambda>ss. parse_hooks rest (cfg(h := ss)))
           | _ \<Rightarrow> Inl (HookNotList h)))"

definition parse_config :: "pyval \<Rightarrow> (config_error, pipeline_config) result" where
  "parse_config source =
     (if \<not> truthy source then Inr empty_config
      else case source of
        PDict d \<Rightarrow>
          (case dget_default d ''guardrails'' source of
             PNone \<Rightarrow> Inr empty_config
           | PDict hooks \<Rightarrow> parse_hooks hooks empty_config
           | _ \<Rightarrow> Inl GuardrailsNotMapping)
      | _ \<Rightarrow> Inl RootNotMapping)"

section \<open>Round trip\<close>

text \<open>What the parser guarantees of an entry, and what the inverse needs of it.\<close>

definition spec_ok :: "guard_spec \<Rightarrow> bool" where
  "spec_ok s \<longleftrightarrow> sp_type s \<noteq> [] \<and> sp_on_error s \<in> {None, Some ''warn'', Some ''block''}"

definition config_ok :: "pipeline_config \<Rightarrow> bool" where
  "config_ok cfg \<longleftrightarrow> (\<forall>h. \<forall>s \<in> set (cfg h). spec_ok s)"

lemma empty_config_ok [simp]: "config_ok empty_config"
  by (simp add: config_ok_def empty_config_def)

lemma parse_spec_ok: "parse_spec h i raw = Inr s \<Longrightarrow> spec_ok s"
  by (auto simp: parse_spec_def spec_ok_def on_error_of_def bindr_Inr_iff
      split: pyval.splits if_splits)

lemma parse_entries_ok: "parse_entries h i rs = Inr ss \<Longrightarrow> s \<in> set ss \<Longrightarrow> spec_ok s"
  by (induction h i rs arbitrary: ss rule: parse_entries.induct)
    (auto simp: bindr_Inr_iff dest: parse_spec_ok)

lemma parse_hooks_step:
  assumes "parse_hooks ((k, entries) # rest) cfg = Inr cfg'"
  shows "\<exists>h ss. parse_hooks rest (cfg(h := ss)) = Inr cfg' \<and> (\<forall>s \<in> set ss. spec_ok s)"
proof -
  obtain h where h: "find_hook k = Some h"
    using assms by (cases "find_hook k") simp_all
  show ?thesis
  proof (cases entries)
    case PNone
    then show ?thesis using assms h by (intro exI [of _ h] exI [of _ "[]"]) simp
  next
    case (PList xs)
    then obtain ss where "parse_entries h 0 xs = Inr ss" "parse_hooks rest (cfg(h := ss)) = Inr cfg'"
      using assms h unfolding parse_hooks.simps by (simp add: bindr_Inr_iff) blast
    then show ?thesis using parse_entries_ok by blast
  qed (use assms h in simp_all)
qed

lemma parse_hooks_ok: "parse_hooks d cfg = Inr cfg' \<Longrightarrow> config_ok cfg \<Longrightarrow> config_ok cfg'"
proof (induction d arbitrary: cfg)
  case (Cons e rest)
  obtain h ss where "parse_hooks rest (cfg(h := ss)) = Inr cfg'" "\<forall>s \<in> set ss. spec_ok s"
    using parse_hooks_step Cons.prems(1) by (cases e) blast
  moreover from this(2) have "config_ok (cfg(h := ss))"
    using Cons.prems(2) by (simp add: config_ok_def)
  ultimately show ?case using Cons.IH by blast
qed simp

lemma parse_config_ok:
  assumes "parse_config v = Inr cfg"
  shows "config_ok cfg"
proof (cases "truthy v")
  case True
  with assms obtain d where "v = PDict d"
    by (cases v) (simp_all add: parse_config_def)
  then show ?thesis
    using assms True
    by (cases "dget_default d ''guardrails'' v") (auto simp: parse_config_def dest: parse_hooks_ok)
qed (use assms in \<open>auto simp: parse_config_def\<close>)

lemma action_value_round: "coerce_action (PStr (action_value a)) = Inr (Some a)"
  by (cases a) (simp_all add: coerce_action_def py_str_def action_precedence_def lower_char_def Let_def)

lemma dget_append [simp]:
  "dget (xs @ ys) k = (if k \<in> fst ` set xs then dget xs k else dget ys k)"
  by (induction xs) (auto split: if_splits simp: image_iff)

lemma dget_default_append [simp]:
  "dget_default (xs @ ys) k x = (if k \<in> fst ` set xs then dget_default xs k x else dget_default ys k x)"
  by (induction xs) (auto split: if_splits simp: image_iff)

text \<open>The six lookups of the parser in a written entry.\<close>

lemma dget_spec_to_dict:
  "dget (spec_to_dict s) ''type'' = PStr (sp_type s)"
  "dget_default (spec_to_dict s) ''config'' (PDict []) = PDict (sp_config s)"
  "dget (spec_to_dict s) ''action'' = (case sp_action s of Some a \<Rightarrow> PStr (action_value a) | None \<Rightarrow> PNone)"
  "dget_default (spec_to_dict s) ''locked'' (PBool False) = PBool (sp_locked s)"
  "dget (spec_to_dict s) ''id'' = (case sp_id s of Some i \<Rightarrow> PStr i | None \<Rightarrow> PNone)"
  "dget (spec_to_dict s) ''on_error'' = (case sp_on_error s of Some e \<Rightarrow> PStr e | None \<Rightarrow> PNone)"
  by (auto simp: spec_to_dict_def split: option.split)

lemma on_error_round:
  "e \<in> {''warn'', ''block''} \<Longrightarrow> on_error_of h ty (PStr e) = Inr (Some e)"
  by (auto simp: on_error_of_def py_str_def lower_char_def Let_def)

lemma parse_spec_round:
  assumes "spec_ok s"
  shows "parse_spec h i (PDict (spec_to_dict s)) = Inr s"
proof -
  have "on_error_of h (sp_type s) (case sp_on_error s of Some e \<Rightarrow> PStr e | None \<Rightarrow> PNone) = Inr (sp_on_error s)"
    using assms on_error_round
    by (auto simp: spec_ok_def on_error_of_def [of _ _ PNone] split: option.split)
  moreover have "coerce_action (case sp_action s of Some a \<Rightarrow> PStr (action_value a) | None \<Rightarrow> PNone)
      = Inr (sp_action s)"
    by (simp add: action_value_round coerce_action_def [of PNone] split: option.split)
  moreover have "id_of h (sp_type s) (case sp_id s of Some i \<Rightarrow> PStr i | None \<Rightarrow> PNone) = Inr (sp_id s)"
    by (simp add: id_of_def split: option.split)
  ultimately show ?thesis
    using assms by (simp add: parse_spec_def dget_spec_to_dict config_of_def spec_ok_def)
qed

lemma parse_entries_round:
  "\<forall>s \<in> set ss. spec_ok s \<Longrightarrow> parse_entries h i (map (PDict \<circ> spec_to_dict) ss) = Inr ss"
  by (induction ss arbitrary: i) (simp_all add: parse_spec_round)

lemma find_hook_name [simp]: "find_hook (hook_name h) = Some h"
  by (cases h) (simp_all add: find_hook_def hook_points_def)

lemma parse_hooks_round:
  assumes "config_ok cfg"
  shows "parse_hooks (map (\<lambda>h. (hook_name h, PList (map (PDict \<circ> spec_to_dict) (cfg h)))) hs) c
           = Inr (\<lambda>h. if h \<in> set hs then cfg h else c h)"
proof (induction hs arbitrary: c)
  case (Cons h hs)
  have "parse_entries h 0 (map (PDict \<circ> spec_to_dict) (cfg h)) = Inr (cfg h)"
    using assms by (simp add: parse_entries_round config_ok_def)
  then show ?case by (auto simp: Cons.IH [unfolded o_def] o_def fun_eq_iff)
qed simp

lemma config_round_trip:
  assumes "config_ok cfg"
  shows "parse_config (PDict (config_to_dict cfg)) = Inr cfg"
proof -
  have "h \<in> set hook_points" for h
    by (cases h) (simp_all add: hook_points_def)
  then have "(\<lambda>h. if h \<in> set (filter (\<lambda>h. cfg h \<noteq> []) hook_points) then cfg h else empty_config h) = cfg"
    by (auto simp: empty_config_def)
  then show ?thesis
    using parse_hooks_round [OF assms, of "filter (\<lambda>h. cfg h \<noteq> []) hook_points" empty_config]
    by (simp add: parse_config_def config_to_dict_def del: filter_set)
qed

end
