(* ===== verification/GuardLayers.thy ===== *)
theory GuardLayers
  imports GuardConfig
begin

text \<open>
  The three layers of the guardrails configuration and their merge,
  \<^verbatim>\<open>packages/shared-guardrails/src/shared_guardrails/layers.py\<close>. The accumulator of a
  hook is a dict from guardrail keys to entries, an association list here; the entries are
  ordered by the counter they were created with.
\<close>

section \<open>Layers and records\<close>

datatype layer_name = PlatformLayer | TenantLayer | ProjectLayer

record layer_config =
  lc_layer :: layer_name
  lc_config :: pipeline_config

record field_provenance =
  fp_hook :: hook_point
  fp_key :: string
  fp_type :: string
  fp_layer :: layer_name
  fp_locked :: bool

datatype reject_reason = RemovalOfLocked | OverrideOfLocked

record rejected_override =
  ro_hook :: hook_point
  ro_key :: string
  ro_by :: layer_name
  ro_reason :: reject_reason

record resolved_config =
  rc_config :: pipeline_config
  rc_provenance :: "hook_point \<Rightarrow> field_provenance list"
  rc_rejected :: "rejected_override list"

definition is_removal :: "guard_spec \<Rightarrow> bool" where
  "is_removal s = truthy (dget_default (sp_config s) ''remove'' (PBool False))"

definition winning_layer :: "resolved_config \<Rightarrow> hook_point \<Rightarrow> string \<Rightarrow> layer_name option" where
  "winning_layer r h k =
     map_option fp_layer (List.find (\<lambda>p. fp_key p = k) (rc_provenance r h))"

definition locked_keys :: "resolved_config \<Rightarrow> hook_point \<Rightarrow> string list" where
  "locked_keys r h = map fp_key (filter fp_locked (rc_provenance r h))"

section \<open>Merging one hook\<close>

record merge_entry =
  en_spec :: guard_spec
  en_layer :: layer_name
  en_locked :: bool
  en_order :: nat

type_synonym merge_state = "(string \<times> merge_entry) list \<times> rejected_override list \<times> nat"

definition override_entry ::
  "string \<Rightarrow> guard_spec \<Rightarrow> layer_name \<Rightarrow> (string \<times> merge_entry) list \<Rightarrow> (string \<times> merge_entry) list" where
  "override_entry key s layer entries =
     map (\<lambda>(k, x). if k = key then (k, x\<lparr>en_spec := s, en_layer := layer\<rparr>) else (k, x)) entries"

definition merge_spec ::
  "hook_point \<Rightarrow> bool \<Rightarrow> layer_name \<Rightarrow> guard_spec \<Rightarrow> merge_state \<Rightarrow> (config_error, merge_state) result" where
  "merge_spec h strict layer s st =
     (let (entries, rejected, next) = st; key = spec_key s in
      case map_of entries key of
        Some e \<Rightarrow>
          if en_locked e then
            (if strict then Inl (LockedFieldOverride h key)
             else Inr (entries,
                       rejected @ [\<lparr>ro_hook = h, ro_key = key, ro_by = layer,
                         ro_reason = (if is_removal s then RemovalOfLocked else OverrideOfLocked)\<rparr>],
                       next))
          else if is_removal s then Inr (filter (\<lambda>x. fst x \<noteq> key) entries, rejected, next)
          else Inr (override_entry key s layer entries, rejected, next)
      | None \<Rightarrow>
          if is_removal s then Inr st
          else Inr (entries @ [(key, \<lparr>en_spec = s, en_layer = layer,
                      en_locked = (sp_locked s \<and> layer = PlatformLayer), en_order = next\<rparr>)],
                    rejected, Suc next))"

fun merge_specs ::
  "hook_point \<Rightarrow> bool \<Rightarrow> (layer_name \<times> guard_spec) list \<Rightarrow> merge_state \<Rightarrow> (config_error, merge_state) result" where
  "merge_specs h strict [] st = Inr st"
| "merge_specs h strict ((layer, s) # rest) st =
     bindr (merge_spec h strict layer s st) (merge_specs h strict rest)"

definition layer_specs :: "hook_point \<Rightarrow> layer_config list \<Rightarrow> (layer_name \<times> guard_spec) list" where
  "layer_specs h layers = concat (map (\<lambda>l. map (Pair (lc_layer l)) (lc_config l h)) layers)"

definition provenance_of :: "hook_point \<Rightarrow> merge_entry \<Rightarrow> field_provenance" where
  "provenance_of h e =
     \<lparr>fp_hook = h, fp_key = spec_key (en_spec e), fp_type = sp_type (en_spec e),
      fp_layer = en_layer e, fp_locked = en_locked e\<rparr>"

definition merge_hook ::
  "hook_point \<Rightarrow> bool \<Rightarrow> layer_config list
     \<Rightarrow> (config_error, guard_spec list \<times> field_provenance list \<times> rejected_override list) result" where
  "merge_hook h strict layers =
     bindr (merge_specs h strict (layer_specs h layers) ([], [], 0)) (\<lambda>(entries, rejected, _).
       let ordered = sort_key en_order (map snd entries)
       in Inr (map en_spec ordered, map (provenance_of h) ordered, rejected))"

section \<open>Resolution\<close>

definition layer_from_dict :: "layer_name \<Rightarrow> pyval \<Rightarrow> (config_error, layer_config) result" where
  "layer_from_dict layer source =
     bindr (parse_config source) (\<lambda>c. Inr \<lparr>lc_layer = layer, lc_config = c\<rparr>)"

fun resolve_hooks ::
  "bool \<Rightarrow> layer_config list \<Rightarrow> hook_point list \<Rightarrow> resolved_config \<Rightarrow> (config_error, resolved_config) result" where
  "resolve_hooks strict layers [] r = Inr r"
| "resolve_hooks strict layers (h # hs) r =
     bindr (merge_hook h strict layers) (\<lambda>(specs, provs, rej).
       resolve_hooks strict layers hs
         (r\<lparr>rc_config := (rc_config r)(h := specs), rc_provenance := (rc_provenance r)(h := provs),
            rc_rejected := rc_rejected r @ rej\<rparr>))"

definition supplied :: "layer_name \<Rightarrow> layer_config option \<Rightarrow> (config_error, layer_config list) result" where
  "supplied expected arg =
     (case arg of
        None \<Rightarrow> Inr []
      | Some l \<Rightarrow> if lc_layer l \<noteq> expected then Inl LayerMismatch else Inr [l])"

definition resolve_config ::
  "bool \<Rightarrow> layer_config option \<Rightarrow> layer_config option \<Rightarrow> layer_config option
     \<Rightarrow> (config_error, resolved_config) result" where
  "resolve_config strict platform tenant project =
     bindr (supplied PlatformLayer platform) (\<lambda>p.
     bindr (supplied TenantLayer tenant) (\<lambda>t.
     bindr (supplied ProjectLayer project) (\<lambda>j.
     resolve_hooks strict (p @ t @ j) hook_points
       \<lparr>rc_config = empty_config, rc_provenance = (\<lambda>h. []), rc_rejected = []\<rparr>)))"

section \<open>The accumulator\<close>

lemma keys_override [simp]: "map fst (override_entry key s layer entries) = map fst entries"
  by (induction entries) (auto simp: override_entry_def)

lemma map_of_override [simp]:
  "map_of (override_entry key s layer entries) k =
     (if k = key then map_option (\<lambda>x. x\<lparr>en_spec := s, en_layer := layer\<rparr>) (map_of entries k)
      else map_of entries k)"
  by (induction entries) (auto simp: override_entry_def)

lemma map_of_drop [simp]:
  "map_of (filter (\<lambda>x. fst x \<noteq> key) entries) k = (if k = key then None else map_of entries k)"
  by (induction entries) auto

text \<open>One spec, case by case.\<close>

lemma merge_spec_cases:
  assumes "merge_spec h strict layer s (entries, rejected, n) = Inr st'"
  obtains
    (reject) e where "map_of entries (spec_key s) = Some e" "en_locked e" "\<not> strict"
      "st' = (entries, rejected @ [\<lparr>ro_hook = h, ro_key = spec_key s, ro_by = layer,
                ro_reason = (if is_removal s then RemovalOfLocked else OverrideOfLocked)\<rparr>], n)"
  | (drop) e where "map_of entries (spec_key s) = Some e" "\<not> en_locked e" "is_removal s"
      "st' = (filter (\<lambda>x. fst x \<noteq> spec_key s) entries, rejected, n)"
  | (override) e where "map_of entries (spec_key s) = Some e" "\<not> en_locked e" "\<not> is_removal s"
      "st' = (override_entry (spec_key s) s layer entries, rejected, n)"
  | (absent) "map_of entries (spec_key s) = None" "is_removal s" "st' = (entries, rejected, n)"
  | (fresh) "map_of entries (spec_key s) = None" "\<not> is_removal s"
      "st' = (entries @ [(spec_key s, \<lparr>en_spec = s, en_layer = layer,
                en_locked = (sp_locked s \<and> layer = PlatformLayer), en_order = n\<rparr>)], rejected, Suc n)"
proof (cases "map_of entries (spec_key s)")
  case None
  then show ?thesis
    using assms absent fresh by (cases "is_removal s") (simp_all add: merge_spec_def)
next
  case (Some e)
  then show ?thesis
    using assms reject drop override
    by (cases "en_locked e"; cases strict; cases "is_removal s") (simp_all add: merge_spec_def)
qed

text \<open>
  The invariant: keys are distinct and each is the key of its entry, the counters are
  distinct and below the next one.
\<close>

definition merge_ok :: "merge_state \<Rightarrow> bool" where
  "merge_ok st \<longleftrightarrow>
     (case st of (entries, rejected, n) \<Rightarrow>
        distinct (map fst entries)
        \<and> (\<forall>k e. map_of entries k = Some e \<longrightarrow> spec_key (en_spec e) = k))"

lemma merge_ok_init [simp]: "merge_ok ([], rej, n)"
  by (simp add: merge_ok_def)

lemma merge_spec_ok:
  assumes "merge_ok (entries, rejected, n)" and "merge_spec h strict layer s (entries, rejected, n) = Inr st'"
  shows "merge_ok st'"
  using assms(2)
proof (cases rule: merge_spec_cases)
  case fresh
  then show ?thesis using assms(1)
    by (auto simp: merge_ok_def map_add_def map_of_eq_None_iff split: option.splits)
qed (use assms(1) in \<open>auto simp: merge_ok_def distinct_map_filter\<close>)

text \<open>A locked entry is never touched again, and every attempt on it is recorded.\<close>

lemma merge_spec_locked:
  assumes "merge_spec h strict layer s (entries, rejected, n) = Inr st'"
    and "map_of entries k = Some e" and "en_locked e"
  shows "map_of (fst st') k = Some e"
  using assms(1)
  by (cases rule: merge_spec_cases) (use assms(2,3) in \<open>auto simp: map_add_def split: option.split\<close>)

lemma merge_specs_step:
  assumes "merge_specs h strict ((layer, s) # xs) st = Inr st'"
  obtains entries rejected n st1 where "st = (entries, rejected, n)"
    "merge_spec h strict layer s (entries, rejected, n) = Inr st1" "merge_specs h strict xs st1 = Inr st'"
  using assms by (cases st) (auto simp: bindr_Inr_iff)

lemma merge_specs_ok:
  "merge_specs h strict xs st = Inr st' \<Longrightarrow> merge_ok st \<Longrightarrow> merge_ok st'"
proof (induction xs arbitrary: st)
  case (Cons x xs)
  obtain layer s where x: "x = (layer, s)" by force
  from Cons.prems(1) [unfolded x] show ?case
  proof (cases rule: merge_specs_step)
    case (1 entries rejected n st1)
    then show ?thesis using Cons merge_spec_ok [OF _ 1(2)] by simp
  qed
qed simp

lemma merge_specs_locked:
  "merge_specs h strict xs st = Inr st' \<Longrightarrow> map_of (fst st) k = Some e \<Longrightarrow> en_locked e
     \<Longrightarrow> map_of (fst st') k = Some e"
proof (induction xs arbitrary: st)
  case (Cons x xs)
  obtain layer s where x: "x = (layer, s)" by force
  from Cons.prems(1) [unfolded x] show ?case
  proof (cases rule: merge_specs_step)
    case (1 entries rejected n st1)
    then show ?thesis using Cons merge_spec_locked [OF 1(2)] by simp
  qed
qed simp

lemma merge_specs_append:
  "merge_specs h strict (xs @ ys) st = bindr (merge_specs h strict xs st) (merge_specs h strict ys)"
proof (induction xs arbitrary: st)
  case (Cons x xs)
  then show ?case
    by (cases x; cases "merge_spec h strict (fst x) (snd x) st") simp_all
qed simp

text \<open>A step on another key leaves an entry alone.\<close>

lemma merge_spec_frame:
  assumes "merge_spec h strict layer s (entries, rejected, n) = Inr st'" and "k \<noteq> spec_key s"
  shows "map_of (fst st') k = map_of entries k"
  using assms(1) by (cases rule: merge_spec_cases) (use assms(2) in \<open>auto simp: map_add_def split: option.split\<close>)

lemma platform_lock_entry:
  assumes "merge_specs h strict (map (Pair PlatformLayer) ss) st = Inr st'"
    and "distinct (map spec_key ss)" and "s \<in> set ss" and "sp_locked s" and "\<not> is_removal s"
    and "map_of (fst st) (spec_key s) = None"
  shows "\<exists>k. map_of (fst st') (spec_key s)
           = Some \<lparr>en_spec = s, en_layer = PlatformLayer, en_locked = True, en_order = k\<rparr>"
  using assms
proof (induction ss arbitrary: st)
  case (Cons a ss)
  obtain entries rejected n st1 where st: "st = (entries, rejected, n)"
    and step: "merge_spec h strict PlatformLayer a (entries, rejected, n) = Inr st1"
    and rest: "merge_specs h strict (map (Pair PlatformLayer) ss) st1 = Inr st'"
    using merge_specs_step [OF Cons.prems(1) [unfolded list.map]] by blast
  show ?case
  proof (cases "a = s")
    case True
    with Cons.prems st have "map_of entries (spec_key a) = None" "\<not> is_removal a" "sp_locked a"
      by simp_all
    then have "map_of (fst st1) (spec_key s)
        = Some \<lparr>en_spec = s, en_layer = PlatformLayer, en_locked = True, en_order = n\<rparr>"
      using step True by (auto simp: merge_spec_def map_add_def)
    then show ?thesis using merge_specs_locked [OF rest] by auto
  next
    case False
    with Cons.prems have s: "s \<in> set ss" by simp
    then have "spec_key s \<in> spec_key ` set ss" by simp
    with Cons.prems(2) have "spec_key s \<noteq> spec_key a" by auto
    then have "map_of (fst st1) (spec_key s) = None"
      using merge_spec_frame [OF step] Cons.prems(6) st by simp
    then show ?thesis using Cons.IH [OF rest] Cons.prems s by simp
  qed
qed simp

text \<open>Every spec of a lower layer on a locked key is recorded as rejected.\<close>

lemma merge_specs_rejects:
  assumes "merge_specs h strict xs st = Inr st'"
  shows "set (fst (snd st)) \<subseteq> set (fst (snd st'))
     \<and> (\<forall>layer s e. (layer, s) \<in> set xs \<longrightarrow> map_of (fst st) (spec_key s) = Some e \<longrightarrow> en_locked e
          \<longrightarrow> (\<exists>q \<in> set (fst (snd st')). ro_hook q = h \<and> ro_key q = spec_key s \<and> ro_by q = layer))"
  using assms
proof (induction xs arbitrary: st)
  case (Cons x xs)
  obtain l a where x: "x = (l, a)" by force
  obtain entries rejected n st1 where st: "st = (entries, rejected, n)"
    and step: "merge_spec h strict l a (entries, rejected, n) = Inr st1"
    and rest: "merge_specs h strict xs st1 = Inr st'"
    using merge_specs_step [OF Cons.prems [unfolded x]] by blast
  have grow: "set rejected \<subseteq> set (fst (snd st1))"
    using step by (cases rule: merge_spec_cases) auto
  have hit: "\<exists>q \<in> set (fst (snd st1)). ro_hook q = h \<and> ro_key q = spec_key a \<and> ro_by q = l"
    if "map_of entries (spec_key a) = Some e" "en_locked e" for e
    using step by (cases rule: merge_spec_cases) (use that in auto)
  show ?case
    using Cons.IH [OF rest] grow hit merge_spec_locked [OF step]
    by (simp add: x st) blast
qed simp

text \<open>Nothing is invented: every entry holds a spec of one of the layers.\<close>

lemma merge_specs_source:
  assumes "merge_specs h strict xs st = Inr st'"
  shows "en_spec ` snd ` set (fst st') \<subseteq> en_spec ` snd ` set (fst st) \<union> snd ` set xs"
  using assms
proof (induction xs arbitrary: st)
  case (Cons x xs)
  obtain l a where x: "x = (l, a)" by force
  obtain entries rejected n st1 where st: "st = (entries, rejected, n)"
    and step: "merge_spec h strict l a (entries, rejected, n) = Inr st1"
    and rest: "merge_specs h strict xs st1 = Inr st'"
    using merge_specs_step [OF Cons.prems [unfolded x]] by blast
  have ov: "en_spec ` snd ` set (override_entry k a l entries) \<subseteq> en_spec ` snd ` set entries \<union> {a}" for k
    by (force simp: override_entry_def split: if_splits)
  have "en_spec ` snd ` set (fst st1) \<subseteq> en_spec ` snd ` set entries \<union> {a}"
    using step
  proof (cases rule: merge_spec_cases)
    case override
    then show ?thesis using ov by simp
  qed auto
  then have "en_spec ` snd ` set (fst st1) \<union> snd ` set xs
      \<subseteq> (en_spec ` snd ` set entries \<union> {a}) \<union> snd ` set xs"
    by (rule Un_mono) simp
  with Cons.IH [OF rest] have "en_spec ` snd ` set (fst st')
      \<subseteq> (en_spec ` snd ` set entries \<union> {a}) \<union> snd ` set xs"
    by (rule subset_trans)
  then show ?case by (simp add: x st)
qed simp

section \<open>The resolved configuration\<close>

lemma resolve_hooks_result:
  assumes "resolve_hooks strict layers hs r = Inr r'" and "distinct hs"
  shows "set (rc_rejected r) \<subseteq> set (rc_rejected r')
     \<and> (\<forall>h. h \<notin> set hs \<longrightarrow> rc_config r' h = rc_config r h \<and> rc_provenance r' h = rc_provenance r h)
     \<and> (\<forall>h \<in> set hs. \<exists>rej. merge_hook h strict layers = Inr (rc_config r' h, rc_provenance r' h, rej)
          \<and> set rej \<subseteq> set (rc_rejected r'))"
  using assms
proof (induction hs arbitrary: r)
  case (Cons h hs)
  then obtain specs provs rej where m: "merge_hook h strict layers = Inr (specs, provs, rej)"
    and rest: "resolve_hooks strict layers hs
         (r\<lparr>rc_config := (rc_config r)(h := specs), rc_provenance := (rc_provenance r)(h := provs),
            rc_rejected := rc_rejected r @ rej\<rparr>) = Inr r'"
    by (auto simp: bindr_Inr_iff)
  show ?case using Cons.IH [OF rest] Cons.prems(2) m by auto
qed simp

lemma supplied_Inr:
  "supplied n arg = Inr ls \<longleftrightarrow>
     ls = (case arg of None \<Rightarrow> [] | Some l \<Rightarrow> [l]) \<and> (\<forall>l. arg = Some l \<longrightarrow> lc_layer l = n)"
  by (auto simp: supplied_def split: option.splits)

text \<open>The specs of the lower layers for one hook, tagged with their layer.\<close>

definition lower_specs :: "hook_point \<Rightarrow> layer_config option \<Rightarrow> layer_config option \<Rightarrow> (layer_name \<times> guard_spec) list" where
  "lower_specs h t j =
     layer_specs h (case t of None \<Rightarrow> [] | Some l \<Rightarrow> [l]) @ layer_specs h (case j of None \<Rightarrow> [] | Some l \<Rightarrow> [l])"

lemma resolve_config_hook:
  assumes "resolve_config strict p t j = Inr r"
  obtains entries rej n where
    "merge_specs h strict (layer_specs h (case p of None \<Rightarrow> [] | Some l \<Rightarrow> [l]) @ lower_specs h t j) ([], [], 0)
       = Inr (entries, rej, n)"
    "rc_config r h = map en_spec (sort_key en_order (map snd entries))"
    "rc_provenance r h = map (provenance_of h) (sort_key en_order (map snd entries))"
    "set rej \<subseteq> set (rc_rejected r)"
    "\<forall>l. p = Some l \<longrightarrow> lc_layer l = PlatformLayer"
proof -
  obtain ps ts js where layers: "supplied PlatformLayer p = Inr ps" "supplied TenantLayer t = Inr ts"
      "supplied ProjectLayer j = Inr js"
    and res: "resolve_hooks strict (ps @ ts @ js) hook_points
       \<lparr>rc_config = empty_config, rc_provenance = (\<lambda>h. []), rc_rejected = []\<rparr> = Inr r"
    using assms unfolding resolve_config_def bindr_Inr_iff by blast
  have "distinct hook_points" "h \<in> set hook_points"
    by (simp_all add: hook_points_def) (cases h; simp)
  then obtain rej where "merge_hook h strict (ps @ ts @ js) = Inr (rc_config r h, rc_provenance r h, rej)"
      "set rej \<subseteq> set (rc_rejected r)"
    using resolve_hooks_result [OF res] by blast
  with layers show ?thesis
    by (auto simp: merge_hook_def bindr_Inr_iff Let_def layer_specs_def supplied_Inr lower_specs_def
        intro: that)
qed

text \<open>
  What a locked platform entry is worth: with distinct platform keys it is in the resolved
  list, alone with its key, won by the platform, and each attempt on it is recorded.
\<close>

lemma platform_lock_survives:
  assumes "resolve_config strict (Some p) t j = Inr r"
    and "distinct (map spec_key (lc_config p h))"
    and "s \<in> set (lc_config p h)" and "sp_locked s" and "\<not> is_removal s"
  shows "s \<in> set (rc_config r h)
     \<and> (\<forall>x \<in> set (rc_config r h). spec_key x = spec_key s \<longrightarrow> x = s)
     \<and> winning_layer r h (spec_key s) = Some PlatformLayer
     \<and> (\<forall>(l, x) \<in> set (lower_specs h t j). spec_key x = spec_key s \<longrightarrow>
          (\<exists>q \<in> set (rc_rejected r). ro_hook q = h \<and> ro_key q = spec_key s \<and> ro_by q = l))"
proof -
  obtain entries rej n where
    m: "merge_specs h strict (map (Pair PlatformLayer) (lc_config p h) @ lower_specs h t j) ([], [], 0)
       = Inr (entries, rej, n)"
    and cfg: "rc_config r h = map en_spec (sort_key en_order (map snd entries))"
    and prov: "rc_provenance r h = map (provenance_of h) (sort_key en_order (map snd entries))"
    and rej: "set rej \<subseteq> set (rc_rejected r)"
    by (rule resolve_config_hook [OF assms(1), of h]) (simp add: layer_specs_def)
  from m obtain st where st: "merge_specs h strict (map (Pair PlatformLayer) (lc_config p h)) ([], [], 0) = Inr st"
    and low: "merge_specs h strict (lower_specs h t j) st = Inr (entries, rej, n)"
    unfolding merge_specs_append bindr_Inr_iff by blast
  obtain k where entry: "map_of (fst st) (spec_key s)
      = Some \<lparr>en_spec = s, en_layer = PlatformLayer, en_locked = True, en_order = k\<rparr>"
    using platform_lock_entry [OF st assms(2-5)] by auto
  then have final: "map_of entries (spec_key s)
      = Some \<lparr>en_spec = s, en_layer = PlatformLayer, en_locked = True, en_order = k\<rparr>"
    using merge_specs_locked [OF low] by simp
  have ok: "merge_ok (entries, rej, n)"
    using merge_specs_ok [OF m] by simp
  have uniq: "e = \<lparr>en_spec = s, en_layer = PlatformLayer, en_locked = True, en_order = k\<rparr>"
    if e: "e \<in> snd ` set entries" "spec_key (en_spec e) = spec_key s" for e
  proof -
    obtain k' where "(k', e) \<in> set entries" using e(1) by auto
    then have "map_of entries k' = Some e"
      using ok by (simp add: merge_ok_def)
    then show ?thesis using e(2) final ok by (auto simp: merge_ok_def simp del: map_of_eq_Some_iff)
  qed
  have mem: "\<lparr>en_spec = s, en_layer = PlatformLayer, en_locked = True, en_order = k\<rparr> \<in> snd ` set entries"
    using map_of_SomeD [OF final] by force
  have "winning_layer r h (spec_key s) = Some PlatformLayer"
  proof -
    let ?es = "sort_key en_order (map snd entries)"
    have "\<exists>x \<in> set ?es. spec_key (en_spec x) = spec_key s"
      using mem by force
    then have "List.find (\<lambda>p. fp_key p = spec_key s) (map (provenance_of h) ?es) \<noteq> None"
      by (auto simp: find_None_iff provenance_of_def)
    then obtain q where q: "List.find (\<lambda>p. fp_key p = spec_key s) (map (provenance_of h) ?es) = Some q"
      by auto
    have "q \<in> provenance_of h ` snd ` set entries" and key: "fp_key q = spec_key s"
      using q by (auto simp: find_Some_iff)
        (metis image_eqI nth_mem set_map length_map length_sort nth_map set_sort)
    then obtain e where "e \<in> snd ` set entries" "q = provenance_of h e" by blast
    then have "fp_layer q = PlatformLayer"
      using uniq [of e] key by (simp add: provenance_of_def)
    with q show ?thesis by (simp add: winning_layer_def prov)
  qed
  moreover have "s \<in> set (rc_config r h)"
    using mem by (force simp: cfg)
  moreover have "x = s" if "x \<in> set (rc_config r h)" "spec_key x = spec_key s" for x
  proof -
    have "x \<in> en_spec ` snd ` set entries" using that(1) by (simp add: cfg)
    then obtain e where "e \<in> snd ` set entries" "x = en_spec e" by blast
    then show ?thesis using uniq [of e] that(2) by simp
  qed
  moreover have "\<exists>q \<in> set (rc_rejected r). ro_hook q = h \<and> ro_key q = spec_key s \<and> ro_by q = l"
    if "(l, x) \<in> set (lower_specs h t j)" "spec_key x = spec_key s" for l x
    using merge_specs_rejects [OF low] entry that rej by fastforce
  ultimately show ?thesis by auto
qed

lemma resolved_specs_source:
  assumes "resolve_config strict p t j = Inr r"
  shows "set (rc_config r h)
     \<subseteq> snd ` set (layer_specs h (case p of None \<Rightarrow> [] | Some l \<Rightarrow> [l])) \<union> snd ` set (lower_specs h t j)"
proof -
  obtain entries rej n where
    "merge_specs h strict (layer_specs h (case p of None \<Rightarrow> [] | Some l \<Rightarrow> [l]) @ lower_specs h t j) ([], [], 0)
       = Inr (entries, rej, n)"
    and cfg: "rc_config r h = map en_spec (sort_key en_order (map snd entries))"
    by (rule resolve_config_hook [OF assms, of h])
  from merge_specs_source [OF this(1)] show ?thesis
    by (simp add: cfg image_Un)
qed

lemma resolved_config_ok:
  assumes "resolve_config strict p t j = Inr r"
    and "\<And>l. Some l \<in> {p, t, j} \<Longrightarrow> config_ok (lc_config l)"
  shows "config_ok (rc_config r)"
proof -
  have "spec_ok s" if "s \<in> set (rc_config r h)" for h s
    using resolved_specs_source [OF assms(1), of h] that assms(2)
    by (force simp: lower_specs_def layer_specs_def config_ok_def split: option.splits)
  then show ?thesis by (simp add: config_ok_def)
qed

text \<open>Without strictness nothing is refused, so a resolution of well tagged layers returns.\<close>

lemma merge_spec_returns: "\<exists>st'. merge_spec h False layer s st = Inr st'"
  by (cases st) (auto simp: merge_spec_def Let_def split: option.split)

lemma merge_specs_returns: "\<exists>st'. merge_specs h False xs st = Inr st'"
proof (induction xs arbitrary: st)
  case (Cons x xs)
  obtain st1 where "merge_spec h False (fst x) (snd x) st = Inr st1"
    using merge_spec_returns by blast
  with Cons.IH [of st1] show ?case by (cases x) auto
qed (metis merge_specs.simps(1))

lemma resolve_hooks_returns: "\<exists>r'. resolve_hooks False layers hs r = Inr r'"
proof (induction hs arbitrary: r)
  case (Cons h hs)
  obtain st where "merge_specs h False (layer_specs h layers) ([], [], 0) = Inr st"
    using merge_specs_returns by blast
  then show ?case using Cons.IH by (cases st) (simp add: merge_hook_def Let_def)
qed simp

definition well_tagged :: "layer_config option \<Rightarrow> layer_config option \<Rightarrow> layer_config option \<Rightarrow> bool" where
  "well_tagged p t j \<longleftrightarrow>
     map_option lc_layer p \<in> {None, Some PlatformLayer}
     \<and> map_option lc_layer t \<in> {None, Some TenantLayer}
     \<and> map_option lc_layer j \<in> {None, Some ProjectLayer}"

lemma resolve_config_returns:
  assumes "well_tagged p t j"
  shows "\<exists>r. resolve_config False p t j = Inr r"
proof -
  have "supplied PlatformLayer p = Inr (case p of None \<Rightarrow> [] | Some l \<Rightarrow> [l])"
    "supplied TenantLayer t = Inr (case t of None \<Rightarrow> [] | Some l \<Rightarrow> [l])"
    "supplied ProjectLayer j = Inr (case j of None \<Rightarrow> [] | Some l \<Rightarrow> [l])"
    using assms by (auto simp: well_tagged_def supplied_Inr)
  then show ?thesis using resolve_hooks_returns by (simp add: resolve_config_def)
qed

text \<open>
  A locked platform guardrail is mandatory: as long as the platform gives the guardrails
  of a hook distinct keys, the merge with any tenant and any project layer returns, the
  locked guardrail is in the effective list as the platform wrote it, no other guardrail
  has its key, the platform is recorded as the winner, and every attempt of a lower layer
  to replace or remove it is reported.
\<close>

theorem locked_guardrails_mandatory:
  assumes "well_tagged (Some p) t j" and "distinct (map spec_key (lc_config p h))"
    and "s \<in> set (lc_config p h)" and "sp_locked s" and "\<not> is_removal s"
  shows "\<exists>r. resolve_config False (Some p) t j = Inr r
     \<and> s \<in> set (rc_config r h)
     \<and> (\<forall>x \<in> set (rc_config r h). spec_key x = spec_key s \<longrightarrow> x = s)
     \<and> winning_layer r h (spec_key s) = Some PlatformLayer
     \<and> (\<forall>(l, x) \<in> set (lower_specs h t j). spec_key x = spec_key s \<longrightarrow>
          (\<exists>q \<in> set (rc_rejected r). ro_hook q = h \<and> ro_key q = spec_key s \<and> ro_by q = l))"
proof -
  obtain r where r: "resolve_config False (Some p) t j = Inr r"
    using resolve_config_returns [OF assms(1)] by blast
  with platform_lock_survives [OF r assms(2-5)] show ?thesis by blast
qed

definition demo_spec :: "bool \<Rightarrow> guard_action option \<Rightarrow> guard_spec" where
  "demo_spec locked a = \<lparr>sp_type = ''pii'', sp_config = [], sp_action = a, sp_locked = locked,
                         sp_id = None, sp_on_error = None\<rparr>"

definition demo_layer :: "layer_name \<Rightarrow> guard_spec list \<Rightarrow> layer_config" where
  "demo_layer l ss = \<lparr>lc_layer = l, lc_config = (\<lambda>h. if h = PreLlm then ss else [])\<rparr>"

lemma demo_simps [simp]:
  "spec_key (demo_spec l a) = ''pii''"
  "sp_locked (demo_spec l a) = l"
  "sp_action (demo_spec l a) = a"
  "sp_on_error (demo_spec l a) = None"
  "\<not> is_removal (demo_spec l a)"
  "demo_spec l a = demo_spec l' a' \<longleftrightarrow> l = l' \<and> a = a'"
  "lc_layer (demo_layer y ss) = y"
  "lc_config (demo_layer y ss) h = (if h = PreLlm then ss else [])"
  by (auto simp: demo_spec_def demo_layer_def spec_key_def or_empty_def is_removal_def)

lemma locked_guardrails_mandatory_witness:
  "\<exists>r. resolve_config False (Some (demo_layer PlatformLayer [demo_spec True (Some BLOCK)]))
         (Some (demo_layer TenantLayer [demo_spec False (Some WARN)])) None = Inr r
     \<and> demo_spec True (Some BLOCK) \<in> set (rc_config r PreLlm)
     \<and> demo_spec False (Some WARN) \<notin> set (rc_config r PreLlm)
     \<and> rc_rejected r \<noteq> []"
proof -
  have low: "lower_specs PreLlm (Some (demo_layer TenantLayer [demo_spec False (Some WARN)])) None
      = [(TenantLayer, demo_spec False (Some WARN))]"
    by (simp add: lower_specs_def layer_specs_def)
  have "well_tagged (Some (demo_layer PlatformLayer [demo_spec True (Some BLOCK)]))
      (Some (demo_layer TenantLayer [demo_spec False (Some WARN)])) None"
    by (simp add: well_tagged_def)
  moreover have "distinct (map spec_key (lc_config (demo_layer PlatformLayer [demo_spec True (Some BLOCK)]) PreLlm))"
    "demo_spec True (Some BLOCK) \<in> set (lc_config (demo_layer PlatformLayer [demo_spec True (Some BLOCK)]) PreLlm)"
    "sp_locked (demo_spec True (Some BLOCK))" "\<not> is_removal (demo_spec True (Some BLOCK))"
    by simp_all
  ultimately obtain r where r: "resolve_config False (Some (demo_layer PlatformLayer [demo_spec True (Some BLOCK)]))
         (Some (demo_layer TenantLayer [demo_spec False (Some WARN)])) None = Inr r"
    "demo_spec True (Some BLOCK) \<in> set (rc_config r PreLlm)"
    "\<forall>x \<in> set (rc_config r PreLlm). spec_key x = spec_key (demo_spec True (Some BLOCK))
       \<longrightarrow> x = demo_spec True (Some BLOCK)"
    "\<forall>(l, x) \<in> set (lower_specs PreLlm (Some (demo_layer TenantLayer [demo_spec False (Some WARN)])) None).
        spec_key x = spec_key (demo_spec True (Some BLOCK)) \<longrightarrow>
          (\<exists>q \<in> set (rc_rejected r). ro_hook q = PreLlm
             \<and> ro_key q = spec_key (demo_spec True (Some BLOCK)) \<and> ro_by q = l)"
    by (blast dest: locked_guardrails_mandatory)
  from r(3) have "demo_spec False (Some WARN) \<notin> set (rc_config r PreLlm)"
    by (auto dest!: bspec [where x = "demo_spec False (Some WARN)"])
  moreover from r(4) have "rc_rejected r \<noteq> []" by (auto simp: low)
  ultimately show ?thesis using r(1,2) by blast
qed

text \<open>
  The configuration a worker resolves reaches the runtime unchanged: for layers read
  from documents, whatever they contain and strict or not, the resolved configuration is
  exactly what the runtime parses from its serialised form, locks and error policies
  included.
\<close>

theorem resolved_config_travels:
  assumes "layer_from_dict PlatformLayer dp = Inr p" and "layer_from_dict TenantLayer dt = Inr t"
    and "layer_from_dict ProjectLayer dj = Inr j"
    and "resolve_config strict (Some p) (Some t) (Some j) = Inr r"
  shows "parse_config (PDict (config_to_dict (rc_config r))) = Inr (rc_config r)"
proof (rule config_round_trip, rule resolved_config_ok [OF assms(4)])
  show "config_ok (lc_config l)" if "Some l \<in> {Some p, Some t, Some j}" for l
    using that assms(1-3) parse_config_ok
    by (auto simp: layer_from_dict_def bindr_Inr_iff)
qed

lemma resolved_config_travels_witness:
  "\<exists>p t j r. layer_from_dict PlatformLayer (PDict [(''guardrails'', PDict [(''pre_llm'',
        PList [PDict [(''type'', PStr ''pii''), (''locked'', PBool True)]])])]) = Inr p
     \<and> layer_from_dict TenantLayer PNone = Inr t \<and> layer_from_dict ProjectLayer PNone = Inr j
     \<and> resolve_config False (Some p) (Some t) (Some j) = Inr r
     \<and> parse_config (PDict (config_to_dict (rc_config r))) = Inr (rc_config r)"
proof -
  obtain p where p: "layer_from_dict PlatformLayer (PDict [(''guardrails'', PDict [(''pre_llm'',
        PList [PDict [(''type'', PStr ''pii''), (''locked'', PBool True)]])])]) = Inr p"
      "lc_layer p = PlatformLayer"
    by (simp add: layer_from_dict_def parse_config_def find_hook_def hook_points_def parse_spec_def
        config_of_def id_of_def on_error_of_def coerce_action_def)
  obtain t j where tj: "layer_from_dict TenantLayer PNone = Inr t" "lc_layer t = TenantLayer"
      "layer_from_dict ProjectLayer PNone = Inr j" "lc_layer j = ProjectLayer"
    by (simp add: layer_from_dict_def parse_config_def)
  obtain r where "resolve_config False (Some p) (Some t) (Some j) = Inr r"
    using resolve_config_returns [of "Some p" "Some t" "Some j"] p tj by (auto simp: well_tagged_def)
  with resolved_config_travels [OF p(1) tj(1) tj(3) this] p tj show ?thesis by blast
qed

text \<open>
  The lock is bound to the first guardrail of a key, not to the guardrail that carries
  it: when the platform declares two guardrails of one type for a hook without ids, an
  unlocked one and then a locked one, the second takes the place of the first without its
  lock, and a tenant replaces the locked guardrail with a mere warning, unreported.
\<close>

theorem platform_lock_lost:
  "(case resolve_config True (Some (demo_layer PlatformLayer [demo_spec False None, demo_spec True (Some BLOCK)]))
           (Some (demo_layer TenantLayer [demo_spec False (Some WARN)])) None of
      Inl e \<Rightarrow> False
    | Inr r \<Rightarrow> rc_config r PreLlm = [demo_spec False (Some WARN)] \<and> rc_rejected r = []
        \<and> locked_keys r PreLlm = [])"
  by code_simp

end
