(* ===== verification/GuardPipeline.thy ===== *)
theory GuardPipeline
  imports GuardLayers
begin

text \<open>
  Building and running a guardrails pipeline,
  \<^verbatim>\<open>packages/shared-guardrails/src/shared_guardrails/pipeline.py\<close> and
  \<^verbatim>\<open>registry.py\<close>. A check is a function of the context that returns a result or
  raises; the registry, a map from type names to factories, is a parameter, so everything
  here holds for every set of registered checks.
\<close>

section \<open>Registry\<close>

type_synonym check = "guard_context \<Rightarrow> (string, guard_result) result"
type_synonym factory = "pydict \<Rightarrow> (config_error, check) result"
type_synonym registry = "string \<rightharpoonup> factory"

definition register :: "string \<Rightarrow> factory \<Rightarrow> registry \<Rightarrow> (config_error, registry) result" where
  "register name f reg =
     (if name = [] then Inl (BadCheckConfig ''Guardrail type name must be non-empty.'')
      else Inr (reg(name \<mapsto> f)))"


section \<open>The pipeline\<close>

type_synonym bound_guardrail = "check \<times> guard_spec"
type_synonym pipeline = "hook_point \<Rightarrow> bound_guardrail list"




definition is_unavailable :: "guard_result \<Rightarrow> bool" where
  "is_unavailable r \<longleftrightarrow> \<not> gr_triggered r \<and> dget (gr_payload r) ''available'' = PBool False"

text \<open>\<^verbatim>\<open>{**d, k: v}\<close>: a key that is there keeps its place.\<close>

fun dict_put :: "string \<Rightarrow> pyval \<Rightarrow> pydict \<Rightarrow> pydict" where
  "dict_put k v [] = [(k, v)]"
| "dict_put k v ((j, x) # d) = (if j = k then (k, v) # d else (j, x) # dict_put k v d)"

definition no_verdict ::
  "guard_spec \<Rightarrow> string \<Rightarrow> string \<Rightarrow> pydict \<Rightarrow> guard_outcome \<times> guard_action option" where
  "no_verdict s on_error detail payload =
     (let fail_closed = (on_error = ''block'');
          default_action = (if fail_closed then BLOCK else WARN);
          action = (case sp_action s of Some a \<Rightarrow> a | None \<Rightarrow> default_action)
      in (\<lparr>go_type = sp_type s, go_triggered = True,
           go_severity = (if fail_closed then SevHigh else SevLow), go_detail = detail,
           go_action = Some action, go_payload = dict_put ''on_error'' (PStr on_error) payload\<rparr>,
          Some action))"

text \<open>One guardrail: its outcome, and the action it adds to those that fired.\<close>

definition run_one :: "guard_context \<Rightarrow> bound_guardrail \<Rightarrow> guard_outcome \<times> guard_action option" where
  "run_one ctx b =
     (let (chk, s) = b; on_error = effective_on_error s in
      case chk ctx of
        Inl exc \<Rightarrow> no_verdict s on_error (''check crashed ('' @ exc @ '')'') []
      | Inr res \<Rightarrow>
          if is_unavailable res
          then no_verdict s on_error
                 (if gr_detail res = [] then ''guardrail unavailable'' else gr_detail res) (gr_payload res)
          else
            let action = (case sp_action s of Some a \<Rightarrow> Some a | None \<Rightarrow> gr_action res)
            in (\<lparr>go_type = sp_type s, go_triggered = gr_triggered res, go_severity = gr_severity res,
                 go_detail = gr_detail res, go_action = (if gr_triggered res then action else None),
                 go_payload = gr_payload res\<rparr>,
                if gr_triggered res then action else None))"

definition run_pipeline :: "pipeline \<Rightarrow> guard_context \<Rightarrow> pipeline_decision" where
  "run_pipeline pipe ctx =
     (let rs = map (run_one ctx) (pipe (gc_hook ctx)); outcomes = map fst rs in
      \<lparr>dc_hook = gc_hook ctx, dc_triggered = list_ex go_triggered outcomes,
       dc_action = most_severe_action (List.map_filter snd rs), dc_outcomes = outcomes\<rparr>)"

section \<open>Properties\<close>

lemma no_verdict_simps [simp]:
  "go_type (fst (no_verdict s oe d p)) = sp_type s"
  "go_triggered (fst (no_verdict s oe d p))"
  "go_action (fst (no_verdict s oe d p)) = snd (no_verdict s oe d p)"
  "snd (no_verdict s oe d p)
     = Some (case sp_action s of Some a \<Rightarrow> a | None \<Rightarrow> if oe = ''block'' then BLOCK else WARN)"
  by (simp_all add: no_verdict_def Let_def split: option.split)

lemma run_one_type [simp]: "go_type (fst (run_one ctx b)) = sp_type (snd b)"
  by (cases b) (simp add: run_one_def Let_def split: sum.split)

lemma run_one_action:
  "snd (run_one ctx b) = (if go_triggered (fst (run_one ctx b)) then go_action (fst (run_one ctx b)) else None)"
  by (cases b) (simp add: run_one_def Let_def split: sum.split)

lemma run_one_quiet: "\<not> go_triggered (fst (run_one ctx b)) \<Longrightarrow> go_action (fst (run_one ctx b)) = None"
  by (cases b) (auto simp: run_one_def Let_def split: sum.splits if_splits)

lemma set_map_filter_eq: "set (List.map_filter f xs) = {b. \<exists>x \<in> set xs. f x = Some b}"
  by (induction xs) (auto simp: map_filter_simps split: option.splits)

lemma fired_actions:
  "set (List.map_filter snd (map (run_one ctx) bs))
     = {a. \<exists>g \<in> set (map (fst \<circ> run_one ctx) bs). go_triggered g \<and> go_action g = Some a}"
  by (simp add: set_map_filter_eq run_one_action) meson

text \<open>The stop condition of a run, over its outcomes.\<close>

lemma run_allowed_iff:
  "decision_allowed (run_pipeline pipe ctx) \<longleftrightarrow>
     (\<forall>g \<in> set (dc_outcomes (run_pipeline pipe ctx)).
        go_triggered g \<longrightarrow> go_action g \<notin> {Some BLOCK, Some ESCALATE_TO_HUMAN})"
proof -
  have "\<not> decision_allowed (run_pipeline pipe ctx) \<longleftrightarrow>
     BLOCK \<in> set (List.map_filter snd (map (run_one ctx) (pipe (gc_hook ctx))))
     \<or> ESCALATE_TO_HUMAN \<in> set (List.map_filter snd (map (run_one ctx) (pipe (gc_hook ctx))))"
    unfolding most_severe_stops [symmetric] by (simp add: decision_allowed_def run_pipeline_def Let_def)
  then show ?thesis
    unfolding fired_actions by (auto simp: run_pipeline_def Let_def)
qed

text \<open>
  Every guardrail is heard: a run leaves one outcome per configured guardrail, in
  order, a crashed or unavailable check included; the decision is triggered exactly when
  an outcome is; the call may proceed exactly when no triggered outcome blocks or
  escalates; and the decisive action is one that fired, with none of a higher precedence.
\<close>

theorem every_guardrail_is_heard:
  "let d = run_pipeline pipe ctx in
     map go_type (dc_outcomes d) = map (sp_type \<circ> snd) (pipe (gc_hook ctx))
     \<and> (dc_triggered d \<longleftrightarrow> triggered_outcomes d \<noteq> [])
     \<and> (decision_allowed d \<longleftrightarrow> (\<forall>g \<in> set (triggered_outcomes d).
          go_action g \<noteq> Some BLOCK \<and> go_action g \<noteq> Some ESCALATE_TO_HUMAN))
     \<and> (\<forall>a. dc_action d = Some a \<longrightarrow>
          Some a \<in> go_action ` set (triggered_outcomes d)
          \<and> (\<forall>g \<in> set (triggered_outcomes d). \<forall>b. go_action g = Some b \<longrightarrow> action_rank a \<le> action_rank b))"
proof -
  have "Some a \<in> go_action ` set (triggered_outcomes (run_pipeline pipe ctx))
      \<and> (\<forall>g \<in> set (triggered_outcomes (run_pipeline pipe ctx)). \<forall>b. go_action g = Some b
           \<longrightarrow> action_rank a \<le> action_rank b)"
    if "dc_action (run_pipeline pipe ctx) = Some a" for a
  proof -
    from that have "most_severe_action (List.map_filter snd (map (run_one ctx) (pipe (gc_hook ctx)))) = Some a"
      by (simp add: run_pipeline_def Let_def)
    from most_severe_Some [OF this] show ?thesis
      unfolding fired_actions
      by (force simp: run_pipeline_def Let_def triggered_outcomes_def image_iff)
  qed
  moreover have "map go_type (dc_outcomes (run_pipeline pipe ctx)) = map (sp_type \<circ> snd) (pipe (gc_hook ctx))"
    by (simp add: run_pipeline_def Let_def)
  moreover have "dc_triggered (run_pipeline pipe ctx) \<longleftrightarrow> triggered_outcomes (run_pipeline pipe ctx) \<noteq> []"
    by (simp add: run_pipeline_def Let_def triggered_outcomes_def list_ex_iff filter_empty_conv)
  ultimately show ?thesis
    by (auto simp: Let_def run_allowed_iff triggered_outcomes_def)
qed

definition demo_context :: guard_context where
  "demo_context = \<lparr>gc_hook = PreLlm, gc_prompt = Some ''hello'', gc_response = None, gc_tool_name = None,
     gc_tool_args = [], gc_tool_result = PNone, gc_metadata = []\<rparr>"

definition crashing :: check where
  "crashing = (\<lambda>c. Inl ''RuntimeError: boom'')"

lemma every_guardrail_is_heard_witness:
  "\<not> decision_allowed (run_pipeline (\<lambda>h. [(crashing, demo_spec True None)]) demo_context)
   \<and> dc_action (run_pipeline (\<lambda>h. [(crashing, demo_spec True None)]) demo_context) = Some BLOCK"
proof -
  have d: "triggered_outcomes (run_pipeline (\<lambda>h. [(crashing, demo_spec True None)]) demo_context)
      = [fst (no_verdict (demo_spec True None) ''block'' ''check crashed (RuntimeError: boom)'' [])]"
    by (simp add: triggered_outcomes_def run_pipeline_def run_one_def crashing_def effective_on_error_def Let_def)
  have "dc_action (run_pipeline (\<lambda>h. [(crashing, demo_spec True None)]) demo_context) \<noteq> None"
    by (simp add: run_pipeline_def run_one_def crashing_def Let_def map_filter_simps)
  then obtain a where a: "dc_action (run_pipeline (\<lambda>h. [(crashing, demo_spec True None)]) demo_context) = Some a"
    by blast
  show ?thesis
    using every_guardrail_is_heard [of "\<lambda>h. [(crashing, demo_spec True None)]" demo_context, unfolded Let_def d] a
    by simp
qed

section \<open>From the platform's lock to the decision\<close>








end
