(* ===== verification/GuardActions.thy ===== *)
theory GuardActions
  imports GuardPipeline "HOL-Library.Sublist"
begin

text \<open>
  Realising the decision of a pipeline,
  \<^verbatim>\<open>packages/shared-guardrails/src/shared_guardrails/actions.py\<close>: each of the six
  actions gives a typed outcome for the host. Contexts are values here, so a copy is the
  context itself; a transformer is a parameter.
\<close>

section \<open>Replacing text\<close>

text \<open>\<^verbatim>\<open>s.replace(pat, rep)\<close> for a pattern that is not empty.\<close>

function replace_all :: "string \<Rightarrow> string \<Rightarrow> string \<Rightarrow> string" where
  "replace_all pat rep s =
     (case s of
        [] \<Rightarrow> []
      | c # cs \<Rightarrow>
          if pat \<noteq> [] \<and> prefix pat s then rep @ replace_all pat rep (drop (length pat) s)
          else c # replace_all pat rep cs)"
  by pat_completeness auto
termination
  by (relation "measure (\<lambda>(pat, rep, s). length s)") (auto simp: prefix_def)

declare replace_all.simps [simp del]

lemma replace_all_Nil [simp]: "replace_all pat rep [] = []"
  by (simp add: replace_all.simps)

lemma replace_all_hit:
  "pat \<noteq> [] \<Longrightarrow> prefix pat s \<Longrightarrow> replace_all pat rep s = rep @ replace_all pat rep (drop (length pat) s)"
  by (subst replace_all.simps) (auto split: list.split)

lemma replace_all_miss:
  "\<not> (pat \<noteq> [] \<and> prefix pat (c # cs)) \<Longrightarrow> replace_all pat rep (c # cs) = c # replace_all pat rep cs"
  by (subst replace_all.simps) auto

text \<open>
  A mask hides a text when it does not contain it and no copy of the text can overlap one
  end of it: the first and the last character of the mask do not occur in the text.
\<close>

definition mask_hides :: "string \<Rightarrow> string \<Rightarrow> bool" where
  "mask_hides mark q \<longleftrightarrow>
     mark \<noteq> [] \<and> q \<noteq> [] \<and> hd mark \<notin> set q \<and> last mark \<notin> set q \<and> \<not> sublist q mark"

lemma replace_all_prefix:
  assumes "rep \<noteq> []" and "hd rep \<notin> set z" and "prefix z (replace_all pat rep s)"
  shows "prefix z s"
  using assms
proof (induction pat rep s arbitrary: z rule: replace_all.induct)
  case (1 pat rep s)
  show ?case
  proof (cases "pat \<noteq> [] \<and> prefix pat s")
    case True
    then have "prefix z (rep @ replace_all pat rep (drop (length pat) s))"
      using 1(5) by (simp add: replace_all_hit)
    then have "z = [] \<or> hd z = hd rep"
      using 1(3) by (cases rep; cases z) simp_all
    then show ?thesis using 1(4) hd_in_set [of z] by (cases z) auto
  next
    case False
    show ?thesis
    proof (cases s)
      case (Cons c cs)
      then show ?thesis using 1(2-5) False by (cases z) (auto simp: replace_all_miss)
    qed (use 1(5) in simp)
  qed
qed

lemma sublist_mask:
  assumes "mask_hides rep q" and "sublist q (rep @ xs)"
  shows "sublist q xs"
proof -
  from assms(2) consider "sublist q rep" | "sublist q xs"
    | a b where "q = a @ b" "suffix a rep" "prefix b xs"
    by (auto simp: sublist_append)
  then show ?thesis
  proof cases
    case 3
    have "a = []"
    proof (rule ccontr)
      assume "a \<noteq> []"
      then have "last a = last rep" using 3(2) by (auto simp: suffix_def)
      moreover have "last a \<in> set q" using \<open>a \<noteq> []\<close> 3(1) by simp
      ultimately show False using assms(1) by (simp add: mask_hides_def)
    qed
    then show ?thesis using 3 by simp
  qed (use assms(1) in \<open>simp_all add: mask_hides_def\<close>)
qed

text \<open>A hidden text is not created by a replacement, and the replaced one is gone.\<close>

lemma replace_all_brings:
  assumes mark: "\<And>xs. sublist q (rep @ xs) \<Longrightarrow> sublist q xs"
    and start: "\<And>x. prefix q (replace_all pat rep x) \<Longrightarrow> prefix q x"
    and "sublist q (replace_all pat rep s)"
  shows "sublist q s"
  using assms
proof (induction pat rep s rule: replace_all.induct)
  case (1 pat rep s)
  show ?case
  proof (cases "pat \<noteq> [] \<and> prefix pat s")
    case True
    with 1(5) have "sublist q (replace_all pat rep (drop (length pat) s))"
      using 1(3) by (simp add: replace_all_hit)
    then have "sublist q (drop (length pat) s)"
      using 1(1,3,4) True by (cases s) auto
    then show ?thesis using sublist_drop sublist_order.order_trans by blast
  next
    case False
    show ?thesis
    proof (cases s)
      case (Cons c cs)
      have step: "replace_all pat rep s = c # replace_all pat rep cs"
        using False Cons by (simp add: replace_all_miss)
      from 1(5) consider "prefix q (replace_all pat rep s)" | "sublist q (replace_all pat rep cs)"
        unfolding step by (auto simp: sublist_Cons_right)
      then show ?thesis
      proof cases
        case 1
        then show ?thesis using \<open>\<And>x. prefix q (replace_all pat rep x) \<Longrightarrow> prefix q x\<close> by blast
      next
        case 2
        then have "sublist q cs" using 1(2,3,4) False Cons by auto
        then show ?thesis using Cons by (simp add: sublist_Cons_right)
      qed
    qed (use 1(5) in simp)
  qed
qed

lemma replace_all_leaves:
  assumes pat: "pat \<noteq> []" and mark: "\<And>xs. sublist pat (rep @ xs) \<Longrightarrow> sublist pat xs"
    and start: "\<And>x. prefix pat (replace_all pat rep x) \<Longrightarrow> prefix pat x"
  shows "\<not> sublist pat (replace_all pat rep s)"
  using assms
proof (induction pat rep s rule: replace_all.induct)
  case (1 pat rep s)
  show ?case
  proof (cases "prefix pat s")
    case True
    then have "\<not> sublist pat (replace_all pat rep (drop (length pat) s))"
      using 1(1,3,4,5) by (cases s) auto
    then show ?thesis
      using 1(3,4) True by (auto simp: replace_all_hit)
  next
    case False
    show ?thesis
    proof (cases s)
      case (Cons c cs)
      have step: "replace_all pat rep s = c # replace_all pat rep cs"
        using False Cons by (simp add: replace_all_miss)
      have "\<not> prefix pat (replace_all pat rep s)" using 1(5) False by blast
      moreover have "\<not> sublist pat (replace_all pat rep cs)"
        using 1(2-5) False Cons by auto
      ultimately show ?thesis unfolding step by (simp add: sublist_Cons_right)
    qed (use 1(3) in simp)
  qed
qed

lemma mask_prefix:
  "mask_hides rep q \<Longrightarrow> prefix q (replace_all pat rep s) \<Longrightarrow> prefix q s"
  using replace_all_prefix [of rep q pat s] by (simp add: mask_hides_def)

lemma replace_all_no_new:
  assumes "mask_hides rep q" and "sublist q (replace_all pat rep s)"
  shows "sublist q s"
  by (rule replace_all_brings [OF _ _ assms(2)])
    (use assms(1) sublist_mask mask_prefix in blast)+

lemma replace_all_gone:
  assumes "mask_hides rep pat"
  shows "\<not> sublist pat (replace_all pat rep s)"
proof (rule replace_all_leaves)
  show "pat \<noteq> []" using assms by (simp add: mask_hides_def)
qed (rule sublist_mask [OF assms], assumption, rule mask_prefix [OF assms], assumption)

section \<open>Outcomes\<close>

definition default_max_retries :: int where
  "default_max_retries = 2"

record outcome_base =
  ob_action :: guard_action
  ob_hook :: hook_point
  ob_proceed :: bool
  ob_reason :: string
  ob_severity :: severity

datatype applied_action =
    BlockOutcome outcome_base "guard_outcome list"
  | RedactOutcome outcome_base guard_context "string list" string
  | WarnOutcome outcome_base pydict
  | RetryOutcome outcome_base string int int bool
  | EscalateOutcome outcome_base pydict
  | TransformOutcome outcome_base guard_context string

fun base_of :: "applied_action \<Rightarrow> outcome_base" where
  "base_of (BlockOutcome b _) = b"
| "base_of (RedactOutcome b _ _ _) = b"
| "base_of (WarnOutcome b _) = b"
| "base_of (RetryOutcome b _ _ _ _) = b"
| "base_of (EscalateOutcome b _) = b"
| "base_of (TransformOutcome b _ _) = b"

fun severity_value :: "severity \<Rightarrow> string" where
  "severity_value SevInfo = ''info''"
| "severity_value SevLow = ''low''"
| "severity_value SevMedium = ''medium''"
| "severity_value SevHigh = ''high''"
| "severity_value SevCritical = ''critical''"

definition first_detail :: "pipeline_decision \<Rightarrow> string \<Rightarrow> string" where
  "first_detail d fallback =
     (case triggered_outcomes d of [] \<Rightarrow> fallback | g # gs \<Rightarrow> go_detail g)"

definition set_primary_text :: "guard_context \<Rightarrow> string \<Rightarrow> guard_context" where
  "set_primary_text c txt =
     (case gc_hook c of
        PreLlm \<Rightarrow> c\<lparr>gc_prompt := Some txt\<rparr>
      | PostLlm \<Rightarrow> c\<lparr>gc_response := Some txt\<rparr>
      | PreTool \<Rightarrow> c
      | PostTool \<Rightarrow> (case gc_tool_result c of PStr _ \<Rightarrow> c\<lparr>gc_tool_result := PStr txt\<rparr> | _ \<Rightarrow> c))"

text \<open>The matches of one outcome under one key: the truthy items of a list, as text.\<close>

definition spans_under :: "pydict \<Rightarrow> string \<Rightarrow> string list" where
  "spans_under payload k =
     (case dget payload k of PList raw \<Rightarrow> map py_str (filter truthy raw) | _ \<Rightarrow> [])"

text \<open>\<open>rev (remdups (rev xs))\<close> keeps the first of equal items; the sort is stable.\<close>

definition gather_spans :: "guard_outcome list \<Rightarrow> string list" where
  "gather_spans gs =
     sort_key (\<lambda>x. - int (length x))
       (rev (remdups (rev (concat (map (\<lambda>g. concat (map (spans_under (go_payload g))
          [''matches'', ''matched'', ''spans''])) (filter go_triggered gs))))))"

definition redact_text :: "string \<Rightarrow> string list \<Rightarrow> string \<Rightarrow> string" where
  "redact_text mark spans txt = fold (\<lambda>x t. if x \<noteq> [] then replace_all x mark t else t) spans txt"

definition base_outcome :: "pipeline_decision \<Rightarrow> guard_action \<Rightarrow> bool \<Rightarrow> string \<Rightarrow> outcome_base" where
  "base_outcome d a proceed rsn =
     \<lparr>ob_action = a, ob_hook = dc_hook d, ob_proceed = proceed, ob_reason = rsn,
      ob_severity = max_severity (triggered_outcomes d)\<rparr>"

definition apply_block :: "pipeline_decision \<Rightarrow> applied_action" where
  "apply_block d =
     BlockOutcome (base_outcome d BLOCK False (first_detail d ''blocked by guardrail'')) (triggered_outcomes d)"

definition apply_redact :: "pipeline_decision \<Rightarrow> guard_context \<Rightarrow> string \<Rightarrow> applied_action" where
  "apply_redact d c mark =
     (let spans = gather_spans (triggered_outcomes d) in
      RedactOutcome (base_outcome d REDACT True (first_detail d ''redacted by guardrail''))
        (set_primary_text c (redact_text mark spans (primary_text c))) spans mark)"

definition guardrail_entries :: "guard_outcome list \<Rightarrow> pyval" where
  "guardrail_entries gs = PList (map (\<lambda>g. PDict [(''type'', PStr (go_type g)), (''detail'', PStr (go_detail g)),
      (''severity'', PStr (severity_value (go_severity g)))]) gs)"

definition apply_warn :: "pipeline_decision \<Rightarrow> applied_action" where
  "apply_warn d =
     WarnOutcome (base_outcome d WARN True (first_detail d ''warning from guardrail''))
       [(''hook'', PStr (hook_name (dc_hook d))),
        (''severity'', PStr (severity_value (max_severity (triggered_outcomes d)))),
        (''guardrails'', guardrail_entries (triggered_outcomes d))]"

definition apply_retry :: "pipeline_decision \<Rightarrow> int \<Rightarrow> int \<Rightarrow> applied_action" where
  "apply_retry d attempt max_retries =
     (let feedback = strip (join '' '' (filter (\<lambda>x. x \<noteq> []) (map go_detail (triggered_outcomes d))));
          exhausted = (max_retries \<le> attempt)
      in RetryOutcome
           (base_outcome d RETRY_WITH_FEEDBACK False
              (if exhausted then ''retry budget exhausted''
               else if feedback \<noteq> [] then feedback else ''retry requested''))
           feedback attempt max_retries exhausted)"

definition apply_escalate :: "pipeline_decision \<Rightarrow> applied_action" where
  "apply_escalate d =
     EscalateOutcome (base_outcome d ESCALATE_TO_HUMAN False (first_detail d ''escalated by guardrail''))
       [(''kind'', PStr ''guardrail_escalation''), (''hook'', PStr (hook_name (dc_hook d))),
        (''severity'', PStr (severity_value (max_severity (triggered_outcomes d)))),
        (''reason'', PStr (first_detail d ''escalated by guardrail'')),
        (''guardrails'', guardrail_entries (triggered_outcomes d))]"

definition apply_transform ::
  "pipeline_decision \<Rightarrow> guard_context \<Rightarrow> (string \<Rightarrow> string) \<Rightarrow> string \<Rightarrow> applied_action" where
  "apply_transform d c transformer name =
     TransformOutcome (base_outcome d TRANSFORM True (first_detail d ''transformed by guardrail''))
       (set_primary_text c (transformer (primary_text c))) name"

text \<open>None of a result: nothing triggered; the error: a transform without a transformer.\<close>

definition apply_action ::
  "pipeline_decision \<Rightarrow> guard_context \<Rightarrow> string \<Rightarrow> (string \<Rightarrow> string) option \<Rightarrow> string \<Rightarrow> int \<Rightarrow> int
     \<Rightarrow> (string, applied_action option) result" where
  "apply_action d c mark transformer name attempt max_retries =
     (case dc_action d of
        None \<Rightarrow> Inr None
      | Some BLOCK \<Rightarrow> Inr (Some (apply_block d))
      | Some REDACT \<Rightarrow> Inr (Some (apply_redact d c mark))
      | Some WARN \<Rightarrow> Inr (Some (apply_warn d))
      | Some RETRY_WITH_FEEDBACK \<Rightarrow> Inr (Some (apply_retry d attempt max_retries))
      | Some ESCALATE_TO_HUMAN \<Rightarrow> Inr (Some (apply_escalate d))
      | Some TRANSFORM \<Rightarrow>
          (case transformer of
             None \<Rightarrow> Inl ''transform action requires a transformer callable to be supplied.''
           | Some f \<Rightarrow> Inr (Some (apply_transform d c f name))))"

lemmas apply_defs = apply_block_def apply_redact_def apply_warn_def apply_retry_def
  apply_escalate_def apply_transform_def base_outcome_def Let_def

section \<open>Properties\<close>

text \<open>Handling an outcome never lets through what the decision stops.\<close>

lemma apply_action_proceed:
  assumes "apply_action d c mark f name n m = Inr (Some out)"
  shows "dc_action d = Some (ob_action (base_of out))
     \<and> (ob_proceed (base_of out) \<longrightarrow> decision_allowed d)
     \<and> (decision_allowed d \<and> dc_action d \<noteq> Some RETRY_WITH_FEEDBACK \<longrightarrow> ob_proceed (base_of out))"
  using assms
  by (auto simp: apply_action_def apply_defs decision_allowed_def split: option.splits guard_action.splits)

lemma redact_text_keeps_hidden:
  assumes "mask_hides mark q" and "q \<in> set spans \<or> \<not> sublist q body"
  shows "\<not> sublist q (redact_text mark spans body)"
  using assms(2)
proof (induction spans arbitrary: body)
  case (Cons x spans)
  have "q \<in> set spans \<or> \<not> sublist q (if x \<noteq> [] then replace_all x mark body else body)"
    using Cons.prems replace_all_gone [OF assms(1), of body] replace_all_no_new [OF assms(1), of x body]
    assms(1) by (auto simp: mask_hides_def)
  from Cons.IH [OF this] show ?case by (simp add: redact_text_def)
qed (simp add: redact_text_def)

text \<open>The hooks whose text is written back.\<close>

definition text_rewritten :: "guard_context \<Rightarrow> bool" where
  "text_rewritten c \<longleftrightarrow>
     gc_hook c \<in> {PreLlm, PostLlm} \<or> (gc_hook c = PostTool \<and> (\<exists>s. gc_tool_result c = PStr s))"

lemma primary_text_set: "text_rewritten c \<Longrightarrow> primary_text (set_primary_text c t) = t"
  by (auto simp: text_rewritten_def primary_text_def set_primary_text_def or_empty_def py_str_def)

text \<open>
  A redaction hides what was flagged: when the payload of the hook is a prompt, a
  response or a textual tool result, no span a triggered guardrail reported is left in the
  text of the masked copy, whatever the order and the overlaps of the spans, as long as the
  span cannot be confused with the mask; and on a tool call or a structured tool result,
  where nothing is masked, the outcome still tells the host to proceed.
\<close>

theorem redact_hides_spans:
  assumes "apply_redact d c mark = RedactOutcome b c' spans m"
  shows "(text_rewritten c \<longrightarrow> (\<forall>q \<in> set spans. mask_hides mark q \<longrightarrow> \<not> sublist q (primary_text c')))
     \<and> (\<not> text_rewritten c \<longrightarrow> c' = c \<and> ob_proceed b)"
proof -
  from assms have c': "c' = set_primary_text c (redact_text mark spans (primary_text c))"
    and b: "ob_proceed b"
    by (auto simp: apply_defs)
  have "set_primary_text c t = c" if "\<not> text_rewritten c" for t
    using that by (auto simp: text_rewritten_def set_primary_text_def split: hook_point.splits pyval.splits)
  then show ?thesis
    using redact_text_keeps_hidden by (auto simp: c' b primary_text_set)
qed

definition leak_decision :: pipeline_decision where
  "leak_decision = \<lparr>dc_hook = PreLlm, dc_triggered = True, dc_action = Some REDACT,
     dc_outcomes = [\<lparr>go_type = ''regex'', go_triggered = True, go_severity = SevHigh, go_detail = ''hit'',
       go_action = Some REDACT, go_payload = [(''matches'', PList [PStr ''ell''])]\<rparr>]\<rparr>"

lemma redact_hides_spans_witness:
  "\<exists>b c'. apply_redact leak_decision demo_context ''[REDACTED]'' = RedactOutcome b c' [''ell''] ''[REDACTED]''
     \<and> \<not> sublist ''ell'' (primary_text c')"
proof -
  have "gather_spans (triggered_outcomes leak_decision) = [''ell'']"
    by (simp add: gather_spans_def triggered_outcomes_def leak_decision_def spans_under_def py_str_def)
  then obtain b c' where red:
      "apply_redact leak_decision demo_context ''[REDACTED]'' = RedactOutcome b c' [''ell''] ''[REDACTED]''"
    by (simp add: apply_redact_def Let_def)
  have "mask_hides ''[REDACTED]'' ''ell''"
    by (simp add: mask_hides_def sublist_Cons_right)
  moreover have "text_rewritten demo_context"
    by (simp add: text_rewritten_def demo_context_def)
  ultimately show ?thesis
    using redact_hides_spans [OF red] red by auto
qed

end
