(* ===== verification/GuardChecks.thy ===== *)
theory GuardChecks
  imports GuardPipeline PriceFeed
begin

text \<open>
  Two checks with arithmetic or state of their own, from
  \<^verbatim>\<open>packages/shared-guardrails/src/shared_guardrails/checks/\<close>:
  \<^verbatim>\<open>cost_ceiling.py\<close> and \<^verbatim>\<open>rate_per_agent.py\<close>, with the coercions of
  \<^verbatim>\<open>_common.py\<close>. The store of the rate limit is an interface in the code and a
  locale here; the in-memory store of the code interprets it. Floats are exact rationals,
  an infinity or a NaN; the printed form of a number in a message is the parameter
  \<open>fmt\<close>.
\<close>

section \<open>Coercions\<close>

definition severities :: "(string \<times> severity) list" where
  "severities = [(''info'', SevInfo), (''low'', SevLow), (''medium'', SevMedium), (''high'', SevHigh),
     (''critical'', SevCritical)]"

definition coerce_severity :: "pyval \<Rightarrow> severity \<Rightarrow> (config_error, severity) result" where
  "coerce_severity v fallback =
     (if v = PNone then Inr fallback
      else case map_of severities (lower (py_str v)) of Some x \<Rightarrow> Inr x | None \<Rightarrow> Inl (InvalidSeverity v))"

text \<open>Where the conversion to a double leaves its range: \<open>2 ^ 1024\<close> less half a unit.\<close>

definition float_limit :: int where
  "float_limit = 2 ^ 1024 - 2 ^ 970"

definition saturate :: "rat \<Rightarrow> pyfloat" where
  "saturate r =
     (if of_int float_limit \<le> r then PosInf else if r \<le> - of_int float_limit then NegInf else Finite r)"

text \<open>In the text of a float an underscore stands between two digits, and a NaN has no payload.\<close>

fun underscores_ok :: "bool \<Rightarrow> string \<Rightarrow> bool" where
  "underscores_ok after [] = True"
| "underscores_ok after (c # cs) =
     ((c = CHR ''_'' \<longrightarrow> after \<and> cs \<noteq> [] \<and> is_digit (hd cs)) \<and> underscores_ok (is_digit c) cs)"

definition parse_float :: "string \<Rightarrow> pyfloat option" where
  "parse_float s =
     (let word = lower (snd (split_sign (strip s))) in
      if \<not> underscores_ok False (strip s) then None
      else if (take 3 word = ''nan'' \<or> take 4 word = ''snan'') \<and> word \<noteq> ''nan'' then None
      else case parse_decimal s of Some (Finite r) \<Rightarrow> Some (saturate r) | x \<Rightarrow> x)"

definition coerce_float :: "pyval \<Rightarrow> (string, pyfloat option) result" where
  "coerce_float v =
     (case v of
        PInt i \<Rightarrow> if float_limit \<le> \<bar>i\<bar> then Inl ''OverflowError: int too large to convert to float''
                  else Inr (Some (Finite (of_int i)))
      | PFloat t f \<Rightarrow> Inr (Some f)
      | PStr s \<Rightarrow> Inr (parse_float s)
      | _ \<Rightarrow> Inr None)"

fun float_minus :: "pyfloat \<Rightarrow> pyfloat \<Rightarrow> pyfloat" where
  "float_minus (Finite a) (Finite b) = Finite (a - b)"
| "float_minus (Finite a) PosInf = NegInf"
| "float_minus (Finite a) NegInf = PosInf"
| "float_minus PosInf (Finite b) = PosInf"
| "float_minus PosInf NegInf = PosInf"
| "float_minus NegInf (Finite b) = NegInf"
| "float_minus NegInf PosInf = NegInf"
| "float_minus _ _ = NotANumber"

section \<open>The cost ceiling\<close>

record cost_ceiling =
  cc_max :: pyfloat
  cc_scope :: string
  cc_call_key :: string
  cc_acc_key :: string
  cc_severity :: severity
  cc_suggested :: "guard_action option"

definition make_cost_ceiling :: "pydict \<Rightarrow> (config_error, cost_ceiling) result" where
  "make_cost_ceiling config =
     bindr (with_error CheckRaised (coerce_float (dget config ''max_cost''))) (\<lambda>mx.
       case mx of
         None \<Rightarrow> Inl (BadCheckConfig ''max_cost'')
       | Some m \<Rightarrow>
           if float_le m (Finite 0) then Inl (BadCheckConfig ''max_cost'')
           else
             let scope = lower (py_str (dget_default config ''scope'' (PStr ''both''))) in
             if scope \<notin> {''call'', ''accumulated'', ''both''} then Inl (BadCheckConfig ''scope'')
             else bindr (coerce_severity (dget config ''severity'') SevHigh) (\<lambda>sev.
                  bindr (coerce_action (dget config ''suggested_action'')) (\<lambda>act.
                  Inr \<lparr>cc_max = m, cc_scope = scope,
                       cc_call_key = py_str (dget_default config ''call_cost_key'' (PStr ''call_cost'')),
                       cc_acc_key = py_str (dget_default config ''accumulated_cost_key'' (PStr ''accumulated_cost'')),
                       cc_severity = sev, cc_suggested = act\<rparr>)))"

definition suggested_or_block :: "guard_action option \<Rightarrow> guard_action" where
  "suggested_or_block a = (case a of Some x \<Rightarrow> x | None \<Rightarrow> BLOCK)"

text \<open>The costs of one scope the context carries.\<close>

definition scope_cost ::
  "cost_ceiling \<Rightarrow> guard_context \<Rightarrow> string \<Rightarrow> string \<Rightarrow> (string, (string \<times> pyfloat) list) result" where
  "scope_cost g c scope key =
     (if cc_scope g \<in> {scope, ''both''}
      then bindr (coerce_float (dget (gc_metadata c) key))
             (\<lambda>x. Inr (case x of None \<Rightarrow> [] | Some f \<Rightarrow> [(scope, f)]))
      else Inr [])"

definition cost_candidates :: "cost_ceiling \<Rightarrow> guard_context \<Rightarrow> (string, (string \<times> pyfloat) list) result" where
  "cost_candidates g c =
     bindr (scope_cost g c ''call'' (cc_call_key g)) (\<lambda>xs.
     bindr (scope_cost g c ''accumulated'' (cc_acc_key g)) (\<lambda>ys. Inr (xs @ ys)))"

text \<open>\<^verbatim>\<open>max(..., key=...)\<close>: the first of the largest.\<close>

fun worst :: "string \<times> pyfloat \<Rightarrow> (string \<times> pyfloat) list \<Rightarrow> string \<times> pyfloat" where
  "worst b [] = b"
| "worst b (x # xs) = worst (if float_less (snd b) (snd x) then x else b) xs"

definition capitalize :: "string \<Rightarrow> string" where
  "capitalize s = (if s = ''call'' then ''Call'' else if s = ''accumulated'' then ''Accumulated'' else s)"

definition cost_check ::
  "(pyfloat \<Rightarrow> string) \<Rightarrow> cost_ceiling \<Rightarrow> guard_context \<Rightarrow> (string, guard_result) result" where
  "cost_check fmt g c =
     bindr (cost_candidates g c) (\<lambda>candidates.
       case filter (\<lambda>x. float_less (cc_max g) (snd x)) candidates of
         [] \<Rightarrow> Inr guard_ok
       | b # bs \<Rightarrow>
           let (scope, cost) = worst b bs in
           Inr \<lparr>gr_triggered = True, gr_severity = cc_severity g,
                gr_detail = capitalize scope @ '' cost '' @ fmt cost @ '' exceeds ceiling '' @ fmt (cc_max g)
                  @ '' (budget_exceeded).'',
                gr_action = Some (suggested_or_block (cc_suggested g)),
                gr_payload = [(''scope'', PStr scope), (''cost'', PFloat (fmt cost) cost),
                  (''max_cost'', PFloat (fmt (cc_max g)) (cc_max g)),
                  (''overage'', PFloat (fmt (float_minus cost (cc_max g))) (float_minus cost (cc_max g))),
                  (''reason'', PStr ''budget_exceeded'')]\<rparr>)"

lemma make_cost_ceiling_max:
  assumes "make_cost_ceiling config = Inr g"
  shows "\<not> float_le (cc_max g) (Finite 0)"
proof -
  obtain mx where mx: "with_error CheckRaised (coerce_float (dget config ''max_cost'')) = Inr mx"
    using assms unfolding make_cost_ceiling_def bindr_Inr_iff by blast
  obtain m where m: "mx = Some m" "\<not> float_le m (Finite 0)"
    using assms unfolding make_cost_ceiling_def mx bindr_simps
    by (cases mx) (simp_all split: if_split_asm)
  then have "cc_max g = m"
    using assms unfolding make_cost_ceiling_def mx bindr_simps m(1) option.case if_not_P [OF m(2)] Let_def
    by (simp only: bindr_Inr_iff split: if_split_asm) auto
  with m(2) show ?thesis by simp
qed

lemma worst_in: "worst b bs \<in> set (b # bs)"
  by (induction b bs rule: worst.induct) (auto split: if_splits)

text \<open>
  The cost ceiling triggers exactly when a cost of its scope is above the ceiling, and
  then suggests a block unless the configuration names another action. The ceiling is
  positive or a NaN: the text nan is accepted as a ceiling, although the coercion is
  documented to refuse what is not finite, and such a guardrail never triggers.
\<close>

theorem cost_ceiling_triggers_iff:
  assumes "make_cost_ceiling config = Inr g" and "cost_check fmt g c = Inr res"
  shows "(gr_triggered res \<longleftrightarrow>
            (\<exists>xs. cost_candidates g c = Inr xs \<and> (\<exists>x \<in> set xs. float_less (cc_max g) (snd x))))
     \<and> (gr_triggered res \<longrightarrow> gr_action res = Some (suggested_or_block (cc_suggested g)))
     \<and> (float_less (Finite 0) (cc_max g) \<or> cc_max g = NotANumber)
     \<and> (cc_max g = NotANumber \<longrightarrow> \<not> gr_triggered res)"
proof -
  obtain xs where xs: "cost_candidates g c = Inr xs"
    using assms(2) by (auto simp: cost_check_def bindr_Inr_iff)
  have trig: "gr_triggered res \<longleftrightarrow> (\<exists>x \<in> set xs. float_less (cc_max g) (snd x))"
    and act: "gr_triggered res \<longrightarrow> gr_action res = Some (suggested_or_block (cc_suggested g))"
  proof (atomize (full), cases "filter (\<lambda>x. float_less (cc_max g) (snd x)) xs")
    case Nil
    then show "(gr_triggered res \<longleftrightarrow> (\<exists>x \<in> set xs. float_less (cc_max g) (snd x)))
        \<and> (gr_triggered res \<longrightarrow> gr_action res = Some (suggested_or_block (cc_suggested g)))"
      using assms(2) by (auto simp: cost_check_def xs guard_ok_def filter_empty_conv)
  next
    case (Cons b bs)
    then have "b \<in> set (filter (\<lambda>x. float_less (cc_max g) (snd x)) xs)"
      by simp
    then have "b \<in> set xs" "float_less (cc_max g) (snd b)"
      by simp_all
    then show "(gr_triggered res \<longleftrightarrow> (\<exists>x \<in> set xs. float_less (cc_max g) (snd x)))
        \<and> (gr_triggered res \<longrightarrow> gr_action res = Some (suggested_or_block (cc_suggested g)))"
      using assms(2) Cons by (auto simp: cost_check_def xs Let_def split: prod.splits)
  qed
  from make_cost_ceiling_max [OF assms(1)] have "float_less (Finite 0) (cc_max g) \<or> cc_max g = NotANumber"
    by (cases "cc_max g") (auto simp: float_le_def)
  moreover have "cc_max g = NotANumber \<longrightarrow> \<not> gr_triggered res"
    using trig by auto
  ultimately show ?thesis using trig act xs by auto
qed

definition costly_context :: guard_context where
  "costly_context = demo_context\<lparr>gc_metadata := [(''call_cost'', PInt 1000000)]\<rparr>"

lemma cost_ceiling_triggers_iff_witness:
  "\<exists>g res. make_cost_ceiling [(''max_cost'', PStr ''nan'')] = Inr g
     \<and> cost_check (\<lambda>f. []) g costly_context = Inr res \<and> \<not> gr_triggered res"
proof -
  have nan: "coerce_float (PStr ''nan'') = Inr (Some NotANumber)"
    by (simp add: coerce_float_def parse_float_def parse_decimal_def strip_def is_space_def split_sign_def
        is_digit_def lower_char_def Let_def)
  obtain g where g: "make_cost_ceiling [(''max_cost'', PStr ''nan'')] = Inr g"
    and fields: "cc_max g = NotANumber" "cc_scope g = ''both''" "cc_call_key g = ''call_cost''"
      "cc_acc_key g = ''accumulated_cost''"
    by (simp add: make_cost_ceiling_def nan float_le_def py_str_def lower_char_def Let_def
        coerce_severity_def coerce_action_def)
  have "cost_candidates g costly_context = Inr [(''call'', Finite 1000000)]"
    by (simp add: cost_candidates_def scope_cost_def fields costly_context_def coerce_float_def float_limit_def)
  then obtain res where res: "cost_check (\<lambda>f. []) g costly_context = Inr res"
    by (simp add: cost_check_def fields)
  with cost_ceiling_triggers_iff [OF g res] show ?thesis using g res fields by blast
qed

section \<open>The rate limit\<close>

record rate_guard =
  rg_max :: int
  rg_window :: pyfloat
  rg_agent_key :: string
  rg_severity :: severity
  rg_suggested :: "guard_action option"

definition positive_window :: "pyval \<Rightarrow> (config_error, pyfloat) result" where
  "positive_window v =
     (case v of
        PInt i \<Rightarrow> if i \<le> 0 then Inl (BadCheckConfig ''window_seconds'')
                  else if float_limit \<le> i then Inl (CheckRaised ''OverflowError: int too large to convert to float'')
                  else Inr (Finite (of_int i))
      | PFloat t f \<Rightarrow> if float_le f (Finite 0) then Inl (BadCheckConfig ''window_seconds'') else Inr f
      | _ \<Rightarrow> Inl (BadCheckConfig ''window_seconds''))"

definition make_rate_guard :: "pydict \<Rightarrow> (config_error, rate_guard) result" where
  "make_rate_guard config =
     (case dget config ''max_calls'' of
        PInt n \<Rightarrow>
          if n \<le> 0 then Inl (BadCheckConfig ''max_calls'')
          else bindr (positive_window (dget config ''window_seconds'')) (\<lambda>w.
               bindr (coerce_severity (dget config ''severity'') SevMedium) (\<lambda>sev.
               bindr (coerce_action (dget config ''suggested_action'')) (\<lambda>act.
               Inr \<lparr>rg_max = n, rg_window = w,
                    rg_agent_key = py_str (dget_default config ''agent_key'' (PStr ''agent_id'')),
                    rg_severity = sev, rg_suggested = act\<rparr>)))
      | _ \<Rightarrow> Inl (BadCheckConfig ''max_calls''))"

definition rate_key :: "rate_guard \<Rightarrow> guard_context \<Rightarrow> string" where
  "rate_key g c =
     (let agent = dget (gc_metadata c) (rg_agent_key g)
      in if agent = PNone \<or> agent = PStr [] then ''__unknown__'' else py_str agent)"

text \<open>
  A check records the call in the store, which is the first argument, at the time of the
  clock, and judges the count it gets back.
\<close>

definition rate_check ::
  "('s \<Rightarrow> string \<Rightarrow> rat \<Rightarrow> pyfloat \<Rightarrow> 's \<times> nat) \<Rightarrow> (pyfloat \<Rightarrow> string) \<Rightarrow> rate_guard \<Rightarrow> guard_context \<Rightarrow> rat
     \<Rightarrow> 's \<Rightarrow> guard_result \<times> 's" where
  "rate_check record_and_count fmt g c now st =
     (let key = rate_key g c; (st', count) = record_and_count st key now (rg_window g) in
      (if int count \<le> rg_max g then guard_ok
       else \<lparr>gr_triggered = True, gr_severity = rg_severity g,
             gr_detail = ''Agent '' @ repr_str key @ '' made '' @ nat_str count @ '' calls in the last ''
               @ fmt (rg_window g) @ ''s, over the limit of '' @ int_str (rg_max g) @ ''.'',
             gr_action = Some (suggested_or_block (rg_suggested g)),
             gr_payload = [(''agent'', PStr key), (''count'', PInt (int count)), (''max_calls'', PInt (rg_max g)),
               (''window_seconds'', PFloat (fmt (rg_window g)) (rg_window g))]\<rparr>,
       st'))"

text \<open>A sequence of checks: the key, the time and whether the call was let through.\<close>

fun rate_checks ::
  "('s \<Rightarrow> string \<Rightarrow> rat \<Rightarrow> pyfloat \<Rightarrow> 's \<times> nat) \<Rightarrow> (pyfloat \<Rightarrow> string) \<Rightarrow> rate_guard
     \<Rightarrow> (guard_context \<times> rat) list \<Rightarrow> 's \<Rightarrow> (string \<times> rat \<times> bool) list" where
  "rate_checks rec fmt g [] st = []"
| "rate_checks rec fmt g ((c, now) # calls) st =
     (let (res, st') = rate_check rec fmt g c now st
      in (rate_key g c, now, \<not> gr_triggered res) # rate_checks rec fmt g calls st')"

text \<open>A time is too old at another: before the start of the window that ends there.\<close>

definition too_old :: "pyfloat \<Rightarrow> rat \<Rightarrow> rat \<Rightarrow> bool" where
  "too_old w now t \<longleftrightarrow> float_less (Finite t) (float_minus (Finite now) w)"

lemma too_old_mono: "too_old w a t \<Longrightarrow> a \<le> b \<Longrightarrow> too_old w b t"
  by (cases w) (auto simp: too_old_def)

lemma too_old_earlier: "too_old w now t \<Longrightarrow> u \<le> t \<Longrightarrow> too_old w now u"
  by (cases w) (auto simp: too_old_def)

text \<open>
  The contract of \<^verbatim>\<open>RateStore\<close> for one window: \<open>holds\<close> relates a store to the
  history of calls per key, and a call later than those of its key is added to the history
  and answered with the number of calls that are not too old.
\<close>

locale rate_store =
  fixes record_and_count :: "'s \<Rightarrow> string \<Rightarrow> rat \<Rightarrow> pyfloat \<Rightarrow> 's \<times> nat"
    and fresh :: 's
    and window :: pyfloat
    and holds :: "'s \<Rightarrow> (string \<Rightarrow> rat list) \<Rightarrow> bool"
  assumes holds_fresh: "holds fresh (\<lambda>k. [])"
    and answers: "holds st hist \<Longrightarrow> \<forall>t \<in> set (hist k). t \<le> now \<Longrightarrow> record_and_count st k now window = (st', n)
       \<Longrightarrow> holds st' (hist(k := hist k @ [now]))
         \<and> n = length (filter (\<lambda>t. \<not> too_old window now t) (hist k @ [now]))"
begin

text \<open>The let-through calls of a key that are recent at \<open>now\<close>.\<close>

definition recent :: "string \<Rightarrow> rat \<Rightarrow> (string \<times> rat \<times> bool) list \<Rightarrow> (string \<times> rat \<times> bool) list" where
  "recent k now tr = filter (\<lambda>(j, t, ok). j = k \<and> ok \<and> t \<le> now \<and> \<not> too_old window now t) tr"

text \<open>Calls already in the history count against the limit, whether let through or not.\<close>

lemma rate_checks_bounded:
  assumes "holds st hist" and "rg_window g = window" and "sorted (map snd calls)"
    and "\<forall>j. \<forall>t \<in> set (hist j). \<forall>c \<in> set calls. t \<le> snd c"
  shows "recent k now (rate_checks record_and_count fmt g calls st) = []
     \<or> int (length (filter (\<lambda>t. \<not> too_old window now t) (hist k))
         + length (recent k now (rate_checks record_and_count fmt g calls st))) \<le> rg_max g"
  using assms
proof (induction calls arbitrary: st hist)
  case (Cons call calls)
  obtain c t where call: "call = (c, t)" by force
  let ?k = "rate_key g c"
  obtain st' n where step: "record_and_count st ?k t window = (st', n)" by force
  have old: "\<forall>u \<in> set (hist ?k). u \<le> t" using Cons.prems(4) call by auto
  from answers [OF Cons.prems(1) old step]
  have holds: "holds st' (hist(?k := hist ?k @ [t]))"
    and n: "n = length (filter (\<lambda>u. \<not> too_old window t u) (hist ?k @ [t]))" by simp_all
  have tr: "rate_checks record_and_count fmt g (call # calls) st
      = (?k, t, int n \<le> rg_max g) # rate_checks record_and_count fmt g calls st'"
    using step Cons.prems(2) by (simp add: call rate_check_def Let_def guard_ok_def)
  have rest: "recent k now (rate_checks record_and_count fmt g calls st') = []
     \<or> int (length (filter (\<lambda>u. \<not> too_old window now u) ((hist(?k := hist ?k @ [t])) k))
         + length (recent k now (rate_checks record_and_count fmt g calls st'))) \<le> rg_max g"
    using Cons.prems by (intro Cons.IH [OF holds]) (auto simp: call)
  show ?case
  proof (cases "k = ?k \<and> t \<le> now \<and> \<not> too_old window now t")
    case False
    then have "recent k now (rate_checks record_and_count fmt g (call # calls) st)
        = recent k now (rate_checks record_and_count fmt g calls st')"
      unfolding tr by (auto simp: recent_def)
    moreover have "length (filter (\<lambda>u. \<not> too_old window now u) (hist k))
        \<le> length (filter (\<lambda>u. \<not> too_old window now u) ((hist(?k := hist ?k @ [t])) k))"
      by simp
    ultimately show ?thesis using rest by (auto simp del: fun_upd_apply)
  next
    case True
    let ?f = "\<lambda>p. filter (\<lambda>u. \<not> too_old window p u)"
    have grown: "length (?f now ((hist(?k := hist ?k @ [t])) k)) = Suc (length (?f now (hist k)))"
      using True by simp
    have "?f now (hist k) = ?f now (?f t (hist k))"
      using too_old_mono [of window t _ now] True by (auto intro!: filter_cong)
    then have "length (?f now (hist k)) \<le> length (?f t (hist k))"
      by (metis length_filter_le)
    moreover have "\<not> too_old window t t"
      using too_old_mono [of window t t now] True by blast
    ultimately have "length (?f now (hist k)) < n"
      using n True by simp
    moreover have "recent k now (rate_checks record_and_count fmt g (call # calls) st)
        = (if int n \<le> rg_max g then [(?k, t, True)] else [])
          @ recent k now (rate_checks record_and_count fmt g calls st')"
      unfolding tr using True by (auto simp: recent_def)
    ultimately show ?thesis
      using rest grown by (cases "int n \<le> rg_max g") auto
  qed
qed (simp add: recent_def)

end

section \<open>The in-memory store\<close>

text \<open>\<^verbatim>\<open>defaultdict(deque)\<close>: a bucket of times per key, empty where none was made.\<close>

type_synonym rate_memory = "string \<Rightarrow> rat list"

definition memory_record_and_count ::
  "rate_memory \<Rightarrow> string \<Rightarrow> rat \<Rightarrow> pyfloat \<Rightarrow> rate_memory \<times> nat" where
  "memory_record_and_count m key now w =
     (let bucket = dropWhile (too_old w now) (m key @ [now]) in (m(key := bucket), length bucket))"

text \<open>A bucket is what is left of the history when calls too old at some later call are dropped.\<close>

definition bucket_of :: "pyfloat \<Rightarrow> rat list \<Rightarrow> rat list \<Rightarrow> bool" where
  "bucket_of w hist bucket \<longleftrightarrow>
     sorted hist \<and> (\<exists>pre. hist = pre @ bucket \<and> (\<forall>t \<in> set pre. \<exists>u \<in> set hist. too_old w u t))"

definition memory_holds :: "pyfloat \<Rightarrow> rate_memory \<Rightarrow> (string \<Rightarrow> rat list) \<Rightarrow> bool" where
  "memory_holds w m hist \<longleftrightarrow> (\<forall>k. bucket_of w (hist k) (m k))"

lemma dropWhile_old:
  assumes "sorted xs"
  shows "dropWhile (too_old w now) xs = filter (\<lambda>t. \<not> too_old w now t) xs"
  using assms
proof (induction xs)
  case (Cons x xs)
  show ?case
  proof (cases "too_old w now x")
    case False
    then have "\<forall>y \<in> set xs. \<not> too_old w now y"
      using Cons.prems too_old_earlier by auto
    then show ?thesis using False by simp
  qed (use Cons in simp)
qed simp

lemma bucket_step:
  assumes "bucket_of w hist bucket" and later: "\<forall>t \<in> set hist. t \<le> now"
  shows "bucket_of w (hist @ [now]) (dropWhile (too_old w now) (bucket @ [now]))
     \<and> length (dropWhile (too_old w now) (bucket @ [now]))
         = length (filter (\<lambda>t. \<not> too_old w now t) (hist @ [now]))"
proof -
  obtain pre where hist: "hist = pre @ bucket" "sorted hist"
    and pre: "\<forall>t \<in> set pre. \<exists>u \<in> set hist. too_old w u t"
    using assms(1) by (auto simp: bucket_of_def)
  have old: "\<forall>t \<in> set pre. too_old w now t"
    using pre later too_old_mono by blast
  have sorted: "sorted (hist @ [now])"
    using hist(2) later by (simp add: sorted_append)
  then have "sorted (bucket @ [now])"
    using hist(1) by (simp add: sorted_append)
  then have "length (dropWhile (too_old w now) (bucket @ [now]))
      = length (filter (\<lambda>t. \<not> too_old w now t) (hist @ [now]))"
    using old hist(1) by (simp add: dropWhile_old del: dropWhile_append2)
  moreover have "bucket_of w (hist @ [now]) (dropWhile (too_old w now) (bucket @ [now]))"
    unfolding bucket_of_def
  proof (intro conjI exI [of _ "pre @ takeWhile (too_old w now) (bucket @ [now])"])
    show "hist @ [now] = (pre @ takeWhile (too_old w now) (bucket @ [now]))
        @ dropWhile (too_old w now) (bucket @ [now])"
      using hist(1) by simp
    show "\<forall>t \<in> set (pre @ takeWhile (too_old w now) (bucket @ [now])). \<exists>u \<in> set (hist @ [now]). too_old w u t"
      using old by (auto dest: set_takeWhileD)
  qed (rule sorted)
  ultimately show ?thesis by simp
qed

interpretation memory_rate: rate_store memory_record_and_count "\<lambda>k. []" w "memory_holds w"
  for w
proof
  show "memory_holds w (\<lambda>k. []) (\<lambda>k. [])"
    by (simp add: memory_holds_def bucket_of_def)
next
  fix st hist k now st' n
  assume h: "memory_holds w st hist" and later: "\<forall>t \<in> set (hist k). t \<le> now"
    and step: "memory_record_and_count st k now w = (st', n)"
  from h have "bucket_of w (hist k) (st k)" by (simp add: memory_holds_def)
  from bucket_step [OF this later] step h
  show "memory_holds w st' (hist(k := hist k @ [now]))
     \<and> n = length (filter (\<lambda>t. \<not> too_old w now t) (hist k @ [now]))"
    by (auto simp: memory_record_and_count_def Let_def memory_holds_def)
qed

text \<open>
  The rate limit holds over every window: for a guardrail that could be built, with the
  in-memory store and a clock that does not run backwards, at no instant are there more
  than the configured number of let-through calls of one agent within the window that
  ends there, whatever the other agents do and however many refused calls come between.
\<close>

theorem rate_limit_holds:
  assumes "make_rate_guard config = Inr g" and "sorted (map snd calls)"
  shows "int (length (filter (\<lambda>(j, t, ok). j = k \<and> ok \<and> t \<le> now \<and> \<not> too_old (rg_window g) now t)
      (rate_checks memory_record_and_count fmt g calls (\<lambda>k. [])))) \<le> rg_max g"
proof -
  have "0 \<le> rg_max g"
    using assms(1) by (auto simp: make_rate_guard_def bindr_Inr_iff split: pyval.splits if_splits)
  moreover have "memory_holds (rg_window g) (\<lambda>k. []) (\<lambda>k. [])"
    by (simp add: memory_holds_def bucket_of_def)
  ultimately show ?thesis
    using memory_rate.rate_checks_bounded [of "rg_window g" "\<lambda>k. []" "\<lambda>k. []" g calls k now fmt] assms(2)
    by (auto simp: memory_rate.recent_def)
qed

lemma rate_limit_holds_witness:
  "\<exists>g. make_rate_guard [(''max_calls'', PInt 2), (''window_seconds'', PInt 60)] = Inr g
     \<and> int (length (filter (\<lambda>(j, t, ok). j = ''__unknown__'' \<and> ok \<and> t \<le> 2 \<and> \<not> too_old (rg_window g) 2 t)
           (rate_checks memory_record_and_count (\<lambda>f. []) g
              [(demo_context, 0), (demo_context, 1), (demo_context, 2)] (\<lambda>k. [])))) \<le> 2"
proof -
  obtain g where g: "make_rate_guard [(''max_calls'', PInt 2), (''window_seconds'', PInt 60)] = Inr g"
    and mx: "rg_max g = 2"
    by (simp add: make_rate_guard_def positive_window_def float_limit_def coerce_severity_def
        coerce_action_def)
  have "sorted (map snd [(demo_context, 0 :: rat), (demo_context, 1), (demo_context, 2)])"
    by simp
  from rate_limit_holds [OF g this, of "''__unknown__''" 2 "\<lambda>f. []"] g mx show ?thesis by auto
qed

text \<open>
  The contract is for one window. A store shared by two guardrails forgets for the longer
  window what the shorter one dropped: the third call below is answered with two calls in
  the last minute, and there were three.
\<close>

lemma shared_store_forgets:
  "(let m1 = fst (memory_record_and_count (\<lambda>k. []) ''a'' 0 (Finite 60));
        m2 = fst (memory_record_and_count m1 ''a'' 10 (Finite 5))
    in snd (memory_record_and_count m2 ''a'' 20 (Finite 60))) = 2"
  by (simp add: memory_record_and_count_def Let_def too_old_def)

end
