(* ===== verification/JsonText.thy ===== *)
theory JsonText
  imports PyValue "HOL-Library.List_Lexorder" "HOL-Library.Char_ord"
begin

text \<open>
  \<^verbatim>\<open>json.dumps\<close> of the Python standard library on the values of PyValue, with the
  options the program uses: the separators, \<^verbatim>\<open>sort_keys\<close>, \<^verbatim>\<open>ensure_ascii\<close> and
  \<^verbatim>\<open>allow_nan\<close>. A value that cannot be written is \<open>None\<close> (the \<^verbatim>\<open>ValueError\<close> of the
  library). A float is written with the text Python prints for it. Also the string
  operations the agent runtime needs: \<^verbatim>\<open>in\<close>, \<^verbatim>\<open>rsplit\<close>, \<^verbatim>\<open>split\<close> and
  \<^verbatim>\<open>join\<close> on blanks.
\<close>

section \<open>Options\<close>

record json_opts =
  jo_item :: string
  jo_key :: string
  jo_sort :: bool
  jo_ascii :: bool
  jo_nan :: bool

definition json_default :: json_opts where
  "json_default = \<lparr>jo_item = '', '', jo_key = '': '', jo_sort = False, jo_ascii = True, jo_nan = True\<rparr>"

section \<open>Strings\<close>

definition hex_digit :: "nat \<Rightarrow> char" where
  "hex_digit n = (if n < 10 then char_of (48 + n) else char_of (87 + n))"

definition json_char :: "bool \<Rightarrow> char \<Rightarrow> string" where
  "json_char ascii c =
     (let n = of_char c :: nat in
      if c = CHR 0x22 \<or> c = CHR 0x5C then [CHR 0x5C, c]
      else if n = 8 then [CHR 0x5C, CHR ''b'']
      else if n = 9 then [CHR 0x5C, CHR ''t'']
      else if n = 10 then [CHR 0x5C, CHR ''n'']
      else if n = 12 then [CHR 0x5C, CHR ''f'']
      else if n = 13 then [CHR 0x5C, CHR ''r'']
      else if n < 32 \<or> (ascii \<and> 126 < n)
      then [CHR 0x5C, CHR ''u'', CHR ''0'', CHR ''0'', hex_digit (n div 16), hex_digit (n mod 16)]
      else [c])"

definition json_str :: "bool \<Rightarrow> string \<Rightarrow> string" where
  "json_str ascii s = CHR 0x22 # concat (map (json_char ascii) s) @ [CHR 0x22]"

section \<open>Values\<close>

text \<open>One entry of an object: its key and the text of its value.\<close>

definition json_pairs :: "json_opts \<Rightarrow> (string \<times> string) list \<Rightarrow> string" where
  "json_pairs opts ps =
     ''{'' @ join (jo_item opts)
       (map (\<lambda>(k, t). json_str (jo_ascii opts) k @ jo_key opts @ t)
         (if jo_sort opts then sort_key fst ps else ps)) @ ''}''"

fun json_float :: "json_opts \<Rightarrow> string \<Rightarrow> pyfloat \<Rightarrow> string option" where
  "json_float opts t (Finite _) = Some t"
| "json_float opts t PosInf = (if jo_nan opts then Some ''Infinity'' else None)"
| "json_float opts t NegInf = (if jo_nan opts then Some ''-Infinity'' else None)"
| "json_float opts t NotANumber = (if jo_nan opts then Some ''NaN'' else None)"

fun json_dumps :: "json_opts \<Rightarrow> pyval \<Rightarrow> string option" where
  "json_dumps opts PNone = Some ''null''"
| "json_dumps opts (PBool b) = Some (if b then ''true'' else ''false'')"
| "json_dumps opts (PInt i) = Some (int_str i)"
| "json_dumps opts (PFloat t f) = json_float opts t f"
| "json_dumps opts (PStr s) = Some (json_str (jo_ascii opts) s)"
| "json_dumps opts (PList xs) =
     map_option (\<lambda>ts. ''['' @ join (jo_item opts) ts @ '']'') (those (map (json_dumps opts) xs))"
| "json_dumps opts (PDict d) =
     map_option (\<lambda>ts. json_pairs opts (zip (map fst d) ts)) (those (map (\<lambda>(k, v). json_dumps opts v) d))"

text \<open>With NaN allowed every value has a text.\<close>

definition json_text :: "json_opts \<Rightarrow> pyval \<Rightarrow> string" where
  "json_text opts v = (case json_dumps opts v of Some t \<Rightarrow> t | None \<Rightarrow> [])"

lemma those_map_Some: "(\<forall>x \<in> set xs. f x \<noteq> None) \<longleftrightarrow> (\<exists>ts. those (map f xs) = Some ts)"
  by (induction xs) (auto split: option.splits)

lemma json_total: "jo_nan opts \<Longrightarrow> json_dumps opts v \<noteq> None"
proof (induction v rule: json_dumps.induct)
  case (4 opts t f)
  then show ?case by (cases f) auto
next
  case (6 opts xs)
  then have "\<forall>x \<in> set xs. json_dumps opts x \<noteq> None" by blast
  then show ?case using those_map_Some [of xs "json_dumps opts"] by auto
next
  case (7 opts d)
  then have "\<forall>p \<in> set d. (\<lambda>(k, v). json_dumps opts v) p \<noteq> None" by fastforce
  then show ?case using those_map_Some [of d "\<lambda>(k, v). json_dumps opts v"] by auto
qed auto

section \<open>Substrings and words\<close>

text \<open>\<^verbatim>\<open>m in s\<close>.\<close>

fun has_infix :: "string \<Rightarrow> string \<Rightarrow> bool" where
  "has_infix m [] = (m = [])"
| "has_infix m (c # s) = (take (length m) (c # s) = m \<or> has_infix m s)"

lemma has_infix_iff: "has_infix m s \<longleftrightarrow> (\<exists>u v. s = u @ m @ v)"
proof (induction s)
  case (Cons c s)
  show ?case
  proof
    assume "has_infix m (c # s)"
    then consider "take (length m) (c # s) = m" | "has_infix m s" by auto
    then show "\<exists>u v. c # s = u @ m @ v"
    proof cases
      case 1
      then have "c # s = [] @ m @ drop (length m) (c # s)"
        using append_take_drop_id [of "length m" "c # s"] by simp
      then show ?thesis by blast
    next
      case 2
      then obtain u v where "s = u @ m @ v" using Cons by auto
      then have "c # s = (c # u) @ m @ v" by simp
      then show ?thesis by blast
    qed
  next
    assume "\<exists>u v. c # s = u @ m @ v"
    then obtain u v where uv: "c # s = u @ m @ v" by blast
    show "has_infix m (c # s)"
    proof (cases u)
      case Nil
      then have "take (length m) (c # s) = m" using uv by simp
      then show ?thesis by simp
    next
      case (Cons d us)
      then have "s = us @ m @ v" using uv by simp
      then show ?thesis using Cons.IH by auto
    qed
  qed
qed auto

text \<open>\<^verbatim>\<open>s.rsplit(sep, 1)[-1]\<close> and \<^verbatim>\<open>s.split(sep, 1)[-1]\<close> for a one-character separator.\<close>

definition after_last :: "char \<Rightarrow> string \<Rightarrow> string" where
  "after_last sep s = rev (takeWhile (\<lambda>c. c \<noteq> sep) (rev s))"

definition after_first :: "char \<Rightarrow> string \<Rightarrow> string" where
  "after_first sep s = (if sep \<in> set s then tl (dropWhile (\<lambda>c. c \<noteq> sep) s) else s)"

text \<open>\<^verbatim>\<open>s.split()\<close>, the words of a text, and \<^verbatim>\<open>" ".join(s.split())\<close>.\<close>

fun split_words :: "string \<Rightarrow> string \<Rightarrow> string list" where
  "split_words w [] = (if w = [] then [] else [rev w])"
| "split_words w (c # s) =
     (if is_space c then (if w = [] then split_words [] s else rev w # split_words [] s)
      else split_words (c # w) s)"

definition collapse :: "string \<Rightarrow> string" where
  "collapse s = join '' '' (split_words [] s)"

end
