(* ===== verification/AgentTools.thy ===== *)
theory AgentTools
  imports JsonText "HOL-Library.AList"
begin

text \<open>
  What the agent loop knows about tools: the classes of tool names
  (\<^verbatim>\<open>agent_runtime/tool_classification.py\<close>), the canonical names
  (\<^verbatim>\<open>shared_domain/tool_names.py\<close>), the categories of sensitive actions
  (\<^verbatim>\<open>shared_domain/approval_categories.py\<close>), the canonical text of an action
  (\<^verbatim>\<open>shared_domain/approval_action.py\<close>) and the registry with its per-mode allowlist
  (\<^verbatim>\<open>agent_runtime/tools.py\<close>). A tool is a function of its arguments and of a world
  it may change; the world is a type parameter.
\<close>

section \<open>Classes of tools\<close>

definition research_tools :: "string list" where
  "research_tools = [''list_files'', ''read_file'', ''memory_recall'', ''rag_search'', ''search_code'']"

definition producing_tools :: "string list" where
  "producing_tools =
     [''write_file'', ''edit_file'', ''create_file'', ''shell_exec'', ''stack_exec'', ''apply_patch'']"

definition base_tool_name :: "string option \<Rightarrow> string" where
  "base_tool_name tool = after_last (CHR ''.'') (case tool of Some t \<Rightarrow> t | None \<Rightarrow> [])"

definition is_research_tool :: "string option \<Rightarrow> bool" where
  "is_research_tool tool \<longleftrightarrow> base_tool_name tool \<in> set research_tools"

definition is_producing_tool :: "string option \<Rightarrow> bool" where
  "is_producing_tool tool \<longleftrightarrow> base_tool_name tool \<in> set producing_tools"

definition is_readonly_tool :: "string option \<Rightarrow> bool" where
  "is_readonly_tool tool \<longleftrightarrow> base_tool_name tool \<in> set research_tools"

definition is_mutating_tool :: "string option \<Rightarrow> bool" where
  "is_mutating_tool tool \<longleftrightarrow> \<not> is_readonly_tool tool"

text \<open>\<^verbatim>\<open>v or d\<close>.\<close>

definition py_or :: "pyval \<Rightarrow> pyval \<Rightarrow> pyval" where
  "py_or v d = (if truthy v then v else d)"

definition read_target :: "string option \<Rightarrow> pydict \<Rightarrow> string option" where
  "read_target tool args =
     (let base = base_tool_name tool;
          named = (\<lambda>v. let q = strip (py_str (py_or v (PStr [])))
                       in if q = [] then None else Some (base @ '':'' @ q))
      in if base = ''read_file'' \<or> base = ''list_files''
         then Some (base @ '':'' @ py_str (py_or (dget args ''path'') (PStr ''.'')))
         else if base = ''rag_search'' \<or> base = ''memory_recall'' then named (dget args ''query'')
         else if base = ''search_code'' then named (py_or (dget args ''query'') (dget args ''pattern''))
         else None)"

definition platform_error_markers :: "string list" where
  "platform_error_markers =
     [''not allowed'', ''unknown tool'', ''no executor'', ''not registered'', ''permission denied'',
      ''eacces'', ''read-only file system'', ''worktree is empty'']"

text \<open>The error of an observation is a text or absent.\<close>

definition is_platform_error :: "string option \<Rightarrow> bool" where
  "is_platform_error err =
     (case err of None \<Rightarrow> False
      | Some e \<Rightarrow> e \<noteq> [] \<and> list_ex (\<lambda>m. has_infix m (lower e)) platform_error_markers)"

section \<open>Canonical names\<close>

text \<open>
  The canonical names of a tool. The code returns a set and iterates over it: the gate
  takes the order of that iteration as a parameter.
\<close>

definition alias_to_canonical :: "(string \<times> string list) list" where
  "alias_to_canonical =
     [(''file_read'', [''read_file'']), (''file_write'', [''write_file'']),
      (''file_delete'', [''delete_file'']), (''file_list'', [''list_files'']),
      (''http_request'', [''http_get'', ''http_post'']),
      (''notify_user'', [''send_notification'']), (''semantic_search'', [''rag_search''])]"

definition to_canonical :: "string \<Rightarrow> string list" where
  "to_canonical name = (case map_of alias_to_canonical name of Some ns \<Rightarrow> ns | None \<Rightarrow> [name])"

definition runtime_wired_tool_names :: "string list" where
  "runtime_wired_tool_names =
     [''read_file'', ''write_file'', ''delete_file'', ''move_file'', ''list_files'', ''http_get'',
      ''http_post'', ''task_comment'', ''rag_search'', ''document_convert'', ''promote_to_kb'',
      ''memory_recall'', ''memory_store'', ''shell_exec'', ''stack_exec'']"

definition catalog_tool_names :: "string list" where
  "catalog_tool_names =
     [''apply_patch'', ''delete_file'', ''http_get'', ''http_post'', ''list_files'', ''move_file'',
      ''read_file'', ''run_build'', ''run_lint'', ''run_pytest'', ''run_typecheck'', ''search_code'',
      ''semantic_search'', ''send_notification'', ''shell_exec'', ''stack_exec'', ''summarize_text'',
      ''write_file'']"

definition canonical_tool_names :: "string list" where
  "canonical_tool_names =
     catalog_tool_names @ [''kanban_update'', ''task_comment'', ''agent_invoke'']
     @ [''memory_recall'', ''memory_store'', ''rag_search'', ''document_convert'', ''promote_to_kb'']"

definition is_runtime_wired :: "string \<Rightarrow> bool" where
  "is_runtime_wired name \<longleftrightarrow> list_ex (\<lambda>n. n \<in> set runtime_wired_tool_names) (to_canonical name)"

definition is_unwired_platform_builtin :: "string \<Rightarrow> bool" where
  "is_unwired_platform_builtin name \<longleftrightarrow>
     name \<in> set canonical_tool_names \<and> \<not> is_runtime_wired name"

section \<open>Categories\<close>

definition approval_categories :: "string list" where
  "approval_categories =
     [''code_changes'', ''git_commit'', ''git_push'', ''external_http_get'', ''external_http_post'',
      ''secrets_access'', ''data_migration'', ''production_deploy'', ''infra_provision'',
      ''secret_rotation'', ''external_communication'', ''data_export_pii'', ''user_management'']"

definition spec_category_by_impl :: "(string \<times> string) list" where
  "spec_category_by_impl =
     [(''mcp_tool'', ''external_http_post''), (''http_endpoint'', ''external_http_post''),
      (''python_function'', ''code_changes''), (''docker_command'', ''code_changes'')]"

definition spec_approval_category :: "string \<Rightarrow> string option \<Rightarrow> string option" where
  "spec_approval_category implementation_type security_level =
     (case map_of spec_category_by_impl implementation_type of
        None \<Rightarrow> None
      | Some category \<Rightarrow> if security_level = Some ''safe'' then None else Some category)"

section \<open>The text of an action\<close>

definition canonical_tool_key :: "string \<Rightarrow> string" where
  "canonical_tool_key tool = (if tool = [] then [] else join ''|'' (sort (to_canonical tool)))"

definition action_json :: json_opts where
  "action_json = \<lparr>jo_item = '','', jo_key = '':'', jo_sort = True, jo_ascii = False, jo_nan = False\<rparr>"

text \<open>
  The fingerprint of an action: the hash, a parameter, of its canonical text. Without a
  tool, or when the arguments have no JSON text, there is none.
\<close>

definition action_payload :: "string \<Rightarrow> pyval \<Rightarrow> string option" where
  "action_payload tool args =
     (let key = canonical_tool_key tool in
      if key = [] then None
      else json_dumps action_json (PDict [(''tool'', PStr key), (''args'', args)]))"

definition action_fingerprint :: "(string \<Rightarrow> string) \<Rightarrow> string \<Rightarrow> pyval \<Rightarrow> string option" where
  "action_fingerprint sha tool args = map_option sha (action_payload tool args)"

section \<open>The registry\<close>

record tool_result =
  tr_ok :: bool
  tr_output :: pyval
  tr_error :: "string option"

text \<open>A tool function raises (the text of the exception) or returns.\<close>

type_synonym 'w tool_fn = "pydict \<Rightarrow> 'w \<Rightarrow> (string, tool_result) result \<times> 'w"

record 'w tool_registry =
  tg_tools :: "(string \<times> 'w tool_fn) list"
  tg_allowed :: "string list option"

definition is_allowed :: "'w tool_registry \<Rightarrow> string \<Rightarrow> bool" where
  "is_allowed reg name = (case tg_allowed reg of None \<Rightarrow> True | Some ns \<Rightarrow> name \<in> set ns)"

definition register_tool :: "string \<Rightarrow> 'w tool_fn \<Rightarrow> 'w tool_registry \<Rightarrow> 'w tool_registry" where
  "register_tool name fn reg = reg\<lparr>tg_tools := AList.update name fn (tg_tools reg)\<rparr>"

definition set_allowed_tools :: "string list option \<Rightarrow> 'w tool_registry \<Rightarrow> 'w tool_registry" where
  "set_allowed_tools ns reg = reg\<lparr>tg_allowed := ns\<rparr>"

definition failed_result :: "string \<Rightarrow> tool_result" where
  "failed_result e = \<lparr>tr_ok = False, tr_output = PNone, tr_error = Some e\<rparr>"

definition registry_call ::
  "'w tool_registry \<Rightarrow> string \<Rightarrow> pydict \<Rightarrow> 'w \<Rightarrow> tool_result \<times> 'w" where
  "registry_call reg name args w =
     (if \<not> is_allowed reg name
      then (failed_result (''tool '' @ [CHR 0x27] @ name @ [CHR 0x27] @ '' not allowed in this mode''), w)
      else case map_of (tg_tools reg) name of
             None \<Rightarrow> (failed_result (''unknown tool: '' @ name), w)
           | Some fn \<Rightarrow>
               (case fn args w of
                  (Inl exc, w') \<Rightarrow> (failed_result exc, w')
                | (Inr res, w') \<Rightarrow> (res, w')))"

text \<open>The two placeholder tools.\<close>

definition echo_tool :: "'w tool_fn" where
  "echo_tool args w =
     (Inr \<lparr>tr_ok = True, tr_output = dget_default args ''text'' (PStr []), tr_error = None\<rparr>, w)"

definition noop_tool :: "'w tool_fn" where
  "noop_tool args w = (Inr \<lparr>tr_ok = True, tr_output = dget args ''reason'', tr_error = None\<rparr>, w)"

definition default_registry :: "'w tool_registry" where
  "default_registry =
     register_tool ''noop'' noop_tool
       (register_tool ''echo'' echo_tool \<lparr>tg_tools = [], tg_allowed = None\<rparr>)"

section \<open>Lemmas\<close>

lemma research_not_mutating: "is_research_tool t \<longleftrightarrow> \<not> is_mutating_tool t"
  by (simp add: is_research_tool_def is_mutating_tool_def is_readonly_tool_def)

lemma producing_mutating: "is_producing_tool t \<Longrightarrow> is_mutating_tool t"
  by (auto simp: is_producing_tool_def is_mutating_tool_def is_readonly_tool_def
      producing_tools_def research_tools_def)

text \<open>A tool outside the allowlist does not touch the world.\<close>

lemma disallowed_call: "\<not> is_allowed reg name \<Longrightarrow> snd (registry_call reg name args w) = w"
  by (simp add: registry_call_def)

lemma fingerprint_keyed: "action_fingerprint sha [] args = None"
  by (simp add: action_fingerprint_def action_payload_def canonical_tool_key_def)

end
