(* ===== verification/AgentSafeguards.thy ===== *)
theory AgentSafeguards
  imports AgentTools
begin

text \<open>
  What bounds an agent run: the budgets and their tracker
  (\<^verbatim>\<open>agent_runtime/safeguards.py\<close>), the detector of repeated actions
  (\<^verbatim>\<open>loop_detection.py\<close>), and the nudges and the sterility limit
  (\<^verbatim>\<open>nudges.py\<close>). The texts of the nudges are values that say which nudge it is and
  what it names. Costs and times are exact rationals.
\<close>

section \<open>Budgets and usage\<close>

datatype safeguard_code =
    MAX_ITERATIONS | MAX_TOKENS | MAX_COST | MAX_WALL_CLOCK | MAX_TOOL_CALLS
  | REPETITIVE_LOOP | RESEARCH_EXHAUSTED | REVIEW_INCONCLUSIVE | MAX_REVIEW_RETRIES_EXHAUSTED
  | SELF_REVIEW_STALEMATE | AGENT_REPORTED_FAILURE | PROVIDER_ERROR | PROVIDER_TIMEOUT
  | STACK_EXEC_UNAVAILABLE | GUARDRAIL_BLOCKED | REFLECTION_STALLED

record budgets =
  max_iterations :: int
  max_tokens :: int
  max_cost_usd :: rat
  max_wall_clock_s :: rat
  max_tool_calls :: int
  max_review_retries :: int

definition default_budgets :: budgets where
  "default_budgets = \<lparr>max_iterations = 25, max_tokens = 100000, max_cost_usd = 5, max_wall_clock_s = 600,
                      max_tool_calls = 50, max_review_retries = 3\<rparr>"

record usage =
  iterations :: nat
  tokens_in :: int
  tokens_out :: int
  cost_usd :: rat
  tool_calls :: nat
  model_calls :: nat
  cost_estimated_calls :: nat

definition zero_usage :: usage where
  "zero_usage = \<lparr>iterations = 0, tokens_in = 0, tokens_out = 0, cost_usd = 0, tool_calls = 0,
                 model_calls = 0, cost_estimated_calls = 0\<rparr>"

definition total_tokens :: "usage \<Rightarrow> int" where
  "total_tokens u = tokens_in u + tokens_out u"

record model_prices =
  input_usd_per_1m :: rat
  output_usd_per_1m :: rat

definition estimate :: "model_prices \<Rightarrow> int \<Rightarrow> int \<Rightarrow> rat" where
  "estimate p ti to1 = (of_int ti * input_usd_per_1m p + of_int to1 * output_usd_per_1m p) / 1000000"

section \<open>The tracker\<close>

record tracker =
  tk_budgets :: budgets
  tk_prices :: "model_prices option"
  tk_usage :: usage
  tk_start :: rat

definition make_tracker :: "budgets \<Rightarrow> model_prices option \<Rightarrow> rat \<Rightarrow> tracker" where
  "make_tracker b p now = \<lparr>tk_budgets = b, tk_prices = p, tk_usage = zero_usage, tk_start = now\<rparr>"

definition tick_iteration :: "tracker \<Rightarrow> tracker" where
  "tick_iteration t = t\<lparr>tk_usage := (tk_usage t)\<lparr>iterations := Suc (iterations (tk_usage t))\<rparr>\<rparr>"

definition record_model_call :: "int \<Rightarrow> int \<Rightarrow> rat \<Rightarrow> tracker \<Rightarrow> tracker" where
  "record_model_call ti to1 cost t =
     (let u = tk_usage t;
          u1 = u\<lparr>model_calls := Suc (model_calls u), tokens_in := tokens_in u + ti,
                 tokens_out := tokens_out u + to1\<rparr>;
          (cost1, u2) =
            (case tk_prices t of
               Some p \<Rightarrow>
                 if cost \<le> 0
                 then (estimate p ti to1, u1\<lparr>cost_estimated_calls := Suc (cost_estimated_calls u1)\<rparr>)
                 else (cost, u1)
             | None \<Rightarrow> (cost, u1))
      in t\<lparr>tk_usage := u2\<lparr>cost_usd := cost_usd u2 + cost1\<rparr>\<rparr>)"

definition record_tool_call :: "tracker \<Rightarrow> tracker" where
  "record_tool_call t = t\<lparr>tk_usage := (tk_usage t)\<lparr>tool_calls := Suc (tool_calls (tk_usage t))\<rparr>\<rparr>"

definition elapsed_s :: "rat \<Rightarrow> tracker \<Rightarrow> rat" where
  "elapsed_s now t = now - tk_start t"

definition iteration_exhausted :: "tracker \<Rightarrow> bool" where
  "iteration_exhausted t \<longleftrightarrow> int (iterations (tk_usage t)) \<ge> max_iterations (tk_budgets t)"

definition check_budgets :: "rat \<Rightarrow> tracker \<Rightarrow> safeguard_code option" where
  "check_budgets now t =
     (let b = tk_budgets t; u = tk_usage t in
      if total_tokens u > max_tokens b then Some MAX_TOKENS
      else if cost_usd u > max_cost_usd b then Some MAX_COST
      else if int (tool_calls u) > max_tool_calls b then Some MAX_TOOL_CALLS
      else if elapsed_s now t > max_wall_clock_s b then Some MAX_WALL_CLOCK
      else None)"

section \<open>Repeated actions\<close>

text \<open>
  An action: the tool, its arguments and, in a turn with a read-only batch, the batch. Its
  fingerprint is its JSON text with sorted keys.
\<close>

type_synonym tool_call = "string \<times> pydict"

definition call_val :: "tool_call \<Rightarrow> pyval" where
  "call_val c = PDict [(''tool'', PStr (fst c)), (''args'', PDict (snd c))]"

definition action_val :: "string option \<Rightarrow> pydict \<Rightarrow> tool_call list \<Rightarrow> pyval" where
  "action_val tool args batch =
     PDict ([(''tool'', case tool of Some t \<Rightarrow> PStr t | None \<Rightarrow> PNone), (''args'', PDict args)]
            @ (if batch = [] then [] else [(''batch'', PList (map call_val batch))]))"

definition fingerprint :: "pyval \<Rightarrow> string" where
  "fingerprint action = json_text (json_default\<lparr>jo_sort := True\<rparr>) action"

definition error_signature :: "string option \<Rightarrow> string" where
  "error_signature err = collapse (case err of Some e \<Rightarrow> e | None \<Rightarrow> [])"

record loop_detector =
  ld_threshold :: int
  ld_counts :: "string \<Rightarrow> nat"
  ld_history :: "string list"
  ld_failures :: "string \<rightharpoonup> string \<times> nat"

definition make_detector :: "int \<Rightarrow> loop_detector" where
  "make_detector thr = \<lparr>ld_threshold = thr, ld_counts = (\<lambda>_. 0), ld_history = [], ld_failures = Map.empty\<rparr>"

definition record_action :: "pyval \<Rightarrow> loop_detector \<Rightarrow> bool \<times> loop_detector" where
  "record_action action d =
     (let f = fingerprint action;
          d' = d\<lparr>ld_counts := (ld_counts d)(f := Suc (ld_counts d f)), ld_history := ld_history d @ [f]\<rparr>
      in (int (ld_counts d' f) > ld_threshold d', d'))"

definition note_progress :: "loop_detector \<Rightarrow> loop_detector" where
  "note_progress d = d\<lparr>ld_counts := (\<lambda>_. 0), ld_failures := Map.empty\<rparr>"

definition failure_entry :: "pyval \<Rightarrow> loop_detector \<Rightarrow> string \<times> nat" where
  "failure_entry action d = (case ld_failures d (fingerprint action) of Some e \<Rightarrow> e | None \<Rightarrow> ([], 0))"

definition note_outcome :: "pyval \<Rightarrow> bool \<Rightarrow> string option \<Rightarrow> loop_detector \<Rightarrow> loop_detector" where
  "note_outcome action ok err d =
     (let f = fingerprint action in
      if ok then d\<lparr>ld_failures := (ld_failures d)(f := None)\<rparr>
      else
        let signature = error_signature err; (previous, streak) = failure_entry action d
        in d\<lparr>ld_failures := (ld_failures d)(f \<mapsto> (signature, if signature = previous then streak + 1 else 1))\<rparr>)"

definition failure_streak :: "pyval \<Rightarrow> loop_detector \<Rightarrow> nat" where
  "failure_streak action d = snd (failure_entry action d)"

definition failure_error :: "pyval \<Rightarrow> loop_detector \<Rightarrow> string option" where
  "failure_error action d =
     (let (signature, streak) = failure_entry action d in if streak \<noteq> 0 then Some signature else None)"

definition is_failing_identically :: "pyval \<Rightarrow> loop_detector \<Rightarrow> bool" where
  "is_failing_identically action d \<longleftrightarrow> int (failure_streak action d) \<ge> ld_threshold d"

definition count_of :: "pyval \<Rightarrow> loop_detector \<Rightarrow> nat" where
  "count_of action d = ld_counts d (fingerprint action)"

section \<open>Nudges\<close>

datatype nudge =
    SavedSameBytes string nat bool
  | SameResultAgain string nat
  | PathRewritten string nat
  | EnoughToJudge
  | AlreadyProduced
  | SameArguments string nat
  | TargetRead string nat bool bool
  | SterileReads nat bool bool
  | SelfCheck

definition sterile_hard_limit :: "int \<Rightarrow> int" where
  "sterile_hard_limit max_iter = max 10 (max_iter div 4)"

definition same_target_hard_limit :: nat where "same_target_hard_limit = 5"
definition same_target_nudge_limit :: nat where "same_target_nudge_limit = 3"
definition reread_churn_nudge_limit :: nat where "reread_churn_nudge_limit = 3"
definition path_churn_threshold :: nat where "path_churn_threshold = 4"

definition repetition_nudge :: "string option \<Rightarrow> nat \<Rightarrow> int \<Rightarrow> bool \<Rightarrow> nudge option" where
  "repetition_nudge tool repeat_count threshold has_produced =
     (if tool = None \<or> int repeat_count < threshold then None
      else
        let name = (if base_tool_name tool = [] then ''that tool'' else base_tool_name tool) in
        if is_mutating_tool tool then Some (SavedSameBytes name repeat_count has_produced)
        else Some (SameResultAgain name repeat_count))"

definition path_churn_nudge :: "string \<Rightarrow> nat \<Rightarrow> nat \<Rightarrow> nudge option" where
  "path_churn_nudge path write_count threshold =
     (if path = [] \<or> write_count < threshold then None else Some (PathRewritten path write_count))"

definition research_nudge :: "string option \<Rightarrow> nat \<Rightarrow> bool \<Rightarrow> bool \<Rightarrow> nudge option" where
  "research_nudge tool repeat_count has_produced is_review =
     (if \<not> (is_research_tool tool \<and> repeat_count > 1) then None
      else if is_review then Some EnoughToJudge
      else if has_produced then Some AlreadyProduced
      else Some (SameArguments (case tool of Some t \<Rightarrow> t | None \<Rightarrow> ''None'') repeat_count))"

definition same_target_nudge :: "string option \<Rightarrow> nat \<Rightarrow> bool \<Rightarrow> bool \<Rightarrow> nudge option" where
  "same_target_nudge target n has_produced is_review =
     (case target of
        None \<Rightarrow> None
      | Some t \<Rightarrow>
          if n < same_target_nudge_limit then None
          else Some (TargetRead (after_first (CHR '':'') t) n is_review has_produced))"

definition reread_churn_nudge :: "nat \<Rightarrow> nat \<Rightarrow> bool \<Rightarrow> bool \<Rightarrow> nudge option" where
  "reread_churn_nudge churn_streak limit has_produced is_review =
     (if churn_streak < limit then None else Some (SterileReads churn_streak is_review has_produced))"

definition research_exhausted :: "nat \<Rightarrow> nat \<Rightarrow> bool \<Rightarrow> int \<Rightarrow> int \<Rightarrow> nat \<Rightarrow> bool \<Rightarrow> bool" where
  "research_exhausted sterile_streak max_same_target_reads has_produced review_retries
      sterile_limit same_target_limit is_review =
     (if \<not> (has_produced \<or> review_retries > 0 \<or> is_review) then False
      else int sterile_streak \<ge> sterile_limit \<or> max_same_target_reads \<ge> same_target_limit)"

section \<open>Lemmas\<close>

named_theorems tracker_simps \<open>what the operations of the tracker leave alone\<close>

lemma tick_simps [tracker_simps]:
  "tk_budgets (tick_iteration t) = tk_budgets t"
  "iterations (tk_usage (tick_iteration t)) = Suc (iterations (tk_usage t))"
  "tool_calls (tk_usage (tick_iteration t)) = tool_calls (tk_usage t)"
  "model_calls (tk_usage (tick_iteration t)) = model_calls (tk_usage t)"
  "total_tokens (tk_usage (tick_iteration t)) = total_tokens (tk_usage t)"
  by (simp_all add: tick_iteration_def total_tokens_def)

lemma model_call_simps [tracker_simps]:
  "tk_budgets (record_model_call ti to1 c t) = tk_budgets t"
  "iterations (tk_usage (record_model_call ti to1 c t)) = iterations (tk_usage t)"
  "tool_calls (tk_usage (record_model_call ti to1 c t)) = tool_calls (tk_usage t)"
  "model_calls (tk_usage (record_model_call ti to1 c t)) = Suc (model_calls (tk_usage t))"
  "total_tokens (tk_usage (record_model_call ti to1 c t)) = total_tokens (tk_usage t) + ti + to1"
  by (simp_all add: record_model_call_def Let_def total_tokens_def split: option.split)

lemma tool_call_simps [tracker_simps]:
  "tk_budgets (record_tool_call t) = tk_budgets t"
  "iterations (tk_usage (record_tool_call t)) = iterations (tk_usage t)"
  "tool_calls (tk_usage (record_tool_call t)) = Suc (tool_calls (tk_usage t))"
  "model_calls (tk_usage (record_tool_call t)) = model_calls (tk_usage t)"
  "total_tokens (tk_usage (record_tool_call t)) = total_tokens (tk_usage t)"
  by (simp_all add: record_tool_call_def total_tokens_def)

lemma check_budgets_None:
  "check_budgets now t = None \<Longrightarrow>
     total_tokens (tk_usage t) \<le> max_tokens (tk_budgets t)
     \<and> int (tool_calls (tk_usage t)) \<le> max_tool_calls (tk_budgets t)"
  by (simp add: check_budgets_def Let_def split: if_splits)

section \<open>The detector against the history\<close>

text \<open>
  What the loop tells the detector, latest first, and what the detector should have
  concluded from it: how often an action was recorded since the last progress, and how
  often in a row it has ended with the error of its latest end.
\<close>

datatype detector_event =
    Recorded pyval
  | Progressed
  | Ended pyval bool "string option"

fun detector_apply :: "detector_event \<Rightarrow> loop_detector \<Rightarrow> loop_detector" where
  "detector_apply (Recorded a) d = snd (record_action a d)"
| "detector_apply Progressed d = note_progress d"
| "detector_apply (Ended a ok err) d = note_outcome a ok err d"

definition detector_run :: "int \<Rightarrow> detector_event list \<Rightarrow> loop_detector" where
  "detector_run thr es = foldr detector_apply es (make_detector thr)"

definition since_progress :: "detector_event list \<Rightarrow> detector_event list" where
  "since_progress es = takeWhile (\<lambda>e. e \<noteq> Progressed) es"

fun records_of :: "string \<Rightarrow> detector_event \<Rightarrow> bool" where
  "records_of f (Recorded a) = (fingerprint a = f)"
| "records_of f _ = False"

fun ending_of :: "string \<Rightarrow> detector_event \<Rightarrow> string option option" where
  "ending_of f (Ended a ok err) =
     (if fingerprint a = f then Some (if ok then None else Some (error_signature err)) else None)"
| "ending_of f _ = None"

definition endings :: "string \<Rightarrow> detector_event list \<Rightarrow> string option list" where
  "endings f es = List.map_filter (ending_of f) es"

fun same_error_run :: "string option list \<Rightarrow> nat" where
  "same_error_run [] = 0"
| "same_error_run (None # es) = 0"
| "same_error_run (Some g # es) = length (takeWhile (\<lambda>e. e = Some g) (Some g # es))"

lemma detector_run_simps [simp]:
  "detector_run thr [] = make_detector thr"
  "detector_run thr (e # es) = detector_apply e (detector_run thr es)"
  by (simp_all add: detector_run_def)

lemma since_progress_simps [simp]:
  "since_progress [] = []"
  "since_progress (Progressed # es) = []"
  "since_progress (Recorded a # es) = Recorded a # since_progress es"
  "since_progress (Ended a ok err # es) = Ended a ok err # since_progress es"
  by (simp_all add: since_progress_def)

lemma endings_simps [simp]:
  "endings f [] = []"
  "endings f (Recorded a # es) = endings f es"
  "endings f (Ended a ok err # es) =
     (if fingerprint a = f then [if ok then None else Some (error_signature err)] else []) @ endings f es"
  by (simp_all add: endings_def map_filter_simps)

lemma detector_threshold: "ld_threshold (detector_run thr es) = thr"
proof (induction es)
  case (Cons e es)
  then show ?case
    by (cases e) (simp_all add: record_action_def note_progress_def note_outcome_def Let_def case_prod_unfold)
qed (simp add: make_detector_def)

lemma detector_counts:
  "ld_counts (detector_run thr es) f = length (filter (records_of f) (since_progress es))"
proof (induction es)
  case (Cons e es)
  then show ?case
    by (cases e) (auto simp: record_action_def note_progress_def note_outcome_def Let_def case_prod_unfold)
qed (simp add: make_detector_def)

text \<open>The entry of a fingerprint: absent after a success, else the last error and its run.\<close>

definition entry_of :: "string option list \<Rightarrow> (string \<times> nat) option" where
  "entry_of es =
     (case es of [] \<Rightarrow> None | None # _ \<Rightarrow> None | Some g # _ \<Rightarrow> Some (g, same_error_run es))"

lemma entry_of_Cons:
  "entry_of (Some g # es) =
     Some (g, case entry_of es of
                None \<Rightarrow> 1 | Some (h, n) \<Rightarrow> if g = h then n + 1 else 1)"
proof (cases es)
  case (Cons e es')
  then show ?thesis by (cases e) (simp_all add: entry_of_def)
qed (simp add: entry_of_def)

lemma entry_of_pos: "entry_of es = Some (g, n) \<Longrightarrow> 0 < n"
  by (auto simp: entry_of_def split: list.splits option.splits)

lemma detector_failures:
  "ld_failures (detector_run thr es) f = entry_of (endings f (since_progress es))"
proof (induction es)
  case (Cons e es)
  show ?case
  proof (cases e)
    case (Ended a ok err)
    show ?thesis
    proof (cases "fingerprint a = f \<and> \<not> ok")
      case True
      show ?thesis
        using True Cons Ended
        by (cases "entry_of (endings f (since_progress es))")
          (auto simp: note_outcome_def failure_entry_def Let_def entry_of_Cons)
    next
      case False
      show ?thesis
      proof (cases "fingerprint a = f")
        case True
        then have "entry_of (None # endings f (since_progress es)) = None" by (simp add: entry_of_def)
        then show ?thesis using Cons Ended True False by (simp add: note_outcome_def Let_def)
      next
        case False
        then show ?thesis
          using Cons Ended by (auto simp: note_outcome_def Let_def case_prod_unfold)
      qed
    qed
  qed (use Cons in \<open>simp_all add: record_action_def note_progress_def Let_def entry_of_def\<close>)
qed (simp add: make_detector_def entry_of_def)

lemma same_error_run_entry:
  "same_error_run es = (case entry_of es of None \<Rightarrow> 0 | Some (g, n) \<Rightarrow> n)"
  by (auto simp: entry_of_def split: list.split option.split)

text \<open>
  The loop detector is exact: after any history of recorded actions, notes of progress
  and endings, it flags the next record of an action as a repetition exactly when the
  action has been recorded at least as often as the threshold since the last progress, and
  holds an action for failing identically exactly when its latest endings since then are
  that many failures with one and the same error.
\<close>

theorem loop_detector_exact:
  "(fst (record_action a (detector_run thr es))
     \<longleftrightarrow> int (length (filter (records_of (fingerprint a)) (since_progress es))) \<ge> thr)
   \<and> (is_failing_identically a (detector_run thr es)
     \<longleftrightarrow> int (same_error_run (endings (fingerprint a) (since_progress es))) \<ge> thr)"
proof (intro conjI)
  show "fst (record_action a (detector_run thr es))
     \<longleftrightarrow> int (length (filter (records_of (fingerprint a)) (since_progress es))) \<ge> thr"
    by (auto simp: record_action_def Let_def detector_counts detector_threshold)
  show "is_failing_identically a (detector_run thr es)
     \<longleftrightarrow> int (same_error_run (endings (fingerprint a) (since_progress es))) \<ge> thr"
    by (simp add: is_failing_identically_def failure_streak_def failure_entry_def detector_failures
        detector_threshold same_error_run_entry case_prod_unfold split: option.split)
qed

end
