(* ===== verification/ApprovalGate.thy ===== *)
theory ApprovalGate
  imports AgentTools
begin

text \<open>
  The human-approval gate of the agent loop, \<^verbatim>\<open>agent_runtime/approval.py\<close>: the
  project's policy, the category of each tool, and the actions a human already approved,
  each of which may be redeemed once. The decision on a category is repeated in the API
  server, \<^verbatim>\<open>db/approval_repo.py\<close>, and modelled from there a second time.
\<close>

section \<open>The policy\<close>

text \<open>Why a category the policy does not list stops, or does not (the texts for the reviewer).\<close>

datatype unlisted_why =
    KeySays string
  | KeyUnreadable string
  | PresetIs string
  | PresetUnknown string
  | NothingDeclared

definition unlisted_default_by_preset :: "(string \<times> string) list" where
  "unlisted_default_by_preset =
     [(''sandbox'', ''auto''), (''development'', ''auto''),
      (''production'', ''human_required''), (''customer-external'', ''human_required'')]"

definition policy_categories :: "pydict \<Rightarrow> pydict" where
  "policy_categories policy =
     (case dget_default policy ''categories'' (PDict policy) of PDict d \<Rightarrow> d | _ \<Rightarrow> [])"

definition unlisted_decision :: "pydict \<Rightarrow> string \<times> unlisted_why" where
  "unlisted_decision policy =
     (case dget policy ''unlisted_category'' of
        PStr raw \<Rightarrow>
          (let v = lower (strip raw) in
           if v = ''auto'' \<or> v = ''human_required'' then (v, KeySays v)
           else (''human_required'', KeyUnreadable raw))
      | _ \<Rightarrow>
          (case dget policy ''preset'' of
             PStr preset \<Rightarrow>
               (let slug = lower (strip preset) in
                case map_of unlisted_default_by_preset slug of
                  Some derived \<Rightarrow> (derived, PresetIs slug)
                | None \<Rightarrow> (''human_required'', PresetUnknown preset))
           | _ \<Rightarrow> (''human_required'', NothingDeclared)))"

text \<open>A policy is absent, or a dictionary; an empty one counts as absent.\<close>

definition requires_human :: "pydict option \<Rightarrow> string \<Rightarrow> bool" where
  "requires_human policy category =
     (case policy of
        None \<Rightarrow> False
      | Some p \<Rightarrow>
          if p = [] then False
          else case map_of (policy_categories p) category of
                 Some v \<Rightarrow> lower (strip (py_str v)) = ''human_required''
               | None \<Rightarrow> fst (unlisted_decision p) = ''human_required'')"

definition unlisted_category_reason :: "pydict option \<Rightarrow> string \<Rightarrow> unlisted_why option" where
  "unlisted_category_reason policy category =
     (case policy of
        None \<Rightarrow> None
      | Some p \<Rightarrow>
          if p = [] then None
          else if map_of (policy_categories p) category \<noteq> None then None
          else let (decision, why) = unlisted_decision p
               in if decision \<noteq> ''human_required'' then None else Some why)"

section \<open>The copy in the API server\<close>

definition srv_policy_categories :: "pydict \<Rightarrow> pydict" where
  "srv_policy_categories policy =
     (case map_of policy ''categories'' of
        None \<Rightarrow> policy
      | Some v \<Rightarrow> (case v of PDict d \<Rightarrow> d | _ \<Rightarrow> []))"

definition srv_unlisted_decision :: "pydict \<Rightarrow> string \<times> unlisted_why" where
  "srv_unlisted_decision policy =
     (let raw = dget policy ''unlisted_category''; preset = dget policy ''preset'' in
      case raw of
        PStr r \<Rightarrow>
          if lower (strip r) \<in> {''auto'', ''human_required''}
          then (lower (strip r), KeySays (lower (strip r)))
          else (''human_required'', KeyUnreadable r)
      | _ \<Rightarrow>
          (case preset of
             PStr p \<Rightarrow>
               (case map_of unlisted_default_by_preset (lower (strip p)) of
                  None \<Rightarrow> (''human_required'', PresetUnknown p)
                | Some derived \<Rightarrow> (derived, PresetIs (lower (strip p))))
           | _ \<Rightarrow> (''human_required'', NothingDeclared)))"

definition human_question_category :: string where
  "human_question_category = ''human_question''"

definition requires_human_approval :: "pydict option \<Rightarrow> string \<Rightarrow> bool" where
  "requires_human_approval policy category =
     (if category = human_question_category then True
      else case policy of
             None \<Rightarrow> False
           | Some p \<Rightarrow>
               if p = [] then False
               else case map_of (srv_policy_categories p) category of
                      Some v \<Rightarrow> lower (strip (py_str v)) = ''human_required''
                    | None \<Rightarrow> fst (srv_unlisted_decision p) = ''human_required'')"

section \<open>Categories of the tools of a run\<close>

definition default_tool_categories :: "(string \<times> string) list" where
  "default_tool_categories =
     [(''shell_exec'', ''code_changes''), (''stack_exec'', ''code_changes''),
      (''write_file'', ''code_changes''), (''delete_file'', ''code_changes''),
      (''move_file'', ''code_changes''), (''run_pytest'', ''code_changes''),
      (''run_lint'', ''code_changes''), (''run_typecheck'', ''code_changes''),
      (''run_build'', ''code_changes''), (''send_notification'', ''external_communication''),
      (''http_get'', ''external_http_get''), (''http_post'', ''external_http_post''),
      (''agent_invoke'', ''code_changes''), (''promote_to_kb'', ''data_migration''),
      (''memory_store'', ''code_changes'')]"

text \<open>The empty category marks a tool that a specification lists without one.\<close>

definition ungated_tool :: string where
  "ungated_tool = []"

definition spec_names_base :: "(string \<times> string) list \<Rightarrow> pyval \<Rightarrow> bool" where
  "spec_names_base base name = (case name of PStr s \<Rightarrow> map_of base s \<noteq> None | _ \<Rightarrow> False)"

definition merge_tool_spec ::
  "(string \<times> string) list \<Rightarrow> pydict \<Rightarrow> (string \<times> string) list \<Rightarrow> (string \<times> string) list" where
  "merge_tool_spec base spec merged =
     (let name = dget spec ''name''; category = dget spec ''approval_category'' in
      if \<not> truthy name \<or> spec_names_base base name then merged
      else if \<not> truthy category then AList.update (py_str name) ungated_tool merged
      else case category of
             PStr c \<Rightarrow> if c \<in> set approval_categories then AList.update (py_str name) c merged else merged
           | _ \<Rightarrow> merged)"

definition tool_categories_from_specs ::
  "pydict list \<Rightarrow> (string \<times> string) list \<Rightarrow> (string \<times> string) list" where
  "tool_categories_from_specs raw_specs base = fold (merge_tool_spec base) raw_specs base"

section \<open>The gate\<close>

record approval_gate =
  ag_policy :: "pydict option"
  ag_categories :: "(string \<times> string) list"
  ag_authorized :: "string \<Rightarrow> nat"

text \<open>The multiset of digests of the approved actions; an entry without one counts for nothing.\<close>

definition entry_digest :: "pydict \<Rightarrow> string" where
  "entry_digest entry = py_str (py_or (dget entry ''args_hash'') (PStr []))"

definition count_digests :: "pydict list \<Rightarrow> string \<Rightarrow> nat" where
  "count_digests approved d = (if d = [] then 0 else length (filter (\<lambda>e. entry_digest e = d) approved))"

definition make_gate ::
  "pydict option \<Rightarrow> (string \<times> string) list \<Rightarrow> pydict list \<Rightarrow> approval_gate" where
  "make_gate policy cats approved =
     \<lparr>ag_policy = policy,
      ag_categories = (if cats = [] then default_tool_categories else cats),
      ag_authorized = count_digests approved\<rparr>"

definition namespaced_fallback_category :: string where
  "namespaced_fallback_category =
     (case spec_approval_category ''mcp_tool'' None of Some c \<Rightarrow> c | None \<Rightarrow> ''external_http_post'')"

text \<open>The scan over the canonical names: an answer (a category, or an explicit no), or none.\<close>

fun gate_scan ::
  "pydict option \<Rightarrow> (string \<times> string) list \<Rightarrow> string list \<Rightarrow> string option option" where
  "gate_scan policy cats [] = None"
| "gate_scan policy cats (n # ns) =
     (case map_of cats n of
        None \<Rightarrow> gate_scan policy cats ns
      | Some c \<Rightarrow>
          if c = ungated_tool then Some None
          else if requires_human policy c then Some (Some c)
          else gate_scan policy cats ns)"

type_synonym set_order = "string list \<Rightarrow> string list"

definition gating_category :: "set_order \<Rightarrow> approval_gate \<Rightarrow> string \<Rightarrow> string option" where
  "gating_category ord g tool =
     (let canonicals = ord (to_canonical tool) in
      case gate_scan (ag_policy g) (ag_categories g) canonicals of
        Some answer \<Rightarrow> answer
      | None \<Rightarrow>
          if \<not> list_ex (\<lambda>n. map_of (ag_categories g) n \<noteq> None) canonicals \<and> CHR ''.'' \<in> set tool
             \<and> requires_human (ag_policy g) namespaced_fallback_category
          then Some namespaced_fallback_category else None)"

definition redeem ::
  "(string \<Rightarrow> string) \<Rightarrow> string \<Rightarrow> pyval \<Rightarrow> approval_gate \<Rightarrow> bool \<times> approval_gate" where
  "redeem sha tool args g =
     (case action_fingerprint sha tool args of
        None \<Rightarrow> (False, g)
      | Some d \<Rightarrow>
          if ag_authorized g d = 0 then (False, g)
          else (True, g\<lparr>ag_authorized := (ag_authorized g)(d := ag_authorized g d - 1)\<rparr>))"

definition gate_review ::
  "set_order \<Rightarrow> (string \<Rightarrow> string) \<Rightarrow> string option \<Rightarrow> pyval \<Rightarrow> approval_gate \<Rightarrow> string option \<times> approval_gate" where
  "gate_review ord sha tool args g =
     (case tool of
        None \<Rightarrow> (None, g)
      | Some t \<Rightarrow>
          if t = [] then (None, g)
          else case gating_category ord g t of
                 None \<Rightarrow> (None, g)
               | Some c \<Rightarrow>
                   (case redeem sha t args g of
                      (True, g') \<Rightarrow> (None, g')
                    | (False, g') \<Rightarrow> (Some c, g')))"

section \<open>Reviews of a gate\<close>

text \<open>A call is gated when its tool has a name and the policy asks a human for its category.\<close>

definition is_gated :: "set_order \<Rightarrow> approval_gate \<Rightarrow> string option \<Rightarrow> bool" where
  "is_gated ord g tool \<longleftrightarrow>
     (case tool of None \<Rightarrow> False | Some t \<Rightarrow> t \<noteq> [] \<and> gating_category ord g t \<noteq> None)"

definition call_digest :: "(string \<Rightarrow> string) \<Rightarrow> string option \<Rightarrow> pyval \<Rightarrow> string option" where
  "call_digest sha tool args =
     (case tool of None \<Rightarrow> None | Some t \<Rightarrow> action_fingerprint sha t args)"

lemma gating_category_authorized [simp]:
  "gating_category ord (g\<lparr>ag_authorized := a\<rparr>) t = gating_category ord g t"
  by (simp add: gating_category_def Let_def split: option.split)

lemma is_gated_authorized [simp]: "is_gated ord (g\<lparr>ag_authorized := a\<rparr>) t = is_gated ord g t"
  by (simp add: is_gated_def split: option.split)

lemma gate_review_cases:
  assumes "gate_review ord sha tool args g = (r, g')"
  obtains (free) "\<not> is_gated ord g tool" "r = None" "g' = g"
    | (parked) c where "is_gated ord g tool" "r = Some c" "g' = g"
    | (redeemed) d where "is_gated ord g tool" "r = None" "call_digest sha tool args = Some d"
        "0 < ag_authorized g d"
        "g' = g\<lparr>ag_authorized := (ag_authorized g)(d := ag_authorized g d - 1)\<rparr>"
proof (cases "is_gated ord g tool")
  case False
  have "gate_review ord sha tool args g = (None, g)"
  proof (cases tool)
    case (Some t)
    then show ?thesis using False by (cases "t = []") (simp_all add: gate_review_def is_gated_def)
  qed (simp add: gate_review_def)
  then show ?thesis using assms False free by simp
next
  case True
  then obtain t c where t: "tool = Some t" "t \<noteq> []" "gating_category ord g t = Some c"
    by (auto simp: is_gated_def split: option.splits)
  show ?thesis
  proof (cases "action_fingerprint sha t args")
    case None
    then have "gate_review ord sha tool args g = (Some c, g)"
      using t by (simp add: gate_review_def redeem_def)
    then show ?thesis using assms True parked by simp
  next
    case (Some d)
    show ?thesis
    proof (cases "ag_authorized g d = 0")
      case True
      then have "gate_review ord sha tool args g = (Some c, g)"
        using t Some by (simp add: gate_review_def redeem_def)
      then show ?thesis using assms \<open>is_gated ord g tool\<close> parked by simp
    next
      case False
      then have "gate_review ord sha tool args g
                   = (None, g\<lparr>ag_authorized := (ag_authorized g)(d := ag_authorized g d - 1)\<rparr>)"
        using t Some by (simp add: gate_review_def redeem_def)
      moreover have "call_digest sha tool args = Some d"
        using t Some by (simp add: call_digest_def)
      ultimately show ?thesis
        using assms \<open>is_gated ord g tool\<close> redeemed [of d] False by simp
    qed
  qed
qed

text \<open>The gating of a call and the policy never change, only what is left to redeem.\<close>

lemma gate_review_same_gate:
  assumes "gate_review ord sha tool args g = (r, g')"
  shows "is_gated ord g' t = is_gated ord g t"
  using assms by (cases rule: gate_review_cases) simp_all

fun review_all ::
  "set_order \<Rightarrow> (string \<Rightarrow> string) \<Rightarrow> (string option \<times> pyval) list \<Rightarrow> approval_gate
     \<Rightarrow> string option list \<times> approval_gate" where
  "review_all ord sha [] g = ([], g)"
| "review_all ord sha ((tool, args) # cs) g =
     (let (r, g1) = gate_review ord sha tool args g; (rs, g2) = review_all ord sha cs g1
      in (r # rs, g2))"

text \<open>How many of the calls went through although gated, with a given digest.\<close>

definition redeemed_calls ::
  "set_order \<Rightarrow> (string \<Rightarrow> string) \<Rightarrow> approval_gate \<Rightarrow> string \<Rightarrow> (string option \<times> pyval) list
     \<Rightarrow> string option list \<Rightarrow> nat" where
  "redeemed_calls ord sha g d cs rs =
     length (filter (\<lambda>((t, a), r). r = None \<and> is_gated ord g t \<and> call_digest sha t a = Some d) (zip cs rs))"

lemma redeemed_calls_Cons:
  "redeemed_calls ord sha g d ((t, a) # cs) (r # rs) =
     (if r = None \<and> is_gated ord g t \<and> call_digest sha t a = Some d then 1 else 0)
     + redeemed_calls ord sha g d cs rs"
  by (simp add: redeemed_calls_def)

lemma redeemed_calls_cong:
  assumes "\<And>t. is_gated ord g' t = is_gated ord g t"
  shows "redeemed_calls ord sha g' d cs rs = redeemed_calls ord sha g d cs rs"
  by (simp add: redeemed_calls_def assms)

lemma review_conserves:
  assumes "gate_review ord sha t a g = (r, g')"
  shows "(if r = None \<and> is_gated ord g t \<and> call_digest sha t a = Some d then 1 else 0)
           + ag_authorized g' d = ag_authorized g d"
  using assms
  by (cases rule: gate_review_cases) auto

text \<open>
  An approval is worth one call: whatever calls are put to the gate, in whatever order,
  the gated ones it lets through with a given fingerprint and the approvals of that
  fingerprint that are left make up exactly the approvals the run was given.
\<close>

theorem approvals_are_single_use:
  "case review_all ord sha cs (make_gate policy cats approved) of
     (rs, g) \<Rightarrow>
       length rs = length cs
       \<and> redeemed_calls ord sha (make_gate policy cats approved) d cs rs + ag_authorized g d
         = count_digests approved d"
proof -
  have "length (fst (review_all ord sha cs g)) = length cs
     \<and> redeemed_calls ord sha g d cs (fst (review_all ord sha cs g))
         + ag_authorized (snd (review_all ord sha cs g)) d = ag_authorized g d" for g
  proof (induction cs arbitrary: g)
    case Nil
    then show ?case by (simp add: redeemed_calls_def)
  next
    case (Cons p cs)
    obtain t a where p: "p = (t, a)" by (cases p)
    obtain r g1 where r: "gate_review ord sha t a g = (r, g1)" by (cases "gate_review ord sha t a g")
    obtain rs g2 where rs: "review_all ord sha cs g1 = (rs, g2)" by (cases "review_all ord sha cs g1")
    have c: "redeemed_calls ord sha g1 d cs rs = redeemed_calls ord sha g d cs rs"
      by (rule redeemed_calls_cong) (rule gate_review_same_gate [OF r])
    show ?case
      using Cons.IH [of g1] review_conserves [OF r, of d] c
      by (simp add: p r rs redeemed_calls_Cons)
  qed
  from this [of "make_gate policy cats approved"] show ?thesis
    by (simp add: make_gate_def case_prod_unfold)
qed

section \<open>The two copies of the policy decision\<close>

lemma srv_policy_categories_eq: "srv_policy_categories p = policy_categories p"
  by (simp add: srv_policy_categories_def policy_categories_def dget_default_def split: option.split)

lemma srv_unlisted_decision_eq: "srv_unlisted_decision p = unlisted_decision p"
  by (auto simp: srv_unlisted_decision_def unlisted_decision_def Let_def split: pyval.splits option.splits)

text \<open>
  The sandboxed gate and the API server decide alike: for every policy and every
  category other than the question to a human, which only the server treats as always
  human, both ask for a human or both do not.
\<close>

theorem gate_and_server_agree:
  "requires_human_approval policy category
     \<longleftrightarrow> category = human_question_category \<or> requires_human policy category"
  by (simp add: requires_human_approval_def requires_human_def srv_policy_categories_eq
      srv_unlisted_decision_eq split: option.split)

section \<open>Failing closed\<close>

lemma unlisted_auto_cases:
  assumes "fst (unlisted_decision p) \<noteq> ''human_required''"
  shows "(\<exists>raw. dget p ''unlisted_category'' = PStr raw \<and> lower (strip raw) = ''auto'')
         \<or> (\<forall>s. dget p ''unlisted_category'' \<noteq> PStr s) \<and>
           (\<exists>preset. dget p ''preset'' = PStr preset \<and> lower (strip preset) \<in> {''sandbox'', ''development''})"
  using assms
  by (auto simp: unlisted_decision_def Let_def unlisted_default_by_preset_def
      split: pyval.splits option.splits if_splits)

text \<open>
  Only an explicit permission waives the human: under a policy that is not empty, a
  category runs on its own only if the policy lists it with something other than the
  demand for a human, or does not list it and says so through its key for unlisted
  categories, or has no such key and one of the two lax presets. A policy that cannot be
  read stops everything.
\<close>

theorem waiver_is_explicit:
  assumes "p \<noteq> []" and "\<not> requires_human (Some p) category"
  shows "(\<exists>v. map_of (policy_categories p) category = Some v \<and> lower (strip (py_str v)) \<noteq> ''human_required'')
         \<or> map_of (policy_categories p) category = None \<and>
           ((\<exists>raw. dget p ''unlisted_category'' = PStr raw \<and> lower (strip raw) = ''auto'')
            \<or> (\<forall>s. dget p ''unlisted_category'' \<noteq> PStr s) \<and>
              (\<exists>preset. dget p ''preset'' = PStr preset \<and> lower (strip preset) \<in> {''sandbox'', ''development''}))"
proof (cases "map_of (policy_categories p) category")
  case None
  then have "fst (unlisted_decision p) \<noteq> ''human_required''"
    using assms by (simp add: requires_human_def)
  from unlisted_auto_cases [OF this] None show ?thesis by blast
next
  case (Some v)
  then show ?thesis using assms by (simp add: requires_human_def)
qed

lemma waiver_is_explicit_witness:
  "\<not> requires_human (Some [(''preset'', PStr ''Development'')]) ''code_changes''
   \<and> (\<exists>preset. dget [(''preset'', PStr ''Development'')] ''preset'' = PStr preset
        \<and> lower (strip preset) \<in> {''sandbox'', ''development''})"
proof -
  have a: "\<not> requires_human (Some [(''preset'', PStr ''Development'')]) ''code_changes''"
    by code_simp
  have b: "map_of (policy_categories [(''preset'', PStr ''Development'')]) ''code_changes'' = None"
    by code_simp
  from waiver_is_explicit [OF _ a] b a show ?thesis by auto
qed

text \<open>
  A category the policy lists is another matter: a value that is not understood, such as
  a misspelt demand for a human, lets the action run.
\<close>

text \<open>
  The unreadable value of a listed category opens the gate, the unreadable value of
  the key for unlisted categories closes it: the same misspelling, written for the
  category of shell commands, lets a shell command run without a human.
\<close>

theorem misspelt_category_opens_gate:
  "let p = [(''categories'', PDict [(''code_changes'', PStr ''human_requird'')]),
            (''unlisted_category'', PStr ''human_requird'')];
       g = make_gate (Some p) [] []
   in fst (gate_review (\<lambda>ns. ns) (\<lambda>s. s) (Some ''shell_exec'') (PDict []) g) = None
      \<and> fst (gate_review (\<lambda>ns. ns) (\<lambda>s. s) (Some ''http_post'') (PDict []) g) = Some ''external_http_post''
      \<and> unlisted_category_reason (Some p) ''external_http_post'' = Some (KeyUnreadable ''human_requird'')"
  by code_simp

end
