(* ===== verification/AgentState.thy ===== *)
theory AgentState
  imports AgentSafeguards ApprovalGate GuardPipeline
begin

text \<open>
  The data of the agent loop: the state that flows through its graph
  (\<^verbatim>\<open>agent_runtime/state.py\<close>), the log of steps (\<^verbatim>\<open>steps.py\<close>), what the model
  answers (\<^verbatim>\<open>model.py\<close>), the roll-up of a log (\<^verbatim>\<open>capture.py\<close>) and the
  declarations of how a criterion is checked (\<^verbatim>\<open>check_declarations.py\<close>). The texts the
  platform writes into summaries, outputs and prompts are values that say which text it is
  and what it names; the times of a step are left out.
\<close>

section \<open>The model's answers\<close>

datatype decision_kind = ACT | FINISH

record model_decision =
  md_kind :: decision_kind
  md_tool :: "string option"
  md_args :: pydict
  md_output :: "string option"
  md_rationale :: string
  md_finish_status :: "string option"
  md_checks :: "pydict list"
  md_batch :: "tool_call list"
  md_dropped :: "(tool_call \<times> string) list"

text \<open>A decision whose fields have the defaults of the class.\<close>

definition plain_decision :: "decision_kind \<Rightarrow> model_decision" where
  "plain_decision k = \<lparr>md_kind = k, md_tool = None, md_args = [], md_output = None, md_rationale = [],
     md_finish_status = None, md_checks = [], md_batch = [], md_dropped = []\<rparr>"

record model_response =
  mr_decision :: model_decision
  mr_model :: string
  mr_tokens_in :: int
  mr_tokens_out :: int
  mr_cost_usd :: rat
  mr_cache_read :: int

record review_response =
  rr_passed :: bool
  rr_feedback :: string
  rr_model :: string
  rr_tokens_in :: int
  rr_tokens_out :: int
  rr_cost_usd :: rat
  rr_inconclusive :: bool

text \<open>An error of the model layer: a timeout or another one, with its message.\<close>

datatype llm_error = ProviderTimeout string | LLMError string

fun llm_message :: "llm_error \<Rightarrow> string" where
  "llm_message (ProviderTimeout m) = m"
| "llm_message (LLMError m) = m"

fun provider_abort_code :: "llm_error \<Rightarrow> safeguard_code" where
  "provider_abort_code (ProviderTimeout _) = PROVIDER_TIMEOUT"
| "provider_abort_code (LLMError _) = PROVIDER_ERROR"

section \<open>Status, nodes, texts\<close>

datatype run_status =
    STATUS_RUNNING | STATUS_DONE | STATUS_ABORTED | STATUS_AWAITING_APPROVAL
  | STATUS_NEEDS_HUMAN_REVIEW

datatype node = Perceive | Recall | Plan | Act | Observe | Reflect | Finalize | SelfReview

text \<open>The output of a run: the model's own text, or one of the texts the loop writes.\<close>

datatype run_output =
    ModelText string
  | NoOutputProduced
  | AbortedWith "safeguard_code option"
  | EscalatedWith "safeguard_code option"
  | DeliverableOf "string list"
  | AwaitingApprovalFor "string option" string
  | PromptBlockedBy "string list"
  | ProviderCallFailed safeguard_code string
  | RejectedRepeatedly string

text \<open>What a step says.\<close>

datatype step_summary =
    Perceived nat
  | Tripped safeguard_code
  | TransportTripped nat
  | LoopTripped string "string option"
  | Stalemate int string
  | GuidanceReceived string
  | PromptBlocked "string list"
  | ProviderFailed safeguard_code string
  | AwaitingApproval "string option" string
  | AwaitingAnswer string
  | Observed string
  | Reflected bool "nudge option"
  | FinalizedOutput
  | FinalizedAs run_status "safeguard_code option"
  | ReviewIsTheRun
  | ReviewSkipped run_status
  | ReviewFailedWith safeguard_code string
  | SelfReported string
  | ApprovedBySelfReview
  | ReviewWasInconclusive
  | RetriesExhausted
  | Retrying int int

datatype call_summary = Rationale string | DecisionKind decision_kind | Verdict bool string

text \<open>The counters of the nudges and trips of a run.\<close>

datatype stat_key =
    Trip safeguard_code
  | NudgeSameTarget | NudgeSterileChurn | NudgeExactRepeat | NudgeSelfCheck
  | NudgePathChurn | NudgeRepetition
  | AssessCall | AssessStuck

type_synonym stats = "(stat_key \<times> nat) list"

section \<open>Steps\<close>

datatype step_status = StepOk | StepError | StepRun run_status

record coverage =
  cv_total :: nat
  cv_undeclared :: nat
  cv_declarations :: "pydict list"

datatype step_body =
    NodeStep step_summary
  | FinalStep step_summary stats
  | ModelCallStep string int int rat call_summary "string option" int
  | ToolCallStep string pydict tool_result
  | PlanStored string bool
  | MemoryReadStep string nat nat "nat option" bool budgets
  | CheckDeclarationStep coverage

record step =
  st_index :: nat
  st_node :: node
  st_status :: step_status
  st_body :: step_body

text \<open>One more step of a node whose first step has the index \<open>base\<close>.\<close>

definition emit :: "nat \<Rightarrow> step list \<Rightarrow> node \<Rightarrow> step_status \<Rightarrow> step_body \<Rightarrow> step list" where
  "emit base ss n s b =
     ss @ [\<lparr>st_index = base + length ss, st_node = n, st_status = s, st_body = b\<rparr>]"

section \<open>The state\<close>

record agent_task =
  at_id :: string
  at_title :: string
  at_description :: string
  at_criteria :: "pyval list"

record sub_observation =
  so_tool :: string
  so_args :: pydict
  so_result :: tool_result

record observation =
  ob_tool :: string
  ob_args :: "string option"
  ob_ok :: bool
  ob_output :: pyval
  ob_error :: "string option"
  ob_batch :: "sub_observation list"
  ob_dropped :: "(tool_call \<times> string) list"

datatype context_item =
    CtxTask string string
  | CtxWorkspace "string list"
  | CtxMemory pydict
  | CtxKnowledge pydict
  | CtxObservation observation
  | CtxReviewFeedback string

datatype read_digest = FileDigest string nat | EntriesDigest nat "int option"

datatype progress_part =
    AtIteration nat int
  | FilesWritten "string list" nat
  | NoFilesYet
  | FilesRead "(string \<times> read_digest) list"
  | IterationsLeft int

record guard_event =
  ge_hook :: hook_point
  ge_type :: string
  ge_severity :: severity
  ge_action :: "guard_action option"
  ge_detail :: string
  ge_payload :: pydict
  ge_tool_name :: "string option"

record approval_info =
  ai_category :: string
  ai_tool :: "string option"
  ai_args :: pydict

record agent_state =
  as_task :: agent_task
  as_iteration :: nat
  as_status :: run_status
  as_abort_code :: "safeguard_code option"
  as_system_preamble :: "string option"
  as_is_review :: bool
  as_context :: "context_item list"
  as_reflections :: "bool list"
  as_last_decision :: "model_decision option"
  as_last_observation :: "observation option"
  as_last_review_feedback :: "string option"
  as_repetition_warning :: "nudge option"
  as_progress_summary :: "progress_part list"
  as_guidance_nudge :: "nudge option"
  as_human_guidance :: "string option"
  as_agent_plan :: "string option"
  as_self_check_nudge :: "nudge option"
  as_output :: "run_output option"
  as_review_retries :: int
  as_review_passed :: "bool option"
  as_approval :: "approval_info option"
  as_steps :: "step list"
  as_guardrail_events :: "guard_event list"

definition initial_state :: "agent_task \<Rightarrow> string option \<Rightarrow> bool \<Rightarrow> agent_state" where
  "initial_state task preamble is_review =
     \<lparr>as_task = task, as_iteration = 0, as_status = STATUS_RUNNING, as_abort_code = None,
      as_system_preamble = preamble, as_is_review = is_review, as_context = [], as_reflections = [],
      as_last_decision = None, as_last_observation = None, as_last_review_feedback = None,
      as_repetition_warning = None, as_progress_summary = [], as_guidance_nudge = None,
      as_human_guidance = None, as_agent_plan = None, as_self_check_nudge = None, as_output = None,
      as_review_retries = 0, as_review_passed = None, as_approval = None, as_steps = [],
      as_guardrail_events = []\<rparr>"

section \<open>The roll-up of a log\<close>

fun is_model_call :: "step_body \<Rightarrow> bool" where
  "is_model_call (ModelCallStep _ _ _ _ _ _ _) = True"
| "is_model_call _ = False"

fun is_tool_call :: "step_body \<Rightarrow> bool" where
  "is_tool_call (ToolCallStep _ _ _) = True"
| "is_tool_call (PlanStored _ _) = True"
| "is_tool_call _ = False"

fun is_memory_read :: "step_body \<Rightarrow> bool" where
  "is_memory_read (MemoryReadStep _ _ _ _ _ _) = True"
| "is_memory_read _ = False"

fun call_tokens :: "step_body \<Rightarrow> int" where
  "call_tokens (ModelCallStep _ ti to1 _ _ _ _) = ti + to1"
| "call_tokens _ = 0"

fun call_cost :: "step_body \<Rightarrow> rat" where
  "call_cost (ModelCallStep _ _ _ c _ _ _) = c"
| "call_cost _ = 0"

record capture_summary =
  cs_model_calls :: nat
  cs_tool_calls :: nat
  cs_memory_reads :: nat
  cs_total_tokens :: int
  cs_total_cost :: rat

definition summarize :: "step list \<Rightarrow> capture_summary" where
  "summarize ss =
     \<lparr>cs_model_calls = length (filter (is_model_call \<circ> st_body) ss),
      cs_tool_calls = length (filter (is_tool_call \<circ> st_body) ss),
      cs_memory_reads = length (filter (is_memory_read \<circ> st_body) ss),
      cs_total_tokens = sum_list (map (call_tokens \<circ> st_body) ss),
      cs_total_cost = sum_list (map (call_cost \<circ> st_body) ss)\<rparr>"

section \<open>Declarations of how a criterion is checked\<close>

definition declaration_keys :: "string list" where
  "declaration_keys =
     [''criterion'', ''check_type'', ''runtime'', ''command'', ''expected_signal'', ''reason'']"

definition declared_field :: "pydict \<Rightarrow> string \<Rightarrow> (string \<times> pyval) option" where
  "declared_field raw key =
     (case dget raw key of
        PStr v \<Rightarrow> if strip v = [] then None else Some (key, PStr (take 500 (strip v)))
      | _ \<Rightarrow> None)"

definition normalise_one :: "pyval \<Rightarrow> pydict option" where
  "normalise_one raw =
     (case raw of
        PDict d \<Rightarrow>
          (let out = List.map_filter (declared_field d) declaration_keys in
           if dget out ''criterion'' = PNone \<or> dget out ''check_type'' = PNone then None else Some out)
      | _ \<Rightarrow> None)"

definition normalise_declarations :: "pyval \<Rightarrow> pydict list" where
  "normalise_declarations raw =
     (case raw of PList xs \<Rightarrow> List.map_filter normalise_one (take 16 xs) | _ \<Rightarrow> [])"

definition criterion_key :: "string \<Rightarrow> string" where
  "criterion_key t = lower (collapse t)"

definition criterion_keys :: "pyval \<Rightarrow> string list" where
  "criterion_keys c =
     filter (\<lambda>k. k \<noteq> [])
       (case c of
          PStr s \<Rightarrow> [criterion_key s]
        | PDict d \<Rightarrow>
            List.map_filter
              (\<lambda>key. case dget d key of
                       PStr v \<Rightarrow> if strip v = [] then None else Some (criterion_key v) | _ \<Rightarrow> None)
              [''description'', ''text'', ''criterion'', ''name'', ''id'']
        | _ \<Rightarrow> [])"

text \<open>The text of a declaration's criterion: \<^verbatim>\<open>str(d.get("criterion", "") or "")\<close>.\<close>

definition declared_key :: "pydict \<Rightarrow> string" where
  "declared_key d = criterion_key (py_str (py_or (dget_default d ''criterion'' (PStr [])) (PStr [])))"

definition declaration_coverage :: "pyval list \<Rightarrow> pydict list \<Rightarrow> coverage" where
  "declaration_coverage criteria decls =
     (let declared = filter (\<lambda>k. k \<noteq> []) (map declared_key decls) in
      \<lparr>cv_total = length criteria,
       cv_undeclared = length (filter (\<lambda>c. \<not> list_ex (\<lambda>k. k \<in> set declared) (criterion_keys c)) criteria),
       cv_declarations = decls\<rparr>)"

section \<open>Lemmas\<close>

lemma add_step_simps [simp]:
  "length (emit base ss n s b) = Suc (length ss)"
  "emit base ss n s b \<noteq> []"
  by (simp_all add: emit_def)

definition indexed :: "nat \<Rightarrow> step list \<Rightarrow> bool" where
  "indexed base ss \<longleftrightarrow> map st_index ss = [base..<base + length ss]"

lemma indexed_Nil [simp]: "indexed base []"
  by (simp add: indexed_def)

lemma indexed_emit [simp]: "indexed base (emit base ss n s b) \<longleftrightarrow> indexed base ss"
  by (auto simp: indexed_def emit_def)

lemma indexed_append:
  "indexed base ss \<Longrightarrow> indexed (base + length ss) ts \<Longrightarrow> indexed base (ss @ ts)"
  using upt_add_eq_append [of base "base + length ss" "length ts"]
  by (simp add: indexed_def add.assoc)

lemma summarize_append:
  "cs_model_calls (summarize (ss @ ts)) = cs_model_calls (summarize ss) + cs_model_calls (summarize ts)"
  "cs_tool_calls (summarize (ss @ ts)) = cs_tool_calls (summarize ss) + cs_tool_calls (summarize ts)"
  "cs_total_tokens (summarize (ss @ ts)) = cs_total_tokens (summarize ss) + cs_total_tokens (summarize ts)"
  by (simp_all add: summarize_def)

lemma coverage_bound: "cv_undeclared (declaration_coverage cs ds) \<le> cv_total (declaration_coverage cs ds)"
  by (simp add: declaration_coverage_def Let_def length_filter_le)

end
