(* ===== verification/AgentHooks.thy ===== *)
theory AgentHooks
  imports AgentState
begin

text \<open>
  What surrounds a tool call of the agent loop: the guardrail seam
  (\<^verbatim>\<open>agent_runtime/guardrails.py\<close>), the bound put on an observation and the digest kept
  of what was read (helpers of \<^verbatim>\<open>agent_runtime/graph.py\<close>), the dependencies of the
  loop and the fields of its object \<^verbatim>\<open>_AgentLoop\<close>.
\<close>

section \<open>The guardrail seam\<close>

text \<open>
  The pipeline of a run is an object with a state, which is part of the world: given a
  context it raises or decides. The pipeline of GuardPipeline is one without a state.
\<close>

type_synonym 'w guard_engine = "guard_context \<Rightarrow> 'w \<Rightarrow> (string, pipeline_decision) result \<times> 'w"

definition pure_engine :: "pipeline \<Rightarrow> 'w guard_engine" where
  "pure_engine pipe ctx w = (Inr (run_pipeline pipe ctx), w)"

definition hook_input_max :: int where "hook_input_max = 50000"

fun is_scalar :: "pyval \<Rightarrow> bool" where
  "is_scalar (PBool _) = True"
| "is_scalar (PInt _) = True"
| "is_scalar (PFloat _ _) = True"
| "is_scalar _ = False"

definition safe_entry :: "string \<times> pyval \<Rightarrow> (string \<times> pyval) option" where
  "safe_entry e =
     (case snd e of
        PStr s \<Rightarrow> if length s \<le> 40 then Some e else None
      | PList xs \<Rightarrow> Some (fst e, PList (take 20 (filter is_scalar xs)))
      | v \<Rightarrow> if is_scalar v then Some e else None)"

definition safe_payload :: "pydict \<Rightarrow> pydict" where
  "safe_payload payload = List.map_filter safe_entry payload"

definition event_of :: "hook_point \<Rightarrow> string option \<Rightarrow> guard_outcome \<Rightarrow> guard_event" where
  "event_of h tool_name g =
     \<lparr>ge_hook = h, ge_type = go_type g, ge_severity = go_severity g, ge_action = go_action g,
      ge_detail = take 500 (go_detail g), ge_payload = safe_payload (go_payload g),
      ge_tool_name = tool_name\<rparr>"

definition cut_string :: "string \<Rightarrow> string \<times> bool" where
  "cut_string s =
     (if int (length s) > hook_input_max then (take (nat hook_input_max) s, True) else (s, False))"

definition cut_val :: "pyval \<Rightarrow> pyval \<times> bool" where
  "cut_val v = (case v of PStr s \<Rightarrow> (let (t, c) = cut_string s in (PStr t, c)) | _ \<Rightarrow> (v, False))"

definition cut_text :: "string option \<Rightarrow> string option \<times> bool" where
  "cut_text x = (case x of Some s \<Rightarrow> (let (t, c) = cut_string s in (Some t, c)) | None \<Rightarrow> (None, False))"

text \<open>Run the pipeline at a hook; the context carries everything the caller gives.\<close>

definition run_hook ::
  "'w guard_engine option \<Rightarrow> guard_context \<Rightarrow> 'w \<Rightarrow> guard_event list \<times> 'w" where
  "run_hook engine ctx w =
     (case engine of
        None \<Rightarrow> ([], w)
      | Some eng \<Rightarrow>
          (let (res, c1) = cut_val (gc_tool_result ctx);
               (prm, c2) = cut_text (gc_prompt ctx);
               (rsp, c3) = cut_text (gc_response ctx);
               meta = (if c1 \<or> c2 \<or> c3 then dict_put ''truncated'' (PBool True) (gc_metadata ctx)
                       else gc_metadata ctx);
               ctx' = ctx\<lparr>gc_tool_result := res, gc_prompt := prm, gc_response := rsp,
                          gc_metadata := meta\<rparr>
           in case eng ctx' w of
                (Inl _, w') \<Rightarrow> ([], w')
              | (Inr d, w') \<Rightarrow> (map (event_of (gc_hook ctx) (gc_tool_name ctx)) (triggered_outcomes d), w')))"

definition hook_context :: "hook_point \<Rightarrow> guard_context" where
  "hook_context h = \<lparr>gc_hook = h, gc_prompt = None, gc_response = None, gc_tool_name = None,
                     gc_tool_args = [], gc_tool_result = PNone, gc_metadata = []\<rparr>"

text \<open>The guardrails among the events whose action is to block.\<close>

definition blocked_types :: "guard_event list \<Rightarrow> string list" where
  "blocked_types es = map ge_type (filter (\<lambda>e. ge_action e = Some BLOCK) es)"

fun declares_block_rules :: "pydict \<Rightarrow> bool" where
  "declares_block_rules [] = False"
| "declares_block_rules ((h, rules) # hs) =
     ((case rules of
         PList rs \<Rightarrow>
           list_ex (\<lambda>r. case r of
                          PDict d \<Rightarrow> lower (py_str (py_or (dget d ''action'') (PStr []))) = ''block''
                        | _ \<Rightarrow> False) rs
       | _ \<Rightarrow> False) \<or> declares_block_rules hs)"

definition declares_block :: "pyval \<Rightarrow> bool" where
  "declares_block source =
     (case source of
        PDict d \<Rightarrow>
          if lower (py_str (py_or (dget d ''on_error'') (PStr []))) = ''block'' then True
          else declares_block_rules (case dget d ''guardrails'' of PDict hooks \<Rightarrow> hooks | _ \<Rightarrow> d)
      | _ \<Rightarrow> False)"

text \<open>The run is refused when its configuration promises to block and there is no engine.\<close>

definition abort_if_unscreened_block :: "pyval \<Rightarrow> 'w guard_engine option \<Rightarrow> bool" where
  "abort_if_unscreened_block guardrails engine \<longleftrightarrow> engine = None \<and> declares_block guardrails"

section \<open>Observations and digests\<close>

definition max_observation_chars :: int where "max_observation_chars = 24000"

definition plain_json :: json_opts where
  "plain_json = json_default\<lparr>jo_ascii := False\<rparr>"

text \<open>The bounded value, the length of its text, and whether it was cut.\<close>

definition cap_observation_value :: "pyval \<Rightarrow> pyval \<times> nat \<times> bool" where
  "cap_observation_value v =
     (if v = PNone then (PNone, 0, False)
      else
        let t = (case v of PStr s \<Rightarrow> s | _ \<Rightarrow> json_text plain_json v);
            total = length t;
            limit = max_observation_chars
        in if int total \<le> limit then (v, total, False)
           else
             let head = (PStr (take (nat limit) t @ [CHR 0x0A] @ ''[... showing the first '' @ int_str limit
                           @ '' of '' @ nat_str total
                           @ '' chars; narrow the request or, for files, call read_file with offset/limit ...]''),
                         total, True)
             in case v of
                  PDict d \<Rightarrow>
                    (case dget d ''content'' of
                       PStr content \<Rightarrow>
                         let keep = max (nat (limit - (int total - int (length content)))) 1000
                         in (PDict (dict_put ''note''
                               (PStr (''showing the first '' @ nat_str keep @ '' of ''
                                  @ nat_str (length content)
                                  @ '' chars; call read_file with offset/limit to read the rest''))
                              (dict_put ''total_chars'' (PInt (int (length content)))
                              (dict_put ''truncated'' (PBool True)
                              (dict_put ''content'' (PStr (take keep content)) d)))), total, True)
                     | _ \<Rightarrow> head)
                | _ \<Rightarrow> head)"

definition cap_error :: "string option \<Rightarrow> string option \<times> bool" where
  "cap_error err =
     (case err of
        None \<Rightarrow> (None, False)
      | Some e \<Rightarrow>
          (case cap_observation_value (PStr e) of
             (PStr e', _, c) \<Rightarrow> (Some e', c) | (_, _, c) \<Rightarrow> (Some e, c)))"

definition compact_args :: "pydict \<Rightarrow> string" where
  "compact_args args =
     (let joined = join '' ''
            (map (\<lambda>(k, v). k @ ''='' @ (case v of PStr s \<Rightarrow> s | _ \<Rightarrow> json_text json_default v)) args)
      in if length joined > 200 then take 199 joined @ [ellipsis] else joined)"

definition head_and_tail :: "string \<Rightarrow> int \<Rightarrow> string" where
  "head_and_tail t cap =
     (if int (length t) \<le> cap then t
      else
        let marker = [CHR 0x0A] @ ''[... middle omitted for screening ...]'' @ [CHR 0x0A];
            half = nat (max ((cap - int (length marker)) div 2) 1)
        in take half t @ marker @ drop (length t - half) t)"

definition line_break :: "char \<Rightarrow> bool" where
  "line_break c \<longleftrightarrow> of_char c \<in> ({10, 11, 12, 13, 28, 29, 30} :: nat set)"

fun split_lines :: "string \<Rightarrow> string \<Rightarrow> string list" where
  "split_lines l [] = [rev l]"
| "split_lines l (c # s) = (if line_break c then rev l # split_lines [] s else split_lines (c # l) s)"

definition is_word_char :: "char \<Rightarrow> bool" where
  "is_word_char c \<longleftrightarrow>
     (let n = of_char c :: nat in (48 \<le> n \<and> n \<le> 57) \<or> (65 \<le> n \<and> n \<le> 90) \<or> n = 95 \<or> (97 \<le> n \<and> n \<le> 122))"

text \<open>\<^verbatim>\<open>_SYMBOL_LINE_RE\<close>: modifiers followed by blanks, then a defining keyword as a word.\<close>

definition starts_definition :: "string \<Rightarrow> bool" where
  "starts_definition s \<longleftrightarrow>
     list_ex (\<lambda>k. take (length k) s = k
                  \<and> (drop (length k) s = [] \<or> \<not> is_word_char (hd (drop (length k) s))))
       [''def'', ''class'', ''function'', ''interface'', ''trait'', ''fn'', ''func'']"

definition modifiers :: "string list" where
  "modifiers = [''export'', ''public'', ''abstract'', ''final'', ''async'']"

definition after_modifier :: "string \<Rightarrow> string option" where
  "after_modifier s =
     (case filter (\<lambda>m. take (length m) s = m \<and> drop (length m) s \<noteq> [] \<and> is_space (hd (drop (length m) s)))
             modifiers of
        [] \<Rightarrow> None
      | m # _ \<Rightarrow> Some (dropWhile is_space (drop (length m) s)))"

lemma after_modifier_shorter:
  assumes "after_modifier s = Some t"
  shows "length t < length s"
proof -
  from assms obtain m ms where m: "filter (\<lambda>m. take (length m) s = m \<and> drop (length m) s \<noteq> []
        \<and> is_space (hd (drop (length m) s))) modifiers = m # ms"
    and t: "t = dropWhile is_space (drop (length m) s)"
    by (auto simp: after_modifier_def split: list.splits)
  have "m \<in> set (filter (\<lambda>m. take (length m) s = m \<and> drop (length m) s \<noteq> []
        \<and> is_space (hd (drop (length m) s))) modifiers)"
    unfolding m by simp
  then have "m \<in> set modifiers" and ne: "drop (length m) s \<noteq> []"
    unfolding set_filter mem_Collect_eq by blast+
  then have "0 < length m" by (auto simp: modifiers_def)
  then have "length (drop (length m) s) < length s" using ne by (cases s) auto
  then show ?thesis using t length_dropWhile_le [of is_space "drop (length m) s"] by simp
qed

function symbol_line :: "string \<Rightarrow> bool" where
  "symbol_line s = (starts_definition s \<or> (case after_modifier s of None \<Rightarrow> False | Some t \<Rightarrow> symbol_line t))"
  by pat_completeness auto
termination by (relation "measure length") (auto simp: after_modifier_shorter)

declare symbol_line.simps [simp del]

definition read_file_digest :: "string \<Rightarrow> read_digest" where
  "read_file_digest content =
     (let lines = filter (\<lambda>l. l \<noteq> []) (map strip (split_lines [] content));
          first = (case lines of [] \<Rightarrow> [] | l # _ \<Rightarrow> l);
          head = (case find (\<lambda>l. symbol_line l \<and> l \<noteq> first) lines of
                    Some symbol \<Rightarrow> first @ '' '' @ [ellipsis] @ '' '' @ symbol
                  | None \<Rightarrow> first)
      in FileDigest (take 300 head) (length content))"

definition digest_of :: "string \<Rightarrow> pyval \<Rightarrow> read_digest option" where
  "digest_of base output =
     (case output of
        PDict d \<Rightarrow>
          if base = ''read_file''
          then (case dget d ''content'' of PStr content \<Rightarrow> Some (read_file_digest content) | _ \<Rightarrow> None)
          else if base = ''list_files''
          then (case dget d ''entries'' of
                  PList es \<Rightarrow>
                    Some (EntriesDigest (length es)
                      (case dget d ''total_matches'' of
                         PInt m \<Rightarrow> if m > int (length es) then Some m else None
                       | PBool b \<Rightarrow> if (if b then 1 else 0) > int (length es) then Some (if b then 1 else 0) else None
                       | _ \<Rightarrow> None))
                | _ \<Rightarrow> None)
          else None
      | _ \<Rightarrow> None)"

section \<open>The dependencies and the object of the loop\<close>

text \<open>
  What the loop is given. The model, the tools, the clock, the guardrails and the disk act
  on a world of any type. The two suppliers of context, the guidance of a human and the
  reflection call may be absent; a poll that raises gives no guidance.
\<close>

record 'w deps =
  dp_decide :: "agent_state \<Rightarrow> 'w \<Rightarrow> (llm_error, model_response) result \<times> 'w"
  dp_review :: "agent_state \<Rightarrow> (string \<times> string) list \<Rightarrow> 'w \<Rightarrow> (llm_error, review_response) result \<times> 'w"
  dp_assess :: "(agent_state \<Rightarrow> 'w \<Rightarrow> bool option \<times> 'w) option"
  dp_tools :: "'w tool_registry"
  dp_recall :: "(agent_task \<Rightarrow> 'w \<Rightarrow> pydict list \<times> 'w) option"
  dp_knowledge :: "(agent_task \<Rightarrow> 'w \<Rightarrow> pydict list \<times> 'w) option"
  dp_is_review :: bool
  dp_ask_remaining :: "int option"
  dp_guardrails :: "'w guard_engine option"
  dp_assess_every :: int
  dp_provider_kind :: "string option"
  dp_guidance_poll :: "('w \<Rightarrow> (unit, string option) result \<times> 'w) option"
  dp_clock :: "'w \<Rightarrow> rat"
  dp_prompt :: "agent_state \<Rightarrow> string list"
  dp_file_list :: "'w \<Rightarrow> string list"
  dp_harvest :: "string list \<Rightarrow> 'w \<Rightarrow> (string \<times> string) list"
  dp_referenced :: "agent_state \<Rightarrow> string list"
  dp_set_order :: set_order
  dp_sha :: "string \<Rightarrow> string"

record 'w agent_loop =
  al_tracker :: tracker
  al_detector :: loop_detector
  al_gate :: "approval_gate option"
  al_read_targets :: "string list"
  al_assess_stuck_streak :: nat
  al_transport_streak :: nat
  al_read_churn_streak :: nat
  al_read_counts :: "(string \<times> nat) list"
  al_read_digests :: "(string \<times> read_digest) list"
  al_stats :: stats
  al_has_produced :: bool
  al_has_deliverable :: bool
  al_written_files :: "(string \<times> string) list"
  al_path_writes :: "(string \<times> nat) list"
  al_last_productive :: "(string option \<times> pydict) option"
  al_last_recorded :: "pyval option"
  al_world :: 'w

definition make_loop ::
  "'w deps \<Rightarrow> budgets \<Rightarrow> model_prices option \<Rightarrow> int \<Rightarrow> approval_gate option \<Rightarrow> 'w \<Rightarrow> 'w agent_loop" where
  "make_loop dp b prices thr gate w =
     \<lparr>al_tracker = make_tracker b prices (dp_clock dp w), al_detector = make_detector thr, al_gate = gate,
      al_read_targets = [], al_assess_stuck_streak = 0, al_transport_streak = 0, al_read_churn_streak = 0,
      al_read_counts = [], al_read_digests = [], al_stats = [], al_has_produced = False,
      al_has_deliverable = False, al_written_files = [], al_path_writes = [], al_last_productive = None,
      al_last_recorded = None, al_world = w\<rparr>"

text \<open>\<^verbatim>\<open>d[k] = d.get(k, 0) + 1\<close>.\<close>

definition bump :: "'k \<Rightarrow> ('k \<times> nat) list \<Rightarrow> ('k \<times> nat) list" where
  "bump k d = AList.update k (Suc (case map_of d k of Some n \<Rightarrow> n | None \<Rightarrow> 0)) d"

definition count_safeguard :: "stat_key \<Rightarrow> 'w agent_loop \<Rightarrow> 'w agent_loop" where
  "count_safeguard k lp = lp\<lparr>al_stats := bump k (al_stats lp)\<rparr>"

definition hook_of :: "'w deps \<Rightarrow> guard_context \<Rightarrow> 'w agent_loop \<Rightarrow> guard_event list \<times> 'w agent_loop" where
  "hook_of dp ctx lp =
     (let (es, w) = run_hook (dp_guardrails dp) ctx (al_world lp) in (es, lp\<lparr>al_world := w\<rparr>))"

text \<open>The gate of the loop: without one nothing is parked.\<close>

definition gate_call ::
  "'w deps \<Rightarrow> string option \<Rightarrow> pydict \<Rightarrow> 'w agent_loop \<Rightarrow> string option \<times> 'w agent_loop" where
  "gate_call dp tool args lp =
     (case al_gate lp of
        None \<Rightarrow> (None, lp)
      | Some g \<Rightarrow>
          (let (c, g') = gate_review (dp_set_order dp) (dp_sha dp) tool (PDict args) g
           in (c, lp\<lparr>al_gate := Some g'\<rparr>)))"

end
