(* ===== verification/AgentLoop.thy ===== *)
theory AgentLoop
  imports AgentHooks
begin

text \<open>
  The agent loop, \<^verbatim>\<open>agent_runtime/graph.py\<close>: the eight nodes of its graph, one
  definition per node or per part of a node, each from a state and an object of the loop to
  the next ones; the routers; the graph and \<^verbatim>\<open>run_agent\<close>.
\<close>

section \<open>Trips\<close>

definition abort_or_escalate_status :: "bool \<Rightarrow> bool \<Rightarrow> bool \<Rightarrow> run_status" where
  "abort_or_escalate_status has_produced is_review has_deliverable =
     (if is_review \<or> has_produced \<or> has_deliverable then STATUS_NEEDS_HUMAN_REVIEW else STATUS_ABORTED)"

definition trip_outcome ::
  "int \<Rightarrow> string option \<Rightarrow> safeguard_code \<Rightarrow> step_summary
     \<Rightarrow> safeguard_code \<times> step_summary \<times> run_output option" where
  "trip_outcome review_retries last_review_feedback fallback_code fallback_summary =
     (let feedback = strip (case last_review_feedback of Some f \<Rightarrow> f | None \<Rightarrow> []) in
      if review_retries > 0
      then (SELF_REVIEW_STALEMATE, Stalemate review_retries (take 200 feedback),
            if feedback \<noteq> [] then Some (RejectedRepeatedly feedback) else None)
      else (fallback_code, fallback_summary, None))"

definition loop_trip_outcome ::
  "int \<Rightarrow> string option \<Rightarrow> string \<Rightarrow> string option
     \<Rightarrow> safeguard_code \<times> step_summary \<times> run_output option" where
  "loop_trip_outcome review_retries feedback tool failing_error =
     trip_outcome review_retries feedback REPETITIVE_LOOP
       (LoopTripped tool (case failing_error of
                            Some e \<Rightarrow> if e = [] then None else Some e | None \<Rightarrow> None))"

definition trip_status :: "'w deps \<Rightarrow> 'w agent_loop \<Rightarrow> run_status" where
  "trip_status dp lp =
     abort_or_escalate_status (al_has_produced lp) (dp_is_review dp) (al_has_deliverable lp)"

definition used_iterations :: "'w agent_loop \<Rightarrow> nat" where
  "used_iterations lp = iterations (tk_usage (al_tracker lp))"

text \<open>The update of a turn that ends the run: status, code, iteration, steps.\<close>

definition stop_run ::
  "agent_state \<Rightarrow> 'w agent_loop \<Rightarrow> run_status \<Rightarrow> safeguard_code \<Rightarrow> step list \<Rightarrow> agent_state" where
  "stop_run st lp status code ss =
     st\<lparr>as_status := status, as_abort_code := Some code, as_iteration := used_iterations lp,
        as_steps := as_steps st @ ss\<rparr>"

definition plan_trip ::
  "'w deps \<Rightarrow> agent_state \<Rightarrow> 'w agent_loop \<Rightarrow> safeguard_code \<Rightarrow> step_summary \<Rightarrow> step list
     \<Rightarrow> agent_state \<times> 'w agent_loop" where
  "plan_trip dp st lp code summary ss =
     (let lp1 = count_safeguard (Trip code) lp; status = trip_status dp lp1 in
      (stop_run st lp1 status code
         (emit (length (as_steps st)) ss Plan (StepRun status) (NodeStep summary)), lp1))"

definition research_trip :: "'w deps \<Rightarrow> agent_state \<Rightarrow> 'w agent_loop \<Rightarrow> agent_state \<times> 'w agent_loop" where
  "research_trip dp st lp =
     (let lp1 = count_safeguard (Trip RESEARCH_EXHAUSTED) lp;
          (code, summary, override) =
            trip_outcome (as_review_retries st) (as_last_review_feedback st) RESEARCH_EXHAUSTED
              (Tripped RESEARCH_EXHAUSTED);
          status = abort_or_escalate_status (al_has_produced lp1) (dp_is_review dp)
                     (al_has_deliverable lp1 \<or> as_review_retries st > 0);
          st1 = stop_run st lp1 status code
                  (emit (length (as_steps st)) [] Plan (StepRun status) (NodeStep summary))
      in (if override \<noteq> None \<and> status \<noteq> STATUS_ABORTED then st1\<lparr>as_output := override\<rparr> else st1, lp1))"

section \<open>Perceive and recall\<close>

definition perceive :: "'w deps \<Rightarrow> agent_state \<Rightarrow> 'w agent_loop \<Rightarrow> agent_state \<times> 'w agent_loop" where
  "perceive dp st lp =
     (let task = as_task st; files = dp_file_list dp (al_world lp) in
      (st\<lparr>as_context := as_context st @ CtxTask (at_title task) (at_description task)
             # (if files = [] then [] else [CtxWorkspace files]),
          as_steps := as_steps st
             @ emit (length (as_steps st)) [] Perceive StepOk (NodeStep (Perceived (length files)))\<rparr>, lp))"

definition hit_text :: "pydict \<Rightarrow> string" where
  "hit_text hit = join '' '' (List.map_filter (\<lambda>(k, v). case v of PStr s \<Rightarrow> Some s | _ \<Rightarrow> None) hit)"

text \<open>The hits of one supplier: those kept, the events, how many were blocked.\<close>

fun screen_hits ::
  "'w deps \<Rightarrow> (pydict \<Rightarrow> context_item) \<Rightarrow> string \<Rightarrow> pydict list \<Rightarrow> 'w agent_loop
     \<Rightarrow> (context_item list \<times> guard_event list \<times> nat) \<times> 'w agent_loop" where
  "screen_hits dp role tool [] lp = (([], [], 0), lp)"
| "screen_hits dp role tool (hit # hits) lp =
     (let (events, lp1) = hook_of dp ((hook_context PostTool)\<lparr>gc_tool_name := Some tool,
                                       gc_tool_result := PStr (hit_text hit)\<rparr>) lp;
          ((cs, es, n), lp2) = screen_hits dp role tool hits lp1
      in if blocked_types events \<noteq> [] then ((cs, events @ es, Suc n), lp2)
         else ((role hit # cs, events @ es, n), lp2))"

definition supplied ::
  "(agent_task \<Rightarrow> 'w \<Rightarrow> pydict list \<times> 'w) option \<Rightarrow> agent_task \<Rightarrow> 'w agent_loop
     \<Rightarrow> pydict list \<times> 'w agent_loop" where
  "supplied f task lp =
     (case f of None \<Rightarrow> ([], lp)
      | Some g \<Rightarrow> (let (hits, w) = g task (al_world lp) in (hits, lp\<lparr>al_world := w\<rparr>)))"

definition recall :: "'w deps \<Rightarrow> agent_state \<Rightarrow> 'w agent_loop \<Rightarrow> agent_state \<times> 'w agent_loop" where
  "recall dp st lp =
     (let task = as_task st;
          (hits, lp1) = supplied (dp_recall dp) task lp;
          (khits, lp2) = supplied (dp_knowledge dp) task lp1;
          ((mc, me, mb), lp3) = screen_hits dp CtxMemory ''memory_recall'' hits lp2;
          ((kc, ke, kb), lp4) = screen_hits dp CtxKnowledge ''rag_search'' khits lp3
      in (st\<lparr>as_context := as_context st @ mc @ kc,
             as_steps := as_steps st
               @ emit (length (as_steps st)) [] Recall StepOk
                   (MemoryReadStep (at_title task) (length hits) (mb + kb)
                     (if dp_knowledge dp = None then None else Some (length khits))
                     (dp_recall dp = None) (tk_budgets (al_tracker lp4))),
             as_guardrail_events := as_guardrail_events st @ me @ ke\<rparr>, lp4))"

section \<open>Plan\<close>

definition poll_human_guidance :: "'w deps \<Rightarrow> 'w agent_loop \<Rightarrow> string option \<times> 'w agent_loop" where
  "poll_human_guidance dp lp =
     (case dp_guidance_poll dp of
        None \<Rightarrow> (None, lp)
      | Some poll \<Rightarrow>
          (case poll (al_world lp) of
             (Inl _, w) \<Rightarrow> (None, lp\<lparr>al_world := w\<rparr>)
           | (Inr g, w) \<Rightarrow> (g, lp\<lparr>al_world := w\<rparr>)))"

definition screen_prompt :: "'w deps \<Rightarrow> agent_state \<Rightarrow> 'w agent_loop \<Rightarrow> guard_event list \<times> 'w agent_loop" where
  "screen_prompt dp st lp =
     (let messages = dp_prompt dp st;
          t = join [CHR 0x0A] (filter (\<lambda>m. m \<noteq> []) messages)
      in if strip t = [] then ([], lp)
         else
           let t' = head_and_tail t hook_input_max
           in hook_of dp ((hook_context PreLlm)\<lparr>gc_prompt := Some t',
                gc_metadata := [(''messages'', PInt (int (length messages))),
                                (''chars'', PInt (int (length t')))]\<rparr>) lp)"

definition screen_response ::
  "'w deps \<Rightarrow> model_decision \<Rightarrow> 'w agent_loop \<Rightarrow> guard_event list \<times> 'w agent_loop" where
  "screen_response dp d lp =
     (let payload = strip (join '' ''
            ((if md_rationale d = [] then [] else [md_rationale d])
             @ (case md_tool d of Some t \<Rightarrow> if t = [] then [] else [t] | None \<Rightarrow> [])
             @ (if md_args d = [] then [] else [py_str (PDict (md_args d))])))
      in if payload = [] then ([], lp)
         else hook_of dp ((hook_context PostLlm)\<lparr>gc_tool_name := md_tool d, gc_response := Some payload\<rparr>) lp)"

text \<open>A decision turned into a visible refusal.\<close>

definition to_noop :: "string \<Rightarrow> model_decision \<Rightarrow> model_decision" where
  "to_noop reason d =
     d\<lparr>md_kind := ACT, md_tool := Some ''noop'', md_args := [(''reason'', PStr reason)], md_batch := []\<rparr>"

definition blocked_answer_reason :: "string list \<Rightarrow> string" where
  "blocked_answer_reason types =
     ''your previous answer was blocked by a guardrail ('' @ join '', '' types
     @ ''); rephrase it without the flagged content''"

definition ask_human_exhausted_reason :: string where
  "ask_human_exhausted_reason =
     ''ask_human budget exhausted for this task: no more questions will be forwarded to a human. Decide with what you have, or finish with finish_status=failed explaining what was missing.''"

definition ask_human_empty_reason :: string where
  "ask_human_empty_reason =
     ''ask_human requires a non-empty 'question'. Re-emit it with the exact question you need answered, or continue working if you can decide yourself.''"

text \<open>The question to a human: the decision as it is, a refusal, or the request to park with.\<close>

definition park_ask_human ::
  "'w deps \<Rightarrow> model_decision \<Rightarrow> model_decision \<times> (string \<times> approval_info) option" where
  "park_ask_human dp d =
     (if md_kind d \<noteq> ACT \<or> md_tool d \<noteq> Some ''ask_human'' then (d, None)
      else if (case dp_ask_remaining dp of Some n \<Rightarrow> n \<le> 0 | None \<Rightarrow> False)
      then (to_noop ask_human_exhausted_reason d, None)
      else
        let question = strip (py_str (py_or (dget (md_args d) ''question'') (PStr []))) in
        if question = [] then (to_noop ask_human_empty_reason d, None)
        else
          let options = (case dget (md_args d) ''options'' of
                           PList os \<Rightarrow>
                             if os = [] then []
                             else [(''options'', PList (map (\<lambda>x. PStr (take 200 (py_str x))) (take 8 os)))]
                         | _ \<Rightarrow> [])
          in (d, Some (question,
                \<lparr>ai_category = human_question_category, ai_tool = Some ''ask_human'',
                 ai_args = (''question'', PStr (take 2000 question)) # options\<rparr>)))"

fun filter_batch ::
  "'w deps \<Rightarrow> tool_call list \<Rightarrow> 'w agent_loop
     \<Rightarrow> (tool_call list \<times> (tool_call \<times> string) list) \<times> 'w agent_loop" where
  "filter_batch dp [] lp = (([], []), lp)"
| "filter_batch dp (c # cs) lp =
     (let (category, lp1) = gate_call dp (Some (fst c)) (snd c) lp;
          ((kept, dropped), lp2) = filter_batch dp cs lp1
      in (case category of
            None \<Rightarrow> ((c # kept, dropped), lp2)
          | Some cat \<Rightarrow> ((kept, (c, cat) # dropped), lp2)))"

definition filter_batch_for_approval ::
  "'w deps \<Rightarrow> model_decision \<Rightarrow> 'w agent_loop \<Rightarrow> model_decision \<times> 'w agent_loop" where
  "filter_batch_for_approval dp d lp =
     (if md_batch d = [] \<or> al_gate lp = None then (d, lp)
      else let ((kept, dropped), lp1) = filter_batch dp (md_batch d) lp
           in (if dropped = [] then d else d\<lparr>md_batch := kept, md_dropped := dropped\<rparr>, lp1))"

text \<open>The regular end of a planning turn.\<close>

definition plan_commit ::
  "agent_state \<Rightarrow> 'w agent_loop \<Rightarrow> model_decision \<Rightarrow> guard_event list \<Rightarrow> string option \<Rightarrow> step list
     \<Rightarrow> agent_state" where
  "plan_commit st lp d events guidance ss =
     (let criteria = at_criteria (as_task st);
          ss' = (if md_kind d = FINISH \<and> criteria \<noteq> []
                 then emit (length (as_steps st)) ss Plan StepOk
                        (CheckDeclarationStep (declaration_coverage criteria (md_checks d)))
                 else ss)
      in st\<lparr>as_last_decision := Some d, as_iteration := used_iterations lp, as_steps := as_steps st @ ss',
            as_guardrail_events := as_guardrail_events st @ events, as_human_guidance := guidance\<rparr>)"

text \<open>The turn parks: an approval is asked for.\<close>

definition park_run ::
  "agent_state \<Rightarrow> 'w agent_loop \<Rightarrow> model_decision \<Rightarrow> approval_info \<Rightarrow> step list \<Rightarrow> agent_state" where
  "park_run st lp d info ss =
     st\<lparr>as_status := STATUS_AWAITING_APPROVAL, as_approval := Some info, as_last_decision := Some d,
        as_iteration := used_iterations lp, as_steps := as_steps st @ ss\<rparr>"

definition loop_trip ::
  "'w deps \<Rightarrow> agent_state \<Rightarrow> 'w agent_loop \<Rightarrow> model_decision \<Rightarrow> pyval \<Rightarrow> step list
     \<Rightarrow> agent_state \<times> 'w agent_loop" where
  "loop_trip dp st lp d action ss =
     (let status = trip_status dp lp;
          (code, summary, override) =
            loop_trip_outcome (as_review_retries st) (as_last_review_feedback st)
              (case md_tool d of Some t \<Rightarrow> t | None \<Rightarrow> [])
              (if is_failing_identically action (al_detector lp)
               then failure_error action (al_detector lp) else None);
          st1 = (stop_run st lp status code
                  (emit (length (as_steps st)) ss Plan (StepRun status) (NodeStep summary)))
                \<lparr>as_last_decision := Some d\<rparr>
      in (if override \<noteq> None then st1\<lparr>as_output := override\<rparr> else st1, lp))"

text \<open>The turn acts: the batch and the main call pass the gate, the action the detector.\<close>

definition plan_act ::
  "'w deps \<Rightarrow> agent_state \<Rightarrow> 'w agent_loop \<Rightarrow> model_decision \<Rightarrow> guard_event list \<Rightarrow> string option
     \<Rightarrow> step list \<Rightarrow> agent_state \<times> 'w agent_loop" where
  "plan_act dp st lp d0 events guidance ss =
     (let (d, lp1) = filter_batch_for_approval dp d0 lp;
          action = action_val (md_tool d) (md_args d) (md_batch d);
          (tripped, det) = record_action action (al_detector lp1);
          lp2 = lp1\<lparr>al_detector := det, al_last_recorded := Some action\<rparr>
      in if tripped \<and> (is_mutating_tool (md_tool d) \<or> is_failing_identically action det)
         then loop_trip dp st lp2 d action ss
         else
           case gate_call dp (md_tool d) (md_args d) lp2 of
             (Some category, lp3) \<Rightarrow>
               (park_run st lp3 d \<lparr>ai_category = category, ai_tool = md_tool d, ai_args = md_args d\<rparr>
                  (emit (length (as_steps st)) ss Plan (StepRun STATUS_AWAITING_APPROVAL)
                     (NodeStep (AwaitingApproval (md_tool d) category))), lp3)
           | (None, lp3) \<Rightarrow> (plan_commit st lp3 d events guidance ss, lp3))"

text \<open>The turn after the model has answered.\<close>

definition plan_decided ::
  "'w deps \<Rightarrow> agent_state \<Rightarrow> 'w agent_loop \<Rightarrow> model_response \<Rightarrow> guard_event list \<Rightarrow> string option
     \<Rightarrow> step list \<Rightarrow> agent_state \<times> 'w agent_loop" where
  "plan_decided dp st lp resp pre_events guidance ss =
     (let base = length (as_steps st);
          lp1 = lp\<lparr>al_tracker := record_model_call (mr_tokens_in resp) (mr_tokens_out resp)
                                   (mr_cost_usd resp) (al_tracker lp)\<rparr>;
          d0 = mr_decision resp;
          (post_events, lp2) = screen_response dp d0 lp1;
          blocked = blocked_types post_events;
          d1 = (if blocked \<noteq> [] then to_noop (blocked_answer_reason blocked) d0 else d0);
          ss1 = emit base ss Plan StepOk
                  (ModelCallStep (mr_model resp) (mr_tokens_in resp) (mr_tokens_out resp) (mr_cost_usd resp)
                    (if md_rationale d1 \<noteq> [] then Rationale (md_rationale d1) else DecisionKind (md_kind d1))
                    (dp_provider_kind dp) (mr_cache_read resp))
      in if al_assess_stuck_streak lp2 \<ge> 2
         then plan_trip dp st lp2 REFLECTION_STALLED (Tripped REFLECTION_STALLED) ss1
         else
           case park_ask_human dp d1 of
             (d2, Some (question, info)) \<Rightarrow>
               (park_run st lp2 d2 info
                  (emit base ss1 Plan (StepRun STATUS_AWAITING_APPROVAL)
                     (NodeStep (AwaitingAnswer (take 120 question)))), lp2)
           | (d2, None) \<Rightarrow>
               if md_kind d2 = ACT then plan_act dp st lp2 d2 (pre_events @ post_events) guidance ss1
               else (plan_commit st lp2 d2 (pre_events @ post_events) guidance ss1, lp2))"

text \<open>The turn once the budgets are clear: guidance, the screen of the prompt, the model.\<close>

definition plan_turn :: "'w deps \<Rightarrow> agent_state \<Rightarrow> 'w agent_loop \<Rightarrow> agent_state \<times> 'w agent_loop" where
  "plan_turn dp st lp =
     (let base = length (as_steps st);
          (guidance, lp1) = poll_human_guidance dp lp;
          ss = (case guidance of
                  Some g \<Rightarrow> if g = [] then []
                            else emit base [] Plan StepOk (NodeStep (GuidanceReceived (take 120 g)))
                | None \<Rightarrow> []);
          (pre_events, lp2) = screen_prompt dp st lp1;
          blocked = blocked_types pre_events
      in if blocked \<noteq> []
         then ((stop_run st lp2 STATUS_ABORTED GUARDRAIL_BLOCKED
                  (emit base ss Plan (StepRun STATUS_ABORTED) (NodeStep (PromptBlocked blocked))))
                 \<lparr>as_output := Some (PromptBlockedBy blocked),
                  as_guardrail_events := as_guardrail_events st @ pre_events\<rparr>, lp2)
         else
           case dp_decide dp st (al_world lp2) of
             (Inl e, w) \<Rightarrow>
               (let code = provider_abort_code e; detail = take 300 (collapse (llm_message e));
                    lp3 = lp2\<lparr>al_world := w\<rparr>
                in ((stop_run st lp3 STATUS_ABORTED code
                       (emit base ss Plan (StepRun STATUS_ABORTED) (NodeStep (ProviderFailed code detail))))
                      \<lparr>as_output := Some (ProviderCallFailed code detail)\<rparr>, lp3))
           | (Inr resp, w) \<Rightarrow> plan_decided dp st (lp2\<lparr>al_world := w\<rparr>) resp pre_events guidance ss)"

definition largest_read_count :: "'w agent_loop \<Rightarrow> nat" where
  "largest_read_count lp = fold max (map snd (al_read_counts lp)) 0"

definition plan :: "'w deps \<Rightarrow> agent_state \<Rightarrow> 'w agent_loop \<Rightarrow> agent_state \<times> 'w agent_loop" where
  "plan dp st lp0 =
     (if iteration_exhausted (al_tracker lp0)
      then plan_trip dp st lp0 MAX_ITERATIONS (Tripped MAX_ITERATIONS) []
      else
        let lp = lp0\<lparr>al_tracker := tick_iteration (al_tracker lp0)\<rparr> in
        case check_budgets (dp_clock dp (al_world lp)) (al_tracker lp) of
          Some code \<Rightarrow> plan_trip dp st lp code (Tripped code) []
        | None \<Rightarrow>
            if research_exhausted (al_read_churn_streak lp) (largest_read_count lp) (al_has_produced lp)
                 (as_review_retries st) (sterile_hard_limit (max_iterations (tk_budgets (al_tracker lp))))
                 same_target_hard_limit (dp_is_review dp)
            then research_trip dp st lp
            else if al_transport_streak lp \<ge> 3
            then plan_trip dp st lp STACK_EXEC_UNAVAILABLE (TransportTripped (al_transport_streak lp)) []
            else plan_turn dp st lp)"

section \<open>Act and observe\<close>

definition blocked_call :: "string list \<Rightarrow> tool_result" where
  "blocked_call types = failed_result
     (''call blocked by guardrail ('' @ join '', '' types
      @ '') - this action is not permitted by the project's policy; take a different route'')"

definition screened_tool_call ::
  "'w deps \<Rightarrow> string \<Rightarrow> pydict \<Rightarrow> 'w agent_loop \<Rightarrow> (tool_result \<times> guard_event list) \<times> 'w agent_loop" where
  "screened_tool_call dp tool args lp =
     (let (pre, lp1) = hook_of dp ((hook_context PreTool)\<lparr>gc_tool_name := Some tool, gc_tool_args := args\<rparr>) lp in
      if blocked_types pre \<noteq> [] then ((blocked_call (blocked_types pre), pre), lp1)
      else
        let (res, w) = registry_call (dp_tools dp) tool args (al_world lp1);
            lp2 = lp1\<lparr>al_world := w, al_tracker := record_tool_call (al_tracker lp1)\<rparr>;
            (post, lp3) = hook_of dp ((hook_context PostTool)\<lparr>gc_tool_name := Some tool,
                                       gc_tool_result := tr_output res\<rparr>) lp2;
            blocked = blocked_types post;
            res' = (if blocked \<noteq> []
                    then res\<lparr>tr_output := PStr (''[tool output blocked by guardrail ('' @ join '', '' blocked @ '')]'')\<rparr>
                    else res)
        in ((res', pre @ post), lp3))"

definition is_transport_failure :: "string option \<Rightarrow> bool \<Rightarrow> string option \<Rightarrow> bool" where
  "is_transport_failure tool ok err \<longleftrightarrow>
     base_tool_name tool = ''stack_exec'' \<and> \<not> ok
     \<and> has_infix ''failed to reach the worker'' (case err of Some e \<Rightarrow> e | None \<Rightarrow> [])"

definition act_update_plan ::
  "'w deps \<Rightarrow> agent_state \<Rightarrow> 'w agent_loop \<Rightarrow> pydict \<Rightarrow> agent_state \<times> 'w agent_loop" where
  "act_update_plan dp st lp args =
     (let tool = ''update_plan'';
          plan_text = take 1500 (strip (py_str (py_or (dget args ''plan'') (PStr []))));
          (e1, lp1) = hook_of dp ((hook_context PreTool)\<lparr>gc_tool_name := Some tool, gc_tool_args := args\<rparr>) lp;
          (e2, lp2) = hook_of dp ((hook_context PostTool)\<lparr>gc_tool_name := Some tool,
                                    gc_tool_result := PStr plan_text\<rparr>) lp1;
          events = e1 @ e2;
          blocked = blocked_types events;
          stored = (if blocked \<noteq> [] then [] else plan_text);
          err = (if blocked \<noteq> [] then Some (''plan blocked by guardrail ('' @ join '', '' blocked @ '')'')
                 else if stored \<noteq> [] then None else Some ''empty plan'')
      in (st\<lparr>as_agent_plan := (if stored \<noteq> [] then Some stored else as_agent_plan st),
             as_last_observation := Some \<lparr>ob_tool = tool, ob_args = None, ob_ok = (stored \<noteq> []),
               ob_output = (if stored \<noteq> [] then PStr ''plan stored'' else PNone), ob_error = err,
               ob_batch = [], ob_dropped = []\<rparr>,
             as_steps := as_steps st
               @ emit (length (as_steps st)) [] Act (if stored \<noteq> [] then StepOk else StepError)
                   (PlanStored (take 200 stored) (stored \<noteq> [])),
             as_guardrail_events := as_guardrail_events st @ events\<rparr>, lp2))"

definition step_outcome :: "bool \<Rightarrow> step_status" where
  "step_outcome ok = (if ok then StepOk else StepError)"

text \<open>The read-only batch of the turn: observations, events, steps.\<close>

fun act_batch ::
  "'w deps \<Rightarrow> nat \<Rightarrow> tool_call list \<Rightarrow> step list \<Rightarrow> 'w agent_loop
     \<Rightarrow> (sub_observation list \<times> guard_event list \<times> step list) \<times> 'w agent_loop" where
  "act_batch dp base [] ss lp = (([], [], ss), lp)"
| "act_batch dp base (c # cs) ss lp =
     (let ((res, events), lp1) = screened_tool_call dp (fst c) (snd c) lp;
          ss1 = emit base ss Act (step_outcome (tr_ok res)) (ToolCallStep (fst c) (snd c) res);
          ((obs, evs, ss2), lp2) = act_batch dp base cs ss1 lp1
      in ((\<lparr>so_tool = fst c, so_args = snd c, so_result = res\<rparr> # obs, events @ evs, ss2), lp2))"

text \<open>The decision the turn acts on.\<close>

definition acting_decision :: "agent_state \<Rightarrow> model_decision" where
  "acting_decision st = (case as_last_decision st of Some d \<Rightarrow> d | None \<Rightarrow> plain_decision ACT)"

definition act :: "'w deps \<Rightarrow> agent_state \<Rightarrow> 'w agent_loop \<Rightarrow> agent_state \<times> 'w agent_loop" where
  "act dp st lp =
     (let d = acting_decision st;
          tool = (case md_tool d of Some t \<Rightarrow> if t = [] then ''noop'' else t | None \<Rightarrow> ''noop'');
          args = md_args d
      in if tool = ''update_plan'' then act_update_plan dp st lp args
         else
           let base = length (as_steps st);
               ((res, events), lp1) = screened_tool_call dp tool args lp;
               (out, _, _) = cap_observation_value (tr_output res);
               err = fst (cap_error (tr_error res));
               ss = emit base [] Act (step_outcome (tr_ok res))
                      (ToolCallStep tool args \<lparr>tr_ok = tr_ok res, tr_output = out, tr_error = err\<rparr>);
               lp2 = (if base_tool_name (Some tool) = ''stack_exec''
                      then lp1\<lparr>al_transport_streak :=
                             (if is_transport_failure (Some tool) (tr_ok res) err
                              then Suc (al_transport_streak lp1) else 0)\<rparr>
                      else lp1);
               ((obs, evs, ss2), lp3) = act_batch dp base (md_batch d) ss lp2
           in (st\<lparr>as_last_observation := Some \<lparr>ob_tool = tool, ob_args = Some (compact_args args),
                    ob_ok = tr_ok res, ob_output = out, ob_error = err, ob_batch = obs,
                    ob_dropped = md_dropped d\<rparr>,
                  as_steps := as_steps st @ ss2,
                  as_guardrail_events := as_guardrail_events st @ events @ evs\<rparr>, lp3))"

definition observe :: "agent_state \<Rightarrow> agent_state" where
  "observe st =
     (case as_last_observation st of
        Some ob \<Rightarrow>
          st\<lparr>as_context := as_context st @ [CtxObservation ob],
             as_steps := as_steps st
               @ emit (length (as_steps st)) [] Observe StepOk (NodeStep (Observed (ob_tool ob)))\<rparr>
      | None \<Rightarrow>
          st\<lparr>as_steps := as_steps st
               @ emit (length (as_steps st)) [] Observe StepOk (NodeStep (Observed ''?''))\<rparr>)"

end
