(* ===== verification/AgentGraph.thy ===== *)
theory AgentGraph
  imports AgentLoop
begin

text \<open>
  The rest of the agent loop of \<^verbatim>\<open>agent_runtime/graph.py\<close>: reflection with its
  bookkeeping of research, the closing nodes, the routers, the graph as a step relation and
  as a bounded run, and \<^verbatim>\<open>run_agent\<close>.
\<close>

section \<open>Reflect\<close>

definition same_action :: "string option \<times> pydict \<Rightarrow> string option \<times> pydict \<Rightarrow> bool" where
  "same_action a b \<longleftrightarrow> fst a = fst b \<and> py_eq (PDict (snd a)) (PDict (snd b))"

definition harvest_read_digest ::
  "string option \<Rightarrow> string option \<Rightarrow> pyval \<Rightarrow> 'w agent_loop \<Rightarrow> 'w agent_loop" where
  "harvest_read_digest tool target output lp =
     (case target of
        None \<Rightarrow> lp
      | Some t \<Rightarrow>
          (case digest_of (base_tool_name tool) output of
             None \<Rightarrow> lp
           | Some digest \<Rightarrow>
               let ds = filter (\<lambda>(k, _). k \<noteq> t) (al_read_digests lp) @ [(t, digest)]
               in lp\<lparr>al_read_digests := drop (length ds - 20) ds\<rparr>))"

text \<open>One more read of the target, unless the platform is to blame.\<close>

definition count_read :: "string option \<Rightarrow> bool \<Rightarrow> 'w agent_loop \<Rightarrow> 'w agent_loop" where
  "count_read target platform_error lp =
     (case target of
        Some t \<Rightarrow> if platform_error then lp else lp\<lparr>al_read_counts := bump t (al_read_counts lp)\<rparr>
      | None \<Rightarrow> lp)"

text \<open>A new target read with success resets the sterile streak; anything else extends it.\<close>

definition note_read :: "string option \<Rightarrow> bool \<Rightarrow> bool \<Rightarrow> 'w agent_loop \<Rightarrow> bool \<times> 'w agent_loop" where
  "note_read target ok platform_error lp =
     (if ok \<and> (case target of Some t \<Rightarrow> t \<notin> set (al_read_targets lp) | None \<Rightarrow> False)
      then (True, lp\<lparr>al_read_targets := the target # al_read_targets lp, al_read_churn_streak := 0\<rparr>)
      else if \<not> platform_error
      then (False, lp\<lparr>al_read_churn_streak := Suc (al_read_churn_streak lp)\<rparr>)
      else (False, lp))"

text \<open>What one call of the turn says about research: its target, and whether it was productive.\<close>

definition track_research ::
  "string option \<Rightarrow> pydict \<Rightarrow> bool \<Rightarrow> pyval \<Rightarrow> string option \<Rightarrow> 'w agent_loop
     \<Rightarrow> (string option \<times> bool) \<times> 'w agent_loop" where
  "track_research tool args ok output err lp =
     (let (target, productive, lp1) =
        (if is_research_tool tool then
           let target = read_target tool args;
               platform_error = (\<not> ok \<and> is_platform_error err);
               (new, lpb) = note_read target ok platform_error (count_read target platform_error lp)
           in (target, new, if ok then harvest_read_digest tool target output lpb else lpb)
         else (None, False, lp\<lparr>al_read_churn_streak := 0\<rparr>))
      in if is_producing_tool tool \<and> ok
         then ((target, True), lp1\<lparr>al_has_produced := True, al_read_counts := []\<rparr>)
         else ((target, productive), lp1))"

fun track_batch :: "sub_observation list \<Rightarrow> bool \<Rightarrow> 'w agent_loop \<Rightarrow> bool \<times> 'w agent_loop" where
  "track_batch [] productive lp = (productive, lp)"
| "track_batch (s # ss) productive lp =
     (let r = so_result s;
          ((_, p), lp1) = track_research (Some (so_tool s)) (so_args s) (tr_ok r) (tr_output r) (tr_error r) lp
      in track_batch ss (productive \<or> p) lp1)"

definition note_productive :: "string option \<times> pydict \<Rightarrow> bool \<Rightarrow> 'w agent_loop \<Rightarrow> 'w agent_loop" where
  "note_productive current productive lp =
     (if \<not> productive then lp
      else
        let lp1 = (case al_last_productive lp of
                     Some prev \<Rightarrow> if same_action current prev then lp
                                  else lp\<lparr>al_detector := AgentSafeguards.note_progress (al_detector lp)\<rparr>
                   | None \<Rightarrow> lp)
        in lp1\<lparr>al_last_productive := Some current\<rparr>)"

definition note_turn_outcome :: "bool \<Rightarrow> string option \<Rightarrow> 'w agent_loop \<Rightarrow> 'w agent_loop" where
  "note_turn_outcome ok err lp =
     (case al_last_recorded lp of
        Some action \<Rightarrow> lp\<lparr>al_detector := note_outcome action ok err (al_detector lp)\<rparr>
      | None \<Rightarrow> lp)"

definition harvest_written :: "string option \<Rightarrow> pydict \<Rightarrow> 'w agent_loop \<Rightarrow> 'w agent_loop" where
  "harvest_written tool args lp =
     (if \<not> is_producing_tool tool then lp
      else case dget args ''path'' of
             PStr path \<Rightarrow>
               if path = [] then lp
               else
                 let lp1 = lp\<lparr>al_path_writes := bump path (al_path_writes lp)\<rparr>
                 in (case dget args ''content'' of
                       PStr content \<Rightarrow>
                         lp1\<lparr>al_written_files := AList.update path content (al_written_files lp1)\<rparr>
                     | _ \<Rightarrow> lp1)
           | _ \<Rightarrow> lp)"

definition select_nudge ::
  "'w deps \<Rightarrow> string option \<Rightarrow> string option \<Rightarrow> nat \<Rightarrow> 'w agent_loop \<Rightarrow> nudge option \<times> 'w agent_loop" where
  "select_nudge dp tool target repeat_count lp =
     (let read_count = (case target of
                          Some t \<Rightarrow> (if t = [] then 0
                                     else case map_of (al_read_counts lp) t of Some n \<Rightarrow> n | None \<Rightarrow> 0)
                        | None \<Rightarrow> 0)
      in case same_target_nudge target read_count (al_has_produced lp) (dp_is_review dp) of
           Some n \<Rightarrow> (Some n, count_safeguard NudgeSameTarget lp)
         | None \<Rightarrow>
         (case reread_churn_nudge (al_read_churn_streak lp) reread_churn_nudge_limit
                 (al_has_produced lp) (dp_is_review dp) of
           Some n \<Rightarrow> (Some n, count_safeguard NudgeSterileChurn lp)
         | None \<Rightarrow>
         (case research_nudge tool repeat_count (al_has_produced lp) (dp_is_review dp) of
           Some n \<Rightarrow> (Some n, count_safeguard NudgeExactRepeat lp)
         | None \<Rightarrow> (None, lp))))"

definition progress_summary :: "'w deps \<Rightarrow> 'w agent_loop \<Rightarrow> progress_part list" where
  "progress_summary dp lp =
     (let used = used_iterations lp; cap = max_iterations (tk_budgets (al_tracker lp));
          names = sort (map fst (al_written_files lp))
      in [AtIteration used cap]
         @ (if al_written_files lp \<noteq> [] then [FilesWritten (take 12 names) (length names - 12)]
            else if \<not> dp_is_review dp then [NoFilesYet] else [])
         @ (if al_read_digests lp \<noteq> []
            then [FilesRead (map (\<lambda>(t, g). (after_first (CHR '':'') t, g))
                    (drop (length (al_read_digests lp) - 12) (al_read_digests lp)))]
            else [])
         @ (if cap \<noteq> 0 \<and> int used \<ge> max 1 (cap * 8 div 10)
            then [IterationsLeft (max 0 (cap - int used))] else []))"

definition run_reflection_assess :: "'w deps \<Rightarrow> agent_state \<Rightarrow> nat \<Rightarrow> 'w agent_loop \<Rightarrow> 'w agent_loop" where
  "run_reflection_assess dp st iters lp =
     (case dp_assess dp of
        None \<Rightarrow> lp
      | Some assess \<Rightarrow>
          if dp_assess_every dp \<le> 0 \<or> iters = 0 \<or> int iters mod dp_assess_every dp \<noteq> 0 then lp
          else
            (case assess st (al_world lp) of
               (None, w) \<Rightarrow> lp\<lparr>al_world := w\<rparr>
             | (Some stuck, w) \<Rightarrow>
                 let lp1 = count_safeguard AssessCall (lp\<lparr>al_world := w\<rparr>)
                 in if stuck
                    then count_safeguard AssessStuck
                           (lp1\<lparr>al_assess_stuck_streak := Suc (al_assess_stuck_streak lp1)\<rparr>)
                    else lp1\<lparr>al_assess_stuck_streak := 0\<rparr>))"

text \<open>The warning about a path written again and again, which goes before that of repetition.\<close>

definition repetition_warning ::
  "string option \<Rightarrow> pydict \<Rightarrow> nat \<Rightarrow> 'w agent_loop \<Rightarrow> (nudge \<times> stat_key) option" where
  "repetition_warning tool args repeat_count lp =
     (let churn = (case dget args ''path'' of
                     PStr path \<Rightarrow>
                       if is_producing_tool tool
                       then path_churn_nudge path
                              (case map_of (al_path_writes lp) path of Some n \<Rightarrow> n | None \<Rightarrow> 0)
                              path_churn_threshold
                       else None
                   | _ \<Rightarrow> None)
      in case churn of
           Some n \<Rightarrow> Some (n, NudgePathChurn)
         | None \<Rightarrow> map_option (\<lambda>n. (n, NudgeRepetition))
                     (repetition_nudge tool repeat_count (ld_threshold (al_detector lp)) (al_has_produced lp)))"

text \<open>What the turn observed, and the call it had decided on.\<close>

definition observed :: "agent_state \<Rightarrow> bool \<times> pyval \<times> string option \<times> sub_observation list" where
  "observed st =
     (case as_last_observation st of
        Some ob \<Rightarrow> (ob_ok ob, ob_output ob, ob_error ob, ob_batch ob)
      | None \<Rightarrow> (False, PNone, None, []))"

definition decided_call :: "agent_state \<Rightarrow> string option \<times> pydict" where
  "decided_call st = (case as_last_decision st of Some d \<Rightarrow> (md_tool d, md_args d) | None \<Rightarrow> (None, []))"

definition reflect :: "'w deps \<Rightarrow> agent_state \<Rightarrow> 'w agent_loop \<Rightarrow> agent_state \<times> 'w agent_loop" where
  "reflect dp st lp0 =
     (let tool = map_option ob_tool (as_last_observation st);
          (ok, output, err, batch) = observed st;
          (dtool, args) = decided_call st;
          ((target, p1), lp1) = track_research tool args ok output err lp0;
          (productive, lp2) = track_batch batch p1 lp1;
          lp3 = note_productive (dtool, args) productive lp2;
          lp4 = note_turn_outcome ok err lp3;
          lp5 = harvest_written tool args lp4;
          repeat_count = count_of (action_val dtool args []) (al_detector lp5);
          (nudge, lp6) = select_nudge dp tool target repeat_count lp5;
          iters = used_iterations lp6;
          self_check = (iters \<noteq> 0 \<and> iters mod 10 = 0);
          progress = progress_summary dp lp6;
          lp7 = (if self_check then count_safeguard NudgeSelfCheck lp6 else lp6);
          lp8 = run_reflection_assess dp st iters lp7;
          warning = repetition_warning tool args repeat_count lp8;
          lp9 = (case warning of Some (_, k) \<Rightarrow> count_safeguard k lp8 | None \<Rightarrow> lp8)
      in (st\<lparr>as_reflections := as_reflections st @ [ok],
             as_guidance_nudge :=
               (if nudge \<noteq> None then nudge else if productive then None else as_guidance_nudge st),
             as_progress_summary := progress,
             as_self_check_nudge := (if self_check then Some SelfCheck else None),
             as_repetition_warning :=
               (case warning of Some (n, _) \<Rightarrow> Some n | None \<Rightarrow> as_repetition_warning st),
             as_steps := as_steps st
               @ emit (length (as_steps st)) [] Reflect StepOk (NodeStep (Reflected ok nudge))\<rparr>, lp9))"

section \<open>Finalize and self-review\<close>

definition deliverable_summary :: "'w deps \<Rightarrow> 'w agent_loop \<Rightarrow> run_output option" where
  "deliverable_summary dp lp =
     (let files = dp_harvest dp (map fst (al_written_files lp)) (al_world lp);
          paths = (if files \<noteq> [] then map fst files else sort (map fst (al_written_files lp)))
      in if paths = [] then None else Some (DeliverableOf paths))"

definition close_with ::
  "agent_state \<Rightarrow> 'w agent_loop \<Rightarrow> run_output \<Rightarrow> step_status \<Rightarrow> step_summary \<Rightarrow> agent_state" where
  "close_with st lp out status summary =
     st\<lparr>as_output := Some out,
        as_steps := as_steps st
          @ emit (length (as_steps st)) [] Finalize status (FinalStep summary (al_stats lp))\<rparr>"

definition finalize :: "'w deps \<Rightarrow> agent_state \<Rightarrow> 'w agent_loop \<Rightarrow> agent_state \<times> 'w agent_loop" where
  "finalize dp st lp =
     (case as_status st of
        STATUS_ABORTED \<Rightarrow>
          (close_with st lp (case as_output st of Some x \<Rightarrow> x | None \<Rightarrow> AbortedWith (as_abort_code st))
             (StepRun STATUS_ABORTED) (FinalizedAs STATUS_ABORTED (as_abort_code st)), lp)
      | STATUS_NEEDS_HUMAN_REVIEW \<Rightarrow>
          (close_with st lp
             (case as_output st of Some x \<Rightarrow> x | None \<Rightarrow>
               (case deliverable_summary dp lp of Some x \<Rightarrow> x | None \<Rightarrow> EscalatedWith (as_abort_code st)))
             (StepRun STATUS_NEEDS_HUMAN_REVIEW)
             (FinalizedAs STATUS_NEEDS_HUMAN_REVIEW (as_abort_code st)), lp)
      | STATUS_AWAITING_APPROVAL \<Rightarrow>
          (close_with st lp
             (case as_approval st of
                Some a \<Rightarrow> AwaitingApprovalFor (ai_tool a) (ai_category a)
              | None \<Rightarrow> AwaitingApprovalFor None ''None'')
             (StepRun STATUS_AWAITING_APPROVAL) (FinalizedAs STATUS_AWAITING_APPROVAL None), lp)
      | _ \<Rightarrow>
          (let raw = (case as_last_decision st of Some d \<Rightarrow> md_output d | None \<Rightarrow> None);
               fin = (case as_last_decision st of Some d \<Rightarrow> md_finish_status d | None \<Rightarrow> None);
               out = (case raw of Some t \<Rightarrow> if t = [] then NoOutputProduced else ModelText t
                      | None \<Rightarrow> NoOutputProduced);
               real = (fin \<in> {Some ''success'', Some ''partial''}
                       \<or> (case raw of Some t \<Rightarrow> strip t \<noteq> [] | None \<Rightarrow> False))
           in (close_with st lp out StepOk FinalizedOutput,
               if real then lp\<lparr>al_has_deliverable := True\<rparr> else lp)))"

definition review_files :: "'w deps \<Rightarrow> agent_state \<Rightarrow> 'w agent_loop \<Rightarrow> (string \<times> string) list" where
  "review_files dp st lp =
     (let written = map fst (al_written_files lp);
          prefer = written @ filter (\<lambda>p. p \<notin> set written) (dp_referenced dp st);
          worktree = dp_harvest dp prefer (al_world lp)
      in if worktree \<noteq> [] then worktree else al_written_files lp)"

definition self_note :: "step list \<Rightarrow> agent_state \<Rightarrow> step_status \<Rightarrow> step_summary \<Rightarrow> step list" where
  "self_note ss st status summary = emit (length (as_steps st)) ss SelfReview status (NodeStep summary)"

text \<open>A review that ends the run for a human to look at.\<close>

definition escalate_review :: "agent_state \<Rightarrow> safeguard_code \<Rightarrow> step list \<Rightarrow> agent_state" where
  "escalate_review st code ss =
     st\<lparr>as_review_passed := Some False, as_status := STATUS_NEEDS_HUMAN_REVIEW,
        as_abort_code := Some code, as_steps := as_steps st @ ss\<rparr>"

definition review_verdict ::
  "'w deps \<Rightarrow> agent_state \<Rightarrow> 'w agent_loop \<Rightarrow> review_response \<Rightarrow> agent_state \<times> 'w agent_loop" where
  "review_verdict dp st lp0 r =
     (let lp = lp0\<lparr>al_tracker := record_model_call (rr_tokens_in r) (rr_tokens_out r) (rr_cost_usd r)
                                   (al_tracker lp0)\<rparr>;
          ss = emit (length (as_steps st)) [] SelfReview StepOk
                 (ModelCallStep (rr_model r) (rr_tokens_in r) (rr_tokens_out r) (rr_cost_usd r)
                   (Verdict (rr_passed r) (take 160 (rr_feedback r))) (dp_provider_kind dp) 0);
          finish = (case as_last_decision st of Some d \<Rightarrow> md_finish_status d | None \<Rightarrow> None)
      in if rr_passed r then
           (case finish of
              Some f \<Rightarrow>
                if f = ''failed'' \<or> f = ''partial''
                then (escalate_review st AGENT_REPORTED_FAILURE
                        (self_note ss st (StepRun STATUS_NEEDS_HUMAN_REVIEW) (SelfReported f)), lp)
                else (st\<lparr>as_review_passed := Some True, as_status := STATUS_DONE,
                         as_steps := as_steps st @ self_note ss st StepOk ApprovedBySelfReview\<rparr>, lp)
            | None \<Rightarrow> (st\<lparr>as_review_passed := Some True, as_status := STATUS_DONE,
                         as_steps := as_steps st @ self_note ss st StepOk ApprovedBySelfReview\<rparr>, lp))
         else if rr_inconclusive r then
           (escalate_review st REVIEW_INCONCLUSIVE
              (self_note ss st (StepRun STATUS_NEEDS_HUMAN_REVIEW) ReviewWasInconclusive), lp)
         else
           let retries = as_review_retries st + 1;
               budget = max_review_retries (tk_budgets (al_tracker lp))
           in if retries > budget then
                ((escalate_review st MAX_REVIEW_RETRIES_EXHAUSTED
                    (self_note ss st (StepRun STATUS_NEEDS_HUMAN_REVIEW) RetriesExhausted))
                   \<lparr>as_review_retries := retries\<rparr>, lp)
              else
                (st\<lparr>as_review_passed := Some False, as_review_retries := retries,
                    as_last_review_feedback := Some (rr_feedback r),
                    as_context := as_context st @ [CtxReviewFeedback (rr_feedback r)],
                    as_steps := as_steps st @ self_note ss st StepOk (Retrying retries budget)\<rparr>, lp))"

definition self_review :: "'w deps \<Rightarrow> agent_state \<Rightarrow> 'w agent_loop \<Rightarrow> agent_state \<times> 'w agent_loop" where
  "self_review dp st lp =
     (if dp_is_review dp then
        let final = (if as_status st = STATUS_RUNNING then STATUS_DONE else as_status st)
        in (st\<lparr>as_review_passed := Some True, as_status := final,
               as_steps := as_steps st @ self_note [] st (StepRun final) ReviewIsTheRun\<rparr>, lp)
      else if as_status st \<in> {STATUS_ABORTED, STATUS_AWAITING_APPROVAL, STATUS_NEEDS_HUMAN_REVIEW} then
        (st\<lparr>as_review_passed := Some False,
            as_steps := as_steps st @ self_note [] st (StepRun (as_status st)) (ReviewSkipped (as_status st))\<rparr>, lp)
      else
        case dp_review dp st (review_files dp st lp) (al_world lp) of
          (Inl e, w) \<Rightarrow>
            (let code = provider_abort_code e; detail = take 300 (collapse (llm_message e)) in
             (st\<lparr>as_review_passed := Some False, as_status := STATUS_ABORTED, as_abort_code := Some code,
                 as_steps := as_steps st
                   @ self_note [] st (StepRun STATUS_ABORTED) (ReviewFailedWith code detail)\<rparr>,
              lp\<lparr>al_world := w\<rparr>))
        | (Inr r, w) \<Rightarrow> review_verdict dp st (lp\<lparr>al_world := w\<rparr>) r)"

section \<open>The graph\<close>

definition route_after_plan :: "agent_state \<Rightarrow> node" where
  "route_after_plan st =
     (if as_status st \<in> {STATUS_ABORTED, STATUS_AWAITING_APPROVAL, STATUS_NEEDS_HUMAN_REVIEW} then Finalize
      else case as_last_decision st of
             Some d \<Rightarrow> if md_kind d = FINISH then Finalize else Act
           | None \<Rightarrow> Act)"

definition route_after_reflect :: "agent_state \<Rightarrow> node" where
  "route_after_reflect st = (if as_status st = STATUS_ABORTED then Finalize else Plan)"

definition route_after_review :: "agent_state \<Rightarrow> node option" where
  "route_after_review st =
     (if as_review_passed st = Some True
         \<or> as_status st \<in> {STATUS_ABORTED, STATUS_AWAITING_APPROVAL, STATUS_NEEDS_HUMAN_REVIEW}
      then None else Some Plan)"

definition run_node :: "'w deps \<Rightarrow> node \<Rightarrow> agent_state \<Rightarrow> 'w agent_loop \<Rightarrow> agent_state \<times> 'w agent_loop" where
  "run_node dp n st lp =
     (case n of
        Perceive \<Rightarrow> perceive dp st lp
      | Recall \<Rightarrow> recall dp st lp
      | Plan \<Rightarrow> plan dp st lp
      | Act \<Rightarrow> act dp st lp
      | Observe \<Rightarrow> (observe st, lp)
      | Reflect \<Rightarrow> reflect dp st lp
      | Finalize \<Rightarrow> finalize dp st lp
      | SelfReview \<Rightarrow> self_review dp st lp)"

text \<open>The edges: the node after one, given the state it left; \<open>None\<close> is the end.\<close>

definition next_node :: "node \<Rightarrow> agent_state \<Rightarrow> node option" where
  "next_node n st =
     (case n of
        Perceive \<Rightarrow> Some Recall
      | Recall \<Rightarrow> Some Plan
      | Plan \<Rightarrow> Some (route_after_plan st)
      | Act \<Rightarrow> Some Observe
      | Observe \<Rightarrow> Some Reflect
      | Reflect \<Rightarrow> Some (route_after_reflect st)
      | Finalize \<Rightarrow> Some SelfReview
      | SelfReview \<Rightarrow> route_after_review st)"

text \<open>
  The graph engine runs one node per super-step and gives up when the limit of super-steps
  is reached before the end.
\<close>

datatype graph_error = GraphRecursionError

fun run_graph ::
  "'w deps \<Rightarrow> nat \<Rightarrow> node \<Rightarrow> agent_state \<Rightarrow> 'w agent_loop \<Rightarrow> (graph_error, agent_state \<times> 'w agent_loop) result" where
  "run_graph dp 0 n st lp = Inl GraphRecursionError"
| "run_graph dp (Suc k) n st lp =
     (let (st', lp') = run_node dp n st lp in
      case next_node n st' of
        None \<Rightarrow> Inr (st', lp')
      | Some m \<Rightarrow> run_graph dp k m st' lp')"

section \<open>The run\<close>

record execution_result =
  er_status :: run_status
  er_abort_code :: "safeguard_code option"
  er_output :: "run_output option"
  er_iterations :: nat
  er_steps :: "step list"
  er_usage :: usage
  er_approval :: "approval_info option"
  er_finish_status :: "string option"
  er_guardrail_events :: "guard_event list"
  er_check_declarations :: "pydict list"

definition finish_declarations :: "model_decision option \<Rightarrow> pydict list" where
  "finish_declarations d =
     (case d of None \<Rightarrow> [] | Some d \<Rightarrow> if md_kind d = FINISH then md_checks d else [])"

definition recursion_limit :: "budgets \<Rightarrow> int" where
  "recursion_limit b = (max_iterations b + max_review_retries b + 2) * 8 + 100"

definition result_of :: "agent_state \<times> 'w agent_loop \<Rightarrow> execution_result" where
  "result_of p =
     (let (st, lp) = p in
      \<lparr>er_status = as_status st, er_abort_code = as_abort_code st, er_output = as_output st,
       er_iterations = used_iterations lp, er_steps = as_steps st, er_usage = tk_usage (al_tracker lp),
       er_approval = as_approval st,
       er_finish_status = (case as_last_decision st of Some d \<Rightarrow> md_finish_status d | None \<Rightarrow> None),
       er_guardrail_events = as_guardrail_events st,
       er_check_declarations = finish_declarations (as_last_decision st)\<rparr>)"

definition run_agent ::
  "'w deps \<Rightarrow> agent_task \<Rightarrow> budgets \<Rightarrow> int \<Rightarrow> model_prices option \<Rightarrow> approval_gate option
     \<Rightarrow> string option \<Rightarrow> 'w \<Rightarrow> (graph_error, agent_state \<times> 'w agent_loop) result" where
  "run_agent dp task b thr prices gate preamble w =
     run_graph dp (nat (recursion_limit b)) Perceive (initial_state task preamble (dp_is_review dp))
       (make_loop dp b prices thr gate w)"

text \<open>The same graph as a step relation, with the run's final configurations.\<close>

inductive agent_step ::
  "'w deps \<Rightarrow> node \<times> agent_state \<times> 'w agent_loop \<Rightarrow> node \<times> agent_state \<times> 'w agent_loop \<Rightarrow> bool"
  for dp :: "'w deps" where
  step: "run_node dp n st lp = (st', lp') \<Longrightarrow> next_node n st' = Some m
           \<Longrightarrow> agent_step dp (n, st, lp) (m, st', lp')"

section \<open>The scripted model\<close>

text \<open>
  \<^verbatim>\<open>ScriptedModelClient\<close>: it replays a list of decisions and a list of reviews, the last
  entry again and again; its cursors are the world. A loop with it, the placeholder tools and
  the defaults of \<^verbatim>\<open>AgentDeps\<close> is the smallest run there is.
\<close>

type_synonym script_cursors = "nat \<times> nat"

definition scripted_decide ::
  "model_response list \<Rightarrow> agent_state \<Rightarrow> script_cursors \<Rightarrow> (llm_error, model_response) result \<times> script_cursors" where
  "scripted_decide decisions st w =
     (let (d, r) = w in (Inr (decisions ! min d (length decisions - 1)), (Suc d, r)))"

definition scripted_review ::
  "review_response list \<Rightarrow> agent_state \<Rightarrow> (string \<times> string) list \<Rightarrow> script_cursors
     \<Rightarrow> (llm_error, review_response) result \<times> script_cursors" where
  "scripted_review reviews st files w =
     (let (d, r) = w in
      if reviews = []
      then (Inr \<lparr>rr_passed = True, rr_feedback = [], rr_model = ''scripted'', rr_tokens_in = 0, rr_tokens_out = 0,
                 rr_cost_usd = 0, rr_inconclusive = False\<rparr>, w)
      else (Inr (reviews ! min r (length reviews - 1)), (d, Suc r)))"

definition scripted_deps :: "model_response list \<Rightarrow> review_response list \<Rightarrow> script_cursors deps" where
  "scripted_deps decisions reviews =
     \<lparr>dp_decide = scripted_decide decisions, dp_review = scripted_review reviews, dp_assess = None,
      dp_tools = default_registry, dp_recall = None, dp_knowledge = None, dp_is_review = False,
      dp_ask_remaining = None, dp_guardrails = None, dp_assess_every = 0, dp_provider_kind = None,
      dp_guidance_poll = None, dp_clock = (\<lambda>_. 0), dp_prompt = (\<lambda>_. []), dp_file_list = (\<lambda>_. []),
      dp_harvest = (\<lambda>_ _. []), dp_referenced = (\<lambda>_. []), dp_set_order = (\<lambda>ns. ns),
      dp_sha = (\<lambda>s. s)\<rparr>"

definition scripted :: "model_decision \<Rightarrow> model_response" where
  "scripted d = \<lparr>mr_decision = d, mr_model = ''scripted'', mr_tokens_in = 0, mr_tokens_out = 0,
                 mr_cost_usd = 0, mr_cache_read = 0\<rparr>"

definition some_task :: agent_task where
  "some_task = \<lparr>at_id = ''t'', at_title = ''Title'', at_description = [], at_criteria = []\<rparr>"

end
