(* ===== verification/AgentFrames.thy ===== *)
theory AgentFrames
  imports AgentGraph
begin

text \<open>
  What the parts of the agent loop leave alone: frame lemmas for hooks, tool calls and the
  bookkeeping of reflection, the log a part adds, and the classification of the outcomes of
  a planning turn. The properties of a run in AgentRun rest on these.
\<close>

section \<open>Quiet changes of the loop's object\<close>

text \<open>Only the world and the statistics change.\<close>

definition quiet :: "'w agent_loop \<Rightarrow> 'w agent_loop \<Rightarrow> bool" where
  "quiet lp lp' \<longleftrightarrow> (\<exists>w s. lp' = lp\<lparr>al_world := w, al_stats := s\<rparr>)"

lemma quiet_refl [simp, intro]: "quiet lp lp"
  unfolding quiet_def by (rule exI [of _ "al_world lp"], rule exI [of _ "al_stats lp"]) simp

lemma quiet_world [simp, intro]: "quiet lp (lp\<lparr>al_world := w\<rparr>)"
  unfolding quiet_def by (rule exI [of _ w], rule exI [of _ "al_stats lp"]) simp

lemma quiet_count [simp, intro]: "quiet lp (count_safeguard k lp)"
  unfolding quiet_def count_safeguard_def
  by (rule exI [of _ "al_world lp"], rule exI [of _ "bump k (al_stats lp)"]) simp

lemma quiet_trans [trans]: "quiet a b \<Longrightarrow> quiet b c \<Longrightarrow> quiet a c"
  unfolding quiet_def by (elim exE, intro exI, simp)

lemma quiet_fields:
  assumes "quiet lp lp'"
  shows "al_tracker lp' = al_tracker lp" "al_detector lp' = al_detector lp" "al_gate lp' = al_gate lp"
    "al_has_produced lp' = al_has_produced lp" "al_has_deliverable lp' = al_has_deliverable lp"
    "al_assess_stuck_streak lp' = al_assess_stuck_streak lp"
    "al_written_files lp' = al_written_files lp"
  using assms unfolding quiet_def by auto

lemma quiet_hook: "hook_of dp ctx lp = (es, lp') \<Longrightarrow> quiet lp lp'"
  by (auto simp: hook_of_def Let_def split: prod.splits)

lemma quiet_supplied: "supplied f task lp = (hits, lp') \<Longrightarrow> quiet lp lp'"
  by (auto simp: supplied_def split: option.splits prod.splits)

lemma quiet_poll: "poll_human_guidance dp lp = (g, lp') \<Longrightarrow> quiet lp lp'"
  by (auto simp: poll_human_guidance_def split: option.splits prod.splits sum.splits)

lemma quiet_screen_prompt: "screen_prompt dp st lp = (es, lp') \<Longrightarrow> quiet lp lp'"
  by (auto simp: screen_prompt_def Let_def split: if_splits dest: quiet_hook)

lemma quiet_screen_response: "screen_response dp d lp = (es, lp') \<Longrightarrow> quiet lp lp'"
  unfolding screen_response_def Let_def by (auto split: if_splits dest: quiet_hook)

lemma quiet_screen_hits: "screen_hits dp role tool hits lp = (r, lp') \<Longrightarrow> quiet lp lp'"
proof (induction hits arbitrary: r lp lp')
  case (Cons hit hits)
  then show ?case
    by (fastforce simp: Let_def split: prod.splits if_splits dest: quiet_hook intro: quiet_trans)
qed simp

section \<open>The gate in a planning turn\<close>

text \<open>The loop's object with another gate.\<close>

lemma gate_call_frame:
  assumes "gate_call dp tool args lp = (c, lp')"
  shows "\<exists>g. lp' = lp\<lparr>al_gate := g\<rparr> \<and> (g = None \<longleftrightarrow> al_gate lp = None)"
proof (cases "al_gate lp")
  case None
  then have "lp' = lp\<lparr>al_gate := None\<rparr>" using assms by (simp add: gate_call_def)
  then show ?thesis using None by blast
next
  case (Some g)
  then show ?thesis using assms by (auto simp: gate_call_def split: prod.splits)
qed

lemma filter_batch_frame:
  "filter_batch dp cs lp = (r, lp') \<Longrightarrow> \<exists>g. lp' = lp\<lparr>al_gate := g\<rparr> \<and> (g = None \<longleftrightarrow> al_gate lp = None)"
proof (induction cs arbitrary: r lp lp')
  case Nil
  then have "lp' = lp\<lparr>al_gate := al_gate lp\<rparr>" by simp
  then show ?case by blast
next
  case (Cons c cs)
  obtain cat lp1 where g: "gate_call dp (Some (fst c)) (snd c) lp = (cat, lp1)"
    by (cases "gate_call dp (Some (fst c)) (snd c) lp")
  obtain k dr lp2 where f: "filter_batch dp cs lp1 = ((k, dr), lp2)"
    by (cases "filter_batch dp cs lp1") auto
  have "lp' = lp2" using Cons.prems g f by (auto split: option.splits)
  with Cons.IH [OF f] gate_call_frame [OF g] show ?case by auto
qed

lemma filter_batch_for_approval_frame:
  assumes "filter_batch_for_approval dp d lp = (d', lp')"
  shows "\<exists>g. lp' = lp\<lparr>al_gate := g\<rparr> \<and> (g = None \<longleftrightarrow> al_gate lp = None)"
    and "md_kind d' = md_kind d" and "md_tool d' = md_tool d" and "md_args d' = md_args d"
proof -
  show "\<exists>g. lp' = lp\<lparr>al_gate := g\<rparr> \<and> (g = None \<longleftrightarrow> al_gate lp = None)"
  proof (cases "md_batch d = [] \<or> al_gate lp = None")
    case True
    then have "lp' = lp\<lparr>al_gate := al_gate lp\<rparr>"
      using assms by (simp add: filter_batch_for_approval_def)
    then show ?thesis by blast
  next
    case False
    obtain r lp1 where f: "filter_batch dp (md_batch d) lp = (r, lp1)"
      by (cases "filter_batch dp (md_batch d) lp")
    then have "lp' = lp1"
      using assms False by (auto simp: filter_batch_for_approval_def split: prod.splits)
    with filter_batch_frame [OF f] show ?thesis by simp
  qed
  show "md_kind d' = md_kind d" "md_tool d' = md_tool d" "md_args d' = md_args d"
    using assms by (auto simp: filter_batch_for_approval_def Let_def split: prod.splits if_splits)
qed

section \<open>What a node adds to the log\<close>

text \<open>
  The state grows by the steps \<open>ss\<close>, whose indices continue the log; the tracker counts the
  model calls among them, and their tokens; of the tool calls among them it counts at most all.
\<close>

definition logs :: "agent_state \<Rightarrow> tracker \<Rightarrow> agent_state \<Rightarrow> tracker \<Rightarrow> step list \<Rightarrow> bool" where
  "logs st t st' t' ss \<longleftrightarrow>
     as_steps st' = as_steps st @ ss \<and> indexed (length (as_steps st)) ss
     \<and> model_calls (tk_usage t') = model_calls (tk_usage t) + cs_model_calls (summarize ss)
     \<and> total_tokens (tk_usage t') = total_tokens (tk_usage t) + cs_total_tokens (summarize ss)
     \<and> tool_calls (tk_usage t') \<le> tool_calls (tk_usage t) + cs_tool_calls (summarize ss)
     \<and> tk_budgets t' = tk_budgets t"

lemma summarize_emit:
  "cs_model_calls (summarize (emit base ss n s b))
     = cs_model_calls (summarize ss) + (if is_model_call b then 1 else 0)"
  "cs_tool_calls (summarize (emit base ss n s b))
     = cs_tool_calls (summarize ss) + (if is_tool_call b then 1 else 0)"
  "cs_total_tokens (summarize (emit base ss n s b)) = cs_total_tokens (summarize ss) + call_tokens b"
  by (simp_all add: emit_def summarize_def)

lemma summarize_Nil [simp]:
  "cs_model_calls (summarize []) = 0" "cs_tool_calls (summarize []) = 0" "cs_total_tokens (summarize []) = 0"
  by (simp_all add: summarize_def)

text \<open>The calls of tools a log records, in order.\<close>

fun logged_call :: "step_body \<Rightarrow> tool_call option" where
  "logged_call (ToolCallStep t a _) = Some (t, a)"
| "logged_call _ = None"

definition tool_calls_of :: "step list \<Rightarrow> tool_call list" where
  "tool_calls_of ss = List.map_filter (logged_call \<circ> st_body) ss"

lemma tool_calls_of_Nil [simp]: "tool_calls_of [] = []"
  by (simp add: tool_calls_of_def map_filter_simps)

lemma map_filter_append: "List.map_filter f (xs @ ys) = List.map_filter f xs @ List.map_filter f ys"
  by (simp add: List.map_filter_def)

lemma tool_calls_of_append [simp]: "tool_calls_of (ss @ ts) = tool_calls_of ss @ tool_calls_of ts"
  by (simp add: tool_calls_of_def map_filter_append)

lemma tool_calls_of_emit [simp]:
  "tool_calls_of (emit base ss n s b)
     = tool_calls_of ss @ (case logged_call b of Some c \<Rightarrow> [c] | None \<Rightarrow> [])"
  by (simp add: emit_def) (simp add: tool_calls_of_def map_filter_simps split: option.split)

section \<open>Outcomes of a planning turn\<close>

text \<open>Steps that record neither a model call nor a tool call.\<close>

definition more_notes :: "nat \<Rightarrow> step list \<Rightarrow> step list \<Rightarrow> bool" where
  "more_notes base ss ss' \<longleftrightarrow>
     (indexed base ss \<longrightarrow> indexed base ss')
     \<and> cs_model_calls (summarize ss') = cs_model_calls (summarize ss)
     \<and> cs_tool_calls (summarize ss') = cs_tool_calls (summarize ss)
     \<and> cs_total_tokens (summarize ss') = cs_total_tokens (summarize ss)
     \<and> tool_calls_of ss' = tool_calls_of ss"

lemma more_notes_refl [simp, intro]: "more_notes base ss ss"
  by (simp add: more_notes_def)

lemma more_notes_node [simp, intro]: "more_notes base ss (emit base ss n s (NodeStep x))"
  by (simp add: more_notes_def summarize_emit)

lemma more_notes_check [simp, intro]: "more_notes base ss (emit base ss n s (CheckDeclarationStep x))"
  by (simp add: more_notes_def summarize_emit)

definition same_review :: "agent_state \<Rightarrow> agent_state \<Rightarrow> bool" where
  "same_review st st' \<longleftrightarrow>
     as_task st' = as_task st \<and> as_review_retries st' = as_review_retries st
     \<and> as_review_passed st' = as_review_passed st \<and> as_is_review st' = as_is_review st"

definition same_flags :: "'w agent_loop \<Rightarrow> 'w agent_loop \<Rightarrow> bool" where
  "same_flags lp lp' \<longleftrightarrow>
     al_tracker lp' = al_tracker lp \<and> al_has_produced lp' = al_has_produced lp
     \<and> al_has_deliverable lp' = al_has_deliverable lp \<and> (al_gate lp' = None \<longleftrightarrow> al_gate lp = None)"

lemma same_flags_refl [simp, intro]: "same_flags lp lp"
  by (simp add: same_flags_def)

lemma same_flags_trans: "same_flags a b \<Longrightarrow> same_flags b c \<Longrightarrow> same_flags a c"
  by (simp add: same_flags_def)

lemma quiet_same_flags: "quiet lp lp' \<Longrightarrow> same_flags lp lp'"
  by (simp add: same_flags_def quiet_fields)

text \<open>Nothing was produced: no file, no answer, and the run is not a review.\<close>

definition sterile :: "'w deps \<Rightarrow> 'w agent_loop \<Rightarrow> bool" where
  "sterile dp lp \<longleftrightarrow> \<not> (dp_is_review dp \<or> al_has_produced lp \<or> al_has_deliverable lp)"

text \<open>The codes of an end from outside the loop: a guardrail or the provider.\<close>

definition outside_codes :: "safeguard_code set" where
  "outside_codes = {GUARDRAIL_BLOCKED, PROVIDER_ERROR, PROVIDER_TIMEOUT}"

definition stopped :: "'w deps \<Rightarrow> 'w agent_loop \<Rightarrow> agent_state \<Rightarrow> bool" where
  "stopped dp lp st' \<longleftrightarrow>
     (\<exists>code. as_abort_code st' = Some code
        \<and> (as_status st' = STATUS_NEEDS_HUMAN_REVIEW
           \<or> as_status st' = STATUS_ABORTED \<and> (code \<in> outside_codes \<or> sterile dp lp)))"

definition turn_result ::
  "'w deps \<Rightarrow> agent_state \<Rightarrow> 'w agent_loop \<Rightarrow> step list \<Rightarrow> agent_state \<Rightarrow> 'w agent_loop \<Rightarrow> bool" where
  "turn_result dp st lp ss st' lp' \<longleftrightarrow>
     (\<exists>ss'. as_steps st' = as_steps st @ ss' \<and> more_notes (length (as_steps st)) ss ss')
     \<and> same_review st st' \<and> same_flags lp lp'
     \<and> (stopped dp lp st' \<or> as_status st' = STATUS_AWAITING_APPROVAL
        \<or> as_status st' = as_status st \<and> as_last_decision st' \<noteq> None)"

lemma same_flags_count [simp, intro]: "same_flags lp (count_safeguard k lp)"
  by (rule quiet_same_flags) simp

lemma trip_status_stopped:
  assumes "as_abort_code st' = Some code" and "as_status st' = trip_status dp lp"
  shows "stopped dp lp st'"
  using assms
  by (auto simp: stopped_def trip_status_def abort_or_escalate_status_def sterile_def split: if_splits)

lemma plan_trip_result: "plan_trip dp st lp code summary ss = (st', lp') \<Longrightarrow> turn_result dp st lp ss st' lp'"
  unfolding plan_trip_def Let_def turn_result_def
  by (auto simp: stop_run_def same_review_def count_safeguard_def trip_status_def intro!: trip_status_stopped
      simp: same_flags_def)

lemma trip_outcome_override:
  "trip_outcome r f c s = (code, summary, Some x) \<Longrightarrow> 0 < r"
  by (auto simp: trip_outcome_def Let_def split: if_splits)

lemma research_trip_result:
  assumes "research_trip dp st lp = (st', lp')"
  shows "turn_result dp st lp [] st' lp'"
proof -
  obtain code summary override where t: "trip_outcome (as_review_retries st) (as_last_review_feedback st)
      RESEARCH_EXHAUSTED (Tripped RESEARCH_EXHAUSTED) = (code, summary, override)"
    by (metis prod_cases3)
  define status where "status = abort_or_escalate_status (al_has_produced lp) (dp_is_review dp)
                     (al_has_deliverable lp \<or> as_review_retries st > 0)"
  define st1 where "st1 = stop_run st (count_safeguard (Trip RESEARCH_EXHAUSTED) lp) status code
                  (emit (length (as_steps st)) [] Plan (StepRun status) (NodeStep summary))"
  have lp': "lp' = count_safeguard (Trip RESEARCH_EXHAUSTED) lp"
    and st': "st' = st1 \<or> st' = st1\<lparr>as_output := override\<rparr>"
    using assms t
    by (auto simp: research_trip_def st1_def status_def Let_def count_safeguard_def split: if_splits)
  have stop: "stopped dp lp st1"
    by (auto simp: st1_def stop_run_def status_def stopped_def abort_or_escalate_status_def sterile_def)
  have frame: "as_steps st' = as_steps st @ emit (length (as_steps st)) [] Plan (StepRun status) (NodeStep summary)"
    "same_review st st'" "stopped dp lp st'"
    using st' stop by (auto simp: st1_def stop_run_def same_review_def stopped_def)
  have "same_flags lp lp'" unfolding lp' by (rule same_flags_count)
  with frame show ?thesis
    unfolding turn_result_def by (intro conjI disjI1 exI [of _ "emit (length (as_steps st)) [] Plan (StepRun status) (NodeStep summary)"]) simp_all
qed

lemma loop_trip_result:
  assumes "loop_trip dp st lp d action ss = (st', lp')"
  shows "turn_result dp st lp ss st' lp'"
proof -
  obtain code summary override where t: "loop_trip_outcome (as_review_retries st) (as_last_review_feedback st)
      (case md_tool d of Some t \<Rightarrow> t | None \<Rightarrow> [])
      (if is_failing_identically action (al_detector lp)
       then failure_error action (al_detector lp) else None) = (code, summary, override)"
    by (metis prod_cases3)
  define st1 where "st1 = (stop_run st lp (trip_status dp lp) code
      (emit (length (as_steps st)) ss Plan (StepRun (trip_status dp lp)) (NodeStep summary)))
      \<lparr>as_last_decision := Some d\<rparr>"
  have lp': "lp' = lp" and st': "st' = st1 \<or> st' = st1\<lparr>as_output := override\<rparr>"
    using assms t by (auto simp: loop_trip_def st1_def Let_def split: if_splits)
  have stop: "stopped dp lp st1"
    by (rule trip_status_stopped [where code = code]) (simp_all add: st1_def stop_run_def)
  have "as_steps st' = as_steps st
      @ emit (length (as_steps st)) ss Plan (StepRun (trip_status dp lp)) (NodeStep summary)"
    "same_review st st'" "stopped dp lp st'"
    using st' stop by (auto simp: st1_def stop_run_def same_review_def stopped_def)
  then show ?thesis
    unfolding turn_result_def lp'
    by (intro conjI disjI1 exI [of _ "emit (length (as_steps st)) ss Plan (StepRun (trip_status dp lp)) (NodeStep summary)"]) simp_all
qed

lemma park_run_result:
  assumes "same_flags lp lp'" and "more_notes (length (as_steps st)) ss ss'"
  shows "turn_result dp st lp ss (park_run st lp' d info ss') lp'"
  using assms unfolding turn_result_def by (auto simp: park_run_def same_review_def)

lemma plan_commit_result:
  assumes "same_flags lp lp'"
  shows "turn_result dp st lp ss (plan_commit st lp' d ev g ss) lp'"
  using assms unfolding turn_result_def plan_commit_def Let_def by (auto simp: same_review_def)

text \<open>Nothing that is judged depends on where the turn started, only on the flags.\<close>

lemma turn_result_from:
  assumes "turn_result dp st lp1 ss st' lp'" and "same_flags lp lp1"
  shows "turn_result dp st lp ss st' lp'"
proof -
  have "sterile dp lp1 = sterile dp lp" using assms(2) by (simp add: sterile_def same_flags_def)
  then have "stopped dp lp1 st' = stopped dp lp st'" by (simp add: stopped_def)
  then show ?thesis using assms same_flags_trans unfolding turn_result_def by blast
qed

lemma gate_same_flags:
  "\<exists>g. lp' = lp\<lparr>al_gate := g\<rparr> \<and> (g = None \<longleftrightarrow> al_gate lp = None) \<Longrightarrow> same_flags lp lp'"
  by (auto simp: same_flags_def)

lemma plan_act_result:
  assumes "plan_act dp st lp d0 ev g ss = (st', lp')"
  shows "turn_result dp st lp ss st' lp'"
proof -
  obtain d lp1 where f: "filter_batch_for_approval dp d0 lp = (d, lp1)"
    by (cases "filter_batch_for_approval dp d0 lp")
  define action where "action = action_val (md_tool d) (md_args d) (md_batch d)"
  obtain tripped det where r: "record_action action (al_detector lp1) = (tripped, det)"
    by (cases "record_action action (al_detector lp1)")
  define lp2 where "lp2 = lp1\<lparr>al_detector := det, al_last_recorded := Some action\<rparr>"
  obtain category lp3 where g3: "gate_call dp (md_tool d) (md_args d) lp2 = (category, lp3)"
    by (cases "gate_call dp (md_tool d) (md_args d) lp2")
  have f1: "same_flags lp lp1" using filter_batch_for_approval_frame(1) [OF f] by (rule gate_same_flags)
  have f2: "same_flags lp lp2" using f1 by (simp add: lp2_def same_flags_def)
  have f3: "same_flags lp lp3"
    using same_flags_trans [OF f2 gate_same_flags [OF gate_call_frame [OF g3]]] .
  show ?thesis
  proof (cases "tripped \<and> (is_mutating_tool (md_tool d) \<or> is_failing_identically action det)")
    case True
    then have "loop_trip dp st lp2 d action ss = (st', lp')"
      using assms by (simp add: plan_act_def f r action_def [symmetric] lp2_def [symmetric])
    from turn_result_from [OF loop_trip_result [OF this] f2] show ?thesis .
  next
    case False
    show ?thesis
    proof (cases category)
      case None
      then have "st' = plan_commit st lp3 d ev g ss" "lp' = lp3"
        using assms False
        by (auto simp: plan_act_def f r g3 action_def [symmetric] lp2_def [symmetric] Let_def)
      then show ?thesis using plan_commit_result [OF f3] by simp
    next
      case (Some cat)
      have "st' = park_run st lp3 d \<lparr>ai_category = cat, ai_tool = md_tool d, ai_args = md_args d\<rparr>
              (emit (length (as_steps st)) ss Plan (StepRun STATUS_AWAITING_APPROVAL)
                 (NodeStep (AwaitingApproval (md_tool d) cat)))" "lp' = lp3"
        using assms False Some
        by (auto simp: plan_act_def f r g3 action_def [symmetric] lp2_def [symmetric] Let_def)
      then show ?thesis using park_run_result [OF f3 more_notes_node] by simp
    qed
  qed
qed

text \<open>The turn after the model's answer: one model call is logged and counted.\<close>

lemma plan_decided_result:
  assumes "plan_decided dp st lp resp pre g ss = (st', lp')"
  obtains lp1 ss1 where
    "lp1 = lp\<lparr>al_tracker := record_model_call (mr_tokens_in resp) (mr_tokens_out resp)
                              (mr_cost_usd resp) (al_tracker lp)\<rparr>"
    "\<exists>x. ss1 = emit (length (as_steps st)) ss Plan StepOk
        (ModelCallStep (mr_model resp) (mr_tokens_in resp) (mr_tokens_out resp) (mr_cost_usd resp)
           x (dp_provider_kind dp) (mr_cache_read resp))"
    "turn_result dp st lp1 ss1 st' lp'"
proof -
  define lp1 where "lp1 = lp\<lparr>al_tracker := record_model_call (mr_tokens_in resp) (mr_tokens_out resp)
                              (mr_cost_usd resp) (al_tracker lp)\<rparr>"
  obtain post lp2 where p: "screen_response dp (mr_decision resp) lp1 = (post, lp2)"
    by (cases "screen_response dp (mr_decision resp) lp1")
  have f2: "same_flags lp1 lp2" by (rule quiet_same_flags [OF quiet_screen_response [OF p]])
  define d1 where "d1 = (if blocked_types post \<noteq> []
      then to_noop (blocked_answer_reason (blocked_types post)) (mr_decision resp) else mr_decision resp)"
  define x where "x = (if md_rationale d1 \<noteq> [] then Rationale (md_rationale d1) else DecisionKind (md_kind d1))"
  define ss1 where "ss1 = emit (length (as_steps st)) ss Plan StepOk
        (ModelCallStep (mr_model resp) (mr_tokens_in resp) (mr_tokens_out resp) (mr_cost_usd resp)
           x (dp_provider_kind dp) (mr_cache_read resp))"
  obtain d2 park where k: "park_ask_human dp d1 = (d2, park)" by (cases "park_ask_human dp d1")
  have unf: "plan_decided dp st lp resp pre g ss =
      (if al_assess_stuck_streak lp2 \<ge> 2
       then plan_trip dp st lp2 REFLECTION_STALLED (Tripped REFLECTION_STALLED) ss1
       else
         case park_ask_human dp d1 of
           (d2, Some (question, info)) \<Rightarrow>
             (park_run st lp2 d2 info
                (emit (length (as_steps st)) ss1 Plan (StepRun STATUS_AWAITING_APPROVAL)
                   (NodeStep (AwaitingAnswer (take 120 question)))), lp2)
         | (d2, None) \<Rightarrow>
             if md_kind d2 = ACT then plan_act dp st lp2 d2 (pre @ post) g ss1
             else (plan_commit st lp2 d2 (pre @ post) g ss1, lp2))"
    unfolding plan_decided_def Let_def p [unfolded lp1_def] ss1_def x_def d1_def by simp
  have "turn_result dp st lp2 ss1 st' lp'"
  proof (cases "al_assess_stuck_streak lp2 \<ge> 2")
    case True
    then have "plan_trip dp st lp2 REFLECTION_STALLED (Tripped REFLECTION_STALLED) ss1 = (st', lp')"
      using assms by (simp add: unf)
    then show ?thesis by (rule plan_trip_result)
  next
    case False
    show ?thesis
    proof (cases park)
      case None
      show ?thesis
      proof (cases "md_kind d2 = ACT")
        case True
        then have "plan_act dp st lp2 d2 (pre @ post) g ss1 = (st', lp')"
          using assms False None k by (simp add: unf)
        then show ?thesis by (rule plan_act_result)
      next
        case False
        then have "st' = plan_commit st lp2 d2 (pre @ post) g ss1" "lp' = lp2"
          using assms \<open>\<not> al_assess_stuck_streak lp2 \<ge> 2\<close> None k by (auto simp: unf)
        then show ?thesis using plan_commit_result [OF same_flags_refl] by simp
      qed
    next
      case (Some qi)
      obtain q info where qi: "qi = (q, info)" by (cases qi)
      have "st' = park_run st lp2 d2 info (emit (length (as_steps st)) ss1 Plan (StepRun STATUS_AWAITING_APPROVAL)
                     (NodeStep (AwaitingAnswer (take 120 q))))" "lp' = lp2"
        using assms False Some k qi by (auto simp: unf)
      then show ?thesis using park_run_result [OF same_flags_refl more_notes_node] by simp
    qed
  qed
  from turn_result_from [OF this f2] have "turn_result dp st lp1 ss1 st' lp'" .
  with that [of lp1 ss1] show ?thesis using lp1_def ss1_def by blast
qed

text \<open>The outcome of a planning turn: it ends the run, parks it, or commits a decision.\<close>

definition same_deliverables :: "'w agent_loop \<Rightarrow> 'w agent_loop \<Rightarrow> bool" where
  "same_deliverables lp lp' \<longleftrightarrow>
     al_has_produced lp' = al_has_produced lp \<and> al_has_deliverable lp' = al_has_deliverable lp
     \<and> (al_gate lp' = None \<longleftrightarrow> al_gate lp = None)"

definition plan_result :: "'w deps \<Rightarrow> agent_state \<Rightarrow> 'w agent_loop \<Rightarrow> agent_state \<Rightarrow> 'w agent_loop \<Rightarrow> bool" where
  "plan_result dp st lp st' lp' \<longleftrightarrow>
     (\<exists>ss. logs st (al_tracker lp) st' (al_tracker lp') ss \<and> tool_calls_of ss = [])
     \<and> same_review st st' \<and> same_deliverables lp lp'
     \<and> (if iteration_exhausted (al_tracker lp)
        then used_iterations lp' = used_iterations lp \<and> stopped dp lp st'
        else used_iterations lp' = Suc (used_iterations lp)
             \<and> (stopped dp lp st' \<or> as_status st' = STATUS_AWAITING_APPROVAL
                \<or> as_status st' = as_status st \<and> as_last_decision st' \<noteq> None))"

lemma turn_logs:
  assumes r: "turn_result dp st lp1 ss1 st' lp'"
    and t: "model_calls (tk_usage (al_tracker lp1)) = model_calls (tk_usage t) + cs_model_calls (summarize ss1)"
      "total_tokens (tk_usage (al_tracker lp1)) = total_tokens (tk_usage t) + cs_total_tokens (summarize ss1)"
      "tool_calls (tk_usage (al_tracker lp1)) = tool_calls (tk_usage t)"
      "tk_budgets (al_tracker lp1) = tk_budgets t"
    and ss1: "indexed (length (as_steps st)) ss1" "tool_calls_of ss1 = []"
  shows "\<exists>ss. logs st t st' (al_tracker lp') ss \<and> tool_calls_of ss = []"
proof -
  from r obtain ss' where ss': "as_steps st' = as_steps st @ ss'" "more_notes (length (as_steps st)) ss1 ss'"
    and fl: "same_flags lp1 lp'"
    unfolding turn_result_def by blast
  have "logs st t st' (al_tracker lp') ss'"
    using ss' fl t ss1 by (simp add: logs_def more_notes_def same_flags_def)
  moreover have "tool_calls_of ss' = []" using ss' ss1 by (simp add: more_notes_def)
  ultimately show ?thesis by blast
qed

lemma turn_same_deliverables: "same_flags lp lp' \<Longrightarrow> same_deliverables lp lp'"
  by (simp add: same_flags_def same_deliverables_def)

definition judged :: "'w deps \<Rightarrow> agent_state \<Rightarrow> 'w agent_loop \<Rightarrow> agent_state \<Rightarrow> bool" where
  "judged dp st lp st' \<longleftrightarrow>
     stopped dp lp st' \<or> as_status st' = STATUS_AWAITING_APPROVAL
     \<or> as_status st' = as_status st \<and> as_last_decision st' \<noteq> None"

lemma stopped_cong: "same_deliverables lp1 lp2 \<Longrightarrow> stopped dp lp1 st' = stopped dp lp2 st'"
  by (simp add: stopped_def sterile_def same_deliverables_def)

text \<open>One turn after the budgets: what it logs and how it ends.\<close>

lemma plan_turn_result:
  assumes "plan_turn dp st lp = (st', lp')"
  shows "(\<exists>ss. logs st (al_tracker lp) st' (al_tracker lp') ss \<and> tool_calls_of ss = [])
         \<and> same_review st st' \<and> same_deliverables lp lp' \<and> used_iterations lp' = used_iterations lp
         \<and> judged dp st lp st'"
proof -
  define base where "base = length (as_steps st)"
  obtain g lp1 where g: "poll_human_guidance dp lp = (g, lp1)" by (cases "poll_human_guidance dp lp")
  define ss where "ss = (case g of Some g \<Rightarrow> if g = [] then []
                            else emit base [] Plan StepOk (NodeStep (GuidanceReceived (take 120 g)))
                | None \<Rightarrow> [])"
  obtain pre lp2 where p: "screen_prompt dp st lp1 = (pre, lp2)" by (cases "screen_prompt dp st lp1")
  have q2: "quiet lp lp2" by (rule quiet_trans [OF quiet_poll [OF g] quiet_screen_prompt [OF p]])
  have ss: "more_notes base [] ss" by (auto simp: ss_def split: option.split)
  have unf: "plan_turn dp st lp =
      (if blocked_types pre \<noteq> []
       then ((stop_run st lp2 STATUS_ABORTED GUARDRAIL_BLOCKED
                (emit base ss Plan (StepRun STATUS_ABORTED) (NodeStep (PromptBlocked (blocked_types pre)))))
               \<lparr>as_output := Some (PromptBlockedBy (blocked_types pre)),
                as_guardrail_events := as_guardrail_events st @ pre\<rparr>, lp2)
       else
         case dp_decide dp st (al_world lp2) of
           (Inl e, w) \<Rightarrow>
             ((stop_run st (lp2\<lparr>al_world := w\<rparr>) STATUS_ABORTED (provider_abort_code e)
                 (emit base ss Plan (StepRun STATUS_ABORTED)
                    (NodeStep (ProviderFailed (provider_abort_code e) (take 300 (collapse (llm_message e)))))))
                \<lparr>as_output := Some (ProviderCallFailed (provider_abort_code e)
                                     (take 300 (collapse (llm_message e))))\<rparr>, lp2\<lparr>al_world := w\<rparr>)
         | (Inr resp, w) \<Rightarrow> plan_decided dp st (lp2\<lparr>al_world := w\<rparr>) resp pre g ss)"
    unfolding plan_turn_def Let_def g prod.case p ss_def base_def by simp
  have stop: "(\<exists>ss'. logs st (al_tracker lp) st'' (al_tracker lp'') ss' \<and> tool_calls_of ss' = [])
         \<and> same_review st st'' \<and> same_deliverables lp lp'' \<and> used_iterations lp'' = used_iterations lp
         \<and> judged dp st lp st''"
    if "quiet lp2 lp''" and "st'' = (stop_run st lp'' STATUS_ABORTED code (emit base ss Plan s (NodeStep x)))
          \<lparr>as_output := out, as_guardrail_events := evs\<rparr>
        \<or> st'' = (stop_run st lp'' STATUS_ABORTED code (emit base ss Plan s (NodeStep x)))\<lparr>as_output := out\<rparr>"
      and "code \<in> outside_codes" for st'' lp'' code s x out evs
  proof -
    have fl: "same_flags lp lp''" by (rule quiet_same_flags [OF quiet_trans [OF q2 that(1)]])
    have n: "more_notes base [] (emit base ss Plan s (NodeStep x))"
      using ss more_notes_node [of base ss Plan s x] by (simp add: more_notes_def)
    have "logs st (al_tracker lp) st'' (al_tracker lp'') (emit base ss Plan s (NodeStep x))"
      using that(2) fl n by (auto simp: logs_def stop_run_def more_notes_def same_flags_def base_def)
    moreover have "tool_calls_of (emit base ss Plan s (NodeStep x)) = []"
      using n by (simp add: more_notes_def)
    moreover have "same_review st st''" "judged dp st lp st''"
      using that(2,3) by (auto simp: same_review_def stop_run_def judged_def stopped_def)
    ultimately show ?thesis
      using fl by (auto simp: turn_same_deliverables used_iterations_def same_flags_def)
  qed
  show ?thesis
  proof (cases "blocked_types pre = []")
    case False
    then show ?thesis
      using assms by (intro stop [where code = GUARDRAIL_BLOCKED]) (auto simp: unf outside_codes_def)
  next
    case True
    obtain r w where d: "dp_decide dp st (al_world lp2) = (r, w)" by (cases "dp_decide dp st (al_world lp2)")
    show ?thesis
    proof (cases r)
      case (Inl e)
      then show ?thesis
        using assms True d
        by (intro stop [where code = "provider_abort_code e"]) (auto simp: unf outside_codes_def, cases e, auto)
    next
      case (Inr resp)
      then have "plan_decided dp st (lp2\<lparr>al_world := w\<rparr>) resp pre g ss = (st', lp')"
        using assms True d by (simp add: unf)
      then obtain lp3 ss1 where lp3: "lp3 = (lp2\<lparr>al_world := w\<rparr>)\<lparr>al_tracker := record_model_call
            (mr_tokens_in resp) (mr_tokens_out resp) (mr_cost_usd resp) (al_tracker (lp2\<lparr>al_world := w\<rparr>))\<rparr>"
        and ss1: "\<exists>x. ss1 = emit (length (as_steps st)) ss Plan StepOk (ModelCallStep (mr_model resp)
            (mr_tokens_in resp) (mr_tokens_out resp) (mr_cost_usd resp) x (dp_provider_kind dp) (mr_cache_read resp))"
        and r: "turn_result dp st lp3 ss1 st' lp'"
        by (rule plan_decided_result)
      have tr: "al_tracker lp3 = record_model_call (mr_tokens_in resp) (mr_tokens_out resp)
            (mr_cost_usd resp) (al_tracker lp)"
        using quiet_fields(1) [OF q2] by (simp add: lp3)
      have sd: "same_deliverables lp lp3"
        using quiet_fields [OF q2] by (simp add: lp3 same_deliverables_def)
      have "\<exists>ss. logs st (al_tracker lp) st' (al_tracker lp') ss \<and> tool_calls_of ss = []"
        using ss ss1 by (intro turn_logs [OF r])
          (auto simp: tr tracker_simps summarize_emit more_notes_def base_def)
      moreover have "same_review st st'" "same_flags lp3 lp'" "judged dp st lp3 st'"
        using r by (auto simp: turn_result_def judged_def)
      ultimately show ?thesis
        using sd by (auto simp: same_flags_def same_deliverables_def used_iterations_def tr tracker_simps
            judged_def stopped_def sterile_def)
    qed
  qed
qed

lemma trip_logs:
  assumes "turn_result dp st lp [] st' lp'" and "stopped dp lp st'"
  shows "(\<exists>ss. logs st (al_tracker lp) st' (al_tracker lp') ss \<and> tool_calls_of ss = [])
         \<and> same_review st st' \<and> same_deliverables lp lp' \<and> used_iterations lp' = used_iterations lp
         \<and> stopped dp lp st'"
proof -
  have "same_flags lp lp'" "same_review st st'" using assms(1) by (auto simp: turn_result_def)
  moreover have "\<exists>ss. logs st (al_tracker lp) st' (al_tracker lp') ss \<and> tool_calls_of ss = []"
    by (rule turn_logs [OF assms(1)]) simp_all
  ultimately show ?thesis
    using assms(2) by (auto simp: turn_same_deliverables used_iterations_def same_flags_def)
qed

lemma plan_trip_stopped: "plan_trip dp st lp code summary ss = (st', lp') \<Longrightarrow> stopped dp lp st'"
  unfolding plan_trip_def Let_def
  by (auto simp: stop_run_def count_safeguard_def trip_status_def intro!: trip_status_stopped)

lemma research_trip_stopped: "research_trip dp st lp = (st', lp') \<Longrightarrow> stopped dp lp st'"
  by (auto simp: research_trip_def Let_def stop_run_def stopped_def abort_or_escalate_status_def
      sterile_def count_safeguard_def split: prod.splits if_splits)

lemma plan_plan_result:
  assumes "plan dp st lp = (st', lp')"
  shows "plan_result dp st lp st' lp'"
proof (cases "iteration_exhausted (al_tracker lp)")
  case True
  then have p: "plan_trip dp st lp MAX_ITERATIONS (Tripped MAX_ITERATIONS) [] = (st', lp')"
    using assms by (simp add: plan_def)
  from trip_logs [OF plan_trip_result [OF p] plan_trip_stopped [OF p]] True
  show ?thesis by (simp add: plan_result_def)
next
  case False
  define lp1 where "lp1 = lp\<lparr>al_tracker := tick_iteration (al_tracker lp)\<rparr>"
  have sd: "same_deliverables lp lp1" by (simp add: lp1_def same_deliverables_def)
  have u: "used_iterations lp1 = Suc (used_iterations lp)"
    by (simp add: lp1_def used_iterations_def tracker_simps)
  have conclude: "plan_result dp st lp st' lp'"
    if "(\<exists>ss. logs st (al_tracker lp1) st' (al_tracker lp') ss \<and> tool_calls_of ss = [])
        \<and> same_review st st' \<and> same_deliverables lp1 lp' \<and> used_iterations lp' = used_iterations lp1
        \<and> judged dp st lp1 st'"
    using that False sd u stopped_cong [OF sd, of dp st']
    by (auto simp: plan_result_def logs_def judged_def lp1_def tracker_simps same_deliverables_def)
  have trip: "plan_result dp st lp st' lp'"
    if "turn_result dp st lp1 [] st' lp'" and "stopped dp lp1 st'"
    using trip_logs [OF that] by (intro conclude) (simp add: judged_def)
  show ?thesis
  proof (cases "check_budgets (dp_clock dp (al_world lp1)) (al_tracker lp1)")
    case (Some code)
    then have p: "plan_trip dp st lp1 code (Tripped code) [] = (st', lp')"
      using assms False by (simp add: plan_def lp1_def)
    show ?thesis by (rule trip [OF plan_trip_result [OF p] plan_trip_stopped [OF p]])
  next
    case None
    consider "research_trip dp st lp1 = (st', lp')"
      | "plan_trip dp st lp1 STACK_EXEC_UNAVAILABLE (TransportTripped (al_transport_streak lp1)) [] = (st', lp')"
      | "plan_turn dp st lp1 = (st', lp')"
      using assms False None
      by (auto simp: plan_def lp1_def [symmetric] Let_def split: if_splits)
    then show ?thesis
    proof cases
      case 1
      show ?thesis by (rule trip [OF research_trip_result [OF 1] research_trip_stopped [OF 1]])
    next
      case 2
      show ?thesis by (rule trip [OF plan_trip_result [OF 2] plan_trip_stopped [OF 2]])
    next
      case 3
      show ?thesis by (rule conclude [OF plan_turn_result [OF 3]])
    qed
  qed
qed

section \<open>The other nodes\<close>

text \<open>
  What the nodes other than planning share: they only append to the log, spend no
  iteration, and keep the status, the decision and the gate; what was produced stays.
\<close>

definition node_frame :: "agent_state \<Rightarrow> 'w agent_loop \<Rightarrow> agent_state \<Rightarrow> 'w agent_loop \<Rightarrow> bool" where
  "node_frame st lp st' lp' \<longleftrightarrow>
     (\<exists>ss. logs st (al_tracker lp) st' (al_tracker lp') ss)
     \<and> used_iterations lp' = used_iterations lp
     \<and> al_gate lp' = al_gate lp
     \<and> (al_has_produced lp \<longrightarrow> al_has_produced lp')
     \<and> (al_has_deliverable lp \<longrightarrow> al_has_deliverable lp')"

definition same_course :: "agent_state \<Rightarrow> agent_state \<Rightarrow> bool" where
  "same_course st st' \<longleftrightarrow>
     as_status st' = as_status st \<and> as_last_decision st' = as_last_decision st
     \<and> as_abort_code st' = as_abort_code st \<and> as_review_retries st' = as_review_retries st"

lemma one_note:
  assumes "as_steps st' = as_steps st @ emit (length (as_steps st)) [] n s b"
    and "\<not> is_model_call b" "\<not> is_tool_call b" "call_tokens b = 0" and "logged_call b = None"
  shows "logs st t st' t (emit (length (as_steps st)) [] n s b)"
    and "tool_calls_of (emit (length (as_steps st)) [] n s b) = []"
  using assms by (simp_all add: logs_def summarize_emit)

lemma quiet_node_frame:
  assumes "quiet lp lp'" and "as_steps st' = as_steps st @ emit (length (as_steps st)) [] n s b"
    and "\<not> is_model_call b" "\<not> is_tool_call b" "call_tokens b = 0" "logged_call b = None"
  shows "node_frame st lp st' lp'"
  using one_note(1) [OF assms(2-)] quiet_fields [OF assms(1)]
  by (auto simp: node_frame_def used_iterations_def)

lemma perceive_frame:
  assumes "perceive dp st lp = (st', lp')"
  shows "node_frame st lp st' lp'" "same_course st st'" "tool_calls_of (as_steps st') = tool_calls_of (as_steps st)"
proof -
  have lp': "lp' = lp" using assms by (simp add: perceive_def Let_def)
  show "node_frame st lp st' lp'"
    unfolding lp'
    by (rule quiet_node_frame [OF quiet_refl, where n = Perceive and s = StepOk
          and b = "NodeStep (Perceived (length (dp_file_list dp (al_world lp))))"])
      (use assms in \<open>auto simp: perceive_def Let_def\<close>)
  show "same_course st st'" "tool_calls_of (as_steps st') = tool_calls_of (as_steps st)"
    using assms by (auto simp: perceive_def Let_def same_course_def)
qed

lemma recall_frame:
  assumes "recall dp st lp = (st', lp')"
  shows "node_frame st lp st' lp'" "same_course st st'" "tool_calls_of (as_steps st') = tool_calls_of (as_steps st)"
proof -
  obtain hits lp1 where h: "supplied (dp_recall dp) (as_task st) lp = (hits, lp1)"
    by (cases "supplied (dp_recall dp) (as_task st) lp")
  obtain kh lp2 where k: "supplied (dp_knowledge dp) (as_task st) lp1 = (kh, lp2)"
    by (cases "supplied (dp_knowledge dp) (as_task st) lp1")
  obtain mc me mb lp3 where m: "screen_hits dp CtxMemory ''memory_recall'' hits lp2 = ((mc, me, mb), lp3)"
    by (metis prod_cases3 surj_pair)
  obtain kc ke kb lp4 where n: "screen_hits dp CtxKnowledge ''rag_search'' kh lp3 = ((kc, ke, kb), lp4)"
    by (metis prod_cases3 surj_pair)
  have q: "quiet lp lp4"
    by (rule quiet_trans [OF quiet_trans [OF quiet_supplied [OF h] quiet_supplied [OF k]]
          quiet_trans [OF quiet_screen_hits [OF m] quiet_screen_hits [OF n]]])
  have lp': "lp' = lp4" using assms by (simp add: recall_def Let_def h k m n)
  show "node_frame st lp st' lp'"
    unfolding lp'
    by (rule quiet_node_frame [OF q, where n = Recall and s = StepOk])
      (use assms in \<open>auto simp: recall_def Let_def h k m n\<close>)
  show "same_course st st'" "tool_calls_of (as_steps st') = tool_calls_of (as_steps st)"
    using assms by (auto simp: recall_def Let_def h k m n same_course_def)
qed

subsection \<open>Act\<close>

lemma hook_world: "hook_of dp ctx lp = (es, lp') \<Longrightarrow> \<exists>w. lp' = lp\<lparr>al_world := w\<rparr>"
  by (auto simp: hook_of_def Let_def split: prod.splits)

text \<open>A tool call counts at most once, and touches only the tracker and the world.\<close>

definition called :: "'w agent_loop \<Rightarrow> 'w agent_loop \<Rightarrow> nat \<Rightarrow> bool" where
  "called lp lp' n \<longleftrightarrow>
     (\<exists>t w k. lp' = lp\<lparr>al_tracker := t, al_world := w, al_transport_streak := k\<rparr>
        \<and> tk_budgets t = tk_budgets (al_tracker lp)
        \<and> iterations (tk_usage t) = iterations (tk_usage (al_tracker lp))
        \<and> model_calls (tk_usage t) = model_calls (tk_usage (al_tracker lp))
        \<and> total_tokens (tk_usage t) = total_tokens (tk_usage (al_tracker lp))
        \<and> tool_calls (tk_usage t) \<le> tool_calls (tk_usage (al_tracker lp)) + n)"

lemma called_trans:
  assumes "called a b n" and "called b c m"
  shows "called a c (n + m)"
proof -
  obtain t w k where b: "b = a\<lparr>al_tracker := t, al_world := w, al_transport_streak := k\<rparr>"
    "tk_budgets t = tk_budgets (al_tracker a)" "iterations (tk_usage t) = iterations (tk_usage (al_tracker a))"
    "model_calls (tk_usage t) = model_calls (tk_usage (al_tracker a))"
    "total_tokens (tk_usage t) = total_tokens (tk_usage (al_tracker a))"
    "tool_calls (tk_usage t) \<le> tool_calls (tk_usage (al_tracker a)) + n"
    using assms(1) by (auto simp: called_def)
  obtain t2 w2 k2 where c: "c = b\<lparr>al_tracker := t2, al_world := w2, al_transport_streak := k2\<rparr>"
    "tk_budgets t2 = tk_budgets (al_tracker b)" "iterations (tk_usage t2) = iterations (tk_usage (al_tracker b))"
    "model_calls (tk_usage t2) = model_calls (tk_usage (al_tracker b))"
    "total_tokens (tk_usage t2) = total_tokens (tk_usage (al_tracker b))"
    "tool_calls (tk_usage t2) \<le> tool_calls (tk_usage (al_tracker b)) + m"
    using assms(2) by (auto simp: called_def)
  show ?thesis
    unfolding called_def
    by (rule exI [of _ t2], rule exI [of _ w2], rule exI [of _ k2]) (use b c in auto)
qed

lemma called_screened:
  assumes "screened_tool_call dp tool args lp = (r, lp')"
  shows "called lp lp' 1"
proof -
  obtain pre lp1 where p: "hook_of dp ((hook_context PreTool)\<lparr>gc_tool_name := Some tool, gc_tool_args := args\<rparr>) lp
      = (pre, lp1)"
    by (metis surj_pair)
  obtain w1 where w1: "lp1 = lp\<lparr>al_world := w1\<rparr>" using hook_world [OF p] by blast
  show ?thesis
  proof (cases "blocked_types pre = []")
    case False
    then have "lp' = lp1" using assms p by (simp add: screened_tool_call_def)
    then show ?thesis
      unfolding called_def w1
      by (intro exI [of _ "al_tracker lp"] exI [of _ w1] exI [of _ "al_transport_streak lp"]) simp
  next
    case True
    obtain res w where r: "registry_call (dp_tools dp) tool args (al_world lp1) = (res, w)" by (metis surj_pair)
    obtain post lp3 where q: "hook_of dp ((hook_context PostTool)\<lparr>gc_tool_name := Some tool,
          gc_tool_result := tr_output res\<rparr>)
          (lp1\<lparr>al_world := w, al_tracker := record_tool_call (al_tracker lp1)\<rparr>) = (post, lp3)"
      by (metis surj_pair)
    obtain w3 where w3: "lp3 = (lp1\<lparr>al_world := w, al_tracker := record_tool_call (al_tracker lp1)\<rparr>)\<lparr>al_world := w3\<rparr>"
      using hook_world [OF q] by blast
    have "lp' = lp3"
      using assms True by (simp add: screened_tool_call_def Let_def p r q)
    then show ?thesis
      unfolding called_def
      by (intro exI [of _ "record_tool_call (al_tracker lp)"] exI [of _ w3] exI [of _ "al_transport_streak lp"])
        (simp add: w3 w1 tracker_simps)
  qed
qed

lemma act_batch_called:
  assumes "act_batch dp base cs ss lp = ((obs, evs, ss'), lp')"
  shows "called lp lp' (length cs)
         \<and> (indexed base ss \<longrightarrow> indexed base ss')
         \<and> cs_model_calls (summarize ss') = cs_model_calls (summarize ss)
         \<and> cs_total_tokens (summarize ss') = cs_total_tokens (summarize ss)
         \<and> cs_tool_calls (summarize ss') = cs_tool_calls (summarize ss) + length cs
         \<and> tool_calls_of ss' = tool_calls_of ss @ cs"
  using assms
proof (induction cs arbitrary: ss lp obs evs)
  case Nil
  have "called lp lp 0"
    unfolding called_def
    by (intro exI [of _ "al_tracker lp"] exI [of _ "al_world lp"] exI [of _ "al_transport_streak lp"]) simp
  then show ?case using Nil by simp
next
  case (Cons c cs)
  obtain res ev lp1 where s: "screened_tool_call dp (fst c) (snd c) lp = ((res, ev), lp1)"
    by (metis surj_pair)
  define ss1 where "ss1 = emit base ss Act (step_outcome (tr_ok res)) (ToolCallStep (fst c) (snd c) res)"
  obtain obs1 evs1 ss2 lp2 where b: "act_batch dp base cs ss1 lp1 = ((obs1, evs1, ss2), lp2)"
    by (metis prod_cases3 surj_pair)
  have out: "lp' = lp2" "ss' = ss2"
    using Cons.prems by (simp_all add: s b ss1_def [symmetric] Let_def)
  from Cons.IH [OF b [folded out]] called_trans [OF called_screened [OF s], of lp' "length cs"]
  show ?case by (simp add: ss1_def summarize_emit)
qed

text \<open>The call the act node makes for a decision.\<close>

definition main_call :: "model_decision \<Rightarrow> tool_call" where
  "main_call d =
     ((case md_tool d of Some t \<Rightarrow> if t = [] then ''noop'' else t | None \<Rightarrow> ''noop''), md_args d)"

definition planned_calls :: "model_decision \<Rightarrow> tool_call list" where
  "planned_calls d =
     (if fst (main_call d) = ''update_plan'' then [] else main_call d # md_batch d)"

lemma called_frame:
  assumes "called lp lp' n"
  shows "al_gate lp' = al_gate lp" "al_has_produced lp' = al_has_produced lp"
    "al_has_deliverable lp' = al_has_deliverable lp" "used_iterations lp' = used_iterations lp"
    "al_detector lp' = al_detector lp"
  using assms by (auto simp: called_def used_iterations_def)

lemma called_tracker:
  assumes "called lp lp' n"
  shows "tk_budgets (al_tracker lp') = tk_budgets (al_tracker lp)"
    "model_calls (tk_usage (al_tracker lp')) = model_calls (tk_usage (al_tracker lp))"
    "total_tokens (tk_usage (al_tracker lp')) = total_tokens (tk_usage (al_tracker lp))"
    "tool_calls (tk_usage (al_tracker lp')) \<le> tool_calls (tk_usage (al_tracker lp)) + n"
  using assms by (auto simp: called_def)

lemma act_update_plan_frame:
  assumes "act_update_plan dp st lp args = (st', lp')"
  shows "node_frame st lp st' lp'" "same_course st st'" "tool_calls_of (as_steps st') = tool_calls_of (as_steps st)"
proof -
  define tool where "tool = ''update_plan''"
  define plan_text where "plan_text = take 1500 (strip (py_str (py_or (dget args ''plan'') (PStr []))))"
  obtain e1 lp1 where h1: "hook_of dp ((hook_context PreTool)\<lparr>gc_tool_name := Some tool, gc_tool_args := args\<rparr>) lp
      = (e1, lp1)" by (metis surj_pair)
  obtain e2 lp2 where h2: "hook_of dp ((hook_context PostTool)\<lparr>gc_tool_name := Some tool,
      gc_tool_result := PStr plan_text\<rparr>) lp1 = (e2, lp2)" by (metis surj_pair)
  have q: "quiet lp lp2" by (rule quiet_trans [OF quiet_hook [OF h1] quiet_hook [OF h2]])
  have lp': "lp' = lp2"
    using assms h1 h2 by (simp add: act_update_plan_def Let_def tool_def plan_text_def)
  obtain s tx b where st': "as_steps st' = as_steps st @ emit (length (as_steps st)) [] Act s (PlanStored tx b)"
    and c: "same_course st st'"
    using assms h1 h2
    by (auto simp: act_update_plan_def Let_def tool_def plan_text_def same_course_def)
  have "logs st (al_tracker lp) st' (al_tracker lp') (emit (length (as_steps st)) [] Act s (PlanStored tx b))"
    using st' quiet_fields [OF q] by (simp add: lp' logs_def summarize_emit)
  then show "node_frame st lp st' lp'"
    using quiet_fields [OF q] by (auto simp: node_frame_def lp' used_iterations_def)
  show "same_course st st'" "tool_calls_of (as_steps st') = tool_calls_of (as_steps st)"
    using c st' by simp_all
qed

lemma act_frame:
  assumes "act dp st lp = (st', lp')" and d: "acting_decision st = d"
  shows "node_frame st lp st' lp'" "same_course st st'"
    "tool_calls_of (as_steps st') = tool_calls_of (as_steps st) @ planned_calls d"
proof -
  define tool where "tool = fst (main_call d)"
  have "node_frame st lp st' lp' \<and> same_course st st'
    \<and> tool_calls_of (as_steps st') = tool_calls_of (as_steps st) @ planned_calls d"
  proof (cases "tool = ''update_plan''")
    case True
    then have u: "act_update_plan dp st lp (md_args d) = (st', lp')"
      using assms by (simp add: act_def tool_def main_call_def)
    then show ?thesis
      using act_update_plan_frame [OF u] True by (simp add: planned_calls_def tool_def)
  next
    case False
    define base where "base = length (as_steps st)"
    obtain res ev lp1 where s: "screened_tool_call dp tool (md_args d) lp = ((res, ev), lp1)"
      by (metis surj_pair)
    obtain out z where o: "cap_observation_value (tr_output res) = (out, z)" by (metis surj_pair)
    define err where "err = fst (cap_error (tr_error res))"
    define ss where "ss = emit base [] Act (step_outcome (tr_ok res))
                      (ToolCallStep tool (md_args d) \<lparr>tr_ok = tr_ok res, tr_output = out, tr_error = err\<rparr>)"
    define lp2 where "lp2 = (if base_tool_name (Some tool) = ''stack_exec''
                      then lp1\<lparr>al_transport_streak :=
                             (if is_transport_failure (Some tool) (tr_ok res) err
                              then Suc (al_transport_streak lp1) else 0)\<rparr>
                      else lp1)"
    obtain obs evs ss2 lp3 where b: "act_batch dp base (md_batch d) ss lp2 = ((obs, evs, ss2), lp3)"
      by (metis prod_cases3 surj_pair)
    have "act dp st lp =
       (let (out, _, _) = cap_observation_value (tr_output res);
            ((obs, evs, ss2), lp3) = act_batch dp base (md_batch d) ss lp2
        in (st\<lparr>as_last_observation := Some \<lparr>ob_tool = tool, ob_args = Some (compact_args (md_args d)),
                    ob_ok = tr_ok res, ob_output = out, ob_error = err, ob_batch = obs,
                    ob_dropped = md_dropped d\<rparr>,
                  as_steps := as_steps st @ ss2,
                  as_guardrail_events := as_guardrail_events st @ ev @ evs\<rparr>, lp3))"
      using False s d
      by (simp add: act_def tool_def main_call_def base_def lp2_def ss_def err_def o Let_def case_prod_unfold)
    then have out: "lp' = lp3" "as_steps st' = as_steps st @ ss2" "same_course st st'"
      using assms(1) by (auto simp: b o same_course_def Let_def case_prod_unfold)
    have c1: "called lp lp2 1"
    proof -
      obtain t w k where "lp1 = lp\<lparr>al_tracker := t, al_world := w, al_transport_streak := k\<rparr>"
        and "tk_budgets t = tk_budgets (al_tracker lp)
        \<and> iterations (tk_usage t) = iterations (tk_usage (al_tracker lp))
        \<and> model_calls (tk_usage t) = model_calls (tk_usage (al_tracker lp))
        \<and> total_tokens (tk_usage t) = total_tokens (tk_usage (al_tracker lp))
        \<and> tool_calls (tk_usage t) \<le> tool_calls (tk_usage (al_tracker lp)) + 1"
        using called_screened [OF s] by (auto simp: called_def)
      then show ?thesis
        unfolding called_def lp2_def
        by (intro exI [of _ t] exI [of _ w] exI [of _ "al_transport_streak lp2"]) (simp add: lp2_def)
    qed
    from act_batch_called [OF b] have bt: "called lp2 lp3 (length (md_batch d))"
      "indexed base ss \<longrightarrow> indexed base ss2"
      "cs_model_calls (summarize ss2) = cs_model_calls (summarize ss)"
      "cs_total_tokens (summarize ss2) = cs_total_tokens (summarize ss)"
      "cs_tool_calls (summarize ss2) = cs_tool_calls (summarize ss) + length (md_batch d)"
      "tool_calls_of ss2 = tool_calls_of ss @ md_batch d"
      by blast+
    have c: "called lp lp3 (1 + length (md_batch d))" by (rule called_trans [OF c1 bt(1)])
    have "logs st (al_tracker lp) st' (al_tracker lp') ss2"
      using called_tracker [OF c] out bt by (simp add: logs_def ss_def summarize_emit base_def)
    then have "node_frame st lp st' lp'"
      using called_frame [OF c] out by (auto simp: node_frame_def)
    moreover have "tool_calls_of (as_steps st') = tool_calls_of (as_steps st) @ planned_calls d"
      using out bt False by (simp add: planned_calls_def ss_def main_call_def tool_def)
    ultimately show ?thesis using out by blast
  qed
  then show "node_frame st lp st' lp'" "same_course st st'"
    "tool_calls_of (as_steps st') = tool_calls_of (as_steps st) @ planned_calls d"
    by simp_all
qed

subsection \<open>Observe and reflect\<close>

lemma observe_frame:
  "node_frame st lp (observe st) lp" "same_course st (observe st)"
  "tool_calls_of (as_steps (observe st)) = tool_calls_of (as_steps st)"
proof -
  show "node_frame st lp (observe st) lp"
    by (rule quiet_node_frame [OF quiet_refl, where n = Observe and s = StepOk
          and b = "NodeStep (Observed (case as_last_observation st of Some ob \<Rightarrow> ob_tool ob | None \<Rightarrow> ''?''))"])
      (simp_all add: observe_def split: option.split)
  show "same_course st (observe st)" "tool_calls_of (as_steps (observe st)) = tool_calls_of (as_steps st)"
    by (simp_all add: observe_def same_course_def split: option.split)
qed

text \<open>The bookkeeping of reflection.\<close>

definition bookkept :: "'w agent_loop \<Rightarrow> 'w agent_loop \<Rightarrow> bool" where
  "bookkept lp lp' \<longleftrightarrow>
     al_tracker lp' = al_tracker lp \<and> al_gate lp' = al_gate lp
     \<and> al_has_deliverable lp' = al_has_deliverable lp \<and> (al_has_produced lp \<longrightarrow> al_has_produced lp')"

lemma bookkept_refl [simp, intro]: "bookkept lp lp"
  by (simp add: bookkept_def)

lemma bookkept_trans: "bookkept a b \<Longrightarrow> bookkept b c \<Longrightarrow> bookkept a c"
  by (simp add: bookkept_def)

lemma bookkept_count [simp, intro]: "bookkept lp (count_safeguard k lp)"
  by (simp add: bookkept_def count_safeguard_def)

lemma bookkept_harvest: "bookkept lp (harvest_read_digest tool target output lp)"
  by (auto simp: harvest_read_digest_def bookkept_def Let_def split: option.split)

lemma bookkept_count_read: "bookkept lp (count_read target pe lp)"
  by (simp add: count_read_def bookkept_def split: option.split)

lemma bookkept_note_read: "bookkept lp (snd (note_read target ok pe lp))"
  by (simp add: note_read_def bookkept_def)

lemma bookkept_track:
  assumes "track_research tool args ok output err lp = (r, lp')"
  shows "bookkept lp lp'"
proof -
  have a: "bookkept lp (snd (note_read target ok pe (count_read target pe lp)))" for target pe
    by (rule bookkept_trans [OF bookkept_count_read bookkept_note_read])
  then have h: "bookkept lp (harvest_read_digest tool target output
      (snd (note_read target ok pe (count_read target pe lp))))" for target pe
    by (rule bookkept_trans [OF _ bookkept_harvest])
  have p: "bookkept lp (lpx\<lparr>al_has_produced := True, al_read_counts := []\<rparr>)" if "bookkept lp lpx" for lpx
    using that by (simp add: bookkept_def)
  have c: "bookkept lp (lp\<lparr>al_read_churn_streak := 0\<rparr>)" by (simp add: bookkept_def)
  from assms show ?thesis
    using a h p [OF h] p [OF a] p [OF c] c
    by (auto simp: track_research_def Let_def case_prod_unfold split: if_splits)
qed

lemma bookkept_track_batch: "track_batch ss p lp = (r, lp') \<Longrightarrow> bookkept lp lp'"
proof (induction ss arbitrary: p lp)
  case (Cons s ss)
  obtain r1 lp1 where t: "track_research (Some (so_tool s)) (so_args s) (tr_ok (so_result s))
      (tr_output (so_result s)) (tr_error (so_result s)) lp = (r1, lp1)" by (metis surj_pair)
  then have "track_batch ss (p \<or> snd r1) lp1 = (r, lp')"
    using Cons.prems by (simp add: Let_def case_prod_unfold)
  from bookkept_trans [OF bookkept_track [OF t] Cons.IH [OF this]] show ?case .
qed simp

lemma bookkept_note_productive: "bookkept lp (note_productive a p lp)"
  by (auto simp: note_productive_def Let_def bookkept_def split: option.split)

lemma bookkept_note_turn_outcome: "bookkept lp (note_turn_outcome ok err lp)"
  by (auto simp: note_turn_outcome_def bookkept_def split: option.split)

lemma bookkept_harvest_written: "bookkept lp (harvest_written tool args lp)"
  by (auto simp: harvest_written_def bookkept_def Let_def split: pyval.split)

lemma bookkept_select_nudge: "select_nudge dp tool target n lp = (r, lp') \<Longrightarrow> bookkept lp lp'"
  by (auto simp: select_nudge_def Let_def split: option.splits)

lemma bookkept_assess: "bookkept lp (run_reflection_assess dp st n lp)"
  by (auto simp: run_reflection_assess_def Let_def bookkept_def count_safeguard_def
      split: option.split prod.split)

lemma reflect_frame:
  assumes "reflect dp st lp = (st', lp')"
  shows "node_frame st lp st' lp'" "same_course st st'"
    "tool_calls_of (as_steps st') = tool_calls_of (as_steps st)"
proof -
  obtain tool where tool: "tool = map_option ob_tool (as_last_observation st)" by simp
  obtain ok outp err batch where ob: "observed st = (ok, outp, err, batch)" by (cases "observed st") auto
  obtain dtool args where da: "decided_call st = (dtool, args)" by (cases "decided_call st")
  obtain target p1 lp1 where t1: "track_research tool args ok outp err lp = ((target, p1), lp1)"
    by (metis surj_pair)
  obtain productive lp2 where t2: "track_batch batch p1 lp1 = (productive, lp2)" by (metis surj_pair)
  define lp5 where "lp5 = harvest_written tool args
      (note_turn_outcome ok err (note_productive (dtool, args) productive lp2))"
  define n where "n = count_of (action_val dtool args []) (al_detector lp5)"
  obtain nudge lp6 where t6: "select_nudge dp tool target n lp5 = (nudge, lp6)" by (metis surj_pair)
  define lp7 where "lp7 = (if used_iterations lp6 \<noteq> 0 \<and> used_iterations lp6 mod 10 = 0
      then count_safeguard NudgeSelfCheck lp6 else lp6)"
  define lp8 where "lp8 = run_reflection_assess dp st (used_iterations lp6) lp7"
  define lp9 where "lp9 = (case repetition_warning tool args n lp8 of
      Some (_, k) \<Rightarrow> count_safeguard k lp8 | None \<Rightarrow> lp8)"
  have k5: "bookkept lp lp5"
    unfolding lp5_def
    by (rule bookkept_trans [OF _ bookkept_harvest_written], rule bookkept_trans [OF _ bookkept_note_turn_outcome],
        rule bookkept_trans [OF _ bookkept_note_productive],
        rule bookkept_trans [OF bookkept_track [OF t1] bookkept_track_batch [OF t2]])
  have k7: "bookkept lp lp7"
    using bookkept_trans [OF k5 bookkept_select_nudge [OF t6]] by (auto simp: lp7_def intro: bookkept_trans)
  have k8: "bookkept lp lp8" unfolding lp8_def by (rule bookkept_trans [OF k7 bookkept_assess])
  have k9: "bookkept lp lp9" using k8 by (auto simp: lp9_def intro: bookkept_trans split: option.split)
  have "snd (reflect dp st lp) = lp9"
    unfolding lp9_def lp8_def lp7_def n_def lp5_def
    by (simp only: reflect_def Let_def tool [symmetric] ob da t1 t2 prod.case t6 [unfolded n_def lp5_def] snd_conv)
  then have lp': "lp' = lp9" using assms by simp
  have st': "as_steps st' = as_steps st @ emit (length (as_steps st)) [] Reflect StepOk (NodeStep (Reflected ok nudge))"
    and sc: "same_course st st'"
    using assms
    by (auto simp: reflect_def Let_def tool [symmetric] ob da t1 t2 t6 [unfolded n_def lp5_def] same_course_def)
  have "logs st (al_tracker lp) st' (al_tracker lp')
          (emit (length (as_steps st)) [] Reflect StepOk (NodeStep (Reflected ok nudge)))"
    using st' k9 by (simp add: lp' logs_def summarize_emit bookkept_def)
  then show "node_frame st lp st' lp'"
    using k9 by (auto simp: node_frame_def lp' bookkept_def used_iterations_def)
  show "same_course st st'" "tool_calls_of (as_steps st') = tool_calls_of (as_steps st)"
    using sc st' by simp_all
qed

subsection \<open>Finalize\<close>

lemma finalize_frame:
  assumes "finalize dp st lp = (st', lp')"
  shows "node_frame st lp st' lp'" "same_course st st'"
    "tool_calls_of (as_steps st') = tool_calls_of (as_steps st)"
proof -
  obtain out s x where st': "st' = close_with st lp out s x"
    using assms by (cases "as_status st") (auto simp: finalize_def Let_def)
  have lp': "lp' = lp \<or> lp' = lp\<lparr>al_has_deliverable := True\<rparr>"
    using assms by (cases "as_status st") (auto simp: finalize_def Let_def split: if_splits)
  have "logs st (al_tracker lp) st' (al_tracker lp')
          (emit (length (as_steps st)) [] Finalize s (FinalStep x (al_stats lp)))"
    using lp' by (auto simp: st' close_with_def logs_def summarize_emit)
  then show "node_frame st lp st' lp'"
    using lp' by (auto simp: node_frame_def used_iterations_def)
  show "same_course st st'" "tool_calls_of (as_steps st') = tool_calls_of (as_steps st)"
    by (simp_all add: st' close_with_def same_course_def)
qed

end
