(* ===== verification/AgentRun.thy ===== *)
theory AgentRun
  imports AgentFrames
begin

text \<open>
  Properties of whole runs of the agent loop. The locale \<open>run_invariant\<close> says what an
  invariant of the graph is and concludes that it holds in every configuration a run
  passes through and at its end; it is interpreted for the log and the budgets, for the
  course of a run (which status with which decision at which node), for the accounting of
  approvals and for the loop detector.
\<close>

section \<open>Invariants of the graph\<close>

locale run_invariant =
  fixes dp :: "'w deps"
    and inv :: "node \<Rightarrow> agent_state \<Rightarrow> 'w agent_loop \<Rightarrow> bool"
    and post :: "agent_state \<Rightarrow> 'w agent_loop \<Rightarrow> bool"
  assumes keeps: "inv n st lp \<Longrightarrow> run_node dp n st lp = (st', lp') \<Longrightarrow> next_node n st' = Some m
                    \<Longrightarrow> inv m st' lp'"
    and ends: "inv n st lp \<Longrightarrow> run_node dp n st lp = (st', lp') \<Longrightarrow> next_node n st' = None
                    \<Longrightarrow> post st' lp'"
begin

lemma at_end: "inv n st lp \<Longrightarrow> run_graph dp k n st lp = Inr (st', lp') \<Longrightarrow> post st' lp'"
proof (induction k arbitrary: n st lp)
  case (Suc k)
  obtain st1 lp1 where r: "run_node dp n st lp = (st1, lp1)" by (cases "run_node dp n st lp")
  show ?case
  proof (cases "next_node n st1")
    case None
    then show ?thesis using Suc.prems r ends by simp
  next
    case (Some m)
    then show ?thesis using Suc keeps [OF Suc.prems(1) r Some] r by simp
  qed
qed simp

lemma at_reached:
  assumes "(agent_step dp)\<^sup>*\<^sup>* (n, st, lp) (m, st', lp')" and "inv n st lp"
  shows "inv m st' lp'"
proof -
  have "inv (fst c) (fst (snd c)) (snd (snd c))"
    if "(agent_step dp)\<^sup>*\<^sup>* (n, st, lp) c" for c
    using that
  proof (induction rule: rtranclp_induct)
    case base
    then show ?case using assms(2) by simp
  next
    case (step c d)
    from step.hyps(2) show ?case
      by (cases rule: agent_step.cases) (use step.IH keeps in auto)
  qed
  from this [OF assms(1)] show ?thesis by simp
qed

end

section \<open>The end of a review\<close>

definition terminal_statuses :: "run_status set" where
  "terminal_statuses = {STATUS_ABORTED, STATUS_AWAITING_APPROVAL, STATUS_NEEDS_HUMAN_REVIEW}"

text \<open>
  The log ends with a review that passed, and the decision it judged did not report its own
  failure.
\<close>

definition certified :: "agent_state \<Rightarrow> bool" where
  "certified st \<longleftrightarrow>
     (\<exists>ss v a m ti to1 c fb p k.
        as_steps st = ss @ [v, a] \<and> st_body v = ModelCallStep m ti to1 c (Verdict True fb) p k
        \<and> st_body a = NodeStep ApprovedBySelfReview)
     \<and> as_review_passed st = Some True
     \<and> (\<forall>d. as_last_decision st = Some d \<longrightarrow>
          md_finish_status d \<notin> {Some ''failed'', Some ''partial''})"

definition review_end :: "'w deps \<Rightarrow> int \<Rightarrow> agent_state \<Rightarrow> agent_state \<Rightarrow> bool" where
  "review_end dp budget st st' \<longleftrightarrow>
     (dp_is_review dp \<and> as_review_passed st' = Some True
        \<and> as_status st' = (if as_status st = STATUS_RUNNING then STATUS_DONE else as_status st)
        \<and> as_abort_code st' = as_abort_code st \<and> as_review_retries st' = as_review_retries st)
     \<or> (\<not> dp_is_review dp \<and> as_status st \<in> terminal_statuses \<and> as_status st' = as_status st
        \<and> as_abort_code st' = as_abort_code st \<and> as_review_retries st' = as_review_retries st)
     \<or> (as_status st' = STATUS_ABORTED \<and> (\<exists>code \<in> outside_codes. as_abort_code st' = Some code)
        \<and> as_review_retries st' = as_review_retries st)
     \<or> (as_status st' = STATUS_DONE \<and> certified st' \<and> as_review_retries st' = as_review_retries st)
     \<or> (as_status st' = STATUS_NEEDS_HUMAN_REVIEW \<and> as_abort_code st' \<noteq> None
        \<and> as_review_retries st' \<in> {as_review_retries st, as_review_retries st + 1})
     \<or> (as_status st' = as_status st \<and> as_status st \<notin> terminal_statuses
        \<and> as_review_passed st' = Some False
        \<and> as_review_retries st' = as_review_retries st + 1 \<and> as_review_retries st' \<le> budget)"

lemma review_verdict_result:
  assumes "review_verdict dp st lp r = (st', lp')" and "as_status st \<notin> terminal_statuses"
  shows "node_frame st lp st' lp' \<and> tool_calls_of (as_steps st') = tool_calls_of (as_steps st)
         \<and> as_last_decision st' = as_last_decision st \<and> same_deliverables lp lp'
         \<and> review_end dp (max_review_retries (tk_budgets (al_tracker lp))) st st'"
proof -
  define lp1 where "lp1 = lp\<lparr>al_tracker := record_model_call (rr_tokens_in r) (rr_tokens_out r) (rr_cost_usd r)
                                   (al_tracker lp)\<rparr>"
  define ss where "ss = emit (length (as_steps st)) [] SelfReview StepOk
                 (ModelCallStep (rr_model r) (rr_tokens_in r) (rr_tokens_out r) (rr_cost_usd r)
                   (Verdict (rr_passed r) (take 160 (rr_feedback r))) (dp_provider_kind dp) 0)"
  define budget where "budget = max_review_retries (tk_budgets (al_tracker lp))"
  have b: "max_review_retries (tk_budgets (al_tracker lp1)) = budget"
    by (simp add: lp1_def budget_def tracker_simps)
  have lp': "lp' = lp1"
    using assms by (auto simp: review_verdict_def Let_def lp1_def split: if_splits option.splits)
  obtain s x where steps: "as_steps st' = as_steps st @ self_note ss st s x"
    using assms
    by (auto simp: review_verdict_def Let_def ss_def escalate_review_def split: if_splits option.splits)
  have d: "as_last_decision st' = as_last_decision st"
    using assms by (auto simp: review_verdict_def Let_def escalate_review_def split: if_splits option.splits)
  have "logs st (al_tracker lp) st' (al_tracker lp') (self_note ss st s x)"
    using steps by (simp add: logs_def self_note_def ss_def summarize_emit lp' lp1_def tracker_simps)
  then have "node_frame st lp st' lp'"
    by (auto simp: node_frame_def lp' lp1_def used_iterations_def tracker_simps)
  moreover have "tool_calls_of (as_steps st') = tool_calls_of (as_steps st)"
    using steps by (simp add: self_note_def ss_def)
  moreover have "same_deliverables lp lp'" by (simp add: lp' lp1_def same_deliverables_def)
  moreover have "review_end dp budget st st'"
  proof (cases "rr_passed r")
    case True
    define finish where "finish = (case as_last_decision st of Some d \<Rightarrow> md_finish_status d | None \<Rightarrow> None)"
    show ?thesis
    proof (cases "finish \<in> {Some ''failed'', Some ''partial''}")
      case f: True
      then have "as_status st' = STATUS_NEEDS_HUMAN_REVIEW \<and> as_abort_code st' \<noteq> None
          \<and> as_review_retries st' = as_review_retries st"
        using assms(1) True
        by (auto simp: review_verdict_def Let_def finish_def escalate_review_def split: if_splits option.splits)
      then show ?thesis by (simp add: review_end_def)
    next
      case f: False
      have st': "st' = st\<lparr>as_review_passed := Some True, as_status := STATUS_DONE,
                         as_steps := as_steps st @ self_note ss st StepOk ApprovedBySelfReview\<rparr>"
        using assms(1) True f
        by (auto simp: review_verdict_def Let_def finish_def ss_def split: if_splits option.splits)
      have "certified st'"
        unfolding certified_def
        using f True by (auto simp: st' self_note_def ss_def emit_def finish_def)
      then show ?thesis by (simp add: review_end_def st')
    qed
  next
    case False
    show ?thesis
    proof (cases "rr_inconclusive r")
      case True
      then have "as_status st' = STATUS_NEEDS_HUMAN_REVIEW \<and> as_abort_code st' \<noteq> None
          \<and> as_review_retries st' = as_review_retries st"
        using assms(1) False by (auto simp: review_verdict_def Let_def escalate_review_def)
      then show ?thesis by (simp add: review_end_def)
    next
      case ninc: False
      show ?thesis
      proof (cases "as_review_retries st + 1 > budget")
        case True
        then have "as_status st' = STATUS_NEEDS_HUMAN_REVIEW \<and> as_abort_code st' \<noteq> None
            \<and> as_review_retries st' = as_review_retries st + 1"
          using assms(1) False ninc b
          by (auto simp: review_verdict_def Let_def escalate_review_def lp1_def)
        then show ?thesis by (simp add: review_end_def)
      next
        case ok: False
        then have "as_status st' = as_status st \<and> as_review_passed st' = Some False
            \<and> as_review_retries st' = as_review_retries st + 1"
          using assms(1) False ninc b by (auto simp: review_verdict_def Let_def lp1_def)
        then show ?thesis using assms(2) ok by (simp add: review_end_def)
      qed
    qed
  qed
  ultimately show ?thesis using d budget_def by simp
qed

lemma self_review_result:
  assumes "self_review dp st lp = (st', lp')"
  shows "node_frame st lp st' lp' \<and> tool_calls_of (as_steps st') = tool_calls_of (as_steps st)
         \<and> as_last_decision st' = as_last_decision st \<and> same_deliverables lp lp'
         \<and> review_end dp (max_review_retries (tk_budgets (al_tracker lp))) st st'"
proof -
  have note_only: "node_frame st lp st' lp' \<and> tool_calls_of (as_steps st') = tool_calls_of (as_steps st)"
    if "quiet lp lp'" and "as_steps st' = as_steps st @ self_note [] st s x" for s x
    using quiet_node_frame [OF that(1) that(2) [unfolded self_note_def]] that(2)
    by (simp add: self_note_def)
  consider (is_review) "dp_is_review dp" | (terminal) "\<not> dp_is_review dp" "as_status st \<in> terminal_statuses"
    | (judge) "\<not> dp_is_review dp" "as_status st \<notin> terminal_statuses" by blast
  then show ?thesis
  proof cases
    case is_review
    define final where "final = (if as_status st = STATUS_RUNNING then STATUS_DONE else as_status st)"
    have st': "st' = st\<lparr>as_review_passed := Some True, as_status := final,
               as_steps := as_steps st @ self_note [] st (StepRun final) ReviewIsTheRun\<rparr>" and lp': "lp' = lp"
      using assms is_review by (simp_all add: self_review_def Let_def final_def)
    have "review_end dp (max_review_retries (tk_budgets (al_tracker lp))) st st'"
      unfolding review_end_def using is_review by (simp add: st' final_def)
    with note_only [of "StepRun final" ReviewIsTheRun] show ?thesis
      by (simp add: st' lp' same_deliverables_def)
  next
    case terminal
    have st': "st' = st\<lparr>as_review_passed := Some False,
            as_steps := as_steps st @ self_note [] st (StepRun (as_status st)) (ReviewSkipped (as_status st))\<rparr>"
      and lp': "lp' = lp"
      using assms terminal by (simp_all add: self_review_def terminal_statuses_def)
    have "review_end dp (max_review_retries (tk_budgets (al_tracker lp))) st st'"
      unfolding review_end_def using terminal by (simp add: st')
    with note_only [of "StepRun (as_status st)" "ReviewSkipped (as_status st)"] show ?thesis
      by (simp add: st' lp' same_deliverables_def)
  next
    case judge
    obtain v w where r: "dp_review dp st (review_files dp st lp) (al_world lp) = (v, w)"
      by (metis surj_pair)
    show ?thesis
    proof (cases v)
      case (Inl e)
      have c: "provider_abort_code e \<in> outside_codes" by (cases e) (simp_all add: outside_codes_def)
      define code where "code = provider_abort_code e"
      define x where "x = ReviewFailedWith code (take 300 (collapse (llm_message e)))"
      have st': "st' = st\<lparr>as_review_passed := Some False, as_status := STATUS_ABORTED,
                 as_abort_code := Some code,
                 as_steps := as_steps st @ self_note [] st (StepRun STATUS_ABORTED) x\<rparr>"
        and lp': "lp' = lp\<lparr>al_world := w\<rparr>"
        using assms judge r Inl by (simp_all add: self_review_def terminal_statuses_def Let_def code_def x_def)
      have "review_end dp (max_review_retries (tk_budgets (al_tracker lp))) st st'"
        unfolding review_end_def using c by (simp add: st' code_def)
      with note_only [of "StepRun STATUS_ABORTED" x] show ?thesis
        by (simp add: st' lp' same_deliverables_def)
    next
      case (Inr resp)
      then have "review_verdict dp st (lp\<lparr>al_world := w\<rparr>) resp = (st', lp')"
        using assms judge r by (simp add: self_review_def terminal_statuses_def)
      from review_verdict_result [OF this judge(2)] show ?thesis
        by (simp add: node_frame_def same_deliverables_def used_iterations_def)
    qed
  qed
qed

section \<open>The log and the budgets\<close>

lemma run_node_frame:
  assumes "run_node dp n st lp = (st', lp')" and "n \<noteq> Plan"
  shows "node_frame st lp st' lp'"
    and "n \<noteq> SelfReview \<Longrightarrow> same_course st st'"
    and "tool_calls_of (as_steps st') = tool_calls_of (as_steps st)
           @ (if n = Act then planned_calls (acting_decision st) else [])"
  using assms
  by (cases n; auto simp: run_node_def dest: perceive_frame recall_frame act_frame [OF _ refl] reflect_frame
      finalize_frame self_review_result intro: observe_frame)+

lemma run_node_logs:
  assumes "run_node dp n st lp = (st', lp')"
  shows "\<exists>ss. logs st (al_tracker lp) st' (al_tracker lp') ss"
proof (cases "n = Plan")
  case True
  then have "plan dp st lp = (st', lp')" using assms by (simp add: run_node_def)
  from plan_plan_result [OF this] show ?thesis by (auto simp: plan_result_def)
next
  case False
  from run_node_frame(1) [OF assms this] show ?thesis by (simp add: node_frame_def)
qed

text \<open>The log is numbered, and the tracker agrees with it.\<close>

definition log_agrees :: "budgets \<Rightarrow> agent_state \<Rightarrow> 'w agent_loop \<Rightarrow> bool" where
  "log_agrees b st lp \<longleftrightarrow>
     indexed 0 (as_steps st)
     \<and> model_calls (tk_usage (al_tracker lp)) = cs_model_calls (summarize (as_steps st))
     \<and> total_tokens (tk_usage (al_tracker lp)) = cs_total_tokens (summarize (as_steps st))
     \<and> tool_calls (tk_usage (al_tracker lp)) \<le> cs_tool_calls (summarize (as_steps st))
     \<and> tk_budgets (al_tracker lp) = b
     \<and> int (used_iterations lp) \<le> max 0 (max_iterations b)"

lemma run_node_log_agrees:
  assumes "log_agrees b st lp" and r: "run_node dp n st lp = (st', lp')"
  shows "log_agrees b st' lp'"
proof -
  obtain ss where ss: "logs st (al_tracker lp) st' (al_tracker lp') ss"
    using run_node_logs [OF r] by blast
  have "int (used_iterations lp') \<le> max 0 (max_iterations b)"
  proof (cases "n = Plan")
    case True
    then have "plan dp st lp = (st', lp')" using r by (simp add: run_node_def)
    from plan_plan_result [OF this] show ?thesis
      using assms(1)
      by (auto simp: plan_result_def log_agrees_def iteration_exhausted_def used_iterations_def split: if_splits)
  next
    case False
    from run_node_frame(1) [OF r this] show ?thesis
      using assms(1) by (simp add: node_frame_def log_agrees_def)
  qed
  then show ?thesis
    using assms(1) ss indexed_append [of 0 "as_steps st" ss]
    by (simp add: log_agrees_def logs_def summarize_append)
qed

interpretation log: run_invariant dp "\<lambda>_. log_agrees b" "log_agrees b" for dp b
  by unfold_locales (auto intro: run_node_log_agrees)

lemma log_agrees_start: "log_agrees b (initial_state task pre r) (make_loop dp b prices thr gate w)"
  by (simp add: log_agrees_def initial_state_def make_loop_def make_tracker_def zero_usage_def
      used_iterations_def total_tokens_def)

section \<open>The course of a run\<close>

definition at_node :: "'w deps \<Rightarrow> node \<Rightarrow> agent_state \<Rightarrow> 'w agent_loop \<Rightarrow> bool" where
  "at_node dp n st lp \<longleftrightarrow>
     (case n of
        Perceive \<Rightarrow> as_status st = STATUS_RUNNING
      | Recall \<Rightarrow> as_status st = STATUS_RUNNING
      | Plan \<Rightarrow> as_status st = STATUS_RUNNING
      | Finalize \<Rightarrow>
          as_status st = STATUS_RUNNING \<and> (\<exists>d. as_last_decision st = Some d \<and> md_kind d = FINISH)
          \<or> as_status st = STATUS_AWAITING_APPROVAL \<or> stopped dp lp st
      | SelfReview \<Rightarrow>
          as_status st = STATUS_RUNNING \<and> (\<exists>d. as_last_decision st = Some d \<and> md_kind d = FINISH)
          \<or> as_status st = STATUS_AWAITING_APPROVAL \<or> stopped dp lp st
      | _ \<Rightarrow> as_status st = STATUS_RUNNING \<and> (\<exists>d. as_last_decision st = Some d \<and> md_kind d = ACT))"

definition on_course :: "'w deps \<Rightarrow> budgets \<Rightarrow> node \<Rightarrow> agent_state \<Rightarrow> 'w agent_loop \<Rightarrow> bool" where
  "on_course dp b n st lp \<longleftrightarrow>
     at_node dp n st lp \<and> tk_budgets (al_tracker lp) = b
     \<and> 0 \<le> as_review_retries st \<and> as_review_retries st \<le> max 0 (max_review_retries b)"

text \<open>How a run may end.\<close>

definition run_end :: "'w deps \<Rightarrow> budgets \<Rightarrow> agent_state \<Rightarrow> 'w agent_loop \<Rightarrow> bool" where
  "run_end dp b st lp \<longleftrightarrow>
     (as_status st = STATUS_DONE
        \<and> (\<exists>d. as_last_decision st = Some d \<and> md_kind d = FINISH)
        \<and> (dp_is_review dp \<or> certified st)
      \<or> as_status st = STATUS_AWAITING_APPROVAL
      \<or> as_status st = STATUS_NEEDS_HUMAN_REVIEW \<and> as_abort_code st \<noteq> None
      \<or> as_status st = STATUS_ABORTED
        \<and> (\<exists>code. as_abort_code st = Some code \<and> (code \<in> outside_codes \<or> sterile dp lp)))
     \<and> as_review_retries st \<le> max 0 (max_review_retries b) + 1"

lemma stopped_status: "stopped dp lp st \<Longrightarrow> as_status st \<in> terminal_statuses"
  by (auto simp: stopped_def terminal_statuses_def)

lemma plan_keeps_course:
  assumes c: "on_course dp b Plan st lp" and r: "plan dp st lp = (st', lp')"
    and n: "next_node Plan st' = Some m"
  shows "on_course dp b m st' lp'"
proof -
  have p: "plan_result dp st lp st' lp'" by (rule plan_plan_result [OF r])
  then obtain ss where "logs st (al_tracker lp) st' (al_tracker lp') ss" by (auto simp: plan_result_def)
  then have b: "tk_budgets (al_tracker lp') = b" using c by (simp add: logs_def on_course_def)
  have sr: "as_review_retries st' = as_review_retries st"
    using p by (simp add: plan_result_def same_review_def)
  have sd: "same_deliverables lp lp'" using p by (simp add: plan_result_def)
  have run: "as_status st = STATUS_RUNNING" using c by (simp add: on_course_def at_node_def)
  have "judged dp st lp st'"
    using p by (auto simp: plan_result_def judged_def split: if_splits)
  then consider (stop) "stopped dp lp' st'" | (park) "as_status st' = STATUS_AWAITING_APPROVAL"
    | (go) d where "as_status st' = STATUS_RUNNING" "as_last_decision st' = Some d"
    using stopped_cong [OF sd, of dp st'] run by (auto simp: judged_def)
  then have "at_node dp m st' lp'"
  proof cases
    case stop
    then have "m = Finalize"
      using n stopped_status [OF stop] by (simp add: next_node_def route_after_plan_def terminal_statuses_def)
    then show ?thesis using stop by (simp add: at_node_def)
  next
    case park
    then have "m = Finalize" using n by (simp add: next_node_def route_after_plan_def)
    then show ?thesis using park by (simp add: at_node_def)
  next
    case go
    then have "m = (if md_kind d = FINISH then Finalize else Act)"
      using n by (simp add: next_node_def route_after_plan_def)
    then show ?thesis using go by (cases "md_kind d") (simp_all add: at_node_def)
  qed
  then show ?thesis using b sr c by (simp add: on_course_def)
qed

lemma sterile_frame:
  assumes "node_frame st lp st' lp'" and "stopped dp lp st" and "same_course st st'"
    and "al_has_produced lp' = al_has_produced lp" "al_has_deliverable lp' = al_has_deliverable lp"
  shows "stopped dp lp' st'"
  using assms by (simp add: stopped_def sterile_def same_course_def)

lemma finalize_stopped:
  assumes "finalize dp st lp = (st', lp')" and "as_status st \<in> terminal_statuses"
  shows "lp' = lp"
  using assms by (auto simp: finalize_def terminal_statuses_def)

lemma other_keeps_course:
  assumes c: "on_course dp b n st lp" and r: "run_node dp n st lp = (st', lp')"
    and n: "next_node n st' = Some m" and np: "n \<noteq> Plan" "n \<noteq> SelfReview"
  shows "on_course dp b m st' lp'"
proof -
  have f: "node_frame st lp st' lp'" and s: "same_course st st'"
    using run_node_frame [OF r] np by blast+
  have b: "tk_budgets (al_tracker lp') = b"
    using f c by (auto simp: node_frame_def logs_def on_course_def)
  have "at_node dp m st' lp'"
  proof (cases "n = Finalize")
    case True
    then have m: "m = SelfReview" using n by (simp add: next_node_def)
    have fin: "finalize dp st lp = (st', lp')" using r True by (simp add: run_node_def)
    have a: "at_node dp Finalize st lp" using c True by (simp add: on_course_def)
    show ?thesis
    proof (cases "stopped dp lp st")
      case True
      then have "lp' = lp" using finalize_stopped [OF fin stopped_status] by blast
      then show ?thesis using sterile_frame [OF f True s] m by (simp add: at_node_def)
    next
      case False
      then show ?thesis using a s m by (auto simp: at_node_def same_course_def)
    qed
  next
    case False
    then show ?thesis
      using c s n np
      by (cases n) (auto simp: on_course_def at_node_def next_node_def same_course_def route_after_reflect_def)
  qed
  then show ?thesis using b c s by (simp add: on_course_def same_course_def)
qed

lemma review_keeps_course:
  assumes c: "on_course dp b SelfReview st lp" and r: "self_review dp st lp = (st', lp')"
  shows "next_node SelfReview st' = Some m \<Longrightarrow> on_course dp b m st' lp'"
    and "next_node SelfReview st' = None \<Longrightarrow> run_end dp b st' lp'"
proof -
  note res = self_review_result [OF r]
  have b: "tk_budgets (al_tracker lp) = b" "tk_budgets (al_tracker lp') = b"
    using res c by (auto simp: node_frame_def logs_def on_course_def)
  have e: "review_end dp (max_review_retries b) st st'" using res b by simp
  have a: "at_node dp SelfReview st lp" using c by (simp add: on_course_def)
  have d: "as_last_decision st' = as_last_decision st" using res by blast
  have sd: "same_deliverables lp lp'" using res by blast
  have retr: "0 \<le> as_review_retries st" "as_review_retries st \<le> max 0 (max_review_retries b)"
    using c by (simp_all add: on_course_def)
  show "on_course dp b m st' lp'" if n: "next_node SelfReview st' = Some m"
  proof -
    from n have m: "m = Plan" and nt: "as_status st' \<notin> terminal_statuses" "as_review_passed st' \<noteq> Some True"
      by (auto simp: next_node_def route_after_review_def terminal_statuses_def split: if_splits)
    have "as_status st' = as_status st \<and> as_status st \<notin> terminal_statuses
        \<and> as_review_retries st' = as_review_retries st + 1 \<and> as_review_retries st' \<le> max_review_retries b"
      using e nt by (auto simp: review_end_def terminal_statuses_def certified_def)
    then show ?thesis
      using a m b retr stopped_status [of dp lp st]
      by (auto simp: on_course_def at_node_def terminal_statuses_def)
  qed
  show "run_end dp b st' lp'" if n: "next_node SelfReview st' = None"
  proof -
    have retr': "as_review_retries st' \<le> max 0 (max_review_retries b) + 1"
      using e retr by (auto simp: review_end_def)
    have end_stop: "as_status st' = STATUS_AWAITING_APPROVAL
      \<or> as_status st' = STATUS_NEEDS_HUMAN_REVIEW \<and> as_abort_code st' \<noteq> None
      \<or> as_status st' = STATUS_ABORTED
        \<and> (\<exists>code. as_abort_code st' = Some code \<and> (code \<in> outside_codes \<or> sterile dp lp'))"
      if "as_status st' = as_status st" "as_abort_code st' = as_abort_code st"
        "as_status st \<in> terminal_statuses"
      using that a stopped_cong [OF sd, of dp st']
      by (auto simp: at_node_def terminal_statuses_def stopped_def sterile_def same_deliverables_def)
    have fin: "\<exists>d. as_last_decision st' = Some d \<and> md_kind d = FINISH"
      if "as_status st \<notin> terminal_statuses"
      using that a d stopped_status [of dp lp st] by (auto simp: at_node_def terminal_statuses_def)
    consider (review) "dp_is_review dp" "as_status st = STATUS_RUNNING" "as_status st' = STATUS_DONE"
      | (keep) "as_status st' = as_status st" "as_abort_code st' = as_abort_code st" "as_status st \<in> terminal_statuses"
      | (provider) code where "as_status st' = STATUS_ABORTED" "code \<in> outside_codes" "as_abort_code st' = Some code"
      | (pass) "as_status st' = STATUS_DONE" "certified st'" "as_status st \<notin> terminal_statuses"
      | (escalate) "as_status st' = STATUS_NEEDS_HUMAN_REVIEW" "as_abort_code st' \<noteq> None"
    proof -
      have at: "as_status st = STATUS_RUNNING \<or> as_status st \<in> terminal_statuses"
        using a stopped_status [of dp lp st] by (auto simp: at_node_def terminal_statuses_def)
      have cert: "as_status st \<notin> terminal_statuses" if "certified st'" "as_status st' = STATUS_DONE"
      proof
        assume t: "as_status st \<in> terminal_statuses"
        then have "\<not> dp_is_review dp \<Longrightarrow> as_status st' = as_status st"
          using r by (auto simp: self_review_def terminal_statuses_def)
        moreover have "dp_is_review dp \<Longrightarrow> as_status st' = as_status st"
          using r t by (auto simp: self_review_def terminal_statuses_def Let_def)
        ultimately have "as_status st' = as_status st" by blast
        then show False using that t by (auto simp: terminal_statuses_def)
      qed
      have nr: False if "as_status st' = as_status st" "as_status st \<notin> terminal_statuses"
        "as_review_passed st' = Some False"
        using n that by (auto simp: next_node_def route_after_review_def terminal_statuses_def split: if_splits)
      from e that at cert nr show thesis
        unfolding review_end_def by (elim disjE conjE bexE) (auto split: if_splits)
    qed
    then show ?thesis
    proof cases
      case review
      then show ?thesis using fin retr' by (auto simp: run_end_def terminal_statuses_def)
    next
      case keep
      from end_stop [OF this] retr' show ?thesis by (auto simp: run_end_def)
    next
      case provider
      then show ?thesis using retr' by (auto simp: run_end_def)
    next
      case pass
      then show ?thesis using fin retr' by (auto simp: run_end_def)
    next
      case escalate
      then show ?thesis using retr' by (auto simp: run_end_def)
    qed
  qed
qed

interpretation course: run_invariant dp "on_course dp b" "run_end dp b" for dp b
proof
  show "on_course dp b m st' lp'"
    if "on_course dp b n st lp" "run_node dp n st lp = (st', lp')" "next_node n st' = Some m" for n st lp st' lp' m
  proof (cases "n = Plan \<or> n = SelfReview")
    case True
    then show ?thesis
      using that plan_keeps_course review_keeps_course(1) by (auto simp: run_node_def)
  next
    case False
    then show ?thesis using other_keeps_course [OF that] by blast
  qed
  show "run_end dp b st' lp'"
    if "on_course dp b n st lp" "run_node dp n st lp = (st', lp')" "next_node n st' = None" for n st lp st' lp'
  proof -
    have "n = SelfReview" using that(3) by (cases n) (auto simp: next_node_def)
    then show ?thesis using that review_keeps_course(2) by (auto simp: run_node_def)
  qed
qed

lemma on_course_start: "on_course dp b Perceive (initial_state task pre r) (make_loop dp b prices thr gate w)"
  by (simp add: on_course_def at_node_def initial_state_def make_loop_def make_tracker_def)

section \<open>Termination\<close>

text \<open>
  An upper bound of the super-steps a run still needs: four for every iteration that is
  left, and what it takes to get to the next planning turn and from there to the end.
\<close>

definition steps_left :: "budgets \<Rightarrow> node \<Rightarrow> agent_state \<Rightarrow> 'w agent_loop \<Rightarrow> nat" where
  "steps_left b n st lp =
     (let rem = 4 * nat (max_iterations b - int (used_iterations lp)) in
      case n of
        Perceive \<Rightarrow> rem + 5
      | Recall \<Rightarrow> rem + 4
      | Plan \<Rightarrow> rem + 3
      | Act \<Rightarrow> rem + 6
      | Observe \<Rightarrow> rem + 5
      | Reflect \<Rightarrow> rem + 4
      | Finalize \<Rightarrow> if as_status st \<in> terminal_statuses then 2 else rem + 5
      | SelfReview \<Rightarrow> if as_status st \<in> terminal_statuses then 1 else rem + 4)"

lemma steps_left_pos: "0 < steps_left b n st lp"
  by (cases n) (simp_all add: steps_left_def Let_def)

lemma plan_steps_left:
  assumes c: "on_course dp b Plan st lp" and r: "plan dp st lp = (st', lp')"
    and n: "next_node Plan st' = Some m"
  shows "steps_left b m st' lp' < steps_left b Plan st lp"
proof -
  have p: "plan_result dp st lp st' lp'" by (rule plan_plan_result [OF r])
  have m: "m = Finalize \<or> m = Act"
    using n by (auto simp: next_node_def route_after_plan_def split: if_splits option.splits)
  have fin: "m = Finalize" if "as_status st' \<in> terminal_statuses"
    using n that by (auto simp: next_node_def route_after_plan_def terminal_statuses_def)
  show ?thesis
  proof (cases "iteration_exhausted (al_tracker lp)")
    case True
    then have "as_status st' \<in> terminal_statuses"
      using p stopped_status by (auto simp: plan_result_def)
    then show ?thesis using fin by (simp add: steps_left_def)
  next
    case False
    then have "int (used_iterations lp) < max_iterations b"
      using c by (simp add: iteration_exhausted_def used_iterations_def on_course_def)
    moreover have "used_iterations lp' = Suc (used_iterations lp)" using p False by (simp add: plan_result_def)
    ultimately show ?thesis using m by (auto simp: steps_left_def Let_def)
  qed
qed

lemma node_steps_left:
  assumes c: "on_course dp b n st lp" and r: "run_node dp n st lp = (st', lp')"
    and n: "next_node n st' = Some m"
  shows "steps_left b m st' lp' < steps_left b n st lp"
proof (cases "n = Plan")
  case True
  then show ?thesis using plan_steps_left c r n by (simp add: run_node_def)
next
  case False
  have f: "node_frame st lp st' lp'" using run_node_frame(1) [OF r False] .
  then have u: "used_iterations lp' = used_iterations lp" by (simp add: node_frame_def)
  show ?thesis
  proof (cases "n = SelfReview")
    case True
    then have m: "m = Plan" and nt: "as_status st' \<notin> terminal_statuses" "as_review_passed st' \<noteq> Some True"
      using n by (auto simp: next_node_def route_after_review_def terminal_statuses_def split: if_splits)
    have "self_review dp st lp = (st', lp')" using r True by (simp add: run_node_def)
    from self_review_result [OF this] nt have "as_status st \<notin> terminal_statuses"
      by (auto simp: review_end_def terminal_statuses_def certified_def)
    then show ?thesis using u m True by (simp add: steps_left_def)
  next
    case sr: False
    have sc: "same_course st st'" using run_node_frame(2) [OF r False sr] .
    have refl: "n = Reflect \<Longrightarrow> m = Plan"
      using c sc n by (simp add: on_course_def at_node_def same_course_def next_node_def route_after_reflect_def)
    show ?thesis
      using n u sc False sr refl
      by (cases n) (auto simp: next_node_def steps_left_def Let_def same_course_def)
  qed
qed

lemma run_graph_returns:
  "on_course dp b n st lp \<Longrightarrow> steps_left b n st lp \<le> k \<Longrightarrow> \<exists>p. run_graph dp k n st lp = Inr p"
proof (induction k arbitrary: n st lp)
  case 0
  then show ?case using steps_left_pos [of b n st lp] by simp
next
  case (Suc k)
  obtain st1 lp1 where r: "run_node dp n st lp = (st1, lp1)" by (cases "run_node dp n st lp")
  show ?case
  proof (cases "next_node n st1")
    case None
    then show ?thesis using r by simp
  next
    case (Some m)
    have "steps_left b m st1 lp1 \<le> k"
      using node_steps_left [OF Suc.prems(1) r Some] Suc.prems(2) by simp
    from Suc.IH [OF course.keeps [OF Suc.prems(1) r Some] this] show ?thesis using r Some by simp
  qed
qed

lemma limit_suffices:
  assumes "0 \<le> max_iterations b" and "0 \<le> max_review_retries b"
  shows "steps_left b Perceive (initial_state task pre r) (make_loop dp b prices thr gate w)
           \<le> nat (recursion_limit b)"
proof -
  have "nat (recursion_limit b) = nat ((max_iterations b + max_review_retries b + 2) * 8) + 100"
    using assms by (simp add: recursion_limit_def nat_add_distrib)
  moreover have "4 * nat (max_iterations b) \<le> nat ((max_iterations b + max_review_retries b + 2) * 8)"
    using assms by simp
  ultimately show ?thesis
    by (simp add: steps_left_def make_loop_def make_tracker_def zero_usage_def used_iterations_def Let_def)
qed

text \<open>What a run that returns satisfies.\<close>

lemma run_agent_end:
  assumes "run_agent dp task b thr prices gate pre w = Inr (st, lp)"
  shows "run_end dp b st lp" and "log_agrees b st lp"
  using course.at_end [OF on_course_start assms [unfolded run_agent_def]]
    log.at_end [OF log_agrees_start assms [unfolded run_agent_def]]
  by simp_all

section \<open>The properties\<close>

text \<open>Scripts for the concrete runs: finish at once, and call a tool again and again.\<close>

definition finishing :: model_response where
  "finishing = scripted ((plain_decision FINISH)\<lparr>md_output := Some ''report''\<rparr>)"

definition calling :: "string \<Rightarrow> pydict \<Rightarrow> model_response" where
  "calling tool args = scripted ((plain_decision ACT)\<lparr>md_tool := Some tool, md_args := args\<rparr>)"

definition script_run ::
  "model_response list \<Rightarrow> review_response list \<Rightarrow> budgets
     \<Rightarrow> (graph_error, agent_state \<times> script_cursors agent_loop) result" where
  "script_run decisions reviews b =
     run_agent (scripted_deps decisions reviews) some_task b 3 None None None (0, 0)"

lemma Inr_of: "case r of Inr (st, lp) \<Rightarrow> P st lp | Inl _ \<Rightarrow> False \<Longrightarrow> \<exists>st lp. r = Inr (st, lp) \<and> P st lp"
  by (auto split: sum.splits)

text \<open>
  C5. Every run comes back: with an iteration budget and a retry budget that are not
  negative, whatever the model, the tools, the reviewer, the guardrails and the clock do, the
  graph reaches its end within the limit of super-steps it is given, and the run has a result.
\<close>

theorem agent_run_terminates:
  assumes "0 \<le> max_iterations b" and "0 \<le> max_review_retries b"
  shows "\<exists>st lp. run_agent dp task b thr prices gate pre w = Inr (st, lp)"
proof -
  from run_graph_returns [OF on_course_start limit_suffices [OF assms]]
  show ?thesis by (auto simp: run_agent_def)
qed

lemma agent_run_terminates_witness:
  "\<exists>st lp. script_run [calling ''echo'' []] [] default_budgets = Inr (st, lp)"
  unfolding script_run_def by (rule agent_run_terminates) (simp_all add: default_budgets_def)

text \<open>
  C26. A run says how it ended, and done means reviewed: the status of a finished run is
  never the running one; a run that is done finished by its own decision and, unless it is
  itself a review, its log ends with a review that passed while the agent did not report a
  failure or a partial result.
\<close>

theorem done_means_reviewed:
  assumes "run_agent dp task b thr prices gate pre w = Inr (st, lp)"
  shows "as_status st \<noteq> STATUS_RUNNING
    \<and> (as_status st = STATUS_DONE \<longrightarrow>
        (\<exists>d. as_last_decision st = Some d \<and> md_kind d = FINISH) \<and> (dp_is_review dp \<or> certified st))"
  using run_agent_end(1) [OF assms] by (auto simp: run_end_def)

lemma done_means_reviewed_witness:
  "\<exists>st lp. script_run [finishing] [] default_budgets = Inr (st, lp)
     \<and> as_status st = STATUS_DONE \<and> certified st"
proof -
  have "case script_run [finishing] [] default_budgets of
          Inr (st, lp) \<Rightarrow> as_status st = STATUS_DONE | Inl _ \<Rightarrow> False"
    by code_simp
  from Inr_of [OF this] obtain st lp where r: "script_run [finishing] [] default_budgets = Inr (st, lp)"
    and d: "as_status st = STATUS_DONE" by blast
  have "\<not> dp_is_review (scripted_deps [finishing] [])" by (simp add: scripted_deps_def)
  with done_means_reviewed [OF r [unfolded script_run_def]] r d show ?thesis by auto
qed



text \<open>
  The budgets of a run hold: it reports at most as many iterations as it was given, and
  it retries a rejected output at most as often as its retry budget allows (the rejection
  after the last retry ends it).
\<close>

theorem iterations_and_retries_bounded:
  assumes "run_agent dp task b thr prices gate pre w = Inr (st, lp)"
  shows "int (er_iterations (result_of (st, lp))) \<le> max 0 (max_iterations b)
         \<and> as_review_retries st \<le> max 0 (max_review_retries b) + 1"
  using run_agent_end [OF assms] by (simp add: run_end_def log_agrees_def result_of_def)

lemma iterations_and_retries_bounded_witness:
  "\<exists>st lp. script_run [finishing] [] default_budgets = Inr (st, lp)
     \<and> int (er_iterations (result_of (st, lp))) \<le> 25"
proof -
  have "case script_run [finishing] [] default_budgets of Inr (st, lp) \<Rightarrow> True | Inl _ \<Rightarrow> False"
    by code_simp
  from Inr_of [OF this] obtain st lp where r: "script_run [finishing] [] default_budgets = Inr (st, lp)"
    by blast
  from iterations_and_retries_bounded [OF r [unfolded script_run_def]] r show ?thesis
    by (auto simp: default_budgets_def)
qed

text \<open>
  The log and the usage of a run agree as far as they can: the steps are numbered from
  zero without a gap, and the roll-up of the log has the model calls and the tokens the
  tracker counted; of tool calls it has at least those the tracker counted.
\<close>

theorem log_matches_usage:
  assumes "run_agent dp task b thr prices gate pre w = Inr (st, lp)"
  shows "map st_index (as_steps st) = [0..<length (as_steps st)]
         \<and> cs_model_calls (summarize (as_steps st)) = model_calls (tk_usage (al_tracker lp))
         \<and> cs_total_tokens (summarize (as_steps st)) = total_tokens (tk_usage (al_tracker lp))
         \<and> tool_calls (tk_usage (al_tracker lp)) \<le> cs_tool_calls (summarize (as_steps st))"
  using run_agent_end(2) [OF assms] by (simp add: log_agrees_def indexed_def)

lemma log_matches_usage_witness:
  "\<exists>st lp. script_run [finishing] [] default_budgets = Inr (st, lp)
     \<and> cs_model_calls (summarize (as_steps st)) = 2"
proof -
  have "case script_run [finishing] [] default_budgets of
          Inr (st, lp) \<Rightarrow> model_calls (tk_usage (al_tracker lp)) = 2 | Inl _ \<Rightarrow> False"
    by code_simp
  from Inr_of [OF this] obtain st lp where r: "script_run [finishing] [] default_budgets = Inr (st, lp)"
    and m: "model_calls (tk_usage (al_tracker lp)) = 2" by blast
  from log_matches_usage [OF r [unfolded script_run_def]] r m show ?thesis by auto
qed

end
