(* ===== verification/AgentApproval.thy ===== *)
theory AgentApproval
  imports AgentRun
begin

text \<open>
  The approval gate inside the agent loop: every call of a tool in the log of a run that
  the project's policy gates was paid for with an approval of that exact call.
\<close>

section \<open>Accounting of one gate\<close>

text \<open>How many of the calls are gated and have the digest \<open>d\<close>.\<close>

definition spends :: "'w deps \<Rightarrow> approval_gate \<Rightarrow> string \<Rightarrow> tool_call list \<Rightarrow> nat" where
  "spends dp g d cs =
     length (filter (\<lambda>(t, a). is_gated (dp_set_order dp) g (Some t)
                              \<and> action_fingerprint (dp_sha dp) t (PDict a) = Some d) cs)"

text \<open>Every gated call among these has a digest.\<close>

definition gated_have_digests :: "'w deps \<Rightarrow> approval_gate \<Rightarrow> tool_call list \<Rightarrow> bool" where
  "gated_have_digests dp g cs \<longleftrightarrow>
     (\<forall>(t, a) \<in> set cs. is_gated (dp_set_order dp) g (Some t)
                        \<longrightarrow> action_fingerprint (dp_sha dp) t (PDict a) \<noteq> None)"

text \<open>From \<open>g\<close> to \<open>g'\<close> the calls \<open>cs\<close> were paid for.\<close>

definition gate_spent :: "'w deps \<Rightarrow> approval_gate \<Rightarrow> approval_gate \<Rightarrow> tool_call list \<Rightarrow> bool" where
  "gate_spent dp g g' cs \<longleftrightarrow>
     ag_policy g' = ag_policy g \<and> ag_categories g' = ag_categories g
     \<and> (\<forall>d. spends dp g d cs + ag_authorized g' d \<le> ag_authorized g d)
     \<and> gated_have_digests dp g cs"

lemma spends_simps [simp]:
  "spends dp g d [] = 0"
  "spends dp g d (cs @ ds) = spends dp g d cs + spends dp g d ds"
  by (simp_all add: spends_def)

lemma gated_have_digests_simps [simp]:
  "gated_have_digests dp g []"
  "gated_have_digests dp g (cs @ ds) \<longleftrightarrow> gated_have_digests dp g cs \<and> gated_have_digests dp g ds"
  by (auto simp: gated_have_digests_def)

lemma is_gated_cong:
  assumes "ag_policy g' = ag_policy g" "ag_categories g' = ag_categories g"
  shows "is_gated ord g' t = is_gated ord g t"
proof -
  have "gating_category ord g' x = gating_category ord g x" for x
    by (simp only: gating_category_def assms)
  then show ?thesis by (simp add: is_gated_def split: option.split)
qed

lemma gate_spent_refl [simp, intro]: "gate_spent dp g g []"
  by (simp add: gate_spent_def)

lemma gate_spent_trans:
  assumes "gate_spent dp g h cs" and "gate_spent dp h k ds"
  shows "gate_spent dp g k (cs @ ds)"
proof -
  have g: "is_gated ord h t = is_gated ord g t" for ord t
    using assms(1) by (intro is_gated_cong) (simp_all add: gate_spent_def)
  have "spends dp h d ds = spends dp g d ds" for d by (simp add: spends_def g)
  moreover have "gated_have_digests dp h ds = gated_have_digests dp g ds"
    by (simp add: gated_have_digests_def g)
  ultimately have s: "spends dp g d ds + ag_authorized k d \<le> ag_authorized h d"
    and dg: "gated_have_digests dp g ds" for d
    using assms(2) by (auto simp: gate_spent_def)
  have "spends dp g d (cs @ ds) + ag_authorized k d \<le> ag_authorized g d" for d
  proof -
    have "spends dp g d cs + ag_authorized h d \<le> ag_authorized g d"
      using assms(1) by (simp add: gate_spent_def)
    with s [of d] show ?thesis by simp
  qed
  then show ?thesis using assms dg by (simp add: gate_spent_def)
qed

lemma gate_spent_less: "gate_spent dp g g' cs \<Longrightarrow> gate_spent dp g g' []"
  by (auto simp: gate_spent_def intro: order_trans [OF le_add2])

text \<open>One review.\<close>

lemma gate_call_spent:
  assumes "gate_call dp (Some t) a lp = (c, lp')" and g: "al_gate lp = Some g"
  shows "\<exists>g'. al_gate lp' = Some g' \<and> gate_spent dp g g' (if c = None then [(t, a)] else [])"
proof -
  obtain g' where r: "gate_review (dp_set_order dp) (dp_sha dp) (Some t) (PDict a) g = (c, g')"
    and lp': "al_gate lp' = Some g'"
    using assms by (auto simp: gate_call_def split: prod.splits)
  from r have "gate_spent dp g g' (if c = None then [(t, a)] else [])"
    by (cases rule: gate_review_cases)
      (auto simp: gate_spent_def spends_def gated_have_digests_def call_digest_def)
  with lp' show ?thesis by blast
qed

lemma filter_batch_spent:
  assumes "filter_batch dp cs lp = ((kept, dropped), lp')" and "al_gate lp = Some g"
  shows "(\<exists>g'. al_gate lp' = Some g' \<and> gate_spent dp g g' kept) \<and> (dropped = [] \<longrightarrow> kept = cs)"
  using assms
proof (induction cs arbitrary: lp g kept dropped)
  case Nil
  then show ?case by auto
next
  case (Cons x cs)
  obtain t a where x: "x = (t, a)" by (cases x)
  obtain c lp1 where r: "gate_call dp (Some t) a lp = (c, lp1)" by (metis surj_pair)
  obtain k dr lp2 where f: "filter_batch dp cs lp1 = ((k, dr), lp2)" by (metis surj_pair)
  obtain g1 where g1: "al_gate lp1 = Some g1" "gate_spent dp g g1 (if c = None then [(t, a)] else [])"
    using gate_call_spent [OF r Cons.prems(2)] by blast
  have lp': "lp' = lp2" using Cons.prems(1) by (auto simp: x r f split: option.splits)
  obtain g2 where g2: "al_gate lp2 = Some g2" "gate_spent dp g1 g2 k" "dr = [] \<longrightarrow> k = cs"
    using Cons.IH [of lp1 k dr g1] f g1(1) lp' by blast
  have s: "gate_spent dp g g2 ((if c = None then [(t, a)] else []) @ k)"
    by (rule gate_spent_trans [OF g1(2) g2(2)])
  show ?case
    using Cons.prems(1) s g2 by (cases c) (auto simp: x r f)
qed

lemma filter_batch_for_approval_spent:
  assumes "filter_batch_for_approval dp d0 lp = (d, lp')" and g: "al_gate lp = Some g"
  shows "\<exists>g'. al_gate lp' = Some g' \<and> gate_spent dp g g' (md_batch d)"
proof (cases "md_batch d0 = []")
  case True
  then show ?thesis using assms by (auto simp: filter_batch_for_approval_def)
next
  case False
  obtain kept dropped lp1 where f: "filter_batch dp (md_batch d0) lp = ((kept, dropped), lp1)"
    by (metis surj_pair)
  have d: "lp' = lp1" "d = (if dropped = [] then d0 else d0\<lparr>md_batch := kept, md_dropped := dropped\<rparr>)"
    using assms False by (auto simp: filter_batch_for_approval_def f)
  from filter_batch_spent [OF f g] d show ?thesis by auto
qed

section \<open>A planning turn\<close>

lemma quiet_gate: "quiet lp lp' \<Longrightarrow> al_gate lp' = al_gate lp"
  by (rule quiet_fields)

text \<open>The main call of a decision, without a name a call of the tool that does nothing.\<close>

lemma main_call_spent:
  assumes "gate_call dp (md_tool d) (md_args d) lp = (None, lp')" and g: "al_gate lp = Some g"
    and noop: "\<not> is_gated (dp_set_order dp) g (Some ''noop'')"
  shows "\<exists>g'. al_gate lp' = Some g' \<and> gate_spent dp g g' [main_call d]"
proof (cases "md_tool d = None \<or> md_tool d = Some []")
  case True
  then have lp': "al_gate lp' = Some g" and m: "main_call d = (''noop'', md_args d)"
    using assms by (auto simp: gate_call_def gate_review_def main_call_def)
  have "gate_spent dp g g [main_call d]"
    using noop by (simp add: gate_spent_def spends_def gated_have_digests_def m)
  then show ?thesis using lp' by blast
next
  case False
  then obtain t where t: "md_tool d = Some t" "t \<noteq> []" by auto
  from gate_call_spent [OF assms(1) [unfolded t] g] show ?thesis
    using t by (auto simp: main_call_def)
qed

lemma planned_spent:
  assumes "gate_spent dp g g' (md_batch d @ [main_call d])"
  shows "gate_spent dp g g' (planned_calls d)"
proof -
  have "spends dp g e (main_call d # md_batch d) = spends dp g e (md_batch d @ [main_call d])" for e
    by (simp add: spends_def)
  moreover have "gated_have_digests dp g (main_call d # md_batch d)"
    using assms by (auto simp: gate_spent_def gated_have_digests_def)
  ultimately have "gate_spent dp g g' (main_call d # md_batch d)"
    using assms unfolding gate_spent_def by metis
  then show ?thesis using gate_spent_less [OF assms] by (simp add: planned_calls_def)
qed

definition turn_spent :: "'w deps \<Rightarrow> approval_gate \<Rightarrow> agent_state \<Rightarrow> 'w agent_loop \<Rightarrow> bool" where
  "turn_spent dp g st' lp' \<longleftrightarrow>
     (\<exists>g'. al_gate lp' = Some g' \<and> gate_spent dp g g' []
        \<and> (route_after_plan st' = Act \<longrightarrow> gate_spent dp g g' (planned_calls (acting_decision st'))))"

lemma turn_spent_stop:
  assumes "as_status st' \<in> terminal_statuses" and "al_gate lp' = Some g'" and "gate_spent dp g g' cs"
  shows "turn_spent dp g st' lp'"
  using assms gate_spent_less [OF assms(3)]
  by (auto simp: turn_spent_def route_after_plan_def terminal_statuses_def)

lemma plan_act_spent:
  assumes "plan_act dp st lp d0 ev gd ss = (st', lp')" and g: "al_gate lp = Some g"
    and noop: "\<not> is_gated (dp_set_order dp) g (Some ''noop'')"
  shows "turn_spent dp g st' lp'"
proof -
  obtain d lp1 where f: "filter_batch_for_approval dp d0 lp = (d, lp1)" by (metis surj_pair)
  define action where "action = action_val (md_tool d) (md_args d) (md_batch d)"
  obtain tripped det where r: "record_action action (al_detector lp1) = (tripped, det)" by (metis surj_pair)
  define lp2 where "lp2 = lp1\<lparr>al_detector := det, al_last_recorded := Some action\<rparr>"
  obtain category lp3 where g3: "gate_call dp (md_tool d) (md_args d) lp2 = (category, lp3)"
    by (metis surj_pair)
  obtain h where h: "al_gate lp1 = Some h" "gate_spent dp g h (md_batch d)"
    using filter_batch_for_approval_spent [OF f g] by blast
  have h2: "al_gate lp2 = Some h" using h by (simp add: lp2_def)
  have noop_h: "\<not> is_gated (dp_set_order dp) h (Some ''noop'')"
    using noop h(2) is_gated_cong [of h g] by (simp add: gate_spent_def)
  show ?thesis
  proof (cases "tripped \<and> (is_mutating_tool (md_tool d) \<or> is_failing_identically action det)")
    case True
    then have l: "loop_trip dp st lp2 d action ss = (st', lp')"
      using assms by (simp add: plan_act_def f r action_def [symmetric] lp2_def [symmetric])
    then have "lp' = lp2" "as_status st' = trip_status dp lp2"
      by (auto simp: loop_trip_def Let_def stop_run_def split: prod.splits if_splits)
    then show ?thesis
      using h h2 by (intro turn_spent_stop [of st' lp' h dp g "md_batch d"])
        (auto simp: terminal_statuses_def trip_status_def abort_or_escalate_status_def)
  next
    case False
    show ?thesis
    proof (cases category)
      case None
      then have c: "st' = plan_commit st lp3 d ev gd ss" "lp' = lp3"
        using assms False
        by (auto simp: plan_act_def f r g3 action_def [symmetric] lp2_def [symmetric] Let_def)
      obtain g' where g': "al_gate lp3 = Some g'" "gate_spent dp h g' [main_call d]"
        using main_call_spent [OF g3 [unfolded None] h2 noop_h] by blast
      have s: "gate_spent dp g g' (md_batch d @ [main_call d])"
        by (rule gate_spent_trans [OF h(2) g'(2)])
      have "acting_decision st' = d" by (simp add: c plan_commit_def Let_def acting_decision_def)
      then show ?thesis
        using g' c planned_spent [OF s] gate_spent_less [OF s] by (auto simp: turn_spent_def)
    next
      case (Some cat)
      have c: "st' = park_run st lp3 d \<lparr>ai_category = cat, ai_tool = md_tool d, ai_args = md_args d\<rparr>
              (emit (length (as_steps st)) ss Plan (StepRun STATUS_AWAITING_APPROVAL)
                 (NodeStep (AwaitingApproval (md_tool d) cat)))" "lp' = lp3"
        using assms False Some
        by (auto simp: plan_act_def f r g3 action_def [symmetric] lp2_def [symmetric] Let_def)
      obtain t where t: "md_tool d = Some t"
        using g3 Some h2 by (cases "md_tool d") (auto simp: gate_call_def gate_review_def)
      obtain g' where g': "al_gate lp3 = Some g'" "gate_spent dp h g' []"
        using gate_call_spent [OF g3 [unfolded t Some] h2] by auto
      from gate_spent_trans [OF h(2) g'(2)] g'(1) show ?thesis
        using c by (intro turn_spent_stop [of st' lp' g' dp g "md_batch d @ []"])
          (auto simp: terminal_statuses_def park_run_def)
    qed
  qed
qed

lemma plan_trip_spent:
  assumes "plan_trip dp st lp code x ss = (st', lp')" and "al_gate lp = Some g"
  shows "turn_spent dp g st' lp'"
  using assms stopped_status [OF plan_trip_stopped [OF assms(1)]]
  by (intro turn_spent_stop [of st' lp' g dp g "[]"]) (auto simp: plan_trip_def Let_def count_safeguard_def)

lemma plan_decided_spent:
  assumes "plan_decided dp st lp resp pre gd ss = (st', lp')" and g: "al_gate lp = Some g"
    and noop: "\<not> is_gated (dp_set_order dp) g (Some ''noop'')"
  shows "turn_spent dp g st' lp'"
proof -
  define lp1 where "lp1 = lp\<lparr>al_tracker := record_model_call (mr_tokens_in resp) (mr_tokens_out resp)
                              (mr_cost_usd resp) (al_tracker lp)\<rparr>"
  obtain post lp2 where p: "screen_response dp (mr_decision resp) lp1 = (post, lp2)" by (metis surj_pair)
  have g2: "al_gate lp2 = Some g"
    using g quiet_gate [OF quiet_screen_response [OF p]] by (simp add: lp1_def)
  define d1 where "d1 = (if blocked_types post \<noteq> []
      then to_noop (blocked_answer_reason (blocked_types post)) (mr_decision resp) else mr_decision resp)"
  obtain d2 park where k: "park_ask_human dp d1 = (d2, park)" by (metis surj_pair)
  obtain ss1 where e: "plan_decided dp st lp resp pre gd ss =
      (if al_assess_stuck_streak lp2 \<ge> 2
       then plan_trip dp st lp2 REFLECTION_STALLED (Tripped REFLECTION_STALLED) ss1
       else
         case park_ask_human dp d1 of
           (d2, Some (question, info)) \<Rightarrow>
             (park_run st lp2 d2 info
                (emit (length (as_steps st)) ss1 Plan (StepRun STATUS_AWAITING_APPROVAL)
                   (NodeStep (AwaitingAnswer (take 120 question)))), lp2)
         | (d2, None) \<Rightarrow>
             if md_kind d2 = ACT then plan_act dp st lp2 d2 (pre @ post) gd ss1
             else (plan_commit st lp2 d2 (pre @ post) gd ss1, lp2))"
    unfolding plan_decided_def Let_def p [unfolded lp1_def] d1_def by simp
  consider (stall) "plan_trip dp st lp2 REFLECTION_STALLED (Tripped REFLECTION_STALLED) ss1 = (st', lp')"
    | (park) info ss2 where "st' = park_run st lp2 d2 info ss2" "lp' = lp2"
    | (act) "plan_act dp st lp2 d2 (pre @ post) gd ss1 = (st', lp')"
    | (finish) "md_kind d2 = FINISH" "st' = plan_commit st lp2 d2 (pre @ post) gd ss1" "lp' = lp2"
  proof (cases "al_assess_stuck_streak lp2 \<ge> 2")
    case True
    have "plan_trip dp st lp2 REFLECTION_STALLED (Tripped REFLECTION_STALLED) ss1 = (st', lp')"
      unfolding assms(1) [symmetric] e using True by simp
    then show thesis by (rule stall)
  next
    case False
    show thesis
    proof (cases park)
      case (Some qi)
      obtain q info where qi: "qi = (q, info)" by (cases qi)
      have "(st', lp') = (park_run st lp2 d2 info
                (emit (length (as_steps st)) ss1 Plan (StepRun STATUS_AWAITING_APPROVAL)
                   (NodeStep (AwaitingAnswer (take 120 q)))), lp2)"
        unfolding assms(1) [symmetric] e using False by (simp add: k Some qi)
      then show thesis by (intro park) auto
    next
      case None
      show thesis
      proof (cases "md_kind d2 = ACT")
        case True
        have "plan_act dp st lp2 d2 (pre @ post) gd ss1 = (st', lp')"
          unfolding assms(1) [symmetric] e using False True by (simp add: k None)
        then show thesis by (rule act)
      next
        case ne: False
        then have "md_kind d2 = FINISH" by (cases "md_kind d2") simp_all
        moreover have "(st', lp') = (plan_commit st lp2 d2 (pre @ post) gd ss1, lp2)"
          unfolding assms(1) [symmetric] e using False ne by (simp add: k None)
        ultimately show thesis by (intro finish) auto
      qed
    qed
  qed
  then show ?thesis
  proof cases
    case stall
    then show ?thesis using g2 by (rule plan_trip_spent)
  next
    case park
    then show ?thesis
      using g2 by (intro turn_spent_stop [of st' lp' g dp g "[]"]) (auto simp: terminal_statuses_def park_run_def)
  next
    case act
    then show ?thesis using g2 noop by (rule plan_act_spent)
  next
    case finish
    then have "route_after_plan st' = Finalize"
      by (simp add: route_after_plan_def plan_commit_def Let_def)
    then show ?thesis using g2 finish by (auto simp: turn_spent_def)
  qed
qed

lemma plan_spent:
  assumes "plan dp st lp = (st', lp')" and g: "al_gate lp = Some g"
    and noop: "\<not> is_gated (dp_set_order dp) g (Some ''noop'')"
  shows "turn_spent dp g st' lp'"
proof -
  define lp1 where "lp1 = lp\<lparr>al_tracker := tick_iteration (al_tracker lp)\<rparr>"
  have g1: "al_gate lp1 = Some g" using g by (simp add: lp1_def)
  consider (trip) code x lp0 where "plan_trip dp st lp0 code x [] = (st', lp')" "al_gate lp0 = Some g"
    | (research) "research_trip dp st lp1 = (st', lp')"
    | (turn) "plan_turn dp st lp1 = (st', lp')"
    using assms(1) g g1
    by (auto simp: plan_def lp1_def [symmetric] Let_def split: if_splits option.splits)
  then show ?thesis
  proof cases
    case trip
    then show ?thesis by (rule plan_trip_spent)
  next
    case research
    then have "al_gate lp' = Some g"
      using g1 by (auto simp: research_trip_def Let_def count_safeguard_def split: prod.splits if_splits)
    then show ?thesis
      using stopped_status [OF research_trip_stopped [OF research]]
      by (intro turn_spent_stop [of st' lp' g dp g "[]"]) auto
  next
    case turn
    obtain gd lp2 where p: "poll_human_guidance dp lp1 = (gd, lp2)" by (metis surj_pair)
    obtain pre lp3 where s: "screen_prompt dp st lp2 = (pre, lp3)" by (metis surj_pair)
    have g3: "al_gate lp3 = Some g"
      using g1 quiet_gate [OF quiet_trans [OF quiet_poll [OF p] quiet_screen_prompt [OF s]]] by simp
    obtain r w where d: "dp_decide dp st (al_world lp3) = (r, w)" by (metis surj_pair)
    consider (stop) "as_status st' = STATUS_ABORTED" "al_gate lp' = Some g"
      | (decided) resp ss where "plan_decided dp st (lp3\<lparr>al_world := w\<rparr>) resp pre gd ss = (st', lp')"
      using turn g3
      by (cases "blocked_types pre = []"; cases r)
        (auto simp: plan_turn_def p s d Let_def stop_run_def)
    then show ?thesis
    proof cases
      case stop
      then show ?thesis
        by (intro turn_spent_stop [of st' lp' g dp g "[]"]) (auto simp: terminal_statuses_def)
    next
      case decided
      then show ?thesis using g3 noop by (intro plan_decided_spent [OF decided]) simp_all
    qed
  qed
qed

section \<open>A run\<close>

definition calls_at :: "node \<Rightarrow> agent_state \<Rightarrow> tool_call list" where
  "calls_at n st =
     tool_calls_of (as_steps st) @ (if n = Act then planned_calls (acting_decision st) else [])"

definition accounted :: "'w deps \<Rightarrow> approval_gate \<Rightarrow> node \<Rightarrow> agent_state \<Rightarrow> 'w agent_loop \<Rightarrow> bool" where
  "accounted dp g n st lp \<longleftrightarrow>
     (\<exists>g'. al_gate lp = Some g' \<and> gate_spent dp g g' (calls_at n st))"

lemma node_accounted:
  assumes noop: "\<not> is_gated (dp_set_order dp) g (Some ''noop'')" and a: "accounted dp g n st lp"
    and r: "run_node dp n st lp = (st', lp')"
  shows "\<exists>g'. al_gate lp' = Some g' \<and> gate_spent dp g g' (tool_calls_of (as_steps st'))
           \<and> (next_node n st' = Some Act \<longrightarrow> gate_spent dp g g' (calls_at Act st'))"
proof -
  obtain h where h: "al_gate lp = Some h" "gate_spent dp g h (calls_at n st)"
    using a by (auto simp: accounted_def)
  show ?thesis
  proof (cases "n = Plan")
    case True
    then have p: "plan dp st lp = (st', lp')" using r by (simp add: run_node_def)
    have same: "tool_calls_of (as_steps st') = tool_calls_of (as_steps st)"
      using plan_plan_result [OF p] by (auto simp: plan_result_def logs_def)
    have noop_h: "\<not> is_gated (dp_set_order dp) h (Some ''noop'')"
      using noop h(2) is_gated_cong [of h g] by (simp add: gate_spent_def)
    obtain g' where g': "al_gate lp' = Some g'" "gate_spent dp h g' []"
      "route_after_plan st' = Act \<longrightarrow> gate_spent dp h g' (planned_calls (acting_decision st'))"
      using plan_spent [OF p h(1) noop_h] by (auto simp: turn_spent_def)
    have c: "calls_at n st = tool_calls_of (as_steps st)" using True by (simp add: calls_at_def)
    have "gate_spent dp g g' (tool_calls_of (as_steps st'))"
      using gate_spent_trans [OF h(2) g'(2)] by (simp add: c same)
    moreover have "gate_spent dp g g' (calls_at Act st')" if "next_node n st' = Some Act"
      using that g'(3) gate_spent_trans [OF h(2), of g' "planned_calls (acting_decision st')"] True
      by (simp add: next_node_def c calls_at_def same)
    ultimately show ?thesis using g'(1) by blast
  next
    case False
    have "al_gate lp' = Some h" using run_node_frame(1) [OF r False] h by (simp add: node_frame_def)
    moreover have "gate_spent dp g h (tool_calls_of (as_steps st'))"
      using h(2) run_node_frame(3) [OF r False] by (simp add: calls_at_def)
    moreover have "next_node n st' \<noteq> Some Act"
      using False by (cases n) (auto simp: next_node_def route_after_reflect_def route_after_review_def)
    ultimately show ?thesis by blast
  qed
qed

lemma accounted_invariant:
  assumes "\<not> is_gated (dp_set_order dp) g (Some ''noop'')"
  shows "run_invariant dp (accounted dp g)
           (\<lambda>st lp. \<exists>g'. al_gate lp = Some g' \<and> gate_spent dp g g' (tool_calls_of (as_steps st)))"
proof
  show "accounted dp g m st' lp'"
    if "accounted dp g n st lp" "run_node dp n st lp = (st', lp')" "next_node n st' = Some m" for n st lp st' lp' m
    using node_accounted [OF assms that(1,2)] that(3)
    by (cases "m = Act") (auto simp: accounted_def calls_at_def)
  show "\<exists>g'. al_gate lp' = Some g' \<and> gate_spent dp g g' (tool_calls_of (as_steps st'))"
    if "accounted dp g n st lp" "run_node dp n st lp = (st', lp')" "next_node n st' = None" for n st lp st' lp'
    using node_accounted [OF assms that(1,2)] by blast
qed

lemma accounted_start:
  "accounted dp g Perceive (initial_state task pre r) (make_loop dp b prices thr (Some g) w)"
  by (simp add: accounted_def calls_at_def initial_state_def make_loop_def)

lemma run_gate_spent:
  assumes "run_agent dp task b thr prices (Some g) pre w = Inr (st, lp)"
    and "\<not> is_gated (dp_set_order dp) g (Some ''noop'')"
  shows "\<exists>g'. gate_spent dp g g' (tool_calls_of (as_steps st))"
  using run_invariant.at_end [OF accounted_invariant [OF assms(2)] accounted_start assms(1) [unfolded run_agent_def]]
  by blast

text \<open>A gated call among paid ones has a digest, and an approval of it was spent.\<close>

lemma gate_spent_paid:
  assumes s: "gate_spent dp g g' cs" and c: "(t, a) \<in> set cs" "is_gated (dp_set_order dp) g (Some t)"
  shows "\<exists>d. action_fingerprint (dp_sha dp) t (PDict a) = Some d \<and> 0 < ag_authorized g d"
proof -
  have "action_fingerprint (dp_sha dp) t (PDict a) \<noteq> None"
    using s c unfolding gate_spent_def gated_have_digests_def by fast
  then obtain d where d: "action_fingerprint (dp_sha dp) t (PDict a) = Some d" by blast
  have "(t, a) \<in> set (filter (\<lambda>(t, a). is_gated (dp_set_order dp) g (Some t)
                            \<and> action_fingerprint (dp_sha dp) t (PDict a) = Some d) cs)"
    using c d by simp
  then have "0 < spends dp g d cs" unfolding spends_def by (rule length_pos_if_in_set)
  moreover have "spends dp g d cs + ag_authorized g' d \<le> ag_authorized g d"
    using s by (simp add: gate_spent_def)
  ultimately show ?thesis using d by auto
qed

lemma gate_spent_le: "gate_spent dp g g' cs \<Longrightarrow> spends dp g d cs \<le> ag_authorized g d"
  by (auto simp: gate_spent_def dest!: spec [of _ d])

text \<open>
  Nothing gated runs without its approval: in the log of every finished run, each call of
  a tool whose category the policy gives to a human has a fingerprint, and there are at most
  as many such calls with a given fingerprint, in the main calls and in the read-only batches
  together, as approvals of it the run was handed (provided the tool that does nothing, which
  stands in for a decision without a tool, is not itself gated).
\<close>

theorem gated_calls_were_approved:
  assumes run: "run_agent dp task b thr prices (Some (make_gate policy cats approved)) pre w = Inr (st, lp)"
    and noop: "\<not> is_gated (dp_set_order dp) (make_gate policy cats approved) (Some ''noop'')"
  shows "(\<forall>(t, a) \<in> set (tool_calls_of (as_steps st)).
            is_gated (dp_set_order dp) (make_gate policy cats approved) (Some t) \<longrightarrow>
              (\<exists>d. action_fingerprint (dp_sha dp) t (PDict a) = Some d \<and> 0 < count_digests approved d))
         \<and> (\<forall>d. spends dp (make_gate policy cats approved) d (tool_calls_of (as_steps st))
                \<le> count_digests approved d)"
proof -
  define g where "g = make_gate policy cats approved"
  have auth: "ag_authorized g d = count_digests approved d" for d by (simp add: g_def make_gate_def)
  obtain g' where s: "gate_spent dp g g' (tool_calls_of (as_steps st))"
    using run_gate_spent [OF run noop] by (auto simp: g_def)
  show ?thesis
    using gate_spent_paid [OF s] gate_spent_le [OF s] unfolding auth unfolding g_def by fast
qed

definition echo_policy :: pydict where
  "echo_policy = [(''categories'', PDict [(''code_changes'', PStr ''human_required'')])]"

definition echo_approval :: pydict where
  "echo_approval =
     [(''args_hash'', PStr (case action_fingerprint (\<lambda>s. s) ''echo'' (PDict []) of Some d \<Rightarrow> d | None \<Rightarrow> []))]"

lemma gated_calls_were_approved_witness:
  "\<exists>st lp. run_agent (scripted_deps [calling ''echo'' [], finishing] []) some_task default_budgets 3 None
             (Some (make_gate (Some echo_policy) [(''echo'', ''code_changes'')] [echo_approval])) None (0, 0)
           = Inr (st, lp)
         \<and> (''echo'', []) \<in> set (tool_calls_of (as_steps st))
         \<and> 0 < count_digests [echo_approval] (entry_digest echo_approval)"
proof -
  define g where "g = make_gate (Some echo_policy) [(''echo'', ''code_changes'')] [echo_approval]"
  define run where "run = run_agent (scripted_deps [calling ''echo'' [], finishing] []) some_task default_budgets 3 None
             (Some g) None (0, 0)"
  have "case run of Inr (st, lp) \<Rightarrow> tool_calls_of (as_steps st) = [(''echo'', [])] | Inl _ \<Rightarrow> False"
    unfolding run_def g_def by code_simp
  from Inr_of [OF this] obtain st lp where r: "run = Inr (st, lp)"
    and cs: "tool_calls_of (as_steps st) = [(''echo'', [])]" by blast
  have gated: "is_gated (\<lambda>ns. ns) g (Some ''echo'')" and noop: "\<not> is_gated (\<lambda>ns. ns) g (Some ''noop'')"
    unfolding g_def by code_simp+
  have ord: "dp_set_order (scripted_deps ds rs) = (\<lambda>ns. ns)" "dp_sha (scripted_deps ds rs) = (\<lambda>s. s)" for ds rs
    by (simp_all add: scripted_deps_def)
  have fp: "action_fingerprint (\<lambda>s. s) ''echo'' (PDict []) = Some (entry_digest echo_approval)"
    by code_simp
  from gated_calls_were_approved [OF r [unfolded run_def g_def]] noop
  have "\<exists>d. action_fingerprint (\<lambda>s. s) ''echo'' (PDict []) = Some d \<and> 0 < count_digests [echo_approval] d"
    using gated by (simp add: ord cs g_def)
  then show ?thesis using r cs by (auto simp: run_def g_def fp)
qed

end
