(* ===== verification/ApprovalEngine.thy ===== *)
theory ApprovalEngine
  imports Executions ApprovalGate GuardChecks TaskBoard
begin

text \<open>
  The requests for a human's approval on the server,
  \<^verbatim>\<open>apps/api-server/src/api_server/db/approval_repo.py\<close>: opening one when a run
  parks, claiming it, resolving it, expiring it, and the approvals a later run of the same
  task is handed. Its rows, the runs and the tasks they stop and the audit are one state;
  each database statement is a step of its own where two sessions can interleave. Instants
  are seconds. Parameters: the hash \<open>sha\<close> of a fingerprint and the wording of the
  reasons.
\<close>

section \<open>State\<close>

record approval_row = approval_request +
  aq_id :: nat
  aq_tenant :: string
  aq_task :: string
  aq_project :: string
  aq_category :: string
  aq_action :: pyval
  aq_requested_at :: instant
  aq_resolved_by :: "string option"

record engine_task =
  et_id :: string
  et_tenant :: string
  et_status :: task_status
  et_agent :: "string option"
  et_retry_count :: "int option"
  et_max_retries :: "int option"
  et_project :: string
  et_plan :: "string option"
  et_spec_id :: pyval
  et_reviewer :: "string option"
  et_claim :: "string option"
  et_started_at :: "instant option"
  et_completed_at :: "instant option"

record capped_event =
  ce_task :: string
  ce_retry_count :: int
  ce_max_retries :: int
  ce_category :: string
  ce_tool :: string
  ce_repeats :: nat

record engine =
  en_requests :: "approval_row list"
  en_execs :: executions
  en_tasks :: "engine_task list"
  en_audit :: "capped_event list"

definition update_request :: "nat \<Rightarrow> (approval_row \<Rightarrow> approval_row) \<Rightarrow> engine \<Rightarrow> engine" where
  "update_request i f en =
     en\<lparr>en_requests := map (\<lambda>q. if aq_id q = i then f q else q) (en_requests en)\<rparr>"

definition update_exec :: "nat \<Rightarrow> (execution \<Rightarrow> execution) \<Rightarrow> engine \<Rightarrow> engine" where
  "update_exec i f en = en\<lparr>en_execs := update_row i f (en_execs en)\<rparr>"

definition update_engine_task :: "string \<Rightarrow> (engine_task \<Rightarrow> engine_task) \<Rightarrow> engine \<Rightarrow> engine" where
  "update_engine_task i f en =
     en\<lparr>en_tasks := map (\<lambda>t. if et_id t = i then f t else t) (en_tasks en)\<rparr>"

definition get_request :: "engine \<Rightarrow> nat \<Rightarrow> approval_row option" where
  "get_request en i = find (\<lambda>q. aq_id q = i) (en_requests en)"

definition get_task :: "engine \<Rightarrow> string \<Rightarrow> engine_task option" where
  "get_task en i = find (\<lambda>t. et_id t = i) (en_tasks en)"

section \<open>The window of a request\<close>

definition default_timeout_hours :: rat where "default_timeout_hours = 24"
definition min_timeout_hours :: rat where "min_timeout_hours = 1 / 4"
definition max_timeout_hours :: rat where "max_timeout_hours = 720"

text \<open>\<^verbatim>\<open>float(raw)\<close>: an integer too large for a double raises, and nothing catches it.\<close>

definition get_approval_timeout_hours :: "pyval \<Rightarrow> (string, rat) result" where
  "get_approval_timeout_hours raw =
     (let number = (case raw of PBool b \<Rightarrow> Inr (Some (Finite (if b then 1 else 0))) | _ \<Rightarrow> coerce_float raw)
      in bindr number (\<lambda>n. Inr
           (case n of
              Some (Finite h) \<Rightarrow> max min_timeout_hours (min max_timeout_hours h)
            | _ \<Rightarrow> default_timeout_hours)))"

section \<open>What was approved before\<close>

definition approved_actions_max :: nat where "approved_actions_max = 20"
definition prior_approvals_scan :: nat where "prior_approvals_scan = 50"

definition tool_and_args :: "pyval \<Rightarrow> string \<times> pyval" where
  "tool_and_args action =
     (case action of
        PDict d \<Rightarrow> (py_str (py_or (dget d ''tool'') (PStr [])), dget d ''args'')
      | _ \<Rightarrow> ([], PNone))"

text \<open>
  The query for the approved requests of a task: newest first, a missing time before all
  others as the database sorts it, rows of one instant in the order of the table.
\<close>

definition is_approval_of :: "string \<Rightarrow> string \<Rightarrow> approval_row \<Rightarrow> bool" where
  "is_approval_of task tenant q \<longleftrightarrow>
     aq_task q = task \<and> aq_tenant q = tenant \<and> q_status q = Q_APPROVED
     \<and> aq_category q \<noteq> human_question_category"

definition newest_first :: "approval_row list \<Rightarrow> approval_row list" where
  "newest_first qs =
     filter (\<lambda>q. q_resolved_at q = None) qs
     @ sort_key (\<lambda>q. - int (the (q_resolved_at q))) (filter (\<lambda>q. q_resolved_at q \<noteq> None) qs)"

definition approved_requests_of_task :: "engine \<Rightarrow> string \<Rightarrow> string \<Rightarrow> nat \<Rightarrow> approval_row list" where
  "approved_requests_of_task en task tenant limit =
     take limit (newest_first (filter (is_approval_of task tenant) (en_requests en)))"

definition row_digest :: "(string \<Rightarrow> string) \<Rightarrow> approval_row \<Rightarrow> string option" where
  "row_digest sha q = (let (tool, args) = tool_and_args (aq_action q) in action_fingerprint sha tool args)"

text \<open>One entry; the printed time of the resolution, which nothing reads, is left out.\<close>

definition approved_entry :: "(string \<Rightarrow> string) \<Rightarrow> approval_row \<Rightarrow> pydict option" where
  "approved_entry sha q =
     map_option (\<lambda>d. [(''tool'', PStr (canonical_tool_key (fst (tool_and_args (aq_action q))))),
                       (''args_hash'', PStr d), (''category'', PStr (aq_category q))])
       (row_digest sha q)"

definition read_approved_actions ::
  "(string \<Rightarrow> string) \<Rightarrow> engine \<Rightarrow> string \<Rightarrow> string \<Rightarrow> nat \<Rightarrow> pydict list" where
  "read_approved_actions sha en task tenant limit =
     List.map_filter (approved_entry sha) (approved_requests_of_task en task tenant limit)"

section \<open>What the reviewer is shown\<close>

definition shorten :: "string \<Rightarrow> pyval" where
  "shorten s = PStr (if length s > 400 then take 400 s @ [ellipsis] else s)"

definition render_value :: "pyval \<Rightarrow> pyval" where
  "render_value v =
     (case v of PStr s \<Rightarrow> shorten s | PList _ \<Rightarrow> shorten (repr v) | PDict _ \<Rightarrow> shorten (repr v) | _ \<Rightarrow> v)"

definition delta_entry :: "pyval \<Rightarrow> pyval \<Rightarrow> pyval" where
  "delta_entry before after = PDict [(''before'', render_value before), (''after'', render_value after)]"

definition changed_args :: "pyval \<Rightarrow> pyval \<Rightarrow> pydict" where
  "changed_args prior current =
     (case (prior, current) of
        (PDict p, PDict c) \<Rightarrow>
          map (\<lambda>k. (k, delta_entry (dget p k) (dget c k)))
            (filter (\<lambda>k. \<not> (py_eq (dget p k) (dget c k) \<and> k \<in> fst ` set p \<and> k \<in> fst ` set c))
               (sort (remdups (map fst p @ map fst c))))
      | _ \<Rightarrow> if py_eq prior current then [] else [([], delta_entry prior current)])"

fun prior_loop ::
  "(string \<Rightarrow> string) \<Rightarrow> string \<Rightarrow> string option \<Rightarrow> pyval \<Rightarrow> approval_row list \<Rightarrow> nat \<Rightarrow> pydict option
     \<Rightarrow> nat \<times> pydict option" where
  "prior_loop sha key digest args [] exact closest = (exact, closest)"
| "prior_loop sha key digest args (q # qs) exact closest =
     (let (tool, prior) = tool_and_args (aq_action q) in
      if canonical_tool_key tool \<noteq> key then prior_loop sha key digest args qs exact closest
      else if digest \<noteq> None \<and> row_digest sha q = digest
      then prior_loop sha key digest args qs (Suc exact) closest
      else prior_loop sha key digest args qs exact
             (case closest of
                Some c \<Rightarrow> Some c
              | None \<Rightarrow> Some [(''request_id'', PInt (int (aq_id q))), (''args'', prior),
                              (''changed_args'', PDict (changed_args prior args))]))"

definition prior_approval_context ::
  "(string \<Rightarrow> string) \<Rightarrow> engine \<Rightarrow> string \<Rightarrow> string \<Rightarrow> string \<Rightarrow> pyval \<Rightarrow> pydict option" where
  "prior_approval_context sha en task tenant tool args =
     (let key = canonical_tool_key tool in
      if key = [] then None
      else
        let (exact, closest) =
              prior_loop sha key (action_fingerprint sha tool args) args
                (approved_requests_of_task en task tenant prior_approvals_scan) 0 None
        in if exact = 0 \<and> closest = None then None
           else Some [(''same_action_approved_times'', PInt (int exact)),
                      (''closest_prior'', case closest of Some c \<Rightarrow> PDict c | None \<Rightarrow> PNone)])"

section \<open>Opening a request\<close>

definition srv_unlisted_category_reason :: "pydict option \<Rightarrow> string \<Rightarrow> unlisted_why option" where
  "srv_unlisted_category_reason policy category =
     (case policy of
        None \<Rightarrow> None
      | Some p \<Rightarrow>
          if p = [] then None
          else if map_of (srv_policy_categories p) category \<noteq> None then None
          else let (decision, why) = srv_unlisted_decision p
               in if decision \<noteq> ''human_required'' then None else Some why)"

text \<open>The wording of the reasons, and the printed number of hours.\<close>

record wording =
  say_unlisted :: "string \<Rightarrow> unlisted_why \<Rightarrow> string"
  say_hours :: "rat \<Rightarrow> string"

definition with_key :: "string \<Rightarrow> pyval \<Rightarrow> pydict \<Rightarrow> pydict" where
  "with_key k v d = AList.update k v d"

definition annotated_action ::
  "(string \<Rightarrow> string) \<Rightarrow> wording \<Rightarrow> engine \<Rightarrow> string \<Rightarrow> string \<Rightarrow> pydict option \<Rightarrow> string \<Rightarrow> pydict \<Rightarrow> pydict" where
  "annotated_action sha wd en task tenant policy category action =
     (let action1 = (case srv_unlisted_category_reason policy category of
                       Some why \<Rightarrow> with_key ''gate_reason'' (PStr (say_unlisted wd category why)) action
                     | None \<Rightarrow> action)
      in if category = human_question_category then action1
         else
           let (tool, args) = tool_and_args (PDict action1)
           in case prior_approval_context sha en task tenant tool args of
                Some c \<Rightarrow> with_key ''prior_approvals'' (PDict c) action1
              | None \<Rightarrow> action1)"

text \<open>
  The run that parks, its tenant and its project are arguments; \<open>raw\<close> is the policy on the
  project's row, \<open>policy\<close> the one the run was started with, when the caller passes it.
\<close>

definition request_approval_if_needed ::
  "(string \<Rightarrow> string) \<Rightarrow> wording \<Rightarrow> instant \<Rightarrow> execution \<Rightarrow> string \<Rightarrow> string \<Rightarrow> pydict option
     \<Rightarrow> pydict option \<Rightarrow> string \<Rightarrow> pydict \<Rightarrow> engine \<Rightarrow> approval_row option \<times> engine" where
  "request_approval_if_needed sha wd now e tenant project raw policy category action en =
     (let effective = (case policy of None \<Rightarrow> raw | Some p \<Rightarrow> Some p) in
      if \<not> requires_human_approval effective category then (None, en)
      else
        let q = \<lparr>q_execution = ex_id e, q_status = Q_PENDING, q_resolved_at = None, q_reason = None,
                 aq_id = length (en_requests en), aq_tenant = tenant, aq_task = ex_task e,
                 aq_project = project, aq_category = category,
                 aq_action = PDict (annotated_action sha wd en (ex_task e) tenant effective category action),
                 aq_requested_at = now, aq_resolved_by = None\<rparr>;
            en1 = update_exec (ex_id e) (\<lambda>e. e\<lparr>ex_status := X_AWAITING_HUMAN_APPROVAL\<rparr>)
                    (en\<lparr>en_requests := en_requests en @ [q]\<rparr>)
        in (Some q,
            update_engine_task (ex_task e)
              (\<lambda>t. if et_status t \<noteq> T_AWAITING_HUMAN_APPROVAL
                   then t\<lparr>et_status := T_AWAITING_HUMAN_APPROVAL, et_agent := None\<rparr> else t) en1))"

section \<open>Closing a request\<close>

definition claim_pending_approval ::
  "nat \<Rightarrow> request_status \<Rightarrow> instant \<Rightarrow> string option \<Rightarrow> string option \<Rightarrow> engine \<Rightarrow> bool \<times> engine" where
  "claim_pending_approval i new now resolver why en =
     (case get_request en i of
        None \<Rightarrow> (False, en)
      | Some q \<Rightarrow>
          if q_status q \<noteq> Q_PENDING then (False, en)
          else (True, update_request i (\<lambda>q. q\<lparr>q_status := new, q_resolved_at := Some now,
                                               aq_resolved_by := resolver, q_reason := why\<rparr>) en))"

definition spent_count :: "engine_task \<Rightarrow> int" where
  "spent_count t = (case et_retry_count t of Some n \<Rightarrow> n | None \<Rightarrow> 0)"

definition retry_limit :: "engine_task \<Rightarrow> int" where
  "retry_limit t = (case et_max_retries t of Some n \<Rightarrow> n | None \<Rightarrow> 3)"

definition same_action_repeats :: "(string \<Rightarrow> string) \<Rightarrow> engine \<Rightarrow> engine_task \<Rightarrow> approval_row \<Rightarrow> nat" where
  "same_action_repeats sha en t q =
     (case row_digest sha q of
        None \<Rightarrow> 0
      | Some d \<Rightarrow>
          length (filter (\<lambda>r. aq_id r \<noteq> aq_id q \<and> row_digest sha r = Some d)
                    (approved_requests_of_task en (et_id t) (et_tenant t) prior_approvals_scan)))"

definition spend_retry_or_block :: "(string \<Rightarrow> string) \<Rightarrow> engine_task \<Rightarrow> approval_row \<Rightarrow> engine \<Rightarrow> engine" where
  "spend_retry_or_block sha t q en =
     (if aq_category q = human_question_category
      then update_engine_task (et_id t) (\<lambda>t. t\<lparr>et_status := T_BACKLOG\<rparr>) en
      else
        let count = spent_count t + 1 in
        if count < retry_limit t
        then update_engine_task (et_id t) (\<lambda>t. t\<lparr>et_retry_count := Some count, et_status := T_BACKLOG\<rparr>) en
        else
          let en1 = update_engine_task (et_id t) (\<lambda>t. t\<lparr>et_retry_count := Some count, et_status := T_BLOCKED\<rparr>) en
          in en1\<lparr>en_audit := en_audit en1 @
                 [\<lparr>ce_task = et_id t, ce_retry_count = count, ce_max_retries = retry_limit t,
                   ce_category = aq_category q,
                   ce_tool = canonical_tool_key (fst (tool_and_args (aq_action q))),
                   ce_repeats = same_action_repeats sha en t q\<rparr>]\<rparr>)"

definition resolve_approval ::
  "(string \<Rightarrow> string) \<Rightarrow> instant \<Rightarrow> nat \<Rightarrow> bool \<Rightarrow> string option \<Rightarrow> string option \<Rightarrow> engine
     \<Rightarrow> approval_row option \<times> engine" where
  "resolve_approval sha now i approved resolver why en =
     (case claim_pending_approval i (if approved then Q_APPROVED else Q_REJECTED) now resolver why en of
        (False, _) \<Rightarrow> (None, en)
      | (True, en1) \<Rightarrow>
          (case get_request en1 i of
             None \<Rightarrow> (None, en1)
           | Some q \<Rightarrow>
               (Some q,
                if approved then
                  let en2 = update_exec (q_execution q)
                              (\<lambda>e. e\<lparr>ex_status := X_DONE, completed_at := Some now\<rparr>) en1;
                      en3 = update_engine_task (aq_task q) (\<lambda>t. t\<lparr>et_agent := None\<rparr>) en2
                  in case get_task en3 (aq_task q) of
                       None \<Rightarrow> en3 | Some t \<Rightarrow> spend_retry_or_block sha t q en3
                else
                  update_engine_task (aq_task q) (\<lambda>t. t\<lparr>et_status := T_BLOCKED\<rparr>)
                    (update_exec (q_execution q)
                       (\<lambda>e. e\<lparr>ex_status := X_ABORTED, abort_code := Some ''approval_rejected'',
                              completed_at := Some now\<rparr>) en1))))"

section \<open>Expiry\<close>

definition is_stale :: "instant \<Rightarrow> rat \<Rightarrow> string option \<Rightarrow> approval_row \<Rightarrow> bool" where
  "is_stale now hours tenant q \<longleftrightarrow>
     q_status q = Q_PENDING \<and> rat_of_nat (aq_requested_at q) < rat_of_nat now - 3600 * hours
     \<and> (case tenant of None \<Rightarrow> True | Some x \<Rightarrow> aq_tenant q = x)"

definition tenants_with_stale_approvals :: "instant \<Rightarrow> rat \<Rightarrow> engine \<Rightarrow> string list" where
  "tenants_with_stale_approvals now hours en =
     remdups (map aq_tenant (filter (is_stale now hours None) (en_requests en)))"

text \<open>One candidate of the sweep, whatever happened since it was read.\<close>

definition expire_one :: "wording \<Rightarrow> instant \<Rightarrow> rat \<Rightarrow> nat \<Rightarrow> engine \<Rightarrow> nat list \<times> engine" where
  "expire_one wd now hours i en =
     (case claim_pending_approval i Q_TIMED_OUT now None
             (Some (''no response within '' @ say_hours wd hours @ '' h'')) en of
        (False, _) \<Rightarrow> ([], en)
      | (True, en1) \<Rightarrow>
          (case get_request en1 i of
             None \<Rightarrow> ([], en1)
           | Some q \<Rightarrow>
               ([i], update_engine_task (aq_task q) (\<lambda>t. t\<lparr>et_status := T_BLOCKED\<rparr>)
                  (update_exec (q_execution q)
                     (\<lambda>e. e\<lparr>ex_status := X_ABORTED, abort_code := Some ''approval_timeout_exceeded''\<rparr>) en1))))"

fun expire_candidates :: "wording \<Rightarrow> instant \<Rightarrow> rat \<Rightarrow> nat list \<Rightarrow> engine \<Rightarrow> nat list \<times> engine" where
  "expire_candidates wd now hours [] en = ([], en)"
| "expire_candidates wd now hours (i # is) en =
     (let (xs, en1) = expire_one wd now hours i en; (ys, en2) = expire_candidates wd now hours is en1
      in (xs @ ys, en2))"

definition expire_stale_requests ::
  "wording \<Rightarrow> instant \<Rightarrow> rat \<Rightarrow> string option \<Rightarrow> engine \<Rightarrow> nat list \<times> engine" where
  "expire_stale_requests wd now hours tenant en =
     expire_candidates wd now hours (map aq_id (filter (is_stale now hours tenant) (en_requests en))) en"

text \<open>The move of a task by \<^verbatim>\<open>routers/task_lifecycle.py\<close>, which knows nothing of requests.\<close>

definition human_action_on_task :: "human_action \<Rightarrow> string \<Rightarrow> engine \<Rightarrow> engine" where
  "human_action_on_task action i en =
     update_engine_task i
       (\<lambda>t. if et_status t \<in> {T_AWAITING_HUMAN_APPROVAL, T_BLOCKED} \<and> action \<noteq> RetryTask
            then t\<lparr>et_status := action_target action,
                   et_retry_count := (if action = ReassignWithGuidance
                                      then Some (spent_count t + 1) else et_retry_count t)\<rparr>
            else t) en"

end
