(* ===== verification/ApprovalRun.thy ===== *)
theory ApprovalRun
  imports ApprovalEngine
begin

text \<open>
  What the approval engine guarantees over every interleaving of its steps, and how it fits
  the gate in the sandbox: decisions are final, approvals spend retries, a parked call gets
  its request, an approval is worth one call of the next run. Two places where it breaks
  what other components rely on are shown.
\<close>

section \<open>Steps\<close>

datatype engine_call =
    EngineRequest instant nat string string "pydict option" "pydict option" string pydict
  | EngineResolve instant nat bool "string option" "string option"
  | EngineExpire instant rat nat

fun do_engine_call :: "(string \<Rightarrow> string) \<Rightarrow> wording \<Rightarrow> engine_call \<Rightarrow> engine \<Rightarrow> engine" where
  "do_engine_call sha wd (EngineRequest now i tenant project raw policy category action) en =
     (case find (\<lambda>e. ex_id e = i) (en_execs en) of
        None \<Rightarrow> en
      | Some e \<Rightarrow> snd (request_approval_if_needed sha wd now e tenant project raw policy category action en))"
| "do_engine_call sha wd (EngineResolve now i approved resolver why) en =
     snd (resolve_approval sha now i approved resolver why en)"
| "do_engine_call sha wd (EngineExpire now hours i) en = snd (expire_one wd now hours i en)"

definition engine_run :: "(string \<Rightarrow> string) \<Rightarrow> wording \<Rightarrow> engine_call list \<Rightarrow> engine \<Rightarrow> engine" where
  "engine_run sha wd cs en = fold (do_engine_call sha wd) cs en"

lemma engine_run_simps [simp]:
  "engine_run sha wd [] en = en"
  "engine_run sha wd (c # cs) en = engine_run sha wd cs (do_engine_call sha wd c en)"
  by (simp_all add: engine_run_def)

section \<open>Rows\<close>

lemma engine_updates [simp]:
  "en_requests (update_exec i f en) = en_requests en"
  "en_requests (update_engine_task k g en) = en_requests en"
  "en_tasks (update_exec i f en) = en_tasks en"
  "en_tasks (update_request i h en) = en_tasks en"
  "en_execs (update_request i h en) = en_execs en"
  "en_execs (update_engine_task k g en) = en_execs en"
  by (simp_all add: update_exec_def update_engine_task_def update_request_def)

lemma get_request_cong: "en_requests en' = en_requests en \<Longrightarrow> get_request en' i = get_request en i"
  by (simp add: get_request_def)

lemma get_task_cong: "en_tasks en' = en_tasks en \<Longrightarrow> get_task en' i = get_task en i"
  by (simp add: get_task_def)

lemma find_map_update:
  assumes "\<And>x. key (f x) = key x"
  shows "find (\<lambda>x. key x = j) (map (\<lambda>x. if key x = i then f x else x) xs)
       = map_option (\<lambda>x. if i = j then f x else x) (find (\<lambda>x. key x = j) xs)"
  using assms by (induction xs) auto

lemma get_request_update:
  assumes "\<And>q. aq_id (f q) = aq_id q"
  shows "get_request (update_request i f en) j = map_option (\<lambda>q. if i = j then f q else q) (get_request en j)"
  unfolding get_request_def update_request_def by (simp add: find_map_update [of aq_id] assms)

lemma get_task_update:
  assumes "\<And>t. et_id (f t) = et_id t"
  shows "get_task (update_engine_task i f en) j = map_option (\<lambda>t. if i = j then f t else t) (get_task en j)"
  unfolding get_task_def update_engine_task_def by (simp add: find_map_update [of et_id] assms)

text \<open>A claim, seen from the rows: it takes a pending request or does nothing.\<close>

definition claimed :: "request_status \<Rightarrow> instant \<Rightarrow> string option \<Rightarrow> string option \<Rightarrow> approval_row \<Rightarrow> approval_row" where
  "claimed new now resolver why q =
     q\<lparr>q_status := new, q_resolved_at := Some now, aq_resolved_by := resolver, q_reason := why\<rparr>"

lemma claim_cases:
  assumes "claim_pending_approval i new now resolver why en = (won, en')"
  obtains (lost) "\<not> won" "en' = en" "\<And>q. get_request en i = Some q \<Longrightarrow> q_status q \<noteq> Q_PENDING"
  | (won) q where "won" "get_request en i = Some q" "q_status q = Q_PENDING"
      "en' = update_request i (claimed new now resolver why) en"
      "get_request en' i = Some (claimed new now resolver why q)"
proof (cases "get_request en i")
  case None
  then show ?thesis using assms lost by (simp add: claim_pending_approval_def)
next
  case (Some q)
  have f: "claimed new now resolver why = (\<lambda>q. q\<lparr>q_status := new, q_resolved_at := Some now,
                                                 aq_resolved_by := resolver, q_reason := why\<rparr>)"
    by (rule ext) (simp add: claimed_def)
  show ?thesis
  proof (cases "q_status q = Q_PENDING")
    case True
    then have "won" "en' = update_request i (claimed new now resolver why) en"
      using assms Some by (simp_all add: claim_pending_approval_def f)
    moreover from this have "get_request en' i = Some (claimed new now resolver why q)"
      using Some by (simp add: get_request_update claimed_def)
    ultimately show ?thesis using won Some True by blast
  next
    case False
    then show ?thesis using assms Some lost by (simp add: claim_pending_approval_def)
  qed
qed

lemma claimed_id [simp]: "aq_id (claimed new now resolver why q) = aq_id q"
  by (simp add: claimed_def)

lemma claimed_fields [simp]:
  "q_status (claimed new now resolver why q) = new"
  "q_resolved_at (claimed new now resolver why q) = Some now"
  "q_execution (claimed new now resolver why q) = q_execution q"
  "aq_task (claimed new now resolver why q) = aq_task q"
  "aq_tenant (claimed new now resolver why q) = aq_tenant q"
  "aq_category (claimed new now resolver why q) = aq_category q"
  "aq_action (claimed new now resolver why q) = aq_action q"
  by (simp_all add: claimed_def)

section \<open>Decisions are final\<close>

definition ids_ok :: "engine \<Rightarrow> bool" where
  "ids_ok en \<longleftrightarrow> map aq_id (en_requests en) = [0..<length (en_requests en)]"

definition decided_kept :: "engine \<Rightarrow> engine \<Rightarrow> bool" where
  "decided_kept en en' \<longleftrightarrow>
     (ids_ok en \<longrightarrow> ids_ok en'
        \<and> (\<forall>i q. get_request en i = Some q \<and> q_status q \<noteq> Q_PENDING \<longrightarrow> get_request en' i = Some q))"

lemma decided_kept_refl [simp, intro]: "en_requests en' = en_requests en \<Longrightarrow> decided_kept en en'"
  by (simp add: decided_kept_def ids_ok_def get_request_def)

lemma decided_kept_trans: "decided_kept a b \<Longrightarrow> decided_kept b c \<Longrightarrow> decided_kept a c"
  unfolding decided_kept_def by blast

lemma ids_ok_get: "ids_ok en \<Longrightarrow> get_request en i = Some q \<Longrightarrow> i < length (en_requests en) \<and> aq_id q = i"
proof -
  assume ids: "ids_ok en" and g: "get_request en i = Some q"
  from g have q: "q \<in> set (en_requests en)" "aq_id q = i"
    by (auto simp: get_request_def find_Some_iff)
  then have "i \<in> set (map aq_id (en_requests en))" by auto
  then have "i \<in> set [0..<length (en_requests en)]" using ids by (simp only: ids_ok_def)
  then show ?thesis using q by simp
qed

lemma decided_kept_claim:
  assumes "claim_pending_approval i new now resolver why en = (won, en')"
  shows "decided_kept en en'"
  using assms
proof (cases rule: claim_cases)
  case lost
  then show ?thesis by simp
next
  case (won q)
  have "map aq_id (en_requests en') = map aq_id (en_requests en)"
    using won(4) by (simp add: update_request_def)
  moreover have "length (en_requests en') = length (en_requests en)"
    using won(4) by (simp add: update_request_def)
  moreover have "get_request en' j = Some r" if "get_request en j = Some r" "q_status r \<noteq> Q_PENDING" for j r
    using that won(2-4) by (auto simp: get_request_update)
  ultimately show ?thesis by (auto simp: decided_kept_def ids_ok_def)
qed

lemma find_append_Some: "find P xs = Some x \<Longrightarrow> find P (xs @ ys) = Some x"
  by (induction xs) auto

lemma request_rows:
  "en_requests (snd (request_approval_if_needed sha wd now e tenant project raw policy category action en))
     = en_requests en @ (case fst (request_approval_if_needed sha wd now e tenant project raw policy category action en)
                         of None \<Rightarrow> [] | Some q \<Rightarrow> [q])"
  by (simp add: request_approval_if_needed_def Let_def)

lemma request_row:
  assumes "fst (request_approval_if_needed sha wd now e tenant project raw policy category action en) = Some q"
  shows "aq_id q = length (en_requests en)" "q_status q = Q_PENDING" "aq_task q = ex_task e"
    "aq_tenant q = tenant" "aq_category q = category" "q_execution q = ex_id e"
  using assms by (auto simp: request_approval_if_needed_def Let_def split: if_splits)

lemma decided_kept_append:
  assumes "en_requests en' = en_requests en @ [q]" and "aq_id q = length (en_requests en)"
  shows "decided_kept en en'"
  using assms by (auto simp: decided_kept_def ids_ok_def get_request_def intro: find_append_Some)

lemma resolve_rows:
  assumes "claim_pending_approval i (if approved then Q_APPROVED else Q_REJECTED) now resolver why en = (won, en1)"
  shows "en_requests (snd (resolve_approval sha now i approved resolver why en)) = en_requests en1"
    and "fst (resolve_approval sha now i approved resolver why en) = (if won then get_request en1 i else None)"
  using assms
proof (atomize (full), cases rule: claim_cases)
  case lost
  then show "en_requests (snd (resolve_approval sha now i approved resolver why en)) = en_requests en1
    \<and> fst (resolve_approval sha now i approved resolver why en) = (if won then get_request en1 i else None)"
    using assms by (simp add: resolve_approval_def)
next
  case (won q)
  have spend: "en_requests (spend_retry_or_block sha t r en2) = en_requests en2" for t r en2
    by (simp add: spend_retry_or_block_def Let_def)
  show "en_requests (snd (resolve_approval sha now i approved resolver why en)) = en_requests en1
    \<and> fst (resolve_approval sha now i approved resolver why en) = (if won then get_request en1 i else None)"
    using assms won by (auto simp: resolve_approval_def Let_def spend split: option.split)
qed

lemma expire_rows:
  assumes "claim_pending_approval i Q_TIMED_OUT now None (Some (''no response within '' @ say_hours wd hours @ '' h'')) en
             = (won, en1)"
  shows "en_requests (snd (expire_one wd now hours i en)) = en_requests en1"
    and "fst (expire_one wd now hours i en) = (if won then [i] else [])"
  using assms
proof (atomize (full), cases rule: claim_cases)
  case lost
  then show "en_requests (snd (expire_one wd now hours i en)) = en_requests en1
    \<and> fst (expire_one wd now hours i en) = (if won then [i] else [])"
    using assms by (simp add: expire_one_def)
next
  case (won q)
  then show "en_requests (snd (expire_one wd now hours i en)) = en_requests en1
    \<and> fst (expire_one wd now hours i en) = (if won then [i] else [])"
    using assms by (simp add: expire_one_def)
qed

lemma do_engine_call_kept: "decided_kept en (do_engine_call sha wd c en)"
proof (cases c)
  case (EngineRequest now i tenant project raw policy category action)
  show ?thesis
  proof (cases "find (\<lambda>e. ex_id e = i) (en_execs en)")
    case None
    then show ?thesis by (simp add: EngineRequest)
  next
    case (Some e)
    define r where "r = request_approval_if_needed sha wd now e tenant project raw policy category action en"
    show ?thesis
    proof (cases "fst r")
      case None
      then show ?thesis using Some request_rows [of sha wd now e tenant project raw policy category action en]
        by (simp add: EngineRequest r_def)
    next
      case (Some q)
      have "en_requests (snd r) = en_requests en @ [q]"
        using request_rows [of sha wd now e tenant project raw policy category action en] Some by (simp add: r_def)
      moreover have "aq_id q = length (en_requests en)" using request_row(1) Some by (simp add: r_def)
      ultimately have "decided_kept en (snd r)" by (rule decided_kept_append)
      then show ?thesis using \<open>find _ _ = Some e\<close> by (simp add: EngineRequest r_def)
    qed
  qed
next
  case (EngineResolve now i approved resolver why)
  obtain won en1 where c: "claim_pending_approval i (if approved then Q_APPROVED else Q_REJECTED) now resolver why en
      = (won, en1)" by (cases "claim_pending_approval i (if approved then Q_APPROVED else Q_REJECTED) now resolver why en")
  show ?thesis
    using decided_kept_trans [OF decided_kept_claim [OF c] decided_kept_refl [OF resolve_rows(1) [OF c]]]
    by (simp add: EngineResolve)
next
  case (EngineExpire now hours i)
  obtain won en1 where c: "claim_pending_approval i Q_TIMED_OUT now None
      (Some (''no response within '' @ say_hours wd hours @ '' h'')) en = (won, en1)"
    by (cases "claim_pending_approval i Q_TIMED_OUT now None
      (Some (''no response within '' @ say_hours wd hours @ '' h'')) en")
  show ?thesis
    using decided_kept_trans [OF decided_kept_claim [OF c] decided_kept_refl [OF expire_rows(1) [OF c]]]
    by (simp add: EngineExpire)
qed

lemma engine_run_kept: "decided_kept en (engine_run sha wd cs en)"
  by (induction cs arbitrary: en) (auto intro: decided_kept_trans do_engine_call_kept)

text \<open>
  C38. A decision on an approval is taken once: whatever requests, resolutions and steps of
  the expiry sweep follow, in whatever order two sessions interleave them, a request that is
  no longer pending keeps its verdict, resolver, reason, time and action; a second resolution
  of it reports the loss and changes nothing, neither the run nor the task.
\<close>

theorem approval_decision_final:
  assumes ids: "ids_ok en" and q: "get_request en i = Some q" and dec: "q_status q \<noteq> Q_PENDING"
  shows "get_request (engine_run sha wd cs en) i = Some q
         \<and> resolve_approval sha now i approved resolver why (engine_run sha wd cs en)
           = (None, engine_run sha wd cs en)"
proof -
  have k: "get_request (engine_run sha wd cs en) i = Some q"
    using engine_run_kept [of en sha wd cs] ids q dec by (auto simp: decided_kept_def)
  then show ?thesis using dec by (simp add: resolve_approval_def claim_pending_approval_def)
qed

section \<open>Approvals spend retries\<close>

definition tool_approvals :: "engine \<Rightarrow> string \<Rightarrow> nat" where
  "tool_approvals en task =
     length (filter (\<lambda>q. aq_task q = task \<and> q_status q = Q_APPROVED
                         \<and> aq_category q \<noteq> human_question_category) (en_requests en))"

definition retries_paid :: "engine \<Rightarrow> engine \<Rightarrow> bool" where
  "retries_paid en en' \<longleftrightarrow>
     (\<forall>k t. get_task en k = Some t \<longrightarrow>
        (\<exists>t'. get_task en' k = Some t' \<and> et_max_retries t' = et_max_retries t
           \<and> spent_count t' + int (tool_approvals en k) = spent_count t + int (tool_approvals en' k)))"

lemma retries_paid_refl: "retries_paid en en"
  by (simp add: retries_paid_def)

lemma retries_paid_trans:
  assumes ab: "retries_paid a b" and bc: "retries_paid b c"
  shows "retries_paid a c"
  unfolding retries_paid_def
proof (intro allI impI)
  fix k t
  assume "get_task a k = Some t"
  then obtain u where u: "get_task b k = Some u" "et_max_retries u = et_max_retries t"
      "spent_count u + int (tool_approvals a k) = spent_count t + int (tool_approvals b k)"
    using ab by (auto simp: retries_paid_def)
  then obtain v where "get_task c k = Some v" "et_max_retries v = et_max_retries u"
      "spent_count v + int (tool_approvals b k) = spent_count u + int (tool_approvals c k)"
    using bc u(1) unfolding retries_paid_def by metis
  with u show "\<exists>t'. get_task c k = Some t' \<and> et_max_retries t' = et_max_retries t
      \<and> spent_count t' + int (tool_approvals a k) = spent_count t + int (tool_approvals c k)" by auto
qed

lemma length_filter_update:
  assumes "distinct (map key xs)" and "find (\<lambda>y. key y = i) xs = Some x"
  shows "length (filter P (map (\<lambda>y. if key y = i then f y else y) xs)) + (if P x then 1 else 0)
       = length (filter P xs) + (if P (f x) then 1 else 0)"
  using assms
proof (induction xs)
  case (Cons y ys)
  show ?case
  proof (cases "key y = i")
    case True
    have "key z \<noteq> i" if "z \<in> set ys" for z
      using that Cons.prems(1) True by (metis distinct.simps(2) image_eqI list.set_map list.simps(9))
    then have "map (\<lambda>y. if key y = i then f y else y) ys = ys" by (intro map_idI) auto
    then show ?thesis using True Cons.prems(2) by simp
  next
    case False
    then show ?thesis using Cons by simp
  qed
qed simp

definition pays :: "string \<Rightarrow> approval_row \<Rightarrow> bool" where
  "pays task q \<longleftrightarrow> aq_task q = task \<and> q_status q = Q_APPROVED \<and> aq_category q \<noteq> human_question_category"

lemma tool_approvals_pays: "tool_approvals en task = length (filter (pays task) (en_requests en))"
  by (simp add: tool_approvals_def pays_def [abs_def])

lemma tool_approvals_claimed:
  assumes ids: "ids_ok en" and g: "get_request en i = Some q" and p: "q_status q = Q_PENDING"
    and en1: "en_requests en1 = en_requests (update_request i (claimed new now resolver why) en)"
  shows "tool_approvals en1 k = tool_approvals en k
           + (if new = Q_APPROVED \<and> aq_task q = k \<and> aq_category q \<noteq> human_question_category then 1 else 0)"
proof -
  have "distinct (map aq_id (en_requests en))" using ids by (simp add: ids_ok_def)
  from length_filter_update [OF this g [unfolded get_request_def], of "pays k" "claimed new now resolver why"]
  show ?thesis using p by (simp add: tool_approvals_pays en1 update_request_def pays_def split: if_splits)
qed

lemma spent_count_status [simp]:
  "spent_count (t\<lparr>et_status := s\<rparr>) = spent_count t" "spent_count (t\<lparr>et_agent := a\<rparr>) = spent_count t"
  by (simp_all add: spent_count_def)

lemma tool_approvals_cong: "en_requests en' = en_requests en \<Longrightarrow> tool_approvals en' k = tool_approvals en k"
  by (simp add: tool_approvals_def)

text \<open>Steps that neither approve nor touch a counter.\<close>

lemma retries_paid_same:
  assumes "\<And>k t. get_task en k = Some t \<Longrightarrow>
      \<exists>t'. get_task en' k = Some t' \<and> et_max_retries t' = et_max_retries t \<and> spent_count t' = spent_count t"
    and "\<And>k. tool_approvals en' k = tool_approvals en k"
  shows "retries_paid en en'"
  using assms by (auto simp: retries_paid_def)

lemma get_task_id: "get_task en k = Some t \<Longrightarrow> et_id t = k"
  by (auto simp: get_task_def find_Some_iff)

text \<open>What an approval that is won does to the task.\<close>

lemma spend_task:
  assumes t: "get_task en k = Some t"
  shows "get_task (spend_retry_or_block sha t q en) j =
           (if j \<noteq> k then get_task en j
            else if aq_category q = human_question_category then Some (t\<lparr>et_status := T_BACKLOG\<rparr>)
            else Some (t\<lparr>et_retry_count := Some (spent_count t + 1),
                         et_status := (if spent_count t + 1 < retry_limit t then T_BACKLOG else T_BLOCKED)\<rparr>))"
proof -
  have k: "et_id t = k" using t by (rule get_task_id)
  have aud: "get_task (en\<lparr>en_audit := a\<rparr>) j = get_task en j" for a en j by (simp add: get_task_def)
  have upd: "get_task (update_engine_task k (\<lambda>u. u\<lparr>et_retry_count := n, et_status := s\<rparr>) en) j
      = (if j \<noteq> k then get_task en j else Some (t\<lparr>et_retry_count := n, et_status := s\<rparr>))" for n s j
    using t by (cases "get_task en j") (auto simp: get_task_update)
  have upd': "get_task (update_engine_task k (\<lambda>u. u\<lparr>et_status := s\<rparr>) en) j
      = (if j \<noteq> k then get_task en j else Some (t\<lparr>et_status := s\<rparr>))" for s j
    using t by (cases "get_task en j") (auto simp: get_task_update)
  show ?thesis by (simp add: spend_retry_or_block_def Let_def k aud upd upd')
qed

lemma resolve_won:
  assumes q: "get_request en i = Some q" "q_status q = Q_PENDING"
  shows "get_task (snd (resolve_approval sha now i approved resolver why en)) k =
           (case get_task en k of
              None \<Rightarrow> None
            | Some t \<Rightarrow>
                Some (if k \<noteq> aq_task q then t
                      else if \<not> approved then t\<lparr>et_status := T_BLOCKED\<rparr>
                      else if aq_category q = human_question_category
                      then t\<lparr>et_agent := None, et_status := T_BACKLOG\<rparr>
                      else t\<lparr>et_agent := None, et_retry_count := Some (spent_count t + 1),
                             et_status := (if spent_count t + 1 < retry_limit t then T_BACKLOG else T_BLOCKED)\<rparr>))"
    and "en_requests (snd (resolve_approval sha now i approved resolver why en))
           = en_requests (update_request i
               (claimed (if approved then Q_APPROVED else Q_REJECTED) now resolver why) en)"
proof -
  define new where "new = (if approved then Q_APPROVED else Q_REJECTED)"
  define en1 where "en1 = update_request i (claimed new now resolver why) en"
  have c: "claim_pending_approval i new now resolver why en = (True, en1)"
    using q by (auto simp: claim_pending_approval_def en1_def claimed_def [abs_def])
  have g1: "get_request en1 i = Some (claimed new now resolver why q)"
    using q by (simp add: en1_def get_request_update)
  have t1: "get_task en1 k = get_task en k" by (rule get_task_cong) (simp add: en1_def)
  show "en_requests (snd (resolve_approval sha now i approved resolver why en))
      = en_requests (update_request i (claimed (if approved then Q_APPROVED else Q_REJECTED) now resolver why) en)"
    using resolve_rows(1) [OF c [unfolded new_def]] by (simp add: en1_def new_def)
  show "get_task (snd (resolve_approval sha now i approved resolver why en)) k =
           (case get_task en k of
              None \<Rightarrow> None
            | Some t \<Rightarrow>
                Some (if k \<noteq> aq_task q then t
                      else if \<not> approved then t\<lparr>et_status := T_BLOCKED\<rparr>
                      else if aq_category q = human_question_category
                      then t\<lparr>et_agent := None, et_status := T_BACKLOG\<rparr>
                      else t\<lparr>et_agent := None, et_retry_count := Some (spent_count t + 1),
                             et_status := (if spent_count t + 1 < retry_limit t then T_BACKLOG else T_BLOCKED)\<rparr>))"
  proof (cases approved)
    case False
    have "snd (resolve_approval sha now i approved resolver why en) =
      update_engine_task (aq_task q) (\<lambda>t. t\<lparr>et_status := T_BLOCKED\<rparr>)
        (update_exec (q_execution q) (\<lambda>e. e\<lparr>ex_status := X_ABORTED, abort_code := Some ''approval_rejected'',
                                          completed_at := Some now\<rparr>) en1)"
      using c g1 False by (simp add: resolve_approval_def new_def)
    moreover have "get_task (update_exec j f en1) k = get_task en k" for j f
      using t1 get_task_cong [of "update_exec j f en1" en1] by simp
    ultimately show ?thesis using False by (auto simp: get_task_update split: option.split)
  next
    case True
    define en3 where "en3 = update_engine_task (aq_task q) (\<lambda>t. t\<lparr>et_agent := None\<rparr>)
      (update_exec (q_execution q) (\<lambda>e. e\<lparr>ex_status := X_DONE, completed_at := Some now\<rparr>) en1)"
    have t3: "get_task en3 j = map_option (\<lambda>t. if aq_task q = j then t\<lparr>et_agent := None\<rparr> else t) (get_task en j)" for j
      using get_task_cong [of "update_exec (q_execution q) (\<lambda>e. e\<lparr>ex_status := X_DONE, completed_at := Some now\<rparr>) en1" en]
      by (simp add: en3_def get_task_update en1_def)
    have r: "snd (resolve_approval sha now i approved resolver why en) =
      (case get_task en3 (aq_task q) of None \<Rightarrow> en3
       | Some t \<Rightarrow> spend_retry_or_block sha t (claimed new now resolver why q) en3)"
      using c g1 True by (simp add: resolve_approval_def new_def en3_def Let_def split: option.split)
    show ?thesis
    proof (cases "get_task en (aq_task q)")
      case None
      then show ?thesis using r t3 by (auto split: option.split)
    next
      case (Some t)
      have t3': "get_task en3 (aq_task q) = Some (t\<lparr>et_agent := None\<rparr>)" using Some t3 by simp
      have lim: "retry_limit (t\<lparr>et_agent := None\<rparr>) = retry_limit t" by (simp add: retry_limit_def)
      show ?thesis
        unfolding r using t3' spend_task [OF t3'] True Some
        by (auto simp: t3 lim split: option.split)
    qed
  qed
qed

lemma resolve_pays:
  assumes ids: "ids_ok en"
  shows "retries_paid en (snd (resolve_approval sha now i approved resolver why en))"
proof (cases "\<exists>q. get_request en i = Some q \<and> q_status q = Q_PENDING")
  case False
  then have "snd (resolve_approval sha now i approved resolver why en) = en"
    by (auto simp: resolve_approval_def claim_pending_approval_def split: option.split)
  then show ?thesis by (simp add: retries_paid_refl)
next
  case True
  then obtain q where q: "get_request en i = Some q" "q_status q = Q_PENDING" by blast
  define en' where "en' = snd (resolve_approval sha now i approved resolver why en)"
  note w = resolve_won [OF q, where approved = approved and sha = sha and now = now and resolver = resolver
      and why = why, folded en'_def]
  have a: "tool_approvals en' k = tool_approvals en k
      + (if approved \<and> aq_task q = k \<and> aq_category q \<noteq> human_question_category then 1 else 0)" for k
    using tool_approvals_claimed [OF ids q w(2), of k] by (cases approved) simp_all
  have "\<exists>t'. get_task en' k = Some t' \<and> et_max_retries t' = et_max_retries t
      \<and> spent_count t' + int (tool_approvals en k) = spent_count t + int (tool_approvals en' k)"
    if "get_task en k = Some t" for k t
    using that by (simp add: w(1) a) (simp add: spent_count_def)
  then show ?thesis by (simp add: retries_paid_def en'_def)
qed

lemma expire_pays:
  assumes ids: "ids_ok en"
  shows "retries_paid en (snd (expire_one wd now hours i en))"
proof -
  obtain won en1 where c: "claim_pending_approval i Q_TIMED_OUT now None
      (Some (''no response within '' @ say_hours wd hours @ '' h'')) en = (won, en1)"
    by (cases "claim_pending_approval i Q_TIMED_OUT now None
      (Some (''no response within '' @ say_hours wd hours @ '' h'')) en")
  show ?thesis
    using c
  proof (cases rule: claim_cases)
    case lost
    then show ?thesis using c by (simp add: expire_one_def retries_paid_refl)
  next
    case (won q)
    have e: "snd (expire_one wd now hours i en) =
        update_engine_task (aq_task q) (\<lambda>t. t\<lparr>et_status := T_BLOCKED\<rparr>)
          (update_exec (q_execution q)
             (\<lambda>e. e\<lparr>ex_status := X_ABORTED, abort_code := Some ''approval_timeout_exceeded''\<rparr>) en1)"
      using c won by (simp add: expire_one_def)
    have t: "get_task (update_exec j f en1) k = get_task en k" for j f k
      by (rule get_task_cong) (simp add: won(4))
    show ?thesis
    proof (rule retries_paid_same)
      show "\<exists>t'. get_task (snd (expire_one wd now hours i en)) k = Some t'
          \<and> et_max_retries t' = et_max_retries u \<and> spent_count t' = spent_count u"
        if "get_task en k = Some u" for k u
        using that by (simp add: e get_task_update t)
      show "tool_approvals (snd (expire_one wd now hours i en)) k = tool_approvals en k" for k
        using tool_approvals_claimed [OF ids won(2,3), of "snd (expire_one wd now hours i en)"]
          expire_rows(1) [OF c] won(4) by simp
    qed
  qed
qed

lemma request_pays:
  "retries_paid en (snd (request_approval_if_needed sha wd now e tenant project raw policy category action en))"
    (is "retries_paid en (snd ?r)")
proof (rule retries_paid_same)
  have t: "get_task (update_exec i f (en\<lparr>en_requests := rs\<rparr>)) k = get_task en k" for i f rs k
    by (rule get_task_cong) simp
  show "\<exists>t'. get_task (snd ?r) k = Some t' \<and> et_max_retries t' = et_max_retries u \<and> spent_count t' = spent_count u"
    if "get_task en k = Some u" for k u
    using that by (auto simp: request_approval_if_needed_def Let_def get_task_update t spent_count_def)
  show "tool_approvals (snd ?r) k = tool_approvals en k" for k
    using request_row(2) [of sha wd now e tenant project raw policy category action en]
    by (cases "fst ?r") (simp_all add: tool_approvals_def request_rows)
qed

lemma do_engine_call_pays: "ids_ok en \<Longrightarrow> retries_paid en (do_engine_call sha wd c en)"
  by (cases c) (auto simp: resolve_pays expire_pays request_pays retries_paid_refl split: option.split)

lemma engine_run_pays: "ids_ok en \<Longrightarrow> retries_paid en (engine_run sha wd cs en)"
proof (induction cs arbitrary: en)
  case (Cons c cs)
  have "ids_ok (do_engine_call sha wd c en)"
    using do_engine_call_kept [of en sha wd c] Cons.prems by (simp add: decided_kept_def)
  from Cons.IH [OF this] do_engine_call_pays [OF Cons.prems] show ?case
    by (auto intro: retries_paid_trans)
qed (simp add: retries_paid_refl)

text \<open>
  Approving spends retries: along every sequence of steps from a state in which nothing
  of a task was approved and no retry was spent, its retry counter is the number of approvals
  of actions; approving a further one sends the task back for another run exactly while their
  number stays below its limit, and otherwise blocks it. So the loop of approving, running
  again and parking again ends.
\<close>

theorem approvals_spend_retries:
  assumes ids: "ids_ok en" and t: "get_task en k = Some t" and none: "tool_approvals en k = 0" "spent_count t = 0"
    and q: "get_request (engine_run sha wd cs en) i = Some q" "q_status q = Q_PENDING"
      "aq_task q = k" "aq_category q \<noteq> human_question_category"
  shows "\<exists>t'. get_task (snd (resolve_approval sha now i True resolver why (engine_run sha wd cs en))) k = Some t'
           \<and> spent_count t' = int (tool_approvals (engine_run sha wd cs en) k) + 1
           \<and> et_status t' = (if int (tool_approvals (engine_run sha wd cs en) k) + 1 < retry_limit t
                              then T_BACKLOG else T_BLOCKED)"
proof -
  obtain u where u: "get_task (engine_run sha wd cs en) k = Some u" "et_max_retries u = et_max_retries t"
      "spent_count u = int (tool_approvals (engine_run sha wd cs en) k)"
    using engine_run_pays [OF ids, of sha wd cs, unfolded retries_paid_def, rule_format, OF t] none by auto
  have "retry_limit u = retry_limit t" using u(2) by (simp add: retry_limit_def)
  then show ?thesis
    using resolve_won(1) [OF q(1,2), of sha now True resolver why k] u q(3,4) by (simp add: spent_count_def)
qed

section \<open>The window\<close>

text \<open>
  The window of a request is between a quarter of an hour and thirty days whatever the
  setting holds, unless it is an integer too large for a double, which raises.
\<close>

theorem expiry_window_bounded:
  "case get_approval_timeout_hours raw of
     Inr h \<Rightarrow> 1 / 4 \<le> h \<and> h \<le> 720
   | Inl _ \<Rightarrow> (case raw of PInt i \<Rightarrow> float_limit \<le> \<bar>i\<bar> | _ \<Rightarrow> False)"
  by (cases raw)
    (auto simp: get_approval_timeout_hours_def coerce_float_def Let_def min_timeout_hours_def
      max_timeout_hours_def default_timeout_hours_def split: option.split pyfloat.split)

section \<open>Decisions that come too late\<close>

lemma expire_won:
  assumes q: "get_request en i = Some q" "q_status q = Q_PENDING"
  shows "fst (expire_one wd now hours i en) = [i]"
    and "get_task (snd (expire_one wd now hours i en)) k =
           map_option (\<lambda>t. if k = aq_task q then t\<lparr>et_status := T_BLOCKED\<rparr> else t) (get_task en k)"
    and "get_request (snd (expire_one wd now hours i en)) j =
           map_option (\<lambda>r. if j = i then claimed Q_TIMED_OUT now None
               (Some (''no response within '' @ say_hours wd hours @ '' h'')) r else r) (get_request en j)"
    and "en_execs (snd (expire_one wd now hours i en)) =
           update_row (q_execution q)
             (\<lambda>e. e\<lparr>ex_status := X_ABORTED, abort_code := Some ''approval_timeout_exceeded''\<rparr>) (en_execs en)"
proof -
  define why where "why = Some (''no response within '' @ say_hours wd hours @ '' h'')"
  define en1 where "en1 = update_request i (claimed Q_TIMED_OUT now None why) en"
  have c: "claim_pending_approval i Q_TIMED_OUT now None why en = (True, en1)"
    using q by (auto simp: claim_pending_approval_def en1_def claimed_def [abs_def])
  have g: "get_request en1 j = map_option (\<lambda>r. if j = i then claimed Q_TIMED_OUT now None why r else r)
      (get_request en j)" for j
    by (auto simp: en1_def get_request_update intro!: arg_cong2 [where f = map_option])
  have e: "expire_one wd now hours i en =
      ([i], update_engine_task (aq_task q) (\<lambda>t. t\<lparr>et_status := T_BLOCKED\<rparr>)
          (update_exec (q_execution q)
             (\<lambda>e. e\<lparr>ex_status := X_ABORTED, abort_code := Some ''approval_timeout_exceeded''\<rparr>) en1))"
    using c q g [of i] by (simp add: expire_one_def why_def)
  show "fst (expire_one wd now hours i en) = [i]" by (simp add: e)
  have t: "get_task (update_exec a f en1) k = get_task en k" for a f
    by (rule get_task_cong) (simp add: en1_def)
  show "get_task (snd (expire_one wd now hours i en)) k =
      map_option (\<lambda>t. if k = aq_task q then t\<lparr>et_status := T_BLOCKED\<rparr> else t) (get_task en k)"
    by (auto simp: e get_task_update t intro!: arg_cong2 [where f = map_option])
  show "get_request (snd (expire_one wd now hours i en)) j =
           map_option (\<lambda>r. if j = i then claimed Q_TIMED_OUT now None
               (Some (''no response within '' @ say_hours wd hours @ '' h'')) r else r) (get_request en j)"
    using g [of j] get_request_cong [of "snd (expire_one wd now hours i en)" en1]
    unfolding why_def [symmetric] by (simp add: e)
  show "en_execs (snd (expire_one wd now hours i en)) =
           update_row (q_execution q)
             (\<lambda>e. e\<lparr>ex_status := X_ABORTED, abort_code := Some ''approval_timeout_exceeded''\<rparr>) (en_execs en)"
    by (simp add: e en1_def) (simp add: update_exec_def update_request_def)
qed

text \<open>
  A closed task is reopened: closing a task by hand while its run waits for an approval
  leaves the request pending; the sweep then blocks the task that was done, a rejection blocks
  it too, and an approval sends it back to the backlog to run again (while it has retries).
\<close>

theorem late_decision_reopens_task:
  assumes q: "get_request en i = Some q" "q_status q = Q_PENDING"
    and t: "get_task en (aq_task q) = Some t" "et_status t = T_AWAITING_HUMAN_APPROVAL"
    and retries: "spent_count t + 1 < retry_limit t"
  shows "let en1 = human_action_on_task ApproveManual (aq_task q) en;
             status = (\<lambda>en. map_option et_status (get_task en (aq_task q)))
         in status en1 = Some T_DONE
            \<and> status (snd (expire_one wd now hours i en1)) = Some T_BLOCKED
            \<and> status (snd (resolve_approval sha now i False resolver why en1)) = Some T_BLOCKED
            \<and> status (snd (resolve_approval sha now i True resolver why en1)) = Some T_BACKLOG"
proof -
  define en1 where "en1 = human_action_on_task ApproveManual (aq_task q) en"
  have t1: "get_task en1 (aq_task q) = Some (t\<lparr>et_status := T_DONE\<rparr>)"
    using t by (simp add: en1_def human_action_on_task_def get_task_update)
  have "get_request en1 i = get_request en i"
    by (rule get_request_cong) (simp add: en1_def human_action_on_task_def)
  then have q1: "get_request en1 i = Some q" using q by simp
  have lim: "retry_limit (t\<lparr>et_status := T_DONE\<rparr>) = retry_limit t" by (simp add: retry_limit_def)
  show ?thesis
    unfolding Let_def en1_def [symmetric]
    using t1 expire_won(2) [OF q1 q(2), of wd now hours "aq_task q"] lim retries
      resolve_won(1) [OF q1 q(2), of sha now False resolver why "aq_task q"]
      resolve_won(1) [OF q1 q(2), of sha now True resolver why "aq_task q"] by simp
qed

lemma find_update_row:
  assumes "\<And>e. ex_id (f e) = ex_id e"
  shows "find (\<lambda>e. ex_id e = j) (update_row i f db) = map_option (\<lambda>e. if i = j then f e else e) (find (\<lambda>e. ex_id e = j) db)"
  unfolding update_row_def by (simp add: find_map_update [of ex_id] assms)

text \<open>
  The sweep does not seal the run it aborts: the parked run of an expired request has a
  final status without a completion time, so the next result that is delivered for it
  overwrites that status, while the run of a rejected request is sealed.
\<close>

theorem expired_run_not_sealed:
  assumes q: "get_request en i = Some q" "q_status q = Q_PENDING"
    and e: "find (\<lambda>e. ex_id e = q_execution q) (en_execs en) = Some e" "completed_at e = None"
  shows "(case find (\<lambda>e. ex_id e = q_execution q) (en_execs (snd (expire_one wd now hours i en))) of
            None \<Rightarrow> False
          | Some e1 \<Rightarrow> ex_status e1 = X_ABORTED \<and> \<not> is_sealed e1
              \<and> finalize_row now' cat res e1 = write_usage now' cat res (e1\<lparr>finish_status := r_finish_status res\<rparr>))
         \<and> (case find (\<lambda>e. ex_id e = q_execution q)
                     (en_execs (snd (resolve_approval sha now i False resolver why en))) of
            None \<Rightarrow> False
          | Some e1 \<Rightarrow> ex_status e1 = X_ABORTED \<and> is_sealed e1)"
proof -
  define en1 where "en1 = update_request i (claimed Q_REJECTED now resolver why) en"
  have c: "claim_pending_approval i Q_REJECTED now resolver why en = (True, en1)"
    using q by (auto simp: claim_pending_approval_def en1_def claimed_def [abs_def])
  have "get_request en1 i = Some (claimed Q_REJECTED now resolver why q)"
    using q by (simp add: en1_def get_request_update)
  then have "en_execs (snd (resolve_approval sha now i False resolver why en)) =
      update_row (q_execution q) (\<lambda>e. e\<lparr>ex_status := X_ABORTED, abort_code := Some ''approval_rejected'',
                                        completed_at := Some now\<rparr>) (en_execs en)"
    using c by (simp add: resolve_approval_def en1_def) (simp add: update_exec_def update_request_def)
  then show ?thesis
    using e by (simp add: expire_won(4) [OF q] find_update_row is_sealed_def finalize_row_def
        is_terminal_execution_status_def)
qed

section \<open>The sweep\<close>

definition timed_out :: "wording \<Rightarrow> instant \<Rightarrow> rat \<Rightarrow> approval_row \<Rightarrow> approval_row" where
  "timed_out wd now hours =
     claimed Q_TIMED_OUT now None (Some (''no response within '' @ say_hours wd hours @ '' h''))"

lemma timed_out_fields [simp]: "aq_task (timed_out wd now hours q) = aq_task q"
  by (simp add: timed_out_def)

definition stops :: "engine \<Rightarrow> nat list \<Rightarrow> string \<Rightarrow> bool" where
  "stops en is k \<longleftrightarrow> (\<exists>i \<in> set is. \<exists>q. get_request en i = Some q \<and> aq_task q = k)"

lemma expire_candidates_spec:
  assumes "distinct is" and "\<And>i. i \<in> set is \<Longrightarrow> \<exists>q. get_request en i = Some q \<and> q_status q = Q_PENDING"
  shows "fst (expire_candidates wd now hours is en) = is
         \<and> (\<forall>j. get_request (snd (expire_candidates wd now hours is en)) j =
                map_option (\<lambda>r. if j \<in> set is then timed_out wd now hours r else r) (get_request en j))
         \<and> (\<forall>k. get_task (snd (expire_candidates wd now hours is en)) k =
                map_option (\<lambda>t. if stops en is k then t\<lparr>et_status := T_BLOCKED\<rparr> else t) (get_task en k))"
  using assms
proof (induction "is" arbitrary: en)
  case Nil
  then show ?case by (simp add: stops_def option.map_ident)
next
  case (Cons i js)
  obtain q where q: "get_request en i = Some q" "q_status q = Q_PENDING" using Cons.prems(2) [of i] by auto
  define en1 where "en1 = snd (expire_one wd now hours i en)"
  note one = expire_won [OF q, where wd = wd and now = now and hours = hours, folded en1_def timed_out_def]
  have rest: "\<exists>q. get_request en1 j = Some q \<and> q_status q = Q_PENDING" if "j \<in> set js" for j
    using that Cons.prems(2) [of j] Cons.prems(1) one(3) [of j] by (cases "j = i") auto
  have d: "distinct js" using Cons.prems(1) by simp
  note ih = Cons.IH [OF d rest]
  have s: "stops en (i # js) k \<longleftrightarrow> aq_task q = k \<or> stops en1 js k" for k
  proof -
    have "stops en1 js k \<longleftrightarrow> stops en js k"
      unfolding stops_def
    proof (rule bex_cong)
      fix j assume "j \<in> set js"
      then have "j \<noteq> i" using Cons.prems(1) by auto
      then have "get_request en1 j = get_request en j" using one(3) [of j] by (cases "get_request en j") simp_all
      then show "(\<exists>q. get_request en1 j = Some q \<and> aq_task q = k) \<longleftrightarrow> (\<exists>q. get_request en j = Some q \<and> aq_task q = k)"
        by simp
    qed simp
    then show ?thesis using q by (auto simp: stops_def)
  qed
  have r: "expire_candidates wd now hours (i # js) en =
      (i # fst (expire_candidates wd now hours js en1), snd (expire_candidates wd now hours js en1))"
    using one(1) by (simp add: en1_def case_prod_unfold Let_def)
  show ?case
  proof (intro conjI allI)
    show "fst (expire_candidates wd now hours (i # js) en) = i # js" using ih by (simp add: r del: expire_candidates.simps)
    show "get_request (snd (expire_candidates wd now hours (i # js) en)) j =
        map_option (\<lambda>r. if j \<in> set (i # js) then timed_out wd now hours r else r) (get_request en j)" for j
      using ih one(3) [of j] Cons.prems(1) by (cases "get_request en j") (auto simp: r simp del: expire_candidates.simps)
    show "get_task (snd (expire_candidates wd now hours (i # js) en)) k =
        map_option (\<lambda>t. if stops en (i # js) k then t\<lparr>et_status := T_BLOCKED\<rparr> else t) (get_task en k)" for k
      using ih one(2) [of k] s [of k] by (cases "get_task en k") (auto simp: r simp del: expire_candidates.simps)
  qed
qed

lemma find_key_member: "distinct (map key xs) \<Longrightarrow> x \<in> set xs \<Longrightarrow> find (\<lambda>y. key y = key x) xs = Some x"
  by (induction xs) (auto simp: image_iff)

lemma get_request_member: "ids_ok en \<Longrightarrow> q \<in> set (en_requests en) \<Longrightarrow> get_request en (aq_id q) = Some q"
  by (simp add: get_request_def ids_ok_def find_key_member)

text \<open>
  The sweep expires exactly what is stale: it reports the stale requests of its tenant and
  no other, every one of them is closed as timed out and every other request stays as it
  was, and the tasks it blocks are those of the requests it expired.
\<close>

theorem sweep_expires_exactly_stale:
  assumes ids: "ids_ok en"
  shows "fst (expire_stale_requests wd now hours tenant en)
           = map aq_id (filter (is_stale now hours tenant) (en_requests en))
         \<and> (\<forall>q \<in> set (en_requests en).
              get_request (snd (expire_stale_requests wd now hours tenant en)) (aq_id q)
                = Some (if is_stale now hours tenant q then timed_out wd now hours q else q))
         \<and> (\<forall>k. get_task (snd (expire_stale_requests wd now hours tenant en)) k =
              map_option (\<lambda>t. if \<exists>q \<in> set (en_requests en). is_stale now hours tenant q \<and> aq_task q = k
                              then t\<lparr>et_status := T_BLOCKED\<rparr> else t) (get_task en k))"
proof -
  define js where "js = map aq_id (filter (is_stale now hours tenant) (en_requests en))"
  have g: "get_request en (aq_id q) = Some q" if "q \<in> set (en_requests en)" for q
    using get_request_member [OF ids that] .
  have "distinct (map aq_id (en_requests en))" using ids by (simp add: ids_ok_def)
  then have d: "distinct js" unfolding js_def by (rule distinct_map_filter)
  have p: "\<exists>q. get_request en i = Some q \<and> q_status q = Q_PENDING" if "i \<in> set js" for i
    using that g by (auto simp: js_def is_stale_def)
  have m: "aq_id q \<in> set js \<longleftrightarrow> is_stale now hours tenant q" if "q \<in> set (en_requests en)" for q
  proof
    assume "aq_id q \<in> set js"
    then obtain r where r: "r \<in> set (en_requests en)" "is_stale now hours tenant r" "aq_id r = aq_id q"
      by (auto simp: js_def)
    from g [OF r(1)] g [OF that] have "r = q" unfolding r(3) by (metis option.inject)
    then show "is_stale now hours tenant q" using r(2) by simp
  next
    assume "is_stale now hours tenant q"
    then show "aq_id q \<in> set js" using that by (auto simp: js_def)
  qed
  have s: "stops en js k \<longleftrightarrow> (\<exists>q \<in> set (en_requests en). is_stale now hours tenant q \<and> aq_task q = k)" for k
    using g by (auto simp: stops_def js_def)
  have e: "expire_stale_requests wd now hours tenant en = expire_candidates wd now hours js en"
    by (simp add: expire_stale_requests_def js_def)
  note spec = expire_candidates_spec [OF d p, of wd now hours]
  show ?thesis
    unfolding e
  proof (intro conjI ballI allI)
    show "fst (expire_candidates wd now hours js en) = map aq_id (filter (is_stale now hours tenant) (en_requests en))"
      using conjunct1 [OF spec] unfolding js_def .
    show "get_request (snd (expire_candidates wd now hours js en)) (aq_id q)
        = Some (if is_stale now hours tenant q then timed_out wd now hours q else q)"
      if "q \<in> set (en_requests en)" for q
      using spec [THEN conjunct2, THEN conjunct1, rule_format, of "aq_id q"] g [OF that] m [OF that]
      by (simp only: option.map)
    show "get_task (snd (expire_candidates wd now hours js en)) k =
        map_option (\<lambda>t. if \<exists>q \<in> set (en_requests en). is_stale now hours tenant q \<and> aq_task q = k
                        then t\<lparr>et_status := T_BLOCKED\<rparr> else t) (get_task en k)" for k
      using spec [THEN conjunct2, THEN conjunct2, rule_format, of k] unfolding s .
  qed
qed

section \<open>Witnesses\<close>

definition demo_row :: approval_row where
  "demo_row = \<lparr>q_execution = 0, q_status = Q_PENDING, q_resolved_at = None, q_reason = None, aq_id = 0,
     aq_tenant = ''a'', aq_task = ''t'', aq_project = ''p'', aq_category = ''code_changes'',
     aq_action = PDict [(''tool'', PStr ''echo''), (''args'', PDict [])], aq_requested_at = 5,
     aq_resolved_by = None\<rparr>"

definition demo_task :: engine_task where
  "demo_task = \<lparr>et_id = ''t'', et_tenant = ''a'', et_status = T_AWAITING_HUMAN_APPROVAL, et_agent = None,
     et_retry_count = None, et_max_retries = Some 2, et_project = ''pr'', et_plan = None, et_spec_id = PNone,
     et_reviewer = None, et_claim = None, et_started_at = None, et_completed_at = None\<rparr>"

definition demo_engine :: engine where
  "demo_engine = \<lparr>en_requests = [demo_row],
     en_execs = [(blank_execution 0 ''t'')\<lparr>ex_status := X_AWAITING_HUMAN_APPROVAL\<rparr>],
     en_tasks = [demo_task], en_audit = []\<rparr>"

definition demo_words :: wording where
  "demo_words = \<lparr>say_unlisted = (\<lambda>c w. c), say_hours = (\<lambda>h. ''24'')\<rparr>"

lemma demo_engine_facts:
  "ids_ok demo_engine" "get_request demo_engine 0 = Some demo_row" "q_status demo_row = Q_PENDING"
  "aq_task demo_row = ''t''" "aq_category demo_row \<noteq> human_question_category"
  "get_task demo_engine ''t'' = Some demo_task" "et_status demo_task = T_AWAITING_HUMAN_APPROVAL"
  "tool_approvals demo_engine ''t'' = 0" "spent_count demo_task = 0" "retry_limit demo_task = 2"
  "q_execution demo_row = 0"
  by (simp_all add: demo_engine_def demo_row_def demo_task_def ids_ok_def get_request_def get_task_def
      tool_approvals_def spent_count_def retry_limit_def human_question_category_def)

lemma approval_decision_final_witness:
  "get_request (engine_run (\<lambda>s. s) demo_words [EngineExpire 9 1 0]
      (snd (resolve_approval (\<lambda>s. s) 7 0 True None None demo_engine))) 0
   = Some (claimed Q_APPROVED 7 None None demo_row)"
proof -
  define en where "en = snd (resolve_approval (\<lambda>s. s) 7 0 True None None demo_engine)"
  have g: "get_request en 0 = Some (claimed Q_APPROVED 7 None None demo_row)"
    using get_request_cong [OF resolve_won(2) [OF demo_engine_facts(2,3), of "\<lambda>s. s" 7 True None None]]
    by (simp add: en_def get_request_update demo_engine_facts)
  have ids: "ids_ok en"
    using do_engine_call_kept [of demo_engine "\<lambda>s. s" demo_words "EngineResolve 7 0 True None None"]
      demo_engine_facts(1) by (simp add: decided_kept_def en_def)
  show ?thesis
    using approval_decision_final [OF ids g, where sha = "\<lambda>s. s" and wd = demo_words
        and cs = "[EngineExpire 9 1 0]"] by (simp add: en_def)
qed

lemma approvals_spend_retries_witness:
  "\<exists>t'. get_task (snd (resolve_approval (\<lambda>s. s) 7 0 True None None demo_engine)) ''t'' = Some t'
     \<and> et_status t' = T_BACKLOG"
  using approvals_spend_retries [OF demo_engine_facts(1,6,8,9), where cs = "[]" and i = 0 and q = demo_row
      and sha = "\<lambda>s. s" and wd = demo_words and now = 7 and resolver = None and why = None]
  by (auto simp: demo_engine_facts)

lemma late_decision_reopens_task_witness:
  "map_option et_status (get_task (snd (expire_one demo_words 90000 24 0
      (human_action_on_task ApproveManual ''t'' demo_engine))) ''t'') = Some T_BLOCKED"
  using late_decision_reopens_task [OF demo_engine_facts(2,3), where t = demo_task and wd = demo_words
      and now = 90000 and hours = 24 and sha = "\<lambda>s. s" and resolver = None and why = None]
  by (simp add: demo_engine_facts Let_def)

lemma expired_run_not_sealed_witness:
  "\<exists>e1. find (\<lambda>e. ex_id e = 0) (en_execs (snd (expire_one demo_words 90000 24 0 demo_engine))) = Some e1
     \<and> \<not> is_sealed e1"
proof -
  have e: "find (\<lambda>e. ex_id e = q_execution demo_row) (en_execs demo_engine)
      = Some ((blank_execution 0 ''t'')\<lparr>ex_status := X_AWAITING_HUMAN_APPROVAL\<rparr>)"
    by (simp add: demo_engine_def demo_row_def blank_execution_def)
  have c: "completed_at ((blank_execution 0 ''t'')\<lparr>ex_status := X_AWAITING_HUMAN_APPROVAL\<rparr>) = None"
    by (simp add: blank_execution_def)
  from expired_run_not_sealed [OF demo_engine_facts(2,3) e c, where wd = demo_words and now = 90000
      and hours = 24 and sha = "\<lambda>s. s" and resolver = None and why = None]
  show ?thesis unfolding demo_engine_facts
    by (cases "find (\<lambda>e. ex_id e = 0) (en_execs (snd (expire_one demo_words 90000 24 0 demo_engine)))") simp_all
qed

lemma sweep_expires_exactly_stale_witness:
  "fst (expire_stale_requests demo_words 90000 24 (Some ''a'') demo_engine) = [0]"
proof -
  have "is_stale 90000 24 (Some ''a'') demo_row" by (simp add: is_stale_def demo_row_def)
  then show ?thesis
    using sweep_expires_exactly_stale [OF demo_engine_facts(1), of demo_words 90000 24 "Some ''a''"]
    by (simp add: demo_engine_def demo_row_def)
qed

end
