(* ===== verification/ApprovalChain.thy ===== *)
theory ApprovalChain
  imports AgentApproval ApprovalRun "HOL-Library.Multiset"
begin

text \<open>
  The two halves of the approval of an action together: the gate in the sandbox
  (ApprovalGate, and the agent loop that obeys it) and the requests on the server
  (ApprovalEngine). A parked call gets a request, its approval travels to the next run, and
  a run makes no gated call without one.
\<close>

section \<open>From the gate to the request\<close>

lemma gate_scan_human: "gate_scan p cats ns = Some (Some c) \<Longrightarrow> requires_human p c"
  by (induction ns) (auto split: option.splits if_splits)

lemma gating_category_human: "gating_category ord g t = Some c \<Longrightarrow> requires_human (ag_policy g) c"
  by (auto simp: gating_category_def Let_def split: option.splits if_splits dest: gate_scan_human)

lemma gate_review_human:
  assumes "gate_review ord sha tool args g = (Some c, g')"
  shows "requires_human (ag_policy g) c"
  using assms gating_category_human [of ord g]
  by (auto simp: gate_review_def split: option.splits if_splits prod.splits bool.splits)

lemma requires_human_server: "requires_human p c \<Longrightarrow> requires_human_approval p c"
  by (auto simp: requires_human_approval_def requires_human_def srv_policy_categories_eq
      srv_unlisted_decision_eq split: option.splits)

text \<open>
  A parked call is never lost: whenever the gate of a run parks a call, the server, given
  the policy that run was started with, opens a pending request for that category and that
  run, parks the run and moves its task to the queue of approvals with no agent on it.
\<close>

theorem parked_call_gets_request:
  assumes gate: "gate_review ord sha tool args (make_gate (Some p) cats approved) = (Some c, g')"
    and e: "e \<in> set (en_execs en)" "get_task en (ex_task e) = Some t"
      "et_status t \<noteq> T_AWAITING_HUMAN_APPROVAL"
  shows "case request_approval_if_needed sha wd now e tenant project raw (Some p) c action en of
           (None, _) \<Rightarrow> False
         | (Some q, en1) \<Rightarrow>
             q \<in> set (en_requests en1) \<and> q_status q = Q_PENDING \<and> q_execution q = ex_id e \<and> aq_category q = c
             \<and> (\<forall>x \<in> set (en_execs en1). ex_id x = ex_id e \<longrightarrow> ex_status x = X_AWAITING_HUMAN_APPROVAL)
             \<and> get_task en1 (ex_task e) = Some (t\<lparr>et_status := T_AWAITING_HUMAN_APPROVAL, et_agent := None\<rparr>)"
proof -
  have h: "requires_human_approval (Some p) c"
    using requires_human_server [OF gate_review_human [OF gate]] by (simp add: make_gate_def)
  have t: "get_task (update_exec i f (en\<lparr>en_requests := rs\<rparr>)) k = get_task en k" for i f rs k
    by (rule get_task_cong) simp
  have x: "en_execs (update_exec i f (en\<lparr>en_requests := rs\<rparr>)) = update_row i f (en_execs en)" for i f rs
    by (simp add: update_exec_def)
  show ?thesis
    using h e by (auto simp: request_approval_if_needed_def Let_def get_task_update t x update_row_def)
qed

section \<open>From the request to the next run\<close>

lemma newest_first_set: "set (newest_first qs) = set qs"
  by (auto simp: newest_first_def)

lemma mset_newest_first: "mset (newest_first qs) = mset qs"
proof -
  have "mset qs = filter_mset (\<lambda>q. q_resolved_at q = None) (mset qs)
      + filter_mset (\<lambda>q. \<not> q_resolved_at q = None) (mset qs)"
    by (rule multiset_partition)
  then show ?thesis by (simp add: newest_first_def mset_filter)
qed

lemma length_filter_newest: "length (filter P (newest_first qs)) = length (filter P qs)"
  using arg_cong [OF mset_newest_first [of qs], of "\<lambda>M. size (filter_mset P M)"]
  by (metis mset_filter size_mset)

lemma length_filter_take: "length (filter P (take n xs)) \<le> length (filter P xs)"
proof -
  have "filter P xs = filter P (take n xs) @ filter P (drop n xs)"
    by (metis append_take_drop_id filter_append)
  then show ?thesis by (metis le_add1 length_append)
qed

lemma entry_digest_entry: "approved_entry sha q = Some x \<Longrightarrow> row_digest sha q = Some (entry_digest x)"
  by (auto simp: approved_entry_def entry_digest_def py_or_def py_str_def)

lemma count_entries:
  "count_digests (List.map_filter (approved_entry sha) qs) d
     = (if d = [] then 0 else length (filter (\<lambda>q. row_digest sha q = Some d) qs))"
proof (induction qs)
  case Nil
  then show ?case by (simp add: count_digests_def map_filter_simps)
next
  case (Cons q qs)
  show ?case
  proof (cases "approved_entry sha q")
    case None
    then have "row_digest sha q = None" by (simp add: approved_entry_def)
    then show ?thesis using Cons None by (simp add: map_filter_simps)
  next
    case (Some x)
    have "row_digest sha q = Some (entry_digest x)" using Some by (rule entry_digest_entry)
    then show ?thesis using Cons Some by (cases "d = []") (simp_all add: map_filter_simps count_digests_def)
  qed
qed

text \<open>How often a human approved this very action for the task.\<close>

definition human_approvals :: "(string \<Rightarrow> string) \<Rightarrow> engine \<Rightarrow> string \<Rightarrow> string \<Rightarrow> string \<Rightarrow> nat" where
  "human_approvals sha en task tenant d =
     length (filter (\<lambda>q. is_approval_of task tenant q \<and> row_digest sha q = Some d) (en_requests en))"

lemma handed_approvals:
  "count_digests (read_approved_actions sha en task tenant limit) d \<le> human_approvals sha en task tenant d"
proof -
  have "length (filter (\<lambda>q. row_digest sha q = Some d) (approved_requests_of_task en task tenant limit))
      \<le> length (filter (\<lambda>q. row_digest sha q = Some d)
                  (newest_first (filter (is_approval_of task tenant) (en_requests en))))"
    unfolding approved_requests_of_task_def by (rule length_filter_take)
  also have "\<dots> = human_approvals sha en task tenant d"
    by (simp add: length_filter_newest human_approvals_def conj_commute)
  finally show ?thesis by (simp add: read_approved_actions_def count_entries)
qed

text \<open>The newest row comes first.\<close>

lemma newest_first_hd:
  assumes q: "q \<in> set qs" "q_resolved_at q = Some now"
    and older: "\<And>r. r \<in> set qs \<Longrightarrow> r \<noteq> q \<Longrightarrow> \<exists>t < now. q_resolved_at r = Some t"
  shows "\<exists>rest. newest_first qs = q # rest"
proof -
  define f where "f = (\<lambda>r :: approval_row. - int (the (q_resolved_at r)))"
  have all: "q_resolved_at r \<noteq> None" if "r \<in> set qs" for r
    using older [OF that] q by (cases "r = q") auto
  then have n: "newest_first qs = sort_key f qs" by (simp add: newest_first_def f_def)
  obtain h rest where h: "sort_key f qs = h # rest" using q(1) by (cases "sort_key f qs") (auto dest: arg_cong [of _ _ set])
  have "h \<in> set (sort_key f qs)" unfolding h by simp
  then have hq: "h \<in> set qs" by simp
  have "sorted (map f (h # rest))" by (metis h sorted_sort_key)
  moreover have "q \<in> set (h # rest)" by (metis h q(1) set_sort)
  ultimately have "f h \<le> f q" by auto
  then have "h = q" using older [OF hq] q(2) by (cases "h = q") (auto simp: f_def)
  then show ?thesis using n h by simp
qed

text \<open>
  An approval reaches the next run: the moment a reviewer approves a request, the actions
  handed to the next run of that task hold its fingerprint, and the gate of that run lets
  exactly this call through (provided the earlier approvals of the task lie before it).
\<close>

theorem approval_reaches_next_run:
  assumes ids: "ids_ok en" and q: "get_request en i = Some q" "q_status q = Q_PENDING"
    and cat: "aq_category q \<noteq> human_question_category"
    and act: "tool_and_args (aq_action q) = (t, PDict a)"
    and fp: "action_fingerprint sha t (PDict a) = Some d" "d \<noteq> []"
    and older: "\<And>r. r \<in> set (en_requests en) \<Longrightarrow> q_status r = Q_APPROVED \<Longrightarrow> \<exists>u < now. q_resolved_at r = Some u"
  shows "let approved = read_approved_actions sha
               (snd (resolve_approval sha now i True resolver why en)) (aq_task q) (aq_tenant q) approved_actions_max
         in 0 < count_digests approved d
            \<and> fst (gate_review ord sha (Some t) (PDict a) (make_gate policy cats approved)) = None"
proof -
  define q' where "q' = claimed Q_APPROVED now resolver why q"
  define en1 where "en1 = snd (resolve_approval sha now i True resolver why en)"
  have rows: "en_requests en1 = map (\<lambda>r. if aq_id r = i then claimed Q_APPROVED now resolver why r else r) (en_requests en)"
    using resolve_won(2) [OF q, of sha now True resolver why] by (simp add: en1_def update_request_def)
  have qi: "aq_id q = i" "q \<in> set (en_requests en)" using q(1) by (auto simp: get_request_def find_Some_iff)
  define qs where "qs = filter (is_approval_of (aq_task q) (aq_tenant q)) (en_requests en1)"
  have uniq: "r = q" if "r \<in> set (en_requests en)" "aq_id r = i" for r
    using get_request_member [OF ids that(1)] that(2) q(1) by simp
  have q': "q' \<in> set qs" "q_resolved_at q' = Some now"
    using qi cat by (force simp: qs_def rows q'_def is_approval_of_def)+
  have "\<exists>u < now. q_resolved_at r = Some u" if "r \<in> set qs" "r \<noteq> q'" for r
    using that uniq older by (auto simp: qs_def rows q'_def is_approval_of_def split: if_splits)
  from newest_first_hd [OF q' this] obtain rest where "newest_first qs = q' # rest" by blast
  then have top: "q' \<in> set (approved_requests_of_task en1 (aq_task q) (aq_tenant q) approved_actions_max)"
    by (simp add: approved_requests_of_task_def qs_def approved_actions_max_def)
  have "row_digest sha q' = Some d" using act fp by (simp add: row_digest_def q'_def)
  with top have pos: "0 < count_digests (read_approved_actions sha en1 (aq_task q) (aq_tenant q) approved_actions_max) d"
    using fp(2) by (auto simp: read_approved_actions_def count_entries filter_empty_conv length_greater_0_conv)
  define g where "g = make_gate policy cats (read_approved_actions sha en1 (aq_task q) (aq_tenant q) approved_actions_max)"
  have "ag_authorized g d \<noteq> 0" using pos by (simp add: g_def make_gate_def)
  then have "fst (gate_review ord sha (Some t) (PDict a) g) = None"
    using fp by (auto simp: gate_review_def redeem_def split: option.split)
  then show ?thesis using pos by (simp add: g_def en1_def Let_def)
qed

section \<open>From a human to a call\<close>

text \<open>
  C1. No gated call without a human: in the log of every finished run that was handed the
  approved actions of its task, each call of a tool the policy gives to a human has a
  fingerprint that a reviewer approved for this very task and tenant, and a fingerprint occurs
  at most as often as it was approved, in the main calls and in the read-only batches together
  (provided the tool that does nothing, which stands in for a decision without a tool, is not
  itself gated).
\<close>

theorem gated_calls_need_human_approval:
  fixes g :: approval_gate
  assumes g: "g = make_gate policy cats (read_approved_actions (dp_sha dp) en k tenant limit)"
    and run: "run_agent dp task b thr prices (Some g) pre w = Inr (st, lp)"
    and noop: "\<not> is_gated (dp_set_order dp) g (Some ''noop'')"
  shows "(\<forall>(t, a) \<in> set (tool_calls_of (as_steps st)).
            is_gated (dp_set_order dp) g (Some t) \<longrightarrow>
              (\<exists>q \<in> set (en_requests en). is_approval_of k tenant q
                 \<and> action_fingerprint (dp_sha dp) t (PDict a) = row_digest (dp_sha dp) q
                 \<and> row_digest (dp_sha dp) q \<noteq> None))
         \<and> (\<forall>d. spends dp g d (tool_calls_of (as_steps st)) \<le> human_approvals (dp_sha dp) en k tenant d)"
proof -
  obtain g' where s: "gate_spent dp g g' (tool_calls_of (as_steps st))"
    using run_gate_spent [OF run noop] by blast
  have auth: "ag_authorized g d \<le> human_approvals (dp_sha dp) en k tenant d" for d
    using handed_approvals by (simp add: g make_gate_def)
  have "\<exists>q \<in> set (en_requests en). is_approval_of k tenant q
                 \<and> action_fingerprint (dp_sha dp) t (PDict a) = row_digest (dp_sha dp) q
                 \<and> row_digest (dp_sha dp) q \<noteq> None"
    if "(t, a) \<in> set (tool_calls_of (as_steps st))" "is_gated (dp_set_order dp) g (Some t)" for t a
  proof -
    from gate_spent_paid [OF s that]
    obtain d where d: "action_fingerprint (dp_sha dp) t (PDict a) = Some d" "0 < ag_authorized g d" by blast
    then have "0 < human_approvals (dp_sha dp) en k tenant d" using auth [of d] by simp
    then show ?thesis using d(1) by (auto simp: human_approvals_def filter_empty_conv)
  qed
  moreover have "spends dp g d (tool_calls_of (as_steps st)) \<le> human_approvals (dp_sha dp) en k tenant d" for d
    using gate_spent_le [OF s, of d] auth [of d] by simp
  ultimately show ?thesis by blast
qed

section \<open>Witnesses\<close>

definition approved_engine :: engine where
  "approved_engine = demo_engine\<lparr>en_requests := [demo_row\<lparr>q_status := Q_APPROVED, q_resolved_at := Some 7\<rparr>]\<rparr>"

definition echo_gate :: "pydict list \<Rightarrow> approval_gate" where
  "echo_gate approved = make_gate (Some echo_policy) [(''echo'', ''code_changes'')] approved"

lemma gated_calls_need_human_approval_witness:
  "\<exists>st lp. run_agent (scripted_deps [calling ''echo'' [], finishing] []) some_task default_budgets 3 None
             (Some (echo_gate (read_approved_actions (\<lambda>s. s) approved_engine ''t'' ''a'' 20))) None (0, 0)
           = Inr (st, lp)
         \<and> (''echo'', []) \<in> set (tool_calls_of (as_steps st))
         \<and> (\<exists>q \<in> set (en_requests approved_engine). is_approval_of ''t'' ''a'' q)"
proof -
  define g where "g = echo_gate (read_approved_actions (\<lambda>s. s) approved_engine ''t'' ''a'' 20)"
  define run where "run = run_agent (scripted_deps [calling ''echo'' [], finishing] []) some_task default_budgets 3 None
             (Some g) None (0, 0)"
  have "case run of Inr (st, lp) \<Rightarrow> tool_calls_of (as_steps st) = [(''echo'', [])] | Inl _ \<Rightarrow> False"
    unfolding run_def g_def by code_simp
  from Inr_of [OF this] obtain st lp where r: "run = Inr (st, lp)"
    and cs: "tool_calls_of (as_steps st) = [(''echo'', [])]" by blast
  have gated: "is_gated (\<lambda>ns. ns) g (Some ''echo'')" and noop: "\<not> is_gated (\<lambda>ns. ns) g (Some ''noop'')"
    unfolding g_def by code_simp+
  have ord: "dp_set_order (scripted_deps ds rs) = (\<lambda>ns. ns)" "dp_sha (scripted_deps ds rs) = (\<lambda>s. s)" for ds rs
    by (simp_all add: scripted_deps_def)
  have gd: "g = make_gate (Some echo_policy) [(''echo'', ''code_changes'')]
      (read_approved_actions (dp_sha (scripted_deps [calling ''echo'' [], finishing] [])) approved_engine ''t'' ''a'' 20)"
    by (simp add: g_def echo_gate_def ord)
  from gated_calls_need_human_approval [OF gd r [unfolded run_def]] noop gated
  have "\<exists>q \<in> set (en_requests approved_engine). is_approval_of ''t'' ''a'' q"
    by (auto simp: ord cs)
  then show ?thesis using r cs by (auto simp: run_def g_def)
qed

lemma parked_call_gets_request_witness:
  "\<exists>q. fst (request_approval_if_needed (\<lambda>s. s) demo_words 5 (blank_execution 0 ''t'') ''a'' ''p'' None
         (Some echo_policy) ''code_changes'' [(''tool'', PStr ''echo''), (''args'', PDict [])]
         (demo_engine\<lparr>en_requests := [], en_execs := [blank_execution 0 ''t''],
                       en_tasks := [demo_task\<lparr>et_status := T_IN_PROGRESS\<rparr>]\<rparr>)) = Some q
     \<and> q_status q = Q_PENDING"
proof -
  define en where "en = demo_engine\<lparr>en_requests := [], en_execs := [blank_execution 0 ''t''],
                       en_tasks := [demo_task\<lparr>et_status := T_IN_PROGRESS\<rparr>]\<rparr>"
  have "fst (gate_review (\<lambda>ns. ns) (\<lambda>s. s) (Some ''echo'') (PDict [])
      (make_gate (Some echo_policy) [(''echo'', ''code_changes'')] [])) = Some ''code_changes''"
    by code_simp
  then obtain g' where gate: "gate_review (\<lambda>ns. ns) (\<lambda>s. s) (Some ''echo'') (PDict [])
      (make_gate (Some echo_policy) [(''echo'', ''code_changes'')] []) = (Some ''code_changes'', g')"
    by (metis prod.collapse)
  have e: "blank_execution 0 ''t'' \<in> set (en_execs en)"
    "get_task en (ex_task (blank_execution 0 ''t'')) = Some (demo_task\<lparr>et_status := T_IN_PROGRESS\<rparr>)"
    "et_status (demo_task\<lparr>et_status := T_IN_PROGRESS\<rparr>) \<noteq> T_AWAITING_HUMAN_APPROVAL"
    by (simp_all add: en_def get_task_def blank_execution_def demo_task_def)
  note got = parked_call_gets_request [OF gate e, where wd = demo_words and now = 5
      and tenant = "''a''" and project = "''p''" and raw = None
      and action = "[(''tool'', PStr ''echo''), (''args'', PDict [])]"]
  show ?thesis using got unfolding en_def by (auto split: prod.splits option.splits)
qed

lemma approval_reaches_next_run_witness:
  "fst (gate_review (\<lambda>ns. ns) (\<lambda>s. s) (Some ''echo'') (PDict [])
      (echo_gate (read_approved_actions (\<lambda>s. s)
         (snd (resolve_approval (\<lambda>s. s) 7 0 True None None demo_engine)) ''t'' ''a'' approved_actions_max))) = None"
proof -
  have act: "tool_and_args (aq_action demo_row) = (''echo'', PDict [])"
    by (simp add: tool_and_args_def demo_row_def dget_def py_or_def py_str_def)
  have "case action_fingerprint (\<lambda>s. s) ''echo'' (PDict []) of None \<Rightarrow> False | Some d \<Rightarrow> d \<noteq> []" by code_simp
  then obtain d where fp: "action_fingerprint (\<lambda>s. s) ''echo'' (PDict []) = Some d" "d \<noteq> []"
    by (auto split: option.splits)
  have "aq_tenant demo_row = ''a''" by (simp add: demo_row_def)
  then show ?thesis
    using approval_reaches_next_run [OF demo_engine_facts(1,2,3,5) act fp, where now = 7 and resolver = None
        and why = None and ord = "\<lambda>ns. ns" and policy = "Some echo_policy"
        and cats = "[(''echo'', ''code_changes'')]"]
    by (simp add: demo_engine_facts echo_gate_def Let_def) (simp add: demo_engine_def demo_row_def)
qed

end
