(* ===== verification/Site.thy ===== *)
theory Site
  imports ApprovalRun PlanProgress
begin

text \<open>
  The database as the orchestrator and the workers see it: the tasks, runs and approval
  requests of ApprovalEngine, with the projects, agents, teams, plans, dependencies and
  assignments around them, \<^verbatim>\<open>apps/api-server/src/api_server/db/domain/\<close>, and the notes
  both leave in the audit of a task. Columns no operation reads are left out.
\<close>

section \<open>Rows\<close>

record project_row =
  pj_id :: string
  pj_tenant :: string
  pj_slug :: string
  pj_status :: string
  pj_deleted :: bool
  pj_policy :: "pydict option"
  pj_team :: "string option"
  pj_model :: pydict
  pj_worker_config :: pyval
  pj_paused :: bool

record agent_row =
  ar_id :: string
  ar_tenant :: string
  ar_type :: agent_type
  ar_deleted :: bool
  ar_scope :: string
  ar_project :: "string option"
  ar_role :: string
  ar_model :: pydict
  ar_user :: "string option"

record team_row =
  tm_id :: string
  tm_tenant :: string
  tm_model :: pydict

record plan_row =
  pl_id :: string
  pl_tenant :: string
  pl_slug :: string
  pl_status :: plan_status
  pl_tasks :: "pyval list"

record human_assignment =
  ha_tenant :: string
  ha_task :: string
  ha_agent :: string
  ha_user :: "string option"
  ha_at :: instant
  ha_status :: string

text \<open>The columns of a run that its own operations do not read: who ran it, and since when.\<close>

record run_meta =
  rm_agent :: "string option"
  rm_created :: instant

section \<open>What the audit of a task says\<close>

datatype verdict_label = Approve | Reject | UnknownVerdict

record reviewer_verdict =
  rv_label :: verdict_label
  rv_failed_criterion :: string
  rv_evidence :: string
  rv_what_to_fix :: string
  rv_criteria :: "pyval list"
  rv_targets :: "string list"
  rv_classes :: "string list"

datatype note_body =
    ReviewInconclusive "string option" int
  | EscalatedApprove exec_status "string option"
  | ReviewApproved "pyval list"
  | ReviewRejected reviewer_verdict bool
  | LostWork string string
  | ReviewStuck
  | TaskUnassignable
  | PresetCleared string
  | SealedBySweeper nat "int option"
  | RecoveredBySweeper nat exec_status "string option" bool "int option"

type_synonym task_note = "string \<times> note_body"

section \<open>The database\<close>

record site =
  si_engine :: engine
  si_runs :: "nat \<Rightarrow> run_meta"
  si_projects :: "project_row list"
  si_agents :: "agent_row list"
  si_teams :: "team_row list"
  si_members :: "(string \<times> string) list"
  si_plans :: "plan_row list"
  si_deps :: "(string \<times> string) list"
  si_assignments :: "human_assignment list"
  si_notes :: "task_note list"
  si_paused_tenants :: "string list"

datatype site_error =
    IllegalMove task_transition_error
  | RunError exec_error
  | CrossTenant
  | TaskNotVisible
  | BadAction

definition site_task :: "site \<Rightarrow> string \<Rightarrow> engine_task option" where
  "site_task s i = get_task (si_engine s) i"

definition site_tasks :: "site \<Rightarrow> engine_task list" where
  "site_tasks s = en_tasks (si_engine s)"

definition site_runs :: "site \<Rightarrow> executions" where
  "site_runs s = en_execs (si_engine s)"

definition put_task :: "engine_task \<Rightarrow> site \<Rightarrow> site" where
  "put_task t s = s\<lparr>si_engine := update_engine_task (et_id t) (\<lambda>_. t) (si_engine s)\<rparr>"

definition add_note :: "string \<Rightarrow> note_body \<Rightarrow> site \<Rightarrow> site" where
  "add_note i b s = s\<lparr>si_notes := si_notes s @ [(i, b)]\<rparr>"

definition find_project :: "site \<Rightarrow> string \<Rightarrow> project_row option" where
  "find_project s i = find (\<lambda>p. pj_id p = i) (si_projects s)"

definition find_agent :: "site \<Rightarrow> string \<Rightarrow> agent_row option" where
  "find_agent s i = find (\<lambda>a. ar_id a = i) (si_agents s)"

definition find_plan :: "site \<Rightarrow> string \<Rightarrow> plan_row option" where
  "find_plan s i = find (\<lambda>p. pl_id p = i) (si_plans s)"

text \<open>A project as dispatch loads it: not deleted.\<close>

definition live_project :: "site \<Rightarrow> string \<Rightarrow> project_row option" where
  "live_project s i = find (\<lambda>p. pj_id p = i \<and> \<not> pj_deleted p) (si_projects s)"

text \<open>The guarded move of TaskMachine on a row.\<close>

definition move_task :: "agent_type option \<Rightarrow> task_status \<Rightarrow> engine_task \<Rightarrow> (site_error, engine_task) result" where
  "move_task assignee target t =
     bindr (with_error IllegalMove
              (transition_task_status assignee target \<lparr>status = et_status t, retry_count = 0\<rparr>))
       (\<lambda>m. Inr (t\<lparr>et_status := status m\<rparr>))"

section \<open>Lemmas\<close>

lemma put_task_simps [simp]:
  "si_runs (put_task t s) = si_runs s" "si_projects (put_task t s) = si_projects s"
  "si_agents (put_task t s) = si_agents s" "si_teams (put_task t s) = si_teams s"
  "si_members (put_task t s) = si_members s" "si_plans (put_task t s) = si_plans s"
  "si_deps (put_task t s) = si_deps s" "si_assignments (put_task t s) = si_assignments s"
  "si_notes (put_task t s) = si_notes s" "si_paused_tenants (put_task t s) = si_paused_tenants s" "site_runs (put_task t s) = site_runs s"
  "en_requests (si_engine (put_task t s)) = en_requests (si_engine s)"
  by (simp_all add: put_task_def site_runs_def update_engine_task_def)

lemma add_note_simps [simp]:
  "si_engine (add_note i b s) = si_engine s" "si_runs (add_note i b s) = si_runs s"
  "si_projects (add_note i b s) = si_projects s" "si_agents (add_note i b s) = si_agents s"
  "si_plans (add_note i b s) = si_plans s" "si_deps (add_note i b s) = si_deps s"
  "si_assignments (add_note i b s) = si_assignments s"
  "si_notes (add_note i b s) = si_notes s @ [(i, b)]"
  "site_task (add_note i b s) = site_task s" "site_tasks (add_note i b s) = site_tasks s"
  "site_runs (add_note i b s) = site_runs s"
  by (simp_all add: add_note_def site_task_def site_tasks_def site_runs_def fun_eq_iff)

lemma site_task_id: "site_task s i = Some t \<Longrightarrow> et_id t = i"
  by (auto simp: site_task_def get_task_def find_Some_iff)

lemma find_distinct: "distinct (map key xs) \<Longrightarrow> x \<in> set xs \<Longrightarrow> find (\<lambda>y. key y = key x) xs = Some x"
  by (induction xs) (auto simp: rev_image_eqI)

lemma site_task_mem: "distinct (map et_id (site_tasks s)) \<Longrightarrow> t \<in> set (site_tasks s) \<Longrightarrow> site_task s (et_id t) = Some t"
  by (simp add: site_task_def site_tasks_def get_task_def find_distinct)

lemma find_map_key:
  "find (\<lambda>x. key x = j) (map (\<lambda>x. if key x = key t then t else x) xs)
     = (if key t = j \<and> (\<exists>x \<in> set xs. key x = j) then Some t else find (\<lambda>x. key x = j) xs)"
  by (induction xs) auto

lemma site_task_put:
  assumes "site_task s (et_id t) = Some u"
  shows "site_task (put_task t s) j = (if j = et_id t then Some t else site_task s j)"
proof -
  have "\<exists>x \<in> set (en_tasks (si_engine s)). et_id x = et_id t"
    using assms by (auto simp: site_task_def get_task_def find_Some_iff)
  then show ?thesis
    unfolding site_task_def get_task_def put_task_def update_engine_task_def
    by (simp add: find_map_key [of et_id])
qed

lemma move_task_Inr:
  assumes "move_task assignee target t = Inr u"
  shows "u = t\<lparr>et_status := target\<rparr>"
  using assms
  by (auto simp: move_task_def result_ok transition_task_status_def Let_def split: if_splits)

lemma move_task_ok: "can_transition assignee (et_status t) target \<Longrightarrow> move_task assignee target t = Inr (t\<lparr>et_status := target\<rparr>)"
  by (simp add: move_task_def transition_task_status_def can_transition_def Let_def)

end
