(* ===== verification/RunLife.thy ===== *)
theory RunLife
  imports Site
begin

text \<open>
  The life of a run in a worker, \<^verbatim>\<open>apps/workers/src/workers/execution.py\<close>: whether a
  message may start one, what it is started with, and what its end does to the task, with the
  verdict of a reviewer (\<^verbatim>\<open>apps/api-server/src/api_server/reviewer_bridge.py\<close>). Git, the
  container and the broker are outside: the result a container leaves is an argument. Each
  phase is one transaction. Parameters, in \<open>worker_env\<close>: the hash and the wording of
  approvals, the price catalog, the reader of a verdict, the resolution of a model, the
  effective guardrails, the platform's preset, the slug of an organisation.
\<close>

record worker_env =
  we_sha :: "string \<Rightarrow> string"
  we_words :: wording
  we_catalog :: catalog
  we_parse :: "string \<Rightarrow> reviewer_verdict"
  we_resolve_model :: "pydict \<Rightarrow> (string \<times> string, pydict) result"
  we_guardrails :: "project_row option \<Rightarrow> pyval"
  we_default_preset :: string
  we_org_slug :: "string \<Rightarrow> string option"
  we_mismatch_note :: "string \<Rightarrow> string"

section \<open>Policies a run is started with\<close>

record builtin_policy =
  bp_slug :: string
  bp_decisions :: pydict
  bp_unlisted :: string

definition all_categories :: "string \<Rightarrow> pydict" where
  "all_categories v = map (\<lambda>c. (c, PStr v)) approval_categories"

definition builtin_policies :: "builtin_policy list" where
  "builtin_policies =
     [\<lparr>bp_slug = ''sandbox'', bp_decisions = all_categories ''auto'', bp_unlisted = ''auto''\<rparr>,
      \<lparr>bp_slug = ''development'',
       bp_decisions = AList.update ''external_http_post'' (PStr ''auto'')
         (AList.update ''external_http_get'' (PStr ''auto'')
            (AList.update ''git_commit'' (PStr ''auto'')
               (AList.update ''code_changes'' (PStr ''auto'') (all_categories ''human_required'')))),
       bp_unlisted = ''auto''\<rparr>,
      \<lparr>bp_slug = ''production'', bp_decisions = all_categories ''human_required'',
       bp_unlisted = ''human_required''\<rparr>,
      \<lparr>bp_slug = ''customer-external'', bp_decisions = all_categories ''human_required'',
       bp_unlisted = ''human_required''\<rparr>]"

definition default_approval_policy_preset :: string where
  "default_approval_policy_preset = ''development''"

definition builtin_preset :: "string \<Rightarrow> builtin_policy option" where
  "builtin_preset slug =
     (case find (\<lambda>p. bp_slug p = slug) builtin_policies of
        Some p \<Rightarrow> Some p
      | None \<Rightarrow> find (\<lambda>p. bp_slug p = default_approval_policy_preset) builtin_policies)"

definition preset_decisions :: "string \<Rightarrow> pydict" where
  "preset_decisions slug = (case builtin_preset slug of Some p \<Rightarrow> bp_decisions p | None \<Rightarrow> [])"

definition review_run_policy :: pydict where
  "review_run_policy =
     [(''categories'', PDict (map (\<lambda>c. (c, PStr ''auto'')) approval_categories)),
      (''unlisted_category'', PStr ''auto'')]"

definition resolve_effective_approval_policy :: "worker_env \<Rightarrow> project_row option \<Rightarrow> pydict" where
  "resolve_effective_approval_policy env project =
     (case project of
        Some p \<Rightarrow>
          (case pj_policy p of
             Some pol \<Rightarrow> if pol \<noteq> [] then pol else preset_decisions (we_default_preset env)
           | None \<Rightarrow> preset_decisions (we_default_preset env))
      | None \<Rightarrow> preset_decisions (we_default_preset env))"

section \<open>Starting\<close>

record run_request =
  rq_task :: string
  rq_tenant :: string
  rq_agent :: "string option"
  rq_review :: bool
  rq_claim :: "string option"
  rq_model :: pydict

definition claim_is_current :: "string option \<Rightarrow> string option \<Rightarrow> bool" where
  "claim_is_current task_claim request_claim \<longleftrightarrow> request_claim = None \<or> task_claim = request_claim"

definition launchable_status_by_kind :: "bool \<Rightarrow> task_status" where
  "launchable_status_by_kind review = (if review then T_IN_REVIEW else T_IN_PROGRESS)"

definition task_is_launchable :: "task_status \<Rightarrow> bool \<Rightarrow> bool" where
  "task_is_launchable st review \<longleftrightarrow> st = launchable_status_by_kind review"

record prepared_run =
  pr_execution :: nat
  pr_policy :: pydict
  pr_approved :: "pydict list"
  pr_guardrails :: pyval
  pr_worktree :: "(string \<times> string \<times> string \<times> string \<times> string) option"
  pr_review_worktree :: "(string \<times> string) option"
  pr_prior_work :: bool
  pr_model :: "(string \<times> string, pydict) result"

datatype start_outcome = Prepared prepared_run | SkippedRun string

text \<open>The slugs a worktree needs, when all of them are there.\<close>

definition worktree_slugs ::
  "worker_env \<Rightarrow> site \<Rightarrow> engine_task \<Rightarrow> project_row option
     \<Rightarrow> (string \<times> project_row \<times> plan_row) option" where
  "worktree_slugs env s t project =
     (case (et_plan t, project) of
        (Some plan, Some p) \<Rightarrow>
          if pj_slug p = [] then None
          else (case (find_plan s plan, we_org_slug env (et_tenant t)) of
                  (Some pl, Some org) \<Rightarrow>
                    if pl_slug pl = [] \<or> org = [] then None else Some (org, p, pl)
                | _ \<Rightarrow> None)
      | _ \<Rightarrow> None)"

definition has_prior_work :: "site \<Rightarrow> engine_task \<Rightarrow> bool" where
  "has_prior_work s t \<longleftrightarrow>
     (\<exists>u \<in> set (site_tasks s). et_plan u = et_plan t \<and> et_plan u \<noteq> None \<and> et_id u \<noteq> et_id t
                              \<and> et_status u \<in> {T_DONE, T_IN_REVIEW})"

definition open_run :: "instant \<Rightarrow> run_request \<Rightarrow> site \<Rightarrow> nat \<times> site" where
  "open_run now rq s =
     (let i = length (site_runs s) in
      (i, s\<lparr>si_engine := (si_engine s)\<lparr>en_execs := create_running_execution (rq_task rq) (site_runs s)\<rparr>,
            si_runs := (si_runs s)(i := \<lparr>rm_agent = rq_agent rq, rm_created = now\<rparr>)\<rparr>))"

definition supersede_site :: "instant \<Rightarrow> string \<Rightarrow> site \<Rightarrow> site" where
  "supersede_site now i s =
     s\<lparr>si_engine := (si_engine s)\<lparr>en_execs := supersede_running_executions now i (site_runs s)\<rparr>\<rparr>"

definition prepare_run ::
  "worker_env \<Rightarrow> instant \<Rightarrow> run_request \<Rightarrow> site \<Rightarrow> (site_error, start_outcome \<times> site) result" where
  "prepare_run env now rq s =
     (case site_task s (rq_task rq) of
        None \<Rightarrow> Inl CrossTenant
      | Some t \<Rightarrow>
          if et_tenant t \<noteq> rq_tenant rq then Inl CrossTenant
          else if \<not> rq_review rq \<and> \<not> claim_is_current (et_claim t) (rq_claim rq)
          then Inr (SkippedRun ''stale_claim'', s)
          else
            let s1 = supersede_site now (rq_task rq) s in
            if \<not> task_is_launchable (et_status t) (rq_review rq)
            then Inr (SkippedRun ''ineligible_task_status'', s1)
            else
              let (i, s2) = open_run now rq s1;
                  project = find_project s2 (et_project t);
                  slugs = worktree_slugs env s2 t project
              in Inr (Prepared
                   \<lparr>pr_execution = i,
                    pr_policy = (if rq_review rq then review_run_policy
                                 else resolve_effective_approval_policy env project),
                    pr_approved = (if rq_review rq then []
                                   else read_approved_actions (we_sha env) (si_engine s2) (rq_task rq)
                                          (rq_tenant rq) approved_actions_max),
                    pr_guardrails = we_guardrails env project,
                    pr_worktree = (if rq_review rq then None
                                   else map_option (\<lambda>(org, p, pl).
                                          (org, pj_slug p, pj_id p, pl_id pl, pl_slug pl)) slugs),
                    pr_review_worktree = (if rq_review rq
                                          then map_option (\<lambda>(org, p, pl). (org, pj_slug p)) slugs
                                          else None),
                    pr_prior_work = (\<not> rq_review rq \<and> slugs \<noteq> None \<and> has_prior_work s2 t),
                    pr_model = we_resolve_model env (rq_model rq)\<rparr>, s2))"

section \<open>A run that parks and cannot be resumed\<close>

text \<open>The dash of the first text is one character of the source, two here.\<close>

definition review_parked_text :: string where
  "review_parked_text = ''[review run parked on a sensitive action: a review cannot wait for approval -- its workspace is read-only and its only product is the verdict]''"

definition no_payload_text :: string where
  "no_payload_text = ''runtime reported awaiting_human_approval but emitted no approval payload''"

definition seal_invalid_park :: "bool \<Rightarrow> pydict option \<Rightarrow> exec_result \<Rightarrow> exec_result" where
  "seal_invalid_park review approval res =
     (if r_status res \<noteq> X_AWAITING_HUMAN_APPROVAL then res
      else if review
      then res\<lparr>r_status := X_FAILED, r_abort_code := Some ''review_parked'',
               r_output := Some (strip ((case r_output res of Some out \<Rightarrow> out | None \<Rightarrow> [])
                                        @ [CHR 0x0A, CHR 0x0A] @ review_parked_text))\<rparr>
      else if approval = None \<or> approval = Some []
      then res\<lparr>r_status := X_FAILED, r_abort_code := Some ''approval_payload_missing'',
               r_output := Some no_payload_text\<rparr>
      else res)"

section \<open>What the end of a run does to the task\<close>

type_synonym task_move = "(task_status \<times> task_status) option"

definition target_after_run :: "exec_status \<Rightarrow> engine_task \<Rightarrow> task_status" where
  "target_after_run st t =
     (if st = X_DONE then (if et_reviewer t \<noteq> None then T_IN_REVIEW else T_DONE)
      else if st = X_CANCELLED then T_CANCELLED
      else T_BLOCKED)"

definition transition_task_after_run ::
  "instant \<Rightarrow> string \<Rightarrow> exec_status \<Rightarrow> site \<Rightarrow> (site_error, task_move \<times> site) result" where
  "transition_task_after_run now i st s =
     (if st = X_AWAITING_HUMAN_APPROVAL then Inr (None, s)
      else case site_task s i of
             None \<Rightarrow> Inr (None, s)
           | Some t \<Rightarrow>
               if et_status t \<noteq> T_IN_PROGRESS then Inr (None, s)
               else bindr (move_task None (target_after_run st t) t) (\<lambda>t1.
                 let t2 = (if et_status t1 = T_DONE then t1\<lparr>et_completed_at := Some now\<rparr> else t1)
                 in Inr (if et_status t2 = et_status t then None else Some (et_status t, et_status t2),
                         put_task t2 s)))"

text \<open>\<^verbatim>\<open>reviewer_bridge.apply_reviewer_verdict\<close>\<close>

definition apply_reviewer_verdict ::
  "instant \<Rightarrow> string \<Rightarrow> string \<Rightarrow> reviewer_verdict \<Rightarrow> site \<Rightarrow> (site_error, site) result" where
  "apply_reviewer_verdict now i tenant v s =
     (if rv_label v = UnknownVerdict then Inr s
      else case site_task s i of
             None \<Rightarrow> Inl TaskNotVisible
           | Some t \<Rightarrow>
               if et_tenant t \<noteq> tenant then Inl TaskNotVisible
               else if et_status t \<noteq> T_IN_REVIEW then Inr s
               else if rv_label v = Approve
               then bindr (move_task None T_DONE t) (\<lambda>t1.
                      let s1 = put_task (t1\<lparr>et_completed_at := Some now\<rparr>) s
                      in Inr (if rv_criteria v \<noteq> [] then add_note i (ReviewApproved (rv_criteria v)) s1
                              else s1))
               else
                 let n = spent_count t + 1;
                     exhausted = (n \<ge> retry_limit t)
                 in bindr (move_task None (if exhausted then T_BLOCKED else T_BACKLOG)
                             (t\<lparr>et_retry_count := Some n\<rparr>)) (\<lambda>t1.
                      Inr (add_note i (ReviewRejected v exhausted) (put_task t1 s))))"

definition unparseable_verdict :: reviewer_verdict where
  "unparseable_verdict =
     \<lparr>rv_label = Reject, rv_failed_criterion = ''reviewer produced no parseable verdict'',
      rv_evidence = [],
      rv_what_to_fix = ''re-run the review and end with a '' @ ''<'' @ ''verdict>approve|reject<'' @ ''/verdict> tag'',
      rv_criteria = [], rv_targets = [], rv_classes = []\<rparr>"

definition moved :: "string \<Rightarrow> task_status \<Rightarrow> site \<Rightarrow> task_move" where
  "moved i old s =
     (case site_task s i of
        None \<Rightarrow> None
      | Some t \<Rightarrow> if et_status t = old then None else Some (old, et_status t))"

definition apply_review_verdict ::
  "worker_env \<Rightarrow> instant \<Rightarrow> string \<Rightarrow> string \<Rightarrow> exec_result \<Rightarrow> site
     \<Rightarrow> (site_error, task_move \<times> site) result" where
  "apply_review_verdict env now i tenant res s =
     (case site_task s i of
        None \<Rightarrow> Inr (None, s)
      | Some t \<Rightarrow>
          if et_status t \<noteq> T_IN_REVIEW then Inr (None, s)
          else
            let v = we_parse env (case r_output res of Some out \<Rightarrow> out | None \<Rightarrow> []) in
            if rv_label v = UnknownVerdict \<and> r_status res \<noteq> X_DONE
            then
              let n = spent_count t + 1; t1 = t\<lparr>et_retry_count := Some n\<rparr> in
              if n \<ge> retry_limit t
              then bindr (move_task None T_BLOCKED t1) (\<lambda>t2.
                     Inr (Some (T_IN_REVIEW, T_BLOCKED),
                          add_note i (ReviewInconclusive (r_abort_code res) n) (put_task t2 s)))
              else Inr (None, put_task t1 s)
            else
              let v1 = (if rv_label v = UnknownVerdict then unparseable_verdict else v) in
              if rv_label v1 = Approve \<and> r_status res \<noteq> X_DONE
              then bindr (move_task None T_BLOCKED t) (\<lambda>t1.
                     Inr (Some (T_IN_REVIEW, T_BLOCKED),
                          add_note i (EscalatedApprove (r_status res) (r_abort_code res)) (put_task t1 s)))
              else bindr (apply_reviewer_verdict now i tenant v1 s) (\<lambda>s1.
                     Inr (moved i T_IN_REVIEW s1, s1)))"

section \<open>Ending\<close>

definition finalize_site ::
  "worker_env \<Rightarrow> instant \<Rightarrow> nat \<Rightarrow> exec_result \<Rightarrow> site \<Rightarrow> (site_error, site) result" where
  "finalize_site env now i res s =
     bindr (with_error RunError (finalize_execution now (we_catalog env) i res (site_runs s)))
       (\<lambda>db. Inr (s\<lparr>si_engine := (si_engine s)\<lparr>en_execs := db\<rparr>\<rparr>))"

definition update_site_run :: "nat \<Rightarrow> (execution \<Rightarrow> execution) \<Rightarrow> site \<Rightarrow> site" where
  "update_site_run i f s = s\<lparr>si_engine := update_exec i f (si_engine s)\<rparr>"

definition append_note :: "string \<Rightarrow> string option \<Rightarrow> string option" where
  "append_note note out =
     Some (case out of Some x \<Rightarrow> (if x = [] then note else x @ CHR 0x0A # note) | None \<Rightarrow> note)"

text \<open>
  The category and the action of a payload. A truthy action that is no dictionary raises; the
  list of pairs that \<^verbatim>\<open>dict\<close> would accept counts as such.
\<close>

definition approval_action :: "pydict \<Rightarrow> (site_error, pydict) result" where
  "approval_action approval =
     (let v = dget approval ''action'' in
      if \<not> truthy v then Inr []
      else case v of PDict d \<Rightarrow> Inr d | _ \<Rightarrow> Inl BadAction)"

definition approval_category :: "pydict \<Rightarrow> string" where
  "approval_category approval = py_str (dget_default approval ''category'' (PStr []))"

text \<open>The branch of a parked implementer: a request, or a named failure when none is needed.\<close>

definition park_run ::
  "worker_env \<Rightarrow> instant \<Rightarrow> string \<Rightarrow> nat \<Rightarrow> pydict option \<Rightarrow> pydict \<Rightarrow> site
     \<Rightarrow> (site_error, (task_move \<times> bool) \<times> site) result" where
  "park_run env now i x policy approval s =
     (case (find (\<lambda>e. ex_id e = x) (site_runs s), site_task s i) of
        (Some e, Some t) \<Rightarrow>
          (case find_project s (et_project t) of
             None \<Rightarrow> Inr ((None, False), s)
           | Some p \<Rightarrow>
               bindr (approval_action approval) (\<lambda>action.
                 case request_approval_if_needed (we_sha env) (we_words env) now e (et_tenant t)
                        (pj_id p) (pj_policy p) policy (approval_category approval) action (si_engine s) of
                   (Some q, en) \<Rightarrow>
                     (let s1 = s\<lparr>si_engine := en\<rparr> in Inr ((moved i (et_status t) s1, False), s1))
                 | (None, en) \<Rightarrow>
                     bindr (transition_task_after_run now i X_FAILED
                              (update_site_run x (\<lambda>e. e\<lparr>ex_status := X_FAILED,
                                  abort_code := Some ''approval_policy_mismatch'',
                                  completed_at := Some now,
                                  ex_output := append_note (we_mismatch_note env (approval_category approval))
                                                 (ex_output e)\<rparr>) (s\<lparr>si_engine := en\<rparr>)))
                       (\<lambda>(mv, s1). Inr ((mv, True), s1))))
      | _ \<Rightarrow> Inr ((None, False), s))"

text \<open>
  Whether the run took the implementer's path comes back with the move of the task. The events
  of guardrails and the measure of a review's contamination, written beside, are left out: both
  are isolated, and neither touches what is modelled.
\<close>

definition finalize_and_transition ::
  "worker_env \<Rightarrow> instant \<Rightarrow> run_request \<Rightarrow> nat \<Rightarrow> exec_result \<Rightarrow> pydict option \<Rightarrow> pydict option \<Rightarrow> site
     \<Rightarrow> (site_error, (task_move \<times> bool) \<times> site) result" where
  "finalize_and_transition env now rq x res approval policy s =
     bindr (finalize_site env now x res s) (\<lambda>s1.
       if rq_review rq
       then bindr (apply_review_verdict env now (rq_task rq) (rq_tenant rq) res s1)
              (\<lambda>(mv, s2). Inr ((mv, False), s2))
       else case (r_status res = X_AWAITING_HUMAN_APPROVAL, approval) of
              (True, Some (kv # a)) \<Rightarrow> park_run env now (rq_task rq) x policy (kv # a) s1
            | _ \<Rightarrow> bindr (transition_task_after_run now (rq_task rq) (r_status res) s1)
                     (\<lambda>(mv, s2). Inr ((mv, True), s2)))"

section \<open>Work that did not reach the branch\<close>

definition block_task_with_lost_work ::
  "string \<Rightarrow> string \<Rightarrow> string \<Rightarrow> site \<Rightarrow> (site_error, task_move \<times> site) result" where
  "block_task_with_lost_work i code note s =
     (case site_task s i of
        None \<Rightarrow> Inr (None, s)
      | Some t \<Rightarrow>
          if et_status t \<noteq> T_IN_REVIEW then Inr (None, s)
          else bindr (move_task None T_BLOCKED t) (\<lambda>t1.
                 Inr (Some (T_IN_REVIEW, T_BLOCKED), add_note i (LostWork code note) (put_task t1 s))))"

text \<open>
  The mark on the run whose commit or push failed, with the note and the step of a conflict
  (\<^verbatim>\<open>_conflict_note\<close>, arguments here). An exception is logged and nothing changes.
\<close>

definition mark_commit_failed ::
  "nat \<Rightarrow> string \<Rightarrow> string \<Rightarrow> exec_step option \<Rightarrow> string \<Rightarrow> site \<Rightarrow> task_move \<times> site" where
  "mark_commit_failed x code note conflict i s =
     (case find (\<lambda>e. ex_id e = x) (site_runs s) of
        None \<Rightarrow> (None, s)
      | Some e \<Rightarrow>
          let e1 = e\<lparr>abort_code := Some code, ex_output := append_note note (ex_output e)\<rparr> in
          case (case conflict of
                  None \<Rightarrow> Inr e1
                | Some st \<Rightarrow> apply_steps_rollup (steps_log e1 @ [st]) e1) of
            Inl _ \<Rightarrow> (None, s)
          | Inr e2 \<Rightarrow>
              (case block_task_with_lost_work i code note (update_site_run x (\<lambda>_. e2) s) of
                 Inl _ \<Rightarrow> (None, s)
               | Inr r \<Rightarrow> r))"

section \<open>Lemmas\<close>

lemma supersede_site_simps [simp]:
  "site_tasks (supersede_site now i s) = site_tasks s" "site_task (supersede_site now i s) = site_task s"
  "site_runs (supersede_site now i s) = supersede_running_executions now i (site_runs s)"
  "si_projects (supersede_site now i s) = si_projects s" "si_plans (supersede_site now i s) = si_plans s"
  by (simp_all add: supersede_site_def site_tasks_def site_task_def site_runs_def get_task_def fun_eq_iff)

lemma open_run_simps:
  assumes "open_run now rq s = (i, s')"
  shows "site_tasks s' = site_tasks s" "site_task s' = site_task s" "i = length (site_runs s)"
    "site_runs s' = site_runs s @ [blank_execution i (rq_task rq)]" "si_projects s' = si_projects s"
    "en_requests (si_engine s') = en_requests (si_engine s)"
  using assms
  by (auto simp: open_run_def Let_def site_tasks_def site_task_def site_runs_def get_task_def
      create_running_execution_def fun_eq_iff)

text \<open>The rows of a task that are running.\<close>

definition running_of :: "string \<Rightarrow> site \<Rightarrow> executions" where
  "running_of i s = filter (\<lambda>e. ex_task e = i \<and> ex_status e = X_RUNNING) (site_runs s)"

lemma supersede_row_keeps:
  "ex_task (supersede_row now i e) = ex_task e" "ex_id (supersede_row now i e) = ex_id e"
  "ex_task e \<noteq> i \<Longrightarrow> supersede_row now i e = e"
  "ex_task e = i \<Longrightarrow> ex_status (supersede_row now i e) \<noteq> X_RUNNING"
  by (auto simp: supersede_row_def seal_terminal_execution_def is_sealed_def is_terminal_execution_status_def)

lemma supersede_leaves_none: "running_of i (supersede_site now i s) = []"
  by (auto simp: running_of_def supersede_running_executions_def filter_empty_conv supersede_row_keeps)

lemma supersede_keeps_others:
  "j \<noteq> i \<Longrightarrow> filter (\<lambda>e. ex_task e = j) (supersede_running_executions now i db) = filter (\<lambda>e. ex_task e = j) db"
  by (induction db) (auto simp: supersede_running_executions_def supersede_row_keeps)

lemma from_in_progress: "can_transition None T_IN_PROGRESS (target_after_run st t)"
  by (simp add: target_after_run_def can_transition_def allowed_transitions_def)


text \<open>Off \<open>in_progress\<close>, by the table.\<close>

definition stamped :: "instant \<Rightarrow> task_status \<Rightarrow> engine_task \<Rightarrow> engine_task" where
  "stamped now st t = (if st = T_DONE then t\<lparr>et_status := st, et_completed_at := Some now\<rparr> else t\<lparr>et_status := st\<rparr>)"

lemma stamped_simps [simp]: "et_id (stamped now st t) = et_id t" "et_status (stamped now st t) = st"
  by (simp_all add: stamped_def)

lemma target_not_in_progress: "target_after_run st t \<noteq> T_IN_PROGRESS"
  by (simp add: target_after_run_def)

lemma transition_after_run:
  assumes "site_task s i = Some t" and "et_status t = T_IN_PROGRESS" and "st \<noteq> X_AWAITING_HUMAN_APPROVAL"
  shows "transition_task_after_run now i st s =
           Inr (Some (T_IN_PROGRESS, target_after_run st t), put_task (stamped now (target_after_run st t) t) s)"
  using assms target_not_in_progress [of st t]
  by (simp add: transition_task_after_run_def move_task_ok from_in_progress stamped_def)

lemma transition_after_run_id:
  assumes "transition_task_after_run now i st s = Inr (mv, s')"
  shows "s' = s \<and> mv = None \<or>
    (\<exists>t. site_task s i = Some t \<and> et_status t = T_IN_PROGRESS \<and> s' = put_task (stamped now (target_after_run st t) t) s)"
proof (cases "st = X_AWAITING_HUMAN_APPROVAL")
  case True
  then show ?thesis using assms by (simp add: transition_task_after_run_def)
next
  case False
  show ?thesis
  proof (cases "site_task s i")
    case None
    then show ?thesis using assms False by (simp add: transition_task_after_run_def)
  next
    case (Some t)
    show ?thesis
    proof (cases "et_status t = T_IN_PROGRESS")
      case True
      then show ?thesis using assms transition_after_run [OF Some True False, of now] Some by auto
    next
      case False
      then show ?thesis using assms Some \<open>st \<noteq> X_AWAITING_HUMAN_APPROVAL\<close> by (simp add: transition_task_after_run_def)
    qed
  qed
qed

section \<open>Starting a run\<close>

text \<open>
  A run starts only for its own tenant, on the status dispatch left for its kind, and, for
  an implementer, by a message of the claim the task carries now; then the new row is the only
  running one of its task. A message of another claim changes nothing at all, a message for a
  task that moved on only closes orphan rows, and no task is touched in any case.
\<close>

theorem launch_is_guarded:
  "case prepare_run env now rq s of
     Inl err \<Rightarrow> err = CrossTenant \<and> (\<forall>t. site_task s (rq_task rq) = Some t \<longrightarrow> et_tenant t \<noteq> rq_tenant rq)
   | Inr (SkippedRun code, s') \<Rightarrow>
       site_tasks s' = site_tasks s \<and> length (site_runs s') = length (site_runs s)
       \<and> (code = ''stale_claim'' \<and> s' = s
          \<or> code = ''ineligible_task_status'' \<and> running_of (rq_task rq) s' = [])
   | Inr (Prepared p, s') \<Rightarrow>
       (\<exists>t. site_task s (rq_task rq) = Some t \<and> et_tenant t = rq_tenant rq
            \<and> et_status t = (if rq_review rq then T_IN_REVIEW else T_IN_PROGRESS)
            \<and> (rq_review rq \<or> rq_claim rq = None \<or> rq_claim rq = et_claim t))
       \<and> site_tasks s' = site_tasks s
       \<and> running_of (rq_task rq) s' = [blank_execution (pr_execution p) (rq_task rq)]
       \<and> (\<forall>j. j \<noteq> rq_task rq \<longrightarrow> filter (\<lambda>e. ex_task e = j) (site_runs s')
                                = filter (\<lambda>e. ex_task e = j) (site_runs s))"
proof (cases "site_task s (rq_task rq)")
  case None
  then show ?thesis by (simp add: prepare_run_def)
next
  case (Some t)
  define s1 where "s1 = supersede_site now (rq_task rq) s"
  obtain i s2 where o: "open_run now rq s1 = (i, s2)" by (metis prod.exhaust)
  note open_facts = open_run_simps [OF o]
  have none: "running_of (rq_task rq) s1 = []" by (simp add: s1_def supersede_leaves_none)
  have len: "length (site_runs s1) = length (site_runs s)"
    by (simp add: s1_def supersede_running_executions_def)
  have one: "running_of (rq_task rq) s2 = [blank_execution i (rq_task rq)]"
    using none by (simp add: running_of_def open_facts blank_execution_def)
  have others: "\<forall>j. j \<noteq> rq_task rq \<longrightarrow> filter (\<lambda>e. ex_task e = j) (site_runs s2) = filter (\<lambda>e. ex_task e = j) (site_runs s)"
    by (simp add: open_facts s1_def supersede_keeps_others blank_execution_def)
  show ?thesis
  proof (cases "et_tenant t = rq_tenant rq \<and> (rq_review rq \<or> claim_is_current (et_claim t) (rq_claim rq))")
    case False
    then show ?thesis using Some by (auto simp: prepare_run_def)
  next
    case ok: True
    show ?thesis
    proof (cases "task_is_launchable (et_status t) (rq_review rq)")
      case False
      then show ?thesis using Some ok none len
        by (auto simp: prepare_run_def Let_def s1_def)
    next
      case True
      then show ?thesis using Some ok o one others open_facts
        by (auto simp: prepare_run_def Let_def s1_def claim_is_current_def task_is_launchable_def
            launchable_status_by_kind_def split: if_splits)
    qed
  qed
qed

section \<open>Ending a run\<close>

lemma finalize_site_simps:
  assumes "finalize_site env now x res s = Inr s'"
  shows "site_tasks s' = site_tasks s" "site_task s' = site_task s" "si_projects s' = si_projects s"
    "find_project s' = find_project s" "si_plans s' = si_plans s" "si_notes s' = si_notes s"
    "en_requests (si_engine s') = en_requests (si_engine s)"
    "finalize_execution now (we_catalog env) x res (site_runs s) = Inr (site_runs s')"
  using assms
  by (auto simp: finalize_site_def result_ok site_tasks_def site_task_def site_runs_def get_task_def
      find_project_def fun_eq_iff)

lemma rollup_keeps_id: "apply_steps_rollup steps e = Inr e' \<Longrightarrow> ex_id e' = ex_id e \<and> ex_task e' = ex_task e"
  by (auto simp: apply_steps_rollup_def split: sum.splits)

lemma write_usage_id: "write_usage now cat res e = Inr e' \<Longrightarrow> ex_id e' = ex_id e \<and> ex_task e' = ex_task e"
  by (auto simp: write_usage_def result_ok apply_price_snapshot_def dest!: rollup_keeps_id
      split: prod.splits option.splits)

lemma finalize_row_id: "finalize_row now cat res e = Inr e' \<Longrightarrow> ex_id e' = ex_id e \<and> ex_task e' = ex_task e"
  by (auto simp: finalize_row_def result_ok split: if_splits prod.splits
      dest!: write_usage_id rollup_keeps_id)

lemma find_updated_row:
  "find (\<lambda>e. ex_id e = x) db = Some e \<Longrightarrow> ex_id e' = x \<Longrightarrow> find (\<lambda>e. ex_id e = x) (update_row x (\<lambda>_. e') db) = Some e'"
  by (induction db) (auto simp: update_row_def split: if_splits)

lemma finalize_keeps_row:
  assumes "finalize_execution now cat x res db = Inr db'" and "find (\<lambda>e. ex_id e = x) db = Some e"
  shows "\<exists>e'. find (\<lambda>e. ex_id e = x) db' = Some e' \<and> ex_task e' = ex_task e \<and> ex_id e' = x"
proof -
  obtain e' where e': "finalize_row now cat res e = Inr e'" "db' = update_row x (\<lambda>_. e') db"
    using assms by (auto simp: finalize_execution_def result_ok)
  have "ex_id e = x" using assms(2) by (auto simp: find_Some_iff)
  then show ?thesis using finalize_row_id [OF e'(1)] find_updated_row [OF assms(2), of e'] e'(2) by auto
qed

text \<open>The outcome of a parked run.\<close>

lemma request_opened:
  assumes "request_approval_if_needed sha wd now e tenant project raw policy category action en = (r, en')"
  shows "if requires_human_approval (case policy of None \<Rightarrow> raw | Some p \<Rightarrow> Some p) category
         then (\<exists>q. r = Some q \<and> q \<in> set (en_requests en') \<and> q_status q = Q_PENDING \<and> q_execution q = ex_id e
                   \<and> aq_category q = category)
              \<and> (\<forall>i. get_task en' i = (if i = ex_task e
                    then map_option (\<lambda>t. if et_status t \<noteq> T_AWAITING_HUMAN_APPROVAL
                           then t\<lparr>et_status := T_AWAITING_HUMAN_APPROVAL, et_agent := None\<rparr> else t) (get_task en i)
                    else get_task en i))
         else r = None \<and> en' = en"
proof (cases "requires_human_approval (case policy of None \<Rightarrow> raw | Some p \<Rightarrow> Some p) category")
  case True
  define f :: "engine_task \<Rightarrow> engine_task" where
    "f = (\<lambda>t. if et_status t \<noteq> T_AWAITING_HUMAN_APPROVAL
              then t\<lparr>et_status := T_AWAITING_HUMAN_APPROVAL, et_agent := None\<rparr> else t)"
  have f: "\<And>t. et_id (f t) = et_id t" by (simp add: f_def)
  obtain q en1 where q: "r = Some q" "q_status q = Q_PENDING" "q_execution q = ex_id e" "aq_category q = category"
    and en: "en' = update_engine_task (ex_task e) f en1" "en_tasks en1 = en_tasks en"
      "en_requests en1 = en_requests en @ [q]"
    using assms True by (auto simp: request_approval_if_needed_def Let_def f_def)
  have "get_task en' i = (if i = ex_task e then map_option f (get_task en i) else get_task en i)" for i
    using get_task_update [of f, OF f, of "ex_task e" en1 i] en(2)
    by (auto simp: en(1) get_task_def option.map_ident)
  then show ?thesis using True q en by (auto simp: f_def)
next
  case False
  then show ?thesis using assms by (simp add: request_approval_if_needed_def Let_def)
qed

text \<open>Where a task goes when the run of an implementer ends.\<close>

definition status_after_run ::
  "pydict option \<Rightarrow> pydict option \<Rightarrow> exec_result \<Rightarrow> project_row \<Rightarrow> engine_task \<Rightarrow> task_status" where
  "status_after_run approval policy res p t =
     (if r_status res = X_AWAITING_HUMAN_APPROVAL
      then (if requires_human_approval (case policy of None \<Rightarrow> pj_policy p | Some q \<Rightarrow> Some q)
                 (approval_category (the approval))
            then T_AWAITING_HUMAN_APPROVAL else T_BLOCKED)
      else target_after_run (r_status res) t)"

lemma park_run_moves:
  assumes run: "park_run env now i x policy approval s = Inr ((mv, impl), s')"
    and t: "site_task s i = Some t" "et_status t = T_IN_PROGRESS"
    and p: "find_project s (et_project t) = Some p"
    and e: "find (\<lambda>e. ex_id e = x) (site_runs s) = Some e" "ex_task e = i"
  shows "\<exists>u. site_task s' i = Some u \<and> mv = Some (T_IN_PROGRESS, et_status u)
           \<and> et_status u = (if requires_human_approval (case policy of None \<Rightarrow> pj_policy p | Some q \<Rightarrow> Some q)
                                  (approval_category approval)
                            then T_AWAITING_HUMAN_APPROVAL else T_BLOCKED)"
proof -
  obtain action where a: "approval_action approval = Inr action"
    using run t p e by (cases "approval_action approval") (auto simp: park_run_def)
  obtain r en where req: "request_approval_if_needed (we_sha env) (we_words env) now e (et_tenant t)
      (pj_id p) (pj_policy p) policy (approval_category approval) action (si_engine s) = (r, en)"
    by (metis prod.exhaust)
  note opened = request_opened [OF req]
  show ?thesis
  proof (cases "requires_human_approval (case policy of None \<Rightarrow> pj_policy p | Some q \<Rightarrow> Some q) (approval_category approval)")
    case True
    then obtain q where q: "r = Some q" using opened by auto
    have s': "s' = s\<lparr>si_engine := en\<rparr>" "mv = moved i (et_status t) s'"
      using run t(1) p e(1) a req q by (auto simp: park_run_def Let_def)
    have "site_task s' i = Some (t\<lparr>et_status := T_AWAITING_HUMAN_APPROVAL, et_agent := None\<rparr>)"
      using opened True t e(2) by (auto simp: s' site_task_def)
    then show ?thesis using True t(2) by (simp add: s'(2) moved_def)
  next
    case False
    then have r: "r = None" "en = si_engine s" using opened by auto
    define s1 where "s1 = update_site_run x (\<lambda>e. e\<lparr>ex_status := X_FAILED,
        abort_code := Some ''approval_policy_mismatch'', completed_at := Some now,
        ex_output := append_note (we_mismatch_note env (approval_category approval)) (ex_output e)\<rparr>) s"
    have t1: "site_task s1 i = Some t"
      using t(1) by (simp add: s1_def update_site_run_def site_task_def get_task_def)
    have "transition_task_after_run now i X_FAILED s1 = Inr (mv, s')"
      using run t(1) p e(1) a req r by (auto simp: park_run_def Let_def s1_def result_ok)
    then have "mv = Some (T_IN_PROGRESS, T_BLOCKED)" "s' = put_task (stamped now T_BLOCKED t) s1"
      using transition_after_run [OF t1 t(2), of X_FAILED now] by (auto simp: target_after_run_def)
    moreover have "site_task (put_task (stamped now T_BLOCKED t) s1) i = Some (stamped now T_BLOCKED t)"
      using site_task_put [of s1 "stamped now T_BLOCKED t" t i] site_task_id [OF t1] t1 by simp
    ultimately show ?thesis using False by auto
  qed
qed

text \<open>
  C7. A finished run frees its task: when the end of an implementer's run commits, the task
  is no longer in progress, and where it went is decided by the result alone: review or done,
  cancelled, waiting for a human when the run parked on an action its policy gates, blocked in
  every other case. The move that is announced is the one that happened.
\<close>

theorem finished_run_frees_task:
  assumes fin: "finalize_and_transition env now rq x (seal_invalid_park False approval res) approval policy s
                  = Inr ((mv, impl), s')"
    and "\<not> rq_review rq"
    and t: "site_task s (rq_task rq) = Some t" "et_status t = T_IN_PROGRESS"
    and p: "find_project s (et_project t) = Some p"
    and e: "find (\<lambda>e. ex_id e = x) (site_runs s) = Some e" "ex_task e = rq_task rq"
  shows "\<exists>u. site_task s' (rq_task rq) = Some u \<and> mv = Some (T_IN_PROGRESS, et_status u)
           \<and> et_status u = status_after_run approval policy (seal_invalid_park False approval res) p t
           \<and> et_status u \<noteq> T_IN_PROGRESS"
proof -
  define res1 where "res1 = seal_invalid_park False approval res"
  obtain s1 where s1: "finalize_site env now x res1 s = Inr s1"
    using fin by (auto simp: finalize_and_transition_def result_ok res1_def)
  note same = finalize_site_simps [OF s1]
  have t1: "site_task s1 (rq_task rq) = Some t" and p1: "find_project s1 (et_project t) = Some p"
    using t p by (simp_all add: same)
  show ?thesis
  proof (cases "r_status res1 = X_AWAITING_HUMAN_APPROVAL")
    case True
    then obtain kv a where ap: "approval = Some (kv # a)"
      unfolding res1_def seal_invalid_park_def
      by (cases approval; cases "the approval") (auto split: if_splits)
    obtain e1 where e1: "find (\<lambda>e. ex_id e = x) (site_runs s1) = Some e1" "ex_task e1 = rq_task rq"
      using finalize_keeps_row [OF same(8) e(1)] e(2) by auto
    have "park_run env now (rq_task rq) x policy (kv # a) s1 = Inr ((mv, impl), s')"
      using fin assms(2) s1 True ap by (simp add: finalize_and_transition_def res1_def)
    from park_run_moves [OF this t1 t(2) p1 e1] show ?thesis
      using True ap by (auto simp: status_after_run_def res1_def)
  next
    case False
    have "transition_task_after_run now (rq_task rq) (r_status res1) s1 = Inr (mv, s')"
      using fin assms(2) s1 False
      by (auto simp: finalize_and_transition_def res1_def result_ok split: bool.splits option.splits list.splits)
    then have m: "mv = Some (T_IN_PROGRESS, target_after_run (r_status res1) t)"
        "s' = put_task (stamped now (target_after_run (r_status res1) t) t) s1"
      using transition_after_run [OF t1 t(2) False, of now] by auto
    have "site_task s' (rq_task rq) = Some (stamped now (target_after_run (r_status res1) t) t)"
      using site_task_put [of s1 "stamped now (target_after_run (r_status res1) t) t" t "rq_task rq"]
        site_task_id [OF t1] t1 m(2) by simp
    then show ?thesis using m(1) False target_not_in_progress
      by (auto simp: status_after_run_def res1_def)
  qed
qed

text \<open>
  The end of a run looks at the status of its task and not at its claim: a run whose row was
  closed long ago still moves a task that is in progress again under another claim.
\<close>

lemma closed_run_moves_new_claim:
  assumes t: "site_task s (rq_task rq) = Some t" "et_status t = T_IN_PROGRESS"
    and e: "find (\<lambda>e. ex_id e = x) (site_runs s) = Some e" "is_sealed e" "length (r_steps res) \<le> length (steps_log e)"
    and r: "\<not> rq_review rq" "r_status res = X_DONE"
  shows "\<exists>s'. finalize_and_transition env now rq x res None policy s
      = Inr ((Some (T_IN_PROGRESS, target_after_run X_DONE t), True), s')"
proof -
  have "finalize_site env now x res s
      = Inr (s\<lparr>si_engine := (si_engine s)\<lparr>en_execs := update_row x (\<lambda>_. e) (site_runs s)\<rparr>\<rparr>)" (is "_ = Inr ?s1")
    using e by (simp add: finalize_site_def finalize_execution_def finalize_row_def with_error_def)
  moreover have "site_task ?s1 (rq_task rq) = Some t" using t(1) by (simp add: site_task_def get_task_def)
  ultimately show ?thesis using transition_after_run [of ?s1 "rq_task rq" t X_DONE now] t(2) r
    by (simp add: finalize_and_transition_def)
qed

section \<open>Reviews\<close>


section \<open>Witnesses\<close>

definition live_task :: "string \<Rightarrow> task_status \<Rightarrow> engine_task" where
  "live_task i st =
     \<lparr>et_id = i, et_tenant = ''a'', et_status = st, et_agent = None, et_retry_count = None,
      et_max_retries = Some 2, et_project = ''pr'', et_plan = Some ''pl'', et_spec_id = PNone,
      et_reviewer = None, et_claim = None, et_started_at = None, et_completed_at = None\<rparr>"

definition demo_agent :: agent_row where
  "demo_agent = \<lparr>ar_id = ''w'', ar_tenant = ''a'', ar_type = A_AI, ar_deleted = False,
     ar_scope = ''project_local'', ar_project = Some ''pr'', ar_role = ''dev'',
     ar_model = [(''provider'', PStr ''x''), (''model'', PStr ''m'')], ar_user = None\<rparr>"

definition demo_project :: project_row where
  "demo_project = \<lparr>pj_id = ''pr'', pj_tenant = ''a'', pj_slug = ''pr'', pj_status = ''active'', pj_deleted = False,
     pj_policy = None, pj_team = None, pj_model = [], pj_worker_config = PNone, pj_paused = False\<rparr>"

definition demo_plan :: plan_row where
  "demo_plan = \<lparr>pl_id = ''pl'', pl_tenant = ''a'', pl_slug = ''pl'', pl_status = P_IN_PROGRESS, pl_tasks = []\<rparr>"

definition demo_site :: "engine_task list \<Rightarrow> executions \<Rightarrow> site" where
  "demo_site ts es =
     \<lparr>si_engine = \<lparr>en_requests = [], en_execs = es, en_tasks = ts, en_audit = []\<rparr>,
      si_runs = (\<lambda>_. \<lparr>rm_agent = Some ''w'', rm_created = 5\<rparr>), si_projects = [demo_project],
      si_agents = [demo_agent], si_teams = [], si_members = [], si_plans = [demo_plan], si_deps = [],
      si_assignments = [], si_notes = [], si_paused_tenants = []\<rparr>"

definition demo_env :: worker_env where
  "demo_env = \<lparr>we_sha = id, we_words = demo_words, we_catalog = [],
     we_parse = (\<lambda>x. unparseable_verdict\<lparr>rv_label := (if x = ''yes'' then Approve else Reject)\<rparr>),
     we_resolve_model = Inr, we_guardrails = (\<lambda>_. PNone), we_default_preset = ''production'',
     we_org_slug = (\<lambda>_. None), we_mismatch_note = id\<rparr>"

definition demo_result :: "exec_status \<Rightarrow> string \<Rightarrow> exec_result" where
  "demo_result st out = \<lparr>r_status = st, r_abort_code = None, r_output = Some out, r_finish_status = None,
     r_iterations = 1, r_steps = [], r_usage = []\<rparr>"

lemmas demo_defs = live_task_def demo_agent_def demo_project_def demo_plan_def demo_site_def demo_env_def demo_result_def

lemma demo_site_simps [simp]:
  "site_task (demo_site ts es) i = find (\<lambda>t. et_id t = i) ts" "site_tasks (demo_site ts es) = ts"
  "site_runs (demo_site ts es) = es" "find_project (demo_site ts es) ''pr'' = Some demo_project"
  by (simp_all add: demo_site_def site_task_def site_tasks_def site_runs_def get_task_def find_project_def demo_project_def)

lemma demo_finalize:
  obtains s1 where "finalize_site demo_env 9 0 (demo_result X_FAILED ''x'') (demo_site ts [blank_execution 0 i]) = Inr s1"
proof -
  have "parse_decimal (py_str (por (PInt 0) (PInt 0))) = Some (Finite 0)" by code_simp
  then show thesis
    using that
    by (simp add: finalize_site_def finalize_execution_def finalize_row_def is_sealed_def blank_execution_def
        is_terminal_execution_status_def write_usage_def demo_result_def snapshot_execution_prices_def
        apply_steps_rollup_def steps_rollup_def billable_cost_usd_def usage_int_def py_int_def dget_default_def
        catalog_cost_total_def)
qed

lemma launch_is_guarded_witness:
  "\<exists>p s'. prepare_run demo_env 7 \<lparr>rq_task = ''t'', rq_tenant = ''a'', rq_agent = Some ''w'', rq_review = False,
        rq_claim = None, rq_model = []\<rparr> (demo_site [live_task ''t'' T_IN_PROGRESS] [blank_execution 0 ''t'']) = Inr (Prepared p, s')
     \<and> running_of ''t'' s' = [blank_execution (pr_execution p) ''t'']"
proof -
  let ?s = "demo_site [live_task ''t'' T_IN_PROGRESS] [blank_execution 0 ''t'']"
  let ?rq = "\<lparr>rq_task = ''t'', rq_tenant = ''a'', rq_agent = Some ''w'', rq_review = False, rq_claim = None, rq_model = []\<rparr>"
  have "\<exists>p s'. prepare_run demo_env 7 ?rq ?s = Inr (Prepared p, s')"
    by (simp add: prepare_run_def live_task_def claim_is_current_def task_is_launchable_def
        launchable_status_by_kind_def Let_def split: prod.split)
  then obtain p s' where run: "prepare_run demo_env 7 ?rq ?s = Inr (Prepared p, s')" by blast
  from launch_is_guarded [where env = demo_env and now = 7 and rq = ?rq and s = ?s] have "running_of ''t'' s' = [blank_execution (pr_execution p) ''t'']"
    by (simp add: run)
  with run show ?thesis by blast
qed

lemma finished_run_frees_task_witness:
  "\<exists>mv impl s' u.
     finalize_and_transition demo_env 9 \<lparr>rq_task = ''t'', rq_tenant = ''a'', rq_agent = Some ''w'', rq_review = False,
         rq_claim = None, rq_model = []\<rparr> 0 (seal_invalid_park False None (demo_result X_FAILED ''x'')) None None
       (demo_site [live_task ''t'' T_IN_PROGRESS] [blank_execution 0 ''t'']) = Inr ((mv, impl), s')
     \<and> site_task s' ''t'' = Some u \<and> et_status u = T_BLOCKED"
proof -
  let ?s = "demo_site [live_task ''t'' T_IN_PROGRESS] [blank_execution 0 ''t'']"
  let ?rq = "\<lparr>rq_task = ''t'', rq_tenant = ''a'', rq_agent = Some ''w'', rq_review = False,
         rq_claim = None, rq_model = []\<rparr>"
  have seal: "seal_invalid_park False None (demo_result X_FAILED ''x'') = demo_result X_FAILED ''x''"
    by (simp add: seal_invalid_park_def demo_result_def)
  obtain s1 where s1: "finalize_site demo_env 9 0 (demo_result X_FAILED ''x'') ?s = Inr s1" by (rule demo_finalize)
  have t1: "site_task s1 ''t'' = Some (live_task ''t'' T_IN_PROGRESS)"
    using finalize_site_simps(2) [OF s1] by (simp add: live_task_def)
  obtain mv impl s' where run: "finalize_and_transition demo_env 9 ?rq 0
      (seal_invalid_park False None (demo_result X_FAILED ''x'')) None None ?s = Inr ((mv, impl), s')"
    using s1 transition_after_run [OF t1, of X_FAILED 9]
    by (simp add: finalize_and_transition_def seal) (simp add: demo_result_def live_task_def)
  have "\<exists>u. site_task s' ''t'' = Some u \<and> mv = Some (T_IN_PROGRESS, et_status u)
      \<and> et_status u = status_after_run None None (seal_invalid_park False None (demo_result X_FAILED ''x''))
            demo_project (live_task ''t'' T_IN_PROGRESS)
      \<and> et_status u \<noteq> T_IN_PROGRESS"
    by (rule finished_run_frees_task [OF run, where e = "blank_execution 0 ''t''", simplified])
      (simp_all add: live_task_def blank_execution_def demo_project_def)
  moreover have "status_after_run None None (seal_invalid_park False None (demo_result X_FAILED ''x''))
            demo_project (live_task ''t'' T_IN_PROGRESS) = T_BLOCKED"
    by (simp add: seal) (simp add: status_after_run_def demo_result_def target_after_run_def)
  ultimately obtain u where "site_task s' ''t'' = Some u" "et_status u = T_BLOCKED" by auto
  with run show ?thesis by blast
qed


end
