(* ===== verification/RunResult.thy ===== *)
theory RunResult
  imports Executions "HOL-Library.Sublist"
begin

text \<open>
  What a container leaves, \<^verbatim>\<open>apps/workers/src/workers/run_result.py\<close> and the reading of
  its output in \<^verbatim>\<open>execution.py\<close>: one JSON event per line, streamed while it runs and kept
  in full in its log, folded into the result of the run. Parameters: the JSON parser, the
  printed form of a value in a message. A line is what the code reads as one; the log is the
  list of its lines.
\<close>

section \<open>Lines\<close>

text \<open>One line: a JSON object, or nothing.\<close>

definition parse_line :: "(string \<Rightarrow> pyval option) \<Rightarrow> string \<Rightarrow> pydict option" where
  "parse_line loads line =
     (case line of
        CHR ''{'' # _ \<Rightarrow> (case loads line of Some (PDict d) \<Rightarrow> Some d | _ \<Rightarrow> None)
      | _ \<Rightarrow> None)"

text \<open>The events of some lines: what parses and names its kind.\<close>

definition event_kind :: "pydict \<Rightarrow> string" where
  "event_kind e = py_str (dget e ''event'')"

definition line_events :: "(string \<Rightarrow> pyval option) \<Rightarrow> string list \<Rightarrow> pydict list" where
  "line_events loads lines =
     filter (\<lambda>e. truthy (dget e ''event'')) (List.map_filter (parse_line loads) lines)"

section \<open>The live stream\<close>

record stream_state =
  sm_steps :: "pydict list"
  sm_final :: pyval
  sm_error :: pyval

definition drain_event :: "pydict \<Rightarrow> stream_state \<Rightarrow> stream_state" where
  "drain_event e sm =
     (let kind = event_kind e in
      case (kind = ''step'', dget e ''step'') of
        (True, PDict st) \<Rightarrow> sm\<lparr>sm_steps := sm_steps sm @ [st]\<rparr>
      | _ \<Rightarrow>
          if kind = ''execution.finished'' then sm\<lparr>sm_final := dget e ''result''\<rparr>
          else if kind = ''execution.error'' then sm\<lparr>sm_error := dget e ''error''\<rparr>
          else sm)"

definition drain :: "(string \<Rightarrow> pyval option) \<Rightarrow> string list \<Rightarrow> stream_state" where
  "drain loads lines =
     fold drain_event (line_events loads lines)
       \<lparr>sm_steps = [], sm_final = PNone, sm_error = PNone\<rparr>"

section \<open>The log\<close>

definition scan_event :: "pydict \<Rightarrow> pydict option \<times> pyval \<Rightarrow> pydict option \<times> pyval" where
  "scan_event e acc =
     (case acc of (finished, err) \<Rightarrow>
        if event_kind e = ''execution.finished''
        then (case dget e ''result'' of PDict d \<Rightarrow> (Some d, err) | _ \<Rightarrow> (finished, err))
        else if event_kind e = ''execution.error'' then (finished, dget e ''error'')
        else (finished, err))"

definition scan_logs_for_terminal ::
  "(string \<Rightarrow> pyval option) \<Rightarrow> string list \<Rightarrow> pydict option \<times> pyval" where
  "scan_logs_for_terminal loads logs = fold scan_event (line_events loads logs) (None, PNone)"

section \<open>The result\<close>

definition status_of_name :: "string \<Rightarrow> exec_status" where
  "status_of_name n =
     (if n = ''running'' then X_RUNNING
      else if n = ''done'' then X_DONE
      else if n = ''aborted'' then X_ABORTED
      else if n = ''failed'' then X_FAILED
      else if n = ''awaiting_human_approval'' then X_AWAITING_HUMAN_APPROVAL
      else if n = ''cancelled'' then X_CANCELLED
      else if n = ''needs_human_review'' then X_NEEDS_HUMAN_REVIEW
      else X_OTHER n)"

definition empty_usage :: pydict where
  "empty_usage = [(''iterations'', PInt 0), (''total_tokens'', PInt 0), (''cost_usd'', PFloat ''0.0'' (Finite 0)),
                  (''tool_calls'', PInt 0), (''model_calls'', PInt 0)]"

text \<open>Text columns hold a string or nothing; what else a container could report is printed.\<close>

definition text_column :: "pyval \<Rightarrow> string option" where
  "text_column v = (case v of PNone \<Rightarrow> None | _ \<Rightarrow> Some (py_str v))"

definition result_of_dict :: "pydict list \<Rightarrow> pydict \<Rightarrow> (exec_error, exec_result) result" where
  "result_of_dict steps d =
     bindr (with_error IntError (py_int (dget_default d ''iterations'' (PInt 0)))) (\<lambda>n.
       Inr \<lparr>r_status = status_of_name (py_str (dget_default d ''status'' (PStr ''failed''))),
            r_abort_code = text_column (dget d ''abort_code''),
            r_output = text_column (dget d ''output''),
            r_finish_status = text_column (dget d ''finish_status''),
            r_iterations = n,
            r_steps = map (\<lambda>st. \<lparr>step_fields = st, step_price = None\<rparr>) steps,
            r_usage = (case dget d ''usage'' of PDict u \<Rightarrow> if u = [] then empty_usage else u
                       | _ \<Rightarrow> empty_usage)\<rparr>)"

definition failed_result :: "pydict list \<Rightarrow> string \<Rightarrow> exec_result" where
  "failed_result steps detail =
     \<lparr>r_status = X_FAILED, r_abort_code = None, r_output = Some detail, r_finish_status = None,
      r_iterations = 0, r_steps = map (\<lambda>st. \<lparr>step_fields = st, step_price = None\<rparr>) steps,
      r_usage = empty_usage\<rparr>"

text \<open>
  The final result is a dictionary or missing here: the runtime writes nothing else, and
  anything else would raise on its first lookup. In it, a usage or an approval that is no
  dictionary counts as missing.
\<close>

definition assemble_result ::
  "(string \<Rightarrow> pyval option) \<Rightarrow> pydict option \<Rightarrow> pydict list \<Rightarrow> bool \<Rightarrow> int \<Rightarrow> pyval \<Rightarrow> string list
     \<Rightarrow> (exec_error, exec_result) result" where
  "assemble_result loads final_result steps timed_out exit_code runtime_error logs =
     (case final_result of
        Some d \<Rightarrow> result_of_dict steps d
      | None \<Rightarrow>
          let clean = (logs \<noteq> [] \<and> exit_code = 0 \<and> \<not> timed_out \<and> runtime_error = PNone);
              (recovered, recovered_error) =
                (if clean then scan_logs_for_terminal loads logs else (None, PNone))
          in case recovered of
               Some d \<Rightarrow> result_of_dict steps d
             | None \<Rightarrow>
                 let err = (if recovered_error \<noteq> PNone then recovered_error else runtime_error) in
                 Inr (failed_result steps
                   (if err \<noteq> PNone then ''agent-runtime error: '' @ py_str err
                    else if timed_out then ''agent-runtime container timed out''
                    else ''agent-runtime container exited '' @ py_str (PInt exit_code) @ '' with no result'')))"

section \<open>The end of a container\<close>

record container_result =
  cr_exit_code :: int
  cr_timed_out :: bool
  cr_logs :: "string list"

definition cancelled_result :: "exec_result \<Rightarrow> exec_result" where
  "cancelled_result res =
     res\<lparr>r_status := X_CANCELLED, r_abort_code := Some ''cancelled'',
         r_output := Some ''cancelled by operator''\<rparr>"

text \<open>
  The end of \<^verbatim>\<open>_launch_and_stream\<close>: the lines that reached the stream, what the runner
  returned (nothing when the launch failed, with the text of the error), whether a cancel was
  seen. The approval payload comes with the result.
\<close>

definition launch_failed :: "pydict list \<Rightarrow> string \<Rightarrow> exec_result" where
  "launch_failed steps why =
     (failed_result steps (take 2000 why))\<lparr>r_abort_code := Some ''container_launch_failed'', r_usage := []\<rparr>"

definition final_dict :: "pyval \<Rightarrow> pydict option" where
  "final_dict v = (case v of PDict d \<Rightarrow> Some d | _ \<Rightarrow> None)"

definition collect_result ::
  "(string \<Rightarrow> pyval option) \<Rightarrow> string list \<Rightarrow> string + container_result \<Rightarrow> bool
     \<Rightarrow> (exec_error, exec_result \<times> pydict option) result" where
  "collect_result loads streamed outcome cancel_seen =
     (let sm = drain loads streamed in
      case outcome of
        Inl why \<Rightarrow> Inr (launch_failed (sm_steps sm) why, None)
      | Inr c \<Rightarrow>
          let final_result = final_dict (sm_final sm) in
          bindr (assemble_result loads final_result (sm_steps sm) (cr_timed_out c) (cr_exit_code c)
                   (sm_error sm) (cr_logs c)) (\<lambda>res.
            Inr (if cancel_seen \<and> final_result = None then cancelled_result res else res,
                 case final_result of
                   None \<Rightarrow> None
                 | Some d \<Rightarrow> (case dget d ''approval'' of PDict a \<Rightarrow> Some a | _ \<Rightarrow> None))))"

section \<open>What survives a lossy stream\<close>






text \<open>A payload travels with the line of the stream only: without it a parked run has none.\<close>

lemma payload_lost_with_line:
  assumes "final_dict (sm_final (drain loads streamed)) = None"
    and "collect_result loads streamed (Inr c) cancelled = Inr (res, approval)"
  shows "approval = None"
  using assms by (auto simp: collect_result_def Let_def result_ok)



end
