(* ===== verification/Reconciler.thy ===== *)
theory Reconciler
  imports RunLife RunResult
begin

text \<open>
  The beats that bring back what an event or a worker lost,
  \<^verbatim>\<open>apps/workers/src/workers/maintenance/reconciler.py\<close> and
  \<^verbatim>\<open>stale_sweeper.py\<close>. A beat reads its candidates and then handles each in a
  transaction of its own, so the handling of one candidate is a definition and the pass folds
  it. The column \<^verbatim>\<open>updated_at\<close>, which the database sets on every write, is an argument
  (\<open>upd\<close>), and so are the containers the daemon lists. Instants are seconds. The moves a beat
  announces are returned.
\<close>

definition stuck_task_min_age :: instant where "stuck_task_min_age = 300"
definition review_min_age :: instant where "review_min_age = 300"
definition orphan_claim_min_age :: instant where "orphan_claim_min_age = 1800"
definition review_max_stuck :: instant where "review_max_stuck = 3600"

definition terminal_execution_statuses :: "exec_status set" where
  "terminal_execution_statuses = {X_DONE, X_FAILED, X_ABORTED, X_CANCELLED, X_NEEDS_HUMAN_REVIEW}"

section \<open>Decisions\<close>

definition stuck_task_needs_reconcile :: "exec_status option \<Rightarrow> instant option \<Rightarrow> instant \<Rightarrow> instant \<Rightarrow> bool" where
  "stuck_task_needs_reconcile latest completed now min_age \<longleftrightarrow>
     (case latest of None \<Rightarrow> False | Some st \<Rightarrow> st \<in> terminal_execution_statuses)
     \<and> (case completed of None \<Rightarrow> False | Some c \<Rightarrow> c + min_age \<le> now)"

definition is_orphan_claim_candidate :: "bool \<Rightarrow> bool" where
  "is_orphan_claim_candidate human_route \<longleftrightarrow> \<not> human_route"

definition is_human_route :: "site \<Rightarrow> engine_task \<Rightarrow> bool" where
  "is_human_route s t \<longleftrightarrow>
     (case et_agent t of
        None \<Rightarrow> False
      | Some a \<Rightarrow> (case find_agent s a of None \<Rightarrow> False | Some r \<Rightarrow> ar_type r = A_HUMAN))
     \<or> (\<exists>h \<in> set (si_assignments s). ha_task h = et_id t)"

definition orphan_claim_needs_revert :: "instant option \<Rightarrow> instant \<Rightarrow> instant \<Rightarrow> bool" where
  "orphan_claim_needs_revert started now min_age \<longleftrightarrow>
     (case started of None \<Rightarrow> False | Some st \<Rightarrow> st + min_age \<le> now)"

definition execution_belongs_to_claim :: "instant \<Rightarrow> instant option \<Rightarrow> bool" where
  "execution_belongs_to_claim born started \<longleftrightarrow>
     (case started of None \<Rightarrow> True | Some st \<Rightarrow> st \<le> born)"

definition orphan_review_needs_reannounce :: "bool \<Rightarrow> bool \<Rightarrow> instant option \<Rightarrow> instant \<Rightarrow> instant \<Rightarrow> bool" where
  "orphan_review_needs_reannounce reviewer_is_ai has_running latest_completed now min_age \<longleftrightarrow>
     reviewer_is_ai \<and> \<not> has_running
     \<and> (case latest_completed of None \<Rightarrow> True | Some c \<Rightarrow> c + min_age \<le> now)"

definition orphan_review_should_escalate :: "instant \<Rightarrow> instant \<Rightarrow> instant \<Rightarrow> bool" where
  "orphan_review_should_escalate touched now max_stuck \<longleftrightarrow> touched + max_stuck \<le> now"

section \<open>Tasks that stay in progress\<close>

text \<open>The newest run of a task, the later row of two of one instant.\<close>

definition newer_run :: "site \<Rightarrow> execution \<Rightarrow> execution option \<Rightarrow> execution option" where
  "newer_run s e best =
     (case best of
        None \<Rightarrow> Some e
      | Some b \<Rightarrow> if rm_created (si_runs s (ex_id b)) \<le> rm_created (si_runs s (ex_id e)) then Some e else best)"

definition latest_run :: "site \<Rightarrow> string \<Rightarrow> execution option" where
  "latest_run s i = fold (newer_run s) (filter (\<lambda>e. ex_task e = i) (site_runs s)) None"

definition run_of_claim :: "site \<Rightarrow> string \<Rightarrow> instant option \<Rightarrow> execution option" where
  "run_of_claim s i started =
     (case latest_run s i of
        None \<Rightarrow> None
      | Some e \<Rightarrow> if execution_belongs_to_claim (rm_created (si_runs s (ex_id e))) started then Some e else None)"

definition cleared_claim :: "engine_task \<Rightarrow> engine_task" where
  "cleared_claim t = t\<lparr>et_agent := None, et_started_at := None, et_claim := None\<rparr>"

definition revert_orphan_claim ::
  "instant \<Rightarrow> instant \<Rightarrow> string \<Rightarrow> site \<Rightarrow> (site_error, task_move \<times> site) result" where
  "revert_orphan_claim min_age now i s =
     (case site_task s i of
        None \<Rightarrow> Inr (None, s)
      | Some t \<Rightarrow>
          if et_status t \<noteq> T_IN_PROGRESS then Inr (None, s)
          else if \<not> is_orphan_claim_candidate (is_human_route s t) then Inr (None, s)
          else if \<not> orphan_claim_needs_revert (et_started_at t) now min_age then Inr (None, s)
          else if run_of_claim s i (et_started_at t) \<noteq> None then Inr (None, s)
          else bindr (move_task None T_READY t) (\<lambda>t1.
                 Inr (Some (T_IN_PROGRESS, T_READY), put_task (cleared_claim t1) s)))"

text \<open>One candidate, with the start of its claim as the beat read it.\<close>

definition reconcile_stuck_task ::
  "instant \<Rightarrow> instant \<Rightarrow> string \<Rightarrow> instant option \<Rightarrow> site \<Rightarrow> (site_error, task_move \<times> site) result" where
  "reconcile_stuck_task min_age now i started s =
     (case run_of_claim s i started of
        None \<Rightarrow> revert_orphan_claim orphan_claim_min_age now i s
      | Some e \<Rightarrow>
          if \<not> stuck_task_needs_reconcile (Some (ex_status e)) (completed_at e) now min_age then Inr (None, s)
          else transition_task_after_run now i (ex_status e) s)"

definition stuck_candidates :: "instant \<Rightarrow> instant \<Rightarrow> site \<Rightarrow> (string \<times> instant option) list" where
  "stuck_candidates min_age now s =
     map (\<lambda>t. (et_id t, et_started_at t))
       (filter (\<lambda>t. et_status t = T_IN_PROGRESS
                    \<and> (case et_started_at t of None \<Rightarrow> False | Some st \<Rightarrow> st + min_age < now)) (site_tasks s))"

type_synonym announcement = "string \<times> task_status \<times> task_status"

text \<open>An exception ends a pass; what was committed before it stays.\<close>

fun reconcile_each ::
  "('c \<Rightarrow> site \<Rightarrow> (site_error, announcement option \<times> site) result) \<Rightarrow> 'c list \<Rightarrow> site
     \<Rightarrow> announcement list \<times> site" where
  "reconcile_each f [] s = ([], s)"
| "reconcile_each f (c # cs) s =
     (case f c s of
        Inl _ \<Rightarrow> ([], s)
      | Inr (a, s1) \<Rightarrow>
          (let (as, s2) = reconcile_each f cs s1
           in (case a of None \<Rightarrow> as | Some x \<Rightarrow> x # as, s2)))"

definition reconcile_stuck_tasks ::
  "instant \<Rightarrow> instant \<Rightarrow> site \<Rightarrow> announcement list \<times> site" where
  "reconcile_stuck_tasks min_age now s =
     reconcile_each (\<lambda>(i, started) s.
         bindr (reconcile_stuck_task min_age now i started s) (\<lambda>(mv, s1).
           Inr (map_option (\<lambda>(old, new). (i, old, new)) mv, s1)))
       (stuck_candidates min_age now s) s"

section \<open>Reviews that were lost\<close>

text \<open>One candidate: left alone, announced again, or handed to a human.\<close>

definition latest_completed :: "site \<Rightarrow> string \<Rightarrow> instant option" where
  "latest_completed s i =
     (let cs = List.map_filter completed_at (filter (\<lambda>e. ex_task e = i) (site_runs s))
      in if cs = [] then None else Some (Max (set cs)))"

definition reviewer_is_ai :: "site \<Rightarrow> string option \<Rightarrow> bool" where
  "reviewer_is_ai s r =
     (case r of None \<Rightarrow> False
      | Some a \<Rightarrow> (case find_agent s a of None \<Rightarrow> False | Some row \<Rightarrow> ar_type row \<noteq> A_HUMAN))"

definition reconcile_orphan_review ::
  "instant \<Rightarrow> instant \<Rightarrow> instant \<Rightarrow> string \<times> string option \<times> instant \<Rightarrow> site
     \<Rightarrow> (site_error, announcement option \<times> site) result" where
  "reconcile_orphan_review min_age max_stuck now c s =
     (case c of (i, reviewer, touched) \<Rightarrow>
        if \<not> orphan_review_needs_reannounce (reviewer_is_ai s reviewer) (running_of i s \<noteq> [])
               (latest_completed s i) now min_age
        then Inr (None, s)
        else if orphan_review_should_escalate touched now max_stuck
        then (case site_task s i of
                None \<Rightarrow> Inr (None, s)
              | Some t \<Rightarrow>
                  if et_status t \<noteq> T_IN_REVIEW then Inr (None, s)
                  else bindr (move_task None T_BLOCKED t) (\<lambda>t1.
                         Inr (Some (i, T_IN_REVIEW, T_BLOCKED), add_note i ReviewStuck (put_task t1 s))))
        else Inr (Some (i, T_IN_REVIEW, T_IN_REVIEW), s))"

definition review_candidates ::
  "instant \<Rightarrow> instant \<Rightarrow> (string \<Rightarrow> instant) \<Rightarrow> site \<Rightarrow> (string \<times> string option \<times> instant) list" where
  "review_candidates min_age now upd s =
     map (\<lambda>t. (et_id t, et_reviewer t, upd (et_id t)))
       (filter (\<lambda>t. et_status t = T_IN_REVIEW \<and> et_reviewer t \<noteq> None \<and> upd (et_id t) + min_age < now)
          (site_tasks s))"

definition reconcile_orphan_reviews ::
  "instant \<Rightarrow> instant \<Rightarrow> instant \<Rightarrow> (string \<Rightarrow> instant) \<Rightarrow> site
     \<Rightarrow> announcement list \<times> site" where
  "reconcile_orphan_reviews min_age max_stuck now upd s =
     reconcile_each (reconcile_orphan_review min_age max_stuck now) (review_candidates min_age now upd s) s"

section \<open>Plans\<close>

definition site_snapshots :: "site \<Rightarrow> plan_row \<Rightarrow> task_snapshot list" where
  "site_snapshots s p =
     map (\<lambda>t. \<lparr>snap_id = et_id t, snap_status = et_status t, cost_eur = Finite 0,
               snap_deps = map snd (filter (\<lambda>e. fst e = et_id t) (si_deps s))\<rparr>)
       (filter (\<lambda>t. et_plan t = Some (pl_id p) \<and> et_tenant t = pl_tenant p) (site_tasks s))"

text \<open>The guarded write: only a plan that still has the old status moves.\<close>

definition move_plan_if :: "plan_status \<Rightarrow> plan_status \<Rightarrow> plan_row \<Rightarrow> site \<Rightarrow> bool \<times> site" where
  "move_plan_if old new p s =
     (let hit = (\<lambda>q. pl_id q = pl_id p \<and> pl_tenant q = pl_tenant p \<and> pl_status q = old) in
      (\<exists>q \<in> set (si_plans s). hit q,
       s\<lparr>si_plans := map (\<lambda>q. if hit q then q\<lparr>pl_status := new\<rparr> else q) (si_plans s)\<rparr>))"

text \<open>One plan of a pass; the answer is the move that was won.\<close>

definition reconcile_complete_plan :: "string \<Rightarrow> site \<Rightarrow> (plan_status \<times> plan_status) option \<times> site" where
  "reconcile_complete_plan i s =
     (case find_plan s i of
        None \<Rightarrow> (None, s)
      | Some p \<Rightarrow>
          let ts = site_snapshots s p in
          if ts = [] then (None, s)
          else
            let r = decide_plan_closure (pl_status p) ts in
            if \<not> transitioned r then (None, s)
            else let (won, s1) = move_plan_if P_IN_PROGRESS (new_status r) p s
                 in (if won then Some (P_IN_PROGRESS, new_status r) else None, s1))"

definition reconcile_unblocked_plan :: "string \<Rightarrow> site \<Rightarrow> (plan_status \<times> plan_status) option \<times> site" where
  "reconcile_unblocked_plan i s =
     (case find_plan s i of
        None \<Rightarrow> (None, s)
      | Some p \<Rightarrow>
          let ts = site_snapshots s p in
          if ts = [] \<or> \<not> has_open_tasks ts then (None, s)
          else
            let r = transition_from_blocked (pl_status p) ts in
            if \<not> transitioned r then (None, s)
            else let (won, s1) = move_plan_if P_BLOCKED (new_status r) p s
                 in (if won then Some (P_BLOCKED, new_status r) else None, s1))"

definition reconcile_complete_plans :: "site \<Rightarrow> site" where
  "reconcile_complete_plans s =
     fold (\<lambda>i s. snd (reconcile_complete_plan i s))
       (map pl_id (filter (\<lambda>p. pl_status p = P_IN_PROGRESS) (si_plans s))) s"

definition reconcile_unblocked_plans :: "site \<Rightarrow> site" where
  "reconcile_unblocked_plans s =
     fold (\<lambda>i s. snd (reconcile_unblocked_plan i s))
       (map pl_id (filter (\<lambda>p. pl_status p = P_BLOCKED) (si_plans s))) s"

text \<open>The order of the beat: stuck tasks, reviews, unblocked plans, complete plans.\<close>

definition reconcile_plans :: "site \<Rightarrow> site" where
  "reconcile_plans s = reconcile_complete_plans (reconcile_unblocked_plans s)"

definition reconcile_pipeline_state ::
  "instant \<Rightarrow> (string \<Rightarrow> instant) \<Rightarrow> site \<Rightarrow> announcement list \<times> site" where
  "reconcile_pipeline_state now upd s =
     (let (as, s1) = reconcile_stuck_tasks stuck_task_min_age now s;
          (bs, s2) = reconcile_orphan_reviews review_min_age review_max_stuck now upd s1
      in (as @ bs, reconcile_plans s2))"

section \<open>Runs whose worker died\<close>

text \<open>
  What the daemon says of the managed containers: those it knows (nothing when it does not
  answer), and for one that has exited its log and exit code. \<open>launched\<close> is the column
  \<^verbatim>\<open>container_launched_at\<close>.
\<close>

record daemon =
  dm_alive :: "nat set option"
  dm_exited :: "nat \<Rightarrow> (string list \<times> int option) option"
  dm_launched :: "nat \<Rightarrow> bool"

definition stale_execution_after :: instant where "stale_execution_after = 25200"
definition orphan_container_grace :: instant where "orphan_container_grace = 300"

definition is_review_run :: "string option \<Rightarrow> engine_task \<Rightarrow> bool" where
  "is_review_run agent t \<longleftrightarrow> et_reviewer t \<noteq> None \<and> agent = et_reviewer t \<and> et_status t = T_IN_REVIEW"

definition recover_result_from_exited_logs ::
  "(string \<Rightarrow> pyval option) \<Rightarrow> string list \<Rightarrow> int option \<Rightarrow> (exec_error, exec_result option) result" where
  "recover_result_from_exited_logs loads logs exit_code =
     (if logs = [] then Inr None
      else case scan_logs_for_terminal loads logs of
             (Some d, _) \<Rightarrow> bindr (assemble_result loads (Some d) [] False 0 PNone []) (\<lambda>r. Inr (Some r))
           | (None, err) \<Rightarrow>
               if err = PNone then Inr None
               else bindr (assemble_result loads None [] False
                             (case exit_code of Some n \<Rightarrow> n | None \<Rightarrow> 1) err []) (\<lambda>r. Inr (Some r)))"

definition approval_lost_text :: string where
  "approval_lost_text = ''[the run parked on a sensitive action and its worker died before the approval request was created; re-run the task]''"

definition approval_lost :: "exec_result \<Rightarrow> exec_result" where
  "approval_lost res =
     (if r_status res = X_AWAITING_HUMAN_APPROVAL
      then res\<lparr>r_status := X_FAILED, r_abort_code := Some ''approval_lost_with_worker'',
               r_output := Some ((case r_output res of Some out \<Rightarrow> out | None \<Rightarrow> [])
                                 @ [CHR 0x0A, CHR 0x0A] @ approval_lost_text)\<rparr>
      else res)"

text \<open>Closing a row that left no result; nothing happens when it is already closed.\<close>

definition seal_lost_run ::
  "instant \<Rightarrow> execution \<Rightarrow> note_body \<Rightarrow> site \<Rightarrow> (site_error, bool \<times> site) result" where
  "seal_lost_run now e note s =
     (case seal_terminal_execution now X_FAILED (Some ''stale_after_worker_loss'') None e of
        (_, False) \<Rightarrow> Inr (False, s)
      | (e1, True) \<Rightarrow>
          bindr (transition_task_after_run now (ex_task e) X_FAILED (update_site_run (ex_id e) (\<lambda>_. e1) s))
            (\<lambda>(mv, s1). Inr (True, add_note (ex_task e) note s1)))"

definition finalize_from_exited_container ::
  "worker_env \<Rightarrow> (string \<Rightarrow> pyval option) \<Rightarrow> instant \<Rightarrow> execution \<Rightarrow> string list \<Rightarrow> int option \<Rightarrow> site
     \<Rightarrow> (site_error, (bool \<times> exec_status) option \<times> site) result" where
  "finalize_from_exited_container env loads now e logs exit_code s =
     bindr (with_error RunError (recover_result_from_exited_logs loads logs exit_code)) (\<lambda>found.
       case found of
         None \<Rightarrow>
           bindr (seal_lost_run now e (SealedBySweeper (ex_id e) exit_code) s) (\<lambda>(sealed, s1).
             Inr (if sealed then Some (False, X_FAILED) else None, s1))
       | Some raw \<Rightarrow>
           let res = approval_lost raw;
               review = (case site_task s (ex_task e) of
                           None \<Rightarrow> False
                         | Some t \<Rightarrow> is_review_run (rm_agent (si_runs s (ex_id e))) t);
               tenant = (case site_task s (ex_task e) of None \<Rightarrow> [] | Some t \<Rightarrow> et_tenant t)
           in bindr (finalize_site env now (ex_id e) res s) (\<lambda>s1.
              bindr (if review then apply_review_verdict env now (ex_task e) tenant res s1
                     else transition_task_after_run now (ex_task e) (r_status res) s1) (\<lambda>(mv, s2).
                Inr (Some (True, r_status res),
                     add_note (ex_task e)
                       (RecoveredBySweeper (ex_id e) (r_status res) (r_abort_code res) review exit_code) s2))))"

text \<open>One running row of the sweep: recovered, sealed, or left alone.\<close>

definition sweep_execution ::
  "worker_env \<Rightarrow> (string \<Rightarrow> pyval option) \<Rightarrow> daemon \<Rightarrow> instant \<Rightarrow> execution \<Rightarrow> site
     \<Rightarrow> (site_error, site) result" where
  "sweep_execution env loads dm now e s =
     (let by_age_or_orphan =
            (if rm_created (si_runs s (ex_id e)) + stale_execution_after < now
                \<or> (case dm_alive dm of None \<Rightarrow> False
                   | Some alive \<Rightarrow> dm_launched dm (ex_id e) \<and> ex_id e \<notin> alive)
             then bindr (seal_lost_run now e (SealedBySweeper (ex_id e) None) s) (\<lambda>(_, s1). Inr s1)
             else Inr s)
      in case dm_exited dm (ex_id e) of
           None \<Rightarrow> by_age_or_orphan
         | Some (logs, exit_code) \<Rightarrow>
             bindr (finalize_from_exited_container env loads now e logs exit_code s) (\<lambda>(outcome, s1).
               case outcome of Some _ \<Rightarrow> Inr s1 | None \<Rightarrow> by_age_or_orphan))"

fun sweep_each ::
  "worker_env \<Rightarrow> (string \<Rightarrow> pyval option) \<Rightarrow> daemon \<Rightarrow> instant \<Rightarrow> executions \<Rightarrow> site \<Rightarrow> (site_error, site) result" where
  "sweep_each env loads dm now [] s = Inr s"
| "sweep_each env loads dm now (e # es) s =
     bindr (sweep_execution env loads dm now e s) (sweep_each env loads dm now es)"

text \<open>All rows of one sweep are one transaction: an exception undoes the whole of it.\<close>

definition sweep_stale_executions ::
  "worker_env \<Rightarrow> (string \<Rightarrow> pyval option) \<Rightarrow> daemon \<Rightarrow> instant \<Rightarrow> site \<Rightarrow> site" where
  "sweep_stale_executions env loads dm now s =
     settle s (sweep_each env loads dm now
       (filter (\<lambda>e. ex_status e = X_RUNNING
                    \<and> rm_created (si_runs s (ex_id e)) + orphan_container_grace < now) (site_runs s)) s)"

section \<open>What the beat of the tasks guarantees\<close>

text \<open>What the handling of one task reads besides its row stays the same.\<close>

definition same_world :: "site \<Rightarrow> site \<Rightarrow> bool" where
  "same_world s s' \<longleftrightarrow> site_runs s' = site_runs s \<and> si_runs s' = si_runs s \<and> si_agents s' = si_agents s
     \<and> si_assignments s' = si_assignments s"

lemma same_world_simps [simp]: "same_world s s" "same_world s (put_task t s)" "same_world s (add_note i b s)"
  by (simp_all add: same_world_def)

lemma same_world_trans: "same_world s s1 \<Longrightarrow> same_world s1 s2 \<Longrightarrow> same_world s s2"
  by (simp add: same_world_def)

lemma newer_run_cong: "same_world s s' \<Longrightarrow> newer_run s' = newer_run s"
  by (auto simp: newer_run_def same_world_def fun_eq_iff split: option.split)

lemma run_of_claim_cong: "same_world s s' \<Longrightarrow> run_of_claim s' i st = run_of_claim s i st"
  using newer_run_cong [of s s']
  by (auto simp: run_of_claim_def latest_run_def same_world_def split: option.split)

lemma is_human_route_cong: "same_world s s' \<Longrightarrow> is_human_route s' t = is_human_route s t"
  by (auto simp: is_human_route_def same_world_def find_agent_def split: option.split)

text \<open>The tasks a pass leaves in progress, and why.\<close>

definition rightly_in_progress :: "instant \<Rightarrow> instant \<Rightarrow> site \<Rightarrow> engine_task \<Rightarrow> bool" where
  "rightly_in_progress min_age now s t \<longleftrightarrow>
     (case run_of_claim s (et_id t) (et_started_at t) of
        Some e \<Rightarrow> \<not> stuck_task_needs_reconcile (Some (ex_status e)) (completed_at e) now min_age
      | None \<Rightarrow> is_human_route s t \<or> \<not> orphan_claim_needs_revert (et_started_at t) now orphan_claim_min_age)"

lemma rightly_cong: "same_world s s' \<Longrightarrow> rightly_in_progress min_age now s' t = rightly_in_progress min_age now s t"
  by (simp add: rightly_in_progress_def run_of_claim_cong is_human_route_cong split: option.split)

lemma terminal_not_parked: "stuck_task_needs_reconcile (Some st) c now m \<Longrightarrow> st \<noteq> X_AWAITING_HUMAN_APPROVAL"
  by (auto simp: stuck_task_needs_reconcile_def terminal_execution_statuses_def)

lemma ready_legal: "can_transition None T_IN_PROGRESS T_READY"
  by (simp add: can_transition_def allowed_transitions_def)

text \<open>One candidate in progress: left alone, returned to dispatch, or moved as its run ended.\<close>

lemma reconcile_stuck_task_cases:
  assumes t: "site_task s i = Some t" "et_status t = T_IN_PROGRESS" "et_started_at t = started"
  obtains (left) "reconcile_stuck_task min_age now i started s = Inr (None, s)" "rightly_in_progress min_age now s t"
  | (freed) "reconcile_stuck_task min_age now i started s =
               Inr (Some (T_IN_PROGRESS, T_READY), put_task (cleared_claim (t\<lparr>et_status := T_READY\<rparr>)) s)"
      "run_of_claim s i started = None" "\<not> is_human_route s t"
      "orphan_claim_needs_revert started now orphan_claim_min_age"
  | (ended) e where "reconcile_stuck_task min_age now i started s =
               Inr (Some (T_IN_PROGRESS, target_after_run (ex_status e) t),
                    put_task (stamped now (target_after_run (ex_status e) t) t) s)"
      "run_of_claim s i started = Some e"
      "stuck_task_needs_reconcile (Some (ex_status e)) (completed_at e) now min_age"
proof (cases "run_of_claim s i started")
  case None
  show thesis
  proof (cases "is_human_route s t \<or> \<not> orphan_claim_needs_revert started now orphan_claim_min_age")
    case True
    then show thesis using None t site_task_id [OF t(1)]
      by (intro left) (auto simp: reconcile_stuck_task_def revert_orphan_claim_def rightly_in_progress_def
          is_orphan_claim_candidate_def)
  next
    case False
    then show thesis using None t
      by (intro freed) (auto simp: reconcile_stuck_task_def revert_orphan_claim_def
          is_orphan_claim_candidate_def move_task_ok ready_legal)
  qed
next
  case (Some e)
  show thesis
  proof (cases "stuck_task_needs_reconcile (Some (ex_status e)) (completed_at e) now min_age")
    case True
    show thesis using Some True transition_after_run [OF t(1,2) terminal_not_parked [OF True], of now]
      by (intro ended [of e]) (auto simp: reconcile_stuck_task_def)
  next
    case False
    then show thesis using Some t site_task_id [OF t(1)]
      by (intro left) (auto simp: reconcile_stuck_task_def rightly_in_progress_def)
  qed
qed

lemma cleared_claim_simps [simp]:
  "et_id (cleared_claim t) = et_id t" "et_status (cleared_claim t) = et_status t" "et_claim (cleared_claim t) = None"
  by (simp_all add: cleared_claim_def)

lemma reconcile_stuck_task_one:
  assumes t: "site_task s i = Some t" "et_status t = T_IN_PROGRESS" "et_started_at t = started"
  obtains mv s' u where "reconcile_stuck_task min_age now i started s = Inr (mv, s')" "same_world s s'"
    "site_task s' i = Some u" "et_status u = T_IN_PROGRESS \<Longrightarrow> u = t \<and> rightly_in_progress min_age now s t"
    "\<And>j. j \<noteq> i \<Longrightarrow> site_task s' j = site_task s j"
proof (rule reconcile_stuck_task_cases [OF t, where min_age = min_age and now = now])
  assume left: "reconcile_stuck_task min_age now i started s = Inr (None, s)" "rightly_in_progress min_age now s t"
  then show thesis using t by (intro that [of None s t]) auto
next
  assume freed: "reconcile_stuck_task min_age now i started s =
               Inr (Some (T_IN_PROGRESS, T_READY), put_task (cleared_claim (t\<lparr>et_status := T_READY\<rparr>)) s)"
  define u where "u = cleared_claim (t\<lparr>et_status := T_READY\<rparr>)"
  have id: "et_id u = i" using site_task_id [OF t(1)] by (simp add: u_def)
  have "site_task (put_task u s) j = (if j = i then Some u else site_task s j)" for j
    using site_task_put [of s u t j] t(1) id by simp
  then show thesis using freed by (intro that [of _ "put_task u s" u]) (auto simp: u_def)
next
  fix e
  assume ended: "reconcile_stuck_task min_age now i started s =
               Inr (Some (T_IN_PROGRESS, target_after_run (ex_status e) t),
                    put_task (stamped now (target_after_run (ex_status e) t) t) s)"
  define u where "u = stamped now (target_after_run (ex_status e) t) t"
  have id: "et_id u = i" using site_task_id [OF t(1)] by (simp add: u_def)
  have "site_task (put_task u s) j = (if j = i then Some u else site_task s j)" for j
    using site_task_put [of s u t j] t(1) id by simp
  then show thesis using ended target_not_in_progress
    by (intro that [of _ "put_task u s" u]) (auto simp: u_def)
qed

lemma reconcile_each_stuck:
  assumes "distinct (map fst cs)"
    and "\<And>i st. (i, st) \<in> set cs \<Longrightarrow> \<exists>t. site_task s i = Some t \<and> et_status t = T_IN_PROGRESS \<and> et_started_at t = st"
    and "reconcile_each (\<lambda>(i, started) s.
         bindr (reconcile_stuck_task min_age now i started s) (\<lambda>(mv, s1).
           Inr (map_option (\<lambda>(old, new). (i, old, new)) mv, s1))) cs s = (as, s')"
  shows "same_world s s' \<and> (\<forall>j. j \<notin> fst ` set cs \<longrightarrow> site_task s' j = site_task s j)
    \<and> (\<forall>j \<in> fst ` set cs. \<exists>u. site_task s' j = Some u
          \<and> (et_status u = T_IN_PROGRESS \<longrightarrow> rightly_in_progress min_age now s u))"
  using assms
proof (induction cs arbitrary: s as)
  case (Cons c cs)
  obtain i st where c: "c = (i, st)" by fastforce
  obtain t where t: "site_task s i = Some t" "et_status t = T_IN_PROGRESS" "et_started_at t = st"
    using Cons.prems(2) c by auto
  obtain mv s1 u where one: "reconcile_stuck_task min_age now i st s = Inr (mv, s1)" "same_world s s1"
    "site_task s1 i = Some u" "et_status u = T_IN_PROGRESS \<Longrightarrow> u = t \<and> rightly_in_progress min_age now s t"
    "\<And>j. j \<noteq> i \<Longrightarrow> site_task s1 j = site_task s j"
    by (rule reconcile_stuck_task_one [OF t, of min_age now]) blast
  have notin: "i \<notin> fst ` set cs" using Cons.prems(1) c by auto
  have cands: "\<exists>t. site_task s1 k = Some t \<and> et_status t = T_IN_PROGRESS \<and> et_started_at t = stk"
    if "(k, stk) \<in> set cs" for k stk
    using that Cons.prems(2) notin one(5) [of k] by (metis fst_conv image_eqI list.set_intros(2))
  obtain as1 where "reconcile_each (\<lambda>(i, started) s.
         bindr (reconcile_stuck_task min_age now i started s) (\<lambda>(mv, s1).
           Inr (map_option (\<lambda>(old, new). (i, old, new)) mv, s1))) cs s1 = (as1, s')"
    using Cons.prems(3) c one(1) by (auto split: prod.splits)
  from Cons.IH [OF _ cands this] Cons.prems(1) have ih:
    "same_world s1 s'" "\<forall>j. j \<notin> fst ` set cs \<longrightarrow> site_task s' j = site_task s1 j"
    "\<forall>j \<in> fst ` set cs. \<exists>u. site_task s' j = Some u
          \<and> (et_status u = T_IN_PROGRESS \<longrightarrow> rightly_in_progress min_age now s1 u)"
    by auto
  have w: "same_world s s'" using one(2) ih(1) same_world_trans by blast
  have r: "rightly_in_progress min_age now s1 v = rightly_in_progress min_age now s v" for v
    using rightly_cong [OF one(2)] .
  have i': "site_task s' i = Some u" using ih(2) notin one(3) by auto
  show ?case
  proof (intro conjI allI impI ballI)
    show "same_world s s'" by (rule w)
    show "site_task s' j = site_task s j" if "j \<notin> fst ` set (c # cs)" for j
      using that ih(2) one(5) [of j] c by auto
    show "\<exists>v. site_task s' j = Some v \<and> (et_status v = T_IN_PROGRESS \<longrightarrow> rightly_in_progress min_age now s v)"
      if "j \<in> fst ` set (c # cs)" for j
    proof (cases "j = i")
      case True
      then show ?thesis using i' one(4) by auto
    next
      case False
      then show ?thesis using that ih(3) r c by auto
    qed
  qed
qed simp

text \<open>
  C21. No task stays in progress for nothing: after a pass of the reconciler, a task is in
  progress only if its claim has no known start or a recent one, or its claim has a run that
  is not over or ended just now, or its claim has no run and is worked on by a person or less
  than half an hour old.
\<close>

theorem no_task_stuck_in_progress:
  assumes "distinct (map et_id (site_tasks s))"
    and "reconcile_stuck_tasks min_age now s = (as, s')"
    and t: "site_task s' i = Some t" "et_status t = T_IN_PROGRESS"
  shows "(case et_started_at t of None \<Rightarrow> True | Some st \<Rightarrow> now \<le> st + min_age)
     \<or> (case run_of_claim s' i (et_started_at t) of
          Some e \<Rightarrow> ex_status e \<notin> terminal_execution_statuses
                    \<or> (case completed_at e of None \<Rightarrow> True | Some c \<Rightarrow> now < c + min_age)
        | None \<Rightarrow> is_human_route s' t
                  \<or> (case et_started_at t of None \<Rightarrow> True | Some st \<Rightarrow> now < st + orphan_claim_min_age))"
proof -
  define cs where "cs = stuck_candidates min_age now s"
  have d: "distinct (map fst cs)"
    using assms(1) by (simp add: cs_def stuck_candidates_def comp_def distinct_map inj_on_def)
  have cands: "\<exists>t. site_task s k = Some t \<and> et_status t = T_IN_PROGRESS \<and> et_started_at t = st"
    if "(k, st) \<in> set cs" for k st
    using that site_task_mem [OF assms(1)] by (auto simp: cs_def stuck_candidates_def)
  from reconcile_each_stuck [OF d cands, of min_age now as s'] assms(2) have all:
    "same_world s s'" "\<And>j. j \<notin> fst ` set cs \<Longrightarrow> site_task s' j = site_task s j"
    "\<And>j. j \<in> fst ` set cs \<Longrightarrow> \<exists>u. site_task s' j = Some u
        \<and> (et_status u = T_IN_PROGRESS \<longrightarrow> rightly_in_progress min_age now s u)"
    by (auto simp: reconcile_stuck_tasks_def cs_def)
  show ?thesis
  proof (cases "i \<in> fst ` set cs")
    case True
    then have "rightly_in_progress min_age now s' t" using all(1,3) t rightly_cong by fastforce
    then show ?thesis using site_task_id [OF t(1)]
      by (auto simp: rightly_in_progress_def stuck_task_needs_reconcile_def orphan_claim_needs_revert_def not_le
          split: option.splits)
  next
    case False
    then have s: "site_task s i = Some t" using all(2) t(1) by simp
    then have "t \<in> set (site_tasks s)" by (auto simp: site_task_def site_tasks_def get_task_def find_Some_iff)
    then have "\<not> (case et_started_at t of None \<Rightarrow> False | Some st \<Rightarrow> st + min_age < now)"
      using False t(2) site_task_id [OF s] by (force simp: cs_def stuck_candidates_def)
    then show ?thesis by (auto split: option.splits)
  qed
qed

lemma no_task_stuck_in_progress_witness:
  "\<exists>as s'. reconcile_stuck_tasks 300 100 (demo_site [(live_task ''t'' T_IN_PROGRESS)\<lparr>et_started_at := Some 10\<rparr>] []) = (as, s')
     \<and> is_human_route s' ((live_task ''t'' T_IN_PROGRESS)\<lparr>et_started_at := Some 10\<rparr>) = False \<and> as = []
     \<and> (100::instant) \<le> 10 + 300"
proof -
  let ?t = "(live_task ''t'' T_IN_PROGRESS)\<lparr>et_started_at := Some 10\<rparr>"
  let ?s = "demo_site [?t] []"
  have run: "reconcile_stuck_tasks 300 100 ?s = ([], ?s)"
    by (simp add: reconcile_stuck_tasks_def stuck_candidates_def live_task_def)
  have t: "site_task ?s ''t'' = Some ?t" by (simp add: live_task_def)
  have none: "run_of_claim ?s ''t'' (Some 10) = None" by (simp add: run_of_claim_def latest_run_def)
  have person: "\<not> is_human_route ?s ?t" by (simp add: is_human_route_def live_task_def) (simp add: demo_site_def)
  have "(100::instant) \<le> 10 + 300 \<or> 100 < 10 + orphan_claim_min_age"
    using no_task_stuck_in_progress [OF _ run t] none person
    by (simp add: live_task_def)
  then show ?thesis using run person by (auto simp: orphan_claim_min_age_def)
qed

end
