(* ===== verification/Assignment.thy ===== *)
theory Assignment
  imports Complex_Main "HOL-Library.List_Lexorder" "HOL-Library.Product_Lexorder" "HOL-Library.Char_ord"
begin

text \<open>
  Which agent runs a task, \<^verbatim>\<open>apps/orchestrator/src/orchestrator/assignment.py\<close>: the
  four policies over a pool of candidates. A score is kept as its square, an exact rational:
  the cosine of two sets of skills is the root of it, which orders alike; the rounding of the
  double is left out. A set of skills is a list without repetitions.
\<close>

datatype assignment_policy = SKILL_MATCH | LOAD_BALANCED | ROUND_ROBIN | MANUAL

record candidate =
  cd_agent :: string
  cd_skills :: "string list"
  cd_active :: int

section \<open>Skills\<close>

definition overlap :: "string list \<Rightarrow> string list \<Rightarrow> nat" where
  "overlap required skills = length (filter (\<lambda>s. s \<in> set skills) required)"

definition skill_match_score :: "string list \<Rightarrow> string list \<Rightarrow> rat" where
  "skill_match_score required skills =
     (if required = [] \<or> skills = [] then 0
      else rat_of_nat (overlap required skills * overlap required skills)
           / rat_of_nat (length required * length skills))"

text \<open>\<^verbatim>\<open>max\<close> with a key: the first of the largest, here by being better than.\<close>

fun best_by :: "('a \<Rightarrow> 'a \<Rightarrow> bool) \<Rightarrow> 'a \<Rightarrow> 'a list \<Rightarrow> 'a" where
  "best_by better b [] = b"
| "best_by better b (x # xs) = best_by better (if better x b then x else b) xs"

text \<open>
  The key of a candidate: its score, then the lighter load, then the smaller name as the
  negated codes of its characters order it.
\<close>

definition inv_agent_id :: "string \<Rightarrow> int list" where
  "inv_agent_id a = map (\<lambda>c. - int (of_char c)) a"

definition skill_key :: "string list \<Rightarrow> candidate \<Rightarrow> rat \<times> int \<times> int list" where
  "skill_key required c = (skill_match_score required (cd_skills c), - cd_active c, inv_agent_id (cd_agent c))"

definition assign_skill_match :: "string list \<Rightarrow> candidate list \<Rightarrow> string option" where
  "assign_skill_match required cs =
     (case cs of
        [] \<Rightarrow> None
      | c # rest \<Rightarrow>
          let best = best_by (\<lambda>x y. skill_key required y < skill_key required x) c rest
          in if skill_match_score required (cd_skills best) > 0 then Some (cd_agent best) else None)"

section \<open>Load, rotation, preset\<close>

definition load_key :: "candidate \<Rightarrow> int \<times> string" where
  "load_key c = (cd_active c, cd_agent c)"

definition assign_load_balanced :: "candidate list \<Rightarrow> string option" where
  "assign_load_balanced cs =
     (case cs of [] \<Rightarrow> None
      | c # rest \<Rightarrow> Some (cd_agent (best_by (\<lambda>x y. load_key x < load_key y) c rest)))"

definition assign_manual :: "string option \<Rightarrow> string option" where
  "assign_manual preset = preset"

text \<open>The cursors of the rotation, one per pool.\<close>

type_synonym round_robin = "string list \<rightharpoonup> nat"

definition pool_key :: "candidate list \<Rightarrow> string list" where
  "pool_key cs = map cd_agent (sort_key cd_agent cs)"

definition rr_pick :: "candidate list \<Rightarrow> round_robin \<Rightarrow> string option \<times> round_robin" where
  "rr_pick cs rr =
     (if cs = [] then (None, rr)
      else
        let key = pool_key cs;
            cursor = (case rr key of Some n \<Rightarrow> n | None \<Rightarrow> 0) mod length key
        in (Some (key ! cursor), rr(key \<mapsto> cursor + 1)))"

section \<open>What the policies promise\<close>

lemma best_by_member: "best_by better b xs \<in> set (b # xs)"
proof (induction xs arbitrary: b)
  case (Cons x xs)
  from Cons.IH [of "if better x b then x else b"] show ?case by (auto split: if_splits)
qed simp

lemma best_by_max:
  fixes f :: "'a \<Rightarrow> 'k :: linorder"
  shows "\<forall>x \<in> set (b # xs). f x \<le> f (best_by (\<lambda>x y. f y < f x) b xs)"
proof (induction xs arbitrary: b)
  case (Cons x xs)
  define c where "c = (if f b < f x then x else b)"
  have "f b \<le> f c" "f x \<le> f c" by (auto simp: c_def)
  moreover have "\<forall>y \<in> set (c # xs). f y \<le> f (best_by (\<lambda>x y. f y < f x) c xs)" by (rule Cons.IH)
  ultimately show ?case by (auto simp: c_def [symmetric] intro: order_trans)
qed simp

lemma best_by_min:
  fixes f :: "'a \<Rightarrow> 'k :: linorder"
  shows "\<forall>x \<in> set (b # xs). f (best_by (\<lambda>x y. f x < f y) b xs) \<le> f x"
proof (induction xs arbitrary: b)
  case (Cons x xs)
  define c where "c = (if f x < f b then x else b)"
  have "f c \<le> f b" "f c \<le> f x" by (auto simp: c_def)
  moreover have "\<forall>y \<in> set (c # xs). f (best_by (\<lambda>x y. f x < f y) c xs) \<le> f y" by (rule Cons.IH)
  ultimately show ?case by (auto simp: c_def [symmetric] intro: order_trans)
qed simp

lemma overlap_bounds:
  assumes "distinct required" and "distinct skills"
  shows "overlap required skills \<le> length required" "overlap required skills \<le> length skills"
proof -
  show "overlap required skills \<le> length required" by (simp add: overlap_def)
  have "overlap required skills = card (set required \<inter> set skills)"
    using assms(1) unfolding overlap_def
    by (metis distinct_card distinct_filter inter_set_filter inf_commute)
  also have "\<dots> \<le> card (set skills)" by (rule card_mono) auto
  finally show "overlap required skills \<le> length skills" using assms(2) by (simp add: distinct_card)
qed

lemma skill_match_score_range:
  assumes "distinct required" and "distinct skills"
  shows "0 \<le> skill_match_score required skills \<and> skill_match_score required skills \<le> 1"
proof (cases "required = [] \<or> skills = []")
  case False
  have "overlap required skills * overlap required skills \<le> length required * length skills"
    using overlap_bounds [OF assms] by (intro mult_le_mono) auto
  then have "rat_of_nat (overlap required skills * overlap required skills)
      \<le> rat_of_nat (length required * length skills)" by (simp only: of_nat_le_iff)
  then show ?thesis using False by (simp add: skill_match_score_def divide_le_eq del: of_nat_mult)
qed (simp add: skill_match_score_def)

text \<open>One pick of the rotation: the agent at the cursor.\<close>

fun rr_picks :: "nat \<Rightarrow> candidate list \<Rightarrow> round_robin \<Rightarrow> string option list" where
  "rr_picks 0 cs rr = []"
| "rr_picks (Suc n) cs rr = (let (a, rr') = rr_pick cs rr in a # rr_picks n cs rr')"

definition rr_cursor :: "candidate list \<Rightarrow> round_robin \<Rightarrow> nat" where
  "rr_cursor cs rr = (case rr (pool_key cs) of Some n \<Rightarrow> n | None \<Rightarrow> 0) mod length (pool_key cs)"

lemma pool_key_facts [simp]: "length (pool_key cs) = length cs" "set (pool_key cs) = cd_agent ` set cs"
  by (simp_all add: pool_key_def)

lemma rr_pick_cursor:
  assumes "cs \<noteq> []"
  shows "rr_pick cs rr = (Some (pool_key cs ! rr_cursor cs rr), rr(pool_key cs \<mapsto> rr_cursor cs rr + 1))"
    and "rr_cursor cs (rr(pool_key cs \<mapsto> rr_cursor cs rr + 1)) = Suc (rr_cursor cs rr) mod length cs"
  using assms by (simp_all add: rr_pick_def rr_cursor_def Let_def)

lemma rr_picks_cycle:
  assumes "cs \<noteq> []"
  shows "rr_picks n cs rr = map (\<lambda>i. Some (pool_key cs ! ((rr_cursor cs rr + i) mod length cs))) [0..<n]"
proof (induction n arbitrary: rr)
  case (Suc n)
  have c: "rr_cursor cs rr < length cs" using assms by (simp add: rr_cursor_def)
  have "map (\<lambda>i. Some (pool_key cs ! ((Suc (rr_cursor cs rr) mod length cs + i) mod length cs))) [0..<n]
      = map (\<lambda>i. Some (pool_key cs ! ((rr_cursor cs rr + i) mod length cs))) [1..<Suc n]"
    by (rule nth_equalityI) (simp_all add: mod_add_left_eq del: upt_Suc)
  then show ?case
    using c rr_pick_cursor [OF assms, of rr] by (simp add: Suc.IH upt_conv_Cons del: upt_Suc)
qed simp

text \<open>
  The rotation is fair: over as many consecutive picks from one pool as it has agents,
  each of them is picked exactly once, wherever the cursor stood.
\<close>

theorem round_robin_fair:
  assumes "distinct (map cd_agent cs)"
  shows "distinct (rr_picks (length cs) cs rr)
         \<and> set (rr_picks (length cs) cs rr) = Some ` cd_agent ` set cs"
proof (cases "cs = []")
  case False
  define k where "k = rr_cursor cs rr"
  define f where "f = (\<lambda>i. (k + i) mod length cs)"
  have n: "0 < length cs" using False by simp
  have inj: "inj_on f {0..<length cs}"
  proof (rule inj_onI)
    fix i j assume ij: "i \<in> {0..<length cs}" "j \<in> {0..<length cs}" "f i = f j"
    then have "(int k + int i) mod int (length cs) = (int k + int j) mod int (length cs)"
      unfolding f_def by (metis of_nat_add of_nat_mod)
    then have "int i mod int (length cs) = int j mod int (length cs)"
      by (metis add_diff_cancel_left' mod_diff_left_eq)
    then show "i = j" using ij by simp
  qed
  have sub: "f ` {0..<length cs} \<subseteq> {0..<length cs}" using n by (auto simp: f_def)
  have onto: "f ` {0..<length cs} = {0..<length cs}"
    by (rule card_subset_eq [OF _ sub]) (simp_all add: card_image inj)
  have picks: "rr_picks (length cs) cs rr = map (\<lambda>i. Some (pool_key cs ! f i)) [0..<length cs]"
    using rr_picks_cycle [OF False, of "length cs" rr] by (simp add: k_def f_def)
  have d: "distinct (pool_key cs)" using assms by (simp add: pool_key_def distinct_map)
  have "inj_on (\<lambda>i. Some (pool_key cs ! f i)) {0..<length cs}"
  proof (rule inj_onI)
    fix i j assume ij: "i \<in> {0..<length cs}" "j \<in> {0..<length cs}"
      "Some (pool_key cs ! f i) = Some (pool_key cs ! f j)"
    moreover have "f i < length (pool_key cs)" "f j < length (pool_key cs)" using n by (simp_all add: f_def)
    ultimately have "f i = f j" using d by (simp add: nth_eq_iff_index_eq)
    then show "i = j" using inj ij by (auto dest: inj_onD)
  qed
  then have dist: "distinct (rr_picks (length cs) cs rr)" by (simp add: picks distinct_map)
  have "set (rr_picks (length cs) cs rr) = (\<lambda>j. Some (pool_key cs ! j)) ` f ` {0..<length cs}"
    by (auto simp: picks)
  also have "\<dots> = Some ` set (pool_key cs)"
    unfolding onto by (auto simp: set_conv_nth image_iff)
  finally show ?thesis using dist by simp
qed simp

text \<open>
  Policies pick from the pool and pick well: the load-balanced policy names an agent of the
  pool with the least load, the skill policy one whose score no other agent of the pool
  exceeds, and only when that score is positive.
\<close>

theorem policies_pick_best:
  shows "(case assign_load_balanced cs of
            None \<Rightarrow> cs = []
          | Some a \<Rightarrow> \<exists>c \<in> set cs. cd_agent c = a \<and> (\<forall>x \<in> set cs. cd_active c \<le> cd_active x))
         \<and> (case assign_skill_match required cs of
            None \<Rightarrow> \<forall>x \<in> set cs. skill_match_score required (cd_skills x) \<le> 0
          | Some a \<Rightarrow> \<exists>c \<in> set cs. cd_agent c = a \<and> 0 < skill_match_score required (cd_skills c)
              \<and> (\<forall>x \<in> set cs. skill_match_score required (cd_skills x)
                                \<le> skill_match_score required (cd_skills c)))"
proof (cases cs)
  case Nil
  then show ?thesis by (simp add: assign_load_balanced_def assign_skill_match_def)
next
  case (Cons c rest)
  define l where "l = best_by (\<lambda>x y. load_key x < load_key y) c rest"
  define s where "s = best_by (\<lambda>x y. skill_key required y < skill_key required x) c rest"
  have l: "l \<in> set cs" "\<And>x. x \<in> set cs \<Longrightarrow> cd_active l \<le> cd_active x"
    using best_by_member [of _ c rest] best_by_min [of c rest load_key]
    by (auto simp: Cons l_def load_key_def less_eq_prod_simp)
  have s: "s \<in> set cs"
    "\<And>x. x \<in> set cs \<Longrightarrow> skill_match_score required (cd_skills x) \<le> skill_match_score required (cd_skills s)"
    using best_by_member [of _ c rest] best_by_max [of c rest "skill_key required"]
    by (auto simp: Cons s_def skill_key_def less_eq_prod_simp)
  have "assign_load_balanced cs = Some (cd_agent l)" by (simp add: assign_load_balanced_def Cons l_def)
  moreover have "assign_skill_match required cs =
      (if skill_match_score required (cd_skills s) > 0 then Some (cd_agent s) else None)"
    by (simp add: assign_skill_match_def Cons s_def Let_def)
  ultimately show ?thesis using l s by (auto simp: not_less intro: order_trans)
qed

lemma round_robin_fair_witness:
  "distinct (rr_picks 2 [\<lparr>cd_agent = ''a'', cd_skills = [], cd_active = 0\<rparr>,
                         \<lparr>cd_agent = ''b'', cd_skills = [], cd_active = 3\<rparr>] Map.empty)"
  using round_robin_fair [of "[\<lparr>cd_agent = ''a'', cd_skills = [], cd_active = 0\<rparr>,
                         \<lparr>cd_agent = ''b'', cd_skills = [], cd_active = 3\<rparr>]" Map.empty]
  by (simp add: eval_nat_numeral)

end
