(* ===== verification/EventConsumer.thy ===== *)
theory EventConsumer
  imports PyValue Prelude
begin

text \<open>
  The consumer of task events, \<^verbatim>\<open>apps/orchestrator/src/orchestrator/\<close>
  \<^verbatim>\<open>events.py\<close> and \<^verbatim>\<open>consumer.py\<close>: parsing an entry, handing it to the handler,
  acknowledging it, reclaiming what a dead consumer left. The stream itself is a service: what
  it hands out is an argument of each step, and what is delivered and not acknowledged (its
  list of pending entries) is the state. Parameters: the handler with its world, the JSON
  parser, the write to the dead-letter stream.
\<close>

section \<open>Entries and events\<close>

type_synonym fields = "(string \<times> string) list"
type_synonym entry = "string \<times> fields"

record task_event =
  ev_id :: string
  ev_type :: string
  ev_tenant :: string
  ev_project :: string
  ev_task :: string
  ev_at :: string
  ev_payload :: pydict

datatype malformed = MissingFields "string list" | PayloadNotJson | PayloadNotAnObject

definition required_fields :: "string list" where
  "required_fields = [''type'', ''tenant_id'', ''project_id'', ''task_id'', ''occurred_at'']"

definition field :: "fields \<Rightarrow> string \<Rightarrow> string" where
  "field fs k = (case map_of fs k of Some v \<Rightarrow> v | None \<Rightarrow> [])"

definition parse_event :: "(string \<Rightarrow> pyval option) \<Rightarrow> entry \<Rightarrow> (malformed, task_event) result" where
  "parse_event loads e =
     (let (eid, fs) = e;
          missing = filter (\<lambda>k. field fs k = []) required_fields
      in if missing \<noteq> [] then Inl (MissingFields missing)
         else
           case loads (case map_of fs ''payload'' of Some p \<Rightarrow> p | None \<Rightarrow> ''{}'') of
             None \<Rightarrow> Inl PayloadNotJson
           | Some (PDict d) \<Rightarrow>
               Inr \<lparr>ev_id = eid, ev_type = field fs ''type'', ev_tenant = field fs ''tenant_id'',
                    ev_project = field fs ''project_id'', ev_task = field fs ''task_id'',
                    ev_at = field fs ''occurred_at'', ev_payload = d\<rparr>
           | Some _ \<Rightarrow> Inl PayloadNotAnObject)"

section \<open>One entry\<close>

text \<open>How the handler ends: normally, by the error that asks for a retry, by any other error.\<close>

datatype handler_end = Handled | TransientHandlerError | HandlerFailed string

datatype outcome = Processed | Malformed | KeptForRetry | DeadLettered | DeadLetterFailed

record 'w consumer_env =
  ce_loads :: "string \<Rightarrow> pyval option"
  ce_handler :: "task_event \<Rightarrow> 'w \<Rightarrow> handler_end \<times> 'w"
  ce_xadd :: "task_event \<Rightarrow> string \<Rightarrow> 'w \<Rightarrow> bool \<times> 'w"

text \<open>
  The counters, what was delivered and is not acknowledged, the ids on the dead-letter stream,
  and, for the properties, what became of each entry that was handled.
\<close>

record 'w consumer =
  co_processed :: nat
  co_malformed :: nat
  co_failed :: nat
  co_pending :: "entry list"
  co_dead :: "string list"
  co_log :: "(string \<times> outcome) list"
  co_world :: 'w

definition dead_letter :: "'w consumer_env \<Rightarrow> task_event \<Rightarrow> string \<Rightarrow> 'w consumer \<Rightarrow> bool \<times> 'w consumer" where
  "dead_letter env ev err c =
     (let (ok, w) = ce_xadd env ev err (co_world c)
      in (ok, c\<lparr>co_world := w, co_dead := (if ok then co_dead c @ [ev_id ev] else co_dead c)\<rparr>))"

definition log_end :: "string \<Rightarrow> outcome \<Rightarrow> 'w consumer \<Rightarrow> 'w consumer" where
  "log_end eid x c = c\<lparr>co_log := co_log c @ [(eid, x)]\<rparr>"

text \<open>\<^verbatim>\<open>_dispatch\<close>: whether the caller acknowledges the entry.\<close>

definition dispatch_entry :: "'w consumer_env \<Rightarrow> entry \<Rightarrow> 'w consumer \<Rightarrow> bool \<times> 'w consumer" where
  "dispatch_entry env e c =
     (case parse_event (ce_loads env) e of
        Inl _ \<Rightarrow> (True, log_end (fst e) Malformed (c\<lparr>co_malformed := co_malformed c + 1\<rparr>))
      | Inr ev \<Rightarrow>
          let (how, w) = ce_handler env ev (co_world c); c1 = c\<lparr>co_world := w\<rparr> in
          case how of
            Handled \<Rightarrow> (True, log_end (fst e) Processed (c1\<lparr>co_processed := co_processed c + 1\<rparr>))
          | TransientHandlerError \<Rightarrow>
              (False, log_end (fst e) KeptForRetry (c1\<lparr>co_failed := co_failed c + 1\<rparr>))
          | HandlerFailed err \<Rightarrow>
              (let (ok, c2) = dead_letter env ev err (c1\<lparr>co_failed := co_failed c + 1\<rparr>)
               in (True, log_end (fst e) (if ok then DeadLettered else DeadLetterFailed) c2)))"

definition xack :: "string \<Rightarrow> 'w consumer \<Rightarrow> 'w consumer" where
  "xack eid c = c\<lparr>co_pending := filter (\<lambda>e. fst e \<noteq> eid) (co_pending c)\<rparr>"

definition handle_entry :: "'w consumer_env \<Rightarrow> entry \<Rightarrow> 'w consumer \<Rightarrow> 'w consumer" where
  "handle_entry env e c =
     (case dispatch_entry env e c of (ack, c') \<Rightarrow> if ack then xack (fst e) c' else c')"

section \<open>Batches\<close>

text \<open>
  A batch of new entries is pending once it is delivered; each is handled in turn. The process
  may die after \<open>alive\<close> of them.
\<close>

definition consume_once :: "'w consumer_env \<Rightarrow> entry list \<Rightarrow> nat \<Rightarrow> 'w consumer \<Rightarrow> 'w consumer" where
  "consume_once env es alive c =
     fold (handle_entry env) (take alive es) (c\<lparr>co_pending := co_pending c @ es\<rparr>)"

text \<open>One reclaimed entry: without fields it was trimmed from the stream, and is only dropped.\<close>

definition reclaim_entry :: "'w consumer_env \<Rightarrow> entry \<Rightarrow> 'w consumer \<Rightarrow> 'w consumer" where
  "reclaim_entry env e c = (if snd e = [] then xack (fst e) c else handle_entry env e c)"

definition reclaim_max_pages :: nat where "reclaim_max_pages = 100"

text \<open>The pages the stream answers with, in order: the next cursor and the entries.\<close>

fun reclaim_pages :: "'w consumer_env \<Rightarrow> nat \<Rightarrow> (string \<times> entry list) list \<Rightarrow> 'w consumer \<Rightarrow> 'w consumer" where
  "reclaim_pages env 0 ps c = c"
| "reclaim_pages env (Suc n) [] c = c"
| "reclaim_pages env (Suc n) ((next_cursor, es) # ps) c =
     (let c1 = fold (reclaim_entry env) es c in
      if es = [] \<or> next_cursor = ''0-0'' then c1 else reclaim_pages env n ps c1)"

definition reclaim_stale_pending ::
  "'w consumer_env \<Rightarrow> (string \<times> entry list) list \<Rightarrow> 'w consumer \<Rightarrow> 'w consumer" where
  "reclaim_stale_pending env ps c = reclaim_pages env reclaim_max_pages ps c"

section \<open>Nothing is lost\<close>

datatype consumer_step = NewEntries "entry list" nat | Reclaimed "(string \<times> entry list) list"

fun do_consumer_step :: "'w consumer_env \<Rightarrow> consumer_step \<Rightarrow> 'w consumer \<Rightarrow> 'w consumer" where
  "do_consumer_step env (NewEntries es alive) c = consume_once env es alive c"
| "do_consumer_step env (Reclaimed ps) c = reclaim_stale_pending env ps c"

definition pending_ids :: "'w consumer \<Rightarrow> string set" where
  "pending_ids c = fst ` set (co_pending c)"

text \<open>The ids of entries that were dealt with for good.\<close>

definition settled_ids :: "'w consumer \<Rightarrow> string set" where
  "settled_ids c = {i. \<exists>x. (i, x) \<in> set (co_log c) \<and> x \<noteq> KeptForRetry}"

definition consumer_start :: "'w \<Rightarrow> 'w consumer" where
  "consumer_start w = \<lparr>co_processed = 0, co_malformed = 0, co_failed = 0, co_pending = [], co_dead = [],
                       co_log = [], co_world = w\<rparr>"

definition consumer_run :: "'w consumer_env \<Rightarrow> consumer_step list \<Rightarrow> 'w \<Rightarrow> 'w consumer" where
  "consumer_run env ss w = fold (do_consumer_step env) ss (consumer_start w)"

fun delivered_ids :: "consumer_step \<Rightarrow> string set" where
  "delivered_ids (NewEntries es alive) = fst ` set es"
| "delivered_ids (Reclaimed ps) = {}"

text \<open>The entries the stream reports as trimmed.\<close>

fun trimmed_ids :: "consumer_step \<Rightarrow> string set" where
  "trimmed_ids (NewEntries es alive) = {}"
| "trimmed_ids (Reclaimed ps) = fst ` {e \<in> \<Union>(set ` snd ` set ps). snd e = []}"

definition counts_ok :: "'w consumer \<Rightarrow> bool" where
  "counts_ok c \<longleftrightarrow>
     co_processed c + co_malformed c + co_failed c = length (co_log c)
     \<and> co_processed c = length (filter (\<lambda>(i, x). x = Processed) (co_log c))
     \<and> co_dead c = map fst (filter (\<lambda>(i, x). x = DeadLettered) (co_log c))"

text \<open>What handling one entry does.\<close>

lemma handle_entry_cases:
  obtains x where
    "co_log (handle_entry env e c) = co_log c @ [(fst e, x)]"
    "co_pending (handle_entry env e c)
       = (if x = KeptForRetry then co_pending c else filter (\<lambda>p. fst p \<noteq> fst e) (co_pending c))"
    "counts_ok c \<Longrightarrow> counts_ok (handle_entry env e c)"
proof (cases "parse_event (ce_loads env) e")
  case (Inl m)
  then show ?thesis
    by (intro that [of Malformed])
      (auto simp: handle_entry_def dispatch_entry_def log_end_def xack_def counts_ok_def)
next
  case (Inr ev)
  have ev: "ev_id ev = fst e" using Inr
    by (auto simp: parse_event_def Let_def split: if_splits option.splits pyval.splits prod.splits)
  obtain how w where h: "ce_handler env ev (co_world c) = (how, w)" by (metis surj_pair)
  show ?thesis
  proof (cases how)
    case Handled
    then show ?thesis using Inr h
      by (intro that [of Processed])
        (auto simp: handle_entry_def dispatch_entry_def log_end_def xack_def counts_ok_def)
  next
    case TransientHandlerError
    then show ?thesis using Inr h
      by (intro that [of KeptForRetry])
        (auto simp: handle_entry_def dispatch_entry_def log_end_def xack_def counts_ok_def)
  next
    case (HandlerFailed err)
    obtain ok w' where d: "ce_xadd env ev err w = (ok, w')" by (metis surj_pair)
    show ?thesis using Inr h HandlerFailed d ev
      by (intro that [of "if ok then DeadLettered else DeadLetterFailed"])
        (auto simp: handle_entry_def dispatch_entry_def log_end_def xack_def counts_ok_def dead_letter_def)
  qed
qed

definition accounted_ids :: "'w consumer \<Rightarrow> string set" where
  "accounted_ids c = pending_ids c \<union> settled_ids c"

lemma handle_entry_accounted: "accounted_ids c \<subseteq> accounted_ids (handle_entry env e c)"
  by (cases rule: handle_entry_cases [of env e c])
    (auto simp: accounted_ids_def pending_ids_def settled_ids_def split: if_splits)

lemma fold_handle_accounted: "accounted_ids c \<subseteq> accounted_ids (fold (handle_entry env) es c)"
  by (induction es arbitrary: c) (auto dest: subsetD [OF handle_entry_accounted])

lemma handle_entry_counts: "counts_ok c \<Longrightarrow> counts_ok (handle_entry env e c)"
  by (cases rule: handle_entry_cases [of env e c]) auto

lemma fold_handle_counts: "counts_ok c \<Longrightarrow> counts_ok (fold (handle_entry env) es c)"
  by (induction es arbitrary: c) (simp_all add: handle_entry_counts)

lemma reclaim_entry_accounted:
  "accounted_ids c \<subseteq> accounted_ids (reclaim_entry env e c) \<union> {i. snd e = [] \<and> i = fst e}"
  using handle_entry_accounted [of c env e]
  by (auto simp: reclaim_entry_def xack_def accounted_ids_def pending_ids_def settled_ids_def)

lemma fold_reclaim_accounted:
  "accounted_ids c \<subseteq> accounted_ids (fold (reclaim_entry env) es c) \<union> fst ` {e \<in> set es. snd e = []}"
proof (induction es arbitrary: c)
  case (Cons e es)
  have t: "fst ` {x \<in> set (e # es). snd x = []} = {i. snd e = [] \<and> i = fst e} \<union> fst ` {x \<in> set es. snd x = []}"
    by auto
  show ?case unfolding t
    using Cons.IH [of "reclaim_entry env e c"] reclaim_entry_accounted [of c env e] by (simp only: fold.simps comp_apply) blast
qed simp

lemma xack_counts: "counts_ok c \<Longrightarrow> counts_ok (xack i c)"
  by (simp add: counts_ok_def xack_def)

lemma fold_reclaim_counts: "counts_ok c \<Longrightarrow> counts_ok (fold (reclaim_entry env) es c)"
  by (induction es arbitrary: c) (simp_all add: reclaim_entry_def handle_entry_counts xack_counts)

lemma reclaim_pages_accounted:
  "accounted_ids c \<subseteq> accounted_ids (reclaim_pages env n ps c) \<union> trimmed_ids (Reclaimed ps)
   \<and> (counts_ok c \<longrightarrow> counts_ok (reclaim_pages env n ps c))"
proof (induction env n ps c rule: reclaim_pages.induct)
  case (3 env n cur es ps c)
  define c1 where "c1 = fold (reclaim_entry env) es c"
  have a: "accounted_ids c \<subseteq> accounted_ids c1 \<union> fst ` {e \<in> set es. snd e = []}"
    unfolding c1_def by (rule fold_reclaim_accounted)
  have b: "counts_ok c \<Longrightarrow> counts_ok c1" unfolding c1_def by (rule fold_reclaim_counts)
  have t: "trimmed_ids (Reclaimed ((cur, es) # ps)) = fst ` {e \<in> set es. snd e = []} \<union> trimmed_ids (Reclaimed ps)"
    by auto
  show ?case
  proof (cases "es = [] \<or> cur = ''0-0''")
    case True
    then show ?thesis using a b by (auto simp: Let_def c1_def [symmetric])
  next
    case False
    then have "reclaim_pages env (Suc n) ((cur, es) # ps) c = reclaim_pages env n ps c1"
      by (simp add: Let_def c1_def)
    then show ?thesis using 3 [OF c1_def False] a b unfolding t by (simp only:) blast
  qed
qed auto

lemma consumer_step_accounted:
  "accounted_ids c \<union> delivered_ids s \<subseteq> accounted_ids (do_consumer_step env s c) \<union> trimmed_ids s
   \<and> (counts_ok c \<longrightarrow> counts_ok (do_consumer_step env s c))"
proof (cases s)
  case (NewEntries es alive)
  define c1 where "c1 = c\<lparr>co_pending := co_pending c @ es\<rparr>"
  have "accounted_ids c \<union> fst ` set es \<subseteq> accounted_ids c1"
    by (auto simp: c1_def accounted_ids_def pending_ids_def settled_ids_def)
  moreover have "counts_ok c \<Longrightarrow> counts_ok c1" by (simp add: counts_ok_def c1_def)
  ultimately show ?thesis
    using fold_handle_accounted [of c1 env "take alive es"] fold_handle_counts [of c1 env "take alive es"]
    by (auto simp: NewEntries consume_once_def c1_def [symmetric])
next
  case (Reclaimed ps)
  then show ?thesis using reclaim_pages_accounted [of c env reclaim_max_pages ps]
    by (simp add: reclaim_stale_pending_def)
qed

text \<open>
  C40. No event is lost: whatever batches the stream delivers or hands back, wherever the
  process dies in a batch, whatever the handler and the dead-letter stream do, every event
  ever delivered is still pending or was settled (handled, malformed, or given up after an
  error that is not to be retried), unless the stream itself trimmed it; the counters add up
  to what was dispatched, and the dead-letter stream holds just the events it took.
\<close>

theorem events_never_lost:
  "(\<Union>s \<in> set ss. delivered_ids s)
     \<subseteq> pending_ids (consumer_run env ss w) \<union> settled_ids (consumer_run env ss w) \<union> (\<Union>s \<in> set ss. trimmed_ids s)
   \<and> counts_ok (consumer_run env ss w)"
proof -
  have "accounted_ids c \<union> (\<Union>s \<in> set ss. delivered_ids s)
      \<subseteq> accounted_ids (fold (do_consumer_step env) ss c) \<union> (\<Union>s \<in> set ss. trimmed_ids s)
    \<and> (counts_ok c \<longrightarrow> counts_ok (fold (do_consumer_step env) ss c))" for c
  proof (induction ss arbitrary: c)
    case (Cons s ss)
    define c1 where "c1 = do_consumer_step env s c"
    have f: "fold (do_consumer_step env) (s # ss) c = fold (do_consumer_step env) ss c1" by (simp add: c1_def)
    note step = consumer_step_accounted [of c s env, folded c1_def]
    note ih = Cons.IH [of c1]
    show ?case unfolding f list.set UN_insert
    proof (intro conjI impI)
      show "accounted_ids c \<union> (delivered_ids s \<union> (\<Union>s \<in> set ss. delivered_ids s))
          \<subseteq> accounted_ids (fold (do_consumer_step env) ss c1) \<union> (trimmed_ids s \<union> (\<Union>s \<in> set ss. trimmed_ids s))"
        using conjunct1 [OF step] conjunct1 [OF ih] by blast
      show "counts_ok (fold (do_consumer_step env) ss c1)" if "counts_ok c"
        using step ih that by blast
    qed
  qed simp
  from this [of "consumer_start w"] show ?thesis
    by (simp add: consumer_run_def accounted_ids_def counts_ok_def consumer_start_def)
qed

section \<open>Nothing is settled twice\<close>

text \<open>
  What the stream promises: it delivers an entry as new once, and hands back only entries that
  are pending; the entries of one reply are distinct.
\<close>

definition seen_ids :: "'w consumer \<Rightarrow> string set" where
  "seen_ids c = pending_ids c \<union> fst ` set (co_log c)"

fun pages_ok :: "'w consumer_env \<Rightarrow> nat \<Rightarrow> (string \<times> entry list) list \<Rightarrow> 'w consumer \<Rightarrow> bool" where
  "pages_ok env 0 ps c = True"
| "pages_ok env (Suc n) [] c = True"
| "pages_ok env (Suc n) ((cur, es) # ps) c =
     (distinct (map fst es) \<and> fst ` set es \<subseteq> pending_ids c
      \<and> (es = [] \<or> cur = ''0-0'' \<or> pages_ok env n ps (fold (reclaim_entry env) es c)))"

fun step_ok :: "'w consumer_env \<Rightarrow> consumer_step \<Rightarrow> 'w consumer \<Rightarrow> bool" where
  "step_ok env (NewEntries es alive) c = (distinct (map fst es) \<and> fst ` set es \<inter> seen_ids c = {})"
| "step_ok env (Reclaimed ps) c = pages_ok env reclaim_max_pages ps c"

fun run_ok :: "'w consumer_env \<Rightarrow> consumer_step list \<Rightarrow> 'w consumer \<Rightarrow> bool" where
  "run_ok env [] c = True"
| "run_ok env (s # ss) c = (step_ok env s c \<and> run_ok env ss (do_consumer_step env s c))"

definition settled_list :: "'w consumer \<Rightarrow> string list" where
  "settled_list c = map fst (filter (\<lambda>(i, x). x \<noteq> KeptForRetry) (co_log c))"

definition settled_once :: "'w consumer \<Rightarrow> bool" where
  "settled_once c \<longleftrightarrow> distinct (settled_list c) \<and> set (settled_list c) \<inter> pending_ids c = {}"

lemma handle_entry_once:
  assumes "settled_once c" and "fst e \<in> pending_ids c"
  shows "settled_once (handle_entry env e c)"
    and "pending_ids c - {fst e} \<subseteq> pending_ids (handle_entry env e c)"
  using assms
  by (cases rule: handle_entry_cases [of env e c];
      auto simp: settled_once_def settled_list_def pending_ids_def split: if_splits)+

lemma xack_once: "settled_once c \<Longrightarrow> settled_once (xack i c)" "pending_ids c - {i} \<subseteq> pending_ids (xack i c)"
  by (auto simp: settled_once_def settled_list_def xack_def pending_ids_def)

lemma reclaim_entry_once:
  assumes "settled_once c" and "fst e \<in> pending_ids c"
  shows "settled_once (reclaim_entry env e c)"
    and "pending_ids c - {fst e} \<subseteq> pending_ids (reclaim_entry env e c)"
  using handle_entry_once [OF assms] xack_once [of c "fst e"] assms(1) by (auto simp: reclaim_entry_def)

lemma fold_once:
  assumes step: "\<And>e c. settled_once c \<Longrightarrow> fst e \<in> pending_ids c \<Longrightarrow>
      settled_once (f e c) \<and> pending_ids c - {fst e} \<subseteq> pending_ids (f e c)"
    and "settled_once c" and "distinct (map fst es)" and "fst ` set es \<subseteq> pending_ids c"
  shows "settled_once (fold f es c)"
  using assms(2-)
proof (induction es arbitrary: c)
  case (Cons e es)
  have s: "settled_once (f e c)" "pending_ids c - {fst e} \<subseteq> pending_ids (f e c)"
    using step [of c e] Cons.prems by auto
  have "fst ` set es \<subseteq> pending_ids (f e c)"
  proof
    fix i assume i: "i \<in> fst ` set es"
    then have "i \<in> set (map fst es)" by simp
    then have "i \<noteq> fst e" using Cons.prems(2) by (metis distinct.simps(2) list.map(2))
    moreover have "i \<in> pending_ids c" using i Cons.prems(3) by auto
    ultimately show "i \<in> pending_ids (f e c)" using s(2) by blast
  qed
  then show ?case using Cons.IH [of "f e c"] s(1) Cons.prems(2) by simp
qed simp

lemma reclaim_pages_once:
  "settled_once c \<Longrightarrow> pages_ok env n ps c \<Longrightarrow> settled_once (reclaim_pages env n ps c)"
proof (induction env n ps c rule: reclaim_pages.induct)
  case (3 env n cur es ps c)
  have "settled_once (fold (reclaim_entry env) es c)"
    using 3(2,3) by (intro fold_once conjI reclaim_entry_once) auto
  then show ?case using 3 by (auto simp: Let_def)
qed auto

lemma consumer_step_once: "settled_once c \<Longrightarrow> step_ok env s c \<Longrightarrow> settled_once (do_consumer_step env s c)"
proof (cases s)
  case (NewEntries es alive)
  assume c: "settled_once c" and ok: "step_ok env s c"
  define c1 where "c1 = c\<lparr>co_pending := co_pending c @ es\<rparr>"
  have "settled_once c1"
    using c ok by (auto simp: NewEntries c1_def settled_once_def settled_list_def pending_ids_def seen_ids_def)
  moreover have "distinct (map fst (take alive es))" using ok by (simp add: NewEntries take_map [symmetric])
  moreover have "fst ` set (take alive es) \<subseteq> pending_ids c1"
    by (auto simp: c1_def pending_ids_def dest: in_set_takeD)
  ultimately have "settled_once (fold (handle_entry env) (take alive es) c1)"
    by (intro fold_once conjI handle_entry_once)
  then show ?thesis by (simp add: NewEntries consume_once_def c1_def)
next
  case (Reclaimed ps)
  assume "settled_once c" "step_ok env s c"
  then show ?thesis by (simp add: Reclaimed reclaim_stale_pending_def reclaim_pages_once)
qed

text \<open>
  No event is settled twice: as long as the stream hands out new entries once and hands
  back only pending ones, no event is settled more than once and none that is settled is
  pending, so a second call of the handler for one event only follows a request for a retry
  or the death of the process.
\<close>

theorem events_settled_once:
  assumes "run_ok env ss (consumer_start w)"
  shows "distinct (map fst (filter (\<lambda>(i, x). x \<noteq> KeptForRetry) (co_log (consumer_run env ss w))))
         \<and> settled_ids (consumer_run env ss w) \<inter> pending_ids (consumer_run env ss w) = {}"
proof -
  have "settled_once c \<Longrightarrow> run_ok env ss c \<Longrightarrow> settled_once (fold (do_consumer_step env) ss c)" for c
    by (induction ss arbitrary: c) (auto intro: consumer_step_once)
  moreover have "settled_once (consumer_start w)"
    by (simp add: settled_once_def settled_list_def consumer_start_def pending_ids_def)
  ultimately have s: "settled_once (consumer_run env ss w)" using assms by (simp add: consumer_run_def)
  have "settled_ids c = set (settled_list c)" for c :: "'a consumer"
    by (force simp: settled_ids_def settled_list_def)
  then show ?thesis using s by (simp add: settled_once_def settled_list_def)
qed

text \<open>A handler that asks for one retry: the entry stays pending, and is settled when reclaimed.\<close>

definition retry_env :: "nat consumer_env" where
  "retry_env = \<lparr>ce_loads = (\<lambda>s. Some (PDict [])),
     ce_handler = (\<lambda>ev n. (if n = 0 then TransientHandlerError else Handled, Suc n)),
     ce_xadd = (\<lambda>ev err n. (True, n))\<rparr>"

definition demo_entry :: entry where
  "demo_entry = (''1-0'', map (\<lambda>k. (k, ''x'')) required_fields)"

lemma events_settled_once_witness:
  "co_log (consumer_run retry_env [NewEntries [demo_entry] 1, Reclaimed [(''0-0'', [demo_entry])]] 0)
     = [(''1-0'', KeptForRetry), (''1-0'', Processed)]
   \<and> settled_ids (consumer_run retry_env [NewEntries [demo_entry] 1, Reclaimed [(''0-0'', [demo_entry])]] 0)
     \<inter> pending_ids (consumer_run retry_env [NewEntries [demo_entry] 1, Reclaimed [(''0-0'', [demo_entry])]] 0) = {}"
proof -
  have ok: "run_ok retry_env [NewEntries [demo_entry] 1, Reclaimed [(''0-0'', [demo_entry])]] (consumer_start 0)"
    by code_simp
  have "co_log (consumer_run retry_env [NewEntries [demo_entry] 1, Reclaimed [(''0-0'', [demo_entry])]] 0)
     = [(''1-0'', KeptForRetry), (''1-0'', Processed)]"
    by code_simp
  then show ?thesis using events_settled_once [OF ok] by blast
qed

end
