(* ===== verification/ModelChain.thy ===== *)
theory ModelChain
  imports PyValue "HOL-Library.AList"
begin

text \<open>
  Which model an agent runs with, the chain of \<^verbatim>\<open>model_config\<close> in
  \<^verbatim>\<open>apps/api-server/src/api_server/db/platform_settings.py\<close>: the agent's own, else its
  team's, its project's, the platform's. A dictionary has each key once.
\<close>

definition is_model_config_empty :: "pydict option \<Rightarrow> bool" where
  "is_model_config_empty cfg \<longleftrightarrow> cfg = None \<or> cfg = Some []"

definition config_needs_default_model :: "pydict \<Rightarrow> bool" where
  "config_needs_default_model cfg =
     (if cfg = [] then True
      else if truthy (dget cfg ''kind'') then False
      else if truthy (dget cfg ''provider_id'') \<and> truthy (dget cfg ''model'') then False
      else \<not> (truthy (dget cfg ''provider'') \<and> truthy (dget cfg ''model'')))"

definition merge_dicts :: "pydict \<Rightarrow> pydict \<Rightarrow> pydict" where
  "merge_dicts a b = fold (\<lambda>(k, v) d. AList.update k v d) b a"

definition merge_inherited_model :: "pydict \<Rightarrow> pydict \<Rightarrow> pydict" where
  "merge_inherited_model level agent =
     (let merged = merge_dicts level agent; reasoning = dget level ''reasoning_effort''
      in if truthy reasoning then AList.update ''reasoning_effort'' reasoning merged
         else AList.delete ''reasoning_effort'' merged)"

fun first_pinned :: "pydict list \<Rightarrow> pydict option" where
  "first_pinned [] = None"
| "first_pinned (l # ls) = (if \<not> config_needs_default_model l then Some l else first_pinned ls)"

definition resolve_model_config_chain :: "pydict \<Rightarrow> pydict \<Rightarrow> pydict \<Rightarrow> pydict \<Rightarrow> pydict" where
  "resolve_model_config_chain agent team project platform =
     (if \<not> config_needs_default_model agent then agent
      else case first_pinned [team, project, platform] of
             Some level \<Rightarrow> merge_inherited_model level agent
           | None \<Rightarrow> merge_inherited_model platform agent)"

section \<open>What the chain gives\<close>

lemma map_of_merge_dicts:
  "distinct (map fst b) \<Longrightarrow> map_of (merge_dicts a b) k = (case map_of b k of Some v \<Rightarrow> Some v | None \<Rightarrow> map_of a k)"
proof (induction b arbitrary: a)
  case (Cons kv b)
  obtain j v where kv: "kv = (j, v)" by fastforce
  have step: "map_of (merge_dicts a (kv # b)) k
      = (case map_of b k of Some v \<Rightarrow> Some v | None \<Rightarrow> map_of (AList.update j v a) k)"
    using Cons.IH [of "AList.update j v a"] Cons.prems by (simp add: merge_dicts_def kv)
  show ?case
  proof (cases "k = j")
    case True
    then have "map_of b k = None" using Cons.prems by (simp add: kv map_of_eq_None_iff)
    then show ?thesis using step True by (simp add: kv update_conv')
  next
    case False
    then show ?thesis using step by (simp add: kv update_conv' split: option.split)
  qed
qed (simp add: merge_dicts_def)

lemma dget_merge_dicts:
  "distinct (map fst b) \<Longrightarrow> dget (merge_dicts a b) k = (case map_of b k of Some v \<Rightarrow> v | None \<Rightarrow> dget a k)"
  by (simp add: dget_def map_of_merge_dicts split: option.split)

lemma dget_merge_inherited:
  assumes "distinct (map fst agent)"
  shows "dget (merge_inherited_model level agent) k =
    (if k = ''reasoning_effort''
     then (if truthy (dget level ''reasoning_effort'') then dget level ''reasoning_effort'' else PNone)
     else case map_of agent k of Some v \<Rightarrow> v | None \<Rightarrow> dget level k)"
  using dget_merge_dicts [OF assms, of level]
  by (auto simp: merge_inherited_model_def Let_def dget_def update_conv' delete_conv' split: option.split)

text \<open>
  The most specific pinned model wins: an agent that pins a model keeps its configuration
  as it is; otherwise the first of team, project and platform that pins one supplies every key
  the agent does not set, the reasoning effort comes from that level alone, and every other key
  of the agent is kept.
\<close>

theorem model_chain_most_specific:
  assumes "distinct (map fst agent)" and "config_needs_default_model agent"
    and "first_pinned [team, project, platform] = Some level"
  shows "dget (resolve_model_config_chain agent team project platform) k =
          (if k = ''reasoning_effort''
           then (if truthy (dget level ''reasoning_effort'') then dget level ''reasoning_effort'' else PNone)
           else case map_of agent k of Some v \<Rightarrow> v | None \<Rightarrow> dget level k)
       \<and> (level = team \<or> config_needs_default_model team \<and> (level = project \<or> config_needs_default_model project))"
  using assms dget_merge_inherited [OF assms(1), of level k]
  by (auto simp: resolve_model_config_chain_def split: if_splits)

text \<open>
  An agent that sets only a provider does not pin, but its provider still overrides the one of
  the level that supplies the model: the two are mixed.
\<close>

lemma partial_pin_mixes:
  assumes "distinct (map fst agent)" and "map_of agent ''provider'' = Some p" and "map_of agent ''model'' = None"
    and "\<not> truthy (dget agent ''kind'')"
    and "first_pinned [team, project, platform] = Some level"
  shows "dget (resolve_model_config_chain agent team project platform) ''provider'' = p"
    and "dget (resolve_model_config_chain agent team project platform) ''model'' = dget level ''model''"
proof -
  have n: "config_needs_default_model agent"
    using assms(3,4) by (auto simp: config_needs_default_model_def dget_def)
  show "dget (resolve_model_config_chain agent team project platform) ''provider'' = p"
    and "dget (resolve_model_config_chain agent team project platform) ''model'' = dget level ''model''"
    using n assms by (simp_all add: resolve_model_config_chain_def dget_merge_inherited)
qed

lemma model_chain_most_specific_witness:
  "dget (resolve_model_config_chain [(''system_prompts'', PStr ''p''), (''reasoning_effort'', PStr ''high'')]
           [(''provider'', PStr ''x'')] [(''provider'', PStr ''y''), (''model'', PStr ''m'')] [])
     ''reasoning_effort'' = PNone"
proof -
  have a: "distinct (map fst [(''system_prompts'', PStr ''p''), (''reasoning_effort'', PStr ''high'')])"
    "config_needs_default_model [(''system_prompts'', PStr ''p''), (''reasoning_effort'', PStr ''high'')]"
    "first_pinned [[(''provider'', PStr ''x'')], [(''provider'', PStr ''y''), (''model'', PStr ''m'')], []]
       = Some [(''provider'', PStr ''y''), (''model'', PStr ''m'')]"
    by (simp_all add: config_needs_default_model_def)
  show ?thesis
    using model_chain_most_specific [OF a, of "''reasoning_effort''"] by simp
qed

end
