(* ===== verification/Dispatch.thy ===== *)
theory Dispatch
  imports Reconciler Assignment EventConsumer ModelChain
begin

text \<open>
  The dispatcher of the orchestrator, \<^verbatim>\<open>apps/orchestrator/src/orchestrator/dispatch.py\<close>:
  what it does when a task becomes ready, is done, or enters review. A handler is one
  transaction and, after it, one message to the broker, whose success is an argument. The
  clock and the identity of a claim are arguments too. Of the request to the worker the
  definitions keep what decides a run: the tools, skills, commands and budgets that are
  looked up along the way, and the texts that are only passed on, are left out.
\<close>

section \<open>Triggers\<close>

definition is_ready_trigger :: "task_event \<Rightarrow> bool" where
  "is_ready_trigger ev \<longleftrightarrow>
     (if ev_type ev = ''task.status_changed'' then dget (ev_payload ev) ''new_status'' = PStr ''ready''
      else if ev_type ev = ''task.created'' then dget (ev_payload ev) ''status'' = PStr ''ready''
      else False)"

definition is_done_trigger :: "task_event \<Rightarrow> bool" where
  "is_done_trigger ev \<longleftrightarrow>
     ev_type ev = ''task.status_changed'' \<and> dget (ev_payload ev) ''new_status'' = PStr ''done''"

definition is_in_review_trigger :: "task_event \<Rightarrow> bool" where
  "is_in_review_trigger ev \<longleftrightarrow>
     ev_type ev = ''task.status_changed'' \<and> dget (ev_payload ev) ''new_status'' = PStr ''in_review''"

section \<open>Who takes the task\<close>

text \<open>The pause of a budget, read before a run starts: the project first, then the tenant.\<close>

datatype budget_scope = ProjectScope | TenantScope

definition budget_pause_block :: "site \<Rightarrow> string \<Rightarrow> string \<Rightarrow> budget_scope option" where
  "budget_pause_block s tenant project =
     (if \<exists>p \<in> set (si_projects s). pj_id p = project \<and> pj_tenant p = tenant \<and> \<not> pj_deleted p \<and> pj_paused p
      then Some ProjectScope
      else if tenant \<in> set (si_paused_tenants s) then Some TenantScope
      else None)"

definition human_assignee :: "site \<Rightarrow> engine_task \<Rightarrow> agent_row option" where
  "human_assignee s t =
     (case et_agent t of
        None \<Rightarrow> None
      | Some a \<Rightarrow>
          (case find (\<lambda>r. ar_id r = a \<and> ar_tenant r = et_tenant t) (si_agents s) of
             None \<Rightarrow> None
           | Some r \<Rightarrow> if ar_type r = A_HUMAN then Some r else None))"

definition global_scopes :: "string list" where
  "global_scopes = [''global_builtin'', ''global_tenant_template'']"

definition in_pool :: "site \<Rightarrow> engine_task \<Rightarrow> project_row \<Rightarrow> agent_row \<Rightarrow> bool" where
  "in_pool s t p a \<longleftrightarrow>
     (let local_agent = (ar_scope a = ''project_local'' \<and> ar_project a = Some (et_project t)) in
      case pj_team p of
        Some tm \<Rightarrow> (tm, ar_id a) \<in> set (si_members s) \<or> local_agent
      | None \<Rightarrow> local_agent \<or> ar_scope a \<in> set global_scopes)"

definition active_count :: "site \<Rightarrow> string \<Rightarrow> nat" where
  "active_count s a = length (filter (\<lambda>t. et_agent t = Some a \<and> et_status t = T_IN_PROGRESS) (site_tasks s))"

definition candidates :: "site \<Rightarrow> engine_task \<Rightarrow> project_row \<Rightarrow> candidate list" where
  "candidates s t p =
     map (\<lambda>a. \<lparr>cd_agent = ar_id a, cd_skills = (if ar_role a = [] then [] else [ar_role a]),
               cd_active = int (active_count s (ar_id a))\<rparr>)
       (filter (\<lambda>a. ar_tenant a = et_tenant t \<and> \<not> ar_deleted a \<and> ar_type a = A_AI \<and> in_pool s t p a)
          (si_agents s))"

text \<open>The role the plan asks for: the first entry of its tasks with the identity of this one.\<close>

fun role_of_entry :: "string \<Rightarrow> pyval list \<Rightarrow> string list" where
  "role_of_entry spec_id [] = []"
| "role_of_entry spec_id (PDict e # es) =
     (if py_str (dget e ''id'') = spec_id
      then (let role = strip (py_str (py_or (dget e ''role'') (PStr [])))
            in if role = [] then [] else [role])
      else role_of_entry spec_id es)"
| "role_of_entry spec_id (_ # es) = role_of_entry spec_id es"

definition task_required_skills :: "site \<Rightarrow> engine_task \<Rightarrow> string list" where
  "task_required_skills s t =
     (case et_plan t of
        None \<Rightarrow> []
      | Some i \<Rightarrow>
          if \<not> truthy (et_spec_id t) then []
          else case find (\<lambda>p. pl_id p = i \<and> pl_tenant p = et_tenant t) (si_plans s) of
                 None \<Rightarrow> []
               | Some p \<Rightarrow> role_of_entry (py_str (et_spec_id t)) (pl_tasks p))"

definition policy_of_name :: "string \<Rightarrow> assignment_policy option" where
  "policy_of_name n =
     (if n = ''skill_match'' then Some SKILL_MATCH
      else if n = ''load_balanced'' then Some LOAD_BALANCED
      else if n = ''round_robin'' then Some ROUND_ROBIN
      else if n = ''manual'' then Some MANUAL
      else None)"

definition project_policy :: "project_row \<Rightarrow> assignment_policy" where
  "project_policy p =
     (case pj_worker_config p of
        PDict d \<Rightarrow>
          (case dget d ''assignment_policy'' of
             PStr raw \<Rightarrow> (case policy_of_name raw of Some pol \<Rightarrow> pol | None \<Rightarrow> LOAD_BALANCED)
           | _ \<Rightarrow> LOAD_BALANCED)
      | _ \<Rightarrow> LOAD_BALANCED)"

definition pick_agent ::
  "project_row \<Rightarrow> engine_task \<Rightarrow> candidate list \<Rightarrow> string list \<Rightarrow> round_robin \<Rightarrow> string option \<times> round_robin" where
  "pick_agent p t cs required rr =
     (case et_agent t of
        Some a \<Rightarrow> (Some a, rr)
      | None \<Rightarrow>
          let pool = (case et_reviewer t of None \<Rightarrow> cs | Some r \<Rightarrow> filter (\<lambda>c. cd_agent c \<noteq> r) cs) in
          case project_policy p of
            MANUAL \<Rightarrow> (assign_manual None, rr)
          | ROUND_ROBIN \<Rightarrow> rr_pick pool rr
          | SKILL_MATCH \<Rightarrow>
              ((case assign_skill_match required pool of
                  Some a \<Rightarrow> Some a | None \<Rightarrow> assign_load_balanced pool), rr)
          | LOAD_BALANCED \<Rightarrow> (assign_load_balanced pool, rr))"

section \<open>What travels to the worker\<close>

definition team_model_config :: "site \<Rightarrow> project_row \<Rightarrow> pydict" where
  "team_model_config s p =
     (case pj_team p of
        None \<Rightarrow> []
      | Some i \<Rightarrow>
          (case find (\<lambda>tm. tm_id tm = i \<and> tm_tenant tm = pj_tenant p) (si_teams s) of
             None \<Rightarrow> [] | Some tm \<Rightarrow> tm_model tm))"

definition resolve_model_spec :: "pydict \<Rightarrow> site \<Rightarrow> agent_row \<Rightarrow> project_row \<Rightarrow> pydict" where
  "resolve_model_spec platform s a p =
     (if config_needs_default_model (ar_model a)
      then resolve_model_config_chain (ar_model a) (team_model_config s p) (pj_model p) platform
      else ar_model a)"

definition not_the_reviewers_run :: "site \<Rightarrow> string option \<Rightarrow> execution \<Rightarrow> bool" where
  "not_the_reviewers_run s reviewer e \<longleftrightarrow>
     reviewer = None \<or> rm_agent (si_runs s (ex_id e)) = None \<or> rm_agent (si_runs s (ex_id e)) \<noteq> reviewer"

text \<open>The runs of a task, newest first.\<close>

definition runs_of :: "site \<Rightarrow> string \<Rightarrow> executions" where
  "runs_of s i = sort_key (\<lambda>e. - int (rm_created (si_runs s (ex_id e)))) (filter (\<lambda>e. ex_task e = i) (site_runs s))"

definition read_prior_failure :: "site \<Rightarrow> engine_task \<Rightarrow> (exec_status \<times> string \<times> string) option" where
  "read_prior_failure s t =
     (case filter (not_the_reviewers_run s (et_reviewer t)) (runs_of s (et_id t)) of
        [] \<Rightarrow> None
      | e # _ \<Rightarrow>
          if ex_status e \<notin> {X_FAILED, X_ABORTED} then None
          else Some (ex_status e, (case abort_code e of Some c \<Rightarrow> c | None \<Rightarrow> []),
                     last_chars 1500 (case ex_output e of Some out \<Rightarrow> out | None \<Rightarrow> [])))"

text \<open>
  What a note of kind \<^verbatim>\<open>review_comment\<close> says to the implementer: its criterion, what to
  fix, its evidence; an approval, and a note without any of the three, says nothing.
\<close>

fun is_review_comment :: "note_body \<Rightarrow> bool" where
  "is_review_comment (ReviewInconclusive _ _) = True"
| "is_review_comment (EscalatedApprove _ _) = True"
| "is_review_comment (ReviewApproved _) = True"
| "is_review_comment (ReviewRejected _ _) = True"
| "is_review_comment (LostWork _ _) = True"
| "is_review_comment ReviewStuck = True"
| "is_review_comment _ = False"

fun feedback_of :: "note_body \<Rightarrow> (string \<times> string \<times> string) option" where
  "feedback_of (ReviewRejected v _) =
     (if rv_failed_criterion v = [] \<and> rv_what_to_fix v = [] \<and> rv_evidence v = [] then None
      else Some (rv_failed_criterion v, rv_what_to_fix v, rv_evidence v))"
| "feedback_of _ = None"

definition max_prior_review_feedback :: nat where "max_prior_review_feedback = 3"

definition read_prior_review_feedback :: "site \<Rightarrow> engine_task \<Rightarrow> (string \<times> string \<times> string) list" where
  "read_prior_review_feedback s t =
     List.map_filter (\<lambda>n. feedback_of (snd n))
       (take max_prior_review_feedback
          (rev (filter (\<lambda>n. fst n = et_id t \<and> is_review_comment (snd n)) (si_notes s))))"

definition predecessors_max :: nat where "predecessors_max = 5"
definition predecessor_summary_max :: nat where "predecessor_summary_max = 1200"

definition predecessor_brief :: "site \<Rightarrow> engine_task \<Rightarrow> (string \<times> string) option" where
  "predecessor_brief s d =
     (case filter (\<lambda>e. ex_status e = X_DONE \<and> not_the_reviewers_run s (et_reviewer d) e) (runs_of s (et_id d)) of
        [] \<Rightarrow> None
      | e # _ \<Rightarrow>
          let summary = take predecessor_summary_max (strip (case ex_output e of Some out \<Rightarrow> out | None \<Rightarrow> []))
          in if summary = [] then None else Some (et_id d, summary))"

definition read_predecessor_briefs :: "site \<Rightarrow> engine_task \<Rightarrow> (string \<times> string) list" where
  "read_predecessor_briefs s t =
     List.map_filter (predecessor_brief s)
       (take predecessors_max
          (filter (\<lambda>d. (et_id t, et_id d) \<in> set (si_deps s) \<and> et_tenant d = et_tenant t \<and> et_status d = T_DONE)
             (site_tasks s)))"

definition ask_human_max_per_task :: nat where "ask_human_max_per_task = 5"
definition human_answers_max :: nat where "human_answers_max = 3"
definition human_answer_text_max :: nat where "human_answer_text_max = 2000"

definition count_human_questions :: "site \<Rightarrow> engine_task \<Rightarrow> nat" where
  "count_human_questions s t =
     length (filter (\<lambda>q. aq_task q = et_id t \<and> aq_tenant q = et_tenant t \<and> aq_category q = human_question_category)
       (en_requests (si_engine s)))"

definition ask_human_remaining :: "site \<Rightarrow> engine_task \<Rightarrow> int" where
  "ask_human_remaining s t = max 0 (int ask_human_max_per_task - int (count_human_questions s t))"

text \<open>A question and its answer; an action or arguments that are no dictionary ask nothing here.\<close>

definition human_answer :: "approval_row \<Rightarrow> (string \<times> string) option" where
  "human_answer q =
     (let args = (case aq_action q of
                    PDict d \<Rightarrow> (case dget d ''args'' of PDict a \<Rightarrow> a | _ \<Rightarrow> [])
                  | _ \<Rightarrow> []);
          question = strip (py_str (py_or (dget args ''question'') (PStr [])));
          answer = strip (case q_reason q of Some r \<Rightarrow> r | None \<Rightarrow> [])
      in if question = [] \<or> answer = [] then None
         else Some (take human_answer_text_max question, take human_answer_text_max answer))"

definition read_prior_human_answers :: "site \<Rightarrow> engine_task \<Rightarrow> (string \<times> string) list" where
  "read_prior_human_answers s t =
     List.map_filter human_answer
       (take human_answers_max
          (newest_first
             (filter (\<lambda>q. aq_task q = et_id t \<and> aq_tenant q = et_tenant t
                          \<and> aq_category q = human_question_category \<and> q_status q = Q_APPROVED)
                (en_requests (si_engine s)))))"

record dispatch_request =
  dr_run :: run_request
  dr_feedback :: "(string \<times> string \<times> string) list"
  dr_failure :: "(exec_status \<times> string \<times> string) option"
  dr_predecessors :: "(string \<times> string) list"
  dr_answers :: "(string \<times> string) list"
  dr_ask_remaining :: int

definition assemble_run_request :: "engine_task \<Rightarrow> agent_row \<Rightarrow> pydict \<Rightarrow> run_request" where
  "assemble_run_request t a model =
     \<lparr>rq_task = et_id t, rq_tenant = et_tenant t, rq_agent = Some (ar_id a), rq_review = False,
      rq_claim = None, rq_model = model\<rparr>"

section \<open>A ready task\<close>

text \<open>The atomic claim: one write, guarded by the status it expects.\<close>

definition claim_task ::
  "instant \<Rightarrow> string \<Rightarrow> string \<Rightarrow> string \<Rightarrow> string \<Rightarrow> site \<Rightarrow> bool \<times> site" where
  "claim_task now i tenant agent claim s =
     (case site_task s i of
        None \<Rightarrow> (False, s)
      | Some t \<Rightarrow>
          if et_tenant t \<noteq> tenant \<or> et_status t \<noteq> T_READY then (False, s)
          else (True, put_task (t\<lparr>et_status := T_IN_PROGRESS, et_agent := Some agent,
                                  et_started_at := Some now, et_claim := Some claim\<rparr>) s))"

text \<open>The notice that no agent can take a task is left once; whether it is sent comes back.\<close>

definition surface_unassignable :: "engine_task \<Rightarrow> site \<Rightarrow> bool \<times> site" where
  "surface_unassignable t s =
     (if (et_id t, TaskUnassignable) \<in> set (si_notes s) then (False, s)
      else (True, add_note (et_id t) TaskUnassignable s))"

definition clear_dead_preset :: "engine_task \<Rightarrow> string \<Rightarrow> site \<Rightarrow> site" where
  "clear_dead_preset t a s = add_note (et_id t) (PresetCleared a) (put_task (t\<lparr>et_agent := None\<rparr>) s)"

datatype route_outcome =
    NotRouted bool
  | RoutedAI dispatch_request
  | RoutedHuman "string option"

definition route_ai ::
  "pydict \<Rightarrow> instant \<Rightarrow> string \<Rightarrow> engine_task \<Rightarrow> site \<Rightarrow> round_robin \<Rightarrow> route_outcome \<times> site \<times> round_robin" where
  "route_ai platform now claim t s rr =
     (case live_project s (et_project t) of
        None \<Rightarrow> (NotRouted False, s, rr)
      | Some p \<Rightarrow>
          let (picked, rr1) = pick_agent p t (candidates s t p) (task_required_skills s t) rr in
          case picked of
            None \<Rightarrow> (let (told, s1) = surface_unassignable t s in (NotRouted told, s1, rr1))
          | Some a \<Rightarrow>
              (case find (\<lambda>r. ar_id r = a \<and> ar_tenant r = et_tenant t \<and> \<not> ar_deleted r) (si_agents s) of
                 None \<Rightarrow>
                   (case et_agent t of
                      Some dead \<Rightarrow> (NotRouted False, clear_dead_preset t dead s, rr1)
                    | None \<Rightarrow> (let (told, s1) = surface_unassignable t s in (NotRouted told, s1, rr1)))
               | Some row \<Rightarrow>
                   let model = resolve_model_spec platform s row p in
                   if config_needs_default_model model then (NotRouted False, s, rr1)
                   else
                     let (won, s1) = claim_task now (et_id t) (et_tenant t) (ar_id row) claim s in
                     if \<not> won then (NotRouted False, s1, rr1)
                     else
                       (RoutedAI
                          \<lparr>dr_run = (assemble_run_request t row model)\<lparr>rq_claim := Some claim\<rparr>,
                           dr_feedback = read_prior_review_feedback s1 t,
                           dr_failure = read_prior_failure s1 t,
                           dr_predecessors = read_predecessor_briefs s1 t,
                           dr_answers = read_prior_human_answers s1 t,
                           dr_ask_remaining = ask_human_remaining s1 t\<rparr>, s1, rr1)))"

definition route_human ::
  "instant \<Rightarrow> engine_task \<Rightarrow> agent_row \<Rightarrow> site \<Rightarrow> (site_error, string option \<times> site) result" where
  "route_human now t a s =
     bindr (move_task (Some A_HUMAN) T_ASSIGNED_TO_HUMAN t) (\<lambda>t1.
       Inr (ar_user a,
            put_task t1 (s\<lparr>si_assignments := si_assignments s @
              [\<lparr>ha_tenant = et_tenant t, ha_task = et_id t, ha_agent = ar_id a, ha_user = ar_user a,
                ha_at = now, ha_status = ''pending_acceptance''\<rparr>]\<rparr>)))"

definition dispatch_task ::
  "pydict \<Rightarrow> instant \<Rightarrow> string \<Rightarrow> string \<Rightarrow> string \<Rightarrow> site \<Rightarrow> round_robin
     \<Rightarrow> (site_error, route_outcome \<times> site \<times> round_robin) result" where
  "dispatch_task platform now claim i tenant s rr =
     (case site_task s i of
        None \<Rightarrow> Inr (NotRouted False, s, rr)
      | Some t \<Rightarrow>
          if et_tenant t \<noteq> tenant \<or> et_status t \<noteq> T_READY then Inr (NotRouted False, s, rr)
          else if (case live_project s (et_project t) of None \<Rightarrow> True | Some p \<Rightarrow> pj_status p \<noteq> ''active'')
          then Inr (NotRouted False, s, rr)
          else
            case human_assignee s t of
              None \<Rightarrow>
                if budget_pause_block s (et_tenant t) (et_project t) \<noteq> None
                then Inr (NotRouted False, s, rr)
                else Inr (route_ai platform now claim t s rr)
            | Some a \<Rightarrow> bindr (route_human now t a s) (\<lambda>(u, s1). Inr (RoutedHuman u, s1, rr)))"

text \<open>Undoing a claim whose message did not reach the broker.\<close>

definition revert_to_ready :: "string \<Rightarrow> string \<Rightarrow> site \<Rightarrow> bool \<times> site" where
  "revert_to_ready i tenant s =
     (case site_task s i of
        None \<Rightarrow> (False, s)
      | Some t \<Rightarrow>
          if et_tenant t \<noteq> tenant \<or> et_status t \<noteq> T_IN_PROGRESS then (False, s)
          else (True, put_task (cleared_claim (t\<lparr>et_status := T_READY\<rparr>)) s))"

section \<open>A task that is done\<close>

text \<open>
  The plan it may close; the answer is the move that was won. The start of a review runtime and
  the notice of a block follow the commit and are left out.
\<close>

definition on_task_done :: "string \<Rightarrow> string \<Rightarrow> site \<Rightarrow> (plan_status \<times> plan_status) option \<times> site" where
  "on_task_done i tenant s =
     (case site_task s i of
        None \<Rightarrow> (None, s)
      | Some t \<Rightarrow>
          if et_tenant t \<noteq> tenant then (None, s)
          else case et_plan t of
                 None \<Rightarrow> (None, s)
               | Some plan \<Rightarrow>
                   (case find (\<lambda>p. pl_id p = plan \<and> pl_tenant p = tenant) (si_plans s) of
                      None \<Rightarrow> (None, s)
                    | Some p \<Rightarrow>
                        let r = decide_plan_closure (pl_status p) (site_snapshots s p) in
                        if \<not> transitioned r then (None, s)
                        else let (won, s1) = move_plan_if P_IN_PROGRESS (new_status r) p s
                             in (if won then Some (P_IN_PROGRESS, new_status r) else None, s1)))"

section \<open>A task in review\<close>

definition on_task_in_review :: "pydict \<Rightarrow> string \<Rightarrow> string \<Rightarrow> site \<Rightarrow> run_request option" where
  "on_task_in_review platform i tenant s =
     (case site_task s i of
        None \<Rightarrow> None
      | Some t \<Rightarrow>
          if et_tenant t \<noteq> tenant \<or> et_status t \<noteq> T_IN_REVIEW then None
          else case et_reviewer t of
                 None \<Rightarrow> None
               | Some r \<Rightarrow>
                   (case (find (\<lambda>a. ar_id a = r \<and> ar_tenant a = tenant) (si_agents s),
                          live_project s (et_project t)) of
                      (Some a, Some p) \<Rightarrow>
                        if ar_type a = A_HUMAN \<or> pj_status p \<noteq> ''active''
                           \<or> budget_pause_block s tenant (et_project t) \<noteq> None
                           \<or> running_of i s \<noteq> []
                        then None
                        else Some ((assemble_run_request t a (resolve_model_spec platform s a p))\<lparr>rq_review := True\<rparr>)
                    | _ \<Rightarrow> None))"

section \<open>The handler\<close>

text \<open>
  One event. \<open>sent\<close> says whether the broker took the message of a run; the message, if it did,
  comes back with the new state.
\<close>

definition handle_task_event ::
  "pydict \<Rightarrow> instant \<Rightarrow> string \<Rightarrow> bool \<Rightarrow> task_event \<Rightarrow> site \<Rightarrow> round_robin
     \<Rightarrow> (site_error, run_request option \<times> site \<times> round_robin) result" where
  "handle_task_event platform now claim sent ev s rr =
     (if is_done_trigger ev then Inr (None, snd (on_task_done (ev_task ev) (ev_tenant ev) s), rr)
      else if is_in_review_trigger ev
      then Inr (if sent then on_task_in_review platform (ev_task ev) (ev_tenant ev) s else None, s, rr)
      else if \<not> is_ready_trigger ev then Inr (None, s, rr)
      else bindr (dispatch_task platform now claim (ev_task ev) (ev_tenant ev) s rr) (\<lambda>(out, s1, rr1).
        Inr (case out of
               RoutedAI r \<Rightarrow>
                 if sent then (Some (dr_run r), s1, rr1)
                 else (None, snd (revert_to_ready (ev_task ev) (ev_tenant ev) s1), rr1)
             | _ \<Rightarrow> (None, s1, rr1))))"

section \<open>What dispatch guarantees\<close>

lemma claim_task_cases:
  assumes "claim_task now i tenant agent claim s = (won, s')"
  obtains (lost) "\<not> won" "s' = s"
  | (won) t where "won" "site_task s i = Some t" "et_tenant t = tenant" "et_status t = T_READY"
      "s' = put_task (t\<lparr>et_status := T_IN_PROGRESS, et_agent := Some agent, et_started_at := Some now,
                        et_claim := Some claim\<rparr>) s"
  using assms by (auto simp: claim_task_def split: option.splits if_splits)

text \<open>
  One claim wins: a claim succeeds exactly on a ready task of its tenant, and from then on
  every other claim of that task, whoever makes it and with whatever it read before, fails and
  changes nothing.
\<close>

theorem one_claim_wins:
  "fst (claim_task now i tenant agent claim s)
     = (\<exists>t. site_task s i = Some t \<and> et_tenant t = tenant \<and> et_status t = T_READY)
   \<and> (case claim_task now i tenant agent claim s of
        (False, s') \<Rightarrow> s' = s
      | (True, s') \<Rightarrow> claim_task now' i tenant' agent' claim' s' = (False, s')
                      \<and> (\<exists>t. site_task s' i = Some t \<and> et_claim t = Some claim \<and> et_agent t = Some agent))"
proof -
  obtain won s' where c: "claim_task now i tenant agent claim s = (won, s')" by (metis prod.exhaust)
  from c show ?thesis
  proof (cases rule: claim_task_cases)
    case lost
    then show ?thesis using c by (auto simp: claim_task_def split: option.splits if_splits)
  next
    case (won t)
    define u where "u = t\<lparr>et_status := T_IN_PROGRESS, et_agent := Some agent, et_started_at := Some now,
                          et_claim := Some claim\<rparr>"
    have "site_task s' i = Some u"
      using site_task_put [of s u t i] site_task_id [OF won(2)] won(2,5) by (simp add: u_def)
    then show ?thesis using c won by (auto simp: u_def claim_task_def)
  qed
qed

end
