(* ===== verification/DispatchRun.thy ===== *)
theory DispatchRun
  imports Dispatch
begin

text \<open>
  What dispatch guarantees, alone and together with the worker that receives its messages and
  the reconciler that repairs what was lost.
\<close>

lemma best_by_in: "best_by better c rest \<in> insert c (set rest)"
  using best_by_member [of better c rest] by simp

lemma best_pick_member:
  "assign_load_balanced cs = Some a \<Longrightarrow> a \<in> cd_agent ` set cs"
  "assign_skill_match required cs = Some a \<Longrightarrow> a \<in> cd_agent ` set cs"
proof -
  assume a: "assign_load_balanced cs = Some a"
  then obtain c rest where "cs = c # rest" by (cases cs) (auto simp: assign_load_balanced_def)
  then show "a \<in> cd_agent ` set cs"
    using a imageI [OF best_by_in [of _ c rest], of cd_agent] by (auto simp: assign_load_balanced_def)
next
  assume a: "assign_skill_match required cs = Some a"
  then obtain c rest where "cs = c # rest" by (cases cs) (auto simp: assign_skill_match_def Let_def)
  then show "a \<in> cd_agent ` set cs"
    using a imageI [OF best_by_in [of _ c rest], of cd_agent]
    by (auto simp: assign_skill_match_def Let_def split: if_splits)
qed

lemma rr_pick_member: "rr_pick cs rr = (Some a, rr') \<Longrightarrow> a \<in> cd_agent ` set cs"
proof -
  assume p: "rr_pick cs rr = (Some a, rr')"
  then have "cs \<noteq> []" by (auto simp: rr_pick_def)
  then have "a = pool_key cs ! rr_cursor cs rr" "rr_cursor cs rr < length (pool_key cs)"
    using p rr_pick_cursor(1) [of cs rr] by (auto simp: rr_cursor_def)
  then have "a \<in> set (pool_key cs)" using nth_mem by blast
  then show ?thesis by simp
qed

text \<open>Without a preset, the agent picked is of the pool and not the reviewer.\<close>

lemma pick_agent_member:
  assumes "pick_agent p t cs required rr = (Some a, rr')" and "et_agent t = None"
  shows "a \<in> cd_agent ` set cs" "et_reviewer t \<noteq> Some a"
proof -
  define pool where "pool = (case et_reviewer t of None \<Rightarrow> cs | Some r \<Rightarrow> filter (\<lambda>c. cd_agent c \<noteq> r) cs)"
  have "a \<in> cd_agent ` set pool"
    using assms best_pick_member(1) [of pool a] best_pick_member(2) [of required pool a] rr_pick_member [of pool rr a rr']
    by (auto simp: pick_agent_def pool_def [symmetric] assign_manual_def Let_def
        split: assignment_policy.splits option.splits)
  then show "a \<in> cd_agent ` set cs" "et_reviewer t \<noteq> Some a"
    by (auto simp: pool_def split: option.splits)
qed

definition claimed_row :: "instant \<Rightarrow> string \<Rightarrow> string \<Rightarrow> engine_task \<Rightarrow> engine_task" where
  "claimed_row now agent claim t =
     t\<lparr>et_status := T_IN_PROGRESS, et_agent := Some agent, et_started_at := Some now, et_claim := Some claim\<rparr>"

lemma claim_ready:
  assumes "site_task s i = Some t" and "et_status t = T_READY"
  shows "claim_task now i (et_tenant t) agent claim s = (True, put_task (claimed_row now agent claim t) s)"
  using assms by (simp add: claim_task_def claimed_row_def)

text \<open>The AI route, by what it answers.\<close>

lemma route_ai_cases:
  assumes "route_ai platform now claim t s rr = (out, s', rr')"
    and t: "site_task s (et_id t) = Some t" "et_status t = T_READY"
  obtains (idle) told where "out = NotRouted told" "s' = s \<or> s' = add_note (et_id t) TaskUnassignable s"
  | (preset) a where "out = NotRouted False" "et_agent t = Some a" "s' = clear_dead_preset t a s"
  | (routed) r p a where "out = RoutedAI r" "live_project s (et_project t) = Some p"
      "a \<in> set (si_agents s)" "ar_tenant a = et_tenant t" "\<not> ar_deleted a"
      "et_agent t = Some (ar_id a) \<or> et_agent t = None \<and> ar_id a \<in> cd_agent ` set (candidates s t p)
         \<and> et_reviewer t \<noteq> Some (ar_id a)"
      "\<not> config_needs_default_model (rq_model (dr_run r))"
      "dr_run r = \<lparr>rq_task = et_id t, rq_tenant = et_tenant t, rq_agent = Some (ar_id a), rq_review = False,
                   rq_claim = Some claim, rq_model = rq_model (dr_run r)\<rparr>"
      "s' = put_task (claimed_row now (ar_id a) claim t) s"
proof (cases "live_project s (et_project t)")
  case None
  then have "out = NotRouted False" "s' = s" using assms(1) by (simp_all add: route_ai_def)
  then show thesis by (rule idle [OF _ disjI1])
next
  case p: (Some p)
  obtain picked rr1 where pick: "pick_agent p t (candidates s t p) (task_required_skills s t) rr = (picked, rr1)"
    by (metis prod.exhaust)
  have surfaced: thesis if "route_ai platform now claim t s rr
      = (let (told, s1) = surface_unassignable t s in (NotRouted told, s1, rr1))"
    using that assms(1) idle by (auto simp: surface_unassignable_def split: if_splits)
  show thesis
  proof (cases picked)
    case None
    then show thesis using surfaced p pick by (simp add: route_ai_def)
  next
    case (Some b)
    show thesis
    proof (cases "find (\<lambda>r. ar_id r = b \<and> ar_tenant r = et_tenant t \<and> \<not> ar_deleted r) (si_agents s)")
      case gone: None
      show thesis
      proof (cases "et_agent t")
        case None
        then show thesis using surfaced p pick Some gone by (simp add: route_ai_def)
      next
        case (Some dead)
        then show thesis using preset [of dead] assms(1) p pick \<open>picked = Some b\<close> gone
          by (auto simp: route_ai_def)
      qed
    next
      case row: (Some a)
      then have a: "a \<in> set (si_agents s)" "ar_id a = b" "ar_tenant a = et_tenant t" "\<not> ar_deleted a"
        by (auto simp: find_Some_iff)
      have chosen: "et_agent t = Some (ar_id a) \<or> et_agent t = None
          \<and> ar_id a \<in> cd_agent ` set (candidates s t p) \<and> et_reviewer t \<noteq> Some (ar_id a)"
        using pick_agent_member [of p t "candidates s t p" "task_required_skills s t" rr b rr1] pick Some a(2)
        by (cases "et_agent t") (auto simp: pick_agent_def)
      show thesis
      proof (cases "config_needs_default_model (resolve_model_spec platform s a p)")
        case True
        then show thesis using idle [of False] assms(1) p pick Some row by (auto simp: route_ai_def Let_def)
      next
        case False
        have "out = RoutedAI \<lparr>dr_run = (assemble_run_request t a (resolve_model_spec platform s a p))\<lparr>rq_claim := Some claim\<rparr>,
            dr_feedback = read_prior_review_feedback s' t, dr_failure = read_prior_failure s' t,
            dr_predecessors = read_predecessor_briefs s' t, dr_answers = read_prior_human_answers s' t,
            dr_ask_remaining = ask_human_remaining s' t\<rparr>"
          and "s' = put_task (claimed_row now (ar_id a) claim t) s"
          using assms(1) p pick Some row False claim_ready [OF t, of now "ar_id a" claim]
          by (auto simp: route_ai_def Let_def)
        then show thesis using False p a chosen by (intro routed) (auto simp: assemble_run_request_def)
      qed
    qed
  qed
qed

section \<open>What a dispatch may do\<close>

text \<open>What makes a request to run one that dispatch may send.\<close>

definition sendable :: "site \<Rightarrow> engine_task \<Rightarrow> run_request \<Rightarrow> bool" where
  "sendable s t r \<longleftrightarrow>
     (\<exists>p a. live_project s (et_project t) = Some p \<and> pj_status p = ''active''
        \<and> budget_pause_block s (et_tenant t) (et_project t) = None \<and> human_assignee s t = None
        \<and> a \<in> set (si_agents s) \<and> ar_tenant a = et_tenant t \<and> \<not> ar_deleted a
        \<and> (et_agent t = Some (ar_id a)
           \<or> et_agent t = None \<and> ar_id a \<in> cd_agent ` set (candidates s t p) \<and> et_reviewer t \<noteq> Some (ar_id a))
        \<and> \<not> config_needs_default_model (rq_model r)
        \<and> rq_agent r = Some (ar_id a))"

lemma human_route_ok:
  "et_status t = T_READY \<Longrightarrow> route_human now t a s =
     Inr (ar_user a, put_task (t\<lparr>et_status := T_ASSIGNED_TO_HUMAN\<rparr>) (s\<lparr>si_assignments := si_assignments s @
       [\<lparr>ha_tenant = et_tenant t, ha_task = et_id t, ha_agent = ar_id a, ha_user = ar_user a,
         ha_at = now, ha_status = ''pending_acceptance''\<rparr>]\<rparr>))"
  by (simp add: route_human_def move_task_ok can_transition_def allowed_transitions_def)

lemma human_assignee_Some:
  assumes "human_assignee s t = Some a"
  shows "a \<in> set (si_agents s)" "ar_type a = A_HUMAN" "ar_tenant a = et_tenant t" "et_agent t = Some (ar_id a)"
  using assms by (auto simp: human_assignee_def find_Some_iff split: option.splits if_splits)

definition same_statuses :: "site \<Rightarrow> site \<Rightarrow> bool" where
  "same_statuses s s' \<longleftrightarrow>
     (\<forall>j. map_option et_status (site_task s' j) = map_option et_status (site_task s j))"

lemma same_statuses_put:
  assumes "site_task s (et_id t) = Some t" and "et_id u = et_id t" and "et_status u = et_status t"
  shows "same_statuses s (put_task u s)"
  using assms site_task_put [of s u t] by (simp add: same_statuses_def)

lemma routed_request:
  assumes "r = \<lparr>rq_task = et_id t, rq_tenant = et_tenant t, rq_agent = Some a, rq_review = False,
                 rq_claim = Some claim, rq_model = rq_model r\<rparr>"
  shows "rq_task r = et_id t" "rq_tenant r = et_tenant t" "rq_agent r = Some a" "\<not> rq_review r"
    "rq_claim r = Some claim"
  by (subst assms, simp)+

text \<open>A dispatch that sends a message.\<close>

lemma dispatch_cases:
  assumes d: "dispatch_task platform now claim i tenant s rr = Inr (RoutedAI r, s', rr')"
  obtains t agent where "site_task s i = Some t" "et_tenant t = tenant" "et_status t = T_READY"
    "sendable s t (dr_run r)" "rq_agent (dr_run r) = Some agent" "rq_task (dr_run r) = i"
    "rq_tenant (dr_run r) = tenant" "rq_claim (dr_run r) = Some claim" "\<not> rq_review (dr_run r)"
    "s' = put_task (claimed_row now agent claim t) s"
proof -
  obtain t p where t: "site_task s i = Some t" "et_tenant t = tenant" "et_status t = T_READY"
    and p: "live_project s (et_project t) = Some p" "pj_status p = ''active''"
    and free: "human_assignee s t = None" "budget_pause_block s (et_tenant t) (et_project t) = None"
    and r: "route_ai platform now claim t s rr = (RoutedAI r, s', rr')"
    using d by (auto simp: dispatch_task_def result_ok split: option.splits if_splits)
  have i: "et_id t = i" by (rule site_task_id [OF t(1)])
  show thesis
  proof (rule route_ai_cases [OF r _ t(3)])
    show "site_task s (et_id t) = Some t" using t(1) i by simp
  next
    fix r' p' a
    assume h: "RoutedAI r = RoutedAI r'" "live_project s (et_project t) = Some p'" "a \<in> set (si_agents s)"
      "ar_tenant a = et_tenant t" "\<not> ar_deleted a"
      "et_agent t = Some (ar_id a) \<or> et_agent t = None \<and> ar_id a \<in> cd_agent ` set (candidates s t p')
         \<and> et_reviewer t \<noteq> Some (ar_id a)"
      "\<not> config_needs_default_model (rq_model (dr_run r'))"
      "dr_run r' = \<lparr>rq_task = et_id t, rq_tenant = et_tenant t, rq_agent = Some (ar_id a), rq_review = False,
                   rq_claim = Some claim, rq_model = rq_model (dr_run r')\<rparr>"
      "s' = put_task (claimed_row now (ar_id a) claim t) s"
    note f = routed_request [OF h(8)]
    have "sendable s t (dr_run r')"
      unfolding sendable_def using h p free f(3) by (intro exI [of _ p] exI [of _ a]) auto
    then show thesis using t f i h(1,9) by (intro that [of t "ar_id a"]) auto
  qed simp_all
qed

text \<open>
  C8. Dispatch is guarded: it never fails, and what it answers says what it did. A message to a
  worker means that the task was ready and of this tenant, its project is alive, active and not
  paused by a budget, its assignee is no person, the agent is a live one of the tenant, the one
  preset or one of the project's pool that is not the reviewer, and the request names a model;
  the only change is the claim on the task, by that agent and with the claim of the message.
  A task handed to a person was ready, goes to exactly the person it was preset to, with one new
  assignment; in every other case no task changes its status.
\<close>

theorem dispatch_is_guarded:
  "case dispatch_task platform now claim i tenant s rr of
     Inl e \<Rightarrow> False
   | Inr (RoutedAI r, s', rr') \<Rightarrow>
       (\<exists>t agent. site_task s i = Some t \<and> et_tenant t = tenant \<and> et_status t = T_READY
          \<and> sendable s t (dr_run r) \<and> rq_agent (dr_run r) = Some agent
          \<and> rq_task (dr_run r) = i \<and> rq_tenant (dr_run r) = tenant \<and> rq_claim (dr_run r) = Some claim
          \<and> \<not> rq_review (dr_run r)
          \<and> s' = put_task (claimed_row now agent claim t) s)
   | Inr (RoutedHuman u, s', rr') \<Rightarrow>
       (\<exists>t a p. site_task s i = Some t \<and> et_tenant t = tenant \<and> et_status t = T_READY
          \<and> live_project s (et_project t) = Some p \<and> pj_status p = ''active''
          \<and> a \<in> set (si_agents s) \<and> ar_type a = A_HUMAN \<and> et_agent t = Some (ar_id a)
          \<and> site_task s' i = Some (t\<lparr>et_status := T_ASSIGNED_TO_HUMAN\<rparr>)
          \<and> (\<forall>j. j \<noteq> i \<longrightarrow> site_task s' j = site_task s j)
          \<and> (\<exists>h. si_assignments s' = si_assignments s @ [h] \<and> ha_task h = i \<and> ha_agent h = ar_id a))
   | Inr (NotRouted told, s', rr') \<Rightarrow> same_statuses s s'"
proof (cases "\<exists>t p. site_task s i = Some t \<and> et_tenant t = tenant \<and> et_status t = T_READY
                \<and> live_project s (et_project t) = Some p \<and> pj_status p = ''active''")
  case False
  then have "dispatch_task platform now claim i tenant s rr = Inr (NotRouted False, s, rr)"
    by (auto simp: dispatch_task_def split: option.split)
  then show ?thesis by (simp add: same_statuses_def)
next
  case True
  then obtain t p where t: "site_task s i = Some t" "et_tenant t = tenant" "et_status t = T_READY"
    and p: "live_project s (et_project t) = Some p" "pj_status p = ''active''" by blast
  have i: "et_id t = i" by (rule site_task_id [OF t(1)])
  show ?thesis
  proof (cases "human_assignee s t")
    case (Some a)
    note a = human_assignee_Some [OF Some]
    define s0 where "s0 = s\<lparr>si_assignments := si_assignments s @
       [\<lparr>ha_tenant = et_tenant t, ha_task = i, ha_agent = ar_id a, ha_user = ar_user a,
         ha_at = now, ha_status = ''pending_acceptance''\<rparr>]\<rparr>"
    have s0: "site_task s0 j = site_task s j" for j by (simp add: s0_def site_task_def)
    have out: "dispatch_task platform now claim i tenant s rr
        = Inr (RoutedHuman (ar_user a), put_task (t\<lparr>et_status := T_ASSIGNED_TO_HUMAN\<rparr>) s0, rr)"
      using t p Some human_route_ok [OF t(3), of now a s] i by (simp add: dispatch_task_def s0_def)
    have "site_task (put_task (t\<lparr>et_status := T_ASSIGNED_TO_HUMAN\<rparr>) s0) j
        = (if j = i then Some (t\<lparr>et_status := T_ASSIGNED_TO_HUMAN\<rparr>) else site_task s j)" for j
      using site_task_put [of s0 "t\<lparr>et_status := T_ASSIGNED_TO_HUMAN\<rparr>" t j] s0 t(1) i by simp
    then show ?thesis using t p a by (simp add: out) (auto simp: s0_def)
  next
    case None
    show ?thesis
    proof (cases "budget_pause_block s (et_tenant t) (et_project t)")
      case (Some b)
      then show ?thesis using t p None by (simp add: dispatch_task_def same_statuses_def)
    next
      case free: None
      obtain out s' rr' where r: "route_ai platform now claim t s rr = (out, s', rr')" by (metis prod.exhaust)
      have d: "dispatch_task platform now claim i tenant s rr = Inr (out, s', rr')"
        using t p None free r by (simp add: dispatch_task_def)
      have here: "site_task s (et_id t) = Some t" using t(1) i by simp
      show ?thesis
      proof (rule route_ai_cases [OF r here t(3)])
        fix told assume "out = NotRouted told" "s' = s \<or> s' = add_note (et_id t) TaskUnassignable s"
        then show ?thesis by (auto simp: d same_statuses_def)
      next
        fix a assume "out = NotRouted False" "et_agent t = Some a" "s' = clear_dead_preset t a s"
        then show ?thesis using same_statuses_put [OF here, of "t\<lparr>et_agent := None\<rparr>"]
          by (simp add: d clear_dead_preset_def same_statuses_def)
      next
        fix r p' a
        assume "out = RoutedAI r"
        then show ?thesis using d by (auto elim!: dispatch_cases)
      qed
    qed
  qed
qed

text \<open>
  Three places where a dispatch does less than it says. A preset bypasses the rule that the
  reviewer of a task is not its implementer; taking a claim back also takes the preset; and a
  person's route has no guarded write, so two handlers that read the task while it was ready
  both assign it.
\<close>

lemma preset_may_review_itself: "et_agent t = Some r \<Longrightarrow> et_reviewer t = Some r \<Longrightarrow> fst (pick_agent p t cs required rr) = Some r"
  by (simp add: pick_agent_def)

lemma revert_clears_preset:
  assumes "site_task s i = Some t" and "et_tenant t = tenant" and "et_status t = T_IN_PROGRESS"
  shows "map_option et_agent (site_task (snd (revert_to_ready i tenant s)) i) = Some None"
  using assms site_task_put [of s "cleared_claim (t\<lparr>et_status := T_READY\<rparr>)" t i] site_task_id [OF assms(1)]
  by (simp add: revert_to_ready_def) (simp add: cleared_claim_def)

lemma human_route_twice:
  assumes "et_status t = T_READY" and "route_human now t a s = Inr (u, s1)"
  shows "\<exists>s2. route_human now2 t a s1 = Inr (u, s2)
     \<and> length (filter (\<lambda>h. ha_task h = et_id t) (si_assignments s2))
         = 2 + length (filter (\<lambda>h. ha_task h = et_id t) (si_assignments s))"
  using assms(2) human_route_ok [OF assms(1)] by auto

section \<open>Dispatch and the worker\<close>

lemma prepare_run_claimed:
  assumes t: "site_task s (rq_task rq) = Some t" "et_tenant t = rq_tenant rq" "\<not> rq_review rq"
    and live: "et_status t = T_IN_PROGRESS" "claim_is_current (et_claim t) (rq_claim rq)"
  shows "\<exists>pr s'. prepare_run env now rq s = Inr (Prepared pr, s')"
  using assms
  by (simp add: prepare_run_def task_is_launchable_def launchable_status_by_kind_def Let_def split: prod.splits)

lemma prepare_run_stale:
  assumes "site_task s (rq_task rq) = Some t" "et_tenant t = rq_tenant rq" "\<not> rq_review rq"
    and "\<not> claim_is_current (et_claim t) (rq_claim rq)"
  shows "prepare_run env now rq s = Inr (SkippedRun ''stale_claim'', s)"
  using assms by (simp add: prepare_run_def)

text \<open>
  Dispatch and the worker agree on a claim. The message a dispatch sends starts a run in the
  state the dispatch left. When the broker's answer was lost and the claim was taken back, the
  message, should it still arrive, starts nothing and changes nothing; the task can be claimed
  again, and after the next dispatch has claimed it only the new message starts a run.
\<close>

theorem dispatched_message_starts:
  "case dispatch_task platform now claim i tenant s rr of
     Inr (RoutedAI r, s', rr') \<Rightarrow>
       (\<exists>pr s2. prepare_run env now2 (dr_run r) s' = Inr (Prepared pr, s2))
       \<and> (\<exists>s3. revert_to_ready i tenant s' = (True, s3)
            \<and> prepare_run env now2 (dr_run r) s3 = Inr (SkippedRun ''stale_claim'', s3)
            \<and> (\<exists>s4. claim_task now2 i tenant agent2 claim2 s3 = (True, s4)
                 \<and> (claim2 = claim \<or> prepare_run env now2 (dr_run r) s4 = Inr (SkippedRun ''stale_claim'', s4))))
   | _ \<Rightarrow> True"
proof (cases "\<exists>r s' rr'. dispatch_task platform now claim i tenant s rr = Inr (RoutedAI r, s', rr')")
  case False
  then show ?thesis by (auto split: sum.split prod.split route_outcome.split)
next
  case True
  then obtain r s' rr' where d: "dispatch_task platform now claim i tenant s rr = Inr (RoutedAI r, s', rr')" by blast
  obtain t agent where t: "site_task s i = Some t" "et_tenant t = tenant" "et_status t = T_READY"
    and r: "rq_task (dr_run r) = i" "rq_tenant (dr_run r) = tenant" "rq_claim (dr_run r) = Some claim"
      "\<not> rq_review (dr_run r)"
    and s': "s' = put_task (claimed_row now agent claim t) s"
    using dispatch_cases [OF d] by blast
  have i: "et_id t = i" by (rule site_task_id [OF t(1)])
  have t': "site_task s' i = Some (claimed_row now agent claim t)"
    using site_task_put [of s "claimed_row now agent claim t" t i] t(1) i by (simp add: s' claimed_row_def)
  define u where "u = cleared_claim ((claimed_row now agent claim t)\<lparr>et_status := T_READY\<rparr>)"
  define s3 where "s3 = put_task u s'"
  have u: "et_id u = i" "et_tenant u = tenant" "et_status u = T_READY" "et_claim u = None"
    by (simp_all add: u_def cleared_claim_def claimed_row_def i t(2))
  have rev: "revert_to_ready i tenant s' = (True, s3)"
    using t' by (simp add: revert_to_ready_def claimed_row_def t(2) s3_def u_def)
  have t3: "site_task s3 i = Some u" using site_task_put [of s' u _ i] t' u(1) by (simp add: s3_def)
  define s4 where "s4 = put_task (claimed_row now2 agent2 claim2 u) s3"
  have c: "claim_task now2 i tenant agent2 claim2 s3 = (True, s4)"
    using claim_ready [OF t3 u(3), of now2 agent2 claim2] u(2) by (simp add: s4_def)
  have t4: "site_task s4 i = Some (claimed_row now2 agent2 claim2 u)"
    using site_task_put [of s3 "claimed_row now2 agent2 claim2 u" u i] t3 u(1) by (simp add: s4_def claimed_row_def)
  have "\<exists>pr s2. prepare_run env now2 (dr_run r) s' = Inr (Prepared pr, s2)"
    using prepare_run_claimed [of s' "dr_run r" "claimed_row now agent claim t" env now2] t' r t(2)
    by (simp add: claimed_row_def claim_is_current_def)
  moreover have "prepare_run env now2 (dr_run r) s3 = Inr (SkippedRun ''stale_claim'', s3)"
    using prepare_run_stale [of s3 "dr_run r" u env now2] t3 r u by (simp add: claim_is_current_def)
  moreover have "claim2 = claim \<or> prepare_run env now2 (dr_run r) s4 = Inr (SkippedRun ''stale_claim'', s4)"
  proof (cases "claim2 = claim")
    case False
    then show ?thesis
      using prepare_run_stale [of s4 "dr_run r" "claimed_row now2 agent2 claim2 u" env now2] t4 r u
      by (simp add: claimed_row_def claim_is_current_def)
  qed simp
  ultimately show ?thesis using rev c by (simp add: d)
qed

section \<open>Witnesses\<close>

lemma dispatch_is_guarded_witness:
  "\<exists>r s' rr'. dispatch_task [] 10 ''k1'' ''t'' ''a'' (demo_site [live_task ''t'' T_READY] []) Map.empty = Inr (RoutedAI r, s', rr')
     \<and> sendable (demo_site [live_task ''t'' T_READY] []) (live_task ''t'' T_READY) (dr_run r)"
proof -
  let ?s = "demo_site [live_task ''t'' T_READY] []"
  let ?out = "dispatch_task [] 10 ''k1'' ''t'' ''a'' ?s Map.empty"
  have "case ?out of Inr (RoutedAI r, s', rr') \<Rightarrow> True | _ \<Rightarrow> False" by code_simp
  then have "\<exists>r s' rr'. ?out = Inr (RoutedAI r, s', rr')"
    by (auto split: sum.splits prod.splits route_outcome.splits)
  then obtain r s' rr' where out: "?out = Inr (RoutedAI r, s', rr')" by blast
  have t: "site_task ?s ''t'' = Some (live_task ''t'' T_READY)" by (simp add: live_task_def)
  from dispatch_is_guarded [where platform = "[]" and now = 10 and claim = "''k1''" and i = "''t''" and tenant = "''a''"
      and s = ?s and rr = Map.empty] out t
  have "sendable ?s (live_task ''t'' T_READY) (dr_run r)" by (simp del: demo_site_simps)
  with out show ?thesis by blast
qed

end
