(* ===== verification/Recovery.thy ===== *)
theory Recovery
  imports DispatchRun
begin

text \<open>
  What the beats guarantee about plans and about the runs of dead workers: a plan is closed
  once, whoever notices first; a second pass over the plans finds nothing to do.
\<close>

section \<open>Plans close once\<close>

lemma site_snapshots_plans [simp]: "site_snapshots (s\<lparr>si_plans := ps\<rparr>) p = site_snapshots s p"
  by (simp add: site_snapshots_def site_tasks_def)

lemma site_snapshots_status [simp]: "site_snapshots s (p\<lparr>pl_status := st\<rparr>) = site_snapshots s p"
  by (simp add: site_snapshots_def)

lemma find_plan_tenant:
  "find_plan s i = Some p \<Longrightarrow> find (\<lambda>q. pl_id q = i \<and> pl_tenant q = pl_tenant p) (si_plans s) = Some p"
  unfolding find_plan_def by (induction "si_plans s" rule: list.induct) (auto simp: find_Some_iff)

lemma closure_needs_tasks: "transitioned (decide_plan_closure st ts) \<Longrightarrow> ts \<noteq> []"
  by (rule decide_cases(2))

lemma closure_leaves_progress:
  "transitioned (decide_plan_closure st ts) \<Longrightarrow> new_status (decide_plan_closure st ts) \<noteq> P_IN_PROGRESS"
  using decide_cases(3) [of st ts] by auto

lemma find_moved:
  "find (\<lambda>q. pl_id q = i) ps = Some p \<Longrightarrow> hit p \<Longrightarrow>
     find (\<lambda>q. pl_id q = i) (map (\<lambda>q. if hit q then q\<lparr>pl_status := st\<rparr> else q) ps) = Some (p\<lparr>pl_status := st\<rparr>)"
  by (induction ps) (auto split: if_splits)

text \<open>
  A plan closes once: what the dispatcher does to the plan of a finished task is exactly what
  the beat of the reconciler does to that plan, and after either of them, neither does anything.
\<close>

theorem plan_closes_once:
  assumes t: "site_task s i = Some t" "et_plan t = Some plan"
    and p: "find_plan s plan = Some p" "pl_tenant p = et_tenant t"
  shows "on_task_done i (et_tenant t) s = reconcile_complete_plan plan s
     \<and> (case reconcile_complete_plan plan s of
          (mv, s1) \<Rightarrow> on_task_done i (et_tenant t) s1 = (None, s1) \<and> reconcile_complete_plan plan s1 = (None, s1)
                   \<and> (mv = None \<longrightarrow> s1 = s))"
proof -
  define st where "st = new_status (decide_plan_closure (pl_status p) (site_snapshots s p))"
  define s1 where "s1 = snd (move_plan_if P_IN_PROGRESS st p s)"
  have here: "p \<in> set (si_plans s)" "pl_id p = plan" using p(1) by (auto simp: find_plan_def find_Some_iff)
  have same: "on_task_done i (et_tenant t) s = reconcile_complete_plan plan s"
    using t p find_plan_tenant [OF p(1)] closure_needs_tasks [of "pl_status p" "site_snapshots s p"]
    by (auto simp: on_task_done_def reconcile_complete_plan_def Let_def)
  show ?thesis
  proof (cases "transitioned (decide_plan_closure (pl_status p) (site_snapshots s p))")
    case False
    then have "reconcile_complete_plan plan s = (None, s)"
      using p by (auto simp: reconcile_complete_plan_def Let_def)
    then show ?thesis using same by simp
  next
    case True
    then have ip: "pl_status p = P_IN_PROGRESS" by (rule decide_cases(1))
    have out: "reconcile_complete_plan plan s = (Some (P_IN_PROGRESS, st), s1)"
      using True p here closure_needs_tasks [OF True] ip
      by (auto simp: reconcile_complete_plan_def Let_def st_def s1_def move_plan_if_def)
    have st: "st \<noteq> P_IN_PROGRESS" using closure_leaves_progress [OF True] by (simp add: st_def)
    have p1: "find_plan s1 plan = Some (p\<lparr>pl_status := st\<rparr>)"
      using p(1) here ip
      by (simp add: s1_def move_plan_if_def Let_def find_plan_def find_moved)
    have t1: "site_task s1 i = Some t"
      using t(1) by (simp add: s1_def move_plan_if_def Let_def site_task_def)
    have stays: "\<not> transitioned (decide_plan_closure st ts)" for ts using decide_cases(1) [of st ts] st by auto
    have "reconcile_complete_plan plan s1 = (None, s1)"
      using p1 stays by (simp add: reconcile_complete_plan_def Let_def)
    moreover have "on_task_done i (et_tenant t) s1 = (None, s1)"
      using t1 t(2) find_plan_tenant [OF p1] p(2) stays by (simp add: on_task_done_def Let_def)
    ultimately show ?thesis using same out by simp
  qed
qed

section \<open>A second pass finds nothing\<close>

text \<open>What one pass does to one plan, read off the state before the pass.\<close>

definition unblocked_row :: "site \<Rightarrow> plan_row \<Rightarrow> plan_row" where
  "unblocked_row s p =
     (let ts = site_snapshots s p; r = transition_from_blocked (pl_status p) ts in
      if has_open_tasks ts \<and> transitioned r then p\<lparr>pl_status := new_status r\<rparr> else p)"

definition closed_row :: "site \<Rightarrow> plan_row \<Rightarrow> plan_row" where
  "closed_row s p =
     (let r = decide_plan_closure (pl_status p) (site_snapshots s p) in
      if transitioned r then p\<lparr>pl_status := new_status r\<rparr> else p)"

lemma row_facts [simp]:
  "pl_id (unblocked_row s p) = pl_id p" "pl_id (closed_row s p) = pl_id p"
  "unblocked_row (s\<lparr>si_plans := ps\<rparr>) = unblocked_row s" "closed_row (s\<lparr>si_plans := ps\<rparr>) = closed_row s"
  by (simp_all add: unblocked_row_def closed_row_def Let_def fun_eq_iff)

lemma move_one_plan:
  assumes "distinct (map pl_id (si_plans s))" and "p \<in> set (si_plans s)" and "pl_status p = old"
  shows "move_plan_if old new p s
     = (True, s\<lparr>si_plans := map (\<lambda>q. if pl_id q = pl_id p then p\<lparr>pl_status := new\<rparr> else q) (si_plans s)\<rparr>)"
proof -
  have "q = p" if "q \<in> set (si_plans s)" "pl_id q = pl_id p" for q
    using assms(1,2) that by (auto simp: distinct_map dest: inj_onD)
  then have "map (\<lambda>q. if pl_id q = pl_id p \<and> pl_tenant q = pl_tenant p \<and> pl_status q = old
                  then q\<lparr>pl_status := new\<rparr> else q) (si_plans s)
      = map (\<lambda>q. if pl_id q = pl_id p then p\<lparr>pl_status := new\<rparr> else q) (si_plans s)"
    using assms(3) by (intro map_cong) auto
  then show ?thesis using assms(2,3) by (auto simp: move_plan_if_def Let_def)
qed

lemma plan_found:
  assumes "distinct (map pl_id (si_plans s))"
  shows "find_plan s i = Some p \<longleftrightarrow> p \<in> set (si_plans s) \<and> pl_id p = i"
proof
  show "p \<in> set (si_plans s) \<and> pl_id p = i \<Longrightarrow> find_plan s i = Some p"
    using find_distinct [of pl_id "si_plans s" p] assms by (auto simp: find_plan_def)
qed (auto simp: find_plan_def find_Some_iff)

lemma map_untouched: "f p = p \<Longrightarrow> distinct (map pl_id ps) \<Longrightarrow> p \<in> set ps
    \<Longrightarrow> map (\<lambda>q. if pl_id q = pl_id p then f q else q) ps = ps"
  by (rule map_idI) (auto simp: distinct_map dest: inj_onD)

lemma absent_plan:
  "find_plan s i = None \<Longrightarrow> map (\<lambda>q. if pl_id q = i then f q else q) (si_plans s) = si_plans s"
  by (rule map_idI) (auto simp: find_plan_def find_None_iff)

lemma map_row_cong:
  assumes "distinct (map pl_id ps)" and "p \<in> set ps"
  shows "map (\<lambda>q. if pl_id q = pl_id p then f q else q) ps = map (\<lambda>q. if pl_id q = pl_id p then f p else q) ps"
  using assms by (auto simp: distinct_map dest: inj_onD)

lemma complete_plan_row:
  assumes d: "distinct (map pl_id (si_plans s))"
  shows "snd (reconcile_complete_plan i s)
     = s\<lparr>si_plans := map (\<lambda>q. if pl_id q = i then closed_row s q else q) (si_plans s)\<rparr>"
proof (cases "find_plan s i")
  case None
  then show ?thesis by (simp add: reconcile_complete_plan_def absent_plan)
next
  case (Some p)
  then have p: "p \<in> set (si_plans s)" "pl_id p = i" using plan_found [OF d] by auto
  note rows = map_row_cong [OF d p(1), of "closed_row s"] move_one_plan [OF d p(1)]
  show ?thesis
  proof (cases "transitioned (decide_plan_closure (pl_status p) (site_snapshots s p))")
    case True
    then show ?thesis using Some p rows decide_cases(1) [OF True] closure_needs_tasks [OF True]
      by (simp add: reconcile_complete_plan_def closed_row_def Let_def)
  next
    case False
    then show ?thesis using Some p rows map_untouched [of "closed_row s" p, OF _ d p(1)]
      by (simp add: reconcile_complete_plan_def closed_row_def Let_def)
  qed
qed

lemma unblocked_plan_row:
  assumes d: "distinct (map pl_id (si_plans s))"
  shows "snd (reconcile_unblocked_plan i s)
     = s\<lparr>si_plans := map (\<lambda>q. if pl_id q = i then unblocked_row s q else q) (si_plans s)\<rparr>"
proof (cases "find_plan s i")
  case None
  then show ?thesis by (simp add: reconcile_unblocked_plan_def absent_plan)
next
  case (Some p)
  then have p: "p \<in> set (si_plans s)" "pl_id p = i" using plan_found [OF d] by auto
  define ts where "ts = site_snapshots s p"
  note rows = map_row_cong [OF d p(1), of "unblocked_row s"] move_one_plan [OF d p(1)]
  have open_some: "has_open_tasks ts \<Longrightarrow> ts \<noteq> []" by (auto simp: has_open_tasks_def)
  show ?thesis
  proof (cases "has_open_tasks ts \<and> transitioned (transition_from_blocked (pl_status p) ts)")
    case True
    then have "pl_status p = P_BLOCKED" by (auto simp: transition_from_blocked_def split: if_splits)
    then show ?thesis using Some p rows True open_some
      by (simp add: reconcile_unblocked_plan_def unblocked_row_def Let_def ts_def [symmetric])
  next
    case False
    then have "unblocked_row s p = p" by (auto simp: unblocked_row_def Let_def ts_def)
    moreover have "reconcile_unblocked_plan i s = (None, s)"
      using Some False by (auto simp: reconcile_unblocked_plan_def Let_def ts_def)
    ultimately show ?thesis using p map_untouched [of "unblocked_row s" p, OF _ d p(1)] by simp
  qed
qed

lemma fold_rows:
  assumes d: "distinct (map pl_id (si_plans s))" and "distinct is"
    and one: "\<And>s i. distinct (map pl_id (si_plans s)) \<Longrightarrow>
        snd (step i s) = s\<lparr>si_plans := map (\<lambda>q. if pl_id q = i then row s q else q) (si_plans s)\<rparr>"
    and row: "\<And>s q. pl_id (row s q) = pl_id q" "\<And>s ps. row (s\<lparr>si_plans := ps\<rparr>) = row s"
  shows "fold (\<lambda>i s. snd (step i s)) is s
     = s\<lparr>si_plans := map (\<lambda>q. if pl_id q \<in> set is then row s q else q) (si_plans s)\<rparr>"
  using assms(1,2)
proof (induction "is" arbitrary: s)
  case (Cons i "is")
  define s1 where "s1 = snd (step i s)"
  have s1: "s1 = s\<lparr>si_plans := map (\<lambda>q. if pl_id q = i then row s q else q) (si_plans s)\<rparr>"
    using one [OF Cons.prems(1)] by (simp add: s1_def)
  have ids: "map pl_id (si_plans s1) = map pl_id (si_plans s)" by (simp add: s1 row(1))
  have "fold (\<lambda>i s. snd (step i s)) is s1
     = s1\<lparr>si_plans := map (\<lambda>q. if pl_id q \<in> set is then row s1 q else q) (si_plans s1)\<rparr>"
    using Cons.IH [of s1] Cons.prems ids by simp
  moreover have "row s1 = row s" by (simp add: s1 row(2))
  ultimately show ?case using Cons.prems(2)
    by (auto simp: s1_def [symmetric]) (auto simp: s1 row(1))
qed simp

lemma fold_rows_all:
  assumes "fold (\<lambda>i s. snd (step i s)) is s
     = s\<lparr>si_plans := map (\<lambda>q. if pl_id q \<in> set is then f q else q) (si_plans s)\<rparr>"
    and "\<And>q. q \<in> set (si_plans s) \<Longrightarrow> pl_id q \<notin> set is \<Longrightarrow> f q = q"
  shows "fold (\<lambda>i s. snd (step i s)) is s = s\<lparr>si_plans := map f (si_plans s)\<rparr>"
proof -
  have "map (\<lambda>q. if pl_id q \<in> set is then f q else q) (si_plans s) = map f (si_plans s)"
    using assms(2) by (intro map_cong) auto
  then show ?thesis using assms(1) by simp
qed

lemma reconcile_complete_plans_map:
  assumes d: "distinct (map pl_id (si_plans s))"
  shows "reconcile_complete_plans s = s\<lparr>si_plans := map (closed_row s) (si_plans s)\<rparr>"
  unfolding reconcile_complete_plans_def
proof (rule fold_rows_all [OF fold_rows [OF d _ complete_plan_row]])
  show "distinct (map pl_id (filter (\<lambda>p. pl_status p = P_IN_PROGRESS) (si_plans s)))"
    using d by (simp add: distinct_map inj_on_def)
  show "closed_row s q = q" if "q \<in> set (si_plans s)"
    "pl_id q \<notin> set (map pl_id (filter (\<lambda>p. pl_status p = P_IN_PROGRESS) (si_plans s)))" for q
  proof -
    have "pl_status q \<noteq> P_IN_PROGRESS" using that by auto
    then show ?thesis using decide_cases(1) by (auto simp: closed_row_def Let_def)
  qed
qed simp_all

lemma reconcile_unblocked_plans_map:
  assumes d: "distinct (map pl_id (si_plans s))"
  shows "reconcile_unblocked_plans s = s\<lparr>si_plans := map (unblocked_row s) (si_plans s)\<rparr>"
  unfolding reconcile_unblocked_plans_def
proof (rule fold_rows_all [OF fold_rows [OF d _ unblocked_plan_row]])
  show "distinct (map pl_id (filter (\<lambda>p. pl_status p = P_BLOCKED) (si_plans s)))"
    using d by (simp add: distinct_map inj_on_def)
  show "unblocked_row s q = q" if "q \<in> set (si_plans s)"
    "pl_id q \<notin> set (map pl_id (filter (\<lambda>p. pl_status p = P_BLOCKED) (si_plans s)))" for q
  proof -
    have "pl_status q \<noteq> P_BLOCKED" using that by auto
    then show ?thesis by (auto simp: unblocked_row_def Let_def transition_from_blocked_def)
  qed
qed simp_all

text \<open>Both decisions on one plan; deciding again changes nothing.\<close>

definition swept_row :: "site \<Rightarrow> plan_row \<Rightarrow> plan_row" where
  "swept_row s p = closed_row s (unblocked_row s p)"

lemma swept_row_plans [simp]: "swept_row (s\<lparr>si_plans := ps\<rparr>) = swept_row s" "pl_id (swept_row s p) = pl_id p"
  by (simp_all add: swept_row_def fun_eq_iff)

lemma reverted_plan:
  assumes "has_open_tasks ts" and "transitioned (transition_from_blocked st ts)"
  shows "st = P_BLOCKED" "new_status (transition_from_blocked st ts) = P_IN_PROGRESS"
    "\<not> transitioned (decide_plan_closure P_IN_PROGRESS ts)"
proof -
  show st: "st = P_BLOCKED" and "new_status (transition_from_blocked st ts) = P_IN_PROGRESS"
    using assms(2) by (auto simp: transition_from_blocked_def split: if_splits)
  have "\<not> transitioned (transition_to_blocked P_IN_PROGRESS ts)"
    using assms(2) st by (auto simp: transition_from_blocked_def split: if_splits)
  then show "\<not> transitioned (decide_plan_closure P_IN_PROGRESS ts)"
    using assms(1)
    by (auto simp: decide_plan_closure_def transition_to_pending_human_validation_def has_open_tasks_def Let_def
        filter_empty_conv)
qed

lemma closed_plan:
  assumes "transitioned (decide_plan_closure st ts)"
  shows "\<not> transitioned (decide_plan_closure (new_status (decide_plan_closure st ts)) ts)"
    "\<not> transitioned (transition_from_blocked (new_status (decide_plan_closure st ts)) ts)"
proof -
  show "\<not> transitioned (decide_plan_closure (new_status (decide_plan_closure st ts)) ts)"
    using closure_leaves_progress [OF assms] decide_cases(1) by metis
  show "\<not> transitioned (transition_from_blocked (new_status (decide_plan_closure st ts)) ts)"
    using assms decide_cases(1) [OF assms]
    by (auto simp: decide_plan_closure_def transition_to_pending_human_validation_def
        transition_from_blocked_def transition_to_blocked_def Let_def split: if_splits)
qed

text \<open>The three things that happen to a plan: it is taken back, closed, or left.\<close>

lemma swept_row_cases:
  obtains (taken_back) "swept_row s p = p\<lparr>pl_status := P_IN_PROGRESS\<rparr>"
      "\<not> transitioned (decide_plan_closure P_IN_PROGRESS (site_snapshots s p))" "pl_status p = P_BLOCKED"
  | (closed) "swept_row s p = p\<lparr>pl_status := new_status (decide_plan_closure (pl_status p) (site_snapshots s p))\<rparr>"
      "transitioned (decide_plan_closure (pl_status p) (site_snapshots s p))"
  | (left) "swept_row s p = p" "\<not> transitioned (decide_plan_closure (pl_status p) (site_snapshots s p))"
      "\<not> (has_open_tasks (site_snapshots s p) \<and> transitioned (transition_from_blocked (pl_status p) (site_snapshots s p)))"
proof -
  define ts where "ts = site_snapshots s p"
  show thesis
  proof (cases "has_open_tasks ts \<and> transitioned (transition_from_blocked (pl_status p) ts)")
    case True
    then have h: "has_open_tasks ts" "transitioned (transition_from_blocked (pl_status p) ts)" by auto
    note r = reverted_plan [OF h]
    have "unblocked_row s p = p\<lparr>pl_status := P_IN_PROGRESS\<rparr>"
      using h r(2) by (simp add: unblocked_row_def Let_def ts_def)
    then show thesis using r taken_back by (simp add: swept_row_def closed_row_def Let_def ts_def)
  next
    case False
    then have u: "unblocked_row s p = p" by (auto simp: unblocked_row_def Let_def ts_def)
    show thesis
    proof (cases "transitioned (decide_plan_closure (pl_status p) ts)")
      case True
      then show thesis using u closed by (simp add: swept_row_def closed_row_def Let_def ts_def)
    next
      case no: False
      then show thesis using u left False by (simp add: swept_row_def closed_row_def Let_def ts_def)
    qed
  qed
qed

lemma settled_row:
  "\<not> transitioned (decide_plan_closure (pl_status (swept_row s p)) (site_snapshots s p))
   \<and> (transitioned (transition_from_blocked (pl_status (swept_row s p)) (site_snapshots s p))
        \<longrightarrow> \<not> has_open_tasks (site_snapshots s p))"
proof (rule swept_row_cases [of s p])
  assume "swept_row s p = p\<lparr>pl_status := P_IN_PROGRESS\<rparr>"
    "\<not> transitioned (decide_plan_closure P_IN_PROGRESS (site_snapshots s p))"
  then show ?thesis by (simp add: transition_from_blocked_def)
next
  assume "swept_row s p = p\<lparr>pl_status := new_status (decide_plan_closure (pl_status p) (site_snapshots s p))\<rparr>"
    "transitioned (decide_plan_closure (pl_status p) (site_snapshots s p))"
  then show ?thesis using closed_plan by simp
qed auto

lemma swept_snapshots [simp]: "site_snapshots s (swept_row s p) = site_snapshots s p"
  by (rule swept_row_cases [of s p]) auto

lemma swept_row_again: "swept_row s (swept_row s p) = swept_row s p"
proof -
  define q where "q = swept_row s p"
  have ts: "site_snapshots s q = site_snapshots s p" by (simp add: q_def)
  note final = settled_row [of s p, folded q_def, folded ts]
  then have "unblocked_row s q = q" by (auto simp: unblocked_row_def Let_def)
  then show ?thesis using final by (simp add: q_def [symmetric]) (simp add: swept_row_def closed_row_def Let_def)
qed

text \<open>
  The pass over the plans is idempotent: whatever state it starts from, its two sweeps
  together settle every plan at once, each by the tasks it has, and a second pass changes nothing.
\<close>

theorem plan_sweep_settles:
  assumes d: "distinct (map pl_id (si_plans s))"
  shows "reconcile_plans (reconcile_plans s) = reconcile_plans s
     \<and> reconcile_plans s = s\<lparr>si_plans := si_plans (reconcile_plans s)\<rparr>
     \<and> (\<forall>p \<in> set (si_plans (reconcile_plans s)).
          \<not> transitioned (decide_plan_closure (pl_status p) (site_snapshots s p))
          \<and> (transitioned (transition_from_blocked (pl_status p) (site_snapshots s p))
               \<longrightarrow> \<not> has_open_tasks (site_snapshots s p)))"
proof -
  have one: "reconcile_plans u = u\<lparr>si_plans := map (swept_row u) (si_plans u)\<rparr>"
    if "distinct (map pl_id (si_plans u))" for u
    using that by (simp add: reconcile_plans_def reconcile_unblocked_plans_map reconcile_complete_plans_map
        comp_def swept_row_def)
  have ids: "map pl_id (map (swept_row s) (si_plans s)) = map pl_id (si_plans s)" by simp
  have "reconcile_plans (reconcile_plans s) = reconcile_plans s"
    using one [OF d] one [of "s\<lparr>si_plans := map (swept_row s) (si_plans s)\<rparr>"] d ids
    by (simp add: swept_row_again comp_def)
  moreover note settled_row [of s]
  ultimately show ?thesis using one [OF d] by auto
qed

text \<open>
  A blocked plan whose tasks are all over stays blocked: the pass takes a block back only when
  some task is open.
\<close>

lemma finished_blocked_plan_stays:
  assumes "pl_status p = P_BLOCKED" and "\<not> has_open_tasks (site_snapshots s p)"
  shows "swept_row s p = p"
  using assms decide_cases(1) [of P_BLOCKED "site_snapshots s p"]
  by (auto simp: swept_row_def unblocked_row_def closed_row_def Let_def)

section \<open>The sweep of lost runs\<close>

text \<open>
  What a lost run is: its container is not among the exited ones, and it is too old or the
  daemon does not know a container that was started.
\<close>

definition lost_run :: "daemon \<Rightarrow> instant \<Rightarrow> site \<Rightarrow> execution \<Rightarrow> bool" where
  "lost_run dm now s e \<longleftrightarrow>
     dm_exited dm (ex_id e) = None
     \<and> (rm_created (si_runs s (ex_id e)) + stale_execution_after < now
        \<or> (case dm_alive dm of None \<Rightarrow> False | Some alive \<Rightarrow> dm_launched dm (ex_id e) \<and> ex_id e \<notin> alive))"

text \<open>One log that cannot be read stops the sweep of every other run.\<close>

lemma sweep_poisoned:
  assumes "e \<in> set es" and "dm_exited dm (ex_id e) = Some (logs, code)"
    and bad: "recover_result_from_exited_logs loads logs code = Inl err"
  shows "\<exists>x. sweep_each env loads dm now es s = Inl x"
  using assms(1)
proof (induction es arbitrary: s)
  case (Cons f es)
  show ?case
  proof (cases "f = e")
    case True
    then show ?thesis using assms(2) bad
      by (simp add: sweep_execution_def finalize_from_exited_container_def Let_def)
  next
    case False
    then show ?thesis using Cons by (cases "sweep_execution env loads dm now f s") auto
  qed
qed simp

lemma unreadable_count:
  "dget d ''iterations'' = PNone \<Longrightarrow> map_of d ''iterations'' \<noteq> None \<Longrightarrow> \<exists>err. result_of_dict steps d = Inl err"
  by (auto simp: result_of_dict_def dget_def dget_default_def py_int_def split: option.splits)

text \<open>
  One unreadable log poisons the sweep: when the log of one exited container carries a final
  result whose number of iterations is null, the sweep changes nothing at all, however many other
  runs are lost, and so it stays as long as that container is there.
\<close>

lemma one_bad_log_stops_sweep:
  assumes "e \<in> set (site_runs s)" and "ex_status e = X_RUNNING"
    and "rm_created (si_runs s (ex_id e)) + orphan_container_grace < now"
    and "dm_exited dm (ex_id e) = Some (line # logs, code)"
    and "fst (scan_logs_for_terminal loads (line # logs)) = Some d"
    and "map_of d ''iterations'' = Some PNone"
  shows "sweep_stale_executions env loads dm now s = s"
proof -
  have "\<exists>err. result_of_dict [] d = Inl err" using assms(6) by (intro unreadable_count) (simp_all add: dget_def)
  then obtain err where "recover_result_from_exited_logs loads (line # logs) code = Inl err"
    using assms(5) by (cases "scan_logs_for_terminal loads (line # logs)")
      (auto simp: recover_result_from_exited_logs_def assemble_result_def)
  moreover define es where "es = filter (\<lambda>e. ex_status e = X_RUNNING
      \<and> rm_created (si_runs s (ex_id e)) + orphan_container_grace < now) (site_runs s)"
  moreover have "e \<in> set es" using assms(1-3) by (simp add: es_def)
  ultimately obtain x where "sweep_each env loads dm now es s = Inl x"
    using sweep_poisoned [OF _ assms(4)] by blast
  then show ?thesis by (simp add: sweep_stale_executions_def es_def)
qed

section \<open>Witnesses\<close>

text \<open>A plan whose only task is done.\<close>

definition done_site :: site where
  "done_site = demo_site [live_task ''t'' T_DONE] []"

lemma done_site_facts:
  "site_task done_site ''t'' = Some (live_task ''t'' T_DONE)" "find_plan done_site ''pl'' = Some demo_plan"
  "si_plans done_site = [demo_plan]"
  by (simp_all add: done_site_def live_task_def find_plan_def) (simp_all add: demo_site_def demo_plan_def)

lemma plan_closes_once_witness:
  "on_task_done ''t'' ''a'' done_site = reconcile_complete_plan ''pl'' done_site
   \<and> fst (on_task_done ''t'' ''a'' done_site) = Some (P_IN_PROGRESS, P_PENDING_HUMAN_VALIDATION)"
proof -
  have "fst (reconcile_complete_plan ''pl'' done_site) = Some (P_IN_PROGRESS, P_PENDING_HUMAN_VALIDATION)"
    by code_simp
  moreover have "on_task_done ''t'' ''a'' done_site = reconcile_complete_plan ''pl'' done_site"
    using plan_closes_once [OF done_site_facts(1) _ done_site_facts(2)] by (simp add: live_task_def demo_plan_def)
  ultimately show ?thesis by simp
qed

lemma plan_sweep_settles_witness:
  "reconcile_plans (reconcile_plans done_site) = reconcile_plans done_site
   \<and> map pl_status (si_plans (reconcile_plans done_site)) = [P_PENDING_HUMAN_VALIDATION]"
proof -
  have "map pl_status (si_plans (reconcile_plans done_site)) = [P_PENDING_HUMAN_VALIDATION]" by code_simp
  then show ?thesis using plan_sweep_settles [of done_site] by (simp add: done_site_facts)
qed

text \<open>A reader of one line, and a daemon with one exited container that wrote it.\<close>

definition null_loads :: "string \<Rightarrow> pyval option" where
  "null_loads x = Some (PDict [(''event'', PStr ''execution.finished''),
     (''result'', PDict [(''status'', PStr ''done''), (''iterations'', PNone)])])"

definition null_daemon :: daemon where
  "null_daemon = \<lparr>dm_alive = Some {}, dm_exited = (\<lambda>x. if x = 0 then Some ([''{}''], Some 0) else None),
     dm_launched = (\<lambda>_. True)\<rparr>"

lemma one_bad_log_stops_sweep_witness:
  "sweep_stale_executions demo_env null_loads null_daemon 90000
     (demo_site [live_task ''t'' T_IN_PROGRESS, live_task ''u'' T_IN_PROGRESS] [blank_execution 0 ''t'', blank_execution 1 ''u''])
   = demo_site [live_task ''t'' T_IN_PROGRESS, live_task ''u'' T_IN_PROGRESS] [blank_execution 0 ''t'', blank_execution 1 ''u'']
   \<and> lost_run null_daemon 90000
       (demo_site [live_task ''t'' T_IN_PROGRESS, live_task ''u'' T_IN_PROGRESS] [blank_execution 0 ''t'', blank_execution 1 ''u''])
       (blank_execution 1 ''u'')"
proof -
  let ?d = "[(''status'', PStr ''done''), (''iterations'', PNone)]"
  have "fst (scan_logs_for_terminal null_loads [''{}'']) = Some ?d" by code_simp
  moreover have "rm_created (si_runs (demo_site ts es) x) = 5" for ts es x by (simp add: demo_site_def)
  moreover have "dm_exited null_daemon 0 = Some ([''{}''], Some 0)" by (simp add: null_daemon_def)
  ultimately show ?thesis
    using one_bad_log_stops_sweep [of "blank_execution 0 ''t''"
      "demo_site [live_task ''t'' T_IN_PROGRESS, live_task ''u'' T_IN_PROGRESS] [blank_execution 0 ''t'', blank_execution 1 ''u'']"
      90000 null_daemon "''{}''" "[]" "Some 0" null_loads ?d demo_env]
    by (simp add: blank_execution_def orphan_container_grace_def lost_run_def null_daemon_def stale_execution_after_def)
qed

end
