(* ===== verification/Orchestration.thy ===== *)
theory Orchestration
  imports Recovery
begin

text \<open>
  Dispatch, workers, beats and the approval engine together: a step relation over the database,
  the messages in flight and the identities of claims that were handed out. A message is never
  consumed, so it may arrive again at any time, also after the dispatcher believed it lost. A
  claim is a fresh identity, as the random one of the code is.
\<close>

section \<open>The contract of a claim\<close>

text \<open>
  A fencing token: holders carry tokens, a step may only hand out tokens that were never issued
  before. Then a token that was issued and is not held is lost for good, so whoever checks the
  token of a late message against its holder refuses it.
\<close>

locale fenced =
  fixes step :: "'s \<Rightarrow> 's \<Rightarrow> bool"
    and holds :: "'s \<Rightarrow> 'i \<Rightarrow> 'k \<Rightarrow> bool"
    and issued :: "'s \<Rightarrow> 'k set"
  assumes only_fresh: "step s s' \<Longrightarrow> holds s' i k \<Longrightarrow> holds s i k \<or> k \<notin> issued s"
    and issued_mono: "step s s' \<Longrightarrow> issued s \<subseteq> issued s'"
begin

lemma lost_for_good:
  assumes "step\<^sup>*\<^sup>* s s'" and "k \<in> issued s" and "\<not> holds s i k"
  shows "\<not> holds s' i k" "k \<in> issued s'"
proof -
  from assms have "\<not> holds s' i k \<and> k \<in> issued s'"
    by (induction rule: rtranclp_induct) (use only_fresh issued_mono in blast)+
  then show "\<not> holds s' i k" "k \<in> issued s'" by simp_all
qed

end

section \<open>What every operation but a claim and a start leaves alone\<close>

definition claim_of :: "engine \<Rightarrow> string \<Rightarrow> string option" where
  "claim_of en i = (case get_task en i of None \<Rightarrow> None | Some t \<Rightarrow> et_claim t)"

definition row_quiet :: "execution \<Rightarrow> execution \<Rightarrow> bool" where
  "row_quiet e e' \<longleftrightarrow>
     ex_id e' = ex_id e \<and> ex_task e' = ex_task e \<and> (ex_status e' = X_RUNNING \<longrightarrow> ex_status e = X_RUNNING)"

definition engine_quiet :: "engine \<Rightarrow> engine \<Rightarrow> bool" where
  "engine_quiet en en' \<longleftrightarrow>
     (\<forall>i. claim_of en' i = claim_of en i \<or> claim_of en' i = None)
     \<and> list_all2 row_quiet (en_execs en) (en_execs en')"

definition quiet :: "site \<Rightarrow> site \<Rightarrow> bool" where
  "quiet s s' \<longleftrightarrow> engine_quiet (si_engine s) (si_engine s')"

named_theorems quiets

lemma row_quiet_refl [simp]: "row_quiet e e"
  by (simp add: row_quiet_def)

lemma row_quiet_trans: "row_quiet a b \<Longrightarrow> row_quiet b c \<Longrightarrow> row_quiet a c"
  by (simp add: row_quiet_def)

lemma engine_quiet_refl [simp]: "engine_quiet en en"
  by (simp add: engine_quiet_def list.rel_refl)

lemma engine_quiet_trans:
  assumes "engine_quiet a b" and "engine_quiet b c"
  shows "engine_quiet a c"
proof -
  have "list_all2 row_quiet (en_execs a) (en_execs c)"
    using assms list_all2_trans [of row_quiet row_quiet row_quiet] row_quiet_trans
    unfolding engine_quiet_def by blast
  then show ?thesis using assms unfolding engine_quiet_def by metis
qed

lemma site_quiet_refl [simp, quiets]: "quiet s s"
  by (simp add: quiet_def)

lemma site_quiet_trans: "quiet a b \<Longrightarrow> quiet b c \<Longrightarrow> quiet a c"
  unfolding quiet_def by (rule engine_quiet_trans)

lemma quiet_note [simp, quiets]: "quiet s (add_note i b s') = quiet s s'"
  by (simp add: quiet_def)

section \<open>The tables\<close>

lemma quiet_exec_update:
  assumes "\<And>e. row_quiet e (f e)"
  shows "engine_quiet en (update_exec i f en)"
  using assms
  by (auto simp: engine_quiet_def claim_of_def get_task_def update_exec_def update_row_def
      list_all2_map2 list.rel_refl_strong)

lemma quiet_task_update:
  assumes "\<And>t. et_id (f t) = et_id t" and "\<And>t. et_claim (f t) = et_claim t \<or> et_claim (f t) = None"
  shows "engine_quiet en (update_engine_task i f en)"
  unfolding engine_quiet_def
proof (intro conjI allI)
  fix j
  show "claim_of (update_engine_task i f en) j = claim_of en j \<or> claim_of (update_engine_task i f en) j = None"
    using get_task_update [of f, OF assms(1)] assms(2) by (auto simp: claim_of_def split: option.split)
qed (simp add: list.rel_refl)

lemma quiet_requests: "engine_quiet en (update_request i h en)" "engine_quiet en (en\<lparr>en_audit := a\<rparr>)"
  "engine_quiet en (en\<lparr>en_requests := qs\<rparr>)"
  by (simp_all add: engine_quiet_def claim_of_def get_task_def list.rel_refl)

lemma quiet_put:
  assumes "site_task s (et_id t) = Some u" and "et_claim t = et_claim u \<or> et_claim t = None"
  shows "quiet s (put_task t s)"
  using assms site_task_put [OF assms(1)]
  by (auto simp: quiet_def engine_quiet_def claim_of_def site_task_def [symmetric] site_runs_def [symmetric]
      list.rel_refl split: option.split)

lemma quiet_moved:
  assumes "site_task s i = Some u" and "et_id t = et_id u" and "et_claim t = et_claim u \<or> et_claim t = None"
  shows "quiet s (put_task t s)"
  using quiet_put [of s t u] assms site_task_id [OF assms(1)] by simp

lemma quiet_site_run: "(\<And>e. row_quiet e (f e)) \<Longrightarrow> quiet s (update_site_run x f s)"
  by (simp add: quiet_def update_site_run_def quiet_exec_update)

section \<open>The approval engine\<close>

lemma quiet_claim: "claim_pending_approval i new now resolver why en = (b, en') \<Longrightarrow> engine_quiet en en'"
  by (auto simp: claim_pending_approval_def quiet_requests split: option.splits if_splits)

lemma quiet_spend: "engine_quiet en (spend_retry_or_block sha t q en)"
  by (auto simp: spend_retry_or_block_def Let_def intro!: quiet_task_update engine_quiet_trans [OF quiet_task_update quiet_requests(2)])

lemma quiet_request:
  "engine_quiet en (snd (request_approval_if_needed sha wd now e tenant project raw policy category action en))"
proof -
  define f :: "execution \<Rightarrow> execution" where "f = (\<lambda>e. e\<lparr>ex_status := X_AWAITING_HUMAN_APPROVAL\<rparr>)"
  define g :: "engine_task \<Rightarrow> engine_task" where
    "g = (\<lambda>t. if et_status t \<noteq> T_AWAITING_HUMAN_APPROVAL
              then t\<lparr>et_status := T_AWAITING_HUMAN_APPROVAL, et_agent := None\<rparr> else t)"
  have "engine_quiet en (update_engine_task k g (update_exec x f (en\<lparr>en_requests := qs\<rparr>)))" for k x qs
    by (rule engine_quiet_trans [OF engine_quiet_trans [OF quiet_requests(3) quiet_exec_update] quiet_task_update])
      (simp_all add: f_def g_def row_quiet_def)
  then show ?thesis by (simp add: request_approval_if_needed_def Let_def f_def g_def)
qed

lemma quiet_resolve: "engine_quiet en (snd (resolve_approval sha now i approved resolver why en))"
proof (cases "claim_pending_approval i (if approved then Q_APPROVED else Q_REJECTED) now resolver why en")
  case (Pair won en1)
  note c = quiet_claim [OF this]
  have row: "engine_quiet en1 (update_exec x (\<lambda>e. e\<lparr>ex_status := X_DONE, completed_at := Some now\<rparr>) en1)"
    "engine_quiet en1 (update_exec x (\<lambda>e. e\<lparr>ex_status := X_ABORTED, abort_code := Some ''approval_rejected'',
                              completed_at := Some now\<rparr>) en1)" for x
    by (auto intro!: quiet_exec_update simp: row_quiet_def)
  have approved: "engine_quiet en1 (update_engine_task k (\<lambda>t. t\<lparr>et_agent := None\<rparr>)
      (update_exec x (\<lambda>e. e\<lparr>ex_status := X_DONE, completed_at := Some now\<rparr>) en1))" for k x
    by (rule engine_quiet_trans [OF row(1) quiet_task_update]) simp_all
  have rejected: "engine_quiet en1 (update_engine_task k (\<lambda>t. t\<lparr>et_status := T_BLOCKED\<rparr>)
      (update_exec x (\<lambda>e. e\<lparr>ex_status := X_ABORTED, abort_code := Some ''approval_rejected'',
                              completed_at := Some now\<rparr>) en1))" for k x
    by (rule engine_quiet_trans [OF row(2) quiet_task_update]) simp_all
  show ?thesis
    using Pair c engine_quiet_trans [OF c approved] engine_quiet_trans [OF c rejected]
      engine_quiet_trans [OF engine_quiet_trans [OF c approved] quiet_spend]
    by (cases won) (simp_all add: resolve_approval_def Let_def split: option.split)
qed

lemma quiet_expire: "engine_quiet en (snd (expire_one wd now hours i en))"
proof (cases "claim_pending_approval i Q_TIMED_OUT now None (Some (''no response within '' @ say_hours wd hours @ '' h'')) en")
  case (Pair won en1)
  note c = quiet_claim [OF this]
  have "engine_quiet en1 (update_engine_task k (\<lambda>t. t\<lparr>et_status := T_BLOCKED\<rparr>)
      (update_exec x (\<lambda>e. e\<lparr>ex_status := X_ABORTED, abort_code := Some ''approval_timeout_exceeded''\<rparr>) en1))" for k x
    by (rule engine_quiet_trans [OF quiet_exec_update quiet_task_update]) (simp_all add: row_quiet_def)
  then show ?thesis using Pair c engine_quiet_trans [OF c]
    by (cases won) (simp_all add: expire_one_def split: option.split)
qed

lemma quiet_engine_call: "engine_quiet en (do_engine_call sha wd call en)"
  by (cases call) (auto simp: quiet_request quiet_resolve quiet_expire split: option.split)

section \<open>The end of a run\<close>

lemma quiet_finalize_row:
  assumes "finalize_row now cat res e = Inr e'" and "r_status res \<noteq> X_RUNNING"
  shows "row_quiet e e'"
proof -
  have rollup: "apply_steps_rollup steps f = Inr f' \<Longrightarrow> ex_status f' = ex_status f" for steps f f'
    by (auto simp: apply_steps_rollup_def split: sum.splits)
  have usage: "write_usage now cat res f = Inr f' \<Longrightarrow> ex_status f' = r_status res" for f f'
    by (auto simp: write_usage_def result_ok apply_price_snapshot_def dest!: rollup split: prod.splits option.splits)
  show ?thesis
    using assms finalize_row_id [OF assms(1)]
    by (auto simp: row_quiet_def finalize_row_def result_ok dest!: rollup usage split: if_splits prod.splits)
qed

text \<open>The identities of the runs, which are their positions.\<close>

definition run_ids_ok :: "site \<Rightarrow> bool" where
  "run_ids_ok s \<longleftrightarrow> map ex_id (site_runs s) = [0..<length (site_runs s)]"

lemma run_ids_distinct: "run_ids_ok s \<Longrightarrow> distinct (map ex_id (site_runs s))"
  by (simp add: run_ids_ok_def)

lemma quiet_ids:
  assumes "quiet s s'"
  shows "map ex_id (site_runs s') = map ex_id (site_runs s)" "length (site_runs s') = length (site_runs s)"
    "run_ids_ok s \<Longrightarrow> run_ids_ok s'"
proof -
  have rows: "list_all2 row_quiet (site_runs s) (site_runs s')"
    using assms by (simp add: quiet_def engine_quiet_def site_runs_def)
  show "length (site_runs s') = length (site_runs s)" using list_all2_lengthD [OF rows] by simp
  show "map ex_id (site_runs s') = map ex_id (site_runs s)"
    using rows by (induction rule: list_all2_induct) (auto simp: row_quiet_def)
  then show "run_ids_ok s \<Longrightarrow> run_ids_ok s'" using list_all2_lengthD [OF rows] by (simp add: run_ids_ok_def)
qed

lemma quiet_replace:
  assumes "run_ids_ok s" and "e \<in> set (site_runs s)" and "row_quiet e e'"
  shows "quiet s (update_site_run (ex_id e) (\<lambda>_. e') s)"
    "quiet s (s\<lparr>si_engine := (si_engine s)\<lparr>en_execs := update_row (ex_id e) (\<lambda>_. e') (site_runs s)\<rparr>\<rparr>)"
proof -
  have "f = e" if "f \<in> set (site_runs s)" "ex_id f = ex_id e" for f
    using run_ids_distinct [OF assms(1)] assms(2) that by (auto simp: distinct_map dest: inj_onD)
  then have "list_all2 row_quiet (site_runs s) (update_row (ex_id e) (\<lambda>_. e') (site_runs s))"
    using assms(3) by (auto simp: update_row_def list_all2_map2 intro!: list.rel_refl_strong)
  then show "quiet s (update_site_run (ex_id e) (\<lambda>_. e') s)"
    "quiet s (s\<lparr>si_engine := (si_engine s)\<lparr>en_execs := update_row (ex_id e) (\<lambda>_. e') (site_runs s)\<rparr>\<rparr>)"
    by (simp_all add: quiet_def engine_quiet_def claim_of_def get_task_def update_site_run_def update_exec_def site_runs_def)
qed

lemma quiet_finalize:
  assumes "finalize_site env now x res s = Inr s'" and "r_status res \<noteq> X_RUNNING" and "run_ids_ok s"
  shows "quiet s s'"
proof -
  obtain db where db: "finalize_execution now (we_catalog env) x res (site_runs s) = Inr db"
    and s': "s' = s\<lparr>si_engine := (si_engine s)\<lparr>en_execs := db\<rparr>\<rparr>"
    using assms(1) by (auto simp: finalize_site_def result_ok)
  show ?thesis
  proof (cases "find (\<lambda>e. ex_id e = x) (site_runs s)")
    case None
    then have "db = en_execs (si_engine s)" using db by (simp add: finalize_execution_def site_runs_def)
    then have "s' = s" using s' by simp
    then show ?thesis by simp
  next
    case (Some e)
    then have e: "e \<in> set (site_runs s)" "ex_id e = x" by (auto simp: find_Some_iff)
    obtain e' where e': "finalize_row now (we_catalog env) res e = Inr e'" "db = update_row x (\<lambda>_. e') (site_runs s)"
      using db Some by (auto simp: finalize_execution_def result_ok)
    show ?thesis
      using quiet_replace(2) [OF assms(3) e(1) quiet_finalize_row [OF e'(1) assms(2)]] e(2) e'(2) s' by simp
  qed
qed

lemma stamped_claim [simp]: "et_claim (stamped now st t) = et_claim t" "et_tenant (stamped now st t) = et_tenant t"
  by (simp_all add: stamped_def)

lemma quiet_transition: "transition_task_after_run now i st s = Inr (mv, s') \<Longrightarrow> quiet s s'"
  using transition_after_run_id [of now i st s mv s'] quiet_moved by fastforce

lemma quiet_verdict: "apply_reviewer_verdict now i tenant v s = Inr s' \<Longrightarrow> quiet s s'"
  by (auto simp: apply_reviewer_verdict_def Let_def result_ok dest!: move_task_Inr
      intro!: quiet_moved split: option.splits if_splits)

lemma quiet_review:
  "apply_review_verdict env now i tenant res s = Inr (mv, s') \<Longrightarrow> quiet s s'"
  by (auto simp: apply_review_verdict_def Let_def result_ok dest!: move_task_Inr quiet_verdict
      intro!: quiet_moved split: option.splits if_splits)

lemma quiet_park:
  assumes "park_run env now i x policy approval s = Inr (r, s')"
  shows "quiet s s'"
proof -
  have failed_row: "quiet s1 (update_site_run x (\<lambda>e. e\<lparr>ex_status := X_FAILED, abort_code := Some ''approval_policy_mismatch'',
      completed_at := Some now, ex_output := append_note msg (ex_output e)\<rparr>) s1)" for s1 msg
    by (rule quiet_site_run) (simp add: row_quiet_def)
  show ?thesis
  proof (cases "find (\<lambda>e. ex_id e = x) (site_runs s)")
    case None
    then show ?thesis using assms by (simp add: park_run_def)
  next
    case e: (Some e)
    show ?thesis
    proof (cases "site_task s i")
      case None
      then show ?thesis using assms e by (simp add: park_run_def)
    next
      case t: (Some t)
      show ?thesis
      proof (cases "find_project s (et_project t)")
        case None
        then show ?thesis using assms e t by (simp add: park_run_def)
      next
        case p: (Some p)
        obtain action where a: "approval_action approval = Inr action"
          using assms e t p by (cases "approval_action approval") (auto simp: park_run_def)
        obtain q en where req: "request_approval_if_needed (we_sha env) (we_words env) now e (et_tenant t)
            (pj_id p) (pj_policy p) policy (approval_category approval) action (si_engine s) = (q, en)"
          by (metis prod.exhaust)
        have "en = snd (request_approval_if_needed (we_sha env) (we_words env) now e (et_tenant t)
            (pj_id p) (pj_policy p) policy (approval_category approval) action (si_engine s))"
          by (simp add: req)
        then have step: "quiet s (s\<lparr>si_engine := en\<rparr>)" by (simp add: quiet_def quiet_request)
        show ?thesis
        proof (cases q)
          case (Some r)
          then show ?thesis using assms e t p a req step by (auto simp: park_run_def Let_def)
        next
          case None
          then obtain mv where "transition_task_after_run now i X_FAILED
              (update_site_run x (\<lambda>e. e\<lparr>ex_status := X_FAILED, abort_code := Some ''approval_policy_mismatch'',
                completed_at := Some now,
                ex_output := append_note (we_mismatch_note env (approval_category approval)) (ex_output e)\<rparr>)
                (s\<lparr>si_engine := en\<rparr>)) = Inr (mv, s')"
            using assms e t p a req by (auto simp: park_run_def result_ok)
          from site_quiet_trans [OF step site_quiet_trans [OF failed_row quiet_transition [OF this]]] show ?thesis .
        qed
      qed
    qed
  qed
qed

lemma quiet_end:
  assumes "finalize_and_transition env now rq x res approval policy s = Inr (r, s')"
    and "r_status res \<noteq> X_RUNNING" and "run_ids_ok s"
  shows "quiet s s'"
proof -
  obtain s1 where s1: "finalize_site env now x res s = Inr s1"
    using assms(1) by (auto simp: finalize_and_transition_def result_ok)
  have "quiet s1 s'"
    using assms(1) s1
    by (auto simp: finalize_and_transition_def result_ok dest!: quiet_transition quiet_review quiet_park
        split: if_splits bool.splits option.splits list.splits)
  then show ?thesis using quiet_finalize [OF s1 assms(2,3)] site_quiet_trans by blast
qed

lemma quiet_lost_work: "block_task_with_lost_work i code note s = Inr (mv, s') \<Longrightarrow> quiet s s'"
  by (auto simp: block_task_with_lost_work_def result_ok dest!: move_task_Inr
      intro!: quiet_moved split: option.splits if_splits)

lemma quiet_mark:
  assumes "run_ids_ok s"
  shows "quiet s (snd (mark_commit_failed x code msg conflict i s))"
proof (cases "find (\<lambda>e. ex_id e = x) (site_runs s)")
  case None
  then show ?thesis by (simp add: mark_commit_failed_def)
next
  case (Some e)
  then have e: "e \<in> set (site_runs s)" "ex_id e = x" by (auto simp: find_Some_iff)
  define e1 where "e1 = e\<lparr>abort_code := Some code, ex_output := append_note msg (ex_output e)\<rparr>"
  have row: "row_quiet e e1" by (simp add: e1_def row_quiet_def)
  define rolled where "rolled = (case conflict of None \<Rightarrow> Inr e1
                | Some st \<Rightarrow> apply_steps_rollup (steps_log e1 @ [st]) e1)"
  have out: "mark_commit_failed x code msg conflict i s = (case rolled of Inl _ \<Rightarrow> (None, s)
      | Inr e2 \<Rightarrow> (case block_task_with_lost_work i code msg (update_site_run x (\<lambda>_. e2) s) of
                    Inl _ \<Rightarrow> (None, s) | Inr r \<Rightarrow> r))"
    unfolding mark_commit_failed_def Some Let_def rolled_def e1_def by simp
  show ?thesis
  proof (cases rolled)
    case (Inl err)
    then show ?thesis by (simp add: out)
  next
    case (Inr e2)
    have "ex_id e2 = ex_id e1 \<and> ex_task e2 = ex_task e1 \<and> ex_status e2 = ex_status e1"
      using Inr by (auto simp: rolled_def apply_steps_rollup_def split: option.splits sum.splits)
    then have "row_quiet e e2" using row by (simp add: row_quiet_def)
    from quiet_replace(1) [OF assms e(1) this] e(2)
    have q: "quiet s (update_site_run x (\<lambda>_. e2) s)" by simp
    show ?thesis
    proof (cases "block_task_with_lost_work i code msg (update_site_run x (\<lambda>_. e2) s)")
      case (Inl err)
      then show ?thesis using Inr by (simp add: out)
    next
      case r: (Inr r)
      obtain mv s2 where r2: "r = (mv, s2)" by fastforce
      show ?thesis using Inr r r2 site_quiet_trans [OF q quiet_lost_work [of i code msg _ mv s2]]
        by (simp add: out)
    qed
  qed
qed

section \<open>The beats\<close>

lemma quiet_orphan: "revert_orphan_claim min_age now i s = Inr (mv, s') \<Longrightarrow> quiet s s'"
  by (auto simp: revert_orphan_claim_def cleared_claim_def result_ok dest!: move_task_Inr
      intro!: quiet_moved split: option.splits if_splits)

lemma quiet_stuck_task: "reconcile_stuck_task min_age now i started s = Inr (mv, s') \<Longrightarrow> quiet s s'"
  by (auto simp: reconcile_stuck_task_def dest!: quiet_orphan quiet_transition split: option.splits if_splits)

lemma quiet_each:
  assumes "\<And>c s a s'. f c s = Inr (a, s') \<Longrightarrow> quiet s s'"
  shows "reconcile_each f cs s = (as, s') \<Longrightarrow> quiet s s'"
proof (induction cs arbitrary: s as)
  case (Cons c cs)
  show ?case
  proof (cases "f c s")
    case (Inl e)
    then show ?thesis using Cons.prems by simp
  next
    case (Inr r)
    then obtain a s1 where r: "f c s = Inr (a, s1)" by (cases r) simp
    obtain bs where rest: "reconcile_each f cs s1 = (bs, s')"
      using Cons.prems r by (cases "reconcile_each f cs s1") simp
    show ?thesis by (rule site_quiet_trans [OF assms [OF r] Cons.IH [OF rest]])
  qed
qed simp

lemma quiet_orphan_review:
  "reconcile_orphan_review min_age max_stuck now c s = Inr (a, s') \<Longrightarrow> quiet s s'"
  by (auto simp: reconcile_orphan_review_def result_ok dest!: move_task_Inr intro!: quiet_moved
      split: prod.splits option.splits if_splits)

lemma complete_plan_engine [simp]: "si_engine (snd (reconcile_complete_plan i s)) = si_engine s"
  by (auto simp: reconcile_complete_plan_def move_plan_if_def Let_def split: option.split)

lemma unblocked_plan_engine [simp]: "si_engine (snd (reconcile_unblocked_plan i s)) = si_engine s"
  by (auto simp: reconcile_unblocked_plan_def move_plan_if_def Let_def split: option.split)

lemma fold_engine: "(\<And>i s. si_engine (f i s) = si_engine s) \<Longrightarrow> si_engine (fold f is s) = si_engine s"
  by (induction "is" arbitrary: s) auto

lemma reconcile_plans_engine [simp]: "si_engine (reconcile_plans s) = si_engine s"
  by (simp add: reconcile_plans_def reconcile_complete_plans_def reconcile_unblocked_plans_def fold_engine)

lemma quiet_reconcile:
  assumes "reconcile_pipeline_state now upd s = (as, s')"
  shows "quiet s s'"
proof -
  obtain bs s1 cs s2 where one: "reconcile_stuck_tasks stuck_task_min_age now s = (bs, s1)"
    and two: "reconcile_orphan_reviews review_min_age review_max_stuck now upd s1 = (cs, s2)"
    by (metis prod.exhaust)
  have "quiet s s1"
    using one unfolding reconcile_stuck_tasks_def
    by (rule quiet_each [rotated]) (auto simp: result_ok dest!: quiet_stuck_task split: prod.splits)
  moreover have "quiet s1 s2"
    using two unfolding reconcile_orphan_reviews_def by (rule quiet_each [rotated]) (rule quiet_orphan_review)
  moreover have "quiet s2 s'" using assms one two by (auto simp: reconcile_pipeline_state_def quiet_def)
  ultimately show ?thesis using site_quiet_trans by blast
qed

text \<open>A row as a beat read it, possibly before others changed the table.\<close>

definition row_known :: "site \<Rightarrow> execution \<Rightarrow> bool" where
  "row_known s e \<longleftrightarrow> (\<exists>f \<in> set (site_runs s). ex_id f = ex_id e \<and> ex_task f = ex_task e)"

lemma row_known_quiet:
  assumes "quiet s s'" and "row_known s e"
  shows "row_known s' e"
proof -
  have rows: "list_all2 row_quiet (site_runs s) (site_runs s')"
    using assms(1) by (simp add: quiet_def engine_quiet_def site_runs_def)
  obtain f where f: "f \<in> set (site_runs s)" "ex_id f = ex_id e" "ex_task f = ex_task e"
    using assms(2) by (auto simp: row_known_def)
  have "\<exists>g \<in> set ys. row_quiet f g" if "list_all2 row_quiet xs ys" "f \<in> set xs" for xs ys
    using that by (induction rule: list_all2_induct) auto
  from this [OF rows f(1)] show ?thesis using f by (auto simp: row_known_def row_quiet_def)
qed

lemma quiet_seal:
  assumes "seal_lost_run now e b s = Inr (sealed, s')" and "run_ids_ok s" and "row_known s e"
  shows "quiet s s'"
proof -
  obtain e1 fresh_seal where e1: "seal_terminal_execution now X_FAILED (Some ''stale_after_worker_loss'') None e = (e1, fresh_seal)"
    by (metis prod.exhaust)
  obtain f where f: "f \<in> set (site_runs s)" "ex_id f = ex_id e" "ex_task f = ex_task e"
    using assms(3) by (auto simp: row_known_def)
  show ?thesis
  proof (cases fresh_seal)
    case True
    have "row_quiet f e1" using e1 f True
      by (auto simp: row_quiet_def seal_terminal_execution_def split: if_splits)
    from quiet_replace(1) [OF assms(2) f(1) this]
    have q: "quiet s (update_site_run (ex_id e) (\<lambda>_. e1) s)" using f(2) by simp
    obtain mv s1 where "transition_task_after_run now (ex_task e) X_FAILED (update_site_run (ex_id e) (\<lambda>_. e1) s) = Inr (mv, s1)"
        "s' = add_note (ex_task e) b s1"
      using assms(1) e1 True by (auto simp: seal_lost_run_def result_ok)
    then show ?thesis using site_quiet_trans [OF q quiet_transition] by simp
  next
    case False
    then show ?thesis using assms(1) e1 by (simp add: seal_lost_run_def)
  qed
qed

text \<open>A container never reports that its run is still running; then recovering is quiet too.\<close>

definition reports_ends :: "(string \<Rightarrow> pyval option) \<Rightarrow> daemon \<Rightarrow> bool" where
  "reports_ends loads dm \<longleftrightarrow>
     (\<forall>x logs code r. dm_exited dm x = Some (logs, code)
        \<longrightarrow> recover_result_from_exited_logs loads logs code = Inr (Some r) \<longrightarrow> r_status r \<noteq> X_RUNNING)"

lemma quiet_recover:
  assumes "finalize_from_exited_container env loads now e logs code s = Inr (out, s')"
    and ok: "dm_exited dm (ex_id e) = Some (logs, code)" "reports_ends loads dm" "run_ids_ok s" "row_known s e"
  shows "quiet s s'"
proof -
  obtain found where found: "recover_result_from_exited_logs loads logs code = Inr found"
    using assms(1) by (cases "recover_result_from_exited_logs loads logs code")
      (auto simp: finalize_from_exited_container_def)
  show ?thesis
  proof (cases found)
    case None
    then show ?thesis using assms(1) found quiet_seal [OF _ ok(3,4)]
      by (auto simp: finalize_from_exited_container_def result_ok)
  next
    case (Some raw)
    have st: "r_status (approval_lost raw) \<noteq> X_RUNNING"
      using ok(1,2) found Some by (auto simp: reports_ends_def approval_lost_def)
    obtain s1 where s1: "finalize_site env now (ex_id e) (approval_lost raw) s = Inr s1"
      using assms(1) found Some by (auto simp: finalize_from_exited_container_def result_ok Let_def)
    have "quiet s1 s'"
      using assms(1) found Some s1
      by (auto simp: finalize_from_exited_container_def result_ok Let_def dest!: quiet_review quiet_transition
          split: if_splits)
    then show ?thesis using quiet_finalize [OF s1 st ok(3)] site_quiet_trans by blast
  qed
qed

lemma quiet_sweep_one:
  assumes "sweep_execution env loads dm now e s = Inr s'"
    and ok: "reports_ends loads dm" "run_ids_ok s" "row_known s e"
  shows "quiet s s'"
proof (cases "dm_exited dm (ex_id e)")
  case None
  then show ?thesis using assms(1) quiet_seal [OF _ ok(2,3)]
    by (auto simp: sweep_execution_def Let_def result_ok split: if_splits)
next
  case (Some lc)
  obtain logs code where lc: "lc = (logs, code)" by fastforce
  obtain out s1 where one: "finalize_from_exited_container env loads now e logs code s = Inr (out, s1)"
    using assms(1) Some lc by (auto simp: sweep_execution_def Let_def result_ok)
  have q: "quiet s s1" using quiet_recover [OF one _ ok] Some lc by simp
  show ?thesis
  proof (cases out)
    case (Some o1)
    then show ?thesis using assms(1) \<open>dm_exited dm (ex_id e) = Some lc\<close> lc one q
      by (simp add: sweep_execution_def Let_def)
  next
    case None
    then show ?thesis using assms(1) Some lc one q quiet_seal [OF _ ok(2,3)]
      by (auto simp: sweep_execution_def Let_def result_ok split: if_splits)
  qed
qed

lemma quiet_sweep_each:
  assumes "sweep_each env loads dm now es s = Inr s'" and "reports_ends loads dm" "run_ids_ok s"
    and "\<forall>e \<in> set es. row_known s e"
  shows "quiet s s'"
  using assms
proof (induction es arbitrary: s)
  case (Cons e es)
  then obtain s1 where one: "sweep_execution env loads dm now e s = Inr s1"
    and rest: "sweep_each env loads dm now es s1 = Inr s'" by (auto simp: result_ok)
  have q: "quiet s s1" using quiet_sweep_one [OF one Cons.prems(2,3)] Cons.prems(4) by simp
  have "quiet s1 s'"
    using Cons.IH [OF rest Cons.prems(2) quiet_ids(3) [OF q Cons.prems(3)]] Cons.prems(4) row_known_quiet [OF q] by simp
  then show ?case using q site_quiet_trans by blast
qed simp

lemma quiet_sweep:
  assumes "reports_ends loads dm" and "run_ids_ok s"
  shows "quiet s (sweep_stale_executions env loads dm now s)"
proof -
  define es where "es = filter (\<lambda>e. ex_status e = X_RUNNING
                    \<and> rm_created (si_runs s (ex_id e)) + orphan_container_grace < now) (site_runs s)"
  have "\<forall>e \<in> set es. row_known s e" by (auto simp: es_def row_known_def)
  then show ?thesis
    using quiet_sweep_each [OF _ assms]
    by (cases "sweep_each env loads dm now es s") (auto simp: sweep_stale_executions_def es_def [symmetric] settle_def)
qed

section \<open>The dispatcher\<close>

lemma quiet_done: "quiet s (snd (on_task_done i tenant s))"
  by (auto simp: on_task_done_def move_plan_if_def Let_def quiet_def split: option.split)

lemma quiet_revert: "quiet s (snd (revert_to_ready i tenant s))"
  by (auto simp: revert_to_ready_def cleared_claim_def intro!: quiet_moved split: option.split)

text \<open>A dispatch that sends nothing is quiet; one that sends puts its claim on its task.\<close>

lemma quiet_not_sent:
  assumes d: "dispatch_task platform now claim i tenant s rr = Inr (out, s', rr')"
    and "\<nexists>r. out = RoutedAI r"
  shows "quiet s s'"
proof (cases "s' = s")
  case False
  then obtain t where t: "site_task s i = Some t" "et_status t = T_READY"
    using d by (auto simp: dispatch_task_def split: option.splits if_splits)
  have i: "et_id t = i" by (rule site_task_id [OF t(1)])
  show ?thesis
  proof (cases "human_assignee s t")
    case (Some a)
    define s0 where "s0 = s\<lparr>si_assignments := si_assignments s @
       [\<lparr>ha_tenant = et_tenant t, ha_task = et_id t, ha_agent = ar_id a, ha_user = ar_user a,
         ha_at = now, ha_status = ''pending_acceptance''\<rparr>]\<rparr>"
    have "s' = put_task (t\<lparr>et_status := T_ASSIGNED_TO_HUMAN\<rparr>) s0"
      using d False t Some human_route_ok [OF t(2), of now a s]
      by (auto simp: dispatch_task_def s0_def split: option.splits if_splits)
    moreover have "quiet s0 (put_task (t\<lparr>et_status := T_ASSIGNED_TO_HUMAN\<rparr>) s0)"
      using quiet_moved [of s0 i t] t i by (simp add: s0_def site_task_def)
    ultimately show ?thesis by (simp add: quiet_def s0_def)
  next
    case None
    then have r: "route_ai platform now claim t s rr = (out, s', rr')"
      using d False t by (auto simp: dispatch_task_def split: option.splits if_splits)
    have here: "site_task s (et_id t) = Some t" using t(1) i by simp
    show ?thesis
      by (rule route_ai_cases [OF r here t(2)])
        (use assms(2) quiet_moved [OF t(1), of "t\<lparr>et_agent := None\<rparr>"] in \<open>auto simp: clear_dead_preset_def\<close>)
  qed
qed simp

lemma claim_of_site: "claim_of (si_engine s) i = (case site_task s i of None \<Rightarrow> None | Some t \<Rightarrow> et_claim t)"
  by (simp add: claim_of_def site_task_def)

lemma claim_of_put:
  assumes "site_task s (et_id t) = Some u"
  shows "claim_of (si_engine (put_task t s)) j = (if j = et_id t then et_claim t else claim_of (si_engine s) j)"
  using site_task_put [OF assms] by (simp add: claim_of_site)

lemma dispatch_claims:
  assumes d: "dispatch_task platform now claim i tenant s rr = Inr (RoutedAI r, s', rr')"
  shows "claim_of (si_engine s') j = (if j = i then Some claim else claim_of (si_engine s) j)"
    "site_runs s' = site_runs s" "rq_task (dr_run r) = i" "rq_claim (dr_run r) = Some claim"
    "\<not> rq_review (dr_run r)"
proof -
  obtain t agent where t: "site_task s i = Some t" "rq_task (dr_run r) = i" "rq_claim (dr_run r) = Some claim"
      "\<not> rq_review (dr_run r)" "s' = put_task (claimed_row now agent claim t) s"
    by (rule dispatch_cases [OF d])
  show "claim_of (si_engine s') j = (if j = i then Some claim else claim_of (si_engine s) j)"
    using claim_of_put [of s "claimed_row now agent claim t" t j] t(1,5) site_task_id [OF t(1)]
    by (simp add: claimed_row_def)
  show "site_runs s' = site_runs s" "rq_task (dr_run r) = i" "rq_claim (dr_run r) = Some claim"
    "\<not> rq_review (dr_run r)" using t by simp_all
qed

lemma review_request:
  "on_task_in_review platform i tenant s = Some rq \<Longrightarrow> rq_review rq"
  by (auto simp: on_task_in_review_def assemble_run_request_def split: option.splits if_splits)

section \<open>The whole as a step relation\<close>

record config =
  cf_site :: site
  cf_inbox :: "run_request list"
  cf_rotation :: round_robin
  cf_claims :: "string list"

text \<open>
  \<open>lost_answer\<close> is the dispatch whose message the broker took without the dispatcher learning of
  it: the claim is taken back and the message arrives all the same.
\<close>

inductive orch_step ::
  "worker_env \<Rightarrow> (string \<Rightarrow> pyval option) \<Rightarrow> pydict \<Rightarrow> config \<Rightarrow> config \<Rightarrow> bool"
  for env loads platform where
  event: "claim \<notin> set (cf_claims c) \<Longrightarrow>
     handle_task_event platform now claim sent ev (cf_site c) (cf_rotation c) = Inr (msg, s', rr') \<Longrightarrow>
     orch_step env loads platform c
       \<lparr>cf_site = s', cf_inbox = cf_inbox c @ (case msg of None \<Rightarrow> [] | Some rq \<Rightarrow> [rq]),
        cf_rotation = rr', cf_claims = claim # cf_claims c\<rparr>"
| lost_answer: "claim \<notin> set (cf_claims c) \<Longrightarrow>
     dispatch_task platform now claim i tenant (cf_site c) (cf_rotation c) = Inr (RoutedAI r, s1, rr') \<Longrightarrow>
     orch_step env loads platform c
       \<lparr>cf_site = snd (revert_to_ready i tenant s1), cf_inbox = cf_inbox c @ [dr_run r],
        cf_rotation = rr', cf_claims = claim # cf_claims c\<rparr>"
| start: "rq \<in> set (cf_inbox c) \<Longrightarrow> prepare_run env now rq (cf_site c) = Inr (out, s') \<Longrightarrow>
     orch_step env loads platform c (c\<lparr>cf_site := s'\<rparr>)"
| finish: "finalize_and_transition env now rq x res approval policy (cf_site c) = Inr (mv, s') \<Longrightarrow>
     r_status res \<noteq> X_RUNNING \<Longrightarrow>
     orch_step env loads platform c (c\<lparr>cf_site := s'\<rparr>)"
| commit_failed: "orch_step env loads platform c
     (c\<lparr>cf_site := snd (mark_commit_failed x code msg conflict i (cf_site c))\<rparr>)"
| approvals: "orch_step env loads platform c
     (c\<lparr>cf_site := (cf_site c)\<lparr>si_engine :=
          do_engine_call (we_sha env) (we_words env) call (si_engine (cf_site c))\<rparr>\<rparr>)"
| reconcile: "reconcile_pipeline_state now upd (cf_site c) = (as, s') \<Longrightarrow>
     orch_step env loads platform c (c\<lparr>cf_site := s'\<rparr>)"
| sweep: "reports_ends loads dm \<Longrightarrow>
     orch_step env loads platform c (c\<lparr>cf_site := sweep_stale_executions env loads dm now (cf_site c)\<rparr>)"

text \<open>What holds at all times.\<close>

definition implementer_messages :: "config \<Rightarrow> run_request list" where
  "implementer_messages c = filter (\<lambda>rq. \<not> rq_review rq) (cf_inbox c)"

definition orch_ok :: "config \<Rightarrow> bool" where
  "orch_ok c \<longleftrightarrow>
     run_ids_ok (cf_site c) \<and> (\<forall>i. length (running_of i (cf_site c)) \<le> 1)
     \<and> (\<forall>i k. claim_of (si_engine (cf_site c)) i = Some k \<longrightarrow> k \<in> set (cf_claims c))
     \<and> (\<forall>rq \<in> set (implementer_messages c). \<exists>k \<in> set (cf_claims c). rq_claim rq = Some k)
     \<and> distinct (map rq_claim (implementer_messages c))"

lemma running_quiet:
  assumes "quiet s s'"
  shows "length (running_of i s') \<le> length (running_of i s)"
proof -
  have "list_all2 row_quiet (site_runs s) (site_runs s')"
    using assms by (simp add: quiet_def engine_quiet_def site_runs_def)
  then show ?thesis
    unfolding running_of_def by (induction rule: list_all2_induct) (auto simp: row_quiet_def)
qed

lemma orch_ok_quiet:
  assumes "orch_ok c" and "quiet (cf_site c) s'"
  shows "orch_ok (c\<lparr>cf_site := s'\<rparr>)"
proof -
  have "claim_of (si_engine s') i = Some k \<Longrightarrow> claim_of (si_engine (cf_site c)) i = Some k" for i k
    using assms(2) by (metis quiet_def engine_quiet_def option.distinct(1))
  moreover have "length (running_of i s') \<le> 1" for i
    using running_quiet [OF assms(2), of i] assms(1) order_trans unfolding orch_ok_def by blast
  ultimately show ?thesis
    using assms(1) quiet_ids(3) [OF assms(2)] by (simp add: orch_ok_def implementer_messages_def) blast
qed

lemma dispatch_reverted:
  assumes d: "dispatch_task platform now claim i tenant s rr = Inr (RoutedAI r, s', rr')"
  shows "quiet s (snd (revert_to_ready i tenant s'))"
proof -
  obtain t agent where t: "site_task s i = Some t" "et_tenant t = tenant"
      "s' = put_task (claimed_row now agent claim t) s"
    by (rule dispatch_cases [OF d])
  have i: "et_id t = i" by (rule site_task_id [OF t(1)])
  define u where "u = cleared_claim ((claimed_row now agent claim t)\<lparr>et_status := T_READY\<rparr>)"
  have u: "et_id u = i" "et_claim u = None" by (simp_all add: u_def cleared_claim_def claimed_row_def i)
  have t': "site_task s' i = Some (claimed_row now agent claim t)"
    using site_task_put [of s "claimed_row now agent claim t" t i] t(1,3) i by (simp add: claimed_row_def)
  have out: "snd (revert_to_ready i tenant s') = put_task u s'"
    using t' t(2) by (simp add: revert_to_ready_def claimed_row_def u_def)
  have "claim_of (si_engine (put_task u s')) j = (if j = i then None else claim_of (si_engine s) j)" for j
    using claim_of_put [of s' u _ j] t' u dispatch_claims(1) [OF d] by simp
  moreover have "site_runs (put_task u s') = site_runs s" by (simp add: t(3))
  ultimately show ?thesis
    unfolding out quiet_def engine_quiet_def by (simp add: site_runs_def [symmetric] list.rel_refl)
qed

text \<open>An event: the dispatcher sends a run for a ready task, or the change is quiet.\<close>

lemma event_cases:
  assumes h: "handle_task_event platform now claim sent ev s rr = Inr (msg, s', rr')"
  obtains (kept) "quiet s s'" "msg = None \<or> (\<exists>rq. msg = Some rq \<and> rq_review rq)"
  | (sent) r where "dispatch_task platform now claim (ev_task ev) (ev_tenant ev) s rr = Inr (RoutedAI r, s', rr')"
      "msg = Some (dr_run r)"
proof (cases "is_done_trigger ev \<or> is_in_review_trigger ev \<or> \<not> is_ready_trigger ev")
  case True
  then show thesis
    using h quiet_done review_request
    by (intro kept) (auto simp: handle_task_event_def split: if_splits)
next
  case False
  obtain out s1 rr1 where d: "dispatch_task platform now claim (ev_task ev) (ev_tenant ev) s rr = Inr (out, s1, rr1)"
    using h False by (cases "dispatch_task platform now claim (ev_task ev) (ev_tenant ev) s rr")
      (auto simp: handle_task_event_def)
  have rest: "(msg, s', rr') = (case out of
               RoutedAI r \<Rightarrow> if sent then (Some (dr_run r), s1, rr1)
                 else (None, snd (revert_to_ready (ev_task ev) (ev_tenant ev) s1), rr1)
             | _ \<Rightarrow> (None, s1, rr1))"
    using h False d by (simp add: handle_task_event_def)
  show thesis
  proof (cases "\<exists>r. out = RoutedAI r")
    case True
    then obtain r where r: "out = RoutedAI r" by blast
    show thesis
    proof (cases sent)
      case True
      then show thesis using d rest r that(2) [of r] by simp
    next
      case False
      then show thesis using d rest r dispatch_reverted [of platform now claim "ev_task ev" "ev_tenant ev" s rr r s1 rr1]
        by (intro kept) auto
    qed
  next
    case False
    have "quiet s s1" by (rule quiet_not_sent [OF d]) (use False in blast)
    then show thesis using False rest by (intro kept) (auto split: route_outcome.splits)
  qed
qed

lemma prepare_effect:
  assumes "prepare_run env now rq s = Inr (out, s')"
  obtains (same) "s' = s" | (closed) "s' = supersede_site now (rq_task rq) s"
  | (opened) i where "open_run now rq (supersede_site now (rq_task rq) s) = (i, s')"
  using assms by (auto simp: prepare_run_def Let_def split: option.splits if_splits prod.splits)

lemma running_filter:
  "running_of j s = filter (\<lambda>e. ex_status e = X_RUNNING) (filter (\<lambda>e. ex_task e = j) (site_runs s))"
  by (simp add: running_of_def conj_commute)

lemma prepare_rows:
  assumes "prepare_run env now rq s = Inr (out, s')"
  shows "site_task s' = site_task s" "run_ids_ok s \<Longrightarrow> run_ids_ok s'"
    "(\<forall>i. length (running_of i s) \<le> 1) \<Longrightarrow> length (running_of j s') \<le> 1"
proof -
  define s1 where "s1 = supersede_site now (rq_task rq) s"
  have t1: "site_task s1 = site_task s" by (simp add: s1_def)
  have ids1: "map ex_id (site_runs s1) = map ex_id (site_runs s)"
    by (simp add: s1_def supersede_running_executions_def supersede_row_keeps)
  then have len1: "length (site_runs s1) = length (site_runs s)" using map_eq_imp_length_eq by blast
  have others: "j \<noteq> rq_task rq \<Longrightarrow> running_of j s1 = running_of j s"
    using supersede_keeps_others [of j "rq_task rq" now "site_runs s"] by (simp add: s1_def running_filter)
  have none: "running_of (rq_task rq) s1 = []" by (simp add: s1_def supersede_leaves_none)
  show "site_task s' = site_task s"
    by (rule prepare_effect [OF assms]) (auto simp: t1 s1_def [symmetric] dest: open_run_simps(2))
  show "run_ids_ok s'" if ok: "run_ids_ok s"
  proof (rule prepare_effect [OF assms])
    fix i assume o: "open_run now rq (supersede_site now (rq_task rq) s) = (i, s')"
    show ?thesis using ok ids1 len1 open_run_simps(3,4) [OF o]
      by (simp add: run_ids_ok_def s1_def [symmetric] blank_execution_def)
  qed (use ok ids1 len1 in \<open>simp_all add: run_ids_ok_def s1_def\<close>)
  show "length (running_of j s') \<le> 1" if le: "\<forall>i. length (running_of i s) \<le> 1"
  proof (rule prepare_effect [OF assms])
    assume "s' = s"
    then show ?thesis using le by simp
  next
    assume "s' = supersede_site now (rq_task rq) s"
    then show ?thesis using le none others by (cases "j = rq_task rq") (auto simp: s1_def [symmetric])
  next
    fix i assume o: "open_run now rq (supersede_site now (rq_task rq) s) = (i, s')"
    have "running_of j s' = running_of j s1 @ (if j = rq_task rq then [blank_execution i (rq_task rq)] else [])"
      using open_run_simps(4) [OF o] by (auto simp: running_of_def s1_def [symmetric] blank_execution_def)
    then show ?thesis using le none others by (cases "j = rq_task rq") auto
  qed
qed

section \<open>Invariants\<close>

text \<open>A step, by what it does to claims: nothing new, or one fresh claim with its only message.\<close>

lemma orch_step_cases:
  assumes "orch_step env loads platform c c'" and "run_ids_ok (cf_site c)"
  obtains (calm) "quiet (cf_site c) (cf_site c')" "set (cf_claims c) \<subseteq> set (cf_claims c')"
      "implementer_messages c' = implementer_messages c"
  | (claimed) k i rq where "k \<notin> set (cf_claims c)" "cf_claims c' = k # cf_claims c" "rq_claim rq = Some k"
      "implementer_messages c' = implementer_messages c @ [rq]"
      "\<And>j. claim_of (si_engine (cf_site c')) j
             \<in> {claim_of (si_engine (cf_site c)) j, None} \<union> (if j = i then {Some k} else {})"
      "\<And>j. length (running_of j (cf_site c')) \<le> length (running_of j (cf_site c))" "run_ids_ok (cf_site c')"
  | (started) "site_task (cf_site c') = site_task (cf_site c)" "cf_claims c' = cf_claims c"
      "cf_inbox c' = cf_inbox c" "run_ids_ok (cf_site c')"
      "(\<forall>i. length (running_of i (cf_site c)) \<le> 1) \<Longrightarrow> \<forall>j. length (running_of j (cf_site c')) \<le> 1"
  using assms(1)
proof (cases rule: orch_step.cases)
  case (event claim now sent ev msg s' rr')
  from event(3) show thesis
  proof (cases rule: event_cases)
    case kept
    then show thesis using event(1) by (intro calm) (auto simp: implementer_messages_def)
  next
    case (sent r)
    note d = dispatch_claims [OF sent(1)]
    show thesis
    proof (rule claimed [of claim "dr_run r" "ev_task ev"])
      show "claim_of (si_engine (cf_site c')) j
          \<in> {claim_of (si_engine (cf_site c)) j, None} \<union> (if j = ev_task ev then {Some claim} else {})" for j
        using d(1) [of j] event(1) by simp
      show "length (running_of j (cf_site c')) \<le> length (running_of j (cf_site c))" for j
        using d(2) event(1) by (simp add: running_of_def)
      show "run_ids_ok (cf_site c')" using assms(2) d(2) event(1) by (simp add: run_ids_ok_def)
    qed (use event(1,2) sent(2) d in \<open>simp_all add: implementer_messages_def\<close>)
  qed
next
  case (lost_answer claim now i tenant r s1 rr')
  note d = dispatch_claims [OF lost_answer(3)] and q = dispatch_reverted [OF lost_answer(3)]
  show thesis
  proof (rule claimed [of claim "dr_run r" i])
    show "claim_of (si_engine (cf_site c')) j
        \<in> {claim_of (si_engine (cf_site c)) j, None} \<union> (if j = i then {Some claim} else {})" for j
      using q lost_answer(1) by (auto simp: quiet_def engine_quiet_def)
    show "length (running_of j (cf_site c')) \<le> length (running_of j (cf_site c))" for j
      using running_quiet [OF q] lost_answer(1) by simp
    show "run_ids_ok (cf_site c')" using assms(2) quiet_ids(3) [OF q] lost_answer(1) by simp
  qed (use lost_answer(1,2) d in \<open>simp_all add: implementer_messages_def\<close>)
next
  case (start rq now out s')
  note p = prepare_rows [OF start(3)]
  show thesis using start(1) p assms(2) by (intro started) auto
next
  case (finish now rq x res approval policy mv s')
  then show thesis using quiet_end [OF finish(2,3) assms(2)] by (intro calm) (auto simp: implementer_messages_def)
next
  case (commit_failed x code msg conflict i)
  then show thesis using quiet_mark [OF assms(2)] by (intro calm) (auto simp: implementer_messages_def)
next
  case (approvals call)
  then show thesis using quiet_engine_call by (intro calm) (auto simp: implementer_messages_def quiet_def)
next
  case (reconcile now upd as s')
  then show thesis using quiet_reconcile [OF reconcile(2)] by (intro calm) (auto simp: implementer_messages_def)
next
  case (sweep dm now)
  then show thesis using quiet_sweep [OF _ assms(2)] by (intro calm) (auto simp: implementer_messages_def)
qed

lemma orch_ok_step:
  assumes "orch_step env loads platform c c'" and ok: "orch_ok c"
  shows "orch_ok c' \<and> set (cf_claims c) \<subseteq> set (cf_claims c')"
proof -
  have ids: "run_ids_ok (cf_site c)" and one: "\<forall>i. length (running_of i (cf_site c)) \<le> 1"
    and held: "\<And>i k. claim_of (si_engine (cf_site c)) i = Some k \<Longrightarrow> k \<in> set (cf_claims c)"
    and msgs: "\<forall>rq \<in> set (implementer_messages c). \<exists>k \<in> set (cf_claims c). rq_claim rq = Some k"
    and dist: "distinct (map rq_claim (implementer_messages c))"
    using ok by (auto simp: orch_ok_def)
  show ?thesis
  proof (rule orch_step_cases [OF assms(1) ids])
    assume h: "quiet (cf_site c) (cf_site c')" "set (cf_claims c) \<subseteq> set (cf_claims c')"
      "implementer_messages c' = implementer_messages c"
    have "orch_ok (c\<lparr>cf_site := cf_site c'\<rparr>)" by (rule orch_ok_quiet [OF ok h(1)])
    moreover have "\<forall>rq \<in> set (implementer_messages c'). \<exists>k \<in> set (cf_claims c'). rq_claim rq = Some k"
      using msgs h(2,3) by (metis subsetD)
    ultimately show ?thesis using h(2) dist h(3) by (auto simp: orch_ok_def)
  next
    fix k i rq
    assume h: "k \<notin> set (cf_claims c)" "cf_claims c' = k # cf_claims c" "rq_claim rq = Some k"
      "implementer_messages c' = implementer_messages c @ [rq]"
      "\<And>j. claim_of (si_engine (cf_site c')) j
             \<in> {claim_of (si_engine (cf_site c)) j, None} \<union> (if j = i then {Some k} else {})"
      "\<And>j. length (running_of j (cf_site c')) \<le> length (running_of j (cf_site c))" "run_ids_ok (cf_site c')"
    have "l \<in> set (cf_claims c')" if "claim_of (si_engine (cf_site c')) j = Some l" for j l
      using h(5) [of j] that held [of j l] h(2) by (auto split: if_splits)
    moreover have "length (running_of j (cf_site c')) \<le> 1" for j using h(6) [of j] one order_trans by blast
    moreover have "Some k \<notin> rq_claim ` set (implementer_messages c)" using msgs h(1) by force
    ultimately show ?thesis using h(2-4,7) msgs dist by (auto simp: orch_ok_def)
  next
    assume h: "site_task (cf_site c') = site_task (cf_site c)" "cf_claims c' = cf_claims c"
      "cf_inbox c' = cf_inbox c" "run_ids_ok (cf_site c')"
      "(\<forall>i. length (running_of i (cf_site c)) \<le> 1) \<Longrightarrow> \<forall>j. length (running_of j (cf_site c')) \<le> 1"
    then show ?thesis using one held msgs dist
      by (simp add: orch_ok_def implementer_messages_def claim_of_site)
  qed
qed

lemma orch_ok_steps:
  assumes "(orch_step env loads platform)\<^sup>*\<^sup>* c c'" and "orch_ok c"
  shows "orch_ok c'"
  using assms by (induction rule: rtranclp_induct) (use orch_ok_step in blast)+

text \<open>The claims of tasks are fencing tokens.\<close>

definition sound_step :: "worker_env \<Rightarrow> (string \<Rightarrow> pyval option) \<Rightarrow> pydict \<Rightarrow> config \<Rightarrow> config \<Rightarrow> bool" where
  "sound_step env loads platform c c' \<longleftrightarrow> orch_step env loads platform c c' \<and> orch_ok c"

interpretation claims: fenced "sound_step env loads platform"
  "\<lambda>c i k. claim_of (si_engine (cf_site c)) i = Some k" "\<lambda>c. set (cf_claims c)"
proof
  fix c c' i k
  assume st: "sound_step env loads platform c c'" and h: "claim_of (si_engine (cf_site c')) i = Some k"
  then have step: "orch_step env loads platform c c'" and ids: "run_ids_ok (cf_site c)"
    by (auto simp: sound_step_def orch_ok_def)
  show "claim_of (si_engine (cf_site c)) i = Some k \<or> k \<notin> set (cf_claims c)"
  proof (rule orch_step_cases [OF step ids])
    assume "quiet (cf_site c) (cf_site c')"
    then show ?thesis using h by (metis quiet_def engine_quiet_def option.distinct(1))
  next
    fix l j r
    assume "l \<notin> set (cf_claims c)"
      "\<And>i. claim_of (si_engine (cf_site c')) i
             \<in> {claim_of (si_engine (cf_site c)) i, None} \<union> (if i = j then {Some l} else {})"
    from this(1) this(2) [of i] show ?thesis using h by (auto split: if_splits)
  next
    assume "site_task (cf_site c') = site_task (cf_site c)"
    then show ?thesis using h by (simp add: claim_of_site)
  qed
next
  show "set (cf_claims c) \<subseteq> set (cf_claims c')" if "sound_step env loads platform c c'" for c c'
    using that orch_ok_step [of env loads platform c c'] by (simp add: sound_step_def)
qed

lemma orch_ok_run:
  assumes "(orch_step env loads platform)\<^sup>*\<^sup>* c c'" and "orch_ok c"
  shows "(sound_step env loads platform)\<^sup>*\<^sup>* c c'"
  using assms
proof (induction rule: rtranclp_induct)
  case (step d d')
  then have "sound_step env loads platform d d'" using orch_ok_steps by (simp add: sound_step_def)
  then show ?case using step by auto
qed simp

text \<open>Whether a message would start a run now.\<close>

definition starts :: "worker_env \<Rightarrow> instant \<Rightarrow> site \<Rightarrow> run_request \<Rightarrow> bool" where
  "starts env now s rq \<longleftrightarrow>
     (case prepare_run env now rq s of Inr (Prepared p, s') \<Rightarrow> True | _ \<Rightarrow> False)"




text \<open>
  C3. A claim that was taken back never runs: once a claim that was handed out is no longer on a
  task, because the broker's answer was lost, the reconciler returned the task, or another claim
  replaced it, it never comes back to it, and from then on a message of that claim, however late
  and however often it arrives, starts nothing and changes nothing.
\<close>

theorem reverted_claim_never_runs:
  assumes "(orch_step env loads platform)\<^sup>*\<^sup>* c c'" and "orch_ok c"
    and "k \<in> set (cf_claims c)" and "claim_of (si_engine (cf_site c)) (rq_task rq) \<noteq> Some k"
    and "rq_claim rq = Some k" and "\<not> rq_review rq"
  shows "claim_of (si_engine (cf_site c')) (rq_task rq) \<noteq> Some k
    \<and> (case prepare_run env now rq (cf_site c') of
         Inl e \<Rightarrow> e = CrossTenant
       | Inr (out, s') \<Rightarrow> out = SkippedRun ''stale_claim'' \<and> s' = cf_site c')"
proof -
  have "claim_of (si_engine (cf_site c')) (rq_task rq) \<noteq> Some k"
    using claims.lost_for_good(1) [OF orch_ok_run [OF assms(1,2)] assms(3,4)] .
  then show ?thesis
    using assms(5,6) by (auto simp: prepare_run_def claim_of_site claim_is_current_def split: option.split)
qed

section \<open>Witnesses\<close>

text \<open>A ready task is dispatched twice, the first time without an answer of the broker.\<close>

definition ready_site :: site where
  "ready_site = demo_site [live_task ''t'' T_READY] []"

definition ready_event :: task_event where
  "ready_event = \<lparr>ev_id = ''e'', ev_type = ''task.status_changed'', ev_tenant = ''a'', ev_project = ''pr'',
     ev_task = ''t'', ev_at = [], ev_payload = [(''new_status'', PStr ''ready'')]\<rparr>"

definition ready_config :: config where
  "ready_config = \<lparr>cf_site = ready_site, cf_inbox = [], cf_rotation = Map.empty, cf_claims = []\<rparr>"

lemma ready_config_site: "cf_site ready_config = ready_site" "cf_rotation ready_config = Map.empty"
  by (simp_all add: ready_config_def)

lemma two_dispatches:
  obtains r s1 rr1 rq s2 rr2 where
    "dispatch_task [] 10 ''k1'' ''t'' ''a'' ready_site Map.empty = Inr (RoutedAI r, s1, rr1)"
    "handle_task_event [] 20 ''k2'' True ready_event (snd (revert_to_ready ''t'' ''a'' s1)) rr1 = Inr (Some rq, s2, rr2)"
    "starts demo_env 30 s2 rq" "claim_of (si_engine (snd (revert_to_ready ''t'' ''a'' s1))) ''t'' = None"
proof -
  let ?first = "dispatch_task [] 10 ''k1'' ''t'' ''a'' ready_site Map.empty"
  let ?next = "\<lambda>s1 rr1. handle_task_event [] 20 ''k2'' True ready_event (snd (revert_to_ready ''t'' ''a'' s1)) rr1"
  have run: "case ?first of
      Inr (RoutedAI r, s1, rr1) \<Rightarrow>
        (case ?next s1 rr1 of
           Inr (Some rq, s2, rr2) \<Rightarrow> starts demo_env 30 s2 rq
             \<and> claim_of (si_engine (snd (revert_to_ready ''t'' ''a'' s1))) ''t'' = None
         | _ \<Rightarrow> False)
    | _ \<Rightarrow> False" by code_simp
  then have "\<exists>r s1 rr1. ?first = Inr (RoutedAI r, s1, rr1)"
    by (auto split: sum.splits prod.splits route_outcome.splits)
  then obtain r s1 rr1 where first: "?first = Inr (RoutedAI r, s1, rr1)" by blast
  note run = run [unfolded first, simplified]
  then have "\<exists>rq s2 rr2. ?next s1 rr1 = Inr (Some rq, s2, rr2)"
    by (auto split: sum.splits prod.splits option.splits)
  then obtain rq s2 rr2 where "?next s1 rr1 = Inr (Some rq, s2, rr2)" by blast
  with first run show thesis by (intro that [of r s1 rr1 rq s2 rr2]) simp_all
qed

lemma ready_config_ok:
  "run_ids_ok (cf_site ready_config)" "length (running_of i (cf_site ready_config)) \<le> 1"
  "claim_of (si_engine (cf_site ready_config)) i = None" "orch_ok ready_config"
proof -
  show c: "claim_of (si_engine (cf_site ready_config)) i = None" for i
    by (simp add: ready_config_def ready_site_def claim_of_site live_task_def)
  show "run_ids_ok (cf_site ready_config)" "length (running_of i (cf_site ready_config)) \<le> 1"
    by (simp_all add: ready_config_def ready_site_def run_ids_ok_def running_of_def)
  then show "orch_ok ready_config" using c
    by (simp add: orch_ok_def implementer_messages_def)
      (simp add: ready_config_def ready_site_def running_of_def)
qed

lemma reverted_claim_never_runs_witness:
  "\<exists>c' rq. (orch_step demo_env (\<lambda>_. None) [])\<^sup>*\<^sup>* ready_config c' \<and> rq \<in> set (cf_inbox c') \<and> rq_claim rq = Some ''k1''
     \<and> (case prepare_run demo_env 30 rq (cf_site c') of
          Inl e \<Rightarrow> e = CrossTenant | Inr (out, s') \<Rightarrow> out = SkippedRun ''stale_claim'' \<and> s' = cf_site c')"
proof -
  obtain r s1 rr1 rq s2 rr2 where h:
    "dispatch_task [] 10 ''k1'' ''t'' ''a'' ready_site Map.empty = Inr (RoutedAI r, s1, rr1)"
    "handle_task_event [] 20 ''k2'' True ready_event (snd (revert_to_ready ''t'' ''a'' s1)) rr1 = Inr (Some rq, s2, rr2)"
    "claim_of (si_engine (snd (revert_to_ready ''t'' ''a'' s1))) ''t'' = None"
    by (rule two_dispatches)
  note d = dispatch_claims [OF h(1)]
  define c1 where "c1 = \<lparr>cf_site = snd (revert_to_ready ''t'' ''a'' s1), cf_inbox = [] @ [dr_run r],
        cf_rotation = rr1, cf_claims = [''k1'']\<rparr>"
  define c2 where "c2 = \<lparr>cf_site = s2, cf_inbox = [dr_run r] @ [rq], cf_rotation = rr2, cf_claims = [''k2'', ''k1'']\<rparr>"
  have one: "orch_step demo_env (\<lambda>_. None) [] ready_config c1"
    using orch_step.lost_answer [where c = ready_config and env = demo_env and loads = "\<lambda>_. None", OF _ h(1) [folded ready_config_site]]
    by (simp add: c1_def ready_config_def)
  have two: "orch_step demo_env (\<lambda>_. None) [] c1 c2"
    using orch_step.event [where c = c1 and claim = "''k2''" and platform = "[]" and env = demo_env and loads = "\<lambda>_. None"] h(2)
    by (fastforce simp: c1_def c2_def)
  have ok: "orch_ok c1" using orch_ok_step [OF one ready_config_ok(4)] by simp
  have steps: "(orch_step demo_env (\<lambda>_. None) [])\<^sup>*\<^sup>* ready_config c2" using one two by simp
  have from_one: "(orch_step demo_env (\<lambda>_. None) [])\<^sup>*\<^sup>* c1 c2" using two by simp
  have "case prepare_run demo_env 30 (dr_run r) (cf_site c2) of
      Inl e \<Rightarrow> e = CrossTenant | Inr (out, s') \<Rightarrow> out = SkippedRun ''stale_claim'' \<and> s' = cf_site c2"
    using reverted_claim_never_runs [OF from_one ok, of "''k1''" "dr_run r" 30] d h(3)
    by (simp add: c1_def)
  moreover have "dr_run r \<in> set (cf_inbox c2)" by (simp add: c2_def)
  ultimately show ?thesis using steps d by blast
qed


end
