(* ===== verification/TextLines.thy ===== *)
theory TextLines
  imports GuardActions JsonText
begin

text \<open>
  Texts made of lines: \<^verbatim>\<open>text.split("\n")\<close> and its inverse \<^verbatim>\<open>"\n".join\<close>, what a cut at
  either end does to the lines, and how a phrase can occur in a text assembled from
  pieces. The blocks the platform writes into a prompt are reasoned about with these.
\<close>

section \<open>Lines\<close>

definition newline :: char where "newline = CHR 0x0A"

fun lines_of :: "string \<Rightarrow> string list" where
  "lines_of [] = [[]]"
| "lines_of (c # s) =
     (if c = newline then [] # lines_of s else (c # hd (lines_of s)) # tl (lines_of s))"

definition unlines :: "string list \<Rightarrow> string" where
  "unlines ls = join [newline] ls"

lemma lines_of_not_Nil [simp]: "lines_of s \<noteq> []"
  by (cases s) auto

lemma lines_of_one: "newline \<notin> set s \<Longrightarrow> lines_of s = [s]"
  by (induction s) auto

lemma lines_of_append:
  "lines_of (a @ newline # b) = lines_of a @ lines_of b"
  by (induction a) auto

lemma unlines_simps [simp]:
  "unlines [] = []"
  "unlines [l] = l"
  "unlines (l # m # ls) = l @ newline # unlines (m # ls)"
  by (simp_all add: unlines_def)

lemma unlines_Cons: "ls \<noteq> [] \<Longrightarrow> unlines (l # ls) = l @ newline # unlines ls"
  by (cases ls) simp_all

lemma unlines_append:
  "ls \<noteq> [] \<Longrightarrow> ms \<noteq> [] \<Longrightarrow> unlines (ls @ ms) = unlines ls @ newline # unlines ms"
  by (induction ls rule: induct_list012) (simp_all add: unlines_Cons)

lemma lines_of_unlines: "ls \<noteq> [] \<Longrightarrow> lines_of (unlines ls) = concat (map lines_of ls)"
  by (induction ls rule: induct_list012) (simp_all add: lines_of_append)

lemma unlines_lines_of [simp]: "unlines (lines_of s) = s"
proof (induction s)
  case (Cons c s)
  obtain l ls where ls: "lines_of s = l # ls" by (cases "lines_of s") auto
  then show ?case using Cons by (cases ls) auto
qed simp

lemma lines_have_no_newline: "l \<in> set (lines_of s) \<Longrightarrow> newline \<notin> set l"
proof (induction s arbitrary: l)
  case (Cons c s)
  obtain k ks where "lines_of s = k # ks" by (cases "lines_of s") auto
  then show ?case using Cons by (auto split: if_splits)
qed simp

lemma length_unlines:
  "ls \<noteq> [] \<Longrightarrow> length (unlines ls) + 1 = (\<Sum>l\<leftarrow>ls. length l + 1)"
  by (induction ls rule: induct_list012) simp_all

text \<open>The lines of two texts put together: the last of one and the first of the other meet.\<close>

lemma lines_of_concat:
  "lines_of (a @ b) =
     butlast (lines_of a) @ (last (lines_of a) @ hd (lines_of b)) # tl (lines_of b)"
proof (induction a)
  case (Cons c a)
  obtain l ls where "lines_of a = l # ls" by (cases "lines_of a") auto
  then show ?case using Cons by (cases ls) auto
qed simp

text \<open>A cut at the end shortens the last line only; a cut at the front, the first one.\<close>

lemma lines_of_take:
  assumes "l \<in> set (lines_of (take n s))"
  shows "\<exists>k \<in> set (lines_of s). prefix l k"
proof -
  let ?ls = "lines_of (take n s)"
  have split: "lines_of s =
      butlast ?ls @ (last ?ls @ hd (lines_of (drop n s))) # tl (lines_of (drop n s))"
    using lines_of_concat [of "take n s" "drop n s"] by simp
  have "?ls = butlast ?ls @ [last ?ls]" by simp
  then have "set ?ls = set (butlast ?ls) \<union> {last ?ls}"
    by (metis list.set(1) list.set(2) set_append)
  then show ?thesis using assms split by fastforce
qed

lemma lines_of_drop: "set (tl (lines_of (drop n s))) \<subseteq> set (lines_of s)"
  using lines_of_concat [of "take n s" "drop n s"] by auto

section \<open>Phrases in assembled texts\<close>

text \<open>A phrase does not cross a character that it does not contain.\<close>

lemma sublist_around:
  assumes "c \<notin> set q" and "q \<noteq> []"
  shows "sublist q (a @ c # b) \<longleftrightarrow> sublist q a \<or> sublist q b"
proof
  assume "sublist q (a @ c # b)"
  then consider "sublist q a" | "sublist q (c # b)"
    | x y where "q = x @ y" "suffix x a" "prefix y (c # b)"
    by (auto simp: sublist_append)
  then show "sublist q a \<or> sublist q b"
  proof cases
    case 2
    then show ?thesis using assms by (auto simp: sublist_Cons_right prefix_Cons)
  next
    case 3
    then have "y = []" using assms(1) by (cases y) auto
    then show ?thesis using 3 by auto
  qed simp
next
  assume "sublist q a \<or> sublist q b"
  then show "sublist q (a @ c # b)"
    by (metis append_Cons append_Nil sublist_appendI sublist_order.order_trans
        sublist_append_leftI sublist_append_rightI)
qed

lemma not_sublist_char: "c \<in> set q \<Longrightarrow> c \<notin> set s \<Longrightarrow> \<not> sublist q s"
  using set_mono_sublist by blast

lemma sublist_unlines:
  assumes "newline \<notin> set q" and "q \<noteq> []"
  shows "sublist q (unlines ls) \<longleftrightarrow> (\<exists>l \<in> set ls. sublist q l)"
  using assms by (induction ls rule: induct_list012) (simp_all add: unlines_Cons sublist_around)

section \<open>Replacing a phrase by a mark\<close>

text \<open>
  A mark is clear of a phrase when no copy of the phrase can take part of it: one end of
  the mark does not occur in the phrase, and the corresponding end of the phrase does not
  occur in the mark.
\<close>

definition mark_clear :: "string \<Rightarrow> string \<Rightarrow> bool" where
  "mark_clear m q \<longleftrightarrow> m \<noteq> [] \<and> q \<noteq> [] \<and>
     ((hd m \<notin> set q \<and> hd q \<notin> set m) \<or> (last m \<notin> set q \<and> last q \<notin> set m))"

lemma sublist_clear:
  assumes "mark_clear m q" and "sublist q (m @ xs)"
  shows "sublist q xs"
proof -
  from assms(1) have ne: "q \<noteq> []" "m \<noteq> []" by (auto simp: mark_clear_def)
  from assms(2) consider "sublist q m" | "sublist q xs"
    | a b where "q = a @ b" "suffix a m" "prefix b xs"
    by (auto simp: sublist_append)
  then show ?thesis
  proof cases
    case 1
    then have "set q \<subseteq> set m" using set_mono_sublist by blast
    then have "hd q \<in> set m" "last q \<in> set m" using ne hd_in_set last_in_set by blast+
    then show ?thesis using assms(1) by (simp add: mark_clear_def)
  next
    case 3
    have "a = []"
    proof (rule ccontr)
      assume a: "a \<noteq> []"
      then have "last a = last m" "hd q = hd a" "set a \<subseteq> set m" "set a \<subseteq> set q"
        using 3 by (auto simp: suffix_def)
      moreover have "hd a \<in> set a" "last a \<in> set a" using a by auto
      ultimately show False using assms(1) by (auto simp: mark_clear_def)
    qed
    then show ?thesis using 3 by auto
  qed simp
qed

lemma replace_all_prefix_end:
  assumes "last rep \<notin> set z" and "z \<noteq> [] \<Longrightarrow> last z \<notin> set rep" and "rep \<noteq> []"
    and "prefix z (replace_all pat rep s)"
  shows "prefix z s"
  using assms
proof (induction pat rep s arbitrary: z rule: replace_all.induct)
  case (1 pat rep s)
  show ?case
  proof (cases "pat \<noteq> [] \<and> prefix pat s")
    case True
    then have "prefix z (rep @ replace_all pat rep (drop (length pat) s))"
      using 1(6) by (simp add: replace_all_hit)
    then consider "prefix z rep" | y where "z = rep @ y" by (auto simp: prefix_append)
    then have "z = []"
    proof cases
      case 1
      then have "z \<noteq> [] \<Longrightarrow> last z \<in> set rep" using set_mono_prefix by fastforce
      then show ?thesis using \<open>z \<noteq> [] \<Longrightarrow> last z \<notin> set rep\<close> by blast
    next
      case 2
      then show ?thesis using \<open>last rep \<notin> set z\<close> \<open>rep \<noteq> []\<close> by auto
    qed
    then show ?thesis by simp
  next
    case False
    show ?thesis
    proof (cases s)
      case (Cons c cs)
      then have step: "replace_all pat rep s = c # replace_all pat rep cs"
        using False by (simp add: replace_all_miss)
      show ?thesis
      proof (cases z)
        case Nil
        then show ?thesis by simp
      next
        case (Cons d y)
        then have y: "prefix y (replace_all pat rep cs)" "last rep \<notin> set y" "d = c"
          "y \<noteq> [] \<Longrightarrow> last y \<notin> set rep"
          using 1(3,4,6) step by auto
        have "\<not> (pat \<noteq> [] \<and> prefix pat s)" using False .
        then have "prefix y cs" using 1(2) [OF \<open>s = c # cs\<close> _ y(2,4) 1(5) y(1)] by simp
        then show ?thesis using Cons \<open>s = c # cs\<close> y(3) by simp
      qed
    qed (use 1(6) in simp)
  qed
qed

lemma replace_all_prefix_clear:
  assumes "mark_clear rep q" and "prefix q (replace_all pat rep s)"
  shows "prefix q s"
  using assms replace_all_prefix [of rep q pat s] replace_all_prefix_end [of rep q pat s]
  by (auto simp: mark_clear_def)

text \<open>No copy of the phrase appears that was not there, and none of the phrase replaced stays.\<close>

lemma replace_all_clear:
  assumes "mark_clear rep q" and "sublist q (replace_all pat rep s)"
  shows "sublist q s"
  by (rule replace_all_brings [OF _ _ assms(2)])
    (use assms(1) sublist_clear replace_all_prefix_clear in blast)+

lemma replace_all_removes:
  assumes "mark_clear rep pat"
  shows "\<not> sublist pat (replace_all pat rep s)"
proof (rule replace_all_leaves)
  show "pat \<noteq> []" using assms by (simp add: mark_clear_def)
qed (rule sublist_clear [OF assms], assumption, rule replace_all_prefix_clear [OF assms], assumption)

lemma set_replace_all: "set (replace_all pat rep s) \<subseteq> set rep \<union> set s"
proof (induction pat rep s rule: replace_all.induct)
  case (1 pat rep s)
  show ?case
  proof (cases s)
    case (Cons c cs)
    show ?thesis
    proof (cases "pat \<noteq> [] \<and> prefix pat s")
      case True
      then show ?thesis using 1(1) [OF Cons True] set_drop_subset [of "length pat" s]
        by (auto simp: replace_all_hit)
    next
      case False
      then show ?thesis using 1(2) [OF Cons False] Cons by (auto simp: replace_all_miss)
    qed
  qed simp
qed

section \<open>Numerals\<close>

lemma nat_str_rev_digit: "c \<in> set (nat_str_rev n) \<Longrightarrow> \<exists>d. d < (10 :: nat) \<and> c = char_of (48 + d)"
proof (induction n rule: nat_str_rev.induct)
  case (1 n)
  show ?case
  proof (cases "n < 10")
    case True
    then show ?thesis using 1(2) by (subst (asm) nat_str_rev.simps) auto
  next
    case False
    then have "c = char_of (48 + n mod 10) \<or> c \<in> set (nat_str_rev (n div 10))"
      using 1(2) by (subst (asm) nat_str_rev.simps) simp
    then show ?thesis using 1(1) False by (metis mod_less_divisor zero_less_numeral)
  qed
qed

lemma nat_str_digit: "c \<in> set (nat_str n) \<Longrightarrow> \<exists>d. d < (10 :: nat) \<and> c = char_of (48 + d)"
  using nat_str_rev_digit by (simp add: nat_str_def)

lemma nat_str_not_Nil [simp]: "nat_str n \<noteq> []"
  by (subst nat_str_def, subst nat_str_rev.simps) simp

lemma length_nat_str:
  assumes "n < 10 ^ k" and "0 < k"
  shows "length (nat_str n) \<le> k"
proof -
  have "length (nat_str_rev n) \<le> k" using assms
  proof (induction n arbitrary: k rule: nat_str_rev.induct)
    case (1 n)
    show ?case
    proof (cases "n < 10")
      case True
      then show ?thesis using 1(3) by (subst nat_str_rev.simps) simp
    next
      case False
      then have "k \<noteq> 1" using 1(2) by auto
      then obtain j where j: "k = Suc j" "0 < j" using 1(3) by (cases k) auto
      then have "n div 10 < 10 ^ j" using 1(2) by (simp add: less_mult_imp_div_less)
      then have "length (nat_str_rev (n div 10)) \<le> j" using 1(1) False j by blast
      then show ?thesis using False j by (subst nat_str_rev.simps) simp
    qed
  qed
  then show ?thesis by (simp add: nat_str_def)
qed

text \<open>A numeral has none of the characters that are not digits.\<close>

lemma not_in_nat_str:
  assumes "of_char c < (48 :: nat) \<or> 57 < (of_char c :: nat)"
  shows "c \<notin> set (nat_str n)"
proof
  assume "c \<in> set (nat_str n)"
  then obtain d :: nat where "d < 10" "c = char_of (48 + d)" using nat_str_digit by blast
  then show False using assms by (simp add: of_char_of)
qed

lemma not_in_int_str:
  assumes "of_char c < (45 :: nat) \<or> 57 < (of_char c :: nat)"
  shows "c \<notin> set (int_str i)"
  using assms not_in_nat_str [of c] by (auto simp: int_str_def)

lemma newline_not_in_numerals [simp]: "newline \<notin> set (nat_str n)" "newline \<notin> set (int_str i)"
  by (simp_all add: not_in_nat_str not_in_int_str newline_def)

lemma int_str_not_Nil [simp]: "int_str i \<noteq> []"
  by (simp add: int_str_def)

end
