(* ===== verification/TestReport.thy ===== *)
theory TestReport
  imports TextLines
begin

text \<open>
  What a reviewer is told about the tests of a task
  (\<^verbatim>\<open>apps/orchestrator/src/orchestrator/dispatch.py\<close>): the outputs of the implementer's
  attempts, the line that says how many tests ran, the lines that say whether each
  criterion's declared signal held, and the report block assembled from the outcomes of
  the test runtime.

  Characters are bytes in this development; the em dash the source writes is a character
  of its own, as the ellipsis of \<^verbatim>\<open>PyValue\<close> is, so that a text has the length Python gives it.
\<close>

definition em_dash :: char where "em_dash = CHR 0x97"

section \<open>The outputs of earlier attempts\<close>

definition review_prior_output_tail :: nat where
  "review_prior_output_tail = 4000"

fun prior_blocks :: "nat \<Rightarrow> nat \<Rightarrow> string list \<Rightarrow> string list" where
  "prior_blocks n_all i [] = []"
| "prior_blocks n_all i (out # outs) =
     (let label = ''[attempt '' @ nat_str (n_all - i)
            @ (if i = 0 then '' '' @ [em_dash] @ '' latest]'' else '' '' @ [em_dash] @ '' earlier]'');
          kept = (if i = 0 then out else last_chars review_prior_output_tail out)
      in (label @ [newline] @ kept) # prior_blocks n_all (i + 1) outs)"

definition format_prior_outputs :: "string list \<Rightarrow> string" where
  "format_prior_outputs outputs =
     (let non_empty = filter (\<lambda>out. strip out \<noteq> []) outputs
      in case non_empty of
           [] \<Rightarrow> []
         | [out] \<Rightarrow> out
         | _ \<Rightarrow> join [newline, newline] (prior_blocks (length non_empty) 0 non_empty))"

section \<open>The signal a criterion declared\<close>

definition signal_line_prefix :: string where "signal_line_prefix = ''  signal: ''"
definition signal_met_marker :: string where "signal_met_marker = ''declared signal HOLDS''"
definition signal_unmet_marker :: string where "signal_unmet_marker = ''declared signal NOT met''"
definition signal_unevaluated_marker :: string where
  "signal_unevaluated_marker = ''declared signal could not be evaluated''"

definition signal_id_max_len :: nat where "signal_id_max_len = 120"

text \<open>
  The pattern of the default signal, \<^verbatim>\<open>^exit_?code\s*==\s*0$\<close> without regard to case. It is
  matched against a text whose white space is collapsed.
\<close>

definition after :: "string \<Rightarrow> string \<Rightarrow> string option" where
  "after p s = (if prefix p s then Some (drop (length p) s) else None)"

definition is_default_signal :: "string \<Rightarrow> bool" where
  "is_default_signal s =
     (case after ''exit'' (lower s) of
        None \<Rightarrow> False
      | Some r \<Rightarrow>
          (case after ''code'' (if prefix ''_'' r then tl r else r) of
             None \<Rightarrow> False
           | Some u \<Rightarrow>
               (case after ''=='' (dropWhile is_space u) of
                  None \<Rightarrow> False
                | Some v \<Rightarrow> dropWhile is_space v = ''0'')))"

definition signal_adds_nothing :: "pyval \<Rightarrow> bool" where
  "signal_adds_nothing raw =
     (let words = collapse (if truthy raw then py_str raw else [])
      in words = [] \<or> is_default_signal words)"

definition signal_met_text :: string where
  "signal_met_text = signal_met_marker @ '': measured, not guessed.''"

definition signal_unmet_text :: string where
  "signal_unmet_text = signal_unmet_marker
     @ '': the condition the criterion itself ''
     @ ''declared did not hold, so this check is NOT evidence that the ''
     @ ''criterion is met.''"

definition signal_unevaluated_text :: string where
  "signal_unevaluated_text = signal_unevaluated_marker
     @ '': either the expression is not ''
     @ ''one the platform knows how to check, or it needed a test count ''
     @ ''that could not be measured. UNKNOWN is not a failure: do NOT read ''
     @ ''it as the criterion having failed.''"

definition signal_head :: "pydict \<Rightarrow> string \<Rightarrow> string" where
  "signal_head entry expected =
     (let given = dget entry ''check_id'';
          check_id = take signal_id_max_len
            (collapse (if truthy given then py_str given else ''?''))
      in signal_line_prefix @ check_id @ '' declared `'' @ collapse expected
           @ ''` '' @ [em_dash] @ '' '')"

text \<open>The body of the loop over the entries: a line, or the \<^verbatim>\<open>continue\<close> of the source.\<close>

definition format_signal_entry :: "pyval \<Rightarrow> string option" where
  "format_signal_entry v =
     (case v of
        PDict entry \<Rightarrow>
          (case dget entry ''expected_signal'' of
             PStr expected \<Rightarrow>
               (if signal_adds_nothing (PStr expected) then None
                else case map_of entry ''satisfied'' of
                       Some PNone \<Rightarrow> Some (signal_head entry expected @ signal_unevaluated_text)
                     | Some (PBool True) \<Rightarrow> Some (signal_head entry expected @ signal_met_text)
                     | Some (PBool False) \<Rightarrow> Some (signal_head entry expected @ signal_unmet_text)
                     | _ \<Rightarrow> None)
           | _ \<Rightarrow> None)
      | _ \<Rightarrow> None)"

definition format_signal_lines :: "pyval \<Rightarrow> string list" where
  "format_signal_lines raw =
     (case raw of PList entries \<Rightarrow> List.map_filter format_signal_entry entries | _ \<Rightarrow> [])"

section \<open>How many tests ran\<close>

definition executable_criterion :: "pyval \<Rightarrow> bool" where
  "executable_criterion c =
     (case c of PDict d \<Rightarrow> truthy (dget d ''runtime'') \<and> truthy (dget d ''command'') | _ \<Rightarrow> False)"

definition count_executable_criteria :: "pyval list \<Rightarrow> nat" where
  "count_executable_criteria criteria = length (filter executable_criterion criteria)"

definition measured_counts :: "pyval \<Rightarrow> pydict option" where
  "measured_counts raw =
     (case raw of
        PDict d \<Rightarrow>
          (case dget d ''total'' of PInt n \<Rightarrow> (if n < 0 then None else Some d) | _ \<Rightarrow> None)
      | _ \<Rightarrow> None)"

definition counts_bucket :: "pydict \<Rightarrow> string \<Rightarrow> int" where
  "counts_bucket counts key =
     (case dget counts key of PInt n \<Rightarrow> (if n < 0 then 0 else n) | _ \<Rightarrow> 0)"

definition zero_tests_marker :: string where "zero_tests_marker = ''ZERO tests''"
definition unmeasured_tests_marker :: string where
  "unmeasured_tests_marker = ''could not determine how many tests ran''"
definition tests_line_prefix :: string where "tests_line_prefix = ''  tests: ''"

definition unmeasured_line :: string where
  "unmeasured_line = tests_line_prefix @ unmeasured_tests_marker @ '' '' @ [em_dash]
     @ '' the runtime output ''
     @ ''could not be parsed. UNKNOWN is not zero: do NOT read it as a ''
     @ ''measurement of zero.''"

definition zero_line :: "string \<Rightarrow> bool \<Rightarrow> string" where
  "zero_line origin passed =
     tests_line_prefix @ zero_tests_marker @ '' ran (counted from '' @ origin @ '') '' @ [em_dash]
       @ '' measured, not guessed.''
     @ (if passed
        then '' The command exited 0 WITHOUT executing a single test, so this run is ''
          @ ''NOT evidence that the code works.''
        else [])"

definition bucket_parts :: "pydict \<Rightarrow> string list" where
  "bucket_parts counts =
     (case dget counts ''passed'' of
        PInt _ \<Rightarrow> [int_str (counts_bucket counts ''passed'') @ '' passed'']
      | _ \<Rightarrow> [])
     @ map (\<lambda>key. int_str (counts_bucket counts key) @ '' '' @ key)
         (filter (\<lambda>key. counts_bucket counts key \<noteq> 0) [''failed'', ''errored'', ''skipped''])"

text \<open>The outer option: a report from before the count was taken has no such key at all.\<close>

definition format_test_counts_line :: "pyval option \<Rightarrow> bool \<Rightarrow> string option" where
  "format_test_counts_line given passed =
     (case given of
        None \<Rightarrow> None
      | Some raw \<Rightarrow>
          (case measured_counts raw of
             None \<Rightarrow> Some unmeasured_line
           | Some counts \<Rightarrow>
               (let origin = (if truthy (dget counts ''source'') then py_str (dget counts ''source'')
                              else ''unknown'');
                    executed = (case dget counts ''total'' of PInt n \<Rightarrow> n | _ \<Rightarrow> 0)
                in if executed = 0 then Some (zero_line origin passed)
                   else Some (tests_line_prefix
                          @ join '', '' ((int_str executed @ '' executed'') # bucket_parts counts)
                          @ '' (counted from '' @ origin @ '')''))))"

section \<open>The report block\<close>

definition test_report_log_tail :: nat where "test_report_log_tail = 1500"
definition test_report_passed_log_tail :: nat where "test_report_passed_log_tail = 512"
definition no_test_results :: string where "no_test_results = ''NO TEST RESULTS''"
definition infra_failure_key :: string where "infra_failure_key = ''infrastructure_failure''"
definition test_counts_key :: string where "test_counts_key = ''test_counts''"
definition check_signals_key :: string where "check_signals_key = ''check_signals''"

definition report_open :: string where "report_open = ''<'' @ ''test-report>''"
definition report_close :: string where "report_close = ''</'' @ ''test-report>''"

definition absent_infrastructure :: string where
  "absent_infrastructure = no_test_results @ '' '' @ [em_dash]
     @ '' INFRASTRUCTURE. The test phase was launched for this ''
     @ ''task and brought back no outcome at all. The tests did NOT run: this is a ''
     @ ''platform failure, NOT a project without tests, and NOT evidence that the ''
     @ ''code is fine.''"

definition absent_not_started :: "nat \<Rightarrow> string" where
  "absent_not_started n = no_test_results @ '' '' @ [em_dash]
     @ '' this task carries '' @ nat_str n @ '' executable ''
     @ ''acceptance criteria, but there is no record that the test phase ever ''
     @ ''started: they did not run. Treat this as MISSING evidence, never as a pass.''"

definition absent_no_runtime :: string where
  "absent_no_runtime = no_test_results @ '' '' @ [em_dash]
     @ '' the project declares no test runtime template, so ''
     @ ''there was nothing to execute. No automated test evidence exists for this ''
     @ ''change.''"

definition absent_not_executable :: string where
  "absent_not_executable = no_test_results @ '' '' @ [em_dash]
     @ '' the task's acceptance criteria are not executable by ''
     @ ''the test runtime (an executable criterion needs BOTH `runtime` and ''
     @ ''`command`), so nothing was launched. No automated test evidence exists for ''
     @ ''this change.''"

definition format_absent_test_report_block :: "bool \<Rightarrow> nat \<Rightarrow> bool \<Rightarrow> string" where
  "format_absent_test_report_block declares_runtime executable launched =
     report_open @ [newline]
     @ (if launched then absent_infrastructure
        else if 0 < executable then absent_not_started executable
        else if \<not> declares_runtime then absent_no_runtime
        else absent_not_executable)
     @ [newline] @ report_close"

definition infra_header :: "string \<Rightarrow> string \<Rightarrow> string" where
  "infra_header runtime stage =
     ''- runtime '' @ runtime @ '': INFRASTRUCTURE FAILURE ('' @ stage @ '') '' @ [em_dash]
     @ '' the ''
     @ ''tests did NOT run. This is a platform failure, not evidence about ''
     @ ''the code under review.''"

definition outcome_header :: "string \<Rightarrow> bool \<Rightarrow> pyval \<Rightarrow> bool \<Rightarrow> string" where
  "outcome_header runtime passed exit_codes timed_out =
     ''- runtime '' @ runtime @ '': '' @ (if passed then ''PASSED'' else ''FAILED'')
     @ '' (exit_codes='' @ py_str exit_codes
     @ (if timed_out then '', timed_out=true'' else []) @ '')''"

definition outcome_logs :: "string \<Rightarrow> bool \<Rightarrow> string list" where
  "outcome_logs logs_tail passed =
     (if logs_tail = [] then []
      else [''  logs (tail):'', ''  ```'',
            last_chars (if passed then test_report_passed_log_tail else test_report_log_tail) logs_tail,
            ''  ```''])"

text \<open>\<^verbatim>\<open>str(o.get(key) or "")\<close>.\<close>

definition text_or_empty :: "pyval \<Rightarrow> string" where
  "text_or_empty v = (if truthy v then py_str v else [])"

text \<open>The body of the loop over the outcomes.\<close>

definition outcome_lines :: "pydict \<Rightarrow> string list" where
  "outcome_lines o' =
     (let runtime = py_str (dget_default o' ''runtime'' (PStr ''unknown''));
          passed = truthy (dget_default o' ''all_passed'' (PBool False));
          timed_out = truthy (dget_default o' ''timed_out'' (PBool False));
          infra_stage = text_or_empty (dget o' infra_failure_key)
      in (if infra_stage \<noteq> [] then [infra_header runtime infra_stage]
          else [outcome_header runtime passed (dget o' ''exit_codes'') timed_out]
            @ (case format_test_counts_line (map_of o' test_counts_key) passed of
                 None \<Rightarrow> [] | Some line \<Rightarrow> [line])
            @ format_signal_lines (dget o' check_signals_key))
         @ outcome_logs (text_or_empty (dget o' ''logs_tail'')) passed)"

definition format_test_report_block :: "pydict list \<Rightarrow> bool \<Rightarrow> nat \<Rightarrow> bool \<Rightarrow> string" where
  "format_test_report_block outcomes declares_runtime executable launched =
     (if outcomes = [] then format_absent_test_report_block declares_runtime executable launched
      else unlines ([report_open] @ concat (map outcome_lines outcomes) @ [report_close]))"

text \<open>The acceptance criteria of the task, or its description when it has none.\<close>

definition criterion_text :: "pyval \<Rightarrow> string" where
  "criterion_text c =
     (case c of
        PDict d \<Rightarrow>
          (let given = filter (\<lambda>key. truthy (dget d key))
                         [''description'', ''text'', ''criterion'', ''title'']
           in strip (if given = [] then [] else py_str (dget d (hd given))))
      | _ \<Rightarrow> strip (py_str c))"

definition render_acceptance_criteria :: "pyval list \<Rightarrow> string \<Rightarrow> string" where
  "render_acceptance_criteria criteria description =
     (let lines = map (\<lambda>t. ''- '' @ t) (filter (\<lambda>t. t \<noteq> []) (map criterion_text criteria))
      in if lines \<noteq> [] then unlines lines else description)"

section \<open>Lemmas\<close>

lemma measured_counts_iff:
  "measured_counts raw = Some d \<longleftrightarrow> raw = PDict d \<and> (\<exists>n \<ge> 0. dget d ''total'' = PInt n)"
  by (auto simp: measured_counts_def split: pyval.splits if_splits)

lemma int_str_first_digit:
  assumes "0 \<le> i"
  shows "\<exists>d. d < (10 :: nat) \<and> hd (int_str i) = char_of (48 + d)"
  using assms nat_str_digit [of "hd (nat_str (nat i))" "nat i"] by (simp add: int_str_def)

lemma int_str_starts_otherwise:
  assumes "0 \<le> i" and "57 < (of_char c :: nat)"
  shows "\<not> prefix (c # u) (int_str i @ v)"
proof -
  obtain d where d: "d < (10 :: nat)" "hd (int_str i) = char_of (48 + d)"
    using int_str_first_digit [OF assms(1)] by blast
  then have "hd (int_str i) \<noteq> c" using assms(2) by (auto simp: of_char_of)
  then show ?thesis by (cases "int_str i") auto
qed

text \<open>The shape of the line in each of the three cases.\<close>

lemma counts_line_cases:
  "format_test_counts_line (Some raw) passed =
     (case measured_counts raw of
        None \<Rightarrow> Some unmeasured_line
      | Some d \<Rightarrow>
          (let origin = (if truthy (dget d ''source'') then py_str (dget d ''source'') else ''unknown'');
               n = (case dget d ''total'' of PInt n \<Rightarrow> n | _ \<Rightarrow> 0)
           in if n = 0 then Some (zero_line origin passed)
              else Some (tests_line_prefix @ int_str n @ '' executed''
                     @ concat (map (\<lambda>p. '', '' @ p) (bucket_parts d))
                     @ '' (counted from '' @ origin @ '')'')))"
proof -
  have "join sep (x # xs) = x @ concat (map (\<lambda>p. sep @ p) xs)" for sep x xs
    by (induction xs arbitrary: x) auto
  moreover have "((@) '', '') = (\<lambda>p. CHR '','' # CHR '' '' # p)" by (simp add: fun_eq_iff)
  ultimately show ?thesis by (simp add: format_test_counts_line_def Let_def split: option.split)
qed

section \<open>What the count line says\<close>

text \<open>
  An unknown number of tests is never told as zero. When the outcome carries the count
  key, there is exactly one line; it says that zero tests ran if and only if the value is a
  dictionary whose total is the integer zero; it says that the count could not be determined
  if and only if the value is not a dictionary with a total that is a non-negative integer
  (a missing total, a negative number, a boolean, a text); in every other case it says the
  total. Without the key there is no line.
\<close>

theorem unknown_count_never_zero:
  "format_test_counts_line None passed = None \<and>
   (\<exists>line. format_test_counts_line (Some raw) passed = Some line \<and>
      (prefix (tests_line_prefix @ zero_tests_marker) line
         \<longleftrightarrow> (\<exists>d. raw = PDict d \<and> dget d ''total'' = PInt 0)) \<and>
      (prefix (tests_line_prefix @ unmeasured_tests_marker) line
         \<longleftrightarrow> \<not> (\<exists>d n. raw = PDict d \<and> dget d ''total'' = PInt n \<and> 0 \<le> n)) \<and>
      {n. \<exists>d. raw = PDict d \<and> dget d ''total'' = PInt n \<and> 0 < n}
        \<subseteq> {n. prefix (tests_line_prefix @ int_str n @ '' executed'') line})"
proof (cases "measured_counts raw")
  case None
  then have "\<not> (\<exists>d n. raw = PDict d \<and> dget d ''total'' = PInt n \<and> 0 \<le> n)"
    using measured_counts_iff [of raw] by fastforce
  moreover from this have "\<not> (\<exists>d. raw = PDict d \<and> dget d ''total'' = PInt 0)"
    "\<not> (\<exists>d n. raw = PDict d \<and> dget d ''total'' = PInt n \<and> 0 < n)"
    by fastforce+
  moreover have "\<not> prefix (tests_line_prefix @ zero_tests_marker) unmeasured_line"
    "prefix (tests_line_prefix @ unmeasured_tests_marker) unmeasured_line"
    by (simp_all add: unmeasured_line_def zero_tests_marker_def unmeasured_tests_marker_def)
  ultimately show ?thesis using None
    by (auto simp: counts_line_cases format_test_counts_line_def [of None])
next
  case (Some d)
  then obtain n where d: "raw = PDict d" "dget d ''total'' = PInt n" "0 \<le> n"
    using measured_counts_iff by blast
  show ?thesis
  proof (cases "n = 0")
    case True
    have "prefix (tests_line_prefix @ zero_tests_marker) (zero_line org passed)"
      "\<not> prefix (tests_line_prefix @ unmeasured_tests_marker) (zero_line org passed)" for org
      by (simp_all add: zero_line_def zero_tests_marker_def unmeasured_tests_marker_def)
    then show ?thesis using Some d True
      by (auto simp: Let_def counts_line_cases format_test_counts_line_def [of None])
  next
    case False
    then have "\<not> prefix zero_tests_marker (int_str n @ v)"
      "\<not> prefix unmeasured_tests_marker (int_str n @ v)" for v
      using d(3) int_str_starts_otherwise
      by (simp_all add: zero_tests_marker_def unmeasured_tests_marker_def)
    then show ?thesis using Some d False
      by (auto simp: Let_def counts_line_cases format_test_counts_line_def [of None])
  qed
qed

section \<open>What the signal lines say\<close>

text \<open>The three endings are not endings of one another.\<close>

lemma signal_texts_distinct:
  "\<not> suffix signal_unmet_text (u @ signal_met_text)"
  "\<not> suffix signal_unmet_text (u @ signal_unevaluated_text)"
proof -
  have "\<not> suffix signal_unmet_text (u @ v)"
    if "take 10 (rev v) \<noteq> take 10 (rev signal_unmet_text)" "10 \<le> length v" for v
  proof
    assume "suffix signal_unmet_text (u @ v)"
    then obtain w where "u @ v = w @ signal_unmet_text" by (auto simp: suffix_def)
    then have "rev v @ rev u = rev signal_unmet_text @ rev w"
      by (metis rev_append)
    then have "take 10 (rev v @ rev u) = take 10 (rev signal_unmet_text @ rev w)" by simp
    moreover have "10 \<le> length signal_unmet_text"
      by (simp add: signal_unmet_text_def signal_unmet_marker_def)
    ultimately show False using that by simp
  qed
  then show "\<not> suffix signal_unmet_text (u @ signal_met_text)"
    "\<not> suffix signal_unmet_text (u @ signal_unevaluated_text)"
    by (simp_all add: signal_met_text_def signal_met_marker_def signal_unmet_text_def
        signal_unmet_marker_def signal_unevaluated_text_def signal_unevaluated_marker_def)
qed

text \<open>An entry that declared something the header does not already say.\<close>

definition declares :: "pydict \<Rightarrow> string \<Rightarrow> bool" where
  "declares entry expected \<longleftrightarrow>
     dget entry ''expected_signal'' = PStr expected \<and> \<not> signal_adds_nothing (PStr expected)"

lemma format_signal_entry_iff:
  "format_signal_entry v = Some line \<longleftrightarrow>
     (\<exists>entry expected. v = PDict entry \<and> declares entry expected \<and>
        ((map_of entry ''satisfied'' = Some PNone
            \<and> line = signal_head entry expected @ signal_unevaluated_text) \<or>
         (map_of entry ''satisfied'' = Some (PBool True)
            \<and> line = signal_head entry expected @ signal_met_text) \<or>
         (map_of entry ''satisfied'' = Some (PBool False)
            \<and> line = signal_head entry expected @ signal_unmet_text)))"
  by (auto simp: format_signal_entry_def declares_def
      split: pyval.splits option.splits bool.splits if_splits)

lemma set_map_filter: "set (List.map_filter f xs) = {y. \<exists>x \<in> set xs. f x = Some y}"
  by (induction xs) (auto simp: List.map_filter_simps split: option.splits)

lemma format_signal_lines_iff:
  "line \<in> set (format_signal_lines (PList entries)) \<longleftrightarrow>
     (\<exists>v \<in> set entries. format_signal_entry v = Some line)"
  by (simp add: format_signal_lines_def set_map_filter)

text \<open>
  C#. A signal is reported as not met exactly for the criteria whose check was evaluated to
  false. The lines that end in the accusation are those of the entries that declare a
  signal of their own and carry \<^verbatim>\<open>satisfied = False\<close>; an entry whose value is null, absent or
  not a boolean never produces one.
\<close>

theorem unevaluated_signal_not_a_failure:
  "{line \<in> set (format_signal_lines (PList entries)). suffix signal_unmet_text line}
     = {signal_head entry expected @ signal_unmet_text | entry expected.
          PDict entry \<in> set entries \<and> declares entry expected
          \<and> map_of entry ''satisfied'' = Some (PBool False)}"
  (is "?L = ?R")
proof
  show "?L \<subseteq> ?R"
    using signal_texts_distinct by (auto simp: format_signal_lines_iff format_signal_entry_iff)
  show "?R \<subseteq> ?L"
    by (auto simp: format_signal_lines_iff format_signal_entry_iff suffix_def)
qed

section \<open>The block\<close>

text \<open>The four situations without an outcome are told apart by the text of the block.\<close>

lemma absent_blocks_differ:
  "absent_infrastructure \<noteq> absent_not_started n"
  "absent_infrastructure \<noteq> absent_no_runtime"
  "absent_infrastructure \<noteq> absent_not_executable"
  "absent_not_started n \<noteq> absent_no_runtime"
  "absent_not_started n \<noteq> absent_not_executable"
  "absent_no_runtime \<noteq> absent_not_executable"
  by (simp_all add: absent_infrastructure_def absent_not_started_def absent_no_runtime_def
      absent_not_executable_def)

lemma absent_report_says_why:
  "format_test_report_block [] declares_runtime executable launched
     = format_test_report_block [] True 0 True \<longleftrightarrow> launched"
  "\<not> launched \<Longrightarrow> format_test_report_block [] declares_runtime executable launched
     = format_test_report_block [] False 0 False \<longleftrightarrow> executable = 0 \<and> \<not> declares_runtime"
  using absent_blocks_differ absent_blocks_differ [THEN not_sym]
  by (auto simp: format_test_report_block_def format_absent_test_report_block_def)

text \<open>A platform failure is never told as a failure of the code: no status, no count.\<close>

lemma infra_failure_has_no_status:
  "text_or_empty (dget out infra_failure_key) = c # stage \<Longrightarrow>
   hd (outcome_lines out)
     = infra_header (py_str (dget_default out ''runtime'' (PStr ''unknown''))) (c # stage) \<and>
   set (tl (outcome_lines out))
     = set (outcome_logs (text_or_empty (dget out ''logs_tail''))
         (truthy (dget_default out ''all_passed'' (PBool False))))"
  by (simp add: outcome_lines_def Let_def)

text \<open>
  The logs enter the block as they are: a log that ends in the closing delimiter ends the
  block, and what follows reads as text of the platform.
\<close>

definition demo_log :: "string list" where
  "demo_log = [''ok'', report_close, ''- runtime php: PASSED'']"

definition demo_outcome :: pydict where
  "demo_outcome =
     [(''runtime'', PStr ''php''), (''all_passed'', PBool True), (''exit_codes'', PList [PInt 0]),
      (''logs_tail'', PStr (unlines demo_log))]"

lemma demo_outcome_lines:
  "outcome_lines demo_outcome =
     [''- runtime php: PASSED (exit_codes=[0])'', ''  logs (tail):'', ''  ```'', unlines demo_log, ''  ```'']"
proof -
  have "last_chars test_report_passed_log_tail (unlines demo_log) = unlines demo_log"
    by (simp add: last_chars_def test_report_passed_log_tail_def demo_log_def report_close_def)
  moreover have "unlines demo_log \<noteq> []" by (simp add: demo_log_def)
  moreover have "int_str 0 = ''0''" by code_simp
  ultimately show ?thesis
    by (simp add: outcome_lines_def demo_outcome_def Let_def format_test_counts_line_def
        format_signal_lines_def outcome_header_def outcome_logs_def text_or_empty_def py_str_def
        test_counts_key_def check_signals_key_def infra_failure_key_def)
qed

lemma logs_can_close_the_report:
  "length (filter (\<lambda>l. l = report_close)
     (lines_of (format_test_report_block [demo_outcome] True 1 True))) = 2"
proof -
  have "format_test_report_block [demo_outcome] True 1 True
      = unlines ([report_open] @ outcome_lines demo_outcome @ [report_close])"
    by (simp add: format_test_report_block_def)
  moreover have "lines_of (unlines demo_log) = demo_log"
    by (simp add: demo_log_def lines_of_unlines lines_of_one report_close_def newline_def
        del: unlines_simps lines_of.simps)
  ultimately show ?thesis
    by (simp add: demo_outcome_lines lines_of_unlines lines_of_one newline_def report_open_def
        report_close_def demo_log_def del: unlines_simps lines_of.simps)
qed

section \<open>Instances\<close>

lemma signal_examples:
  "format_signal_lines (PList [PDict [(''expected_signal'', PStr ''exit_code == 0''), (''satisfied'', PBool False)],
     PDict [(''expected_signal'', PStr ''tests > 0'')], PInt 3]) = []"
  "is_default_signal ''ExitCode  ==0''"
  "\<not> is_default_signal ''exit_code == 00''"
  by code_simp+

end
