(* ===== verification/ReviewContext.thy ===== *)
theory ReviewContext
  imports DispatchRun CommandsRun
begin

text \<open>
  What travels with a review (\<^verbatim>\<open>TaskDispatcher._build_review_request\<close> of
  \<^verbatim>\<open>apps/orchestrator/src/orchestrator/dispatch.py\<close>): the criteria of the task, the outputs
  of the implementer's last runs, the report of the tests and the commands of those runs.
  The rows these are read from and the rest of the development does not need, the events of
  the test runtime and the steps of a run as the column holds them, are a store of their own.
\<close>

section \<open>The rows\<close>

record test_event =
  tv_task :: string
  tv_tenant :: string
  tv_kind :: string
  tv_at :: instant
  tv_payload :: pydict

record review_store =
  rs_events :: "test_event list"
  rs_steps :: "nat \<Rightarrow> pyval"
  rs_criteria :: "string \<Rightarrow> pyval list"
  rs_description :: "string \<Rightarrow> string"
  rs_has_template :: "string \<Rightarrow> bool"

record review_context =
  rc_criteria :: string
  rc_output :: string
  rc_report :: string
  rc_commands :: string

definition review_prior_outputs :: nat where "review_prior_outputs = 3"
definition max_test_report_runtimes :: nat where "max_test_report_runtimes = 6"

section \<open>The reads\<close>

text \<open>The runs of the task that are not the reviewer's, newest first.\<close>

definition implementer_runs :: "site \<Rightarrow> engine_task \<Rightarrow> string \<Rightarrow> executions" where
  "implementer_runs s t reviewer =
     filter (not_the_reviewers_run s (Some reviewer)) (runs_of s (et_id t))"

definition implementer_outputs :: "site \<Rightarrow> engine_task \<Rightarrow> string \<Rightarrow> string list" where
  "implementer_outputs s t reviewer =
     map (\<lambda>e. case ex_output e of Some out \<Rightarrow> out | None \<Rightarrow> [])
       (take review_prior_outputs (implementer_runs s t reviewer))"

definition task_events :: "review_store \<Rightarrow> engine_task \<Rightarrow> string \<Rightarrow> test_event list" where
  "task_events store t kind =
     filter (\<lambda>v. tv_task v = et_id t \<and> tv_tenant v = et_tenant t \<and> tv_kind v = kind) (rs_events store)"

definition test_outcomes :: "review_store \<Rightarrow> engine_task \<Rightarrow> pydict list" where
  "test_outcomes store t =
     map tv_payload
       (take max_test_report_runtimes
          (sort_key (\<lambda>v. - int (tv_at v)) (task_events store t ''test_run_completed'')))"

definition tests_were_launched :: "review_store \<Rightarrow> engine_task \<Rightarrow> bool" where
  "tests_were_launched store t \<longleftrightarrow> task_events store t ''test_run_started'' \<noteq> []"

definition command_logs :: "site \<Rightarrow> review_store \<Rightarrow> engine_task \<Rightarrow> string \<Rightarrow> pyval list" where
  "command_logs s store t reviewer =
     map (\<lambda>e. rs_steps store (ex_id e)) (take commands_attempts (implementer_runs s t reviewer))"

section \<open>The context\<close>

definition test_report_of :: "review_store \<Rightarrow> engine_task \<Rightarrow> string" where
  "test_report_of store t =
     format_test_report_block (rev (test_outcomes store t)) (rs_has_template store (et_project t))
       (count_executable_criteria (rs_criteria store (et_id t))) (tests_were_launched store t)"

definition build_review_context ::
  "site \<Rightarrow> review_store \<Rightarrow> engine_task \<Rightarrow> string \<Rightarrow> (block_error, review_context) result" where
  "build_review_context s store t reviewer =
     bindr (commands_run_block (command_logs s store t reviewer)) (\<lambda>commands.
       Inr \<lparr>rc_criteria = render_acceptance_criteria (rs_criteria store (et_id t))
              (rs_description store (et_id t)),
            rc_output = format_prior_outputs (implementer_outputs s t reviewer),
            rc_report = test_report_of store t,
            rc_commands = commands\<rparr>)"

text \<open>The review a task in review is sent to, with its context.\<close>

definition review_message ::
  "pydict \<Rightarrow> string \<Rightarrow> string \<Rightarrow> site \<Rightarrow> review_store
     \<Rightarrow> (run_request \<times> (block_error, review_context) result) option" where
  "review_message platform i tenant s store =
     (case (on_task_in_review platform i tenant s, site_task s i) of
        (Some rq, Some t) \<Rightarrow>
          (case rq_agent rq of
             Some reviewer \<Rightarrow> Some (rq, build_review_context s store t reviewer)
           | None \<Rightarrow> None)
      | _ \<Rightarrow> None)"

section \<open>The reviewer does not judge itself\<close>

text \<open>The runs of the reviewer, rewritten: other outputs, other steps.\<close>

definition is_run_of :: "site \<Rightarrow> string \<Rightarrow> nat \<Rightarrow> bool" where
  "is_run_of s agent n \<longleftrightarrow> rm_agent (si_runs s n) = Some agent"

definition rewrite_outputs :: "string \<Rightarrow> (nat \<Rightarrow> string option) \<Rightarrow> site \<Rightarrow> site" where
  "rewrite_outputs agent out s =
     s\<lparr>si_engine := (si_engine s)\<lparr>en_execs :=
        map (\<lambda>e. if is_run_of s agent (ex_id e) then e\<lparr>ex_output := out (ex_id e)\<rparr> else e) (site_runs s)\<rparr>\<rparr>"

definition rewrite_steps :: "site \<Rightarrow> string \<Rightarrow> (nat \<Rightarrow> pyval) \<Rightarrow> review_store \<Rightarrow> review_store" where
  "rewrite_steps s agent steps store =
     store\<lparr>rs_steps := \<lambda>n. if is_run_of s agent n then steps n else rs_steps store n\<rparr>"

lemma sort_key_Nil: "sort_key k xs = [] \<longleftrightarrow> xs = []"
  by (metis set_empty set_sort)

lemma insort_key_map:
  "(\<And>x. k (f x) = k x) \<Longrightarrow> insort_key k (f x) (map f xs) = map f (insort_key k x xs)"
  by (induction xs) auto

lemma sort_key_map:
  "(\<And>x. k (f x) = k x) \<Longrightarrow> sort_key k (map f xs) = map f (sort_key k xs)"
  by (induction xs) (simp_all add: insort_key_map)

lemma map_unchanged: "(\<And>x. x \<in> set xs \<Longrightarrow> f x = x) \<Longrightarrow> map f xs = xs"
  by (induction xs) auto

lemma implementer_runs_rewritten:
  "implementer_runs (rewrite_outputs reviewer out s) t reviewer = implementer_runs s t reviewer"
proof -
  let ?s = "rewrite_outputs reviewer out s"
  let ?f = "\<lambda>e. if is_run_of s reviewer (ex_id e) then e\<lparr>ex_output := out (ex_id e)\<rparr> else e"
  have runs: "si_runs ?s = si_runs s" "site_runs ?s = map ?f (site_runs s)"
    by (simp_all add: rewrite_outputs_def site_runs_def)
  have "filter (\<lambda>e. ex_task e = et_id t) (map ?f (site_runs s))
      = map ?f (filter (\<lambda>e. ex_task e = et_id t) (site_runs s))"
    by (simp add: filter_map comp_def if_distrib cong: if_cong)
  then have "runs_of ?s (et_id t) = map ?f (runs_of s (et_id t))"
    unfolding runs_of_def runs by (simp add: sort_key_map)
  moreover have "not_the_reviewers_run ?s (Some reviewer) (?f e) = not_the_reviewers_run s (Some reviewer) e" for e
    by (simp add: not_the_reviewers_run_def runs)
  ultimately have "implementer_runs ?s t reviewer = map ?f (implementer_runs s t reviewer)"
    by (simp add: implementer_runs_def filter_map comp_def)
  also have "\<dots> = implementer_runs s t reviewer"
    by (rule map_unchanged) (auto simp: implementer_runs_def not_the_reviewers_run_def is_run_of_def)
  finally show ?thesis .
qed

text \<open>
  C13. A reviewer judges the implementer's work and never its own. Whatever the reviewer's
  earlier runs of the task answered and did, with their outputs and their steps replaced by
  anything, the context of the next review is the same.
\<close>

theorem reviewer_never_judges_itself:
  "build_review_context (rewrite_outputs reviewer out s) (rewrite_steps s reviewer steps store) t reviewer
     = build_review_context s store t reviewer"
proof -
  let ?store = "rewrite_steps s reviewer steps store"
  have steps: "map (\<lambda>e. rs_steps (rewrite_steps s reviewer steps store) (ex_id e))
        (take commands_attempts (implementer_runs s t reviewer))
      = map (\<lambda>e. rs_steps store (ex_id e)) (take commands_attempts (implementer_runs s t reviewer))"
    using set_take_subset [of commands_attempts "implementer_runs s t reviewer"]
    by (fastforce simp: rewrite_steps_def implementer_runs_def not_the_reviewers_run_def is_run_of_def)
  have store: "rs_events ?store = rs_events store" "rs_criteria ?store = rs_criteria store"
    "rs_description ?store = rs_description store" "rs_has_template ?store = rs_has_template store"
    by (simp_all add: rewrite_steps_def)
  have "test_report_of ?store t = test_report_of store t"
    by (simp add: test_report_of_def test_outcomes_def tests_were_launched_def task_events_def store)
  moreover have "command_logs (rewrite_outputs reviewer out s) ?store t reviewer
      = command_logs s store t reviewer"
    unfolding command_logs_def implementer_runs_rewritten by (rule steps)
  ultimately show ?thesis
    by (simp add: build_review_context_def implementer_outputs_def implementer_runs_rewritten store)
qed

section \<open>The report of the review\<close>

lemma report_starts: "\<exists>body. format_test_report_block outs a n b = report_open @ newline # body"
proof (cases outs)
  case (Cons o' outs')
  then have "concat (map outcome_lines outs) @ [report_close] \<noteq> []" by simp
  then show ?thesis using Cons
    by (auto simp: format_test_report_block_def unlines_Cons)
qed (simp add: format_test_report_block_def format_absent_test_report_block_def)

text \<open>
  The report of the tests is always there, and without any outcome it says whether the
  tests were launched: the text of a lost launch is the one of a task with a start and no
  outcome, and of no other.
\<close>

theorem report_tells_lost_launch:
  "(\<exists>body. test_report_of store t = report_open @ newline # body) \<and>
   (task_events store t ''test_run_completed'' = [] \<longrightarrow>
      (test_report_of store t = report_open @ [newline] @ absent_infrastructure @ [newline] @ report_close
         \<longleftrightarrow> task_events store t ''test_run_started'' \<noteq> []))"
proof -
  have "test_report_of store t = report_open @ [newline] @ absent_infrastructure @ [newline] @ report_close
      \<longleftrightarrow> task_events store t ''test_run_started'' \<noteq> []"
    if "task_events store t ''test_run_completed'' = []"
  proof -
    have "test_outcomes store t = []" using that by (simp add: test_outcomes_def)
    then show ?thesis
      using absent_blocks_differ absent_blocks_differ [THEN not_sym]
      by (auto simp: test_report_of_def format_test_report_block_def
          format_absent_test_report_block_def tests_were_launched_def)
  qed
  then show ?thesis using report_starts unfolding test_report_of_def by blast
qed

text \<open>
  With an outcome of any earlier attempt, a later launch that brings nothing back leaves no
  trace in the report: the events of a start are read only when there is no outcome at all.
\<close>

lemma later_lost_launch_invisible:
  assumes "task_events store t ''test_run_completed'' \<noteq> []" and "tv_kind v = ''test_run_started''"
  shows "test_report_of (store\<lparr>rs_events := rs_events store @ [v]\<rparr>) t = test_report_of store t"
proof -
  let ?s = "store\<lparr>rs_events := rs_events store @ [v]\<rparr>"
  have "task_events ?s t ''test_run_completed'' = task_events store t ''test_run_completed''"
    using assms(2) by (simp add: task_events_def)
  then have "test_outcomes ?s t = test_outcomes store t" by (simp add: test_outcomes_def)
  moreover have "test_outcomes store t \<noteq> []"
    using assms(1) by (simp add: test_outcomes_def max_test_report_runtimes_def sort_key_Nil)
  ultimately show ?thesis by (simp add: test_report_of_def format_test_report_block_def)
qed

section \<open>Instances\<close>

definition demo_store :: review_store where
  "demo_store =
     \<lparr>rs_events = [\<lparr>tv_task = ''t'', tv_tenant = ''a'', tv_kind = ''test_run_started'', tv_at = 5, tv_payload = []\<rparr>],
      rs_steps = (\<lambda>n. PNone), rs_criteria = (\<lambda>i. [PStr ''it builds'']), rs_description = (\<lambda>i. []),
      rs_has_template = (\<lambda>p. True)\<rparr>"

lemma report_tells_lost_launch_witness:
  "test_report_of demo_store demo_task
     = report_open @ [newline] @ absent_infrastructure @ [newline] @ report_close"
  using report_tells_lost_launch [of demo_store demo_task]
  by (simp add: demo_store_def task_events_def demo_task_def)

end
