(* ===== verification/Calendar.thy ===== *)
theory Calendar
  imports Prelude
begin

text \<open>
  The dates of the language's \<^verbatim>\<open>datetime.date\<close>, as the components use them: year, month and
  day of the Gregorian calendar, their order, the day that is so many days later, the day of
  the week. The ordinal of a date numbers the days from the first of January of year one;
  what is proved of windows of dates is proved of ordinals. Dates after the year 9999, where
  the language raises, are not excluded.
\<close>

section \<open>Dates\<close>

datatype date = Date (yr: int) (mo: int) (dy: int)

definition leap :: "int \<Rightarrow> bool" where
  "leap y \<longleftrightarrow> 4 dvd y \<and> (\<not> 100 dvd y \<or> 400 dvd y)"

definition days_in_month :: "int \<Rightarrow> int \<Rightarrow> int" where
  "days_in_month y m =
     (if m = 2 then (if leap y then 29 else 28) else if m \<in> {4, 6, 9, 11} then 30 else 31)"

fun valid_date :: "date \<Rightarrow> bool" where
  "valid_date (Date y m d) \<longleftrightarrow> 1 \<le> y \<and> 1 \<le> m \<and> m \<le> 12 \<and> 1 \<le> d \<and> d \<le> days_in_month y m"

text \<open>Dates are compared by year, then month, then day.\<close>

instantiation date :: linorder
begin

definition less_date :: "date \<Rightarrow> date \<Rightarrow> bool" where
  "less_date a b \<longleftrightarrow> yr a < yr b \<or> (yr a = yr b \<and> (mo a < mo b \<or> (mo a = mo b \<and> dy a < dy b)))"

definition less_eq_date :: "date \<Rightarrow> date \<Rightarrow> bool" where
  "less_eq_date a b \<longleftrightarrow> yr a < yr b \<or> (yr a = yr b \<and> (mo a < mo b \<or> (mo a = mo b \<and> dy a \<le> dy b)))"

instance
proof
  fix a b c :: date
  show "a < b \<longleftrightarrow> a \<le> b \<and> \<not> b \<le> a" by (auto simp: less_date_def less_eq_date_def)
  show "a \<le> a" by (simp add: less_eq_date_def)
  show "a \<le> b \<Longrightarrow> b \<le> c \<Longrightarrow> a \<le> c" by (auto simp: less_eq_date_def)
  show "a \<le> b \<Longrightarrow> b \<le> a \<Longrightarrow> a = b"
    by (auto simp: less_eq_date_def intro: date.expand)
  show "a \<le> b \<or> b \<le> a" by (auto simp: less_eq_date_def)
qed

end

fun next_day :: "date \<Rightarrow> date" where
  "next_day (Date y m d) =
     (if d < days_in_month y m then Date y m (d + 1)
      else if m < 12 then Date y (m + 1) 1
      else Date (y + 1) 1 1)"

fun prev_day :: "date \<Rightarrow> date" where
  "prev_day (Date y m d) =
     (if 1 < d then Date y m (d - 1)
      else if 1 < m then Date y (m - 1) (days_in_month y (m - 1))
      else Date (y - 1) 12 31)"

text \<open>\<^verbatim>\<open>d + timedelta(days=n)\<close>.\<close>

definition add_days :: "int \<Rightarrow> date \<Rightarrow> date" where
  "add_days n d = (if 0 \<le> n then (next_day ^^ nat n) d else (prev_day ^^ nat (- n)) d)"

text \<open>\<^verbatim>\<open>d.toordinal()\<close> and \<^verbatim>\<open>d.weekday()\<close>: Monday is zero.\<close>

definition days_before_year :: "int \<Rightarrow> int" where
  "days_before_year y = 365 * (y - 1) + (y - 1) div 4 - (y - 1) div 100 + (y - 1) div 400"

definition days_before_month :: "int \<Rightarrow> int \<Rightarrow> int" where
  "days_before_month y m =
     (if m \<le> 1 then 0 else if m = 2 then 31 else if m = 3 then 59 else if m = 4 then 90
      else if m = 5 then 120 else if m = 6 then 151 else if m = 7 then 181 else if m = 8 then 212
      else if m = 9 then 243 else if m = 10 then 273 else if m = 11 then 304 else 334)
     + (if 2 < m \<and> leap y then 1 else 0)"

fun ordinal :: "date \<Rightarrow> int" where
  "ordinal (Date y m d) = days_before_year y + days_before_month y m + d"

definition weekday :: "date \<Rightarrow> int" where
  "weekday d = (ordinal d + 6) mod 7"

section \<open>Ordinals\<close>

lemma div_step:
  assumes "0 < (k :: int)"
  shows "y div k = (y - 1) div k + (if k dvd y then 1 else 0)"
proof -
  define q r where "q = (y - 1) div k" and "r = (y - 1) mod k"
  have r: "0 \<le> r" "r < k" using assms by (simp_all add: r_def)
  have y: "y = k * q + (r + 1)" unfolding q_def r_def using mult_div_mod_eq [of k "y - 1"] by simp
  show ?thesis
  proof (cases "r + 1 < k")
    case True
    have "y div k = q" by (rule int_div_pos_eq [OF y]) (use r True in simp_all)
    moreover have "y mod k = r + 1" by (rule int_mod_pos_eq [OF y]) (use r True in simp_all)
    ultimately show ?thesis using r by (simp add: q_def dvd_eq_mod_eq_0)
  next
    case False
    then have "y = k * (q + 1)" using y r by (simp add: algebra_simps)
    then have "k dvd y" "y div k = q + 1" using assms by simp_all
    then show ?thesis by (simp add: q_def)
  qed
qed

lemma year_step:
  fixes a a' b b' c c' :: int
  assumes "a' = a + (if p then 1 else 0)" and "b' = b + (if q then 1 else 0)"
    and "c' = c + (if r then 1 else 0)" and "r \<Longrightarrow> q" and "q \<Longrightarrow> p"
  shows "365 * y + a' - b' + c' = 365 * (y - 1) + a - b + c + (if p \<and> (\<not> q \<or> r) then 366 else 365)"
  using assms by (cases p; cases q; cases r) simp_all

lemma days_before_next_year: "days_before_year (y + 1) = days_before_year y + (if leap y then 366 else 365)"
proof -
  have "(100 :: int) dvd 400" "(4 :: int) dvd 100" by simp_all
  then have "400 dvd y \<Longrightarrow> 100 dvd y" "100 dvd y \<Longrightarrow> 4 dvd y" by (blast intro: dvd_trans)+
  then show ?thesis
    unfolding days_before_year_def leap_def add_diff_cancel_right'
    by (intro year_step div_step) (simp_all only: zero_less_numeral)
qed

lemma month_cases:
  assumes "1 \<le> m" and "m \<le> (12 :: int)"
  shows "m \<in> {1, 2, 3, 4, 5, 6, 7, 8, 9, 10, 11, 12}"
  using assms unfolding insert_iff empty_iff by presburger

lemma days_before_next_month:
  assumes "1 \<le> m" and "m < 12"
  shows "days_before_month y (m + 1) = days_before_month y m + days_in_month y m"
  using month_cases [of m] assms by (auto simp: days_before_month_def days_in_month_def)

lemma days_in_year:
  "days_before_month y 12 + days_in_month y 12 = (if leap y then 366 else 365)"
  by (simp add: days_before_month_def days_in_month_def)

lemma days_in_month_pos: "28 \<le> days_in_month y m" "days_in_month y m \<le> 31"
  by (auto simp: days_in_month_def)

lemma next_day_facts:
  assumes "valid_date d"
  shows "valid_date (next_day d)" and "ordinal (next_day d) = ordinal d + 1"
proof -
  obtain y m k where d: "d = Date y m k" by (cases d)
  have pos: "1 \<le> days_in_month a b" for a b using days_in_month_pos [of a b] by linarith
  show "valid_date (next_day d)" using assms d pos by auto
  show "ordinal (next_day d) = ordinal d + 1"
    using assms d days_before_next_month [of m y] days_before_next_year [of y] days_in_year [of y]
    by (cases "m = 12") (auto simp: days_before_month_def)
qed

lemma prev_next_day: "valid_date d \<Longrightarrow> prev_day (next_day d) = d"
  by (cases d) (auto simp: days_in_month_def)

lemma days_before_month_mono:
  assumes "m < m'" and "1 \<le> m" and "m' \<le> 12"
  shows "days_before_month y m + days_in_month y m \<le> days_before_month y m'"
proof -
  have "m + 1 \<le> m'" using assms(1) by simp
  then have "days_before_month y (m + 1) \<le> days_before_month y m'" using assms(3)
  proof (induction m' rule: int_ge_induct)
    case (step i)
    then have "days_before_month y (i + 1) = days_before_month y i + days_in_month y i"
      using assms(2) by (intro days_before_next_month) auto
    then show ?case using step days_in_month_pos(1) [of y i] by linarith
  qed simp
  then show ?thesis using assms days_before_next_month [of m y] by simp
qed

lemma days_before_year_mono:
  assumes "y < y'"
  shows "days_before_year y + (if leap y then 366 else 365) \<le> days_before_year y'"
proof -
  have "y + 1 \<le> y'" using assms by simp
  then have "days_before_year (y + 1) \<le> days_before_year y'"
  proof (induction y' rule: int_ge_induct)
    case (step i)
    then show ?case using days_before_next_year [of i] by (auto split: if_splits)
  qed simp
  then show ?thesis by (simp add: days_before_next_year)
qed

lemma days_before_month_bound:
  assumes "1 \<le> m" and "m \<le> 12"
  shows "0 \<le> days_before_month y m"
    and "days_before_month y m + days_in_month y m \<le> (if leap y then 366 else 365)"
  using month_cases [OF assms] by (auto simp: days_before_month_def days_in_month_def)

lemma ordinal_mono:
  assumes "valid_date a" and "valid_date b" and "a < b"
  shows "ordinal a < ordinal b"
proof -
  obtain y m d y' m' d' where ab: "a = Date y m d" "b = Date y' m' d'" by (cases a; cases b)
  consider "y < y'" | "y = y'" "m < m'" | "y = y'" "m = m'" "d < d'"
    using assms(3) ab by (auto simp: less_date_def)
  then show ?thesis
  proof cases
    case 1
    then show ?thesis
      using assms(1,2) ab days_before_year_mono [OF 1] days_before_month_bound [of m y]
        days_before_month_bound [of m' y'] by auto
  next
    case 2
    then show ?thesis using assms(1,2) ab days_before_month_mono [of m m' y] by auto
  next
    case 3
    then show ?thesis using ab by simp
  qed
qed

lemma ordinal_less: "valid_date a \<Longrightarrow> valid_date b \<Longrightarrow> a < b \<longleftrightarrow> ordinal a < ordinal b"
  using ordinal_mono [of a b] ordinal_mono [of b a] by (metis linorder_neqE order_less_asym)

lemma ordinal_le: "valid_date a \<Longrightarrow> valid_date b \<Longrightarrow> a \<le> b \<longleftrightarrow> ordinal a \<le> ordinal b"
  using ordinal_less [of b a] by (simp flip: not_less)

lemma ordinal_inj: "valid_date a \<Longrightarrow> valid_date b \<Longrightarrow> ordinal a = ordinal b \<Longrightarrow> a = b"
  using ordinal_le by (metis order_antisym order_refl)

lemma ordinal_pos:
  assumes "valid_date d"
  shows "1 \<le> ordinal d"
proof -
  have first: "valid_date (Date 1 1 1)" "ordinal (Date 1 1 1) = 1"
    by (simp_all add: days_before_year_def days_before_month_def days_in_month_def)
  have "Date 1 1 1 \<le> d" using assms by (cases d) (auto simp: less_eq_date_def)
  then show ?thesis using ordinal_le [OF first(1) assms] first(2) by simp
qed

section \<open>Moving by days\<close>

lemma next_days:
  assumes "valid_date d"
  shows "valid_date ((next_day ^^ n) d) \<and> ordinal ((next_day ^^ n) d) = ordinal d + int n"
  using assms by (induction n) (simp_all add: next_day_facts)

lemma prev_day_facts:
  assumes "valid_date d" and "1 < ordinal d"
  shows "valid_date (prev_day d)" and "ordinal (prev_day d) = ordinal d - 1"
proof -
  obtain y m k where d: "d = Date y m k" by (cases d)
  have "\<not> (y = 1 \<and> m = 1 \<and> k = 1)"
    using assms(2) d by (auto simp: days_before_year_def days_before_month_def)
  then have v: "valid_date (prev_day d)"
    using assms(1) d days_in_month_pos [of y "m - 1"] days_in_month_pos [of y m]
    by (auto simp: days_in_month_def)
  then show "valid_date (prev_day d)" .
  have "next_day (prev_day d) = d" using assms(1) d by (auto simp: days_in_month_def)
  then show "ordinal (prev_day d) = ordinal d - 1" using next_day_facts(2) [OF v] by simp
qed

lemma prev_days:
  assumes "valid_date d" and "int n < ordinal d"
  shows "valid_date ((prev_day ^^ n) d) \<and> ordinal ((prev_day ^^ n) d) = ordinal d - int n"
  using assms by (induction n) (auto simp: prev_day_facts)

lemma add_days_facts:
  assumes "valid_date d" and "1 \<le> ordinal d + n"
  shows "valid_date (add_days n d)" and "ordinal (add_days n d) = ordinal d + n"
  using next_days [OF assms(1), of "nat n"] prev_days [OF assms(1), of "nat (- n)"] assms(2)
  by (auto simp: add_days_def)

lemma weekday_bound: "0 \<le> weekday d" "weekday d < 7"
  by (simp_all add: weekday_def)

lemma week_start: "valid_date d \<Longrightarrow> 1 \<le> ordinal d - weekday d"
proof -
  assume "valid_date d"
  then have "1 \<le> ordinal d" by (rule ordinal_pos)
  moreover have "(ordinal d + 6) mod 7 = ordinal d + 6 - 7 * ((ordinal d + 6) div 7)"
    by (simp add: minus_div_mult_eq_mod [symmetric])
  ultimately show ?thesis by (simp add: weekday_def)
qed

text \<open>A known day: the first of January 2026 is a Thursday.\<close>

lemma calendar_example:
  "ordinal (Date 2026 1 1) = 739617" "weekday (Date 2026 1 1) = 3"
  "add_days 31 (Date 2024 1 30) = Date 2024 3 1" "add_days (- 1) (Date 2026 1 1) = Date 2025 12 31"
  by code_simp+

end
