(* ===== verification/BudgetPeriods.thy ===== *)
theory BudgetPeriods
  imports Calendar
begin

text \<open>
  The window of a budget that contains a date
  (\<^verbatim>\<open>apps/api-server/src/api_server/budgets/period.py\<close>): the calendar periods and the
  custom cycle, whose walk from its anchor is a loop.
\<close>

section \<open>Windows\<close>

datatype period_error = UnknownPeriod | CustomIncomplete | StartDayOutOfRange | LengthTooSmall

record window =
  w_start :: date
  w_end :: date

definition in_window :: "window \<Rightarrow> date \<Rightarrow> bool" where
  "in_window w day \<longleftrightarrow> w_start w \<le> day \<and> day < w_end w"

definition month_start :: "date \<Rightarrow> date" where
  "month_start d = Date (yr d) (mo d) 1"

definition add_months :: "date \<Rightarrow> int \<Rightarrow> date" where
  "add_months d months =
     (let base = month_start d;
          shifted = yr base * 12 + (mo base - 1) + months
      in Date (shifted div 12) (shifted mod 12 + 1) 1)"

definition clamp_day :: "int \<Rightarrow> int \<Rightarrow> int \<Rightarrow> date" where
  "clamp_day year month day = Date year month (min day (days_in_month year month))"

definition weekly_window :: "date \<Rightarrow> window" where
  "weekly_window on_date =
     (let start = add_days (- weekday on_date) on_date
      in \<lparr>w_start = start, w_end = add_days 7 start\<rparr>)"

definition monthly_window :: "date \<Rightarrow> window" where
  "monthly_window on_date =
     (let start = month_start on_date in \<lparr>w_start = start, w_end = add_months start 1\<rparr>)"

definition quarterly_window :: "date \<Rightarrow> window" where
  "quarterly_window on_date =
     (let quarter_month = ((mo on_date - 1) div 3) * 3 + 1;
          start = Date (yr on_date) quarter_month 1
      in \<lparr>w_start = start, w_end = add_months start 3\<rparr>)"

definition yearly_window :: "date \<Rightarrow> window" where
  "yearly_window on_date =
     \<lparr>w_start = Date (yr on_date) 1 1, w_end = Date (yr on_date + 1) 1 1\<rparr>"

definition custom_anchor :: "date \<Rightarrow> int \<Rightarrow> date" where
  "custom_anchor on_date start_day =
     (let anchor = clamp_day (yr on_date) (mo on_date) start_day
      in if on_date < anchor
         then let prev = add_months on_date (- 1) in clamp_day (yr prev) (mo prev) start_day
         else anchor)"

text \<open>
  The loop \<^verbatim>\<open>while start + span <= on_date: start = start + span\<close>, with as many rounds as
  there are days from the anchor to the date: no more can be needed, since a round is at
  least a day.
\<close>

fun custom_walk :: "nat \<Rightarrow> int \<Rightarrow> date \<Rightarrow> date \<Rightarrow> date" where
  "custom_walk 0 span on_date start = start"
| "custom_walk (Suc n) span on_date start =
     (if add_days span start \<le> on_date then custom_walk n span on_date (add_days span start) else start)"

definition custom_window :: "date \<Rightarrow> int option \<Rightarrow> int option \<Rightarrow> (period_error, window) result" where
  "custom_window on_date start_day length_days =
     (case (start_day, length_days) of
        (Some sd, Some len) \<Rightarrow>
          if \<not> (1 \<le> sd \<and> sd \<le> 31) then Inl StartDayOutOfRange
          else if len < 1 then Inl LengthTooSmall
          else let anchor = custom_anchor on_date sd;
                   start = custom_walk (nat (ordinal on_date - ordinal anchor)) len on_date anchor
               in Inr \<lparr>w_start = start, w_end = add_days len start\<rparr>
      | _ \<Rightarrow> Inl CustomIncomplete)"

definition current_budget_period ::
  "string \<Rightarrow> int option \<Rightarrow> int option \<Rightarrow> date \<Rightarrow> (period_error, window) result" where
  "current_budget_period period start_day length_days on_date =
     (if period = ''weekly'' then Inr (weekly_window on_date)
      else if period = ''monthly'' then Inr (monthly_window on_date)
      else if period = ''quarterly'' then Inr (quarterly_window on_date)
      else if period = ''yearly'' then Inr (yearly_window on_date)
      else if period = ''custom'' then custom_window on_date start_day length_days
      else Inl UnknownPeriod)"

definition calendar_periods :: "string set" where
  "calendar_periods = {''weekly'', ''monthly'', ''quarterly'', ''yearly''}"

section \<open>The calendar periods\<close>

lemma add_months_one: "add_months (Date y m 1) 1 = (if m = 12 then Date (y + 1) 1 1 else Date y (m + 1) 1)"
  if "1 \<le> m" "m \<le> 12"
proof (cases "m = 12")
  case True
  then have "(y * 12 + (m - 1) + 1) div 12 = y + 1" "(y * 12 + (m - 1) + 1) mod 12 = 0" by simp_all
  then show ?thesis using True by (simp add: add_months_def month_start_def Let_def)
next
  case False
  then have "(m + y * 12) div 12 = y" "(m + y * 12) mod 12 = m" using that by simp_all
  then show ?thesis using False by (simp add: add_months_def month_start_def Let_def add.commute)
qed

lemma weekly_facts:
  assumes "valid_date d"
  shows "valid_date (w_start (weekly_window d))" "valid_date (w_end (weekly_window d))"
    and "ordinal (w_start (weekly_window d)) = 7 * ((ordinal d + 6) div 7) - 6"
    and "ordinal (w_end (weekly_window d)) = 7 * ((ordinal d + 6) div 7) + 1"
proof -
  have pos: "1 \<le> ordinal d + (- weekday d)" using week_start [OF assms] by simp
  note start = add_days_facts [OF assms pos]
  have ord: "ordinal d + (- weekday d) = 7 * ((ordinal d + 6) div 7) - 6"
    unfolding weekday_def by (simp add: minus_div_mult_eq_mod [symmetric] mult.commute)
  note stop = add_days_facts [OF start(1), of 7]
  show "valid_date (w_start (weekly_window d))" using start by (simp add: weekly_window_def Let_def)
  show "ordinal (w_start (weekly_window d)) = 7 * ((ordinal d + 6) div 7) - 6"
    using start(2) ord by (simp add: weekly_window_def Let_def)
  show "valid_date (w_end (weekly_window d))" "ordinal (w_end (weekly_window d)) = 7 * ((ordinal d + 6) div 7) + 1"
    using start(2) stop pos ord by (simp_all add: weekly_window_def Let_def)
qed

lemma in_weekly:
  assumes "valid_date d" and "valid_date e"
  shows "in_window (weekly_window d) e \<longleftrightarrow> (ordinal e + 6) div 7 = (ordinal d + 6) div 7"
proof -
  have "in_window (weekly_window d) e
      \<longleftrightarrow> 7 * ((ordinal d + 6) div 7) - 6 \<le> ordinal e \<and> ordinal e < 7 * ((ordinal d + 6) div 7) + 1"
    using weekly_facts [OF assms(1)] assms(2) by (simp add: in_window_def ordinal_le ordinal_less)
  also have "\<dots> \<longleftrightarrow> (ordinal e + 6) div 7 = (ordinal d + 6) div 7" by presburger
  finally show ?thesis .
qed

lemma in_monthly:
  assumes "valid_date d" and "valid_date e"
  shows "in_window (monthly_window d) e \<longleftrightarrow> yr e = yr d \<and> mo e = mo d"
  using assms
  by (cases d; cases e)
    (auto simp: in_window_def monthly_window_def month_start_def Let_def add_months_one
      less_date_def less_eq_date_def)

lemma quarter_months:
  assumes "1 \<le> m" and "m \<le> (12 :: int)"
  shows "(m - 1) div 3 * 3 + 1 \<in> {1, 4, 7, 10}"
  using month_cases [OF assms] by auto

lemma add_months_quarter:
  assumes "q \<in> {1, 4, 7, 10}"
  shows "add_months (Date y q 1) 3 = (if q = 10 then Date (y + 1) 1 1 else Date y (q + 3) 1)"
  using assms by (auto simp: add_months_def month_start_def Let_def)

lemma div_three: "a * 3 + 1 \<le> m \<and> m < a * 3 + 1 + 3 \<longleftrightarrow> (m - 1) div 3 = (a :: int)"
  by presburger

lemma in_quarterly:
  assumes "valid_date d" and "valid_date e"
  shows "in_window (quarterly_window d) e
    \<longleftrightarrow> yr e = yr d \<and> (mo e - 1) div 3 = (mo d - 1) div 3"
proof -
  obtain y m k y' m' k' where de: "d = Date y m k" "e = Date y' m' k'" by (cases d; cases e)
  have m: "1 \<le> m" "m \<le> 12" "1 \<le> m'" "m' \<le> 12" "1 \<le> k'" using assms de by auto
  define q where "q = (m - 1) div 3 * 3 + 1"
  have q: "q \<in> {1, 4, 7, 10}" unfolding q_def by (rule quarter_months [OF m(1,2)])
  have "in_window (quarterly_window d) e \<longleftrightarrow> y' = y \<and> q \<le> m' \<and> m' < q + 3"
    using q m de add_months_quarter [OF q]
    by (auto simp: in_window_def quarterly_window_def q_def [symmetric] Let_def less_date_def less_eq_date_def)
  also have "\<dots> \<longleftrightarrow> y' = y \<and> (m' - 1) div 3 = (m - 1) div 3"
    unfolding q_def by (rule conj_cong [OF refl div_three])
  finally show ?thesis using de by simp
qed

lemma in_yearly:
  assumes "valid_date d" and "valid_date e"
  shows "in_window (yearly_window d) e \<longleftrightarrow> yr e = yr d"
  using assms by (cases d; cases e) (auto simp: in_window_def yearly_window_def less_date_def less_eq_date_def)

text \<open>A date is characterised by a key, and the window is the same for dates of one key.\<close>

lemma weekly_same:
  assumes "valid_date d" and "valid_date e" and "(ordinal e + 6) div 7 = (ordinal d + 6) div 7"
  shows "weekly_window e = weekly_window d"
  using weekly_facts [OF assms(1)] weekly_facts [OF assms(2)] assms(3)
  by (intro window.equality) (auto intro: ordinal_inj)

lemma current_window_facts:
  assumes "period \<in> calendar_periods" and "valid_date d" and "valid_date e"
    and "current_budget_period period sd len d = Inr w"
  shows "in_window w d" and "in_window w e \<Longrightarrow> current_budget_period period sd len e = Inr w"
proof -
  have same: "mo e = mo d \<Longrightarrow> yr e = yr d \<Longrightarrow> monthly_window e = monthly_window d"
    "(mo e - 1) div 3 = (mo d - 1) div 3 \<Longrightarrow> yr e = yr d \<Longrightarrow> quarterly_window e = quarterly_window d"
    "yr e = yr d \<Longrightarrow> yearly_window e = yearly_window d"
    by (simp_all add: monthly_window_def quarterly_window_def yearly_window_def month_start_def)
  consider (week) "period = ''weekly''" | (month) "period = ''monthly''"
    | (quarter) "period = ''quarterly''" | (year) "period = ''yearly''"
    using assms(1) by (auto simp: calendar_periods_def)
  then have "in_window w d \<and> (in_window w e \<longrightarrow> current_budget_period period sd len e = Inr w)"
  proof cases
    case week
    then show ?thesis using assms(4) in_weekly [OF assms(2,2)] in_weekly [OF assms(2,3)]
        weekly_same [OF assms(2,3)] by (simp add: current_budget_period_def)
  next
    case month
    then show ?thesis using assms(4) in_monthly [OF assms(2,2)] in_monthly [OF assms(2,3)] same(1)
      by (simp add: current_budget_period_def)
  next
    case quarter
    then show ?thesis using assms(4) in_quarterly [OF assms(2,2)] in_quarterly [OF assms(2,3)] same(2)
      by (simp add: current_budget_period_def)
  next
    case year
    then show ?thesis using assms(4) in_yearly [OF assms(2,2)] in_yearly [OF assms(2,3)] same(3)
      by (simp add: current_budget_period_def)
  qed
  then show "in_window w d" "in_window w e \<Longrightarrow> current_budget_period period sd len e = Inr w" by auto
qed

text \<open>
  The windows of a calendar period tile the days. Every day is in its own window, and a
  day in the window of another has that very window: no day belongs to two periods, and none
  to none.
\<close>

theorem calendar_windows_tile:
  assumes "period \<in> calendar_periods" and "valid_date d" and "valid_date e"
  shows "\<exists>w. current_budget_period period sd len d = Inr w \<and> in_window w d
    \<and> (in_window w e \<longleftrightarrow> current_budget_period period sd len e = Inr w)"
proof -
  obtain w where w: "current_budget_period period sd len d = Inr w"
    using assms(1) by (auto simp: calendar_periods_def current_budget_period_def)
  then show ?thesis
    using current_window_facts [OF assms w] current_window_facts(1) [OF assms(1,3,3)] by blast
qed

section \<open>The custom cycle\<close>

lemma clamp_day_valid:
  assumes "1 \<le> y" and "1 \<le> m" and "m \<le> 12" and "1 \<le> k"
  shows "valid_date (clamp_day y m k)"
  using assms days_in_month_pos(1) [of y m] by (simp add: clamp_day_def)

lemma custom_anchor_facts:
  assumes "valid_date d" and "2 \<le> yr d" and "1 \<le> sd"
  shows "valid_date (custom_anchor d sd)" and "custom_anchor d sd \<le> d"
proof -
  obtain y m k where d: "d = Date y m k" by (cases d)
  have m: "1 \<le> m" "m \<le> 12" "2 \<le> y" using assms d by auto
  have prev: "add_months d (- 1) = (if m = 1 then Date (y - 1) 12 1 else Date y (m - 1) 1)"
  proof (cases "m = 1")
    case True
    have "y * 12 - 1 = 11 + (y - 1) * 12" by simp
    then have "(y * 12 - 1) div 12 = y - 1" "(y * 12 - 1) mod 12 = 11" by presburger+
    then show ?thesis using True d by (simp add: add_months_def month_start_def Let_def)
  next
    case False
    then have "(y * 12 + (m - 1) + - 1) div 12 = y" "(y * 12 + (m - 1) + - 1) mod 12 = m - 2"
      using m by presburger+
    then show ?thesis using False d by (simp add: add_months_def month_start_def Let_def)
  qed
  show "valid_date (custom_anchor d sd)"
    using m assms(3) d prev by (auto simp: custom_anchor_def Let_def intro!: clamp_day_valid simp del: valid_date.simps)
  show "custom_anchor d sd \<le> d"
    using m d prev by (auto simp: custom_anchor_def Let_def clamp_day_def less_date_def less_eq_date_def)
qed

text \<open>The rounds allowed are enough: the loop ends because its condition fails.\<close>

lemma custom_walk_ends:
  assumes "valid_date start" and "1 \<le> span" and "valid_date on_date" and "start \<le> on_date"
    and "ordinal on_date - ordinal start \<le> int n"
  shows "valid_date (custom_walk n span on_date start)"
    and "custom_walk n span on_date start \<le> on_date"
    and "on_date < add_days span (custom_walk n span on_date start)"
proof -
  have "valid_date (custom_walk n span on_date start) \<and> custom_walk n span on_date start \<le> on_date
      \<and> on_date < add_days span (custom_walk n span on_date start)"
    using assms
  proof (induction n arbitrary: start)
    case 0
    have "1 \<le> ordinal start + span" using ordinal_pos [OF 0(1)] 0(2) by simp
    note later = add_days_facts [OF 0(1) this]
    then show ?case using 0 later by (simp add: ordinal_less)
  next
    case (Suc n)
    have "1 \<le> ordinal start + span" using ordinal_pos [OF Suc.prems(1)] Suc.prems(2) by simp
    note later = add_days_facts [OF Suc.prems(1) this]
    show ?case
    proof (cases "add_days span start \<le> on_date")
      case True
      then show ?thesis using Suc.IH [of "add_days span start"] Suc.prems later by simp
    next
      case False
      then show ?thesis using Suc.prems by auto
    qed
  qed
  then show "valid_date (custom_walk n span on_date start)"
    "custom_walk n span on_date start \<le> on_date"
    "on_date < add_days span (custom_walk n span on_date start)" by auto
qed

text \<open>
  The custom cycle ends and covers the day. With a start day from 1 to 31 and a length of
  at least one day, the loop leaves by its own condition, and the window it finds has exactly
  that length and contains the date.
\<close>

theorem custom_window_contains:
  assumes "valid_date d" and "2 \<le> yr d" and "1 \<le> k" and "k \<le> 31" and "1 \<le> n"
  shows "\<exists>w. custom_window d (Some k) (Some n) = Inr w \<and> in_window w d
    \<and> valid_date (w_start w) \<and> ordinal (w_end w) = ordinal (w_start w) + n"
proof -
  let ?a = "custom_anchor d k"
  have a: "valid_date ?a" "?a \<le> d" using custom_anchor_facts [OF assms(1-3)] by auto
  let ?s = "custom_walk (nat (ordinal d - ordinal ?a)) n d ?a"
  have "ordinal d - ordinal ?a \<le> int (nat (ordinal d - ordinal ?a))" by simp
  note s = custom_walk_ends [OF a(1) assms(5,1) a(2) this]
  have "1 \<le> ordinal ?s + n" using ordinal_pos [OF s(1)] assms(5) by simp
  then have "ordinal (add_days n ?s) = ordinal ?s + n" using add_days_facts(2) [OF s(1)] by blast
  then show ?thesis using s assms(3-5) by (simp add: custom_window_def Let_def in_window_def)
qed


text \<open>
  The windows of the custom cycle do not tile the days: the anchor is that of the current
  month. With a cycle of twenty days from the first of the month, the fifth of February is in
  the window of the twenty-fifth of January and in one of its own that begins later.
\<close>

lemma custom_windows_overlap:
  "\<exists>w w'. custom_window (Date 2026 1 25) (Some 1) (Some 20) = Inr w
     \<and> custom_window (Date 2026 2 5) (Some 1) (Some 20) = Inr w'
     \<and> in_window w (Date 2026 2 5) \<and> in_window w' (Date 2026 2 5) \<and> w_start w < w_start w'"
proof -
  have "custom_window (Date 2026 1 25) (Some 1) (Some 20) = Inr \<lparr>w_start = Date 2026 1 21, w_end = Date 2026 2 10\<rparr>"
    "custom_window (Date 2026 2 5) (Some 1) (Some 20) = Inr \<lparr>w_start = Date 2026 2 1, w_end = Date 2026 2 21\<rparr>"
    by code_simp+
  then show ?thesis by (simp add: in_window_def less_date_def less_eq_date_def)
qed

text \<open>A cycle longer than a month never reaches its end: the anchor of the next month starts another.\<close>

lemma long_cycle_restarts:
  "\<exists>w. custom_window (Date 2026 3 1) (Some 1) (Some 90) = Inr w \<and> w_start w = Date 2026 3 1"
  "\<exists>w. custom_window (Date 2026 2 28) (Some 1) (Some 90) = Inr w \<and> w_start w = Date 2026 2 1
     \<and> in_window w (Date 2026 3 1)"
proof -
  have "custom_window (Date 2026 3 1) (Some 1) (Some 90) = Inr \<lparr>w_start = Date 2026 3 1, w_end = Date 2026 5 30\<rparr>"
    "custom_window (Date 2026 2 28) (Some 1) (Some 90) = Inr \<lparr>w_start = Date 2026 2 1, w_end = Date 2026 5 2\<rparr>"
    by code_simp+
  then show "\<exists>w. custom_window (Date 2026 3 1) (Some 1) (Some 90) = Inr w \<and> w_start w = Date 2026 3 1"
    "\<exists>w. custom_window (Date 2026 2 28) (Some 1) (Some 90) = Inr w \<and> w_start w = Date 2026 2 1
     \<and> in_window w (Date 2026 3 1)"
    by (simp_all add: in_window_def less_date_def less_eq_date_def)
qed

section \<open>Instances\<close>

lemma calendar_windows_tile_witness:
  "\<exists>w. current_budget_period ''quarterly'' None None (Date 2026 2 14) = Inr w \<and> in_window w (Date 2026 2 14)
     \<and> (in_window w (Date 2026 3 31)
          \<longleftrightarrow> current_budget_period ''quarterly'' None None (Date 2026 3 31) = Inr w)"
  by (rule calendar_windows_tile) (simp_all add: calendar_periods_def days_in_month_def)

lemma custom_window_contains_witness:
  "\<exists>w. custom_window (Date 2024 3 1) (Some 31) (Some 7) = Inr w \<and> in_window w (Date 2024 3 1)
     \<and> valid_date (w_start w) \<and> ordinal (w_end w) = ordinal (w_start w) + 7"
  by (rule custom_window_contains) (simp_all add: days_in_month_def)

end
