(* ===== verification/Currency.thy ===== *)
theory Currency
  imports Calendar Site
begin

text \<open>
  Money between currencies, and the cost of human work: \<^verbatim>\<open>apps/api-server/src/api_server/\<close>
  \<^verbatim>\<open>fx/convert.py\<close> and \<^verbatim>\<open>budgets/human_cost.py\<close>. Amounts are exact rationals, rounded
  where the code rounds; the 28 digits of the language's decimals are not represented.
\<close>

section \<open>Rounding\<close>

text \<open>\<^verbatim>\<open>quantize(10^-k, ROUND_HALF_UP)\<close>: to the nearest, ties away from zero.\<close>

definition round_to :: "nat \<Rightarrow> rat \<Rightarrow> rat" where
  "round_to k r =
     (if 0 \<le> r then of_int \<lfloor>r * 10 ^ k + 1/2\<rfloor> else - of_int \<lfloor>- r * 10 ^ k + 1/2\<rfloor>) / 10 ^ k"

lemma round_to_error: "\<bar>round_to k r - r\<bar> \<le> 1 / (2 * 10 ^ k)"
proof -
  have near: "\<bar>of_int \<lfloor>x + 1/2\<rfloor> - x\<bar> \<le> 1/2" for x :: rat
    using floor_correct [of "x + 1/2"] unfolding abs_le_iff by linarith
  have p: "(0 :: rat) < 10 ^ k" by simp
  have scaled: "\<bar>y / 10 ^ k - r\<bar> \<le> 1 / (2 * 10 ^ k)" if "\<bar>y - r * 10 ^ k\<bar> \<le> 1/2" for y :: rat
  proof -
    have "y / 10 ^ k - r = (y - r * 10 ^ k) / 10 ^ k" by (simp add: field_simps)
    then have "\<bar>y / 10 ^ k - r\<bar> = \<bar>y - r * 10 ^ k\<bar> / 10 ^ k" by (simp add: abs_divide)
    also have "\<dots> \<le> (1/2) / 10 ^ k" using that p by (intro divide_right_mono) auto
    finally show ?thesis by simp
  qed
  show ?thesis
  proof (cases "0 \<le> r")
    case True
    then show ?thesis using scaled near [of "r * 10 ^ k"] by (simp add: round_to_def)
  next
    case False
    have "\<bar>- of_int \<lfloor>- r * 10 ^ k + 1/2\<rfloor> - r * 10 ^ k\<bar> \<le> 1/2" (is "\<bar>?y - _\<bar> \<le> _")
      using near [of "- r * 10 ^ k"] unfolding abs_le_iff by linarith
    from scaled [OF this] show ?thesis using False by (simp add: round_to_def del: diff_minus_eq_add)
  qed
qed

lemma round_to_nonneg: "0 \<le> r \<Longrightarrow> 0 \<le> round_to k r"
  by (simp add: round_to_def)

section \<open>Rates\<close>

record fx_row =
  fx_currency :: string
  fx_as_of :: date
  fx_units :: rat

definition canonical_currency :: string where "canonical_currency = ''USD''"

definition upper_char :: "char \<Rightarrow> char" where
  "upper_char c =
     (let n = of_char c :: nat in if 97 \<le> n \<and> n \<le> 122 then char_of (n - 32) else c)"

definition normalize_code :: "string \<Rightarrow> string" where
  "normalize_code currency = map upper_char (strip currency)"

text \<open>\<^verbatim>\<open>ORDER BY as_of_date DESC LIMIT 1\<close> over the rows up to the date.\<close>

definition select_rate_for_date :: "fx_row list \<Rightarrow> string \<Rightarrow> date \<Rightarrow> fx_row option" where
  "select_rate_for_date rates currency on_date =
     (case sort_key fx_as_of
             (filter (\<lambda>r. fx_currency r = normalize_code currency \<and> fx_as_of r \<le> on_date) rates) of
        [] \<Rightarrow> None | r # rs \<Rightarrow> Some (last (r # rs)))"

text \<open>The same for many dates in one pass: the dates and the rows, both in order, are merged.\<close>

fun advance_rows :: "date \<Rightarrow> fx_row list \<Rightarrow> fx_row option \<Rightarrow> fx_row list \<times> fx_row option" where
  "advance_rows d [] current = ([], current)"
| "advance_rows d (r # rows) current =
     (if fx_as_of r \<le> d then advance_rows d rows (Some r) else (r # rows, current))"

fun merge_rates :: "fx_row list \<Rightarrow> fx_row option \<Rightarrow> date list \<Rightarrow> (date \<times> fx_row option) list" where
  "merge_rates rows current [] = []"
| "merge_rates rows current (d # ds) =
     (let (rows', current') = advance_rows d rows current
      in (d, current') # merge_rates rows' current' ds)"

definition resolve_rates_for_dates ::
  "fx_row list \<Rightarrow> string \<Rightarrow> date list \<Rightarrow> (date \<times> fx_row option) list" where
  "resolve_rates_for_dates rates currency on_dates =
     (let wanted = sort (remdups on_dates)
      in if wanted = [] then []
         else merge_rates
                (sort_key fx_as_of
                   (filter (\<lambda>r. fx_currency r = normalize_code currency \<and> fx_as_of r \<le> last wanted) rates))
                None wanted)"

section \<open>Conversion\<close>

definition convert_to_usd_with_rate :: "rat \<Rightarrow> rat \<Rightarrow> rat" where
  "convert_to_usd_with_rate amount rate = round_to 6 (amount / rate)"

definition convert_from_usd_with_rate :: "rat \<Rightarrow> rat \<Rightarrow> rat" where
  "convert_from_usd_with_rate amount_usd rate = round_to 2 (amount_usd * rate)"

datatype fx_error = UnknownCurrency string date

definition convert_to_usd ::
  "fx_row list \<Rightarrow> rat \<Rightarrow> string \<Rightarrow> date \<Rightarrow> bool \<Rightarrow> (fx_error, rat) result" where
  "convert_to_usd rates amount currency on_date fallback_to_usd =
     (let code = normalize_code currency
      in if code = canonical_currency then Inr amount
         else case select_rate_for_date rates code on_date of
                None \<Rightarrow> (if fallback_to_usd then Inr amount else Inl (UnknownCurrency code on_date))
              | Some r \<Rightarrow> Inr (convert_to_usd_with_rate amount (fx_units r)))"

definition convert_from_usd ::
  "fx_row list \<Rightarrow> rat \<Rightarrow> string \<Rightarrow> date \<Rightarrow> bool \<Rightarrow> (fx_error, rat) result" where
  "convert_from_usd rates amount_usd currency on_date fallback_to_usd =
     (let code = normalize_code currency
      in if code = canonical_currency then Inr amount_usd
         else case select_rate_for_date rates code on_date of
                None \<Rightarrow> (if fallback_to_usd then Inr amount_usd else Inl (UnknownCurrency code on_date))
              | Some r \<Rightarrow> Inr (convert_from_usd_with_rate amount_usd (fx_units r)))"

section \<open>Human work\<close>

text \<open>
  A work session. \<open>ws_utc_day\<close> is the date of its start as the process reads it, \<open>ws_db_day\<close>
  the one the database computes in the time zone of its session.
\<close>

record work_session =
  ws_tenant :: string
  ws_task :: string
  ws_hours :: "rat option"
  ws_utc_day :: date
  ws_db_day :: date

record hourly_config =
  hc_rate :: "rat option"
  hc_currency :: "string option"

record human_cost_scope =
  hs_cost :: rat
  hs_hours :: rat
  hs_sessions :: nat

definition default_hourly_rate :: rat where "default_hourly_rate = 50"
definition default_rate_currency :: string where "default_rate_currency = ''EUR''"

text \<open>The rate of a session: that of the human its task is assigned to, if there is one.\<close>

definition session_rate :: "site \<Rightarrow> (string \<Rightarrow> hourly_config option) \<Rightarrow> engine_task \<Rightarrow> rat \<times> string" where
  "session_rate s configs t =
     (case et_agent t of
        None \<Rightarrow> (default_hourly_rate, default_rate_currency)
      | Some a \<Rightarrow>
          (case find (\<lambda>r. ar_id r = a \<and> ar_type r = A_HUMAN) (si_agents s) of
             None \<Rightarrow> (default_hourly_rate, default_rate_currency)
           | Some r \<Rightarrow>
               (case configs a of
                  None \<Rightarrow> (default_hourly_rate, default_rate_currency)
                | Some c \<Rightarrow>
                    (case hc_rate c of
                       None \<Rightarrow> (default_hourly_rate, default_rate_currency)
                     | Some rate \<Rightarrow>
                         (rate, case hc_currency c of
                                  Some cur \<Rightarrow> (if cur \<noteq> [] then cur else default_rate_currency)
                                | None \<Rightarrow> default_rate_currency)))))"

definition session_cost :: "fx_row list \<Rightarrow> site \<Rightarrow> (string \<Rightarrow> hourly_config option) \<Rightarrow> work_session \<Rightarrow> rat" where
  "session_cost rates s configs ws =
     (case (ws_hours ws, site_task s (ws_task ws)) of
        (Some hours, Some t) \<Rightarrow>
          (let (rate, currency) = session_rate s configs t
           in case convert_to_usd rates (hours * rate) currency (ws_utc_day ws) True of
                Inr usd \<Rightarrow> usd | Inl _ \<Rightarrow> 0)
      | _ \<Rightarrow> 0)"

definition sessions_in_scope ::
  "site \<Rightarrow> work_session list \<Rightarrow> string \<Rightarrow> string option \<Rightarrow> string option \<Rightarrow> date option \<Rightarrow> date option
     \<Rightarrow> work_session list" where
  "sessions_in_scope s sessions tenant project plan window_start window_end =
     filter (\<lambda>ws. ws_tenant ws = tenant
       \<and> (case site_task s (ws_task ws) of
            None \<Rightarrow> False
          | Some t \<Rightarrow> (project = None \<or> project = Some (et_project t))
                    \<and> (plan = None \<or> plan = et_plan t))
       \<and> (case window_start of None \<Rightarrow> True | Some d \<Rightarrow> d \<le> ws_db_day ws)
       \<and> (case window_end of None \<Rightarrow> True | Some d \<Rightarrow> ws_db_day ws < d)) sessions"

definition compute_human_cost_usd ::
  "fx_row list \<Rightarrow> site \<Rightarrow> (string \<Rightarrow> hourly_config option) \<Rightarrow> work_session list
     \<Rightarrow> string \<Rightarrow> string option \<Rightarrow> string option \<Rightarrow> date option \<Rightarrow> date option \<Rightarrow> human_cost_scope" where
  "compute_human_cost_usd rates s configs sessions tenant project plan window_start window_end =
     (let rows = sessions_in_scope s sessions tenant project plan window_start window_end
      in \<lparr>hs_cost = round_to 6 (sum_list (map (session_cost rates s configs) rows)),
          hs_hours = sum_list (map (\<lambda>ws. case ws_hours ws of Some h \<Rightarrow> h | None \<Rightarrow> 0) rows),
          hs_sessions = length rows\<rparr>)"

section \<open>One query for many dates\<close>

lemma advance_rows_eq:
  "advance_rows d rows current =
     (dropWhile (\<lambda>r. fx_as_of r \<le> d) rows,
      (case takeWhile (\<lambda>r. fx_as_of r \<le> d) rows of [] \<Rightarrow> current | r # rs \<Rightarrow> Some (last (r # rs))))"
proof (induction rows arbitrary: current)
  case (Cons r rows)
  then show ?case by (cases "takeWhile (\<lambda>r. fx_as_of r \<le> d) rows") auto
qed simp

definition latest :: "fx_row list \<Rightarrow> fx_row option" where
  "latest rows = (case rows of [] \<Rightarrow> None | r # rs \<Rightarrow> Some (last (r # rs)))"

lemma latest_append: "latest (xs @ ys) = (if ys = [] then latest xs else latest ys)"
  by (cases xs; cases ys) (auto simp: latest_def)

lemma sorted_filter_take:
  "sorted (map fx_as_of rows) \<Longrightarrow> takeWhile (\<lambda>r. fx_as_of r \<le> d) rows = filter (\<lambda>r. fx_as_of r \<le> d) rows"
proof (induction rows)
  case (Cons r rows)
  then show ?case
    by (cases "fx_as_of r \<le> d") (auto simp: filter_empty_conv eq_commute [of "[]"] dest: order_trans)
qed simp

lemma merge_rates_eq:
  assumes "sorted (map fx_as_of (pre @ rows))" and "sorted ds" and "\<forall>r \<in> set pre. \<forall>d \<in> set ds. fx_as_of r \<le> d"
  shows "merge_rates rows (latest pre) ds
    = map (\<lambda>d. (d, latest (filter (\<lambda>r. fx_as_of r \<le> d) (pre @ rows)))) ds"
  using assms
proof (induction ds arbitrary: pre rows)
  case (Cons d ds)
  let ?p = "\<lambda>r. fx_as_of r \<le> d"
  let ?t = "takeWhile ?p rows" and ?r = "dropWhile ?p rows"
  have sorted_rows: "sorted (map fx_as_of rows)" using Cons.prems(1) by (simp add: sorted_append)
  have pre: "filter ?p pre = pre" using Cons.prems(3) by simp
  have here: "latest (filter ?p (pre @ rows)) = latest (pre @ ?t)"
    using pre sorted_filter_take [OF sorted_rows] by simp
  have cur: "(case ?t of [] \<Rightarrow> latest pre | r # rs \<Rightarrow> Some (last (r # rs))) = latest (pre @ ?t)"
    unfolding latest_append by (cases ?t) (simp_all add: latest_def)
  have "merge_rates ?r (latest (pre @ ?t)) ds
      = map (\<lambda>d. (d, latest (filter (\<lambda>r. fx_as_of r \<le> d) ((pre @ ?t) @ ?r)))) ds"
  proof (rule Cons.IH)
    show "sorted (map fx_as_of ((pre @ ?t) @ ?r))" using Cons.prems(1) by simp
    show "sorted ds" using Cons.prems(2) by simp
    show "\<forall>r \<in> set (pre @ ?t). \<forall>d \<in> set ds. fx_as_of r \<le> d"
      using Cons.prems(2,3) by (fastforce dest: set_takeWhileD)
  qed
  then show ?case using here cur by (simp add: advance_rows_eq)
qed simp

text \<open>
  One query for many dates finds what a query per date finds: for every requested date the
  merged pass gives the rate of that date or of the latest earlier one, and it answers for no
  other date.
\<close>

theorem bulk_rates_agree:
  "map_of (resolve_rates_for_dates rates currency on_dates) d
     = (if d \<in> set on_dates then Some (select_rate_for_date rates currency d) else None)"
proof -
  define wanted where "wanted = sort (remdups on_dates)"
  define mine where "mine = filter (\<lambda>r. fx_currency r = normalize_code currency) rates"
  have set_w: "set wanted = set on_dates" by (simp add: wanted_def)
  have sel: "select_rate_for_date rates currency e
      = latest (filter (\<lambda>r. fx_as_of r \<le> e) (sort_key fx_as_of mine))" for e
  proof -
    have "filter (\<lambda>r. fx_currency r = normalize_code currency \<and> fx_as_of r \<le> e) rates
        = filter (\<lambda>r. fx_as_of r \<le> e) mine"
      by (simp add: mine_def conj_commute)
    then show ?thesis by (simp add: select_rate_for_date_def latest_def filter_sort)
  qed
  show ?thesis
  proof (cases "wanted = []")
    case True
    then show ?thesis using set_w by (simp add: resolve_rates_for_dates_def wanted_def [symmetric])
  next
    case False
    define rows where "rows = sort_key fx_as_of
      (filter (\<lambda>r. fx_currency r = normalize_code currency \<and> fx_as_of r \<le> last wanted) rates)"
    have rows: "rows = filter (\<lambda>r. fx_as_of r \<le> last wanted) (sort_key fx_as_of mine)"
      by (simp add: rows_def mine_def filter_sort conj_commute)
    have up_to: "e \<le> last wanted" if "e \<in> set wanted" for e
    proof -
      have "sorted wanted" by (simp add: wanted_def)
      then have "sorted (butlast wanted @ [last wanted])" using False by simp
      moreover have "e \<in> set (butlast wanted @ [last wanted])" using that False by simp
      ultimately show ?thesis by (auto simp: sorted_append)
    qed
    have "resolve_rates_for_dates rates currency on_dates = merge_rates rows (latest []) wanted"
      using False by (simp add: resolve_rates_for_dates_def wanted_def [symmetric] rows_def latest_def)
    also have "\<dots> = map (\<lambda>d. (d, latest (filter (\<lambda>r. fx_as_of r \<le> d) ([] @ rows)))) wanted"
      by (rule merge_rates_eq) (simp_all add: rows_def wanted_def)
    also have "\<dots> = map (\<lambda>d. (d, select_rate_for_date rates currency d)) wanted"
    proof (rule map_cong [OF refl])
      fix e assume "e \<in> set wanted"
      then have "e \<le> last wanted" by (rule up_to)
      then have "filter (\<lambda>r. fx_as_of r \<le> e) ([] @ rows) = filter (\<lambda>r. fx_as_of r \<le> e) (sort_key fx_as_of mine)"
        unfolding rows by (auto intro!: filter_cong dest: order_trans)
      then show "(e, latest (filter (\<lambda>r. fx_as_of r \<le> e) ([] @ rows))) = (e, select_rate_for_date rates currency e)"
        by (simp add: sel)
    qed
    finally show ?thesis by (simp add: map_of_map_restrict restrict_map_def set_w)
  qed
qed

text \<open>
  Converting a display amount back loses at most the rounding: half a cent of the other
  currency, and half of the sixth decimal of a dollar.
\<close>

theorem conversion_round_trip:
  assumes "0 < rate"
  shows "\<bar>convert_to_usd_with_rate (convert_from_usd_with_rate usd rate) rate - usd\<bar>
    \<le> 1 / (200 * rate) + 1 / 2000000"
proof -
  define x where "x = convert_from_usd_with_rate usd rate"
  have "\<bar>x - usd * rate\<bar> \<le> 1 / 200"
    using round_to_error [of 2 "usd * rate"] by (simp add: x_def convert_from_usd_with_rate_def)
  then have "\<bar>x - usd * rate\<bar> / rate \<le> (1 / 200) / rate" using assms by (intro divide_right_mono) auto
  moreover have "\<bar>x / rate - usd\<bar> = \<bar>x - usd * rate\<bar> / rate"
  proof -
    have "x / rate - usd = (x - usd * rate) / rate" using assms by (simp add: field_simps)
    then show ?thesis using assms by (simp add: abs_divide)
  qed
  ultimately have "\<bar>x / rate - usd\<bar> \<le> 1 / (200 * rate)" by simp
  moreover have "\<bar>convert_to_usd_with_rate x rate - x / rate\<bar> \<le> 1 / 2000000"
    using round_to_error [of 6 "x / rate"] by (simp add: convert_to_usd_with_rate_def)
  ultimately show ?thesis unfolding x_def [symmetric] by linarith
qed

lemma conversion_round_trip_witness:
  "\<bar>convert_to_usd_with_rate (convert_from_usd_with_rate 10 (23/25)) (23/25) - 10\<bar> \<le> 1 / (200 * (23/25)) + 1 / 2000000"
  by (rule conversion_round_trip) simp

end
