(* ===== verification/Budgets.thy ===== *)
theory Budgets
  imports BudgetPeriods Currency Dispatch RunLife
begin

text \<open>
  Spending budgets of tenants and projects,
  \<^verbatim>\<open>apps/api-server/src/api_server/budgets/\<close>: what a scope has spent in its period
  (\<^verbatim>\<open>consumption.py\<close>), the pause that follows and its manual override (\<^verbatim>\<open>pause.py\<close>), the
  alerts with their debounce rows, and the sweep that does both (\<^verbatim>\<open>sweep.py\<close>, called by
  \<^verbatim>\<open>workers/maintenance/budget_sweep.py\<close>). The guard that reads the pause is in Dispatch.
  A run belongs to the tenant of its task, as \<^verbatim>\<open>create_running_execution\<close> writes it. The
  names of projects, the audit rows of an override and the text of an alert are left out.
\<close>

section \<open>State\<close>

record budget =
  bd_amount :: "rat option"
  bd_currency :: "string option"
  bd_period :: "string option"
  bd_start_day :: "int option"
  bd_length_days :: "int option"

record org_row =
  og_id :: string
  og_deleted :: bool
  og_budget :: budget

record alert_row =
  al_tenant :: string
  al_scope :: budget_scope
  al_project :: "string option"
  al_period_start :: date
  al_threshold :: int

record finance =
  fi_orgs :: "org_row list"
  fi_project_budget :: "string \<Rightarrow> budget"
  fi_includes_human :: "string \<Rightarrow> bool"
  fi_sessions :: "work_session list"
  fi_hourly :: "string \<Rightarrow> hourly_config option"
  fi_rates :: "fx_row list"
  fi_thresholds :: "pyval option"
  fi_alerts :: "alert_row list"

record consumption =
  co_scope :: budget_scope
  co_project :: "string option"
  co_period :: string
  co_window :: window
  co_amount :: rat
  co_currency :: string
  co_budget_usd :: "rat option"
  co_spend :: rat
  co_ai :: rat
  co_human :: rat
  co_percent :: "rat option"
  co_crossed :: "int list"

section \<open>Thresholds\<close>

datatype threshold_error = NoThreshold | NotAnInteger pyval | OutOfRange int

definition default_thresholds :: "int list" where "default_thresholds = [80, 90, 100]"
definition budget_threshold_min :: int where "budget_threshold_min = 1"
definition budget_threshold_max :: int where "budget_threshold_max = 1000"
definition budget_pause_threshold :: int where "budget_pause_threshold = 100"

fun clean_thresholds :: "pyval list \<Rightarrow> (threshold_error, int list) result" where
  "clean_thresholds [] = Inr []"
| "clean_thresholds (PInt v # vs) =
     (if v < budget_threshold_min \<or> v > budget_threshold_max then Inl (OutOfRange v)
      else bindr (clean_thresholds vs) (\<lambda>cleaned. Inr (v # cleaned)))"
| "clean_thresholds (v # vs) = Inl (NotAnInteger v)"

definition validate_budget_alert_thresholds :: "pyval list \<Rightarrow> (threshold_error, int list) result" where
  "validate_budget_alert_thresholds values =
     (if values = [] then Inl NoThreshold
      else bindr (clean_thresholds values)
             (\<lambda>cleaned. Inr (sorted_list_of_set (insert budget_pause_threshold (set cleaned)))))"

text \<open>\<^verbatim>\<open>list(value)\<close>: a string gives its characters, an object its keys.\<close>

definition py_list :: "pyval \<Rightarrow> pyval list option" where
  "py_list v =
     (case v of
        PList vs \<Rightarrow> Some vs
      | PStr s \<Rightarrow> Some (map (\<lambda>c. PStr [c]) s)
      | PDict d \<Rightarrow> Some (map (PStr \<circ> fst) d)
      | _ \<Rightarrow> None)"

definition get_budget_alert_thresholds :: "pyval option \<Rightarrow> int list" where
  "get_budget_alert_thresholds setting =
     (case setting of
        None \<Rightarrow> settle default_thresholds (validate_budget_alert_thresholds (map PInt default_thresholds))
      | Some v \<Rightarrow>
          (case py_list v of
             None \<Rightarrow> default_thresholds
           | Some vs \<Rightarrow> settle default_thresholds (validate_budget_alert_thresholds vs)))"

section \<open>Consumption\<close>

definition percent_used :: "rat \<Rightarrow> rat option \<Rightarrow> rat option" where
  "percent_used spend_usd budget_usd =
     (case budget_usd of
        None \<Rightarrow> None
      | Some b \<Rightarrow> if b \<le> 0 then None else Some (round_to 1 (spend_usd / b * 100)))"

definition crossed :: "rat option \<Rightarrow> int list \<Rightarrow> int list" where
  "crossed percent thresholds =
     (case percent of None \<Rightarrow> [] | Some p \<Rightarrow> filter (\<lambda>t. of_int t \<le> p) (sort thresholds))"

definition budget_status :: "rat option \<Rightarrow> int list \<Rightarrow> string" where
  "budget_status percent thresholds =
     (case percent of
        None \<Rightarrow> ''unknown''
      | Some p \<Rightarrow> if 100 \<le> p then ''over_budget''
                  else if crossed percent thresholds \<noteq> [] then ''warning'' else ''ok'')"

text \<open>Instants are seconds since the first of January 1970, UTC.\<close>

definition utc_midnight :: "date \<Rightarrow> int" where
  "utc_midnight d = (ordinal d - 719163) * 86400"

definition spend_usd_in_window :: "site \<Rightarrow> string \<Rightarrow> window \<Rightarrow> string option \<Rightarrow> rat" where
  "spend_usd_in_window s tenant w project =
     sum_list (map total_cost_usd
       (filter (\<lambda>x. (case site_task s (ex_task x) of
                       None \<Rightarrow> False
                     | Some t \<Rightarrow> et_tenant t = tenant \<and> (project = None \<or> project = Some (et_project t)))
                  \<and> utc_midnight (w_start w) \<le> int (rm_created (si_runs s (ex_id x)))
                  \<and> int (rm_created (si_runs s (ex_id x))) < utc_midnight (w_end w))
          (site_runs s)))"

definition budget_usd :: "finance \<Rightarrow> rat \<Rightarrow> string \<Rightarrow> date \<Rightarrow> rat option" where
  "budget_usd f amount currency on_date =
     (case convert_to_usd (fi_rates f) amount currency on_date False of Inl _ \<Rightarrow> None | Inr usd \<Rightarrow> Some usd)"

text \<open>The live projects of a tenant, and those that count human cost.\<close>

definition tenant_projects :: "site \<Rightarrow> string \<Rightarrow> project_row list" where
  "tenant_projects s tenant = filter (\<lambda>p. pj_tenant p = tenant \<and> \<not> pj_deleted p) (si_projects s)"

definition human_cost_projects :: "finance \<Rightarrow> site \<Rightarrow> string \<Rightarrow> string list" where
  "human_cost_projects f s tenant =
     remdups (filter (fi_includes_human f) (map pj_id (tenant_projects s tenant)))"

definition human_cost_of :: "finance \<Rightarrow> site \<Rightarrow> string \<Rightarrow> window \<Rightarrow> string \<Rightarrow> rat" where
  "human_cost_of f s tenant w project =
     hs_cost (compute_human_cost_usd (fi_rates f) s (fi_hourly f) (fi_sessions f) tenant (Some project) None
                (Some (w_start w)) (Some (w_end w)))"

definition folded_human_cost ::
  "finance \<Rightarrow> site \<Rightarrow> string \<Rightarrow> budget_scope \<Rightarrow> string option \<Rightarrow> window \<Rightarrow> rat" where
  "folded_human_cost f s tenant scope project w =
     (let included = human_cost_projects f s tenant
      in case scope of
           ProjectScope \<Rightarrow>
             (case project of
                None \<Rightarrow> 0
              | Some p \<Rightarrow> if p \<in> set included then human_cost_of f s tenant w p else 0)
         | TenantScope \<Rightarrow> sum_list (map (human_cost_of f s tenant w) included))"

text \<open>A budget that can be used: an amount above zero, a currency and a period.\<close>

definition has_budget :: "budget \<Rightarrow> (rat \<times> string \<times> string) option" where
  "has_budget b =
     (case (bd_amount b, bd_currency b, bd_period b) of
        (Some a, Some c, Some p) \<Rightarrow> if 0 < a \<and> c \<noteq> [] \<and> p \<noteq> [] then Some (a, c, p) else None
      | _ \<Rightarrow> None)"

definition consumption_for_scope ::
  "finance \<Rightarrow> site \<Rightarrow> string \<Rightarrow> int list \<Rightarrow> date \<Rightarrow> budget_scope \<Rightarrow> string option \<Rightarrow> budget
     \<Rightarrow> consumption option" where
  "consumption_for_scope f s tenant thresholds on_date scope project b =
     (case has_budget b of
        None \<Rightarrow> None
      | Some (amount, currency, period) \<Rightarrow>
          (case current_budget_period period (bd_start_day b) (bd_length_days b) on_date of
             Inl _ \<Rightarrow> None
           | Inr w \<Rightarrow>
               (let ai = spend_usd_in_window s tenant w project;
                    human = folded_human_cost f s tenant scope project w;
                    usd = budget_usd f amount currency (w_start w);
                    percent = percent_used (ai + human) usd
                in Some \<lparr>co_scope = scope, co_project = project, co_period = period, co_window = w,
                         co_amount = amount, co_currency = map upper_char currency, co_budget_usd = usd,
                         co_spend = ai + human, co_ai = ai, co_human = human, co_percent = percent,
                         co_crossed = crossed percent thresholds\<rparr>)))"

definition tenant_consumption :: "finance \<Rightarrow> site \<Rightarrow> string \<Rightarrow> int list \<Rightarrow> date \<Rightarrow> consumption option" where
  "tenant_consumption f s tenant thresholds on_date =
     (case find (\<lambda>g. og_id g = tenant) (fi_orgs f) of
        None \<Rightarrow> None
      | Some org \<Rightarrow> consumption_for_scope f s tenant thresholds on_date TenantScope None (og_budget org))"

definition project_consumption ::
  "finance \<Rightarrow> site \<Rightarrow> string \<Rightarrow> int list \<Rightarrow> date \<Rightarrow> string \<Rightarrow> consumption option" where
  "project_consumption f s tenant thresholds on_date p =
     consumption_for_scope f s tenant thresholds on_date ProjectScope (Some p) (fi_project_budget f p)"

definition compute_budget_consumption :: "finance \<Rightarrow> site \<Rightarrow> string \<Rightarrow> date \<Rightarrow> consumption list" where
  "compute_budget_consumption f s tenant on_date =
     (let thresholds = get_budget_alert_thresholds (fi_thresholds f)
      in (case tenant_consumption f s tenant thresholds on_date of None \<Rightarrow> [] | Some c \<Rightarrow> [c])
         @ List.map_filter (\<lambda>p. project_consumption f s tenant thresholds on_date (pj_id p))
             (tenant_projects s tenant))"

section \<open>The pause\<close>

definition is_paused :: "consumption \<Rightarrow> bool" where
  "is_paused c \<longleftrightarrow> (case co_percent c of None \<Rightarrow> False | Some p \<Rightarrow> of_int budget_pause_threshold \<le> p)"

lemma is_paused_iff: "is_paused c \<longleftrightarrow> (case co_percent c of None \<Rightarrow> False | Some p \<Rightarrow> 100 \<le> p)"
  by (simp add: is_paused_def budget_pause_threshold_def split: option.split)

definition set_tenant_pause :: "string \<Rightarrow> bool \<Rightarrow> site \<Rightarrow> site" where
  "set_tenant_pause tenant b s =
     (if b = (tenant \<in> set (si_paused_tenants s)) then s
      else s\<lparr>si_paused_tenants := (if b then tenant # si_paused_tenants s
                                   else removeAll tenant (si_paused_tenants s))\<rparr>)"

definition set_project_pause :: "string \<Rightarrow> string \<Rightarrow> bool \<Rightarrow> site \<Rightarrow> site" where
  "set_project_pause tenant project b s =
     s\<lparr>si_projects := map (\<lambda>p. if pj_id p = project \<and> pj_tenant p = tenant \<and> \<not> pj_deleted p
                               then p\<lparr>pj_paused := b\<rparr> else p) (si_projects s)\<rparr>"

definition refresh_one :: "string \<Rightarrow> consumption \<Rightarrow> site \<Rightarrow> site" where
  "refresh_one tenant c s =
     (case (co_scope c, co_project c) of
        (TenantScope, _) \<Rightarrow> set_tenant_pause tenant (is_paused c) s
      | (ProjectScope, Some p) \<Rightarrow> set_project_pause tenant p (is_paused c) s
      | (ProjectScope, None) \<Rightarrow> s)"

definition refresh_budget_pause_flags :: "finance \<Rightarrow> string \<Rightarrow> date \<Rightarrow> site \<Rightarrow> site" where
  "refresh_budget_pause_flags f tenant on_date s =
     fold (refresh_one tenant) (compute_budget_consumption f s tenant on_date) s"

text \<open>The override of an administrator, and the request that asks for it.\<close>

definition clear_budget_pause :: "string \<Rightarrow> budget_scope \<Rightarrow> string option \<Rightarrow> site \<Rightarrow> (bool \<times> site) option" where
  "clear_budget_pause tenant scope project s =
     (case scope of
        TenantScope \<Rightarrow> Some (tenant \<in> set (si_paused_tenants s), set_tenant_pause tenant False s)
      | ProjectScope \<Rightarrow>
          (case project of
             None \<Rightarrow> None
           | Some p \<Rightarrow> Some (\<exists>r \<in> set (tenant_projects s tenant). pj_id r = p \<and> pj_paused r,
                              set_project_pause tenant p False s)))"

datatype override_reply = Unprocessable | Overridden bool

definition override_pause :: "string \<Rightarrow> budget_scope \<Rightarrow> string option \<Rightarrow> site \<Rightarrow> override_reply \<times> site" where
  "override_pause tenant scope project s =
     (if scope = ProjectScope \<and> project = None then (Unprocessable, s)
      else case clear_budget_pause tenant scope (if scope = ProjectScope then project else None) s of
             None \<Rightarrow> (Unprocessable, s)
           | Some (cleared, s1) \<Rightarrow> (Overridden cleared, s1))"

definition get_pause_status :: "site \<Rightarrow> string \<Rightarrow> bool \<times> string list" where
  "get_pause_status s tenant =
     (tenant \<in> set (si_paused_tenants s), map pj_id (filter pj_paused (tenant_projects s tenant)))"

section \<open>Alerts\<close>

record firing =
  fr_row :: alert_row
  fr_percent :: "rat option"
  fr_dispatched :: bool

definition alert_of :: "string \<Rightarrow> consumption \<Rightarrow> int \<Rightarrow> alert_row" where
  "alert_of tenant c t =
     \<lparr>al_tenant = tenant, al_scope = co_scope c, al_project = co_project c,
      al_period_start = w_start (co_window c), al_threshold = t\<rparr>"

definition already_fired :: "alert_row list \<Rightarrow> string \<Rightarrow> consumption \<Rightarrow> int set" where
  "already_fired rows tenant c =
     al_threshold ` {r \<in> set rows. al_tenant r = tenant \<and> al_scope r = co_scope c
                       \<and> al_project r = co_project c \<and> al_period_start r = w_start (co_window c)}"

text \<open>
  \<^verbatim>\<open>ON CONFLICT DO NOTHING\<close> on the debounce key; rows without a project never conflict, since
  the database takes two empty columns for distinct.
\<close>

definition insert_alert :: "alert_row \<Rightarrow> alert_row list \<Rightarrow> alert_row list" where
  "insert_alert r rows = (if al_project r \<noteq> None \<and> r \<in> set rows then rows else rows @ [r])"

text \<open>One scope: the rows as they were read, the thresholds still to fire, what was fired and
  what was suppressed. \<open>send\<close> is whether the broker takes the event.\<close>

fun fire_thresholds ::
  "(alert_row \<Rightarrow> bool) \<Rightarrow> string \<Rightarrow> consumption \<Rightarrow> int set \<Rightarrow> int list \<Rightarrow> alert_row list
     \<Rightarrow> alert_row list \<times> firing list \<times> firing list" where
  "fire_thresholds send tenant c seen [] rows = (rows, [], [])"
| "fire_thresholds send tenant c seen (t # ts) rows =
     (let r = alert_of tenant c t
      in if t \<in> seen
         then let (rows', fired, quiet) = fire_thresholds send tenant c seen ts rows
              in (rows', fired, \<lparr>fr_row = r, fr_percent = co_percent c, fr_dispatched = False\<rparr> # quiet)
         else let (rows', fired, quiet) = fire_thresholds send tenant c seen ts (insert_alert r rows)
              in (rows', \<lparr>fr_row = r, fr_percent = co_percent c, fr_dispatched = send r\<rparr> # fired, quiet))"

fun evaluate_consumptions ::
  "(alert_row \<Rightarrow> bool) \<Rightarrow> string \<Rightarrow> consumption list \<Rightarrow> alert_row list
     \<Rightarrow> alert_row list \<times> firing list \<times> firing list" where
  "evaluate_consumptions send tenant [] rows = (rows, [], [])"
| "evaluate_consumptions send tenant (c # cs) rows =
     (let (rows1, fired1, quiet1) =
            fire_thresholds send tenant c (already_fired rows tenant c) (co_crossed c) rows;
          (rows2, fired2, quiet2) = evaluate_consumptions send tenant cs rows1
      in (rows2, fired1 @ fired2, quiet1 @ quiet2))"

definition evaluate_budget_alerts ::
  "(alert_row \<Rightarrow> bool) \<Rightarrow> string \<Rightarrow> date \<Rightarrow> site \<Rightarrow> finance \<Rightarrow> finance \<times> firing list \<times> firing list" where
  "evaluate_budget_alerts send tenant on_date s f =
     (let (rows, fired, quiet) =
            evaluate_consumptions send tenant (compute_budget_consumption f s tenant on_date) (fi_alerts f)
      in (f\<lparr>fi_alerts := rows\<rparr>, fired, quiet))"

section \<open>The sweep\<close>

definition sweep_tenant_budgets ::
  "(alert_row \<Rightarrow> bool) \<Rightarrow> string \<Rightarrow> date \<Rightarrow> site \<times> finance \<Rightarrow> site \<times> finance" where
  "sweep_tenant_budgets send tenant on_date sf =
     (let s1 = refresh_budget_pause_flags (snd sf) tenant on_date (fst sf)
      in (s1, fst (evaluate_budget_alerts send tenant on_date s1 (snd sf))))"

definition refresh_budgets :: "(alert_row \<Rightarrow> bool) \<Rightarrow> date \<Rightarrow> site \<times> finance \<Rightarrow> site \<times> finance" where
  "refresh_budgets send on_date sf =
     fold (\<lambda>tenant. sweep_tenant_budgets send tenant on_date)
       (map og_id (filter (\<lambda>g. \<not> og_deleted g) (fi_orgs (snd sf)))) sf"

section \<open>What an assistant is told\<close>

record scope_view =
  sv_consumption :: consumption
  sv_status :: string
  sv_over :: bool

datatype budget_summary = NoBudgetConfigured | Summary "int list" "scope_view option" "scope_view list"

definition consumption_to_dict :: "int list \<Rightarrow> consumption \<Rightarrow> scope_view" where
  "consumption_to_dict thresholds c =
     \<lparr>sv_consumption = c, sv_status = budget_status (co_percent c) thresholds,
      sv_over = (case co_percent c of None \<Rightarrow> False | Some p \<Rightarrow> 100 \<le> p)\<rparr>"

definition tenant_budget_summary :: "finance \<Rightarrow> site \<Rightarrow> string \<Rightarrow> date \<Rightarrow> budget_summary" where
  "tenant_budget_summary f s tenant on_date =
     (let thresholds = get_budget_alert_thresholds (fi_thresholds f);
          cs = compute_budget_consumption f s tenant on_date
      in if cs = [] then NoBudgetConfigured
         else Summary thresholds
                (map_option (consumption_to_dict thresholds) (find (\<lambda>c. co_scope c = TenantScope) cs))
                (map (consumption_to_dict thresholds) (filter (\<lambda>c. co_scope c = ProjectScope) cs)))"

section \<open>Thresholds are a type\<close>

lemma clean_thresholds_range:
  "clean_thresholds vs = Inr ts \<Longrightarrow> set ts \<subseteq> {budget_threshold_min..budget_threshold_max}"
  by (induction vs arbitrary: ts rule: clean_thresholds.induct)
    (auto simp: bindr_Inr_iff subset_iff split: if_splits)

lemma clean_thresholds_ok:
  "set ts \<subseteq> {budget_threshold_min..budget_threshold_max} \<Longrightarrow> clean_thresholds (map PInt ts) = Inr ts"
  by (induction ts) auto

lemma validate_facts:
  assumes "validate_budget_alert_thresholds vs = Inr ts"
  shows "sorted ts" "distinct ts" "set ts \<subseteq> {1..1000}" "100 \<in> set ts"
    and "validate_budget_alert_thresholds (map PInt ts) = Inr ts"
proof -
  obtain cs where cs: "clean_thresholds vs = Inr cs" and ts: "ts = sorted_list_of_set (insert 100 (set cs))"
    using assms by (auto simp: validate_budget_alert_thresholds_def budget_pause_threshold_def bindr_Inr_iff
        split: if_splits)
  have set_ts: "set ts = insert 100 (set cs)" unfolding ts by (rule set_sorted_list_of_set) simp
  show sorted: "sorted ts" and distinct: "distinct ts"
    unfolding ts by (simp_all del: sorted_list_of_set_insert_remove)
  show range: "set ts \<subseteq> {1..1000}" and "100 \<in> set ts"
    using clean_thresholds_range [OF cs] set_ts
    by (auto simp: budget_threshold_min_def budget_threshold_max_def)
  then have "clean_thresholds (map PInt ts) = Inr ts"
    by (intro clean_thresholds_ok) (simp add: budget_threshold_min_def budget_threshold_max_def)
  moreover have "sorted_list_of_set (insert 100 (set ts)) = ts"
    using sorted distinct \<open>100 \<in> set ts\<close> by (simp add: insert_absorb sorted_list_of_set.idem_if_sorted_distinct)
  ultimately show "validate_budget_alert_thresholds (map PInt ts) = Inr ts"
    using \<open>100 \<in> set ts\<close>
    by (auto simp: validate_budget_alert_thresholds_def budget_pause_threshold_def)
qed

lemma default_thresholds_valid:
  "validate_budget_alert_thresholds (map PInt default_thresholds) = Inr default_thresholds"
proof -
  have "sorted_list_of_set {80 :: int, 90, 100} = [80, 90, 100]"
    using sorted_list_of_set.idem_if_sorted_distinct [of "[80 :: int, 90, 100]"] by simp
  moreover have "insert 100 {80 :: int, 90, 100} = {80, 90, 100}" by auto
  ultimately have "sorted_list_of_set (insert 100 {80 :: int, 90, 100}) = [80, 90, 100]" by presburger
  then show ?thesis
    by (simp del: sorted_list_of_set_insert_remove add: validate_budget_alert_thresholds_def default_thresholds_def bindr_def
        budget_threshold_min_def budget_threshold_max_def budget_pause_threshold_def)
qed

lemma thresholds_facts:
  "let ts = get_budget_alert_thresholds setting
   in sorted ts \<and> distinct ts \<and> set ts \<subseteq> {1..1000} \<and> 100 \<in> set ts
      \<and> validate_budget_alert_thresholds (map PInt ts) = Inr ts"
proof -
  have "\<exists>vs. validate_budget_alert_thresholds vs = Inr (get_budget_alert_thresholds setting)"
    by (auto simp: get_budget_alert_thresholds_def settle_def default_thresholds_valid
        split: option.split sum.split intro: default_thresholds_valid exI [of _ "map PInt default_thresholds"])
  then show ?thesis by (auto simp: Let_def dest: validate_facts)
qed

text \<open>
  C36. Whatever value an administrator stored, a list, a string, an object or nothing, the
  thresholds in effect are an ascending list without repetition, within 1 to 1000, that holds
  the 100 that arms the pause, and validating them again changes nothing.
\<close>

theorem thresholds_well_formed:
  "let ts = get_budget_alert_thresholds setting
   in sorted ts \<and> distinct ts \<and> set ts \<subseteq> {1..1000} \<and> 100 \<in> set ts
      \<and> validate_budget_alert_thresholds (map PInt ts) = Inr ts"
  by (rule thresholds_facts)

section \<open>Percentages\<close>

lemma round_to_ge:
  assumes "1 \<le> n"
  shows "of_int n \<le> round_to 1 r \<longleftrightarrow> of_int n - 1/20 \<le> r"
proof (cases "0 \<le> r")
  case True
  have "of_int n \<le> round_to 1 r \<longleftrightarrow> of_int (10 * n) \<le> (of_int \<lfloor>r * 10 + 1/2\<rfloor> :: rat)"
    using True by (simp add: round_to_def field_simps)
  also have "\<dots> \<longleftrightarrow> 10 * n \<le> \<lfloor>r * 10 + 1/2\<rfloor>" by (simp only: of_int_le_iff)
  also have "\<dots> \<longleftrightarrow> of_int (10 * n) \<le> r * 10 + 1/2" by (rule le_floor_iff)
  also have "\<dots> \<longleftrightarrow> of_int n - 1/20 \<le> r" by (simp add: field_simps)
  finally show ?thesis .
next
  case False
  have "0 \<le> \<lfloor>- r * 10 + 1/2\<rfloor>" using False by (simp add: le_floor_iff)
  then have "(0 :: rat) \<le> of_int \<lfloor>- r * 10 + 1/2\<rfloor>" by (simp only: of_int_0_le_iff)
  then have "round_to 1 r \<le> 0" using False by (simp add: round_to_def)
  moreover have "(1 :: rat) \<le> of_int n" using assms by (simp only: of_int_1_le_iff)
  ultimately show ?thesis using False by linarith
qed

lemma pause_threshold_exact:
  "(case percent_used spend budget of None \<Rightarrow> False | Some p \<Rightarrow> 100 \<le> p)
     \<longleftrightarrow> (case budget of None \<Rightarrow> False | Some b \<Rightarrow> 0 < b \<and> 9995 * b \<le> 10000 * spend)"
proof (cases budget)
  case (Some b)
  show ?thesis
  proof (cases "0 < b")
    case True
    have "(100 :: rat) \<le> round_to 1 (spend / b * 100) \<longleftrightarrow> 100 - 1/20 \<le> spend / b * 100"
      using round_to_ge [of 100 "spend / b * 100"] by simp
    also have "\<dots> \<longleftrightarrow> 9995 * b \<le> 10000 * spend" using True by (simp add: field_simps)
    finally show ?thesis using Some True by (simp add: percent_used_def)
  qed (simp add: Some percent_used_def)
qed (simp add: percent_used_def)

text \<open>
  A scope counts as spent from 99.95 per cent of its budget on, since the percentage is
  rounded to one decimal before it is compared; a scope without a usable budget never does.
\<close>

theorem pause_boundary:
  "(case percent_used spend budget of None \<Rightarrow> False | Some p \<Rightarrow> 100 \<le> p)
     \<longleftrightarrow> (case budget of None \<Rightarrow> False | Some b \<Rightarrow> 0 < b \<and> 9995 * b \<le> 10000 * spend)"
  by (rule pause_threshold_exact)

section \<open>What a refresh does\<close>

lemma consumption_scope:
  "consumption_for_scope f s tenant th d scope project b = Some c
     \<Longrightarrow> co_scope c = scope \<and> co_project c = project \<and> co_percent c = percent_used (co_spend c) (co_budget_usd c)
         \<and> co_crossed c = crossed (co_percent c) th"
  by (auto simp: consumption_for_scope_def Let_def split: option.splits prod.splits sum.splits)

definition refreshed :: "(string \<Rightarrow> consumption option) \<Rightarrow> string \<Rightarrow> project_row \<Rightarrow> project_row" where
  "refreshed h tenant p =
     (if pj_tenant p = tenant \<and> \<not> pj_deleted p
      then (case h (pj_id p) of None \<Rightarrow> p | Some c \<Rightarrow> p\<lparr>pj_paused := is_paused c\<rparr>) else p)"

lemma refresh_projects:
  assumes h: "\<And>i c. h i = Some c \<Longrightarrow> co_scope c = ProjectScope \<and> co_project c = Some i"
  shows "fold (refresh_one tenant) (List.map_filter h ids) s
    = s\<lparr>si_projects := map (\<lambda>p. if pj_id p \<in> set ids then refreshed h tenant p else p) (si_projects s)\<rparr>"
proof (induction ids arbitrary: s)
  case (Cons i ids)
  show ?case
  proof (cases "h i")
    case None
    then show ?thesis using Cons.IH
      by (auto simp: List.map_filter_simps refreshed_def intro!: arg_cong [where f = "\<lambda>x. s\<lparr>si_projects := x\<rparr>"])
  next
    case (Some c)
    have one: "refresh_one tenant c s = set_project_pause tenant i (is_paused c) s"
      using h [OF Some] by (simp add: refresh_one_def)
    show ?thesis using Some Cons.IH
      by (auto simp: List.map_filter_simps one set_project_pause_def refreshed_def
          intro!: arg_cong [where f = "\<lambda>x. s\<lparr>si_projects := x\<rparr>"])
  qed
qed (simp add: List.map_filter_simps)

lemma refresh_eq:
  fixes f s tenant d
  defines "th \<equiv> get_budget_alert_thresholds (fi_thresholds f)"
  shows "refresh_budget_pause_flags f tenant d s
    = (case tenant_consumption f s tenant th d of None \<Rightarrow> s | Some c \<Rightarrow> set_tenant_pause tenant (is_paused c) s)
        \<lparr>si_projects := map (refreshed (project_consumption f s tenant th d) tenant) (si_projects s)\<rparr>"
proof -
  let ?h = "project_consumption f s tenant th d"
  let ?s1 = "case tenant_consumption f s tenant th d of None \<Rightarrow> s | Some c \<Rightarrow> set_tenant_pause tenant (is_paused c) s"
  have h: "?h i = Some c \<Longrightarrow> co_scope c = ProjectScope \<and> co_project c = Some i" for i c
    using consumption_scope by (simp add: project_consumption_def)
  have first: "fold (refresh_one tenant) (case tenant_consumption f s tenant th d of None \<Rightarrow> [] | Some c \<Rightarrow> [c]) s = ?s1"
    using consumption_scope
    by (auto simp: tenant_consumption_def refresh_one_def split: option.split)
  have projects: "si_projects ?s1 = si_projects s" by (simp add: set_tenant_pause_def split: option.split)
  have mf: "List.map_filter (\<lambda>p. ?h (pj_id p)) ps = List.map_filter ?h (map pj_id ps)" for ps
    by (induction ps) (simp_all add: List.map_filter_simps split: option.split)
  have all: "(if pj_id p \<in> set (map pj_id (tenant_projects s tenant)) then refreshed ?h tenant p else p) = refreshed ?h tenant p"
    if "p \<in> set (si_projects s)" for p
    using that by (auto simp: tenant_projects_def refreshed_def)
  have "refresh_budget_pause_flags f tenant d s
      = fold (refresh_one tenant) (List.map_filter ?h (map pj_id (tenant_projects s tenant))) ?s1"
    unfolding refresh_budget_pause_flags_def compute_budget_consumption_def Let_def th_def [symmetric] mf
      fold_append comp_def first ..
  also have "\<dots> = ?s1\<lparr>si_projects := map (\<lambda>p. if pj_id p \<in> set (map pj_id (tenant_projects s tenant))
      then refreshed ?h tenant p else p) (si_projects ?s1)\<rparr>"
    by (rule refresh_projects) (rule h)
  also have "\<dots> = ?s1\<lparr>si_projects := map (refreshed ?h tenant) (si_projects s)\<rparr>"
    unfolding projects using all by (simp cong: map_cong)
  finally show ?thesis .
qed

text \<open>
  C14. A refresh pauses exactly the scopes of its tenant whose budget is spent and releases the
  others: the tenant, and each of its live projects, gets the flag its own consumption says; a
  scope without a usable budget or window keeps the flag it has; other tenants, their projects,
  and every task, run, plan and note stay as they are.
\<close>

theorem refresh_pauses_exactly:
  fixes f s tenant d
  defines "th \<equiv> get_budget_alert_thresholds (fi_thresholds f)"
    and "s' \<equiv> refresh_budget_pause_flags f tenant d s"
  shows "(x \<in> set (si_paused_tenants s')) =
      (if x = tenant then (case tenant_consumption f s tenant th d of
                             None \<Rightarrow> tenant \<in> set (si_paused_tenants s) | Some c \<Rightarrow> is_paused c)
       else x \<in> set (si_paused_tenants s))
    \<and> si_projects s' = map (\<lambda>p. if pj_tenant p = tenant \<and> \<not> pj_deleted p
        then (case project_consumption f s tenant th d (pj_id p) of
                None \<Rightarrow> p | Some c \<Rightarrow> p\<lparr>pj_paused := is_paused c\<rparr>)
        else p) (si_projects s)
    \<and> s'\<lparr>si_projects := si_projects s, si_paused_tenants := si_paused_tenants s\<rparr> = s"
  unfolding s'_def refresh_eq th_def [symmetric]
  by (auto simp: refreshed_def set_tenant_pause_def split: option.split)

section \<open>A spent budget stops new runs\<close>

lemma site_task_refresh [simp]:
  "site_task (refresh_budget_pause_flags f tenant d s) = site_task s"
  "si_agents (refresh_budget_pause_flags f tenant d s) = si_agents s"
  by (auto simp: refresh_eq set_tenant_pause_def site_task_def split: option.split)

lemma refresh_blocks:
  fixes f d tenant
  defines "th \<equiv> get_budget_alert_thresholds (fi_thresholds f)"
  assumes c: "project_consumption f s tenant th d project = Some c \<or> tenant_consumption f s tenant th d = Some c"
    and spent: "is_paused c"
    and live: "live_project s project = Some p" and own: "pj_tenant p = tenant"
  shows "budget_pause_block (refresh_budget_pause_flags f tenant d s) tenant project \<noteq> None"
proof -
  let ?s' = "refresh_budget_pause_flags f tenant d s"
  from c show ?thesis
  proof
    assume pc: "project_consumption f s tenant th d project = Some c"
    have p: "p \<in> set (si_projects s)" "pj_id p = project" "\<not> pj_deleted p"
      using live by (auto simp: live_project_def find_Some_iff)
    have "p\<lparr>pj_paused := True\<rparr> = refreshed (project_consumption f s tenant th d) tenant p"
      using p own pc spent by (simp add: refreshed_def)
    then have "p\<lparr>pj_paused := True\<rparr> \<in> set (si_projects ?s')"
      using p(1) unfolding refresh_eq th_def [symmetric] by simp
    then have "\<exists>q \<in> set (si_projects ?s'). pj_id q = project \<and> pj_tenant q = tenant \<and> \<not> pj_deleted q \<and> pj_paused q"
      using p own by (intro bexI [of _ "p\<lparr>pj_paused := True\<rparr>"]) simp_all
    then show ?thesis by (simp add: budget_pause_block_def)
  next
    assume "tenant_consumption f s tenant th d = Some c"
    then have "tenant \<in> set (si_paused_tenants ?s')"
      using spent unfolding refresh_eq th_def [symmetric] by (simp add: set_tenant_pause_def)
    then show ?thesis by (simp add: budget_pause_block_def)
  qed
qed

text \<open>
  C9. A spent budget stops new runs: when the project of a task, or its tenant, has spent its
  budget, a dispatch after the sweep of that tenant sends no message for the task and leaves
  the database as the sweep left it, whatever the state of the task, unless the task is a
  person's.
\<close>

theorem spent_budget_stops_dispatch:
  fixes f tenant d
  defines "th \<equiv> get_budget_alert_thresholds (fi_thresholds f)"
  assumes task: "site_task s i = Some t" "et_tenant t = tenant"
    and owner: "\<And>p. live_project s (et_project t) = Some p \<Longrightarrow> pj_tenant p = tenant"
    and ai: "human_assignee s t = None"
    and c: "project_consumption f s tenant th d (et_project t) = Some c \<or> tenant_consumption f s tenant th d = Some c"
    and spent: "co_budget_usd c = Some b" "0 < b" "b \<le> co_spend c"
  shows "let s' = fst (sweep_tenant_budgets send tenant d (s, f))
         in dispatch_task platform now claim i tenant s' rr = Inr (NotRouted False, s', rr)"
proof -
  define s' where "s' = refresh_budget_pause_flags f tenant d s"
  have "co_percent c = percent_used (co_spend c) (co_budget_usd c)"
    using c consumption_scope by (auto simp: project_consumption_def tenant_consumption_def split: option.splits)
  then have paused: "is_paused c"
    using spent pause_threshold_exact [of "co_spend c" "co_budget_usd c"] by (simp add: is_paused_iff)
  have ai': "human_assignee s' t = None" using ai by (simp add: human_assignee_def s'_def cong: option.case_cong)
  have task': "site_task s' i = Some t" using task by (simp add: s'_def)
  have "dispatch_task platform now claim i tenant s' rr = Inr (NotRouted False, s', rr)"
  proof (cases "live_project s (et_project t)")
    case None
    have "find (\<lambda>p. pj_id p = j \<and> \<not> pj_deleted p) (map (refreshed h tenant) ps) = None"
      if "find (\<lambda>p. pj_id p = j \<and> \<not> pj_deleted p) ps = None" for j h ps
      using that by (auto simp: find_None_iff refreshed_def split: option.split)
    then have "live_project s' (et_project t) = None"
      using None by (simp add: live_project_def s'_def refresh_eq)
    then show ?thesis using task' by (simp add: dispatch_task_def)
  next
    case (Some p)
    have "budget_pause_block s' tenant (et_project t) \<noteq> None"
      unfolding s'_def using c paused Some owner [OF Some] unfolding th_def by (intro refresh_blocks)
    then show ?thesis using task task' ai' by (simp add: dispatch_task_def)
  qed
  then show ?thesis by (simp add: sweep_tenant_budgets_def Let_def s'_def)
qed

section \<open>Alerts\<close>

lemma fire_thresholds_eq:
  assumes "distinct ts" and "\<And>t. t \<in> set ts \<Longrightarrow> t \<notin> seen \<Longrightarrow> alert_of tenant c t \<notin> set rows"
  shows "\<exists>fired quiet. fire_thresholds send tenant c seen ts rows
      = (rows @ map (alert_of tenant c) (filter (\<lambda>t. t \<notin> seen) ts), fired, quiet)
    \<and> map fr_row fired = map (alert_of tenant c) (filter (\<lambda>t. t \<notin> seen) ts)"
  using assms
proof (induction ts arbitrary: rows)
  case (Cons t ts)
  show ?case
  proof (cases "t \<in> seen")
    case True
    obtain fired quiet where "fire_thresholds send tenant c seen ts rows
        = (rows @ map (alert_of tenant c) (filter (\<lambda>t. t \<notin> seen) ts), fired, quiet)"
      and "map fr_row fired = map (alert_of tenant c) (filter (\<lambda>t. t \<notin> seen) ts)"
      using Cons.IH [of rows] Cons.prems by (metis distinct.simps(2) list.set_intros(2))
    then show ?thesis using True by (simp add: Let_def)
  next
    case False
    let ?rows = "rows @ [alert_of tenant c t]"
    have ins: "insert_alert (alert_of tenant c t) rows = ?rows"
      using Cons.prems(2) [of t] False by (simp add: insert_alert_def)
    have later: "alert_of tenant c u \<notin> set ?rows" if "u \<in> set ts" "u \<notin> seen" for u
      using Cons.prems that by (auto simp: alert_of_def)
    obtain fired quiet where "fire_thresholds send tenant c seen ts ?rows
        = (?rows @ map (alert_of tenant c) (filter (\<lambda>t. t \<notin> seen) ts), fired, quiet)"
      and "map fr_row fired = map (alert_of tenant c) (filter (\<lambda>t. t \<notin> seen) ts)"
      using Cons.IH [of ?rows] later Cons.prems(1) by auto
    then show ?thesis using False by (simp add: Let_def ins)
  qed
qed simp

lemma alert_of_eq:
  "alert_of tenant c t \<in> A \<longleftrightarrow> (\<exists>r \<in> A. al_tenant r = tenant \<and> al_scope r = co_scope c
     \<and> al_project r = co_project c \<and> al_period_start r = w_start (co_window c) \<and> t = al_threshold r)"
proof -
  have same: "alert_of tenant c t = r \<longleftrightarrow> al_tenant r = tenant \<and> al_scope r = co_scope c \<and> al_project r = co_project c
      \<and> al_period_start r = w_start (co_window c) \<and> t = al_threshold r" for r
    by (cases r) (auto simp: alert_of_def)
  have "alert_of tenant c t \<in> A \<longleftrightarrow> (\<exists>r \<in> A. alert_of tenant c t = r)" by simp
  also have "\<dots> \<longleftrightarrow> (\<exists>r \<in> A. al_tenant r = tenant \<and> al_scope r = co_scope c \<and> al_project r = co_project c
      \<and> al_period_start r = w_start (co_window c) \<and> t = al_threshold r)"
    by (simp only: same)
  finally show ?thesis .
qed

definition due :: "string \<Rightarrow> consumption list \<Rightarrow> alert_row set" where
  "due tenant cs = (\<Union>c \<in> set cs. alert_of tenant c ` set (co_crossed c))"

lemma evaluate_consumptions_eq:
  assumes "\<And>c. c \<in> set cs \<Longrightarrow> distinct (co_crossed c)"
  shows "\<exists>fired quiet. evaluate_consumptions send tenant cs rows = (rows @ map fr_row fired, fired, quiet)
    \<and> distinct (map fr_row fired) \<and> set (map fr_row fired) = due tenant cs - set rows"
  using assms
proof (induction cs arbitrary: rows)
  case (Cons c cs)
  let ?seen = "already_fired rows tenant c"
  let ?new = "map (alert_of tenant c) (filter (\<lambda>t. t \<notin> ?seen) (co_crossed c))"
  have seen: "t \<in> ?seen \<longleftrightarrow> alert_of tenant c t \<in> set rows" for t
    by (auto simp: already_fired_def alert_of_eq image_iff)
  obtain f1 q1 where one: "fire_thresholds send tenant c ?seen (co_crossed c) rows = (rows @ ?new, f1, q1)"
    and f1: "map fr_row f1 = ?new"
    using fire_thresholds_eq [of "co_crossed c" ?seen tenant c rows send] Cons.prems seen by auto
  obtain f2 q2 where two: "evaluate_consumptions send tenant cs (rows @ ?new)
        = ((rows @ ?new) @ map fr_row f2, f2, q2)"
    and f2: "distinct (map fr_row f2)" "set (map fr_row f2) = due tenant cs - set (rows @ ?new)"
    using Cons.IH [of "rows @ ?new"] Cons.prems by auto
  have new: "distinct ?new" "set ?new = alert_of tenant c ` set (co_crossed c) - set rows"
    using Cons.prems seen by (auto simp: distinct_map inj_on_def alert_of_def)
  have "distinct (map fr_row (f1 @ f2))" "set (map fr_row (f1 @ f2)) = due tenant (c # cs) - set rows"
    using new f2 f1 by (auto simp: due_def)
  moreover have "evaluate_consumptions send tenant (c # cs) rows = (rows @ map fr_row (f1 @ f2), f1 @ f2, q1 @ q2)"
    using one two f1 by (simp add: Let_def)
  ultimately show ?case by blast
qed (simp add: due_def)

lemma in_map_filter: "y \<in> set (List.map_filter h xs) \<longleftrightarrow> (\<exists>x \<in> set xs. h x = Some y)"
  by (induction xs) (auto simp: List.map_filter_simps split: option.split)

lemma crossed_distinct:
  "c \<in> set (compute_budget_consumption f s tenant d) \<Longrightarrow> distinct (co_crossed c)"
proof -
  assume c: "c \<in> set (compute_budget_consumption f s tenant d)"
  define th where "th = get_budget_alert_thresholds (fi_thresholds f)"
  have "\<exists>scope project b. consumption_for_scope f s tenant th d scope project b = Some c"
    using c
    by (auto simp: compute_budget_consumption_def Let_def th_def [symmetric] tenant_consumption_def
        project_consumption_def in_map_filter split: option.splits) (blast | metis)+
  then have "co_crossed c = crossed (co_percent c) th" using consumption_scope by blast
  moreover have "distinct th" using thresholds_facts [of "fi_thresholds f"] by (simp add: th_def Let_def)
  ultimately show ?thesis by (simp add: crossed_def split: option.split)
qed

text \<open>Evaluations one after another, each with the state and the consumption of its moment.\<close>

fun evaluations ::
  "(alert_row \<Rightarrow> bool) \<Rightarrow> (site \<times> finance \<times> string \<times> date) list \<Rightarrow> alert_row list
     \<Rightarrow> alert_row list \<times> alert_row list" where
  "evaluations send [] rows = (rows, [])"
| "evaluations send ((s, f, tenant, d) # es) rows =
     (let (f', fired, _) = evaluate_budget_alerts send tenant d s (f\<lparr>fi_alerts := rows\<rparr>);
          (rows', more) = evaluations send es (fi_alerts f')
      in (rows', map fr_row fired @ more))"

definition due_over :: "(site \<times> finance \<times> string \<times> date) list \<Rightarrow> alert_row set" where
  "due_over es = (\<Union>(s, f, tenant, d) \<in> set es. due tenant (compute_budget_consumption f s tenant d))"

lemma compute_ignores_alerts [simp]:
  "compute_budget_consumption (f\<lparr>fi_alerts := rows\<rparr>) s tenant d = compute_budget_consumption f s tenant d"
proof -
  have cost: "human_cost_of (f\<lparr>fi_alerts := rows\<rparr>) = human_cost_of f"
    by (simp add: fun_eq_iff human_cost_of_def)
  have human: "folded_human_cost (f\<lparr>fi_alerts := rows\<rparr>) = folded_human_cost f"
    by (intro ext) (simp add: folded_human_cost_def human_cost_projects_def cost Let_def
        split: budget_scope.split option.split)
  have usd: "budget_usd (f\<lparr>fi_alerts := rows\<rparr>) = budget_usd f" by (intro ext) (simp add: budget_usd_def)
  have "consumption_for_scope (f\<lparr>fi_alerts := rows\<rparr>) s tenant th d = consumption_for_scope f s tenant th d" for th
    by (intro ext) (simp only: consumption_for_scope_def human usd)
  then show ?thesis
    by (simp add: compute_budget_consumption_def tenant_consumption_def project_consumption_def Let_def
        cong: option.case_cong)
qed

text \<open>
  C15. Each alert is raised exactly once. Over any sequence of evaluations, of whatever tenants,
  days and spending, every threshold a scope crosses in a period is raised in the first
  evaluation that sees it crossed, unless an earlier row says it was, and never again; every
  alert raised leaves its row and no other row is written.
\<close>

theorem alerts_exactly_once:
  "let (rows', raised) = evaluations send es rows
   in rows' = rows @ raised \<and> distinct raised \<and> set raised = due_over es - set rows"
proof (induction es arbitrary: rows)
  case (Cons e es)
  obtain s f tenant d where e: "e = (s, f, tenant, d)" by (cases e)
  let ?cs = "compute_budget_consumption f s tenant d"
  obtain fired quiet where ev: "evaluate_consumptions send tenant ?cs rows = (rows @ map fr_row fired, fired, quiet)"
    and fired: "distinct (map fr_row fired)" "set (map fr_row fired) = due tenant ?cs - set rows"
    using evaluate_consumptions_eq [of ?cs send tenant rows] crossed_distinct by blast
  obtain rows' more where rest: "evaluations send es (rows @ map fr_row fired) = (rows', more)"
    by (cases "evaluations send es (rows @ map fr_row fired)")
  then have more: "rows' = (rows @ map fr_row fired) @ more" "distinct more"
      "set more = due_over es - set (rows @ map fr_row fired)"
    using Cons.IH [of "rows @ map fr_row fired"] by simp_all
  have "evaluations send (e # es) rows = (rows', map fr_row fired @ more)"
    using ev rest by (simp add: e evaluate_budget_alerts_def Let_def)
  moreover have "distinct (map fr_row fired @ more)" using fired more by auto
  moreover have "set (map fr_row fired @ more) = due_over (e # es) - set rows"
    using fired more by (auto simp: due_over_def e)
  ultimately show ?case using more by simp
qed (simp add: due_over_def)

section \<open>What the pause does not do\<close>

text \<open>
  Consumption does not read the flags, so an override is undone by the next sweep that finds
  the scope spent: \<^verbatim>\<open>temporary_allowance_until\<close> is recorded and never read.
\<close>

lemma override_undone_by_sweep:
  "tenant_consumption f s tenant (get_budget_alert_thresholds (fi_thresholds f)) d = Some c \<Longrightarrow> is_paused c
   \<Longrightarrow> tenant \<notin> set (si_paused_tenants (snd (override_pause tenant TenantScope None s)))
     \<and> tenant \<in> set (si_paused_tenants (refresh_budget_pause_flags f tenant d
         (snd (override_pause tenant TenantScope None s))))"
proof -
  assume c: "tenant_consumption f s tenant (get_budget_alert_thresholds (fi_thresholds f)) d = Some c" "is_paused c"
  let ?s = "snd (override_pause tenant TenantScope None s)"
  have s: "?s = set_tenant_pause tenant False s"
    by (simp add: override_pause_def clear_budget_pause_def)
  have "site_task ?s = site_task s" "site_runs ?s = site_runs s" "si_runs ?s = si_runs s"
    "si_projects ?s = si_projects s" "si_agents ?s = si_agents s" for i
    unfolding s by (auto simp: set_tenant_pause_def site_task_def site_runs_def)
  then have "consumption_for_scope f ?s = consumption_for_scope f s"
    by (intro ext)
      (simp only: consumption_for_scope_def spend_usd_in_window_def folded_human_cost_def human_cost_projects_def
        human_cost_of_def [abs_def] tenant_projects_def compute_human_cost_usd_def sessions_in_scope_def
        session_cost_def [abs_def] session_rate_def)
  then have "tenant_consumption f ?s tenant (get_budget_alert_thresholds (fi_thresholds f)) d = Some c"
    using c(1) by (simp add: tenant_consumption_def cong: option.case_cong)
  then show ?thesis
    using c(2) by (auto simp: refresh_eq s set_tenant_pause_def)
qed

text \<open>A scope whose budget was removed, or whose period is malformed, stays as it was paused.\<close>

lemma removed_budget_stays_paused:
  "find (\<lambda>g. og_id g = tenant) (fi_orgs f) = Some org \<Longrightarrow> bd_amount (og_budget org) = None
   \<Longrightarrow> tenant \<in> set (si_paused_tenants s)
   \<Longrightarrow> tenant \<in> set (si_paused_tenants (refresh_budget_pause_flags f tenant d s))"
  by (simp add: refresh_eq tenant_consumption_def consumption_for_scope_def has_budget_def)

text \<open>
  Two evaluations that both read the debounce rows before either wrote them raise the same
  alert twice, and for a tenant both rows stay.
\<close>

lemma stale_read_raises_twice:
  assumes "co_project c = None"
  shows "fire_thresholds send tenant c {} [t] (fst (fire_thresholds send tenant c {} [t] rows))
    = (rows @ [alert_of tenant c t, alert_of tenant c t],
       [\<lparr>fr_row = alert_of tenant c t, fr_percent = co_percent c, fr_dispatched = send (alert_of tenant c t)\<rparr>], [])"
  using assms by (simp add: insert_alert_def alert_of_def Let_def)

section \<open>Witness\<close>

definition demo_budget :: budget where
  "demo_budget = \<lparr>bd_amount = Some 100, bd_currency = Some ''usd'', bd_period = Some ''monthly'',
     bd_start_day = None, bd_length_days = None\<rparr>"

definition demo_finance :: finance where
  "demo_finance = \<lparr>fi_orgs = [], fi_project_budget = (\<lambda>_. demo_budget), fi_includes_human = (\<lambda>_. False),
     fi_sessions = [], fi_hourly = Map.empty, fi_rates = [], fi_thresholds = None, fi_alerts = []\<rparr>"

definition spent_site :: site where
  "spent_site = demo_site [live_task ''t'' T_READY] [(blank_execution 0 ''t'')\<lparr>total_cost_usd := 100\<rparr>]"

lemma spent_budget_stops_dispatch_witness:
  "let s' = fst (sweep_tenant_budgets (\<lambda>_. True) ''a'' (Date 1970 1 1) (spent_site, demo_finance))
   in dispatch_task [] 10 ''k1'' ''t'' ''a'' s' Map.empty = Inr (NotRouted False, s', Map.empty)"
proof -
  let ?pc = "project_consumption demo_finance spent_site ''a'' (get_budget_alert_thresholds (fi_thresholds demo_finance))
    (Date 1970 1 1) ''pr''"
  have "case ?pc of None \<Rightarrow> False | Some c \<Rightarrow> co_budget_usd c = Some 100 \<and> co_spend c = 100"
    by code_simp
  then obtain c where c: "?pc = Some c" "co_budget_usd c = Some 100" "co_spend c = 100"
    by (auto split: option.splits)
  show ?thesis
    by (rule spent_budget_stops_dispatch [where t = "live_task ''t'' T_READY" and c = c and b = 100])
      (use c in \<open>simp_all add: spent_site_def live_task_def live_project_def demo_site_def demo_project_def
         human_assignee_def site_task_def get_task_def\<close>)
qed

end
