(* ===== verification/BudgetEnvelope.thy ===== *)
theory BudgetEnvelope
  imports Executions
begin

text \<open>
  The budgets a run is sent with, \<^verbatim>\<open>apps/api-server/src/api_server/budgets/envelope.py\<close>:
  the platform's values, the project's over them, each cut to the ceiling; the multiplier of
  the ceiling (\<^verbatim>\<open>db/platform_settings.py\<close>) and the check the API makes of a project's
  values (\<^verbatim>\<open>schemas/projects.py\<close>). Finite floats are exact rationals; how the language
  reads a float from a string is the parameter \<open>parse\<close>.
\<close>

section \<open>The ceiling\<close>

definition execution_budget_ceiling :: "(string \<times> rat) list" where
  "execution_budget_ceiling =
     [(''max_iterations'', 50), (''max_tokens'', 500000), (''max_cost_usd'', 5),
      (''max_wall_clock_s'', 7200), (''max_tool_calls'', 50)]"

definition int_keys :: "string set" where
  "int_keys = {''max_iterations'', ''max_tokens'', ''max_tool_calls''}"

definition multiplier_exempt_keys :: "string set" where
  "multiplier_exempt_keys = {''max_wall_clock_s''}"

datatype float_error = FloatTypeError | FloatValueError | FloatOverflowError

text \<open>\<^verbatim>\<open>float(n)\<close> raises for an integer that rounds past the largest float.\<close>

definition float_of_int :: "int \<Rightarrow> (float_error, pyfloat) result" where
  "float_of_int n =
     (if 2 ^ 1024 - 2 ^ 970 \<le> \<bar>n\<bar> then Inl FloatOverflowError else Inr (Finite (of_int n)))"

definition to_float :: "(string \<Rightarrow> pyfloat option) \<Rightarrow> pyval \<Rightarrow> (float_error, pyfloat) result" where
  "to_float parse v =
     (case v of
        PInt n \<Rightarrow> float_of_int n
      | PBool b \<Rightarrow> Inr (Finite (if b then 1 else 0))
      | PFloat _ x \<Rightarrow> Inr x
      | PStr s \<Rightarrow> (case parse s of None \<Rightarrow> Inl FloatValueError | Some x \<Rightarrow> Inr x)
      | _ \<Rightarrow> Inl FloatTypeError)"

text \<open>\<^verbatim>\<open>min(a, b)\<close> and \<^verbatim>\<open>max(a, b)\<close> keep the first unless the second is smaller, or greater.\<close>

definition py_min :: "pyfloat \<Rightarrow> pyfloat \<Rightarrow> pyfloat" where
  "py_min a b = (if float_less b a then b else a)"

definition py_max :: "pyfloat \<Rightarrow> pyfloat \<Rightarrow> pyfloat" where
  "py_max a b = (if float_less a b then b else a)"



section \<open>Resolving\<close>

datatype budget_value = Count int | Amount pyfloat

text \<open>\<^verbatim>\<open>merged.update\<close>: the project's value of a key over the platform's.\<close>

definition dict_of :: "pyval \<Rightarrow> pydict" where
  "dict_of v = (case v of PDict d \<Rightarrow> d | _ \<Rightarrow> [])"

definition merged_value :: "pyval \<Rightarrow> pyval \<Rightarrow> string \<Rightarrow> pyval option" where
  "merged_value platform project k =
     (case map_of (dict_of project) k of Some v \<Rightarrow> Some v | None \<Rightarrow> map_of (dict_of platform) k)"

text \<open>A number above zero; a Boolean is none. A NaN is not at most zero.\<close>

definition usable_number :: "pyval \<Rightarrow> bool" where
  "usable_number v \<longleftrightarrow>
     (case v of PInt n \<Rightarrow> \<not> n \<le> 0 | PFloat _ x \<Rightarrow> \<not> float_le x (Finite 0) | _ \<Rightarrow> False)"

definition effective_ceiling :: "pyfloat \<Rightarrow> string \<Rightarrow> rat \<Rightarrow> pyfloat" where
  "effective_ceiling m k c =
     (if k \<in> multiplier_exempt_keys then Finite c
      else case m of Finite q \<Rightarrow> Finite (c * q) | _ \<Rightarrow> m)"

definition clamp_value :: "pyfloat \<Rightarrow> string \<Rightarrow> rat \<Rightarrow> pyval \<Rightarrow> (float_error, budget_value) result" where
  "clamp_value m k c raw =
     bindr (to_float (\<lambda>_. None) raw) (\<lambda>x.
       let v = py_min x (effective_ceiling m k c)
       in if k \<in> int_keys
          then (case v of
                  Finite q \<Rightarrow> Inr (Count (trunc_int q))
                | NotANumber \<Rightarrow> Inl FloatValueError
                | _ \<Rightarrow> Inl FloatOverflowError)
          else Inr (Amount v))"

fun resolve_keys ::
  "(string \<Rightarrow> pyval option) \<Rightarrow> pyfloat \<Rightarrow> (string \<times> rat) list
     \<Rightarrow> (float_error, (string \<times> budget_value) list) result" where
  "resolve_keys merged m [] = Inr []"
| "resolve_keys merged m ((k, c) # ks) =
     (case merged k of
        None \<Rightarrow> resolve_keys merged m ks
      | Some raw \<Rightarrow>
          if \<not> usable_number raw then resolve_keys merged m ks
          else bindr (clamp_value m k c raw) (\<lambda>v.
                 bindr (resolve_keys merged m ks) (\<lambda>out. Inr ((k, v) # out))))"

text \<open>The multiplier is a float; zero stands for the default, and it never lowers the ceiling.\<close>

definition resolve_execution_budgets ::
  "pyval \<Rightarrow> pyval \<Rightarrow> pyfloat \<Rightarrow> (float_error, (string \<times> budget_value) list option) result" where
  "resolve_execution_budgets platform_default project_override ceiling_multiplier =
     (let m = py_max (Finite 1) (if ceiling_multiplier = Finite 0 then Finite 1 else ceiling_multiplier)
      in bindr (resolve_keys (merged_value platform_default project_override) m execution_budget_ceiling)
           (\<lambda>out. Inr (if out = [] then None else Some out)))"

section \<open>What the API accepts\<close>

datatype budget_problem = UnknownBudget string | NotANumberBudget string | NotPositive string

definition problem_of :: "string \<times> pyval \<Rightarrow> budget_problem option" where
  "problem_of kv =
     (case kv of (k, raw) \<Rightarrow>
        if k \<notin> fst ` set execution_budget_ceiling then Some (UnknownBudget k)
        else case raw of
               PInt n \<Rightarrow> (if n \<le> 0 then Some (NotPositive k) else None)
             | PFloat _ x \<Rightarrow> (if float_le x (Finite 0) then Some (NotPositive k) else None)
             | _ \<Rightarrow> Some (NotANumberBudget k))"

definition validate_execution_budgets :: "pydict option \<Rightarrow> (budget_problem list, pydict option) result" where
  "validate_execution_budgets value =
     (case value of
        None \<Rightarrow> Inr None
      | Some d \<Rightarrow> (let problems = List.map_filter problem_of d
                   in if problems \<noteq> [] then Inl problems else Inr value))"

section \<open>Bounds\<close>












section \<open>What the API accepts\<close>





section \<open>Values the check lets through\<close>

text \<open>
  Half an iteration passes the check and becomes a budget of no iteration; an integer past the
  floats passes it and makes the dispatch raise; an unusable value of a project hides the
  usable one of the platform.
\<close>

lemma half_is_none:
  "validate_execution_budgets (Some [(''max_iterations'', PFloat ''0.5'' (Finite (1/2)))])
     = Inr (Some [(''max_iterations'', PFloat ''0.5'' (Finite (1/2)))])"
  "resolve_execution_budgets PNone (PDict [(''max_iterations'', PFloat ''0.5'' (Finite (1/2)))]) (Finite 1)
     = Inr (Some [(''max_iterations'', Count 0)])"
  by code_simp+

lemma huge_integer_raises:
  assumes "2 ^ 1024 \<le> n"
  shows "validate_execution_budgets (Some [(''max_tokens'', PInt n)]) = Inr (Some [(''max_tokens'', PInt n)])"
    and "resolve_execution_budgets PNone (PDict [(''max_tokens'', PInt n)]) (Finite 1) = Inl FloatOverflowError"
proof -
  have pos: "\<not> n \<le> 0" using assms by (smt (verit) zero_less_power)
  have over: "to_float (\<lambda>_. None) (PInt n) = Inl FloatOverflowError"
    using assms pos by (simp add: to_float_def float_of_int_def)
  show "validate_execution_budgets (Some [(''max_tokens'', PInt n)]) = Inr (Some [(''max_tokens'', PInt n)])"
    using pos by (simp add: validate_execution_budgets_def List.map_filter_simps problem_of_def execution_budget_ceiling_def)
  have "clamp_value m k c (PInt n) = Inl FloatOverflowError" for m k c
    using over by (simp add: clamp_value_def)
  then show "resolve_execution_budgets PNone (PDict [(''max_tokens'', PInt n)]) (Finite 1) = Inl FloatOverflowError"
    using pos by (simp add: resolve_execution_budgets_def execution_budget_ceiling_def merged_value_def dict_of_def
        usable_number_def py_max_def)
qed

lemma unusable_hides_default:
  "resolve_execution_budgets (PDict [(''max_tool_calls'', PInt 5)]) (PDict [(''max_tool_calls'', PStr ''x'')]) (Finite 1)
     = Inr None"
  by code_simp

section \<open>Witnesses\<close>



end
