(* ===== verification/Watchdog.thy ===== *)
theory Watchdog
  imports Executions
begin

text \<open>
  The watchdog of the infrastructure containers, \<^verbatim>\<open>apps/watchdog/src/watchdog/\<close>: the
  backoff of its restarts (\<^verbatim>\<open>backoff.py\<close>), one tick of a monitor (\<^verbatim>\<open>service_monitor.py\<close>),
  the delivery of the alert (\<^verbatim>\<open>alerting.py\<close>) and how a container is found
  (\<^verbatim>\<open>__main__.py\<close>). What the container engine, the clock and the server answer in a tick is
  an argument; seconds are rationals. The text of the alert and the timeout are left out.
\<close>

section \<open>Backoff\<close>

record backoff_policy =
  initial_seconds :: rat
  multiplier :: rat
  max_attempts :: nat

definition default_policy :: backoff_policy where
  "default_policy = \<lparr>initial_seconds = 10, multiplier = 3, max_attempts = 5\<rparr>"

definition delay_for :: "backoff_policy \<Rightarrow> nat \<Rightarrow> rat" where
  "delay_for p failures = initial_seconds p * multiplier p ^ failures"

record attempt_record =
  consecutive_failures :: nat
  last_attempt_at :: rat
  alerted :: bool
  alert_delivered :: bool

definition reset_record :: attempt_record where
  "reset_record = \<lparr>consecutive_failures = 0, last_attempt_at = 0, alerted = False, alert_delivered = False\<rparr>"

definition exhausted :: "backoff_policy \<Rightarrow> attempt_record \<Rightarrow> bool" where
  "exhausted p r \<longleftrightarrow> max_attempts p \<le> consecutive_failures r"

definition ready_for_next_attempt :: "backoff_policy \<Rightarrow> rat \<Rightarrow> attempt_record \<Rightarrow> bool" where
  "ready_for_next_attempt p now r \<longleftrightarrow>
     consecutive_failures r = 0
     \<or> (\<not> exhausted p r \<and> delay_for p (consecutive_failures r - 1) \<le> now - last_attempt_at r)"

definition record_attempt :: "rat \<Rightarrow> attempt_record \<Rightarrow> attempt_record" where
  "record_attempt now r =
     r\<lparr>consecutive_failures := consecutive_failures r + 1, last_attempt_at := now\<rparr>"

section \<open>Where alerts go\<close>

record alert_sink =
  sink_url :: "string option"
  sink_token :: "string option"

definition stripped_setting :: "string option \<Rightarrow> string option" where
  "stripped_setting v = (let s = strip (case v of None \<Rightarrow> [] | Some x \<Rightarrow> x) in if s = [] then None else Some s)"

definition sink_from_env :: "(string \<rightharpoonup> string) \<Rightarrow> alert_sink" where
  "sink_from_env env =
     \<lparr>sink_url = stripped_setting (env ''WATCHDOG_ALERTS_INGEST_URL''),
      sink_token = stripped_setting (env ''WATCHDOG_ALERTS_INGEST_TOKEN'')\<rparr>"

definition is_configured :: "alert_sink \<Rightarrow> bool" where
  "is_configured k \<longleftrightarrow>
     (case sink_url k of None \<Rightarrow> False | Some u \<Rightarrow> u \<noteq> []) \<and> (case sink_token k of None \<Rightarrow> False | Some t \<Rightarrow> t \<noteq> [])"

text \<open>\<open>reply\<close> is the status of the answer, or nothing when the transport raised.\<close>

definition deliver :: "alert_sink \<Rightarrow> int option \<Rightarrow> bool" where
  "deliver k reply \<longleftrightarrow>
     is_configured k \<and> (case reply of None \<Rightarrow> False | Some status \<Rightarrow> 200 \<le> status \<and> status < 300)"

section \<open>A tick\<close>

text \<open>
  What a tick meets: the clock, read once to decide and once to record, the container it holds,
  what looking the container up again gives, whether a restart goes through, and the answer to
  an alert. An inspection that raises is \<open>None\<close>.
\<close>

datatype resolve_reply = NoResolver | ResolverRaised | ResolverMissing | Resolved "pydict option"

record look =
  lk_now :: rat
  lk_attempt :: rat
  lk_attrs :: "pydict option"
  lk_resolve :: resolve_reply
  lk_restart_ok :: bool
  lk_reply :: "int option"

datatype tick_outcome = Ok | Restarted | Waiting | Exhausted | RestartFailed | InspectFailed

definition healthy_statuses :: "string set" where
  "healthy_statuses = {''healthy'', ''running'', ''starting''}"

definition container_status :: "pydict \<Rightarrow> pyval option" where
  "container_status attrs =
     (case dget_default attrs ''State'' (PDict []) of
        PDict state \<Rightarrow>
          (case por (dget state ''Health'') (PDict []) of
             PDict health \<Rightarrow>
               Some (por (por (dget health ''Status'') (dget state ''Status'')) (PStr ''unknown''))
           | _ \<Rightarrow> None)
      | _ \<Rightarrow> None)"

definition is_healthy :: "pydict option \<Rightarrow> bool option" where
  "is_healthy attrs =
     (case attrs of
        None \<Rightarrow> None
      | Some a \<Rightarrow>
          (case container_status a of
             None \<Rightarrow> None
           | Some (PStr s) \<Rightarrow> Some (s \<in> healthy_statuses)
           | Some (PList _) \<Rightarrow> None
           | Some (PDict _) \<Rightarrow> None
           | Some _ \<Rightarrow> Some False))"

definition healthy_after_re_resolve :: "look \<Rightarrow> bool option" where
  "healthy_after_re_resolve lk =
     (case lk_resolve lk of Resolved attrs \<Rightarrow> is_healthy attrs | _ \<Rightarrow> None)"

definition inspected :: "look \<Rightarrow> bool option" where
  "inspected lk =
     (case is_healthy (lk_attrs lk) of None \<Rightarrow> healthy_after_re_resolve lk | Some h \<Rightarrow> Some h)"

definition deliver_alert :: "alert_sink option \<Rightarrow> look \<Rightarrow> attempt_record \<Rightarrow> bool \<times> attempt_record" where
  "deliver_alert sink lk r =
     (case sink of
        None \<Rightarrow> (False, r)
      | Some k \<Rightarrow>
          if alert_delivered r then (False, r)
          else let sent = deliver k (lk_reply lk) in (sent, r\<lparr>alert_delivered := sent\<rparr>))"

text \<open>The outcome, whether an alert was accepted in this tick, and the record.\<close>

definition check_and_recover ::
  "backoff_policy \<Rightarrow> alert_sink option \<Rightarrow> look \<Rightarrow> attempt_record \<Rightarrow> tick_outcome \<times> bool \<times> attempt_record" where
  "check_and_recover p sink lk r =
     (case inspected lk of
        None \<Rightarrow> (InspectFailed, False, r)
      | Some True \<Rightarrow> (Ok, False, reset_record)
      | Some False \<Rightarrow>
          if exhausted p r
          then (let (sent, r1) = deliver_alert sink lk (r\<lparr>alerted := True\<rparr>) in (Exhausted, sent, r1))
          else if \<not> ready_for_next_attempt p (lk_now lk) r then (Waiting, False, r)
          else (if lk_restart_ok lk then Restarted else RestartFailed, False, record_attempt (lk_attempt lk) r))"

text \<open>The ticks of one monitor, and what each gave.\<close>

fun watch ::
  "backoff_policy \<Rightarrow> alert_sink option \<Rightarrow> look list \<Rightarrow> attempt_record
     \<Rightarrow> (look \<times> tick_outcome \<times> bool) list \<times> attempt_record" where
  "watch p sink [] r = ([], r)"
| "watch p sink (lk # lks) r =
     (let (out, sent, r1) = check_and_recover p sink lk r;
          (entries, r2) = watch p sink lks r1
      in ((lk, out, sent) # entries, r2))"

section \<open>Finding a container\<close>

text \<open>The reply to the query by labels (nothing when it raised), and to the one by name.\<close>

definition resolve_container :: "'c list option \<Rightarrow> (string \<Rightarrow> 'c option) \<Rightarrow> string \<Rightarrow> string \<Rightarrow> 'c option" where
  "resolve_container by_labels by_name project service =
     (case (case by_labels of None \<Rightarrow> [] | Some cs \<Rightarrow> cs) of
        c # _ \<Rightarrow> Some c
      | [] \<Rightarrow> by_name (project @ ''-'' @ service @ ''-1''))"

definition default_services :: "string list" where
  "default_services =
     [''postgres'', ''redis'', ''minio'', ''vault'', ''clamav'', ''egress-proxy'', ''registry-proxy'']"

fun split_commas :: "string \<Rightarrow> string \<Rightarrow> string list" where
  "split_commas acc [] = [acc]"
| "split_commas acc (c # cs) =
     (if c = CHR '','' then acc # split_commas [] cs else split_commas (acc @ [c]) cs)"

definition watched_services :: "string option \<Rightarrow> string list" where
  "watched_services raw =
     (case raw of
        Some s \<Rightarrow> if s \<noteq> [] then filter (\<lambda>x. x \<noteq> []) (map strip (split_commas [] s)) else default_services
      | None \<Rightarrow> default_services)"

text \<open>The monitors at the start: a service whose container is not there gets none.\<close>

definition build_monitors ::
  "(string \<Rightarrow> 'c list option) \<Rightarrow> (string \<Rightarrow> 'c option) \<Rightarrow> string \<Rightarrow> string option
     \<Rightarrow> (string \<times> 'c \<times> attempt_record) list" where
  "build_monitors by_labels by_name project raw =
     List.map_filter
       (\<lambda>svc. map_option (\<lambda>c. (svc, c, reset_record))
          (resolve_container (by_labels svc) by_name project svc))
       (watched_services raw)"

section \<open>Restarts\<close>

definition restarting :: "tick_outcome \<Rightarrow> bool" where
  "restarting out \<longleftrightarrow> out = Restarted \<or> out = RestartFailed"

definition restarts :: "(look \<times> tick_outcome \<times> bool) list \<Rightarrow> look list" where
  "restarts es = map fst (filter (\<lambda>(_, out, _). restarting out) es)"

definition outcomes :: "(look \<times> tick_outcome \<times> bool) list \<Rightarrow> tick_outcome list" where
  "outcomes es = map (\<lambda>(_, out, _). out) es"

lemma entry_simps [simp]:
  "restarts [] = []" "outcomes [] = []"
  "restarts ((lk, out, sent) # es) = (if restarting out then [lk] else []) @ restarts es"
  "outcomes ((lk, out, sent) # es) = out # outcomes es"
  by (simp_all add: restarts_def outcomes_def)

text \<open>Attempts after \<open>k\<close> earlier ones, the last of them at \<open>t\<close>.\<close>

fun spaced :: "backoff_policy \<Rightarrow> nat \<Rightarrow> rat \<Rightarrow> look list \<Rightarrow> bool" where
  "spaced p k t [] \<longleftrightarrow> True"
| "spaced p k t (lk # lks) \<longleftrightarrow>
     k < max_attempts p \<and> (k = 0 \<or> t + delay_for p (k - 1) \<le> lk_now lk) \<and> spaced p (Suc k) (lk_attempt lk) lks"

lemma spaced_gaps:
  "spaced p k t lks \<Longrightarrow> Suc i < length lks \<Longrightarrow> lk_attempt (lks ! i) + delay_for p (k + i) \<le> lk_now (lks ! Suc i)"
proof (induction lks arbitrary: k t i)
  case (Cons lk lks)
  then have rest: "spaced p (Suc k) (lk_attempt lk) lks" by simp
  show ?case
  proof (cases i)
    case 0
    then show ?thesis using rest Cons.prems(2) by (cases lks) auto
  next
    case (Suc j)
    then show ?thesis using Cons.IH [OF rest, of j] Cons.prems(2) by simp
  qed
qed simp

lemma watch_spaced:
  assumes "watch p sink lks r = (es, r')" and "Ok \<notin> set (outcomes es)" and "consecutive_failures r \<le> max_attempts p"
  shows "spaced p (consecutive_failures r) (last_attempt_at r) (restarts es)
    \<and> consecutive_failures r' = consecutive_failures r + length (restarts es)
    \<and> consecutive_failures r' \<le> max_attempts p
    \<and> (Exhausted \<in> set (outcomes es) \<longrightarrow> consecutive_failures r' = max_attempts p)"
  using assms
proof (induction lks arbitrary: r es)
  case (Cons lk lks)
  obtain out sent r1 where tick: "check_and_recover p sink lk r = (out, sent, r1)"
    by (cases "check_and_recover p sink lk r")
  obtain es' where rest: "watch p sink lks r1 = (es', r')" and es: "es = (lk, out, sent) # es'"
    using Cons.prems(1) tick by (auto simp: Let_def split: prod.splits)
  have not_ok: "out \<noteq> Ok" "Ok \<notin> set (outcomes es')" using Cons.prems(2) es by auto
  have step: "(restarting out \<and> consecutive_failures r < max_attempts p
        \<and> ready_for_next_attempt p (lk_now lk) r \<and> r1 = record_attempt (lk_attempt lk) r)
      \<or> (\<not> restarting out \<and> consecutive_failures r1 = consecutive_failures r \<and> last_attempt_at r1 = last_attempt_at r
        \<and> (out = Exhausted \<longrightarrow> max_attempts p \<le> consecutive_failures r))"
    using tick not_ok(1)
    by (auto simp: check_and_recover_def restarting_def exhausted_def deliver_alert_def Let_def
        split: option.splits bool.splits if_splits)
  then have bound: "consecutive_failures r1 \<le> max_attempts p" using Cons.prems(3) by (auto simp: record_attempt_def)
  note ih = Cons.IH [OF rest not_ok(2) bound]
  from step show ?case
  proof
    assume h: "restarting out \<and> consecutive_failures r < max_attempts p
        \<and> ready_for_next_attempt p (lk_now lk) r \<and> r1 = record_attempt (lk_attempt lk) r"
    then have "consecutive_failures r = 0 \<or> last_attempt_at r + delay_for p (consecutive_failures r - 1) \<le> lk_now lk"
      by (auto simp: ready_for_next_attempt_def)
    then show ?thesis using h ih by (auto simp: es record_attempt_def restarting_def)
  next
    assume h: "\<not> restarting out \<and> consecutive_failures r1 = consecutive_failures r \<and> last_attempt_at r1 = last_attempt_at r
        \<and> (out = Exhausted \<longrightarrow> max_attempts p \<le> consecutive_failures r)"
    then show ?thesis using ih by (auto simp: es)
  qed
qed auto

text \<open>
  C25. While a service is not seen healthy, it is restarted at most as often as the policy
  allows, two restarts are at least the delay of their number apart, and the monitor gives up
  only after all of them.
\<close>

theorem restarts_bounded_and_spaced:
  assumes "watch p sink lks reset_record = (es, r)" and "Ok \<notin> set (outcomes es)"
  shows "length (restarts es) \<le> max_attempts p
    \<and> (\<forall>i. Suc i < length (restarts es)
        \<longrightarrow> lk_attempt (restarts es ! i) + delay_for p i \<le> lk_now (restarts es ! Suc i))
    \<and> (Exhausted \<in> set (outcomes es) \<longrightarrow> length (restarts es) = max_attempts p)"
proof -
  have "consecutive_failures reset_record = 0" by (simp add: reset_record_def)
  then show ?thesis
    using watch_spaced [OF assms] spaced_gaps [of p 0 _ "restarts es"] by auto
qed

section \<open>The alert\<close>

definition accepting :: "alert_sink option \<Rightarrow> look \<Rightarrow> bool" where
  "accepting sink lk \<longleftrightarrow> (case sink of None \<Rightarrow> False | Some k \<Rightarrow> deliver k (lk_reply lk))"

definition alerts :: "(look \<times> tick_outcome \<times> bool) list \<Rightarrow> look list" where
  "alerts es = map fst (filter (\<lambda>(_, _, sent). sent) es)"

definition alertable :: "alert_sink option \<Rightarrow> (look \<times> tick_outcome \<times> bool) list \<Rightarrow> look list" where
  "alertable sink es = map fst (filter (\<lambda>(lk, out, _). out = Exhausted \<and> accepting sink lk) es)"

lemma alert_simps [simp]:
  "alerts [] = []" "alertable sink [] = []"
  "alerts ((lk, out, sent) # es) = (if sent then [lk] else []) @ alerts es"
  "alertable sink ((lk, out, sent) # es) = (if out = Exhausted \<and> accepting sink lk then [lk] else []) @ alertable sink es"
  by (simp_all add: alerts_def alertable_def)

lemma watch_alerts:
  assumes "watch p sink lks r = (es, r')" and "Ok \<notin> set (outcomes es)"
  shows "alerts es = (if alert_delivered r then [] else take 1 (alertable sink es))"
  using assms
proof (induction lks arbitrary: r es)
  case (Cons lk lks)
  obtain out sent r1 where tick: "check_and_recover p sink lk r = (out, sent, r1)"
    by (cases "check_and_recover p sink lk r")
  obtain es' where rest: "watch p sink lks r1 = (es', r')" and es: "es = (lk, out, sent) # es'"
    using Cons.prems(1) tick by (auto simp: Let_def split: prod.splits)
  have not_ok: "out \<noteq> Ok" "Ok \<notin> set (outcomes es')" using Cons.prems(2) es by auto
  have "(sent \<longleftrightarrow> out = Exhausted \<and> \<not> alert_delivered r \<and> accepting sink lk)
      \<and> (alert_delivered r1 \<longleftrightarrow> alert_delivered r \<or> sent)"
    using tick not_ok(1)
    by (auto simp: check_and_recover_def accepting_def deliver_alert_def record_attempt_def Let_def
        split: option.splits bool.splits if_splits)
  then show ?case using Cons.IH [OF rest not_ok(2)] by (auto simp: es)
qed simp

text \<open>
  While a service is not seen healthy, at most one alert reaches the server, and it is the
  first one sent after giving up that the server takes: one that fails is sent again with every
  later tick until it is taken.
\<close>

theorem alert_delivered_once:
  assumes "watch p sink lks reset_record = (es, r)" and "Ok \<notin> set (outcomes es)"
  shows "alerts es = take 1 (alertable sink es)"
  using watch_alerts [OF assms] by (simp add: reset_record_def)

section \<open>Giving up\<close>

definition seen_down :: "look \<Rightarrow> bool" where
  "seen_down lk \<longleftrightarrow> inspected lk = Some False"

text \<open>The readings of the clock: ticks at least \<open>step\<close> apart.\<close>

fun ticking :: "rat \<Rightarrow> rat \<Rightarrow> look list \<Rightarrow> bool" where
  "ticking step t [] \<longleftrightarrow> True"
| "ticking step t (lk # lks) \<longleftrightarrow> t + step \<le> lk_now lk \<and> lk_now lk \<le> lk_attempt lk \<and> ticking step (lk_attempt lk) lks"

lemma exhausted_stays:
  "exhausted p r \<Longrightarrow> \<forall>lk \<in> set lks. seen_down lk \<Longrightarrow> watch p sink lks r = (es, r')
     \<Longrightarrow> set (outcomes es) \<subseteq> {Exhausted} \<and> exhausted p r' \<and> length es = length lks"
proof (induction lks arbitrary: r es)
  case (Cons lk lks)
  obtain sent r1 where alert: "deliver_alert sink lk (r\<lparr>alerted := True\<rparr>) = (sent, r1)"
    by (cases "deliver_alert sink lk (r\<lparr>alerted := True\<rparr>)")
  then have "consecutive_failures r1 = consecutive_failures r"
    by (auto simp: deliver_alert_def Let_def split: option.splits if_splits)
  then have tick: "check_and_recover p sink lk r = (Exhausted, sent, r1)" "exhausted p r1"
    using Cons.prems(1,2) alert by (simp_all add: check_and_recover_def seen_down_def exhausted_def)
  obtain es' where rest: "watch p sink lks r1 = (es', r')" and es: "es = (lk, Exhausted, sent) # es'"
    using Cons.prems(3) tick by (auto simp: Let_def split: prod.splits)
  show ?case using Cons.IH [OF tick(2) _ rest] Cons.prems(2) by (auto simp: es)
qed auto

lemma gives_up:
  assumes step: "0 < step" and delays: "\<And>k. Suc k < max_attempts p \<Longrightarrow> delay_for p k \<le> of_nat (Suc m) * step"
    and down: "\<forall>lk \<in> set lks. seen_down lk" and clock: "ticking step t lks"
    and since: "0 < consecutive_failures r \<Longrightarrow> last_attempt_at r + of_nat w * step \<le> t" and w: "w \<le> m"
    and k: "consecutive_failures r \<le> max_attempts p"
    and enough: "max_attempts p * Suc m < length lks + consecutive_failures r * Suc m + w"
    and run: "watch p sink lks r = (es, r')" and some: "lks \<noteq> []"
  shows "last (outcomes es) = Exhausted"
  using down clock since w k enough run some
proof (induction lks arbitrary: t r w es)
  case (Cons lk lks)
  let ?k = "consecutive_failures r"
  show ?case
  proof (cases "exhausted p r")
    case True
    have "set (outcomes es) \<subseteq> {Exhausted}" "length es = length (lk # lks)"
      using exhausted_stays [OF True Cons.prems(1) Cons.prems(7)] by auto
    then have "outcomes es \<noteq> []" by (auto simp: outcomes_def)
    then show ?thesis using \<open>set (outcomes es) \<subseteq> {Exhausted}\<close> last_in_set by blast
  next
    case False
    then have less: "?k < max_attempts p" by (simp add: exhausted_def)
    obtain out sent r1 where tick: "check_and_recover p sink lk r = (out, sent, r1)"
      by (cases "check_and_recover p sink lk r")
    obtain es' where rest: "watch p sink lks r1 = (es', r')" and es: "es = (lk, out, sent) # es'"
      using Cons.prems(7) tick by (auto simp: Let_def split: prod.splits)
    have bound: "?k * Suc m + Suc m \<le> max_attempts p * Suc m"
      using less by (metis Suc_leI add.commute mult_Suc mult_le_mono1)
    have len: "lks \<noteq> []" using Cons.prems(4,6) bound by auto
    have last: "last (outcomes es) = last (outcomes es')" if "es' \<noteq> []"
      using that by (cases es') (auto simp: es)
    have "es' \<noteq> []" using rest len by (cases lks) (auto simp: Let_def split: prod.splits)
    note last = last [OF this]
    have down': "\<forall>lk \<in> set lks. seen_down lk" and clock': "ticking step (lk_attempt lk) lks"
      using Cons.prems(1,2) by auto
    show ?thesis
    proof (cases "ready_for_next_attempt p (lk_now lk) r")
      case True
      then have r1: "r1 = record_attempt (lk_attempt lk) r"
        using tick False Cons.prems(1) by (auto simp: check_and_recover_def seen_down_def)
      have "last (outcomes es') = Exhausted"
        by (rule Cons.IH [OF down' clock' _ _ _ _ rest len, of 0])
          (use r1 less Cons.prems(4,6) in \<open>auto simp: record_attempt_def\<close>)
      then show ?thesis using last by simp
    next
      case not_ready: False
      then have pos: "0 < ?k" and soon: "lk_now lk - last_attempt_at r < delay_for p (?k - 1)"
        using False by (auto simp: ready_for_next_attempt_def)
      have r1: "r1 = r"
        using tick False not_ready Cons.prems(1) by (auto simp: check_and_recover_def seen_down_def)
      have now: "last_attempt_at r + of_nat (Suc w) * step \<le> lk_now lk"
        using Cons.prems(2,3) pos by (auto simp: algebra_simps)
      moreover have "delay_for p (?k - 1) \<le> of_nat (Suc m) * step" using less pos by (intro delays) simp
      ultimately have "of_nat (Suc w) * step < of_nat (Suc m) * step" using soon by linarith
      then have "(of_nat (Suc w) :: rat) < of_nat (Suc m)" using step by (simp only: mult_less_cancel_right_pos)
      then have "Suc w \<le> m" by simp
      have "last (outcomes es') = Exhausted"
        by (rule Cons.IH [OF down' clock' _ \<open>Suc w \<le> m\<close> _ _ rest len])
          (use r1 now Cons.prems(2,5,6) in \<open>auto\<close>)
      then show ?thesis using last by simp
    qed
  qed
qed simp

text \<open>
  C24. A service that stays down is given up, whatever its restarts do: after as many ticks as
  the policy allows attempts, times the number of ticks that fit in the longest delay, the
  monitor is exhausted, so the alert is due.
\<close>

theorem down_service_is_given_up:
  assumes "0 < step" and "\<And>k. Suc k < max_attempts p \<Longrightarrow> delay_for p k \<le> of_nat (Suc m) * step"
    and "\<forall>lk \<in> set lks. seen_down lk" and "ticking step t lks"
    and "max_attempts p * Suc m < length lks" and "watch p sink lks reset_record = (es, r)"
  shows "last (outcomes es) = Exhausted"
  by (rule gives_up [OF assms(1,2,3,4) _ _ _ _ assms(6), of 0])
    (use assms(5) in \<open>auto simp: reset_record_def\<close>)

section \<open>What counts as healthy\<close>

definition state_look :: "string \<Rightarrow> rat \<Rightarrow> look" where
  "state_look health t =
     \<lparr>lk_now = t, lk_attempt = t, lk_attrs = Some [(''State'', PDict [(''Health'', PDict [(''Status'', PStr health)])])],
      lk_resolve = NoResolver, lk_restart_ok = True, lk_reply = Some 200\<rparr>"

text \<open>
  A container that is starting counts as healthy and clears the record. One that never gets
  healthy, and is seen once in its start period after every restart, is restarted forever and
  no alert is ever sent.
\<close>

lemma starting_resets_forever:
  "outcomes (fst (watch default_policy sink
     (concat (map (\<lambda>i. [state_look ''unhealthy'' (of_nat i * 60), state_look ''starting'' (of_nat i * 60 + 30)]) ns))
     reset_record)) = concat (map (\<lambda>_. [Restarted, Ok]) ns)
   \<and> alerts (fst (watch default_policy sink
     (concat (map (\<lambda>i. [state_look ''unhealthy'' (of_nat i * 60), state_look ''starting'' (of_nat i * 60 + 30)]) ns))
     reset_record)) = []"
proof (induction ns)
  case (Cons n ns)
  have down: "inspected (state_look ''unhealthy'' t) = Some False" for t
    by (simp add: state_look_def inspected_def is_healthy_def container_status_def dget_default_def dget_def
        por_def healthy_statuses_def)
  have up: "inspected (state_look ''starting'' t) = Some True" for t
    by (simp add: state_look_def inspected_def is_healthy_def container_status_def dget_default_def dget_def
        por_def healthy_statuses_def)
  have "check_and_recover default_policy sink (state_look ''unhealthy'' t) reset_record
      = (Restarted, False, record_attempt t reset_record)" for t
    by (simp add: check_and_recover_def down exhausted_def default_policy_def reset_record_def
        ready_for_next_attempt_def, simp add: state_look_def)
  moreover have "check_and_recover default_policy sink (state_look ''starting'' t) r = (Ok, False, reset_record)" for t r
    by (simp add: check_and_recover_def up)
  ultimately show ?case using Cons.IH by (simp add: split_beta Let_def)
qed simp

text \<open>The delays that count: the first restart waits for nothing, so the fifth waits 270 seconds
  and the delay of 810 is never read.\<close>

lemma last_delay_unread:
  "ready_for_next_attempt default_policy now r \<longleftrightarrow>
     consecutive_failures r = 0 \<or> (consecutive_failures r < 5
       \<and> delay_for default_policy (consecutive_failures r - 1) \<le> now - last_attempt_at r)"
  "map (delay_for default_policy) [0, 1, 2, 3] = [10, 30, 90, 270]"
  by (auto simp: ready_for_next_attempt_def exhausted_def default_policy_def delay_for_def)

section \<open>Witnesses\<close>

text \<open>A service that is down for good, seen every 300 seconds.\<close>

definition down_looks :: "look list" where
  "down_looks = map (\<lambda>i. state_look ''exited'' (of_nat i * 300)) [1..<8]"

lemma down_looks_down: "\<forall>lk \<in> set down_looks. seen_down lk"
  by (auto simp: down_looks_def seen_down_def state_look_def inspected_def is_healthy_def container_status_def
      dget_default_def dget_def por_def healthy_statuses_def)

definition demo_sink :: "alert_sink option" where
  "demo_sink = Some \<lparr>sink_url = Some ''u'', sink_token = Some ''t''\<rparr>"

lemma demo_watch:
  "outcomes (fst (watch default_policy demo_sink down_looks reset_record))
     = replicate 5 Restarted @ [Exhausted, Exhausted]"
  by code_simp

lemma restarts_bounded_and_spaced_witness:
  "length (restarts (fst (watch default_policy demo_sink down_looks reset_record))) = 5"
  using restarts_bounded_and_spaced [of default_policy demo_sink down_looks
      "fst (watch default_policy demo_sink down_looks reset_record)"
      "snd (watch default_policy demo_sink down_looks reset_record)"]
  by (simp add: demo_watch) (simp add: default_policy_def)

lemma alert_delivered_once_witness:
  "alerts (fst (watch default_policy demo_sink down_looks reset_record))
     = take 1 (alertable demo_sink (fst (watch default_policy demo_sink down_looks reset_record)))
   \<and> length (alertable demo_sink (fst (watch default_policy demo_sink down_looks reset_record))) = 2"
proof
  show "alerts (fst (watch default_policy demo_sink down_looks reset_record))
      = take 1 (alertable demo_sink (fst (watch default_policy demo_sink down_looks reset_record)))"
    by (rule alert_delivered_once [where r = "snd (watch default_policy demo_sink down_looks reset_record)"
          and lks = down_looks and p = default_policy])
      (simp_all add: demo_watch)
  show "length (alertable demo_sink (fst (watch default_policy demo_sink down_looks reset_record))) = 2"
    by code_simp
qed

lemma down_service_is_given_up_witness:
  "last (outcomes (fst (watch default_policy demo_sink down_looks reset_record))) = Exhausted"
proof (rule down_service_is_given_up [where step = 300 and m = 0 and t = 0 and p = default_policy
      and lks = down_looks and sink = demo_sink and r = "snd (watch default_policy demo_sink down_looks reset_record)"])
  show "delay_for default_policy k \<le> of_nat (Suc 0) * 300" if "Suc k < max_attempts default_policy" for k
  proof -
    have "k \<in> {0, 1, 2, 3}" using that by (auto simp: default_policy_def)
    then show ?thesis by (auto simp: delay_for_def default_policy_def)
  qed
  show "\<forall>lk \<in> set down_looks. seen_down lk" by (rule down_looks_down)
  show "ticking 300 0 down_looks" by (simp add: down_looks_def state_look_def upt_rec)
  show "max_attempts default_policy * Suc 0 < length down_looks" by (simp add: default_policy_def down_looks_def)
qed simp_all

end
