(* ===== verification/FileTree.thy ===== *)
theory FileTree
  imports PyValue "HOL-Library.AList" "HOL-Library.Sublist"
begin

text \<open>
  A file system as a tree, for the file tools of the agent runtime: directories, files with
  their permission bits, symbolic links; reading and changing what is at a path, and the
  resolution of a path to the place it names, links followed.
\<close>

section \<open>Trees\<close>

type_synonym path = "string list"

datatype fsnode =
    File string nat
  | Link bool path
  | Dir "(string \<times> fsnode) list"

text \<open>A link says whether its target is absolute. A tree is a node or nothing.\<close>

type_synonym tree = "fsnode option"

primrec at_path :: "path \<Rightarrow> tree \<Rightarrow> tree" where
  "at_path [] n = n"
| "at_path (c # cs) n = (case n of Some (Dir es) \<Rightarrow> at_path cs (map_of es c) | _ \<Rightarrow> None)"

text \<open>What is at the path is replaced, or removed, if its directory is there.\<close>

primrec change_at :: "path \<Rightarrow> (tree \<Rightarrow> tree) \<Rightarrow> tree \<Rightarrow> tree" where
  "change_at [] f n = f n"
| "change_at (c # cs) f n =
     (case n of
        Some (Dir es) \<Rightarrow>
          Some (Dir (case change_at cs f (map_of es c) of
                       None \<Rightarrow> AList.delete c es
                     | Some m \<Rightarrow> AList.update c m es))
      | _ \<Rightarrow> n)"

definition put_at :: "path \<Rightarrow> fsnode \<Rightarrow> tree \<Rightarrow> tree" where
  "put_at p n = change_at p (\<lambda>_. Some n)"

definition remove_at :: "path \<Rightarrow> tree \<Rightarrow> tree" where
  "remove_at p = change_at p (\<lambda>_. None)"

definition is_dir :: "tree \<Rightarrow> bool" where
  "is_dir n \<longleftrightarrow> (case n of Some (Dir _) \<Rightarrow> True | _ \<Rightarrow> False)"

definition is_file :: "tree \<Rightarrow> bool" where
  "is_file n \<longleftrightarrow> (case n of Some (File _ _) \<Rightarrow> True | _ \<Rightarrow> False)"

text \<open>The number of entries below, links not followed.\<close>

fun entries_below :: "fsnode \<Rightarrow> nat" where
  "entries_below (Dir es) = sum_list (map (\<lambda>(c, n). Suc (entries_below n)) es)"
| "entries_below _ = 0"

section \<open>Lemmas on trees\<close>

lemma at_append: "at_path (p @ q) n = at_path q (at_path p n)"
proof (induction p arbitrary: n)
  case (Cons c p)
  then show ?case by (cases q) (auto split: option.split fsnode.split)
qed simp

lemma at_none [simp]: "at_path p None = None"
  by (cases p) simp_all

lemma at_below_none: "at_path p n = None \<Longrightarrow> at_path (p @ q) n = None"
  by (simp add: at_append)

text \<open>A place is writable when it is the top or its directory is there.\<close>

definition placed :: "path \<Rightarrow> tree \<Rightarrow> bool" where
  "placed p n \<longleftrightarrow> p = [] \<or> is_dir (at_path (butlast p) n)"

lemma is_dir_iff: "is_dir n \<longleftrightarrow> (\<exists>es. n = Some (Dir es))"
  by (auto simp: is_dir_def split: option.split fsnode.split)

lemma is_dir_below: "is_dir (at_path (c # q) n) \<longleftrightarrow> (\<exists>es. n = Some (Dir es) \<and> is_dir (at_path q (map_of es c)))"
  by (cases n; cases "the n") (simp_all add: is_dir_def)

lemma placed_Cons: "placed (c # cs) n \<longleftrightarrow> (\<exists>es. n = Some (Dir es) \<and> placed cs (map_of es c))"
proof (cases cs)
  case Nil
  then show ?thesis by (simp add: placed_def is_dir_iff)
next
  case (Cons d ds)
  then have "placed (c # cs) n \<longleftrightarrow> is_dir (at_path (c # butlast cs) n)" by (simp add: placed_def)
  also have "\<dots> \<longleftrightarrow> (\<exists>es. n = Some (Dir es) \<and> placed cs (map_of es c))"
    unfolding is_dir_below using Cons by (simp add: placed_def)
  finally show ?thesis .
qed

lemma at_Cons_some: "at_path (c # p) n \<noteq> None \<longleftrightarrow> (\<exists>es. n = Some (Dir es) \<and> at_path p (map_of es c) \<noteq> None)"
  by (auto split: option.splits fsnode.splits)

lemma there_placed: "at_path p n \<noteq> None \<Longrightarrow> placed p n"
proof (induction p arbitrary: n)
  case (Cons c p)
  then show ?case unfolding at_Cons_some placed_Cons by blast
qed (simp add: placed_def)

lemma change_children:
  "map_of (case m of None \<Rightarrow> AList.delete c es | Some x \<Rightarrow> AList.update c x es) = (map_of es)(c := m)"
  by (auto simp: AList.delete_conv' AList.update_conv' split: option.split)

lemma at_change_same: "at_path p (change_at p f n) = (if placed p n then f (at_path p n) else at_path p n)"
proof (induction p arbitrary: n)
  case (Cons c p)
  then show ?case
    by (cases n; cases "the n") (simp_all add: placed_Cons change_children)
qed (simp add: placed_def)

lemma at_change_below: "placed p n \<Longrightarrow> at_path (p @ q) (change_at p f n) = at_path q (f (at_path p n))"
  by (simp add: at_append at_change_same)

lemma at_change_other: "\<not> prefix p q \<Longrightarrow> \<not> prefix q p \<Longrightarrow> at_path q (change_at p f n) = at_path q n"
proof (induction p arbitrary: q n)
  case (Cons c p)
  show ?case
  proof (cases q)
    case (Cons d q')
    then show ?thesis
      using Cons.IH [of q'] Cons.prems
      by (cases n; cases "the n"; cases "c = d") (auto simp: change_children split: option.split)
  qed (use Cons.prems in simp)
qed simp

text \<open>What is above the path and a directory stays one.\<close>

lemma dir_change_above: "strict_prefix q p \<Longrightarrow> is_dir (at_path q n) \<Longrightarrow> is_dir (at_path q (change_at p f n))"
proof (induction p arbitrary: q n)
  case (Cons c p)
  show ?case
  proof (cases q)
    case Nil
    then show ?thesis using Cons.prems by (auto simp: is_dir_def split: option.splits fsnode.splits)
  next
    case (Cons d q')
    then show ?thesis
      using Cons.IH [of q'] Cons.prems
      by (cases n; cases "the n") (auto simp: change_children is_dir_def split: option.split)
  qed
qed simp

lemma prefix_butlast: "prefix (butlast p) p"
  by (cases p rule: rev_cases) auto

lemma placed_change:
  "\<not> prefix p q \<Longrightarrow> placed q n \<Longrightarrow> placed q (change_at p f n)"
  "q \<noteq> [] \<Longrightarrow> \<not> prefix p (butlast q) \<Longrightarrow> placed q n \<Longrightarrow> placed q (change_at p f n)"
proof -
  have step: "q \<noteq> [] \<Longrightarrow> \<not> prefix p (butlast q) \<Longrightarrow> placed q n \<Longrightarrow> placed q (change_at p f n)"
  proof -
    assume h: "q \<noteq> []" "\<not> prefix p (butlast q)" "placed q n"
    then have "is_dir (at_path (butlast q) n)" by (simp add: placed_def)
    then have "is_dir (at_path (butlast q) (change_at p f n))"
      using h(2) dir_change_above [of "butlast q" p n f] at_change_other [of p "butlast q" f n]
      by (cases "prefix (butlast q) p") (auto simp: strict_prefix_def)
    then show ?thesis by (simp add: placed_def)
  qed
  then show "q \<noteq> [] \<Longrightarrow> \<not> prefix p (butlast q) \<Longrightarrow> placed q n \<Longrightarrow> placed q (change_at p f n)" .
  show "\<not> prefix p q \<Longrightarrow> placed q n \<Longrightarrow> placed q (change_at p f n)"
    using step prefix_order.trans [OF _ prefix_butlast, of p q] by (cases "q = []") (auto simp: placed_def)
qed

lemma placed_change_self: "placed p (change_at p f n) \<longleftrightarrow> placed p n"
proof (induction p arbitrary: n)
  case (Cons c p)
  then show ?case by (cases n; cases "the n") (simp_all add: placed_Cons change_children)
qed (simp add: placed_def)

section \<open>Resolution\<close>

text \<open>
  A path is walked name by name; \<^verbatim>\<open>..\<close> goes up, a link is replaced by its target. A loop of
  links makes the language raise: \<open>None\<close>, when the steps granted do not suffice.
\<close>

fun resolve :: "nat \<Rightarrow> tree \<Rightarrow> path \<Rightarrow> path \<Rightarrow> path option" where
  "resolve k n here [] = Some here"
| "resolve 0 n here (c # cs) = None"
| "resolve (Suc k) n here (c # cs) =
     (if c = [] \<or> c = ''.'' then resolve k n here cs
      else if c = ''..'' then resolve k n (butlast here) cs
      else case at_path (here @ [c]) n of
             Some (Link absolute target) \<Rightarrow> resolve k n (if absolute then [] else here) (target @ cs)
           | _ \<Rightarrow> resolve k n (here @ [c]) cs)"

fun split_slash :: "string \<Rightarrow> string \<Rightarrow> path" where
  "split_slash acc [] = [acc]"
| "split_slash acc (c # s) = (if c = CHR ''/'' then acc # split_slash [] s else split_slash (acc @ [c]) s)"

text \<open>\<^verbatim>\<open>(root / raw).resolve()\<close>: an absolute path replaces the root.\<close>

definition resolve_under :: "nat \<Rightarrow> tree \<Rightarrow> path \<Rightarrow> string \<Rightarrow> path option" where
  "resolve_under k n base raw =
     resolve k n (if take 1 raw = ''/'' then [] else base) (split_slash [] raw)"

definition path_exists :: "nat \<Rightarrow> tree \<Rightarrow> path \<Rightarrow> bool" where
  "path_exists k n p \<longleftrightarrow> (case resolve k n [] p of None \<Rightarrow> False | Some q \<Rightarrow> at_path q n \<noteq> None)"

text \<open>What resolution gives names no link: neither the place nor anything above it is one.\<close>

definition no_links :: "tree \<Rightarrow> path \<Rightarrow> bool" where
  "no_links n p \<longleftrightarrow> (\<forall>q. prefix q p \<longrightarrow> (\<forall>a t. at_path q n \<noteq> Some (Link a t)))"

lemma no_links_butlast: "no_links n p \<Longrightarrow> no_links n (butlast p)"
  using prefix_order.trans [OF _ prefix_butlast, of _ p] by (auto simp: no_links_def)

lemma no_links_top: "no_links n p \<Longrightarrow> no_links n []"
  unfolding no_links_def by (metis Nil_prefix prefix_Nil)

lemma no_links_snoc:
  "no_links n p \<Longrightarrow> (\<And>a t. at_path (p @ [c]) n \<noteq> Some (Link a t)) \<Longrightarrow> no_links n (p @ [c])"
  by (auto simp: no_links_def prefix_snoc)

lemma resolve_no_links: "resolve k n here cs = Some p \<Longrightarrow> no_links n here \<Longrightarrow> no_links n p"
proof (induction k arbitrary: here cs)
  case 0
  then show ?case by (cases cs) auto
next
  case (Suc k)
  show ?case
  proof (cases cs)
    case Nil
    then show ?thesis using Suc.prems by simp
  next
    case (Cons c cs')
    have up: "no_links n (butlast here)" and top: "no_links n []"
      using Suc.prems(2) by (rule no_links_butlast, rule no_links_top)
    note ih = Suc.IH
    show ?thesis
    proof (cases "c = [] \<or> c = ''.'' \<or> c = ''..''")
      case True
      then show ?thesis using Suc.prems ih [OF _ Suc.prems(2)] ih [OF _ up] by (auto simp: Cons split: if_splits)
    next
      case plain: False
      show ?thesis
      proof (cases "\<exists>a t. at_path (here @ [c]) n = Some (Link a t)")
        case True
        then obtain a t where "at_path (here @ [c]) n = Some (Link a t)" by blast
        then show ?thesis
          using Suc.prems plain ih [OF _ Suc.prems(2)] ih [OF _ top] by (auto simp: Cons split: if_splits)
      next
        case False
        then have "resolve k n (here @ [c]) cs' = Some p"
          using Suc.prems(1) plain by (auto simp: Cons split: option.splits fsnode.splits)
        then show ?thesis using ih no_links_snoc [OF Suc.prems(2)] False by blast
      qed
    qed
  qed
qed

end
