(* ===== verification/WorkspaceFiles.thy ===== *)
theory WorkspaceFiles
  imports FileTree AgentHooks
begin

text \<open>
  The file tools of an agent,
  \<^verbatim>\<open>docker/agent-runtimes/agent-runtime/agent_runtime/file_tools.py\<close>: reading, writing,
  deleting and moving inside one workspace directory. What the operating system may refuse is
  an argument of each call. Bytes and text are strings of characters; how the language encodes
  and decodes them is a parameter. The wording of errors is reduced to what they say. Listing
  is in WorkspaceGlob.
\<close>

section \<open>State and environment\<close>

record workspace =
  ws_tree :: tree
  ws_root :: path
  ws_tracked :: "path list"

text \<open>How many steps a resolution may take, the text codec, the bits of a new file.\<close>

record host =
  ho_links :: nat
  ho_encode :: "string \<Rightarrow> string option"
  ho_decode :: "string \<Rightarrow> string option"
  ho_mode :: nat

text \<open>
  What goes wrong in a call: how many directories can be made before one is refused; what a
  write that stops leaves of the new file; whether changing bits, replacing, renaming aside,
  renaming back, unlinking or reading is refused; what a removal that stops leaves. A move that
  the system refuses to do by renaming is done by copying and removing the source, and either
  half may stop.
\<close>

datatype move_fault = MoveRenames | MoveCopies | CopyStops tree | RemovalStops "(string \<times> fsnode) list"

record faults =
  ft_mkdir :: "nat option"
  ft_write :: "tree option"
  ft_chmod :: bool
  ft_replace :: bool
  ft_rename :: bool
  ft_move :: move_fault
  ft_restore :: bool
  ft_discard :: tree
  ft_unlink :: bool
  ft_read :: bool

datatype file_error =
    PathRequired | Escapes string | GitRefused | NotAFile | TooLarge | BadOffset | BadLimit
  | NotUtf8 | OsFailure | NotPutBack path | ContentNotString | BadFlag string pyval | NotFound
  | IsDirectory | RefusesRoot | TrackedTree path | OutOfPlace string | DestinationExists path
  | SamePath | IntoItself | OntoParent path

datatype file_output =
    ReadWhole string
  | ReadPart string nat nat bool
  | Written nat
  | Deleted "nat option"
  | Moved path path "nat option" "nat option option"

datatype file_reply = Done file_output | Refused file_error | Raises

section \<open>Arguments\<close>

definition flag_words :: "(string \<times> bool) list" where
  "flag_words = [(''true'', True), (''false'', False), (''1'', True), (''0'', False)]"

definition read_flag :: "string \<Rightarrow> pyval \<Rightarrow> (file_reply, bool) result" where
  "read_flag name raw =
     (let refused = Inl (Refused (BadFlag name raw))
      in case raw of
           PNone \<Rightarrow> Inr False
         | PBool b \<Rightarrow> Inr b
         | PStr s \<Rightarrow> (case map_of flag_words (lower (strip s)) of Some b \<Rightarrow> Inr b | None \<Rightarrow> refused)
         | PInt i \<Rightarrow> (if i = 0 then Inr False else if i = 1 then Inr True else refused)
         | _ \<Rightarrow> refused)"

definition strip_slash :: "string \<Rightarrow> string" where
  "strip_slash s = rev (dropWhile (\<lambda>c. c = CHR ''/'') (rev (dropWhile (\<lambda>c. c = CHR ''/'') s)))"

fun drop_dot_slash :: "string \<Rightarrow> string" where
  "drop_dot_slash (c # d # s) = (if c = CHR ''.'' \<and> d = CHR ''/'' then drop_dot_slash s else c # d # s)"
| "drop_dot_slash s = s"

definition clean_tracked :: "string \<Rightarrow> string" where
  "clean_tracked line =
     drop_dot_slash (strip_slash (map (\<lambda>c. if c = CHR 0x5C then CHR ''/'' else c) (strip line)))"

definition tracked_paths :: "string \<Rightarrow> path list" where
  "tracked_paths raw =
     filter (\<lambda>p. p \<noteq> [[]] \<and> ''.'' \<notin> set p \<and> ''..'' \<notin> set p)
       (map (split_slash [] \<circ> clean_tracked) (split_lines [] raw))"

section \<open>Where a path leads\<close>

definition git_dir :: string where "git_dir = ''.git''"

definition relative :: "workspace \<Rightarrow> path \<Rightarrow> path" where
  "relative w p = drop (length (ws_root w)) p"

definition safe_path :: "host \<Rightarrow> workspace \<Rightarrow> pyval \<Rightarrow> (file_reply, path) result" where
  "safe_path h w raw =
     (case raw of
        PStr s \<Rightarrow>
          (if strip s = [] then Inl (Refused PathRequired)
           else if CHR 0x00 \<in> set s then Inl Raises
           else case resolve_under (ho_links h) (ws_tree w) (ws_root w) s of
                  None \<Rightarrow> Inl Raises
                | Some p \<Rightarrow> if prefix (ws_root w) p then Inr p else Inl (Refused (Escapes s)))
      | _ \<Rightarrow> Inl (Refused PathRequired))"

definition mutable_path :: "host \<Rightarrow> workspace \<Rightarrow> pyval \<Rightarrow> (file_reply, path) result" where
  "mutable_path h w raw =
     bindr (safe_path h w raw) (\<lambda>p.
       if git_dir \<in> set (relative w p) then Inl (Refused GitRefused) else Inr p)"

section \<open>Reading\<close>

definition max_read_bytes :: nat where "max_read_bytes = 1000000"

definition read_paging :: "pydict \<Rightarrow> (file_reply, nat \<times> nat option) result" where
  "read_paging args =
     (case dget_default args ''offset'' (PInt 0) of
        PInt off \<Rightarrow>
          (if off < 0 then Inl (Refused BadOffset)
           else case dget args ''limit'' of
                  PNone \<Rightarrow> Inr (nat off, None)
                | PInt quota \<Rightarrow> if quota \<le> 0 then Inl (Refused BadLimit) else Inr (nat off, Some (nat quota))
                | _ \<Rightarrow> Inl (Refused BadLimit))
      | _ \<Rightarrow> Inl (Refused BadOffset))"

definition read_part :: "nat \<Rightarrow> nat option \<Rightarrow> string \<Rightarrow> file_output" where
  "read_part off quota content =
     (if off = 0 \<and> quota = None then ReadWhole content
      else let stop = (case quota of None \<Rightarrow> length content | Some n \<Rightarrow> min (length content) (off + n))
           in ReadPart (drop off (take stop content)) off (length content) (stop < length content))"

definition file_read :: "host \<Rightarrow> faults \<Rightarrow> workspace \<Rightarrow> pydict \<Rightarrow> file_reply" where
  "file_read h ft w args =
     (case safe_path h w (dget args ''path'') of
        Inl r \<Rightarrow> r
      | Inr p \<Rightarrow>
          (case at_path p (ws_tree w) of
             Some (File bytes mode) \<Rightarrow>
               (if length bytes > max_read_bytes then Refused TooLarge
                else case read_paging args of
                       Inl r \<Rightarrow> r
                     | Inr (off, quota) \<Rightarrow>
                         if ft_read ft then Refused OsFailure
                         else case ho_decode h bytes of
                                None \<Rightarrow> Refused NotUtf8
                              | Some content \<Rightarrow> Done (read_part off quota content))
           | _ \<Rightarrow> Refused NotAFile))"

section \<open>Names beside a place\<close>

definition scratch_prefix :: string where "scratch_prefix = ''.agent-runtime-tmp.''"

definition scratch :: "path \<Rightarrow> nat \<Rightarrow> path" where
  "scratch p i = butlast p @ [scratch_prefix @ last p @ ''.'' @ nat_str i]"

text \<open>\<^verbatim>\<open>candidato.exists()\<close>: a link counts when what it names is there.\<close>

definition taken :: "host \<Rightarrow> tree \<Rightarrow> path \<Rightarrow> bool" where
  "taken h n p \<longleftrightarrow>
     (case at_path p n of
        None \<Rightarrow> False
      | Some (Link absolute target) \<Rightarrow>
          (case resolve (ho_links h) n (if absolute then [] else butlast p) target of
             None \<Rightarrow> False | Some q \<Rightarrow> at_path q n \<noteq> None)
      | Some _ \<Rightarrow> True)"

function first_free :: "host \<Rightarrow> tree \<Rightarrow> path \<Rightarrow> nat \<Rightarrow> path option" where
  "first_free h n p i =
     (if 1000 \<le> i then None
      else if taken h n (scratch p i) then first_free h n p (Suc i) else Some (scratch p i))"
  by pat_completeness auto
termination by (relation "measure (\<lambda>(_, _, _, i). 1000 - i)") auto

declare first_free.simps [simp del]

definition free_name :: "host \<Rightarrow> tree \<Rightarrow> path \<Rightarrow> path option" where
  "free_name h n p = first_free h n p 0"

text \<open>Setting a place aside: a renaming beside it.\<close>

definition set_aside :: "host \<Rightarrow> faults \<Rightarrow> tree \<Rightarrow> path \<Rightarrow> (path \<times> tree) option" where
  "set_aside h ft n p =
     (case (free_name h n p, at_path p n) of
        (Some q, Some node) \<Rightarrow> if ft_rename ft then None else Some (q, put_at q node (remove_at p n))
      | _ \<Rightarrow> None)"

text \<open>Removing what was set aside; what cannot be removed stays.\<close>

definition discard :: "faults \<Rightarrow> path \<Rightarrow> tree \<Rightarrow> tree" where
  "discard ft q = change_at q (\<lambda>m. if m = None then None else ft_discard ft)"

text \<open>\<^verbatim>\<open>mkdir(parents=True, exist_ok=True)\<close>.\<close>

fun make_dirs :: "nat option \<Rightarrow> path \<Rightarrow> path \<Rightarrow> tree \<Rightarrow> bool \<times> tree" where
  "make_dirs quota here [] n = (True, n)"
| "make_dirs quota here (c # cs) n =
     (case at_path (here @ [c]) n of
        None \<Rightarrow>
          (if quota = Some 0 then (False, n)
           else make_dirs (map_option (\<lambda>k. k - 1) quota) (here @ [c]) cs (put_at (here @ [c]) (Dir []) n))
      | Some (Dir _) \<Rightarrow> make_dirs quota (here @ [c]) cs n
      | Some _ \<Rightarrow> (False, n))"

section \<open>Writing\<close>

text \<open>
  The new text goes to a file beside the place, which then replaces the place. The outcome is
  a success, an error of the system, or an exception that nobody catches: encoding the text
  fails after the file beside was opened.
\<close>

datatype write_outcome = WroteAll | SystemError | EncodeError

definition write_atomic :: "host \<Rightarrow> faults \<Rightarrow> path \<Rightarrow> string \<Rightarrow> tree \<Rightarrow> write_outcome \<times> tree" where
  "write_atomic h ft p content n =
     (case free_name h n p of
        None \<Rightarrow> (SystemError, n)
      | Some q \<Rightarrow>
          (case (ft_write ft, ho_encode h content) of
             (Some left, _) \<Rightarrow> (SystemError, discard ft q (change_at q (\<lambda>_. left) n))
           | (None, None) \<Rightarrow> (EncodeError, put_at q (File [] (ho_mode h)) n)
           | (None, Some bytes) \<Rightarrow>
               (let n1 = put_at q (File bytes (ho_mode h)) n
                in case at_path p n of
                     Some (File _ mode) \<Rightarrow>
                       (if ft_chmod ft \<or> ft_replace ft then (SystemError, discard ft q n1)
                        else (WroteAll, put_at p (File bytes mode) (remove_at q n1)))
                   | Some (Dir _) \<Rightarrow> (SystemError, discard ft q n1)
                   | _ \<Rightarrow>
                       (if ft_replace ft then (SystemError, discard ft q n1)
                        else (WroteAll, put_at p (File bytes (ho_mode h)) (remove_at q n1))))))"

definition file_write :: "host \<Rightarrow> faults \<Rightarrow> workspace \<Rightarrow> pydict \<Rightarrow> file_reply \<times> workspace" where
  "file_write h ft w args =
     (case mutable_path h w (dget args ''path'') of
        Inl r \<Rightarrow> (r, w)
      | Inr p \<Rightarrow>
          (case dget_default args ''content'' (PStr []) of
             PStr content \<Rightarrow>
               (case make_dirs (ft_mkdir ft) [] (butlast p) (ws_tree w) of
                  (False, n) \<Rightarrow> (Refused OsFailure, w\<lparr>ws_tree := n\<rparr>)
                | (True, n) \<Rightarrow>
                    (case write_atomic h ft p content n of
                       (WroteAll, n1) \<Rightarrow> (Done (Written (length content)), w\<lparr>ws_tree := n1\<rparr>)
                     | (SystemError, n1) \<Rightarrow> (Refused OsFailure, w\<lparr>ws_tree := n1\<rparr>)
                     | (EncodeError, n1) \<Rightarrow> (Raises, w\<lparr>ws_tree := n1\<rparr>)))
           | _ \<Rightarrow> (Refused ContentNotString, w)))"

section \<open>Tracked trees\<close>

definition tracked_reason :: "workspace \<Rightarrow> path \<Rightarrow> bool" where
  "tracked_reason w p \<longleftrightarrow>
     is_dir (at_path p (ws_tree w)) \<and> p \<noteq> ws_root w \<and> (\<exists>r \<in> set (ws_tracked w). prefix (relative w p) r)"

definition first_level_tracked :: "workspace \<Rightarrow> path \<Rightarrow> bool" where
  "first_level_tracked w p \<longleftrightarrow>
     is_dir (at_path p (ws_tree w)) \<and> length (relative w p) = 1 \<and> relative w p \<in> set (ws_tracked w)"

definition carry_tracking :: "path \<Rightarrow> path \<Rightarrow> path list \<Rightarrow> path list" where
  "carry_tracking from to rs = map (\<lambda>r. if prefix from r then to @ drop (length from) r else r) rs"

section \<open>Deleting\<close>

definition delete_tree :: "host \<Rightarrow> faults \<Rightarrow> workspace \<Rightarrow> bool \<Rightarrow> path \<Rightarrow> fsnode \<Rightarrow> file_reply \<times> workspace" where
  "delete_tree h ft w recursive p node =
     (if \<not> recursive then (Refused IsDirectory, w)
      else if p = ws_root w then (Refused RefusesRoot, w)
      else if tracked_reason w p then (Refused (TrackedTree (relative w p)), w)
      else case set_aside h ft (ws_tree w) p of
             None \<Rightarrow> (Refused OsFailure, w)
           | Some (q, n) \<Rightarrow>
               (Done (Deleted (Some (entries_below node))), w\<lparr>ws_tree := discard ft q n\<rparr>))"

definition file_delete :: "host \<Rightarrow> faults \<Rightarrow> workspace \<Rightarrow> pydict \<Rightarrow> file_reply \<times> workspace" where
  "file_delete h ft w args =
     (case read_flag ''recursive'' (dget args ''recursive'') of
        Inl r \<Rightarrow> (r, w)
      | Inr recursive \<Rightarrow>
          (case mutable_path h w (dget args ''path'') of
             Inl r \<Rightarrow> (r, w)
           | Inr p \<Rightarrow>
               (case at_path p (ws_tree w) of
                  None \<Rightarrow> (Refused NotFound, w)
                | Some (Dir es) \<Rightarrow> delete_tree h ft w recursive p (Dir es)
                | Some _ \<Rightarrow>
                    if ft_unlink ft then (Refused OsFailure, w)
                    else (Done (Deleted None), w\<lparr>ws_tree := remove_at p (ws_tree w)\<rparr>))))"

section \<open>Moving\<close>

definition move_end :: "host \<Rightarrow> workspace \<Rightarrow> pyval \<Rightarrow> (file_reply, path) result" where
  "move_end h w raw =
     (case raw of
        PStr s \<Rightarrow> if strip s = [] then Inl (Refused PathRequired) else mutable_path h w raw
      | _ \<Rightarrow> Inl (Refused PathRequired))"

definition source_refusal :: "workspace \<Rightarrow> path \<Rightarrow> file_error option" where
  "source_refusal w src =
     (if src = ws_root w then Some RefusesRoot
      else if at_path src (ws_tree w) = None then Some NotFound
      else if first_level_tracked w src then Some (OutOfPlace (hd (relative w src)))
      else None)"

definition overlap_refusal :: "path \<Rightarrow> path \<Rightarrow> file_error option" where
  "overlap_refusal dst src =
     (if src = dst then Some SamePath
      else if prefix src dst then Some IntoItself
      else if prefix dst src then Some (OntoParent (butlast dst @ [last src]))
      else None)"

definition destination_refusal :: "workspace \<Rightarrow> path \<Rightarrow> path \<Rightarrow> bool \<Rightarrow> file_error option" where
  "destination_refusal w dst src overwrite =
     (if dst = ws_root w then Some RefusesRoot
      else case overlap_refusal dst src of
             Some e \<Rightarrow> Some e
           | None \<Rightarrow>
               if at_path dst (ws_tree w) = None then None
               else if \<not> overwrite then Some (DestinationExists (relative w dst))
               else if tracked_reason w dst then Some (TrackedTree (relative w dst))
               else None)"

text \<open>
  \<^verbatim>\<open>shutil.move\<close> onto a free place: a renaming, or a copy and the removal of the source.
  Whether it succeeded, and what is there after it. A removal that stops leaves a file, or an
  empty directory, as it was, and of another directory some of its entries.
\<close>

definition left_of :: "fsnode \<Rightarrow> (string \<times> fsnode) list \<Rightarrow> fsnode" where
  "left_of node left = (case node of Dir es \<Rightarrow> if es = [] then node else Dir left | _ \<Rightarrow> node)"

definition shutil_move :: "faults \<Rightarrow> path \<Rightarrow> path \<Rightarrow> fsnode \<Rightarrow> tree \<Rightarrow> bool \<times> tree" where
  "shutil_move ft src dst node n =
     (case ft_move ft of
        MoveRenames \<Rightarrow> (True, put_at dst node (remove_at src n))
      | MoveCopies \<Rightarrow> (True, remove_at src (put_at dst node n))
      | CopyStops left \<Rightarrow> (False, change_at dst (\<lambda>_. left) n)
      | RemovalStops left \<Rightarrow> (False, put_at src (left_of node left) (put_at dst node n)))"

text \<open>
  Renaming back what was set aside: onto nothing, a file onto a file, or a directory onto an
  empty one.
\<close>

definition put_back :: "faults \<Rightarrow> path \<Rightarrow> path \<Rightarrow> tree \<Rightarrow> tree option" where
  "put_back ft q dst n =
     (case at_path q n of
        None \<Rightarrow> None
      | Some node \<Rightarrow>
          if ft_restore ft
             \<or> (case at_path dst n of
                   None \<Rightarrow> False
                 | Some (Dir es) \<Rightarrow> es \<noteq> [] \<or> \<not> is_dir (Some node)
                 | Some _ \<Rightarrow> is_dir (Some node))
          then None else Some (put_at dst node (remove_at q n)))"

definition execute_move :: "host \<Rightarrow> faults \<Rightarrow> workspace \<Rightarrow> path \<Rightarrow> path \<Rightarrow> fsnode \<Rightarrow> file_reply \<times> workspace" where
  "execute_move h ft w src dst node =
     (let before = at_path dst (ws_tree w);
          counted = (\<lambda>m. case m of Dir _ \<Rightarrow> Some (entries_below m) | _ \<Rightarrow> None);
          output = Done (Moved (relative w src) (relative w dst) (counted node) (map_option counted before));
          carried = carry_tracking (relative w src) (relative w dst) (ws_tracked w)
      in case make_dirs (ft_mkdir ft) [] (butlast dst) (ws_tree w) of
           (False, n) \<Rightarrow> (Refused OsFailure, w\<lparr>ws_tree := n\<rparr>)
         | (True, n) \<Rightarrow>
             if before = None
             then (let (moved, n1) = shutil_move ft src dst node n
                   in if moved then (output, w\<lparr>ws_tree := n1, ws_tracked := carried\<rparr>)
                      else (Refused OsFailure, w\<lparr>ws_tree := n1\<rparr>))
             else case set_aside h ft n dst of
                    None \<Rightarrow> (Refused OsFailure, w\<lparr>ws_tree := n\<rparr>)
                  | Some (q, n1) \<Rightarrow>
                      (let (moved, n2) = shutil_move ft src dst node n1
                       in if moved then (output, w\<lparr>ws_tree := discard ft q n2, ws_tracked := carried\<rparr>)
                          else case put_back ft q dst n2 of
                                 Some n3 \<Rightarrow> (Refused OsFailure, w\<lparr>ws_tree := n3\<rparr>)
                               | None \<Rightarrow> (Refused (NotPutBack (relative w q)), w\<lparr>ws_tree := n2\<rparr>)))"

definition file_move :: "host \<Rightarrow> faults \<Rightarrow> workspace \<Rightarrow> pydict \<Rightarrow> file_reply \<times> workspace" where
  "file_move h ft w args =
     (case read_flag ''overwrite'' (dget args ''overwrite'') of
        Inl r \<Rightarrow> (r, w)
      | Inr overwrite \<Rightarrow>
          (case move_end h w (dget args ''source'') of
             Inl r \<Rightarrow> (r, w)
           | Inr src \<Rightarrow>
               (case move_end h w (dget args ''destination'') of
                  Inl r \<Rightarrow> (r, w)
                | Inr dst \<Rightarrow>
                    (case source_refusal w src of
                       Some e \<Rightarrow> (Refused e, w)
                     | None \<Rightarrow>
                         (case destination_refusal w dst src overwrite of
                            Some e \<Rightarrow> (Refused e, w)
                          | None \<Rightarrow>
                              (case at_path src (ws_tree w) of
                                 None \<Rightarrow> (Refused NotFound, w)
                               | Some node \<Rightarrow> execute_move h ft w src dst node))))))"

section \<open>Calls\<close>

datatype file_call = Read pydict | Write pydict | Delete pydict | Move pydict

definition file_tool :: "host \<Rightarrow> faults \<Rightarrow> file_call \<Rightarrow> workspace \<Rightarrow> file_reply \<times> workspace" where
  "file_tool h ft c w =
     (case c of
        Read args \<Rightarrow> (file_read h ft w args, w)
      | Write args \<Rightarrow> file_write h ft w args
      | Delete args \<Rightarrow> file_delete h ft w args
      | Move args \<Rightarrow> file_move h ft w args)"

fun run_tools :: "host \<Rightarrow> (file_call \<times> faults) list \<Rightarrow> workspace \<Rightarrow> workspace" where
  "run_tools h [] w = w"
| "run_tools h ((c, ft) # cs) w = run_tools h cs (snd (file_tool h ft c w))"

end
