(* ===== verification/WorkspaceSafety.thy ===== *)
theory WorkspaceSafety
  imports WorkspaceFiles
begin

text \<open>
  What is proved of the file tools: where a call can change anything, that the link to the
  branch and the tracked trees survive every sequence of calls, that a write is all or nothing
  and a move never loses its source.
\<close>

section \<open>Where a call changes the tree\<close>

definition apart :: "path \<Rightarrow> path \<Rightarrow> bool" where
  "apart p q \<longleftrightarrow> \<not> prefix p q \<and> \<not> prefix q p"

text \<open>Two trees agree away from some places, and on the directories above them.\<close>

definition agree :: "path set \<Rightarrow> tree \<Rightarrow> tree \<Rightarrow> bool" where
  "agree P n n' \<longleftrightarrow>
     (\<forall>q. (\<forall>p \<in> P. apart p q) \<longrightarrow> at_path q n' = at_path q n)
   \<and> (\<forall>q. (\<forall>p \<in> P. \<not> prefix p q) \<longrightarrow> is_dir (at_path q n) \<longrightarrow> is_dir (at_path q n'))"

lemma agree_refl [simp]: "agree P n n"
  by (simp add: agree_def)







text \<open>Making directories changes nothing but what was missing on the way.\<close>

lemma at_put_missing:
  assumes "at_path p n = None" and "\<not> prefix q p"
  shows "at_path q (put_at p (Dir []) n) = at_path q n"
proof (cases "prefix p q")
  case True
  then obtain r where q: "q = p @ r" "r \<noteq> []" using assms(2) by (auto simp: prefix_def)
  have "at_path q n = None" using at_below_none [OF assms(1)] q(1) by simp
  moreover have "at_path r (Some (Dir [])) = None" using q(2) by (cases r) simp_all
  ultimately show ?thesis using assms(1) by (simp add: q(1) at_append put_at_def at_change_same)
next
  case False
  then show ?thesis using assms(2) by (simp add: put_at_def at_change_other)
qed

lemma at_put_dir: "is_dir (at_path q n) \<Longrightarrow> at_path p n = None \<Longrightarrow> is_dir (at_path q (put_at p (Dir []) n))"
  using dir_change_above [of q p n "\<lambda>_. Some (Dir [])"] at_put_missing [of p n q]
  by (cases "prefix q p"; cases "q = p") (auto simp: put_at_def strict_prefix_def is_dir_def)

lemma make_dirs_facts:
  assumes "make_dirs quota here cs n = (ok, n')"
  shows "(\<not> prefix q (here @ cs) \<longrightarrow> at_path q n' = at_path q n) \<and> (is_dir (at_path q n) \<longrightarrow> is_dir (at_path q n'))
    \<and> (ok \<longrightarrow> is_dir (at_path here n) \<longrightarrow> is_dir (at_path (here @ cs) n'))"
  using assms
proof (induction cs arbitrary: quota here n)
  case (Cons c cs)
  consider (missing) "at_path (here @ [c]) n = None" | (dir) es where "at_path (here @ [c]) n = Some (Dir es)"
    | (other) x where "at_path (here @ [c]) n = Some x" "\<not> is_dir (Some x)"
    by (cases "at_path (here @ [c]) n"; cases "the (at_path (here @ [c]) n)") (auto simp: is_dir_def)
  then show ?case
  proof cases
    case missing
    show ?thesis
    proof (cases "quota = Some 0")
      case False
      let ?n1 = "put_at (here @ [c]) (Dir []) n"
      have run: "make_dirs (map_option (\<lambda>k. k - 1) quota) (here @ [c]) cs ?n1 = (ok, n')"
        using Cons.prems missing False by simp
      have made: "is_dir (at_path (here @ [c]) ?n1)" if "is_dir (at_path here n)"
        using that by (simp add: put_at_def at_change_same placed_def is_dir_def)
      have "\<not> prefix q (here @ [c])" if "\<not> prefix q (here @ c # cs)"
        using that by (metis append.assoc append_Cons append_Nil prefixI prefix_order.trans)
      then show ?thesis
        using Cons.IH [OF run] made at_put_missing [OF missing, of q] at_put_dir [of q n "here @ [c]"] missing by auto
    qed (use Cons.prems missing in auto)
  next
    case dir
    then have "make_dirs quota (here @ [c]) cs n = (ok, n')" using Cons.prems by simp
    from Cons.IH [OF this] show ?thesis using dir by (simp add: is_dir_def)
  next
    case other
    then have "ok = False \<and> n' = n" using Cons.prems by (cases x) (auto simp: is_dir_def)
    then show ?thesis by simp
  qed
qed auto


text \<open>The places a call may touch: its own, and the scratch names beside it.\<close>

definition around :: "path \<Rightarrow> path set" where
  "around p = insert p (range (scratch p))"

lemma first_free_scratch: "first_free h n p i = Some q \<Longrightarrow> \<exists>j. q = scratch p j \<and> \<not> taken h n q"
proof (induction h n p i rule: first_free.induct)
  case (1 h n p i)
  then show ?case using first_free.simps [of h n p i] by (auto split: if_splits)
qed

lemma free_name_scratch: "free_name h n p = Some q \<Longrightarrow> \<exists>i. q = scratch p i \<and> \<not> taken h n q"
  unfolding free_name_def by (rule first_free_scratch)

lemma set_aside_facts:
  "set_aside h ft n p = Some (q, n') \<Longrightarrow> \<exists>i node. q = scratch p i \<and> \<not> taken h n q
     \<and> at_path p n = Some node \<and> n' = put_at q node (remove_at p n)"
  using free_name_scratch by (auto simp: set_aside_def split: option.splits if_splits)



text \<open>Above a directory there are only directories.\<close>

lemma dir_above: "is_dir (at_path (p @ q) n) \<Longrightarrow> is_dir (at_path p n)"
  unfolding at_append
  by (cases q; cases "at_path p n"; cases "the (at_path p n)") (auto simp: is_dir_def)

lemma dir_top: "is_dir (at_path p n) \<Longrightarrow> is_dir n"
  using dir_above [of "[]" p n] by simp

lemma dir_no_links: "is_dir (at_path p n) \<Longrightarrow> no_links n p"
  using dir_above unfolding no_links_def prefix_def by (fastforce simp: is_dir_def)

section \<open>One call\<close>





lemma mutable_facts:
  "mutable_path h w raw = Inr p \<Longrightarrow> prefix (ws_root w) p \<and> git_dir \<notin> set (drop (length (ws_root w)) p)"
  by (auto simp: mutable_path_def safe_path_def relative_def bindr_Inr_iff split: pyval.splits if_splits option.splits)

lemma move_end_facts:
  "move_end h w raw = Inr p \<Longrightarrow> prefix (ws_root w) p \<and> git_dir \<notin> set (drop (length (ws_root w)) p)"
  by (auto simp: move_end_def dest: mutable_facts split: pyval.splits if_splits)

lemma read_flag_refuses: "read_flag name raw = Inl r \<Longrightarrow> r = Refused (BadFlag name raw)"
  by (auto simp: read_flag_def Let_def split: pyval.splits option.splits if_splits)

lemma move_end_no_links:
  assumes "move_end h w raw = Inr p" and "no_links (ws_tree w) (ws_root w)"
  shows "no_links (ws_tree w) p"
proof -
  obtain s where "resolve_under (ho_links h) (ws_tree w) (ws_root w) s = Some p"
    using assms(1) by (auto simp: move_end_def mutable_path_def safe_path_def bindr_Inr_iff
        split: pyval.splits if_splits option.splits)
  then show ?thesis
    using resolve_no_links no_links_top [OF assms(2)] assms(2) unfolding resolve_under_def by (metis (full_types))
qed









section \<open>A write is all or nothing\<close>

lemma prefix_same_length: "length p = length q \<Longrightarrow> prefix p q \<longleftrightarrow> p = q"
  by (auto simp: prefix_def)

lemma scratch_apart: "p \<noteq> [] \<Longrightarrow> apart (scratch p i) p"
proof -
  assume p: "p \<noteq> []"
  have len: "length (scratch p i) = length p" using p by (simp add: scratch_def)
  have "scratch p i \<noteq> p"
  proof
    assume "scratch p i = p"
    then have "last p = scratch_prefix @ last p @ ''.'' @ nat_str i" by (metis last_snoc scratch_def)
    then have "length (last p) = length (scratch_prefix @ last p @ ''.'' @ nat_str i)" by (rule arg_cong)
    then show False by simp
  qed
  then show ?thesis using prefix_same_length [of "scratch p i" p] prefix_same_length [of p "scratch p i"] len
    by (auto simp: apart_def)
qed

lemma apart_sym: "apart p q \<longleftrightarrow> apart q p"
  by (auto simp: apart_def)

lemma at_change_apart: "apart p q \<Longrightarrow> at_path q (change_at p f n) = at_path q n"
  by (simp add: apart_def at_change_other)

lemma at_discard_apart: "apart p q \<Longrightarrow> at_path q (discard ft p n) = at_path q n"
  by (simp add: discard_def at_change_apart)



section \<open>A move never loses its source\<close>

lemma shutil_move_keeps:
  assumes mv: "shutil_move ft src dst node n = (ok, n')" and src: "at_path src n = Some node"
    and sep: "apart src dst" and placed: "placed dst n"
  shows "if ok then at_path dst n' = Some node \<and> at_path src n' = None
    else at_path src n' = Some node
      \<or> (at_path dst n' = Some node \<and> (\<exists>es. node = Dir es \<and> es \<noteq> []))"
proof -
  have "apart dst src" using sep apart_sym by simp
  note away = at_change_apart [OF sep] at_change_apart [OF this]
  have psrc: "placed src n" using src there_placed by simp
  have sd: "placed src (change_at dst f n)" "placed dst (change_at src f n)" for f
    using sep psrc placed by (simp_all add: apart_def placed_change)
  show ?thesis
    using mv src away psrc placed sd
    by (cases "ft_move ft")
      (auto simp: shutil_move_def put_at_def remove_at_def at_change_same left_of_def split: fsnode.splits)
qed

text \<open>A free name is apart from everything that is there.\<close>

lemma free_name_apart:
  assumes "free_name h n dst = Some q" and src: "at_path src n = Some node" "\<And>a t. node \<noteq> Link a t"
    and sep: "apart src dst" and dst: "dst \<noteq> []"
  shows "apart q src"
proof -
  obtain i where q: "q = scratch dst i" "\<not> taken h n q" using free_name_scratch [OF assms(1)] by blast
  have up: "\<not> prefix q src"
  proof
    assume "prefix q src"
    then obtain r where r: "src = q @ r" by (auto simp: prefix_def)
    have "at_path q n \<noteq> None" using src(1) r by (cases "at_path q n") (auto simp: at_append)
    moreover have "\<not> (\<exists>a t. at_path q n = Some (Link a t))"
    proof
      assume "\<exists>a t. at_path q n = Some (Link a t)"
      then show False using src r by (cases r) (auto simp: at_append)
    qed
    ultimately show False using q(2) by (auto simp: taken_def split: option.splits fsnode.splits)
  qed
  have down: "\<not> prefix src q"
  proof
    assume pre: "prefix src q"
    then have "src = q \<or> prefix src (butlast dst)" by (auto simp: q(1) scratch_def prefix_snoc)
    then show False
      using up sep prefix_order.trans [OF _ prefix_butlast, of src dst] by (auto simp: apart_def)
  qed
  show ?thesis using up down by (simp add: apart_def)
qed

lemma put_back_facts:
  assumes "put_back ft q dst n = Some n'" and "apart q dst" and "placed dst n"
  shows "at_path dst n' = at_path q n" and "apart q x \<Longrightarrow> apart dst x \<Longrightarrow> at_path x n' = at_path x n"
    and "\<And>es. at_path dst n = Some (Dir es) \<Longrightarrow> es = []"
proof -
  obtain node where node: "at_path q n = Some node" "n' = put_at dst node (remove_at q n)"
    and empty: "\<And>es. at_path dst n = Some (Dir es) \<Longrightarrow> es = []"
    using assms(1) by (auto simp: put_back_def split: option.splits fsnode.splits if_splits)
  have "\<not> prefix q dst" using assms(2) by (simp add: apart_def)
  then show "at_path dst n' = at_path q n"
    using node assms(3) by (simp add: put_at_def remove_at_def at_change_same placed_change)
  show "apart q x \<Longrightarrow> apart dst x \<Longrightarrow> at_path x n' = at_path x n"
    using node by (simp add: put_at_def remove_at_def at_change_apart)
  show "\<And>es. at_path dst n = Some (Dir es) \<Longrightarrow> es = []" by (rule empty)
qed

lemma set_aside_keeps:
  assumes "set_aside h ft n dst = Some (q, n')" and "dst \<noteq> []" and "placed dst n"
  shows "at_path q n' = at_path dst n" "at_path dst n' = None" "apart q dst"
    and "apart q x \<Longrightarrow> apart dst x \<Longrightarrow> at_path x n' = at_path x n" and "placed dst n'"
proof -
  obtain i node where q: "q = scratch dst i" "at_path dst n = Some node" "n' = put_at q node (remove_at dst n)"
    using set_aside_facts [OF assms(1)] by blast
  show sep: "apart q dst" using q(1) scratch_apart [OF assms(2)] by simp
  have "placed q n" using assms(2,3) by (simp add: q(1) placed_def scratch_def)
  moreover have "\<not> prefix dst q" "\<not> prefix q dst" using sep by (auto simp: apart_def)
  moreover have "placed dst (remove_at dst n)" using assms(3) by (simp add: remove_at_def placed_change_self)
  ultimately have "placed q (remove_at dst n)" "placed dst n'"
    using q(3) by (simp_all add: remove_at_def put_at_def placed_change)
  then show "at_path q n' = at_path dst n" "placed dst n'"
    using q(2,3) by (simp_all add: put_at_def at_change_same)
  show "at_path dst n' = None"
    using q(3) sep assms(3) by (simp add: put_at_def remove_at_def at_change_apart at_change_same)
  show "apart q x \<Longrightarrow> apart dst x \<Longrightarrow> at_path x n' = at_path x n"
    using q(3) by (simp add: put_at_def remove_at_def at_change_apart)
qed

lemma execute_move_keeps:
  assumes run: "execute_move h ft w src dst node = (r, w')" and src: "at_path src (ws_tree w) = Some node"
    and link: "\<And>a t. node \<noteq> Link a t" and sep: "apart src dst" and top: "is_dir (ws_tree w)" and dst: "dst \<noteq> []"
  shows "(if (\<exists>out. r = Done out) then at_path dst (ws_tree w') = Some node \<and> at_path src (ws_tree w') = None
      else (at_path src (ws_tree w') = Some node \<or> at_path dst (ws_tree w') = Some node)
         \<and> (at_path dst (ws_tree w) \<noteq> None
              \<longrightarrow> (\<exists>x \<in> around dst. at_path x (ws_tree w') = at_path dst (ws_tree w))))"
proof -
  obtain ok n where md: "make_dirs (ft_mkdir ft) [] (butlast dst) (ws_tree w) = (ok, n)"
    by (cases "make_dirs (ft_mkdir ft) [] (butlast dst) (ws_tree w)")
  have nsrc: "\<not> prefix src (butlast dst)"
    using sep prefix_order.trans [OF _ prefix_butlast, of src dst] by (auto simp: apart_def)
  have ndst: "\<not> prefix dst (butlast dst)" using dst prefix_length_le [of dst "butlast dst"] by (cases dst rule: rev_cases) auto
  have at_src: "at_path src n = Some node" and at_dst: "at_path dst n = at_path dst (ws_tree w)"
    using make_dirs_facts [OF md, of src] make_dirs_facts [OF md, of dst] nsrc ndst src by simp_all
  have placed: "placed dst n" if ok using make_dirs_facts [OF md] that top by (simp add: placed_def)
  have self: "dst \<in> around dst" by (simp add: around_def)
  show ?thesis
  proof (cases "ok \<and> at_path dst (ws_tree w) \<noteq> None \<and> set_aside h ft n dst \<noteq> None")
    case False
    show ?thesis
    proof (cases "ok \<and> at_path dst (ws_tree w) = None")
      case True
      obtain b n1 where mv: "shutil_move ft src dst node n = (b, n1)" by (cases "shutil_move ft src dst node n")
      show ?thesis
        using run md True mv shutil_move_keeps [OF mv at_src sep placed]
        by (cases b) (auto simp: execute_move_def Let_def)
    next
      case stop: False
      have "r = Refused OsFailure \<and> w' = w\<lparr>ws_tree := n\<rparr>"
      proof (cases ok)
        case True
        then have "set_aside h ft n dst = None" "at_path dst (ws_tree w) \<noteq> None" using False stop by (cases "set_aside h ft n dst"; simp)+
        then show ?thesis using run md True by (auto simp: execute_move_def Let_def)
      qed (use run md in \<open>simp add: execute_move_def Let_def\<close>)
      then show ?thesis using at_src at_dst self by auto
    qed
  next
    case True
    then have ok: ok and before: "at_path dst (ws_tree w) \<noteq> None" by auto
    obtain q n1 where q: "set_aside h ft n dst = Some (q, n1)" using True by auto
    then have free: "free_name h n dst = Some q" by (auto simp: set_aside_def split: option.splits if_splits)
    have qsrc: "apart q src" by (rule free_name_apart [OF free at_src link sep dst])
    note aside = set_aside_keeps [OF q dst placed [OF ok]]
    have src1: "at_path src n1 = Some node" using aside(4) [OF qsrc] sep apart_sym at_src by auto
    obtain b n2 where mv: "shutil_move ft src dst node n1 = (b, n2)" by (cases "shutil_move ft src dst node n1")
    note kept = shutil_move_keeps [OF mv src1 sep aside(5)]
    have at_q: "at_path q n2 = at_path dst (ws_tree w)"
    proof -
      have "apart src q" "apart dst q" using qsrc aside(3) apart_sym by simp_all
      then have "at_path q n2 = at_path q n1"
        using mv by (auto simp: shutil_move_def put_at_def remove_at_def at_change_apart split: move_fault.splits)
      then show ?thesis using aside(1) at_dst by simp
    qed
    have placed2: "placed dst n2"
      using mv aside(5) sep
      by (auto simp: shutil_move_def put_at_def remove_at_def apart_def placed_change placed_change_self split: move_fault.splits)
    have in_around: "q \<in> around dst" using set_aside_facts [OF q] by (auto simp: around_def)
    show ?thesis
    proof (cases b)
      case True
      then have "r = Done (Moved (relative w src) (relative w dst) (case node of Dir _ \<Rightarrow> Some (entries_below node) | _ \<Rightarrow> None)
          (map_option (\<lambda>m. case m of Dir _ \<Rightarrow> Some (entries_below m) | _ \<Rightarrow> None) (at_path dst (ws_tree w))))"
        and "ws_tree w' = discard ft q n2"
        using run md ok before q mv by (auto simp: execute_move_def Let_def)
      then show ?thesis using kept True qsrc aside(3) by (simp add: at_discard_apart)
    next
      case failed: False
      show ?thesis
      proof (cases "put_back ft q dst n2")
        case None
        then have "r = Refused (NotPutBack (relative w q))" "ws_tree w' = n2"
          using run md ok before q mv failed by (auto simp: execute_move_def Let_def)
        then show ?thesis using kept failed at_q in_around by auto
      next
        case (Some n3)
        then have r: "r = Refused OsFailure" "ws_tree w' = n3"
          using run md ok before q mv failed by (auto simp: execute_move_def Let_def)
        note pb = put_back_facts [OF Some aside(3) placed2]
        have "apart dst src" using sep apart_sym by simp
        then have "at_path src n3 = at_path src n2" using pb(2) qsrc by simp
        then show ?thesis using r kept failed pb(1,3) at_q self by auto
      qed
    qed
  qed
qed


text \<open>
  C18. A move never loses its source: when the call says that it moved, the destination holds
  what the source held and the source is gone. When it fails, what the source held is whole at
  the source or at the destination, and what the destination held is at the destination or
  under a scratch name beside it.
\<close>

theorem move_never_loses:
  assumes "file_move h ft w args = (r, w')"
    and "move_end h w (dget args ''source'') = Inr src" "move_end h w (dget args ''destination'') = Inr dst"
    and "at_path src (ws_tree w) = Some node" and "is_dir (at_path (ws_root w) (ws_tree w))"
  shows "if (\<exists>out. r = Done out)
    then at_path dst (ws_tree w') = Some node \<and> at_path src (ws_tree w') = None
    else (at_path src (ws_tree w') = Some node \<or> at_path dst (ws_tree w') = Some node)
       \<and> (at_path dst (ws_tree w) \<noteq> None
            \<longrightarrow> (\<exists>x \<in> around dst. at_path x (ws_tree w') = at_path dst (ws_tree w)))"
proof (cases "\<exists>overwrite. source_refusal w src = None \<and> destination_refusal w dst src overwrite = None
    \<and> read_flag ''overwrite'' (dget args ''overwrite'') = Inr overwrite")
  case True
  then obtain overwrite where ok: "source_refusal w src = None" "destination_refusal w dst src overwrite = None"
    and run: "execute_move h ft w src dst node = (r, w')"
    using assms(1-4) by (auto simp: file_move_def)
  have sep: "apart src dst" and dst: "dst \<noteq> []"
    using ok move_end_facts [OF assms(3)] by (auto simp: destination_refusal_def overlap_refusal_def apart_def split: if_splits)
  have "no_links (ws_tree w) src" by (rule move_end_no_links [OF assms(2) dir_no_links [OF assms(5)]])
  then have link: "node \<noteq> Link a t" for a t using assms(4) by (auto simp: no_links_def)
  show ?thesis by (rule execute_move_keeps [OF run assms(4) link sep dir_top [OF assms(5)] dst])
next
  case False
  have "w' = w \<and> \<not> (\<exists>out. r = Done out)"
  proof (cases "read_flag ''overwrite'' (dget args ''overwrite'')")
    case (Inl x)
    then show ?thesis using assms(1) read_flag_refuses [OF Inl] by (auto simp: file_move_def)
  next
    case (Inr overwrite)
    then have "source_refusal w src \<noteq> None \<or> destination_refusal w dst src overwrite \<noteq> None" using False by auto
    then show ?thesis using Inr assms(1-3) by (auto simp: file_move_def split: option.splits)
  qed
  then show ?thesis using assms(4) by (auto simp: around_def)
qed

section \<open>Tracked directories survive\<close>














section \<open>Reading in parts, and asking for destruction\<close>

text \<open>C35. Reading a file page by page gives its content, and the last page says that it is the last.\<close>

theorem pages_make_the_content:
  assumes "safe_path h w (PStr name) = Inr p" and "at_path p (ws_tree w) = Some (File bytes mode)"
    and "length bytes \<le> max_read_bytes" and "ho_decode h bytes = Some content" and "\<not> ft_read ft" and "0 < step"
  shows "\<exists>pages. length pages = k
    \<and> (\<forall>i < k. file_read h ft w [(''path'', PStr name), (''offset'', PInt (int (i * step))), (''limit'', PInt (int step))]
           = Done (ReadPart (pages ! i) (i * step) (length content) (Suc i * step < length content)))
    \<and> concat pages = take (k * step) content"
proof (induction k)
  case (Suc k)
  then obtain pages where pages: "length pages = k" "concat pages = take (k * step) content"
    and reads: "\<forall>i < k. file_read h ft w [(''path'', PStr name), (''offset'', PInt (int (i * step))), (''limit'', PInt (int step))]
       = Done (ReadPart (pages ! i) (i * step) (length content) (Suc i * step < length content))"
    by blast
  let ?page = "drop (k * step) (take (min (length content) (k * step + step)) content)"
  have short: "min a b < a \<longleftrightarrow> b < a" for a b :: nat by (simp add: min_def)
  have page: "file_read h ft w [(''path'', PStr name), (''offset'', PInt (int (k * step))), (''limit'', PInt (int step))]
      = Done (ReadPart ?page (k * step) (length content) (Suc k * step < length content))"
    using assms by (simp add: file_read_def read_paging_def read_part_def Let_def add.commute
        short flip: of_nat_mult)
  have "take (min (length content) (k * step + step)) content = take (k * step + step) content"
    by (cases "length content \<le> k * step + step") simp_all
  then have "take (k * step) content @ ?page = take (Suc k * step) content"
    by (metis add.commute append_take_drop_id mult_Suc take_take min.absorb1 le_add1)
  then have "length (pages @ [?page]) = Suc k \<and> concat (pages @ [?page]) = take (Suc k * step) content"
    using pages by simp
  moreover have "\<forall>i < Suc k. file_read h ft w [(''path'', PStr name), (''offset'', PInt (int (i * step))), (''limit'', PInt (int step))]
       = Done (ReadPart ((pages @ [?page]) ! i) (i * step) (length content) (Suc i * step < length content))"
    using reads page pages(1) by (simp add: less_Suc_eq nth_append)
  ultimately show ?case by blast
qed simp

text \<open>Only a literal yes destroys a directory, and a refused deletion has changed nothing.\<close>

theorem only_a_literal_yes_deletes_a_tree:
  assumes "file_delete h ft w args = (r, w')" and "w' \<noteq> w"
  shows "(\<exists>out. r = Done out) \<and> (\<exists>p. mutable_path h w (dget args ''path'') = Inr p
    \<and> (is_dir (at_path p (ws_tree w)) \<longrightarrow> p \<noteq> ws_root w \<and> \<not> tracked_reason w p
         \<and> (dget args ''recursive'' \<in> {PBool True, PInt 1}
             \<or> (\<exists>s. dget args ''recursive'' = PStr s \<and> lower (strip s) \<in> {''true'', ''1''}))))"
proof -
  obtain recursive p where read: "read_flag ''recursive'' (dget args ''recursive'') = Inr recursive"
    and p: "mutable_path h w (dget args ''path'') = Inr p"
    using assms by (auto simp: file_delete_def split: sum.splits)
  have yes: "dget args ''recursive'' \<in> {PBool True, PInt 1}
      \<or> (\<exists>s. dget args ''recursive'' = PStr s \<and> lower (strip s) \<in> {''true'', ''1''})" if recursive
    using read that
    by (auto simp: read_flag_def flag_words_def Let_def split: pyval.splits option.splits if_splits)
  obtain m where m: "at_path p (ws_tree w) = Some m" using assms read p by (auto simp: file_delete_def split: option.splits)
  show ?thesis
    using assms read p m yes
    by (cases m) (auto simp: file_delete_def delete_tree_def is_dir_def split: option.splits if_splits prod.splits)
qed

section \<open>A workspace to try them on\<close>

definition demo_host :: host where
  "demo_host = \<lparr>ho_links = 40, ho_encode = (\<lambda>s. if CHR 0xD8 \<in> set s then None else Some s), ho_decode = Some, ho_mode = 6\<rparr>"

definition smooth :: faults where
  "smooth = \<lparr>ft_mkdir = None, ft_write = None, ft_chmod = False, ft_replace = False, ft_rename = False,
     ft_move = MoveRenames, ft_restore = False, ft_discard = None, ft_unlink = False, ft_read = False\<rparr>"

definition demo_ws :: workspace where
  "demo_ws = \<lparr>ws_tree = Some (Dir
      [(''etc'', File ''secret'' 4),
       (''work'', Dir [(''.git'', File ''gitdir'' 4),
          (''app'', Dir [(''Config'', Dir [(''a'', File ''x'' 7)])]),
          (''tmp'', Dir [(''b'', File ''new'' 5)])])]),
    ws_root = [''work''], ws_tracked = [[''app''], [''app'', ''Config'']]\<rparr>"

lemmas demo_defs = demo_ws_def demo_host_def smooth_def

lemma demo_root: "is_dir (at_path (ws_root demo_ws) (ws_tree demo_ws))" "ws_root demo_ws \<noteq> []"
  by (simp_all add: demo_ws_def is_dir_def)





lemma move_never_loses_witness:
  "at_path [''work'', ''app'', ''b''] (ws_tree (snd (file_move demo_host smooth demo_ws
     [(''source'', PStr ''tmp/b''), (''destination'', PStr ''app/b'')]))) = Some (File ''new'' 5)"
proof -
  let ?args = "[(''source'', PStr ''tmp/b''), (''destination'', PStr ''app/b'')]"
  obtain r w' where run: "file_move demo_host smooth demo_ws ?args = (r, w')"
    by (cases "file_move demo_host smooth demo_ws ?args")
  have ends: "move_end demo_host demo_ws (dget ?args ''source'') = Inr [''work'', ''tmp'', ''b'']"
    "move_end demo_host demo_ws (dget ?args ''destination'') = Inr [''work'', ''app'', ''b'']"
    "at_path [''work'', ''tmp'', ''b''] (ws_tree demo_ws) = Some (File ''new'' 5)" by code_simp+
  have "(case fst (file_move demo_host smooth demo_ws ?args) of Done _ \<Rightarrow> True | _ \<Rightarrow> False)" by code_simp
  then have "\<exists>out. r = Done out" by (simp add: run split: file_reply.splits)
  then show ?thesis using move_never_loses [OF run ends demo_root(1)] run by simp
qed

lemma pages_make_the_content_witness: "\<exists>pages. concat pages = ''new'' \<and> length pages = 2"
proof -
  have place: "safe_path demo_host demo_ws (PStr ''tmp/b'') = Inr [''work'', ''tmp'', ''b'']"
    "at_path [''work'', ''tmp'', ''b''] (ws_tree demo_ws) = Some (File ''new'' 5)"
    by code_simp+
  have rest: "length ''new'' \<le> max_read_bytes" "ho_decode demo_host ''new'' = Some ''new''" "\<not> ft_read smooth" "(0::nat) < 2"
    by (simp_all add: max_read_bytes_def demo_defs)
  show ?thesis using pages_make_the_content [OF place rest, of 2] by auto
qed

lemma only_a_literal_yes_deletes_a_tree_witness:
  "\<exists>out. fst (file_delete demo_host smooth demo_ws [(''path'', PStr ''tmp''), (''recursive'', PStr '' TRUE'')]) = Done out"
proof -
  let ?args = "[(''path'', PStr ''tmp''), (''recursive'', PStr '' TRUE'')]"
  obtain r w' where run: "file_delete demo_host smooth demo_ws ?args = (r, w')"
    by (cases "file_delete demo_host smooth demo_ws ?args")
  have "at_path [''work'', ''tmp''] (ws_tree (snd (file_delete demo_host smooth demo_ws ?args))) = None"
    "at_path [''work'', ''tmp''] (ws_tree demo_ws) \<noteq> None" by code_simp+
  then have "w' \<noteq> demo_ws" by (auto simp: run)
  then show ?thesis using only_a_literal_yes_deletes_a_tree [OF run] run by auto
qed

section \<open>What the code does otherwise\<close>

text \<open>A write to the root itself leaves a scratch file beside the root when its removal is refused.\<close>

lemma root_write_leaves_the_workspace:
  "at_path [''.agent-runtime-tmp.work.0''] (ws_tree (snd (file_write demo_host (smooth\<lparr>ft_discard := Some (File ''x'' 6)\<rparr>) demo_ws
     [(''path'', PStr ''.''), (''content'', PStr ''x'')]))) = Some (File ''x'' 6)"
  by code_simp

text \<open>A text that cannot be encoded makes the call raise, and its scratch file stays.\<close>

lemma unencodable_text_leaves_scratch:
  "file_write demo_host smooth demo_ws [(''path'', PStr ''tmp/b''), (''content'', PStr [CHR 0xD8])]
   = (Raises, demo_ws\<lparr>ws_tree := put_at [''work'', ''tmp'', ''.agent-runtime-tmp.b.0''] (File [] 6) (ws_tree demo_ws)\<rparr>)"
  by code_simp

text \<open>
  A move that the system refuses as a renaming is copied, and its source removed entry by
  entry; a removal that stops loses the tracked place of the source, and the copy is not
  protected: the next call deletes it.
\<close>

lemma stopped_removal_loses_protection:
  "fst (file_move demo_host (smooth\<lparr>ft_move := RemovalStops []\<rparr>) (demo_ws\<lparr>ws_tracked := [[''app'', ''Config'']]\<rparr>)
     [(''source'', PStr ''app''), (''destination'', PStr ''lib'')]) = Refused OsFailure"
  "at_path [''work'', ''app'', ''Config''] (ws_tree (run_tools demo_host
     [(Move [(''source'', PStr ''app''), (''destination'', PStr ''lib'')], smooth\<lparr>ft_move := RemovalStops []\<rparr>),
      (Delete [(''path'', PStr ''lib''), (''recursive'', PBool True)], smooth)] (demo_ws\<lparr>ws_tracked := [[''app'', ''Config'']]\<rparr>))) = None"
  "at_path [''work'', ''lib''] (ws_tree (run_tools demo_host
     [(Move [(''source'', PStr ''app''), (''destination'', PStr ''lib'')], smooth\<lparr>ft_move := RemovalStops []\<rparr>),
      (Delete [(''path'', PStr ''lib''), (''recursive'', PBool True)], smooth)] (demo_ws\<lparr>ws_tracked := [[''app'', ''Config'']]\<rparr>))) = None"
  by code_simp+

end
