(* ===== verification/Spec2Isabelle.thy ===== *)
theory Spec2Isabelle
  imports TaskMachine PlanMachine PlanDag PlanProgress PriceFeed PriceSnapshot Executions
    BoardProperties TaskLifecycle GuardActions GuardChecks ApprovalChain Orchestration
    ReviewContext Budgets BudgetEnvelope Watchdog WorkspaceSafety
begin

text \<open>
  The planning, execution, pricing and guardrail core of a multi-tenant platform on which AI
  agents carry out plans made of tasks. All paths are under \<^verbatim>\<open>src/\<close>; most of the code
  is in \<^verbatim>\<open>apps/api-server/src/api_server/\<close>, written API below, and in
  \<^verbatim>\<open>packages/shared-guardrails/src/shared_guardrails/\<close>, written SG below.

  \<^bold>\<open>The program.\<close> A plan is written in a chat, signed by one or two people and then
  executed: its tasks, connected by dependencies, become ready as their dependencies are
  done, are run by agents or handed to people, reviewed, retried and closed. Every run of
  a task is a row with a log of steps; each model call in the log is priced from a catalog
  that follows a public price feed. Around every model and tool call a pipeline of
  guardrails, configured in three layers, decides whether the call may go on.

  \<^bold>\<open>Theories, parts and source files.\<close>
  \<^item> Prelude: results, sequences of requests (\<open>drive\<close>: a request that raises rolls
    back), the contract \<open>guarded_machine\<close> of a status machine. PyValue: JSON values and the
    operations of the language on them.
  \<^item> TaskMachine: API \<^verbatim>\<open>task_state_machine.py\<close>. The table of legal moves and the
    guarded move; interprets \<open>guarded_machine\<close>.
  \<^item> PlanMachine: API \<^verbatim>\<open>chat/plan_state_machine.py\<close>, \<^verbatim>\<open>routers/_helpers.py\<close>
    (\<open>move_plan\<close>) and the endpoints of \<^verbatim>\<open>routers/plans.py\<close> that write a plan's status:
    generic update, signature, start, signature and start. Interprets \<open>guarded_machine\<close>.
  \<^item> PlanDag: API \<^verbatim>\<open>chat/dag.py\<close>. The iterative three-colour search over the
    dependencies of a plan.
  \<^item> PlanProgress: API \<^verbatim>\<open>plan_progress.py\<close>. Counters of a plan, the fixpoint of tasks
    that can still complete, and the plan moves the tasks cause.
  \<^item> PriceCatalog: API \<^verbatim>\<open>db/model_prices.py\<close> and \<^verbatim>\<open>pricing/litellm_sync/\<close>
    \<^verbatim>\<open>diff.py\<close>, \<^verbatim>\<open>apply.py\<close>, \<^verbatim>\<open>retire.py\<close>: the effective-dated
    table and its synchronisation with the confirmation gate. PriceFeed: \<^verbatim>\<open>feed.py\<close> and
    \<^verbatim>\<open>families.py\<close>, from a JSON feed to candidates. PriceSnapshot: API
    \<^verbatim>\<open>db/price_snapshot.py\<close>, the price one model call freezes.
  \<^item> Executions: API \<^verbatim>\<open>db/execution_repo.py\<close>. Rows of runs: opening, pricing,
    finishing, superseding, cancelling, and the roll-up of their log.
  \<^item> TaskBoard and BoardProperties: the endpoints of API \<^verbatim>\<open>routers/tasks.py\<close> and
    \<^verbatim>\<open>routers/task_lifecycle.py\<close>, the gate of \<^verbatim>\<open>chat/dag_enforcement.py\<close>, the
    promotion of \<^verbatim>\<open>dag_promotion.py\<close>, and the trigger of migration 0009. One state,
    \<open>board\<close>, holds tasks, dependency rows, runs, approval requests, plans and the audit; its
    operations call those of Executions, PlanDag and PlanProgress as the code does.
  \<^item> TaskLifecycle: API \<^verbatim>\<open>task_lifecycle.py\<close>, rejection, escalation and human actions
    over a store. The store protocol is the locale \<open>task_store\<close>; the in-memory store of the
    code interprets it.
  \<^item> GuardTypes, GuardConfig, GuardLayers, GuardPipeline, GuardActions, GuardChecks: SG
    \<^verbatim>\<open>types.py\<close>, \<^verbatim>\<open>config.py\<close>, \<^verbatim>\<open>layers.py\<close>, \<^verbatim>\<open>registry.py\<close> and
    \<^verbatim>\<open>pipeline.py\<close>, \<^verbatim>\<open>actions.py\<close>, \<^verbatim>\<open>checks/cost_ceiling.py\<close> and
    \<^verbatim>\<open>checks/rate_per_agent.py\<close>. The rate store protocol is the locale
    \<open>rate_store\<close>; the in-memory store of the code interprets it.
  \<^item> AgentState, AgentTools, AgentSafeguards, AgentHooks, AgentLoop, AgentGraph: the loop of an
    agent inside its container, \<^verbatim>\<open>docker/agent-runtimes/agent-runtime/agent_runtime/\<close>
    \<^verbatim>\<open>graph.py\<close>, \<^verbatim>\<open>state.py\<close>, \<^verbatim>\<open>safeguards.py\<close>,
    \<^verbatim>\<open>loop_detector.py\<close>, \<^verbatim>\<open>nudges.py\<close>, \<^verbatim>\<open>guardrails.py\<close>,
    \<^verbatim>\<open>tools.py\<close>: every node, its routes and the driver. JsonText: the canonical text of
    a JSON value. AgentFrames and AgentRun hold what is proved of whole runs.
  \<^item> ApprovalGate: \<^verbatim>\<open>agent_runtime/approval.py\<close>, the gate in the container, and the
    copy of its decision on the server. ApprovalEngine and ApprovalRun: API
    \<^verbatim>\<open>db/approval_repo.py\<close>, requests for a human's approval. AgentApproval and
    ApprovalChain join the two: a parked call gets its request, an approval reaches the next run.
  \<^item> EventConsumer: \<^verbatim>\<open>apps/orchestrator/src/orchestrator/\<close> \<^verbatim>\<open>events.py\<close> and
    \<^verbatim>\<open>consumer.py\<close>. Assignment: \<^verbatim>\<open>assignment.py\<close> beside them.
  \<^item> Site: the rows the orchestrator and the workers share, with the guarded move of a task.
    ModelChain: API \<^verbatim>\<open>db/platform_settings.py\<close>, which level names the model of a run.
    Dispatch: \<^verbatim>\<open>orchestrator/dispatch.py\<close>, what becomes of a ready task, a done task and
    a task in review; DispatchRun holds what is proved of it.
  \<^item> RunLife: \<^verbatim>\<open>apps/workers/src/workers/execution.py\<close> and API
    \<^verbatim>\<open>reviewer_bridge.py\<close>, the start and the end of a run, and the verdict of a review.
    RunResult: \<^verbatim>\<open>workers/run_result.py\<close>, what a container leaves. Reconciler:
    \<^verbatim>\<open>workers/maintenance/\<close> \<^verbatim>\<open>reconciler.py\<close> and
    \<^verbatim>\<open>stale_sweeper.py\<close>; Recovery holds what is proved of plans and of the sweep.
  \<^item> TestReport and CommandsRun: what \<^verbatim>\<open>dispatch.py\<close> writes for a reviewer, the report
    of the tests and the block of the commands that really ran; ReviewContext assembles them
    from the rows of the task. TextLines: texts made of lines, cuts, and replacements.
  \<^item> Calendar, BudgetPeriods: the dates of the standard library and API
    \<^verbatim>\<open>budgets/period.py\<close>, the window of a budget. Currency: API
    \<^verbatim>\<open>fx/convert.py\<close>, \<^verbatim>\<open>db/exchange_rates.py\<close>, \<^verbatim>\<open>budgets/human_cost.py\<close>.
    Budgets: API \<^verbatim>\<open>budgets/consumption.py\<close>, \<^verbatim>\<open>pause.py\<close> and \<^verbatim>\<open>sweep.py\<close>, the thresholds of
    \<^verbatim>\<open>db/platform_settings.py\<close> and the sweep of the workers. BudgetEnvelope: API
    \<^verbatim>\<open>budgets/envelope.py\<close> and the check of \<^verbatim>\<open>schemas/projects.py\<close>, the budgets of one run.
  \<^item> Watchdog: \<^verbatim>\<open>apps/watchdog/src/watchdog/\<close>, the monitors that restart the services of
    the platform, their backoff and their alerts.
  \<^item> FileTree, WorkspaceFiles: a file system as a tree, and
    \<^verbatim>\<open>agent_runtime/file_tools.py\<close> over it: reading, writing, deleting and moving inside the
    workspace of a task. WorkspaceSafety holds what is proved of them.
  \<^item> Orchestration: all of these and the approval engine as one step relation over the
    database, the messages in flight and the claims handed out. The claim of a task is a fencing
    token: the contract is the locale \<open>fenced\<close>, which the step relation interprets.

  \<^bold>\<open>What the theorems show.\<close> Status machines: closed tasks and plans stay closed, two
  signatures are of two people, nothing unsigned runs apart from one hole that is shown.
  Dependencies: the search decides acyclicity and names a real cycle, the rows of a project
  stay acyclic under every sequence of requests, promotion releases exactly the tasks whose
  dependencies are done and never lets a plan starve, and two ways around the gate are
  shown. Progress: the fixpoint is the least set, a plan is escalated exactly when stuck, and
  a stall that is missed is shown. Runs: a finished run is final, its columns are the
  roll-up of its log, redelivery leaves one live run. Prices: one open row per key and no
  history lost, no price rises unconfirmed by more than a tenth, a call is never priced by a
  guess, a malformed feed entry that aborts the parse is shown. Review: retries are bounded,
  the history only grows. Guardrails: a locked platform guardrail survives every merge and
  fails closed, every check is heard, the serialised configuration is what the runtime reads,
  redaction leaves no flagged span, the rate limit holds over every window. Agent loop: every
  run ends and within its budgets, work that was produced is never thrown away, done means
  reviewed, the loop detector is the history it summarises. Approvals: a gated call runs only
  with a human's approval of that very call, each approval is worth one call, a decision is
  final, and the places where it is not honoured elsewhere are shown. Events: none is lost and
  none settled twice. Assignment: the rotation is fair, the other policies pick a best agent.
  Orchestration: dispatch sends a run only for a ready task of a live, unpaused project, to an
  agent that may take it; a claim that was taken back never runs, however late its message
  arrives; no task has two running executions; a finished run frees its task and reviews
  converge; nothing stays in progress without a reason; a plan is closed once, by whoever
  notices first; the result of a run survives a lossy stream. A review reads the
  implementer's runs and never the reviewer's own; its block of commands accounts for every
  command within a fixed size, cannot be closed from within, and holds no entry that is not a
  command as long as outputs are not cut; an unknown count of tests is never told as zero.
  Money: a scope that has spent its budget dispatches nothing after the next sweep, the flags
  say of every scope exactly whether it has, each threshold is alerted once, windows tile the
  calendar, and the budgets of a run stay within the ceilings of the platform. Watchdog: restarts
  are bounded and spaced, a service that stays down is given up and reported once. File tools:
  whatever an agent calls and the system refuses, the rest of the file system and the link to
  the repository are untouched, tracked directories survive, a write is all or nothing and a
  move never loses its source.
  Places where a preset, a person's
  route, an unreadable log, an old run, a cut output, a log of tests, a removed budget, a
  service that starts forever or a copying move get around this are shown.

  \<^bold>\<open>Parameters and bounds.\<close> Searches and loops are total functions with a measure
  (white nodes and the stack for the search of a plan, the tasks not yet in the set for the
  fixpoint, the length of the text for a replacement). Two loops carry the bound the code has:
  the driver of the agent graph, its recursion limit, and the reclaim of events, its hundred
  pages; a run is shown to end before its limit. The walk of a custom budget cycle has as many
  steps as days from its anchor, which always suffice; the resolution of a path has the steps
  the host grants (\<open>ho_links\<close>), and running out is the error a loop of links is. What the
  system refuses during a file operation is the record \<open>faults\<close>, an argument of each call.
  Parameters are the clock, the identities the
  requests carry, permissions already decided, the factories of the guardrail registry, the
  model provider, the tools and the memory of an agent with the state of the world they share,
  the hash of a fingerprint, the handler of an event, what the event stream hands out, the
  wording of prompts and reasons, and the printed form of a number in a message. Characters
  are bytes; the few other characters the code writes are bytes of their own. A worker's
  parameters are the record \<open>worker_env\<close>: the reader of a verdict, the resolution of a
  model, the effective guardrails, slugs; a sweep's are what the daemon lists (\<open>daemon\<close>), and a
  container is taken never to report its own run as running (\<open>reports_ends\<close>). Times are
  natural numbers or rationals; money and prices are exact rationals, except where a value may
  be an infinity or a NaN, which are values of their own.

  \<^bold>\<open>What is not modelled.\<close> Storage rounding of decimals and of floats, the tenant and
  permission checks before a handler's body, titles and other descriptive columns, events and
  messages published after a commit, provider clients and process or network tools, and the
  rest of the platform: chat and retrieval, marketplace, notifications, text-scanning
  guardrails, front ends and deployment. Of a dispatch, the comments and tools copied into a
  request; of a worker, git, containers, credentials and locks; of the file tools, the listing.
\<close>

end
